(* ===== verification/Prelude.thy ===== *)
theory Prelude
  imports Main "HOL-Library.Sublist"
begin

text \<open>
  Shared vocabulary of the development: byte strings with the \<open>std::string_view\<close>
  operations the sources use, Linux errno values, and the generic list lemmas the component
  theories rely on.  A C++ \<open>std::string\<close> is a HOL \<^typ>\<open>string\<close>: a \<^typ>\<open>char\<close> is one byte.
\<close>

named_theorems path_simps \<open>rewrite rules for guest and host path strings\<close>
named_theorems path_intros \<open>introduction rules for path well-formedness\<close>

type_synonym errno = nat

definition EPERM :: errno where "EPERM = 1"
definition ENOENT :: errno where "ENOENT = 2"
definition ESRCH :: errno where "ESRCH = 3"
definition EINTR :: errno where "EINTR = 4"
definition EIO :: errno where "EIO = 5"
definition ENOEXEC :: errno where "ENOEXEC = 8"
definition EBADF :: errno where "EBADF = 9"
definition ENOMEM :: errno where "ENOMEM = 12"
definition EACCES :: errno where "EACCES = 13"
definition EFAULT :: errno where "EFAULT = 14"
definition EEXIST :: errno where "EEXIST = 17"
definition ENOTDIR :: errno where "ENOTDIR = 20"
definition EISDIR :: errno where "EISDIR = 21"
definition EINVAL :: errno where "EINVAL = 22"
definition EROFS :: errno where "EROFS = 30"
definition ERANGE :: errno where "ERANGE = 34"
definition ENAMETOOLONG :: errno where "ENAMETOOLONG = 36"
definition ENOSYS :: errno where "ENOSYS = 38"
definition ELOOP :: errno where "ELOOP = 40"
definition EOPNOTSUPP :: errno where "EOPNOTSUPP = 95"

lemmas errno_defs =
  EPERM_def ENOENT_def ESRCH_def EINTR_def EIO_def ENOEXEC_def EBADF_def ENOMEM_def EACCES_def
  EFAULT_def EEXIST_def ENOTDIR_def EISDIR_def EINVAL_def EROFS_def ERANGE_def ENAMETOOLONG_def
  ENOSYS_def ELOOP_def EOPNOTSUPP_def

abbreviation slash :: char where "slash \<equiv> CHR ''/''"
abbreviation nul :: char where "nul \<equiv> CHR 0x00"

abbreviation byte :: "char \<Rightarrow> nat" where "byte c \<equiv> of_char c"

text \<open>
  \<open>split_on sep s\<close> is the reference splitting of \<open>s\<close> at every \<open>sep\<close>: always at least one
  piece, adjacent separators give empty pieces.
\<close>

fun split_on :: "'a \<Rightarrow> 'a list \<Rightarrow> 'a list list" where
  "split_on sep [] = [[]]"
| "split_on sep (c # cs) =
     (if c = sep then [] # split_on sep cs
      else (case split_on sep cs of [] \<Rightarrow> [[c]] | w # ws \<Rightarrow> (c # w) # ws))"

text \<open>\<open>string_view::ends_with\<close> and \<open>std::string_view::find(char)\<close>.\<close>

definition ends_with :: "'a list \<Rightarrow> 'a list \<Rightarrow> bool" where
  "ends_with s t \<longleftrightarrow> length t \<le> length s \<and> drop (length s - length t) s = t"

definition starts_with :: "'a list \<Rightarrow> 'a list \<Rightarrow> bool" where
  "starts_with s t \<longleftrightarrow> take (length t) s = t"

fun find_char :: "'a \<Rightarrow> 'a list \<Rightarrow> nat option" where
  "find_char c [] = None"
| "find_char c (x # xs) = (if x = c then Some 0 else map_option Suc (find_char c xs))"

fun contains_sub :: "'a list \<Rightarrow> 'a list \<Rightarrow> bool" where
  "contains_sub pat [] \<longleftrightarrow> pat = []"
| "contains_sub pat (x # xs) \<longleftrightarrow> starts_with (x # xs) pat \<or> contains_sub pat xs"

text \<open>\<open>std::to_string\<close> of an unsigned number: decimal digits, most significant first.\<close>

definition digit_char :: "nat \<Rightarrow> char" where
  "digit_char d = char_of (48 + d)"

fun dec_string :: "nat \<Rightarrow> string" where
  "dec_string n = (if n < 10 then [digit_char n] else dec_string (n div 10) @ [digit_char (n mod 10)])"

definition int_string :: "int \<Rightarrow> string" where
  "int_string i = (if i < 0 then CHR ''-'' # dec_string (nat (- i)) else dec_string (nat i))"

declare dec_string.simps [simp del]

section \<open>Lists\<close>

lemma split_on_ne [simp]: "split_on sep s \<noteq> []"
  by (induction s) (auto split: list.splits)

lemma split_on_no_sep: "w \<in> set (split_on sep s) \<Longrightarrow> sep \<notin> set w"
  by (induction s arbitrary: w) (auto split: list.splits if_splits)

lemma split_on_id: "sep \<notin> set s \<Longrightarrow> split_on sep s = [s]"
  by (induction s) auto

lemma split_on_app_sep: "split_on sep (xs @ sep # ys) = split_on sep xs @ split_on sep ys"
  by (induction xs) (auto split: list.splits)

lemma split_on_break:
  "split_on sep s =
     (case dropWhile (\<lambda>c. c \<noteq> sep) s of
        [] \<Rightarrow> [takeWhile (\<lambda>c. c \<noteq> sep) s]
      | _ # rest \<Rightarrow> takeWhile (\<lambda>c. c \<noteq> sep) s # split_on sep rest)"
proof (induction s)
  case (Cons a s)
  then show ?case
    by (cases "dropWhile (\<lambda>c. c \<noteq> sep) s"; cases "a = sep")
      (simp_all del: dropWhile_eq_Nil_conv)
qed simp

lemma find_char_None [simp]: "find_char c s = None \<longleftrightarrow> c \<notin> set s"
  by (induction s) auto

lemma find_char_SomeD:
  "find_char c s = Some i \<Longrightarrow> i < length s \<and> s ! i = c \<and> c \<notin> set (take i s)"
  by (induction s arbitrary: i) (auto split: if_splits)

lemma find_char_takeWhile:
  "find_char c s = Some i \<Longrightarrow>
     take i s = takeWhile (\<lambda>x. x \<noteq> c) s \<and> dropWhile (\<lambda>x. x \<noteq> c) s = c # drop (Suc i) s"
  by (induction s arbitrary: i) (auto split: if_splits)

lemma starts_with_prefix: "starts_with s t \<longleftrightarrow> prefix t s"
proof
  show "starts_with s t \<Longrightarrow> prefix t s"
    unfolding starts_with_def by (metis take_is_prefix)
  show "prefix t s \<Longrightarrow> starts_with s t"
    by (auto simp: starts_with_def prefix_def)
qed

lemma ends_with_suffix: "ends_with s t \<longleftrightarrow> suffix t s"
proof
  show "ends_with s t \<Longrightarrow> suffix t s"
    unfolding ends_with_def by (metis suffix_drop)
  show "suffix t s \<Longrightarrow> ends_with s t"
    by (auto simp: ends_with_def suffix_def)
qed

end
