(* ===== verification/Guest_Path.thy ===== *)
theory Guest_Path
  imports Prelude
begin

text \<open>
  Lexical helpers for guest paths (\<open>src/src/vfs/guest_path.cpp\<close>).  None of them touches a file
  system.  The scanning loops over indices are recursions over the remaining bytes.
\<close>

definition kPathMax :: nat where "kPathMax = 4096"

definition is_absolute :: "string \<Rightarrow> bool" where
  "is_absolute p \<longleftrightarrow> p \<noteq> [] \<and> hd p = slash"

lemma components_scan_shorter:
  "p \<noteq> [] \<Longrightarrow>
     length (dropWhile (\<lambda>x. x \<noteq> slash) (dropWhile (\<lambda>x. x = slash) p)) < length p"
proof (induction p)
  case (Cons a p)
  then show ?case
    by (cases "p = []") (auto simp: less_Suc_eq_le length_dropWhile_le)
qed simp

function components :: "string \<Rightarrow> string list" where
  "components p =
     (if p = [] then []
      else let q = dropWhile (\<lambda>x. x = slash) p;
               c = takeWhile (\<lambda>x. x \<noteq> slash) q;
               rest = dropWhile (\<lambda>x. x \<noteq> slash) q
           in if c \<noteq> [] \<and> c \<noteq> ''.'' then c # components rest else components rest)"
  by pat_completeness auto

termination
  by (relation "measure length") (auto simp: components_scan_shorter)

declare components.simps [simp del]

definition has_dotdot :: "string \<Rightarrow> bool" where
  "has_dotdot p \<longleftrightarrow> list_ex (\<lambda>c. c = ''..'') (components p)"

fun lex_push :: "string list \<Rightarrow> string \<Rightarrow> string list" where
  "lex_push stack c =
     (if c = ''..'' then (if stack \<noteq> [] then butlast stack else stack) else stack @ [c])"

fun slash_join :: "string list \<Rightarrow> string" where
  "slash_join [] = []"
| "slash_join (c # cs) = slash # c @ slash_join cs"

definition normalize_lexical :: "string \<Rightarrow> string" where
  "normalize_lexical p =
     (let stack = foldl lex_push [] (components p)
      in if stack = [] then ''/'' else slash_join stack)"

definition join :: "string \<Rightarrow> string \<Rightarrow> string" where
  "join base rel =
     (if is_absolute rel then rel
      else (if base = [] \<or> last base \<noteq> slash then base @ [slash] else base) @ rel)"

definition is_below :: "string \<Rightarrow> string \<Rightarrow> bool" where
  "is_below path pre =
     (if pre = ''/'' then is_absolute path
      else if length path < length pre \<or> take (length pre) path \<noteq> pre then False
      else length path = length pre \<or> path ! length pre = slash)"

definition suffix_after :: "string \<Rightarrow> string \<Rightarrow> string" where
  "suffix_after path pre =
     (if pre = ''/'' then (if path = ''/'' then [] else path) else drop (length pre) path)"

text \<open>
  A \<^emph>\<open>clean\<close> component is what a canonical path is made of; \<open>build\<close>-style rendering of clean
  components is the normal form every table lookup expects.
\<close>

definition clean :: "string \<Rightarrow> bool" where
  "clean c \<longleftrightarrow> c \<noteq> [] \<and> c \<noteq> ''.'' \<and> c \<noteq> ''..'' \<and> slash \<notin> set c"

definition render :: "string list \<Rightarrow> string" where
  "render cs = (if cs = [] then ''/'' else slash_join cs)"

definition canonical :: "string \<Rightarrow> bool" where
  "canonical p \<longleftrightarrow> is_absolute p \<and> render (components p) = p \<and> list_all clean (components p)"

section \<open>Scanning agrees with splitting\<close>

lemma filter_split_skip:
  "filter P (split_on sep (dropWhile (\<lambda>x. x = sep) s)) = filter P (split_on sep s)"
  if "\<not> P []"
  using that by (induction s) auto

lemma filter_split_break:
  assumes "c = takeWhile (\<lambda>x. x \<noteq> sep) q" and "r = dropWhile (\<lambda>x. x \<noteq> sep) q" and "\<not> P []"
  shows "filter P (split_on sep q) =
    (if P c then c # filter P (split_on sep r) else filter P (split_on sep r))"
proof (cases r)
  case Nil
  then have "split_on sep q = [c]"
    using split_on_break [of sep q] assms(1,2) by (simp del: dropWhile_eq_Nil_conv)
  then show ?thesis using Nil assms(3) by simp
next
  case (Cons x xs)
  then have "x = sep"
    using assms(2) hd_dropWhile [of "\<lambda>x. x \<noteq> sep" q] by auto
  moreover have "split_on sep q = c # split_on sep xs"
    unfolding split_on_break [of sep q] assms(2) [symmetric] assms(1) [symmetric] Cons by simp
  ultimately show ?thesis using Cons assms(3) by simp
qed

lemma components_split:
  "components p = filter (\<lambda>c. c \<noteq> [] \<and> c \<noteq> ''.'') (split_on slash p)"
proof (induction p rule: components.induct)
  case (1 p)
  show ?case
  proof (cases "p = []")
    case True
    then show ?thesis by (simp add: components.simps)
  next
    case False
    define q where "q = dropWhile (\<lambda>x. x = slash) p"
    define c where "c = takeWhile (\<lambda>x. x \<noteq> slash) q"
    define r where "r = dropWhile (\<lambda>x. x \<noteq> slash) q"
    let ?P = "\<lambda>c. c \<noteq> [] \<and> c \<noteq> ''.''"
    have IH: "components r = filter ?P (split_on slash r)"
      using "1.IH" [OF False q_def c_def r_def] by blast
    have step: "components p = (if ?P c then c # components r else components r)"
      using False by (subst components.simps) (simp add: Let_def q_def c_def r_def)
    have "filter ?P (split_on slash p) = filter ?P (split_on slash q)"
      unfolding q_def by (rule filter_split_skip [symmetric]) simp
    also have "\<dots> = (if ?P c then c # filter ?P (split_on slash r) else filter ?P (split_on slash r))"
      by (rule filter_split_break) (simp_all add: c_def r_def)
    finally show ?thesis
      using step IH by simp
  qed
qed

section \<open>Rendering and re-reading components\<close>

definition plain :: "string \<Rightarrow> bool" where
  "plain c \<longleftrightarrow> c \<noteq> [] \<and> c \<noteq> ''.'' \<and> slash \<notin> set c"

lemma clean_plain: "clean c \<longleftrightarrow> plain c \<and> c \<noteq> ''..''"
  by (auto simp: clean_def plain_def)

lemma list_all_clean_plain: "list_all clean cs \<Longrightarrow> list_all plain cs"
  by (simp add: list_all_iff clean_plain)

lemma components_plain: "list_all plain (components p)"
  by (auto simp: components_split list_all_iff plain_def dest: split_on_no_sep)

lemma split_slash_join:
  "\<forall>c \<in> set cs. slash \<notin> set c \<Longrightarrow> split_on slash (slash_join cs) = [] # cs"
proof (induction cs)
  case (Cons c cs)
  have IH: "split_on slash (slash_join cs) = [] # cs" using Cons by simp
  have "split_on slash (c @ slash_join cs) = c # cs"
  proof (cases cs)
    case Nil
    then show ?thesis using Cons.prems by (simp add: split_on_id)
  next
    case (Cons d ds)
    then obtain t where t: "slash_join cs = slash # t" by simp
    then show ?thesis
      using IH Cons.prems by (simp add: split_on_app_sep split_on_id)
  qed
  then show ?case by simp
qed simp

lemma components_slash_join [path_simps]: "list_all plain cs \<Longrightarrow> components (slash_join cs) = cs"
  by (subst components_split, subst split_slash_join)
    (auto simp: list_all_iff plain_def intro: filter_True)

lemma components_Nil [simp]: "components [] = []"
  by (simp add: components.simps)

lemma components_root [simp]: "components ''/'' = []"
  by (simp add: components_split)

lemma components_render [path_simps]: "list_all plain cs \<Longrightarrow> components (render cs) = cs"
  by (simp add: render_def components_slash_join)

lemma slash_join_append [path_simps]: "slash_join (xs @ ys) = slash_join xs @ slash_join ys"
  by (induction xs) auto

lemma slash_join_Nil_iff [simp]: "slash_join cs = [] \<longleftrightarrow> cs = []"
  by (cases cs) auto

lemma is_absolute_render [simp]: "is_absolute (render cs)"
  by (cases cs) (auto simp: is_absolute_def render_def)

lemma render_inj: "list_all plain xs \<Longrightarrow> list_all plain ys \<Longrightarrow> render xs = render ys \<longleftrightarrow> xs = ys"
  by (metis components_render)

lemma canonical_render [path_intros]: "list_all clean cs \<Longrightarrow> canonical (render cs)"
  by (simp add: canonical_def components_render list_all_clean_plain)

lemma canonical_iff: "canonical p \<longleftrightarrow> (\<exists>cs. list_all clean cs \<and> p = render cs)"
  by (metis canonical_def canonical_render)

lemma components_append_slash: "components (xs @ slash # ys) = components xs @ components ys"
  by (simp add: components_split split_on_app_sep)

lemma components_Cons_slash [simp]: "components (slash # ys) = components ys"
  by (simp add: components_split)

section \<open>Lexical normalisation\<close>

lemma lex_push_clean:
  "list_all clean st \<Longrightarrow> plain c \<Longrightarrow> list_all clean (lex_push st c)"
  by (auto simp: clean_plain list_all_iff dest: in_set_butlastD)

lemma foldl_lex_push_clean:
  "list_all clean st \<Longrightarrow> list_all plain cs \<Longrightarrow> list_all clean (foldl lex_push st cs)"
  by (induction cs arbitrary: st) (auto simp: lex_push_clean simp del: lex_push.simps)

lemma foldl_lex_push_no_dotdot:
  "list_all clean cs \<Longrightarrow> foldl lex_push st cs = st @ cs"
  by (induction cs arbitrary: st) (auto simp: clean_def)

lemma normalize_render: "normalize_lexical p = render (foldl lex_push [] (components p))"
  by (simp add: normalize_lexical_def render_def Let_def)

lemma components_normalize:
  "components (normalize_lexical p) = foldl lex_push [] (components p)"
  by (simp add: normalize_render components_render foldl_lex_push_clean list_all_clean_plain
      components_plain)

lemma normalize_canonical [path_intros]: "canonical (normalize_lexical p)"
  by (simp add: normalize_render canonical_render foldl_lex_push_clean components_plain)

lemma normalize_of_canonical [path_simps]: "canonical p \<Longrightarrow> normalize_lexical p = p"
  by (simp add: normalize_render foldl_lex_push_no_dotdot canonical_def)

lemma has_dotdot_clean: "\<not> has_dotdot p \<longleftrightarrow> list_all clean (components p)"
  using components_plain [of p] by (auto simp: has_dotdot_def list_ex_iff list_all_iff clean_plain)

lemma normalize_no_dotdot: "\<not> has_dotdot p \<Longrightarrow> normalize_lexical p = render (components p)"
  by (simp add: has_dotdot_clean normalize_render foldl_lex_push_no_dotdot)

section \<open>Prefix tests\<close>

lemma slash_join_prefix:
  assumes "list_all plain xs" "list_all plain ys"
  shows "(\<exists>t. slash_join xs = slash_join ys @ t \<and> (t = [] \<or> hd t = slash)) \<longleftrightarrow> prefix ys xs"
proof
  assume "\<exists>t. slash_join xs = slash_join ys @ t \<and> (t = [] \<or> hd t = slash)"
  then obtain t where t: "slash_join xs = slash_join ys @ t" "t = [] \<or> hd t = slash" by blast
  show "prefix ys xs"
  proof (cases t)
    case Nil
    then have "xs = ys" using t(1) assms by (metis append_Nil2 components_slash_join)
    then show ?thesis by simp
  next
    case (Cons a u)
    then have "slash_join xs = slash_join ys @ slash # u" using t by simp
    then have "components (slash_join xs) = components (slash_join ys) @ components u"
      by (simp add: components_append_slash)
    then show ?thesis using assms by (simp add: components_slash_join)
  qed
next
  assume "prefix ys xs"
  then obtain zs where "xs = ys @ zs" by (auto simp: prefix_def)
  then show "\<exists>t. slash_join xs = slash_join ys @ t \<and> (t = [] \<or> hd t = slash)"
    by (intro exI [of _ "slash_join zs"]) (cases zs, auto simp: slash_join_append)
qed

lemma is_below_alt:
  assumes "pre \<noteq> ''/''"
  shows "is_below path pre \<longleftrightarrow> (\<exists>t. path = pre @ t \<and> (t = [] \<or> hd t = slash))"
proof
  assume b: "is_below path pre"
  have "path = pre @ drop (length pre) path"
    using b assms by (metis append_take_drop_id is_below_def)
  moreover have "drop (length pre) path = [] \<or> hd (drop (length pre) path) = slash"
    using b assms
    by (cases "length path = length pre") (auto simp: is_below_def hd_drop_conv_nth split: if_splits)
  ultimately show "\<exists>t. path = pre @ t \<and> (t = [] \<or> hd t = slash)" by blast
next
  assume "\<exists>t. path = pre @ t \<and> (t = [] \<or> hd t = slash)"
  then obtain t where "path = pre @ t" "t = [] \<or> hd t = slash" by blast
  then show "is_below path pre"
    using assms by (cases t) (auto simp: is_below_def)
qed

lemma is_below_take: "is_below p a \<Longrightarrow> take (length a) p = a"
  by (cases p) (auto simp: is_below_def is_absolute_def split: if_splits)

lemma render_not_root: "list_all plain ys \<Longrightarrow> ys \<noteq> [] \<Longrightarrow> render ys \<noteq> ''/''"
  by (metis components_render components_root)

lemma is_below_render [path_simps]:
  assumes "list_all clean xs" "list_all clean ys"
  shows "is_below (render xs) (render ys) \<longleftrightarrow> prefix ys xs"
proof (cases "ys = []")
  case True
  then show ?thesis by (simp add: is_below_def render_def [of "[]"])
next
  case False
  have pl: "list_all plain xs" "list_all plain ys" using assms list_all_clean_plain by auto
  have "is_below (render xs) (render ys) \<longleftrightarrow>
    (\<exists>t. render xs = slash_join ys @ t \<and> (t = [] \<or> hd t = slash))"
    using False is_below_alt [OF render_not_root [OF pl(2) False], of "render xs"]
    by (simp add: render_def [of ys])
  also have "\<dots> \<longleftrightarrow> prefix ys xs"
  proof (cases "xs = []")
    case True
    obtain d ds where "ys = d # ds" using False by (cases ys) auto
    then show ?thesis using True False pl by (auto simp: render_def plain_def)
  next
    case xs: False
    then show ?thesis using slash_join_prefix [OF pl] by (simp add: render_def)
  qed
  finally show ?thesis .
qed

lemma suffix_after_render [path_simps]:
  assumes "list_all clean (ys @ zs)"
  shows "suffix_after (render (ys @ zs)) (render ys) = slash_join zs"
proof (cases "ys = []")
  case True
  then show ?thesis
    using assms render_not_root [of zs] list_all_clean_plain
    by (auto simp: suffix_after_def render_def)
next
  case False
  then have "render ys \<noteq> ''/''" using assms render_not_root list_all_clean_plain by auto
  then show ?thesis
    using False by (simp add: suffix_after_def render_def slash_join_append)
qed

lemma join_components:
  "components (join base rel) =
     (if is_absolute rel then components rel else components base @ components rel)"
proof (cases "is_absolute rel \<or> base = [] \<or> last base \<noteq> slash")
  case True
  then show ?thesis by (auto simp: join_def components_append_slash)
next
  case False
  then obtain b where "base = b @ [slash]"
    by (metis append_butlast_last_id)
  then show ?thesis using False by (simp add: join_def components_append_slash)
qed

section \<open>Properties\<close>

text \<open>
  \<open>normalize_lexical\<close> always yields a canonical path (absolute, no empty, \<open>.\<close> or \<open>..\<close>
  component, no trailing slash), is the identity on canonical paths, and hence is idempotent.
\<close>

theorem normalize_lexical_canonical:
  "canonical (normalize_lexical p) \<and>
   (canonical p \<longleftrightarrow> normalize_lexical p = p) \<and>
   normalize_lexical (normalize_lexical p) = normalize_lexical p"
  by (metis normalize_canonical normalize_of_canonical)

text \<open>
  A trailing \<open>..\<close> removes the last component of the normalised path and is clamped at the
  root, where there is nothing to remove.
\<close>

theorem normalize_lexical_dotdot:
  "components (normalize_lexical (p @ ''/..'')) = butlast (components (normalize_lexical p))"
proof -
  have "components ''..'' = [''..'']" by (simp add: components_split)
  then have "components (p @ ''/..'') = components p @ [''..'']"
    using components_append_slash [of p "''..''"] by simp
  then show ?thesis by (simp add: components_normalize)
qed

text \<open>
  On canonical paths the byte-level test \<open>is_below\<close> is exactly the component-wise prefix
  relation, so \<open>/ab\<close> is not below \<open>/a\<close>.
\<close>

theorem is_below_component_prefix:
  assumes "canonical p" and "canonical q"
  shows "is_below p q \<longleftrightarrow> prefix (components q) (components p)"
  using assms by (metis canonical_def is_below_render)

theorem is_below_component_prefix_witness:
  "\<not> is_below ''/ab'' ''/a'' \<and> is_below ''/a/b'' ''/a''"
proof -
  have c: "canonical ''/ab''" "canonical ''/a''" "canonical ''/a/b''"
    by (simp_all add: canonical_def components_split render_def clean_def is_absolute_def)
  show ?thesis
    using is_below_component_prefix [OF c(1) c(2)] is_below_component_prefix [OF c(3) c(2)]
    by (simp add: components_split)
qed

end
