(* ===== verification/Mount_Table.thy ===== *)
theory Mount_Table
  imports Guest_Path "HOL-Library.Multiset"
begin

text \<open>
  The guest/host path mapping table (\<open>src/src/vfs/mount_table.cpp\<close>).  The vector of mounts is a
  list whose first element is the rootfs; both lookups keep the longest matching prefix, and the
  shared loop is studied once in the locale \<open>prefix_table\<close>, interpreted for the guest side and for
  the host side.
\<close>

datatype mount_kind = Kind_rootfs | Kind_bind | Kind_device | Kind_proc

record mount =
  m_guest :: string
  m_host :: string
  m_read_only :: bool
  m_kind :: mount_kind
  m_source :: string

type_synonym mount_table = "mount list"

definition mount_table_new :: "string \<Rightarrow> bool \<Rightarrow> mount_table" where
  "mount_table_new rootfs_host rootfs_read_only =
     [\<lparr>m_guest = ''/'', m_host = rootfs_host, m_read_only = rootfs_read_only,
       m_kind = Kind_rootfs, m_source = ''rootfs''\<rparr>]"

definition add_mount :: "mount_table \<Rightarrow> mount \<Rightarrow> mount_table" where
  "add_mount t m = t @ [m]"

fun keep_longest :: "('m \<Rightarrow> string) \<Rightarrow> string \<Rightarrow> 'm option \<Rightarrow> 'm list \<Rightarrow> 'm option" where
  "keep_longest key path best [] = best"
| "keep_longest key path best (m # ms) =
     (if is_below path (key m) \<and>
         (case best of None \<Rightarrow> True | Some b \<Rightarrow> length (key m) > length (key b))
      then keep_longest key path (Some m) ms
      else keep_longest key path best ms)"

definition mount_for_guest :: "mount_table \<Rightarrow> string \<Rightarrow> mount option" where
  "mount_for_guest t guest = keep_longest m_guest guest None t"

definition to_host :: "mount_table \<Rightarrow> string \<Rightarrow> mount \<times> string" where
  "to_host t guest =
     (let m = (case mount_for_guest t guest of None \<Rightarrow> hd t | Some m \<Rightarrow> m);
          rest = suffix_after guest (m_guest m)
      in (m, if rest \<noteq> [] then (if m_host m = ''/'' then rest else m_host m @ rest) else m_host m))"

definition to_guest :: "mount_table \<Rightarrow> string \<Rightarrow> string option" where
  "to_guest t host =
     (case keep_longest m_host host None t of
        None \<Rightarrow> None
      | Some best \<Rightarrow>
          (let rest = suffix_after host (m_host best)
           in if m_guest best = ''/'' then Some (if rest = [] then ''/'' else rest)
              else Some (m_guest best @ rest)))"

text \<open>
  What the supervisor guarantees of its table: the rootfs comes first and is mounted on the guest
  root, guest paths were normalised, host paths come from \<open>realpath\<close>.
\<close>

definition table_ok :: "mount_table \<Rightarrow> bool" where
  "table_ok t \<longleftrightarrow>
     t \<noteq> [] \<and> m_guest (hd t) = ''/'' \<and>
     list_all (\<lambda>m. canonical (m_guest m) \<and> canonical (m_host m)) t"

definition disjoint_hosts :: "mount_table \<Rightarrow> bool" where
  "disjoint_hosts t \<longleftrightarrow>
     (\<forall>m \<in> set t. \<forall>m' \<in> set t. m \<noteq> m' \<longrightarrow> \<not> is_below (m_host m) (m_host m'))"

section \<open>Longest prefix selection\<close>

locale prefix_table =
  fixes key :: "'m \<Rightarrow> string"
begin

lemma keep_longest_in:
  "keep_longest key p b ms = Some m \<Longrightarrow>
     b = Some m \<or> (m \<in> set ms \<and> is_below p (key m))"
  by (induction ms arbitrary: b) (auto split: if_splits)

lemma keep_longest_mono:
  "keep_longest key p (Some b) ms = Some m \<Longrightarrow> length (key b) \<le> length (key m)"
  by (induction ms arbitrary: b) (fastforce split: if_splits)+

lemma keep_longest_Some: "keep_longest key p (Some b) ms \<noteq> None"
  by (induction ms arbitrary: b) auto

lemma keep_longest_max:
  "keep_longest key p b ms = Some m \<Longrightarrow> m' \<in> set ms \<Longrightarrow> is_below p (key m') \<Longrightarrow>
     length (key m') \<le> length (key m)"
proof (induction ms arbitrary: b)
  case (Cons x xs)
  show ?case
  proof (cases "m' = x")
    case True
    show ?thesis
    proof (cases b)
      case None
      then show ?thesis using Cons.prems True keep_longest_mono by auto
    next
      case (Some c)
      then show ?thesis
        using Cons.prems True keep_longest_mono [of p x xs m] keep_longest_mono [of p c xs m]
        by (auto split: if_splits)
    qed
  next
    case False
    then show ?thesis using Cons by (auto split: if_splits)
  qed
qed simp

lemma keep_longest_None:
  "keep_longest key p None ms = None \<longleftrightarrow> (\<forall>m \<in> set ms. \<not> is_below p (key m))"
  by (induction ms) (auto simp: keep_longest_Some)

lemma below_same_length:
  "is_below p a \<Longrightarrow> is_below p b \<Longrightarrow> length a = length b \<Longrightarrow> a = b"
  by (metis is_below_take)

text \<open>The selected entry depends only on which entries there are, not on their order.\<close>

lemma keep_longest_unique:
  assumes "inj_on key (set ms)" and "set ms = set ms'"
  shows "keep_longest key p None ms = keep_longest key p None ms'"
proof (cases "keep_longest key p None ms")
  case None
  then show ?thesis using assms(2) keep_longest_None by metis
next
  case (Some m)
  then obtain m' where m': "keep_longest key p None ms' = Some m'"
    using assms(2) keep_longest_None by (metis not_Some_eq)
  have in1: "m \<in> set ms" "is_below p (key m)" using keep_longest_in [OF Some] by auto
  have in2: "m' \<in> set ms" "is_below p (key m')" using keep_longest_in [OF m'] assms(2) by auto
  have "length (key m') \<le> length (key m)" using keep_longest_max [OF Some in2] .
  moreover have "length (key m) \<le> length (key m')"
    using keep_longest_max [OF m'] in1 assms(2) by blast
  ultimately have "key m = key m'" using below_same_length in1(2) in2(2) by simp
  then show ?thesis using Some m' assms(1) in1(1) in2(1) by (auto dest: inj_onD)
qed

end

interpretation guest_side: prefix_table m_guest .

interpretation host_side: prefix_table m_host .

section \<open>Lookup facts on canonical tables\<close>

lemma table_okE:
  assumes "table_ok t" and "m \<in> set t"
  obtains ys hs where "m_guest m = render ys" "m_host m = render hs"
    "list_all clean ys" "list_all clean hs"
  using assms by (fastforce simp: table_ok_def list_all_iff canonical_iff)

lemma mount_for_guest_total:
  assumes "table_ok t" and "is_absolute g"
  obtains m where "mount_for_guest t g = Some m" "m \<in> set t" "is_below g (m_guest m)"
proof -
  have "hd t \<in> set t" "is_below g (m_guest (hd t))"
    using assms by (auto simp: table_ok_def is_below_def)
  then have "mount_for_guest t g \<noteq> None"
    unfolding mount_for_guest_def using guest_side.keep_longest_None by blast
  then show ?thesis
    using guest_side.keep_longest_in that by (fastforce simp: mount_for_guest_def)
qed

lemma to_host_render:
  assumes "table_ok t" and "list_all clean cs"
  obtains m ys zs hs where
    "mount_for_guest t (render cs) = Some m" "m \<in> set t" "cs = ys @ zs" "m_guest m = render ys"
    "m_host m = render hs" "list_all clean hs" "to_host t (render cs) = (m, render (hs @ zs))"
proof -
  obtain m where m: "mount_for_guest t (render cs) = Some m" "m \<in> set t"
    "is_below (render cs) (m_guest m)"
    using mount_for_guest_total [OF assms(1)] by (metis is_absolute_render)
  obtain ys hs where k: "m_guest m = render ys" "m_host m = render hs"
    "list_all clean ys" "list_all clean hs"
    using table_okE [OF assms(1) m(2)] by blast
  have "prefix ys cs" using m(3) k assms(2) by (simp add: is_below_render)
  then obtain zs where zs: "cs = ys @ zs" by (auto simp: prefix_def)
  have "suffix_after (render cs) (m_guest m) = slash_join zs"
    using assms(2) k zs by (simp add: suffix_after_render)
  moreover have "hs \<noteq> [] \<Longrightarrow> slash_join hs \<noteq> ''/''"
    using k(4) render_not_root list_all_clean_plain by (metis render_def)
  ultimately have "to_host t (render cs) = (m, render (hs @ zs))"
    using m(1) k by (auto simp: to_host_def Let_def render_def slash_join_append)
  then show ?thesis using that m k zs by blast
qed

lemma to_guest_render:
  assumes "table_ok t" and "list_all clean cs" and "to_guest t (render cs) = Some g"
  obtains m ys hs zs where "m \<in> set t" "cs = hs @ zs" "m_host m = render hs"
    "m_guest m = render ys" "list_all clean ys" "g = render (ys @ zs)"
proof -
  obtain m where m: "keep_longest m_host (render cs) None t = Some m"
    using assms(3) by (auto simp: to_guest_def split: option.splits)
  then have in_t: "m \<in> set t" "is_below (render cs) (m_host m)"
    using host_side.keep_longest_in by auto
  obtain ys hs where k: "m_guest m = render ys" "m_host m = render hs"
    "list_all clean ys" "list_all clean hs"
    using table_okE [OF assms(1) in_t(1)] by blast
  obtain zs where zs: "cs = hs @ zs"
    using in_t(2) k assms(2) by (auto simp: is_below_render prefix_def)
  have "suffix_after (render cs) (m_host m) = slash_join zs"
    using assms(2) k zs by (simp add: suffix_after_render)
  moreover have "ys \<noteq> [] \<Longrightarrow> slash_join ys \<noteq> ''/''"
    using k(3) render_not_root list_all_clean_plain by (metis render_def)
  ultimately have "g = render (ys @ zs)"
    using assms(3) m k by (auto simp: to_guest_def Let_def render_def slash_join_append split: if_splits)
  then show ?thesis using that in_t k zs by blast
qed

lemma to_host_canonical: "table_ok t \<Longrightarrow> canonical g \<Longrightarrow> canonical (snd (to_host t g))"
  by (metis canonical_iff canonical_render list_all_append snd_conv to_host_render)

section \<open>Properties\<close>

text \<open>
  For an absolute guest path of a well-formed table a mount is always found, it covers the
  path, and no other covering mount has a longer guest prefix.
\<close>

theorem mount_for_guest_longest:
  assumes "table_ok t" and "is_absolute g"
  shows "\<exists>m \<in> set t. mount_for_guest t g = Some m \<and> is_below g (m_guest m) \<and>
    (\<forall>m' \<in> set t. is_below g (m_guest m') \<longrightarrow> length (m_guest m') \<le> length (m_guest m))"
proof -
  obtain m where m: "mount_for_guest t g = Some m" "m \<in> set t" "is_below g (m_guest m)"
    using mount_for_guest_total [OF assms] .
  then show ?thesis
    using guest_side.keep_longest_max [of g None t m] by (auto simp: mount_for_guest_def)
qed

text \<open>
  The order in which mounts were added does not matter, as the header of the class promises:
  two tables with the same mounts (distinct guest paths) answer every guest lookup alike.
\<close>

theorem mount_lookup_order_irrelevant:
  assumes "mset t = mset t'" and "inj_on m_guest (set t)"
  shows "mount_for_guest t g = mount_for_guest t' g"
  unfolding mount_for_guest_def
  using guest_side.keep_longest_unique [OF assms(2) mset_eq_setD [OF assms(1)]] .

text \<open>
  A canonical guest path always maps to a canonical host path inside the host directory of the
  selected mount, which belongs to the table.
\<close>

lemma to_host_contained:
  assumes "table_ok t" and "canonical g"
  shows "fst (to_host t g) \<in> set t \<and> canonical (snd (to_host t g)) \<and>
    is_below (snd (to_host t g)) (m_host (fst (to_host t g)))"
proof -
  obtain cs where cs: "list_all clean cs" "g = render cs" using assms(2) canonical_iff by blast
  obtain m ys zs hs where "m \<in> set t" "m_host m = render hs" "list_all clean hs" "cs = ys @ zs"
    "to_host t (render cs) = (m, render (hs @ zs))"
    using to_host_render [OF assms(1) cs(1)] by metis
  then show ?thesis
    using cs by (auto simp: is_below_render canonical_render)
qed

text \<open>
  When no mount's host tree lies inside another's, mapping a canonical guest path to the host
  and back is the identity.
\<close>

theorem to_guest_to_host:
  assumes "table_ok t" and "disjoint_hosts t" and "canonical g"
  shows "to_guest t (snd (to_host t g)) = Some g"
proof -
  obtain cs where cs: "list_all clean cs" "g = render cs" using assms(3) canonical_iff by blast
  obtain m ys zs hs where m: "m \<in> set t" "cs = ys @ zs" "m_guest m = render ys"
    "m_host m = render hs" "list_all clean hs" "to_host t (render cs) = (m, render (hs @ zs))"
    using to_host_render [OF assms(1) cs(1)] by metis
  have h: "list_all clean (hs @ zs)" using cs m by simp
  have "keep_longest m_host (render (hs @ zs)) None t = Some m"
  proof -
    have b: "is_below (render (hs @ zs)) (m_host m)" using h m by (simp add: is_below_render)
    then obtain m' where m': "keep_longest m_host (render (hs @ zs)) None t = Some m'"
      using m(1) host_side.keep_longest_None by (metis not_Some_eq)
    then have in': "m' \<in> set t" "is_below (render (hs @ zs)) (m_host m')"
      using host_side.keep_longest_in by auto
    obtain ks where ks: "m_host m' = render ks" "list_all clean ks"
      using table_okE [OF assms(1) in'(1)] by metis
    have "prefix hs (hs @ zs)" "prefix ks (hs @ zs)"
      using in'(2) ks h by (auto simp: is_below_render)
    then have "prefix hs ks \<or> prefix ks hs" by (rule prefix_same_cases)
    then have "is_below (m_host m') (m_host m) \<or> is_below (m_host m) (m_host m')"
      using ks m by (simp add: is_below_render)
    then show ?thesis using assms(2) m(1) in'(1) m' by (auto simp: disjoint_hosts_def)
  qed
  moreover have "suffix_after (render (hs @ zs)) (render hs) = slash_join zs"
    using h by (rule suffix_after_render)
  moreover have "ys \<noteq> [] \<Longrightarrow> render ys \<noteq> ''/''"
    using cs m render_not_root list_all_clean_plain by fastforce
  ultimately show ?thesis
    using cs m by (auto simp: to_guest_def Let_def render_def slash_join_append)
qed

section \<open>Witnesses\<close>

definition sample_table :: mount_table where
  "sample_table =
     add_mount
       (add_mount (mount_table_new ''/data/rootfs'' False)
         \<lparr>m_guest = ''/mnt'', m_host = ''/home/u'', m_read_only = True,
          m_kind = Kind_bind, m_source = ''bind''\<rparr>)
       \<lparr>m_guest = ''/mnt/work'', m_host = ''/srv/w'', m_read_only = False,
        m_kind = Kind_bind, m_source = ''bind''\<rparr>"

lemmas table_eval =
  sample_table_def mount_table_new_def add_mount_def table_ok_def disjoint_hosts_def
  is_below_def is_absolute_def canonical_def components_split render_def clean_def

lemma sample_table_ok: "table_ok sample_table"
  by (simp add: table_eval)

lemma sample_table_disjoint: "disjoint_hosts sample_table"
  by (simp add: table_eval)

lemma sample_path_canonical: "canonical ''/mnt/work/a''"
  by (simp add: table_eval)

theorem mount_for_guest_longest_witness:
  "\<exists>m \<in> set sample_table. mount_for_guest sample_table ''/mnt/work/a'' = Some m \<and>
     m_host m = ''/srv/w''"
proof -
  have a: "is_absolute ''/mnt/work/a''" by (simp add: is_absolute_def)
  obtain m where m: "m \<in> set sample_table" "mount_for_guest sample_table ''/mnt/work/a'' = Some m"
    "\<forall>m' \<in> set sample_table. is_below ''/mnt/work/a'' (m_guest m') \<longrightarrow>
       length (m_guest m') \<le> length (m_guest m)"
    using mount_for_guest_longest [OF sample_table_ok a] by blast
  then show ?thesis by (auto simp: table_eval)
qed

theorem mount_lookup_order_irrelevant_witness:
  "mount_for_guest sample_table ''/mnt/x'' = mount_for_guest (rev sample_table) ''/mnt/x''"
proof -
  have "inj_on m_guest (set sample_table)" by (simp add: table_eval)
  then show ?thesis
    using mount_lookup_order_irrelevant [of sample_table "rev sample_table"] by simp
qed

theorem to_guest_to_host_witness:
  "to_guest sample_table (snd (to_host sample_table ''/mnt/work/a'')) = Some ''/mnt/work/a''"
  using to_guest_to_host [OF sample_table_ok sample_table_disjoint sample_path_canonical] .

end
