(* ===== verification/Link_Marker.thy ===== *)
theory Link_Marker
  imports Guest_Path
begin

text \<open>
  Names shared by the hard-link emulation and the resolver (\<open>src/src/vfs/link_marker.hpp\<close>): an
  emulated hard link is a symlink whose target ends in \<open>.vhdp-hardlinks/<id>\<close>.
\<close>

definition kLinkStoreDir :: string where "kLinkStoreDir = ''.vhdp-hardlinks''"
definition kLinkIdLen :: nat where "kLinkIdLen = 32"

definition id_char :: "char \<Rightarrow> bool" where
  "id_char c \<longleftrightarrow>
     of_char c \<in> {48..57::nat} \<or> of_char c \<in> {97..102::nat}"

definition is_link_id :: "string \<Rightarrow> bool" where
  "is_link_id s \<longleftrightarrow> length s = kLinkIdLen \<and> list_all id_char s"

definition link_target_id :: "string \<Rightarrow> string" where
  "link_target_id target =
     (if length target < length kLinkStoreDir + 1 + kLinkIdLen then []
      else let ident = drop (length target - kLinkIdLen) target;
               head = take (length target - kLinkIdLen) target
           in if \<not> is_link_id ident \<or> last head \<noteq> slash then []
              else let head = butlast head
                   in if length head < length kLinkStoreDir \<or>
                         drop (length head - length kLinkStoreDir) head \<noteq> kLinkStoreDir then []
                      else if length head > length kLinkStoreDir \<and>
                              head ! (length head - length kLinkStoreDir - 1) \<noteq> slash then []
                      else ident)"

definition link_store_path :: "string \<Rightarrow> string" where
  "link_store_path mount_root =
     (if mount_root = [] \<or> last mount_root \<noteq> slash then mount_root @ [slash] else mount_root)
       @ kLinkStoreDir"

section \<open>Recognising link targets\<close>

lemma is_link_id_ne: "is_link_id s \<Longrightarrow> s \<noteq> []"
  by (auto simp: is_link_id_def kLinkIdLen_def)

lemma is_link_id_clean: "is_link_id s \<Longrightarrow> clean s"
  by (auto simp: is_link_id_def kLinkIdLen_def clean_def list_all_iff id_char_def)

lemma link_target_id_intro:
  assumes "is_link_id i" and "pre = [] \<or> last pre = slash"
  shows "link_target_id (pre @ kLinkStoreDir @ slash # i) = i"
proof -
  let ?t = "(pre @ kLinkStoreDir @ [slash]) @ i"
  have len: "length i = kLinkIdLen" using assms(1) by (simp add: is_link_id_def)
  have sp: "drop (length ?t - kLinkIdLen) ?t = i"
    "take (length ?t - kLinkIdLen) ?t = pre @ kLinkStoreDir @ [slash]"
    using len by simp_all
  have bl: "butlast (pre @ kLinkStoreDir @ [slash]) = pre @ kLinkStoreDir"
    by (simp add: butlast_append)
  have tail: "pre \<noteq> [] \<Longrightarrow> (pre @ kLinkStoreDir) ! (length pre - 1) = slash"
    using assms(2) by (auto simp: nth_append last_conv_nth)
  have "link_target_id ?t = i"
    unfolding link_target_id_def Let_def sp bl using assms(1) len tail by auto
  then show ?thesis by simp
qed

lemma link_target_id_elim:
  assumes "link_target_id t \<noteq> []"
  obtains pre where "t = pre @ kLinkStoreDir @ slash # link_target_id t"
    "pre = [] \<or> last pre = slash" "is_link_id (link_target_id t)"
proof -
  define i where "i = drop (length t - kLinkIdLen) t"
  define h where "h = take (length t - kLinkIdLen) t"
  define b where "b = butlast h"
  let ?n = "length b - length kLinkStoreDir"
  have c: "length kLinkStoreDir + 1 + kLinkIdLen \<le> length t" "is_link_id i" "last h = slash"
    "length kLinkStoreDir \<le> length b" "drop ?n b = kLinkStoreDir"
    "length b > length kLinkStoreDir \<longrightarrow> b ! (?n - 1) = slash" "link_target_id t = i"
    using assms unfolding link_target_id_def Let_def i_def h_def b_def
    by (auto simp: not_less split: if_splits)
  have "h \<noteq> []" using c(1) by (auto simp: h_def)
  then have "h = b @ [slash]" using c(3) unfolding b_def by (metis append_butlast_last_id)
  moreover have "b = take ?n b @ kLinkStoreDir" using c(5) by (metis append_take_drop_id)
  moreover have "t = h @ i" by (simp add: h_def i_def)
  ultimately have "t = take ?n b @ kLinkStoreDir @ slash # i" by (metis append.assoc append_Cons append_Nil)
  moreover have "take ?n b = [] \<or> last (take ?n b) = slash"
  proof (cases "?n = 0")
    case False
    then have "b \<noteq> []" by auto
    then show ?thesis using False c(4,6) by (simp add: last_conv_nth)
  qed simp
  ultimately show ?thesis using that c(2,7) by metis
qed

section \<open>Properties\<close>

text \<open>
  \<open>link_target_id\<close> recognises exactly the targets that end in the store directory followed by
  a 32-digit lower-case hexadecimal id, the store name being a whole path component.
\<close>

theorem link_target_id_iff:
  "link_target_id t = i \<and> i \<noteq> [] \<longleftrightarrow>
     is_link_id i \<and> (\<exists>pre. t = pre @ kLinkStoreDir @ slash # i \<and> (pre = [] \<or> last pre = slash))"
  by (metis is_link_id_ne link_target_id_elim link_target_id_intro)

lemma link_store_target:
  assumes "is_link_id i"
  shows "link_target_id (link_store_path root @ slash # i) = i"
proof -
  let ?r = "if root = [] \<or> last root \<noteq> slash then root @ [slash] else root"
  have "link_store_path root @ slash # i = ?r @ kLinkStoreDir @ slash # i"
    by (simp add: link_store_path_def)
  moreover have "?r = [] \<or> last ?r = slash" by auto
  ultimately show ?thesis using link_target_id_intro [OF assms, of ?r] by simp
qed

end
