(* ===== verification/Resolver.thy ===== *)
theory Resolver
  imports Mount_Table Link_Marker
begin

text \<open>
  The symlink-aware guest path resolver (\<open>src/src/vfs/resolver.cpp\<close>).  The host kernel is a
  parameter: a record of the \<open>lstat\<close> and \<open>readlink\<close> answers the calls of one resolution get.
  The \<open>while\<close> loop of \<open>resolve\<close> is \<open>resolve_loop\<close> over \<open>resolve_step\<close>, one call per component.
  Its termination argument is the code's: a step consumes a pending component or one of the
  \<open>max_symlinks\<close> allowed links.
\<close>

datatype file_type = FT_reg | FT_dir | FT_lnk | FT_chr | FT_blk | FT_fifo | FT_sock

record host_stat =
  st_dev :: nat
  st_ino :: nat
  st_type :: file_type

record host_fs =
  lstat :: "string \<Rightarrow> errno + host_stat"
  readlink :: "string \<Rightarrow> errno + string"

definition read_link :: "host_fs \<Rightarrow> string \<Rightarrow> errno + string" where
  "read_link fs host =
     (case readlink fs host of
        Inl e \<Rightarrow> Inl e
      | Inr target \<Rightarrow> if length target \<ge> kPathMax then Inl ENAMETOOLONG else Inr target)"

definition build :: "string list \<Rightarrow> string" where
  "build parts = (if parts = [] then ''/'' else slash_join parts)"

definition trailing_slash :: "string \<Rightarrow> bool" where
  "trailing_slash p \<longleftrightarrow> length p > 1 \<and> last p = slash"

definition only_dots :: "string list \<Rightarrow> bool" where
  "only_dots pending \<longleftrightarrow> list_all (\<lambda>p. p = ''.'') pending"

text \<open>The directory cache: guest path to host path, device and inode.\<close>

record cache_entry =
  ce_host :: string
  ce_dev :: nat
  ce_ino :: nat

type_synonym dir_cache = "(string \<times> cache_entry) list"

definition kMaxEntries :: nat where "kMaxEntries = 8192"

definition cache_find :: "dir_cache \<Rightarrow> string \<Rightarrow> cache_entry option" where
  "cache_find c guest = map_of c guest"

definition cache_put :: "dir_cache \<Rightarrow> string \<Rightarrow> string \<Rightarrow> host_stat \<Rightarrow> dir_cache" where
  "cache_put c guest host st =
     (if map_of c guest \<noteq> None
      then map (\<lambda>(k, e). (k, if k = guest then e\<lparr>ce_dev := st_dev st, ce_ino := st_ino st\<rparr> else e)) c
      else (guest, \<lparr>ce_host = host, ce_dev = st_dev st, ce_ino = st_ino st\<rparr>)
             # (if length c \<ge> kMaxEntries then [] else c))"

definition cache_drop :: "dir_cache \<Rightarrow> string \<Rightarrow> dir_cache" where
  "cache_drop c guest = filter (\<lambda>(k, e). k \<noteq> guest) c"

record resolve_options =
  follow_final :: bool
  max_symlinks :: nat
  proc_tgid :: int
  proc_tid :: int
  see_through_links :: bool

definition default_options :: resolve_options where
  "default_options =
     \<lparr>follow_final = True, max_symlinks = 40, proc_tgid = 0, proc_tid = 0,
      see_through_links = False\<rparr>"

record resolved =
  r_guest :: string
  r_host :: string
  r_mount :: "mount option"
  r_exists :: bool
  r_is_dir :: bool
  r_final_is_symlink :: bool
  r_proc_magic :: bool
  r_link_id :: string

definition kDeleted :: string where "kDeleted = '' (deleted)''"

text \<open>Target of a symlink in a proc mount: the flag marks a non-path (magic) object.\<close>

definition proc_link_target ::
  "host_fs \<Rightarrow> mount_table \<Rightarrow> string \<Rightarrow> string \<Rightarrow> mount \<Rightarrow> resolve_options \<Rightarrow> errno + (bool \<times> string)"
where
  "proc_link_target fs t guest host m opts =
     (let rel = suffix_after guest (m_guest m)
      in if rel = ''/self''
         then (if proc_tgid opts \<le> 0 then Inl EACCES
               else Inr (False, int_string (proc_tgid opts)))
         else if rel = ''/thread-self''
         then (if proc_tgid opts \<le> 0 \<or> proc_tid opts \<le> 0 then Inl EACCES
               else Inr (False, int_string (proc_tgid opts) @ ''/task/'' @ int_string (proc_tid opts)))
         else case read_link fs host of
             Inl e \<Rightarrow> Inl e
           | Inr raw \<Rightarrow>
               if raw = [] then Inl ENOENT
               else if hd raw \<noteq> slash
               then (if contains_sub '':['' raw \<or> starts_with raw ''anon_inode:''
                     then Inr (True, raw) else Inr (False, raw))
               else if length raw > length kDeleted \<and> ends_with raw kDeleted then Inl ENOENT
               else (case to_guest t raw of None \<Rightarrow> Inl EACCES | Some g \<Rightarrow> Inr (False, g)))"

record walk =
  w_pending :: "string list"
  w_done :: "string list"
  w_links :: nat
  w_exists :: bool
  w_is_dir :: bool
  w_final_symlink :: bool
  w_cache :: "dir_cache option"

datatype step_result = Continue walk | Return "errno + resolved"

definition magic_result :: "string \<Rightarrow> mount \<Rightarrow> string \<Rightarrow> resolved" where
  "magic_result guest m host =
     \<lparr>r_guest = guest, r_host = host, r_mount = Some m, r_exists = True, r_is_dir = False,
      r_final_is_symlink = False, r_proc_magic = True, r_link_id = []\<rparr>"

text \<open>Whether an unfollowed final symlink is an emulated hard link whose object is present.\<close>

definition see_through :: "host_fs \<Rightarrow> mount \<Rightarrow> string \<Rightarrow> bool" where
  "see_through fs m target \<longleftrightarrow>
     (let i = link_target_id target
      in i \<noteq> [] \<and>
         (case lstat fs (link_store_path (m_host m) @ slash # i) of
            Inl e \<Rightarrow> False
          | Inr st \<Rightarrow> st_type st \<noteq> FT_dir \<and> st_type st \<noteq> FT_lnk))"

text \<open>
  The target a followed symlink contributes, and whether it is a magic object.  \<open>target0\<close> is what
  has been read of it already.  An emulated hard link is redirected to the store of its mount.
\<close>

definition link_target ::
  "host_fs \<Rightarrow> mount_table \<Rightarrow> resolve_options \<Rightarrow> string \<Rightarrow> mount \<Rightarrow> string \<Rightarrow> string option \<Rightarrow>
     errno + (bool \<times> string)"
where
  "link_target fs t opts guest m host target0 =
     (if m_kind m = Kind_proc then proc_link_target fs t guest host m opts
      else case (case target0 of Some tg \<Rightarrow> Inr tg | None \<Rightarrow> read_link fs host) of
          Inl e \<Rightarrow> Inl e
        | Inr tg \<Rightarrow>
            Inr (False, if link_target_id tg \<noteq> []
                        then link_store_path (m_guest m) @ slash # link_target_id tg else tg))"

text \<open>
  Following the symlink just found at \<open>guest\<close>; \<open>s\<close> has the link's own component as the last
  element of \<open>w_done\<close>.
\<close>

definition enter_target :: "walk \<Rightarrow> string \<Rightarrow> walk" where
  "enter_target s target =
     s\<lparr>w_links := Suc (w_links s),
       w_done := (if is_absolute target then [] else butlast (w_done s)),
       w_pending := components target @
         (if trailing_slash target then [''.''] else []) @ w_pending s,
       w_is_dir := True, w_exists := True\<rparr>"

definition follow_link ::
  "host_fs \<Rightarrow> mount_table \<Rightarrow> resolve_options \<Rightarrow> walk \<Rightarrow> string \<Rightarrow> mount \<Rightarrow> string \<Rightarrow> bool \<Rightarrow>
     string option \<Rightarrow> step_result"
where
  "follow_link fs t opts s guest m host at_end target0 =
     (if Suc (w_links s) > max_symlinks opts then Return (Inl ELOOP)
      else case link_target fs t opts guest m host target0 of
          Inl e \<Rightarrow> Return (Inl e)
        | Inr (magic, target) \<Rightarrow>
            if magic
            then (if \<not> at_end then Return (Inl ENOTDIR)
                  else Return (Inr (magic_result guest m host)))
            else if target = [] then Return (Inl ENOENT)
            else Continue (enter_target s target))"

text \<open>A directory found by the walk enters the cache, unless it belongs to a proc or device mount.\<close>

definition remember_dir ::
  "dir_cache option \<Rightarrow> mount \<Rightarrow> string \<Rightarrow> string \<Rightarrow> host_stat \<Rightarrow> dir_cache option"
where
  "remember_dir cache m guest host st =
     (case cache of
        None \<Rightarrow> None
      | Some c \<Rightarrow>
          if st_type st = FT_dir \<and> m_kind m \<noteq> Kind_proc \<and> m_kind m \<noteq> Kind_device
          then Some (cache_put c guest host st) else Some c)"

text \<open>One iteration of the loop on component \<open>cname\<close>, already removed from \<open>w_pending s0\<close>.\<close>

definition resolve_step ::
  "host_fs \<Rightarrow> mount_table \<Rightarrow> resolve_options \<Rightarrow> string \<Rightarrow> walk \<Rightarrow> step_result"
where
  "resolve_step fs t opts cname s0 =
     (if cname = ''.''
      then (if \<not> w_is_dir s0 \<and> w_exists s0 then Return (Inl ENOTDIR) else Continue s0)
      else if cname = ''..''
      then (if \<not> w_exists s0 then Return (Inl ENOENT)
            else if \<not> w_is_dir s0 then Return (Inl ENOTDIR)
            else Continue (s0\<lparr>w_done := (if w_done s0 \<noteq> [] then butlast (w_done s0) else w_done s0),
                              w_is_dir := True\<rparr>))
      else if \<not> w_exists s0 then Return (Inl ENOENT)
      else if \<not> w_is_dir s0 then Return (Inl ENOTDIR)
      else
        (let at_end = only_dots (w_pending s0);
             must_follow = (\<not> at_end \<or> follow_final opts \<or> w_pending s0 \<noteq> []);
             s = s0\<lparr>w_done := w_done s0 @ [cname]\<rparr>;
             guest = build (w_done s);
             (m, host) = to_host t guest
         in case lstat fs host of
              Inl e \<Rightarrow>
                if e = ENOENT then Continue (s\<lparr>w_exists := False, w_is_dir := False\<rparr>)
                else if e = EACCES \<and> at_end \<and> m_kind m = Kind_proc
                then Continue (s\<lparr>w_final_symlink := False, w_is_dir := False, w_exists := True\<rparr>)
                else Return (Inl e)
            | Inr st \<Rightarrow>
                (let lnk = (st_type st = FT_lnk);
                     peeked = (if lnk \<and> \<not> must_follow \<and> see_through_links opts \<and> m_kind m \<noteq> Kind_proc
                               then (case read_link fs host of Inl e \<Rightarrow> None | Inr tg \<Rightarrow> Some tg)
                               else None);
                     follow = (lnk \<and> must_follow \<or>
                               (case peeked of None \<Rightarrow> False | Some tg \<Rightarrow> see_through fs m tg))
                 in if follow then follow_link fs t opts s guest m host at_end peeked
                    else Continue (s\<lparr>w_final_symlink := lnk, w_is_dir := (st_type st = FT_dir),
                           w_exists := True,
                           w_cache := remember_dir (w_cache s) m guest host st\<rparr>))))"

lemma follow_link_progress:
  "follow_link fs t opts s g m h l tg = Continue s' \<Longrightarrow>
     w_links s' = Suc (w_links s) \<and> Suc (w_links s) \<le> max_symlinks opts \<and> w_cache s' = w_cache s"
  by (auto simp: follow_link_def enter_target_def not_less split: if_splits sum.splits prod.splits)

lemma resolve_step_progress:
  "resolve_step fs t opts cname s = Continue s' \<Longrightarrow>
     (w_links s' = w_links s \<and> w_pending s' = w_pending s) \<or>
     (w_links s' = Suc (w_links s) \<and> Suc (w_links s) \<le> max_symlinks opts)"
  unfolding resolve_step_def Let_def
  by (auto split: if_splits sum.splits prod.splits dest: follow_link_progress)

datatype loop_result = Finished walk | Returned walk "errno + resolved"

function resolve_loop :: "host_fs \<Rightarrow> mount_table \<Rightarrow> resolve_options \<Rightarrow> walk \<Rightarrow> loop_result" where
  "resolve_loop fs t opts s =
     (case w_pending s of
        [] \<Rightarrow> Finished s
      | cname # rest \<Rightarrow>
          (case resolve_step fs t opts cname (s\<lparr>w_pending := rest\<rparr>) of
             Return r \<Rightarrow> Returned s r
           | Continue s' \<Rightarrow> resolve_loop fs t opts s'))"
  by pat_completeness auto
termination
proof (relation "measures [\<lambda>(fs, t, opts, s). max_symlinks opts - w_links s,
                           \<lambda>(fs, t, opts, s). length (w_pending s)]")
  fix fs t opts s cname rest s'
  assume "w_pending s = cname # rest"
    and "resolve_step fs t opts cname (s\<lparr>w_pending := rest\<rparr>) = Continue s'"
  then show "((fs, t, opts, s'), fs, t, opts, s)
      \<in> measures [\<lambda>(fs, t, opts, s). max_symlinks opts - w_links s,
                   \<lambda>(fs, t, opts, s). length (w_pending s)]"
    using resolve_step_progress [of fs t opts cname "s\<lparr>w_pending := rest\<rparr>" s'] by auto
qed simp

declare resolve_loop.simps [simp del]

text \<open>Start below the longest cached directory: how many components it spares, and the cache.\<close>

fun cache_start :: "host_fs \<Rightarrow> dir_cache \<Rightarrow> string list \<Rightarrow> nat \<Rightarrow> nat \<times> dir_cache" where
  "cache_start fs c pending 0 = (0, c)"
| "cache_start fs c pending (Suc k) =
     (let key = slash_join (take (Suc k) pending)
      in case cache_find c key of
           None \<Rightarrow> cache_start fs c pending k
         | Some e \<Rightarrow>
             (case lstat fs (ce_host e) of
                Inl _ \<Rightarrow> (0, cache_drop c key)
              | Inr st \<Rightarrow>
                  if st_type st = FT_dir \<and> st_dev st = ce_dev e \<and> st_ino st = ce_ino e
                  then (Suc k, c) else (0, cache_drop c key)))"

definition initial_walk :: "host_fs \<Rightarrow> string \<Rightarrow> dir_cache option \<Rightarrow> walk" where
  "initial_walk fs guest_abs cache =
     (let trailing = trailing_slash guest_abs;
          comps = components guest_abs;
          pending = comps @ (if trailing then [''.''] else []);
          (k, cache') =
            (case cache of
               None \<Rightarrow> (0, None)
             | Some c \<Rightarrow>
                 if list_all (\<lambda>c. c \<noteq> ''..'') comps \<and> length pending \<ge> 2
                 then (let (k, c') = cache_start fs c pending
                             (length pending - 1 - (if trailing then 1 else 0))
                       in (k, Some c'))
                 else (0, Some c))
      in \<lparr>w_pending = drop k pending, w_done = take k pending, w_links = 0, w_exists = True,
          w_is_dir = True, w_final_symlink = False, w_cache = cache'\<rparr>)"

definition finish_walk :: "mount_table \<Rightarrow> bool \<Rightarrow> walk \<Rightarrow> errno + resolved" where
  "finish_walk t trailing s =
     (let guest = build (w_done s);
          (m, host0) = to_host t guest;
          store = link_store_path (m_guest m);
          ident = (if w_exists s \<and> \<not> w_is_dir s \<and> \<not> w_final_symlink s \<and> length (w_done s) \<ge> 2 \<and>
                      w_done s ! (length (w_done s) - 2) = kLinkStoreDir \<and> is_link_id (last (w_done s)) \<and>
                      length guest = length store + 1 + kLinkIdLen \<and> take (length store) guest = store
                   then last (w_done s) else []);
          host = (if trailing \<and> last host0 \<noteq> slash then host0 @ [slash] else host0)
      in if length host \<ge> kPathMax then Inl ENAMETOOLONG
         else Inr \<lparr>r_guest = guest, r_host = host, r_mount = Some m, r_exists = w_exists s,
                   r_is_dir = (w_exists s \<and> w_is_dir s),
                   r_final_is_symlink = (w_exists s \<and> w_final_symlink s),
                   r_proc_magic = False, r_link_id = ident\<rparr>)"

definition resolve ::
  "host_fs \<Rightarrow> mount_table \<Rightarrow> string \<Rightarrow> resolve_options \<Rightarrow> dir_cache option \<Rightarrow>
     (errno + resolved) \<times> dir_cache option"
where
  "resolve fs t guest_abs opts cache =
     (if \<not> is_absolute guest_abs then (Inl EINVAL, cache)
      else if length guest_abs \<ge> kPathMax then (Inl ENAMETOOLONG, cache)
      else case resolve_loop fs t opts (initial_walk fs guest_abs cache) of
             Returned s r \<Rightarrow> (r, w_cache s)
           | Finished s \<Rightarrow>
               (finish_walk t (trailing_slash guest_abs) s, w_cache s))"

end
