(* ===== verification/Resolver_Safety.thy ===== *)
theory Resolver_Safety
  imports Resolver
begin

text \<open>
  Invariants of the resolver loop: canonical results inside the mounts, no symlink among the
  intermediate components, and transparency of the directory cache.  The induction over the loop
  is done once, in the locale \<open>loop_invariant\<close>; the invariant itself is proved step by step.
\<close>

definition walk_ok :: "walk \<Rightarrow> bool" where
  "walk_ok s \<longleftrightarrow>
     list_all clean (w_done s) \<and> list_all (\<lambda>c. plain c \<or> c = ''.'') (w_pending s)"

definition dir_at :: "host_fs \<Rightarrow> mount_table \<Rightarrow> string list \<Rightarrow> bool" where
  "dir_at fs t ds \<longleftrightarrow>
     (case lstat fs (snd (to_host t (build ds))) of Inl e \<Rightarrow> False | Inr st \<Rightarrow> st_type st = FT_dir)"

definition all_dirs :: "host_fs \<Rightarrow> mount_table \<Rightarrow> string list \<Rightarrow> bool" where
  "all_dirs fs t ds \<longleftrightarrow> (\<forall>ps \<in> set (prefixes ds). ps \<noteq> [] \<longrightarrow> dir_at fs t ps)"

definition walk_dirs :: "host_fs \<Rightarrow> mount_table \<Rightarrow> walk \<Rightarrow> bool" where
  "walk_dirs fs t s \<longleftrightarrow>
     all_dirs fs t (if w_exists s \<and> w_is_dir s then w_done s else butlast (w_done s))"

definition entry_valid :: "host_fs \<Rightarrow> cache_entry \<Rightarrow> bool" where
  "entry_valid fs e \<longleftrightarrow>
     (case lstat fs (ce_host e) of
        Inl _ \<Rightarrow> False
      | Inr st \<Rightarrow> st_type st = FT_dir \<and> st_dev st = ce_dev e \<and> st_ino st = ce_ino e)"

text \<open>
  A cache entry is sound when it was recorded for the table's own mapping of its guest path, and
  while its device and inode still match every directory above it is still a directory.
\<close>

definition entry_sound :: "host_fs \<Rightarrow> mount_table \<Rightarrow> string \<times> cache_entry \<Rightarrow> bool" where
  "entry_sound fs t ke \<longleftrightarrow>
     (let ds = components (fst ke)
      in ds \<noteq> [] \<and> list_all clean ds \<and> fst ke = slash_join ds \<and>
         ce_host (snd ke) = snd (to_host t (fst ke)) \<and>
         (entry_valid fs (snd ke) \<longrightarrow> all_dirs fs t ds))"

definition cache_sound :: "host_fs \<Rightarrow> mount_table \<Rightarrow> dir_cache \<Rightarrow> bool" where
  "cache_sound fs t c \<longleftrightarrow>
     distinct (map fst c) \<and> length c \<le> kMaxEntries \<and> list_all (entry_sound fs t) c"

definition walk_inv :: "host_fs \<Rightarrow> mount_table \<Rightarrow> walk \<Rightarrow> bool" where
  "walk_inv fs t s \<longleftrightarrow>
     walk_ok s \<and> walk_dirs fs t s \<and>
     (case w_cache s of None \<Rightarrow> True | Some c \<Rightarrow> cache_sound fs t c)"

section \<open>Induction over the loop, once\<close>

lemma resolve_loop_induct:
  assumes "\<And>s. (\<And>c rest s'. w_pending s = c # rest \<Longrightarrow>
      resolve_step fs t opts c (s\<lparr>w_pending := rest\<rparr>) = Continue s' \<Longrightarrow> P s') \<Longrightarrow> P s"
  shows "P s"
proof -
  have "fs' = fs \<longrightarrow> t' = t \<longrightarrow> opts' = opts \<longrightarrow> P s" for fs' t' opts'
  proof (induction fs' t' opts' s rule: resolve_loop.induct)
    case (1 fs' t' opts' s)
    then show ?case using assms by blast
  qed
  then show ?thesis by blast
qed

lemma resolve_loop_Nil [simp]: "w_pending s = [] \<Longrightarrow> resolve_loop fs t opts s = Finished s"
  by (simp add: resolve_loop.simps)

lemma resolve_loop_Cons:
  "w_pending s = c # rest \<Longrightarrow>
     resolve_loop fs t opts s =
       (case resolve_step fs t opts c (s\<lparr>w_pending := rest\<rparr>) of
          Return r \<Rightarrow> Returned s r
        | Continue s' \<Rightarrow> resolve_loop fs t opts s')"
  by (subst resolve_loop.simps) simp

locale loop_invariant =
  fixes fs :: host_fs and t :: mount_table and opts :: resolve_options and I :: "walk \<Rightarrow> bool"
  assumes step: "I s \<Longrightarrow> w_pending s = c # rest \<Longrightarrow>
    resolve_step fs t opts c (s\<lparr>w_pending := rest\<rparr>) = Continue s' \<Longrightarrow> I s'"
begin

lemma finished: "I s \<Longrightarrow> resolve_loop fs t opts s = Finished s' \<Longrightarrow> I s' \<and> w_pending s' = []"
proof (induction s rule: resolve_loop_induct [of fs t opts])
  case (1 s)
  show ?case
  proof (cases "w_pending s")
    case Nil
    then show ?thesis using 1 by simp
  next
    case (Cons c rest)
    then show ?thesis
      using 1 step [of s c rest] by (auto simp: resolve_loop_Cons split: step_result.splits)
  qed
qed

lemma returned:
  "I s \<Longrightarrow> resolve_loop fs t opts s = Returned s' r \<Longrightarrow>
     I s' \<and> (\<exists>c rest. w_pending s' = c # rest \<and>
       resolve_step fs t opts c (s'\<lparr>w_pending := rest\<rparr>) = Return r)"
proof (induction s rule: resolve_loop_induct [of fs t opts])
  case (1 s)
  show ?case
  proof (cases "w_pending s")
    case Nil
    then show ?thesis using 1 by simp
  next
    case (Cons c rest)
    then show ?thesis
      using 1 step [of s c rest] by (auto simp: resolve_loop_Cons split: step_result.splits)
  qed
qed

end

section \<open>The invariant, step by step\<close>

lemma build_render: "build = render"
  by (simp add: fun_eq_iff build_def render_def)

lemma all_dirs_iff: "all_dirs fs t ds \<longleftrightarrow> (\<forall>ps. prefix ps ds \<and> ps \<noteq> [] \<longrightarrow> dir_at fs t ps)"
  by (auto simp: all_dirs_def)

lemma all_dirs_Nil [simp]: "all_dirs fs t []"
  by (simp add: all_dirs_def)

lemma all_dirs_snoc: "all_dirs fs t (ds @ [c]) \<longleftrightarrow> all_dirs fs t ds \<and> dir_at fs t (ds @ [c])"
  by (auto simp: all_dirs_iff)

lemma all_dirs_prefix: "all_dirs fs t ds \<Longrightarrow> prefix ps ds \<Longrightarrow> all_dirs fs t ps"
  by (auto simp: all_dirs_iff)

lemma all_dirs_butlast: "all_dirs fs t ds \<Longrightarrow> all_dirs fs t (butlast ds)"
  by (rule all_dirs_prefix) (auto simp: prefixeq_butlast)

lemma list_all_butlast: "list_all P xs \<Longrightarrow> list_all P (butlast xs)"
  by (auto simp: list_all_iff dest: in_set_butlastD)

lemma target_pending:
  "list_all (\<lambda>c. plain c \<or> c = ''.'')
     (components tg @ (if trailing_slash tg then [''.''] else []))"
  using components_plain [of tg] by (auto simp: list_all_iff)

lemma follow_link_Continue:
  assumes "follow_link fs t opts s g m h l tg = Continue s'"
  obtains target where "s' = enter_target s target" "Suc (w_links s) \<le> max_symlinks opts"
    "link_target fs t opts g m h tg = Inr (False, target)"
  using assms by (auto simp: follow_link_def not_less split: if_splits sum.splits prod.splits)

lemma follow_link_Return:
  assumes "follow_link fs t opts s g m h l tg = Return (Inr r)"
  shows "r = magic_result g m h \<and> l \<and> m_kind m = Kind_proc"
  using assms
  by (auto simp: follow_link_def link_target_def split: if_splits sum.splits prod.splits)

text \<open>What a step that does not return did: one of six outcomes.\<close>

lemma resolve_step_Continue:
  assumes "resolve_step fs t opts c s = Continue s'"
  obtains
    (dot) "c = ''.''" "s' = s" "w_is_dir s \<or> \<not> w_exists s"
  | (dotdot) "c = ''..''" "w_exists s" "w_is_dir s"
      "s' = s\<lparr>w_done := butlast (w_done s), w_is_dir := True\<rparr>"
  | (missing) "c \<noteq> ''.''" "c \<noteq> ''..''" "w_exists s" "w_is_dir s"
      "s' = s\<lparr>w_done := w_done s @ [c], w_exists := False, w_is_dir := False\<rparr>"
  | (hidden) "c \<noteq> ''.''" "c \<noteq> ''..''" "w_exists s" "w_is_dir s"
      "s' = s\<lparr>w_done := w_done s @ [c], w_final_symlink := False, w_is_dir := False, w_exists := True\<rparr>"
  | (follow) target where "c \<noteq> ''.''" "c \<noteq> ''..''" "w_exists s" "w_is_dir s"
      "s' = enter_target (s\<lparr>w_done := w_done s @ [c]\<rparr>) target"
  | (entry) m host st where "c \<noteq> ''.''" "c \<noteq> ''..''" "w_exists s" "w_is_dir s"
      "to_host t (build (w_done s @ [c])) = (m, host)" "lstat fs host = Inr st"
      "s' = s\<lparr>w_done := w_done s @ [c], w_final_symlink := (st_type st = FT_lnk),
         w_is_dir := (st_type st = FT_dir), w_exists := True,
         w_cache := remember_dir (w_cache s) m (build (w_done s @ [c])) host st\<rparr>"
proof -
  obtain m host where mh: "to_host t (build (w_done s @ [c])) = (m, host)"
    by (cases "to_host t (build (w_done s @ [c]))")
  show ?thesis
  proof (cases "c = ''.'' \<or> c = ''..''")
    case True
    then show ?thesis
    proof
      assume "c = ''.''"
      then show ?thesis using assms dot by (auto simp: resolve_step_def split: if_splits)
    next
      assume d: "c = ''..''"
      then have "w_exists s" "w_is_dir s"
        "s' = s\<lparr>w_done := (if w_done s \<noteq> [] then butlast (w_done s) else w_done s), w_is_dir := True\<rparr>"
        using assms by (auto simp: resolve_step_def split: if_splits)
      moreover have "(if w_done s \<noteq> [] then butlast (w_done s) else w_done s) = butlast (w_done s)"
        by simp
      ultimately show ?thesis using d by (intro dotdot) simp_all
    qed
  next
    case False
    then have ex: "w_exists s" "w_is_dir s"
      using assms by (auto simp: resolve_step_def split: if_splits)
    show ?thesis
    proof (cases "lstat fs host")
      case (Inl e)
      then have "s' = s\<lparr>w_done := w_done s @ [c], w_exists := False, w_is_dir := False\<rparr> \<or>
        s' = s\<lparr>w_done := w_done s @ [c], w_final_symlink := False, w_is_dir := False, w_exists := True\<rparr>"
        using assms False ex mh by (auto simp: resolve_step_def Let_def split: if_splits)
      then show ?thesis using False ex by (auto intro: missing hidden)
    next
      case (Inr st)
      let ?s = "s\<lparr>w_done := w_done s @ [c]\<rparr>"
      show ?thesis
      proof (cases "\<exists>l tg. follow_link fs t opts ?s (build (w_done s @ [c])) m host l tg = Continue s'")
        case True
        then show ?thesis using False ex follow by (metis follow_link_Continue)
      next
        case nf: False
        show ?thesis
          by (rule entry [OF _ _ ex mh Inr])
            (use assms False ex mh Inr nf in
              \<open>auto simp: resolve_step_def Let_def split: if_splits\<close>)
      qed
    qed
  qed
qed


lemma resolve_step_Return:
  assumes "resolve_step fs t opts c s = Return (Inr r)"
  obtains m host where "c \<noteq> ''.''" "c \<noteq> ''..''" "w_exists s" "w_is_dir s"
    "to_host t (build (w_done s @ [c])) = (m, host)" "m_kind m = Kind_proc"
    "r = magic_result (build (w_done s @ [c])) m host"
proof -
  obtain m host where mh: "to_host t (build (w_done s @ [c])) = (m, host)"
    by (cases "to_host t (build (w_done s @ [c]))")
  have c: "c \<noteq> ''.''" "c \<noteq> ''..''" "w_exists s" "w_is_dir s"
    using assms by (auto simp: resolve_step_def split: if_splits)
  have "\<exists>l tg. follow_link fs t opts (s\<lparr>w_done := w_done s @ [c]\<rparr>) (build (w_done s @ [c])) m host l tg
      = Return (Inr r)"
    using assms c mh
    by (auto simp: resolve_step_def Let_def split: if_splits sum.splits)
  then show ?thesis using follow_link_Return that c mh by metis
qed

lemma enter_target_ok:
  assumes "walk_ok s"
  shows "walk_ok (enter_target s target)"
  using assms target_pending [of target]
  by (auto simp: walk_ok_def enter_target_def list_all_butlast)

lemma walk_ok_step:
  assumes "walk_ok s" and "w_pending s = c # rest"
    and "resolve_step fs t opts c (s\<lparr>w_pending := rest\<rparr>) = Continue s'"
  shows "walk_ok s'"
proof -
  have c: "c \<noteq> ''.'' \<Longrightarrow> c \<noteq> ''..'' \<Longrightarrow> clean c"
    using assms(1,2) by (auto simp: walk_ok_def clean_plain)
  have r: "walk_ok (s\<lparr>w_pending := rest\<rparr>)" using assms(1,2) by (auto simp: walk_ok_def)
  from assms(3) show ?thesis
  proof (cases rule: resolve_step_Continue)
    case (follow target)
    have "walk_ok (s\<lparr>w_pending := rest, w_done := w_done s @ [c]\<rparr>)"
      using r c follow by (auto simp: walk_ok_def)
    then show ?thesis using follow enter_target_ok by auto
  qed (use r c in \<open>auto simp: walk_ok_def list_all_butlast\<close>)
qed

lemma walk_dirs_step:
  assumes "walk_dirs fs t s"
    and "resolve_step fs t opts c s = Continue s'"
  shows "walk_dirs fs t s'"
  using assms(2)
proof (cases rule: resolve_step_Continue)
  case dotdot
  then show ?thesis using assms(1) by (auto simp: walk_dirs_def all_dirs_butlast)
next
  case (entry m host st)
  then show ?thesis
    using assms(1) by (auto simp: walk_dirs_def all_dirs_snoc dir_at_def)
next
  case (follow target)
  then show ?thesis using assms(1) by (auto simp: walk_dirs_def enter_target_def)
qed (use assms(1) in \<open>auto simp: walk_dirs_def\<close>)

section \<open>The cache\<close>

lemma entry_sound_touch:
  "entry_sound fs t (k, e) \<Longrightarrow> all_dirs fs t (components k) \<Longrightarrow>
     entry_sound fs t (k, e\<lparr>ce_dev := d, ce_ino := i\<rparr>)"
  by (simp add: entry_sound_def Let_def)

lemma cache_put_sound:
  assumes "cache_sound fs t c" and "ds \<noteq> []" and "list_all clean ds" and "all_dirs fs t ds"
    and "host = snd (to_host t (build ds))"
  shows "cache_sound fs t (cache_put c (build ds) host st)"
proof -
  have key: "build ds = slash_join ds" "components (slash_join ds) = ds"
    using assms(2,3) by (auto simp: build_def components_slash_join list_all_clean_plain)
  show ?thesis
  proof (cases "map_of c (build ds) = None")
    case True
    then have "build ds \<notin> fst ` set c" by (simp add: map_of_eq_None_iff)
    then show ?thesis
      using True assms key
      by (auto simp: cache_put_def cache_sound_def entry_sound_def Let_def kMaxEntries_def)
  next
    case False
    let ?f = "\<lambda>(k, e). (k, if k = build ds then e\<lparr>ce_dev := st_dev st, ce_ino := st_ino st\<rparr> else e)"
    have "map fst (map ?f c) = map fst c" by (induction c) auto
    then have "distinct (map fst (map ?f c))" using assms(1) by (simp only: cache_sound_def)
    moreover have "list_all (entry_sound fs t) (map ?f c)"
      using assms(1,4) key by (auto simp: cache_sound_def list_all_iff entry_sound_touch)
    moreover have "cache_put c (build ds) host st = map ?f c"
      using False by (simp add: cache_put_def)
    ultimately show ?thesis
      using assms(1) by (simp add: cache_sound_def del: map_map)
  qed
qed

lemma cache_drop_sound: "cache_sound fs t c \<Longrightarrow> cache_sound fs t (cache_drop c key)"
  unfolding cache_sound_def cache_drop_def
  by (auto simp: list_all_iff distinct_map_filter intro: le_trans [OF length_filter_le])

lemma walk_inv_step:
  assumes "walk_inv fs t s" and "w_pending s = c # rest"
    and "resolve_step fs t opts c (s\<lparr>w_pending := rest\<rparr>) = Continue s'"
  shows "walk_inv fs t s'"
proof -
  have ok: "walk_ok s'" using walk_ok_step [OF _ assms(2,3)] assms(1) by (auto simp: walk_inv_def)
  have "walk_dirs fs t (s\<lparr>w_pending := rest\<rparr>)" using assms(1) by (auto simp: walk_inv_def walk_dirs_def)
  then have dirs: "walk_dirs fs t s'" using walk_dirs_step assms(3) by blast
  have "case w_cache s' of None \<Rightarrow> True | Some c \<Rightarrow> cache_sound fs t c"
    using assms(3)
  proof (cases rule: resolve_step_Continue)
    case (entry m host st)
    have "cache_sound fs t (cache_put k (build (w_done s @ [c])) host st)"
      if "w_cache s = Some k" "st_type st = FT_dir" for k
      using that assms(1) ok dirs entry
      by (intro cache_put_sound) (auto simp: walk_inv_def walk_ok_def walk_dirs_def)
    then show ?thesis
      using entry assms(1) by (auto simp: walk_inv_def remember_dir_def split: option.splits)
  qed (use assms(1) in \<open>auto simp: walk_inv_def enter_target_def\<close>)
  then show ?thesis using ok dirs by (simp add: walk_inv_def)
qed

interpretation resolver_loop: loop_invariant fs t opts "walk_inv fs t" for fs t opts
  by unfold_locales (rule walk_inv_step)


section \<open>The start of the walk\<close>

lemma cache_start_sound:
  "cache_sound fs t c \<Longrightarrow> cache_start fs c pending n = (k, c') \<Longrightarrow>
     cache_sound fs t c' \<and> k \<le> n \<and>
     (k > 0 \<longrightarrow> (\<exists>e. (slash_join (take k pending), e) \<in> set c \<and> entry_valid fs e))"
proof (induction n)
  case (Suc n)
  show ?case
  proof (cases "cache_find c (slash_join (take (Suc n) pending))")
    case None
    then show ?thesis using Suc by (auto simp: Let_def)
  next
    case (Some e)
    then have "(slash_join (take (Suc n) pending), e) \<in> set c"
      by (simp add: cache_find_def map_of_SomeD)
    then show ?thesis
      using Suc.prems Some
      by (auto simp: Let_def entry_valid_def cache_drop_sound intro!: exI [of _ e]
          split: sum.splits if_splits)
  qed
qed simp

lemma cached_prefix_dirs:
  assumes "cache_sound fs t c" and "(slash_join ds, e) \<in> set c" and "entry_valid fs e"
    and "list_all plain ds"
  shows "all_dirs fs t ds"
  using assms by (auto simp: cache_sound_def list_all_iff entry_sound_def Let_def
      components_slash_join [unfolded list_all_iff])

text \<open>The walk the loop starts from: some leading components, all of them directories, are done.\<close>

lemma initial_walk_form:
  assumes "case cache of None \<Rightarrow> True | Some c \<Rightarrow> cache_sound fs t c"
  obtains ds ps cache' where
    "components p @ (if trailing_slash p then [''.''] else []) = ds @ ps"
    "initial_walk fs p cache =
       \<lparr>w_pending = ps, w_done = ds, w_links = 0, w_exists = True, w_is_dir = True,
        w_final_symlink = False, w_cache = cache'\<rparr>"
    "all_dirs fs t ds" "list_all clean ds"
    "case cache' of None \<Rightarrow> cache = None | Some c \<Rightarrow> cache_sound fs t c"
proof -
  let ?tr = "trailing_slash p"
  let ?pend = "components p @ (if ?tr then [''.''] else [])"
  let ?n = "length ?pend - 1 - (if ?tr then 1 else 0)"
  show ?thesis
  proof (cases "\<exists>c. cache = Some c \<and> list_all (\<lambda>c. c \<noteq> ''..'') (components p) \<and> length ?pend \<ge> 2")
    case False
    show ?thesis
      by (rule that [of "[]" ?pend cache])
        (use False assms in \<open>auto simp: initial_walk_def Let_def split: option.splits\<close>)
  next
    case True
    then obtain c where c: "cache = Some c" "list_all (\<lambda>c. c \<noteq> ''..'') (components p)"
      "length ?pend \<ge> 2" by blast
    obtain k c' where k: "cache_start fs c ?pend ?n = (k, c')"
      by (cases "cache_start fs c ?pend ?n")
    have snd: "cache_sound fs t c" using assms c(1) by simp
    note st = cache_start_sound [OF snd k]
    have "?n \<le> length (components p)" by simp
    then have tk: "take k ?pend = take k (components p)" using st by simp
    have cl: "list_all clean (take k (components p))"
      using c(2) components_plain [of p] by (auto simp: list_all_iff clean_plain dest: in_set_takeD)
    have ad: "all_dirs fs t (take k (components p))"
      using st cached_prefix_dirs [OF snd] tk cl list_all_clean_plain by (cases "k = 0") auto
    show ?thesis
      by (rule that [of "take k ?pend" "drop k ?pend" "Some c'"])
        (use c k cl ad tk st in \<open>auto simp: initial_walk_def Let_def\<close>)
  qed
qed

lemma initial_walk_inv:
  assumes "case cache of None \<Rightarrow> True | Some c \<Rightarrow> cache_sound fs t c"
  shows "walk_inv fs t (initial_walk fs p cache)"
proof -
  obtain ds ps cache' where f:
    "components p @ (if trailing_slash p then [''.''] else []) = ds @ ps"
    "initial_walk fs p cache =
       \<lparr>w_pending = ps, w_done = ds, w_links = 0, w_exists = True, w_is_dir = True,
        w_final_symlink = False, w_cache = cache'\<rparr>"
    "all_dirs fs t ds" "list_all clean ds"
    "case cache' of None \<Rightarrow> cache = None | Some c \<Rightarrow> cache_sound fs t c"
    using initial_walk_form [OF assms] by blast
  have "list_all (\<lambda>c. plain c \<or> c = ''.'') (ds @ ps)"
    using target_pending [of p] unfolding f(1) .
  then show ?thesis
    using f by (auto simp: walk_inv_def walk_ok_def walk_dirs_def split: option.splits)
qed


lemma step_cache_presence:
  "resolve_step fs t opts c s = Continue s' \<Longrightarrow> (w_cache s' = None) = (w_cache s = None)"
  by (erule resolve_step_Continue)
    (auto simp: enter_target_def remember_dir_def split: option.splits)

interpretation cache_presence: loop_invariant fs t opts "\<lambda>s. (w_cache s = None) = b" for fs t opts b
  by unfold_locales (use step_cache_presence in fastforce)

section \<open>The loop does not read the cache\<close>

definition forget :: "walk \<Rightarrow> walk" where
  "forget s = s\<lparr>w_cache := None\<rparr>"

fun forget_step :: "step_result \<Rightarrow> step_result" where
  "forget_step (Continue s) = Continue (forget s)"
| "forget_step (Return r) = Return r"

fun forget_loop :: "loop_result \<Rightarrow> loop_result" where
  "forget_loop (Finished s) = Finished (forget s)"
| "forget_loop (Returned s r) = Returned (forget s) r"

lemma enter_target_forget: "enter_target (forget s) tg = forget (enter_target s tg)"
  by (simp add: enter_target_def forget_def)

lemma follow_link_forget:
  "follow_link fs t opts (forget s) g m h l tg = forget_step (follow_link fs t opts s g m h l tg)"
  by (auto simp: follow_link_def enter_target_forget split: sum.splits prod.splits)
    (simp_all add: forget_def)

lemma forget_simps [simp]:
  "w_pending (forget s) = w_pending s" "w_done (forget s) = w_done s"
  "w_links (forget s) = w_links s" "w_exists (forget s) = w_exists s"
  "w_is_dir (forget s) = w_is_dir s" "w_final_symlink (forget s) = w_final_symlink s"
  "w_cache (forget s) = None"
  "(forget s)\<lparr>w_done := d\<rparr> = forget (s\<lparr>w_done := d\<rparr>)"
  "(forget s)\<lparr>w_pending := q\<rparr> = forget (s\<lparr>w_pending := q\<rparr>)"
  "(forget s)\<lparr>w_is_dir := b\<rparr> = forget (s\<lparr>w_is_dir := b\<rparr>)"
  "(forget s)\<lparr>w_exists := b\<rparr> = forget (s\<lparr>w_exists := b\<rparr>)"
  "(forget s)\<lparr>w_final_symlink := b\<rparr> = forget (s\<lparr>w_final_symlink := b\<rparr>)"
  "(forget s)\<lparr>w_cache := None\<rparr> = forget s"
  "forget (s\<lparr>w_cache := x\<rparr>) = forget s"
  by (simp_all add: forget_def)

lemma resolve_step_forget:
  "resolve_step fs t opts c (forget s) = forget_step (resolve_step fs t opts c s)"
  by (auto simp: resolve_step_def Let_def follow_link_forget remember_dir_def
      split: sum.splits prod.splits)

lemma resolve_loop_forget:
  "resolve_loop fs t opts (forget s) = forget_loop (resolve_loop fs t opts s)"
proof (induction s rule: resolve_loop_induct [of fs t opts])
  case (1 s)
  show ?case
  proof (cases "w_pending s")
    case (Cons c rest)
    then show ?thesis
      using 1 by (auto simp: resolve_loop_Cons resolve_step_forget split: step_result.splits)
  qed simp
qed

text \<open>Components that are directories are just moved from pending to done.\<close>

lemma resolve_loop_dirs:
  assumes "all_dirs fs t (w_done s @ xs)" and "list_all clean xs" and "w_pending s = xs @ ys"
    and "w_exists s" and "w_is_dir s" and "\<not> w_final_symlink s" and "w_cache s = None"
  shows "resolve_loop fs t opts s = resolve_loop fs t opts (s\<lparr>w_pending := ys, w_done := w_done s @ xs\<rparr>)"
  using assms
proof (induction xs arbitrary: s)
  case Nil
  then show ?case by (cases s) simp
next
  case (Cons x xs)
  let ?s = "s\<lparr>w_pending := xs @ ys, w_done := w_done s @ [x]\<rparr>"
  obtain m h where mh: "to_host t (build (w_done s @ [x])) = (m, h)"
    by (cases "to_host t (build (w_done s @ [x]))")
  have "prefix (w_done s @ [x]) (w_done s @ x # xs)" by (simp add: prefix_def)
  then have "dir_at fs t (w_done s @ [x])" using Cons.prems(1) by (simp add: all_dirs_iff)
  then obtain st where st: "lstat fs h = Inr st" "st_type st = FT_dir"
    using mh by (auto simp: dir_at_def split: sum.splits)
  have "x \<noteq> ''.''" "x \<noteq> ''..''" using Cons.prems(2) by (auto simp: clean_def)
  then have "resolve_step fs t opts x (s\<lparr>w_pending := xs @ ys\<rparr>) = Continue ?s"
    using Cons.prems mh st
    by (simp add: resolve_step_def remember_dir_def)
  then have "resolve_loop fs t opts s = resolve_loop fs t opts ?s"
    using Cons.prems(3) by (simp add: resolve_loop_Cons)
  also have "\<dots> = resolve_loop fs t opts (?s\<lparr>w_pending := ys, w_done := w_done ?s @ xs\<rparr>)"
    by (rule Cons.IH) (use Cons.prems in simp_all)
  finally show ?case by simp
qed

lemma initial_walks_agree:
  assumes "cache_sound fs t c"
  shows "resolve_loop fs t opts (forget (initial_walk fs p (Some c))) =
    resolve_loop fs t opts (initial_walk fs p None)"
proof -
  obtain ds ps cache' where f:
    "components p @ (if trailing_slash p then [''.''] else []) = ds @ ps"
    "initial_walk fs p (Some c) =
       \<lparr>w_pending = ps, w_done = ds, w_links = 0, w_exists = True, w_is_dir = True,
        w_final_symlink = False, w_cache = cache'\<rparr>"
    "all_dirs fs t ds" "list_all clean ds"
    using initial_walk_form [where cache = "Some c"] assms by (metis option.simps(5))
  have "initial_walk fs p None = \<lparr>w_pending = ds @ ps, w_done = [], w_links = 0, w_exists = True,
      w_is_dir = True, w_final_symlink = False, w_cache = None\<rparr>"
    using f(1) by (simp add: initial_walk_def Let_def)
  then show ?thesis
    using f resolve_loop_dirs [of fs t "initial_walk fs p None" ds ps opts]
    by (simp add: forget_def)
qed

lemma finish_walk_forget: "finish_walk t tr (forget s) = finish_walk t tr s"
  by (simp only: finish_walk_def forget_simps)

section \<open>Results of a resolution\<close>

abbreviation cache_opt_sound :: "host_fs \<Rightarrow> mount_table \<Rightarrow> dir_cache option \<Rightarrow> bool" where
  "cache_opt_sound fs t cache \<equiv> (case cache of None \<Rightarrow> True | Some c \<Rightarrow> cache_sound fs t c)"

lemma finish_walk_Inr:
  assumes "finish_walk t tr s = Inr r"
  obtains m h where "to_host t (build (w_done s)) = (m, h)" "r_guest r = build (w_done s)"
    "r_mount r = Some m" "r_host r = h \<or> r_host r = h @ [slash]" "length (r_host r) < kPathMax"
    "r_is_dir r = (w_exists s \<and> w_is_dir s)" "\<not> r_proc_magic r"
proof -
  obtain m h where mh: "to_host t (build (w_done s)) = (m, h)"
    by (cases "to_host t (build (w_done s))")
  show ?thesis
    by (rule that [OF mh])
      (use assms mh in \<open>auto simp: finish_walk_def Let_def not_le split: if_splits\<close>)
qed

text \<open>Every successful resolution comes from a walk over clean components and directories.\<close>

lemma resolve_Inr:
  assumes "cache_opt_sound fs t cache" and "fst (resolve fs t p opts cache) = Inr r"
  obtains ds m h where "list_all clean ds" "r_guest r = build ds" "to_host t (build ds) = (m, h)"
    "r_mount r = Some m" "r_host r = h \<or> r_host r = h @ [slash]" "all_dirs fs t (butlast ds)"
    "r_is_dir r \<Longrightarrow> all_dirs fs t ds" "r_proc_magic r \<or> length (r_host r) < kPathMax"
proof (cases "resolve_loop fs t opts (initial_walk fs p cache)")
  case (Finished s)
  have inv: "walk_inv fs t s"
    using resolver_loop.finished [OF initial_walk_inv [OF assms(1)] Finished] by simp
  have f: "finish_walk t (trailing_slash p) s = Inr r"
    using assms(2) Finished by (auto simp: resolve_def split: if_splits)
  from inv have d: "list_all clean (w_done s)" "all_dirs fs t (butlast (w_done s))"
    "w_exists s \<and> w_is_dir s \<Longrightarrow> all_dirs fs t (w_done s)"
    by (auto simp: walk_inv_def walk_ok_def walk_dirs_def all_dirs_butlast split: if_splits)
  show ?thesis by (rule finish_walk_Inr [OF f]) (use that d in blast)
next
  case (Returned s r')
  then have r': "r' = Inr r" using assms(2) by (auto simp: resolve_def split: if_splits)
  obtain c rest where inv: "walk_inv fs t s" "w_pending s = c # rest"
    "resolve_step fs t opts c (s\<lparr>w_pending := rest\<rparr>) = Return (Inr r)"
    using resolver_loop.returned [OF initial_walk_inv [OF assms(1)] Returned] r' by auto
  obtain m h where st: "c \<noteq> ''.''" "c \<noteq> ''..''" "w_exists s" "w_is_dir s"
    "to_host t (build (w_done s @ [c])) = (m, h)" "r = magic_result (build (w_done s @ [c])) m h"
    by (rule resolve_step_Return [OF inv(3)]) (use that in simp)
  show ?thesis
    by (rule that [of "w_done s @ [c]" m h])
      (use inv st in \<open>auto simp: walk_inv_def walk_ok_def walk_dirs_def clean_plain magic_result_def\<close>)
qed

lemma is_below_slash: "is_below h r \<Longrightarrow> is_below (h @ [slash]) r"
proof (cases "r = ''/''")
  case False
  assume "is_below h r"
  then obtain u where "h = r @ u" "u = [] \<or> hd u = slash" using is_below_alt [OF False] by blast
  then show ?thesis
    using is_below_alt [OF False] by (cases u) auto
qed (auto simp: is_below_def is_absolute_def)

section \<open>Properties\<close>

lemma resolve_result_contained:
  assumes "table_ok t" and "cache_opt_sound fs t cache"
    and "fst (resolve fs t p opts cache) = Inr r"
  shows "canonical (r_guest r) \<and>
    (\<exists>m \<in> set t. r_mount r = Some m \<and> mount_for_guest t (r_guest r) = Some m \<and>
       is_below (r_host r) (m_host m))"
proof -
  obtain ds m h where r: "list_all clean ds" "r_guest r = build ds" "to_host t (build ds) = (m, h)"
    "r_mount r = Some m" "r_host r = h \<or> r_host r = h @ [slash]"
    using resolve_Inr [OF assms(2,3)] by metis
  have can: "canonical (r_guest r)" using r by (simp add: build_render canonical_render)
  obtain m' where m': "mount_for_guest t (r_guest r) = Some m'"
    using mount_for_guest_total [OF assms(1)] can by (metis canonical_def)
  then have "m' = m" using r by (simp add: to_host_def Let_def)
  then show ?thesis
    using to_host_contained [OF assms(1) can] r can m' is_below_slash by auto
qed

text \<open>
  C1: path translation never leaves the session mounts: whatever symlinks and \<open>..\<close> the guest
  puts on the way, a successful resolution yields a canonical guest path and a host path below the
  host directory of the mount that covers it.
\<close>

theorem resolve_contained:
  assumes "table_ok t" and "cache_opt_sound fs t cache"
    and "fst (resolve fs t p opts cache) = Inr r"
  shows "canonical (r_guest r) \<and>
    (\<exists>m \<in> set t. r_mount r = Some m \<and> mount_for_guest t (r_guest r) = Some m \<and>
       is_below (r_host r) (m_host m))"
  using assms by (rule resolve_result_contained)

text \<open>
  The result names no symlink in any intermediate component: at the time of the check every
  proper prefix of the canonical guest path is a directory on the host, and so is the path itself
  when it is reported as one.
\<close>

theorem resolve_prefixes_are_dirs:
  assumes "cache_opt_sound fs t cache" and "fst (resolve fs t p opts cache) = Inr r"
  shows "all_dirs fs t (butlast (components (r_guest r))) \<and>
    (r_is_dir r \<longrightarrow> all_dirs fs t (components (r_guest r)))"
proof -
  obtain ds where r: "list_all clean ds" "r_guest r = build ds" "all_dirs fs t (butlast ds)"
    "r_is_dir r \<Longrightarrow> all_dirs fs t ds"
    using resolve_Inr [OF assms] by metis
  then have "components (r_guest r) = ds"
    by (simp add: build_render components_render list_all_clean_plain)
  then show ?thesis using r by simp
qed

lemma resolve_cache_sound:
  assumes "cache_sound fs t c"
  shows "\<exists>c'. snd (resolve fs t p opts (Some c)) = Some c' \<and> cache_sound fs t c'"
proof -
  let ?w = "initial_walk fs p (Some c)"
  have inv: "walk_inv fs t ?w" using assms by (intro initial_walk_inv) simp
  have pres: "(w_cache ?w = None) = False"
    by (simp add: initial_walk_def Let_def split: prod.splits)
  obtain s where s: "walk_inv fs t s" "w_cache s \<noteq> None"
    "snd (resolve fs t p opts (Some c)) = w_cache s \<or> snd (resolve fs t p opts (Some c)) = Some c"
  proof (cases "resolve_loop fs t opts ?w")
    case (Finished s)
    then show ?thesis
      using resolver_loop.finished [OF inv Finished] cache_presence.finished [OF pres Finished]
      by (intro that [of s]) (simp_all add: resolve_def)
  next
    case (Returned s r)
    then show ?thesis
      using resolver_loop.returned [OF inv Returned] cache_presence.returned [OF pres Returned]
      by (intro that [of s]) (simp_all add: resolve_def)
  qed
  then show ?thesis using assms by (auto simp: walk_inv_def)
qed

text \<open>
  The directory cache keeps its invariant through every resolution, successful or not: keys
  are unique, there are at most \<open>kMaxEntries\<close>, and every entry is sound for the file system.
\<close>

theorem resolve_keeps_cache_sound:
  assumes "cache_sound fs t c"
  shows "\<exists>c'. snd (resolve fs t p opts (Some c)) = Some c' \<and> cache_sound fs t c'"
  by (rule resolve_cache_sound [OF assms])

text \<open>
  C8: the directory cache is transparent: with a sound cache every resolution gives the same
  answer, error or result, as a resolution that walks from the root.
\<close>

theorem resolve_cache_transparent:
  assumes "cache_sound fs t c"
  shows "fst (resolve fs t p opts (Some c)) = fst (resolve fs t p opts None)"
proof -
  let ?w = "initial_walk fs p (Some c)" and ?start = "initial_walk fs p None"
  have "resolve_loop fs t opts (forget ?w) = resolve_loop fs t opts ?start"
    using initial_walks_agree [OF assms] .
  then have loops: "forget_loop (resolve_loop fs t opts ?w) = resolve_loop fs t opts ?start"
    by (simp add: resolve_loop_forget)
  show ?thesis
    using loops
    by (cases "resolve_loop fs t opts ?w") (auto simp: resolve_def finish_walk_forget dest: sym)
qed

end
