(* ===== verification/Resolver_Behaviour.thy ===== *)
theory Resolver_Behaviour
  imports Resolver_Safety
begin

text \<open>
  What the resolver computes on given file systems: paths without symlinks are left alone,
  absolute symlink targets are read from the guest root, symlink loops end in \<open>ELOOP\<close>; and the
  witnesses of the resolver's properties on a sample rootfs with an escaping symlink.
\<close>

section \<open>Spending one link\<close>

definition bump :: "walk \<Rightarrow> walk" where
  "bump s = s\<lparr>w_links := Suc (w_links s)\<rparr>"

fun bump_step :: "step_result \<Rightarrow> step_result" where
  "bump_step (Continue s) = Continue (bump s)"
| "bump_step (Return r) = Return r"

fun bump_loop :: "loop_result \<Rightarrow> loop_result" where
  "bump_loop (Finished s) = Finished (bump s)"
| "bump_loop (Returned s r) = Returned (bump s) r"

lemma bump_simps [simp]:
  "w_pending (bump s) = w_pending s" "w_done (bump s) = w_done s"
  "w_links (bump s) = Suc (w_links s)" "w_exists (bump s) = w_exists s"
  "w_is_dir (bump s) = w_is_dir s" "w_final_symlink (bump s) = w_final_symlink s"
  "w_cache (bump s) = w_cache s"
  "(bump s)\<lparr>w_done := d\<rparr> = bump (s\<lparr>w_done := d\<rparr>)"
  "(bump s)\<lparr>w_pending := q\<rparr> = bump (s\<lparr>w_pending := q\<rparr>)"
  "(bump s)\<lparr>w_is_dir := b\<rparr> = bump (s\<lparr>w_is_dir := b\<rparr>)"
  "(bump s)\<lparr>w_exists := b\<rparr> = bump (s\<lparr>w_exists := b\<rparr>)"
  "(bump s)\<lparr>w_final_symlink := b\<rparr> = bump (s\<lparr>w_final_symlink := b\<rparr>)"
  "(bump s)\<lparr>w_cache := x\<rparr> = bump (s\<lparr>w_cache := x\<rparr>)"
  by (simp_all add: bump_def)

definition one_less :: "resolve_options \<Rightarrow> resolve_options" where
  "one_less opts = opts\<lparr>max_symlinks := max_symlinks opts - 1\<rparr>"

lemma one_less_simps [simp]:
  "follow_final (one_less opts) = follow_final opts"
  "see_through_links (one_less opts) = see_through_links opts"
  "proc_tgid (one_less opts) = proc_tgid opts" "proc_tid (one_less opts) = proc_tid opts"
  "max_symlinks (one_less opts) = max_symlinks opts - 1"
  by (simp_all add: one_less_def)

lemma link_target_one_less:
  "link_target fs t (one_less opts) g m h tg = link_target fs t opts g m h tg"
  by (simp only: link_target_def proc_link_target_def one_less_simps)

lemma follow_link_bump:
  "0 < max_symlinks opts \<Longrightarrow>
     follow_link fs t opts (bump s) g m h l tg = bump_step (follow_link fs t (one_less opts) s g m h l tg)"
  by (auto simp: follow_link_def link_target_one_less enter_target_def bump_def
      split: sum.splits prod.splits)

lemma resolve_step_bump:
  "0 < max_symlinks opts \<Longrightarrow>
     resolve_step fs t opts c (bump s) = bump_step (resolve_step fs t (one_less opts) c s)"
  by (auto simp: resolve_step_def Let_def follow_link_bump split: sum.splits prod.splits)

lemma resolve_loop_bump:
  "0 < max_symlinks opts \<Longrightarrow>
     resolve_loop fs t opts (bump s) = bump_loop (resolve_loop fs t (one_less opts) s)"
proof (induction s rule: resolve_loop_induct [of fs t "one_less opts"])
  case (1 s)
  show ?case
  proof (cases "w_pending s")
    case (Cons c rest)
    then show ?thesis
      using 1 by (auto simp: resolve_loop_Cons resolve_step_bump split: step_result.splits)
  qed simp
qed

lemma finish_walk_bump: "finish_walk t tr (bump s) = finish_walk t tr s"
  by (simp only: finish_walk_def bump_simps)

section \<open>Single lookups\<close>

definition start_at :: "string list \<Rightarrow> string list \<Rightarrow> walk" where
  "start_at ds ps = \<lparr>w_pending = ps, w_done = ds, w_links = 0, w_exists = True, w_is_dir = True,
     w_final_symlink = False, w_cache = None\<rparr>"

lemma render_no_trailing:
  assumes "list_all plain cs"
  shows "\<not> trailing_slash (render cs)"
proof (cases cs rule: rev_cases)
  case (snoc ds c)
  then show ?thesis using assms by (auto simp: trailing_slash_def render_def slash_join_append plain_def dest: last_in_set)
qed (simp add: render_def trailing_slash_def)

lemma initial_walk_render:
  "list_all plain cs \<Longrightarrow> initial_walk fs (render cs) None = start_at [] cs"
  using render_no_trailing [of cs]
  by (auto simp: initial_walk_def Let_def start_at_def components_render)

lemma resolve_render:
  assumes "list_all plain cs" and "length (render cs) < kPathMax"
  shows "fst (resolve fs t (render cs) opts None) =
    (case resolve_loop fs t opts (start_at [] cs) of
       Returned s r \<Rightarrow> r | Finished s \<Rightarrow> finish_walk t False s)"
  using assms
  by (simp add: resolve_def initial_walk_render render_no_trailing not_le split: loop_result.split)

lemma loop_below_dirs:
  assumes "all_dirs fs t ds" and "list_all clean ds"
  shows "resolve_loop fs t opts (start_at [] (ds @ ps)) = resolve_loop fs t opts (start_at ds ps)"
  using resolve_loop_dirs [of fs t "start_at [] (ds @ ps)" ds ps opts] assms
  by (simp add: start_at_def)

lemma clean_no_link_id: "slash \<notin> set tg \<Longrightarrow> link_target_id tg = []"
proof (rule ccontr)
  assume a: "slash \<notin> set tg" and "link_target_id tg \<noteq> []"
  then obtain pre where "tg = pre @ kLinkStoreDir @ slash # link_target_id tg"
    using link_target_id_elim by metis
  then have "slash \<in> set tg" by (metis in_set_conv_decomp append_assoc)
  then show False using a by simp
qed

text \<open>A symlink met where it must be followed.\<close>

lemma loop_at_link:
  assumes "clean l" and "to_host t (build (ds @ [l])) = (m, h)" and "lstat fs h = Inr st"
    and "st_type st = FT_lnk" and "m_kind m \<noteq> Kind_proc" and "read_link fs h = Inr tg"
    and "link_target_id tg = []" and "tg \<noteq> []" and "0 < max_symlinks opts"
    and "follow_final opts \<or> ps \<noteq> []"
  shows "resolve_loop fs t opts (start_at ds (l # ps)) =
    resolve_loop fs t opts (bump (start_at (if is_absolute tg then [] else ds)
      (components tg @ (if trailing_slash tg then [''.''] else []) @ ps)))"
proof -
  have l: "l \<noteq> ''.''" "l \<noteq> ''..''" using assms(1) by (auto simp: clean_def)
  have "link_target fs t opts (build (ds @ [l])) m h None = Inr (False, tg)"
    using assms(5,6,7) by (simp add: link_target_def)
  then have "resolve_step fs t opts l (start_at ds ps) =
      Continue (bump (start_at (if is_absolute tg then [] else ds)
        (components tg @ (if trailing_slash tg then [''.''] else []) @ ps)))"
    using assms l
    by (auto simp: resolve_step_def start_at_def Let_def follow_link_def enter_target_def bump_def)
  then show ?thesis by (simp add: resolve_loop_Cons start_at_def)
qed

section \<open>Properties\<close>

text \<open>
  A canonical path whose proper prefixes are directories and whose end is no symlink resolves
  to itself, on the mount and host path of the table, with its type reported truthfully.
\<close>

theorem resolve_plain_path:
  assumes "list_all clean (ds @ [c])" and "all_dirs fs t ds"
    and "to_host t (render (ds @ [c])) = (m, h)" and "lstat fs h = Inr st" and "st_type st \<noteq> FT_lnk"
    and "length (render (ds @ [c])) < kPathMax" and "length h < kPathMax"
  shows "\<exists>r. fst (resolve fs t (render (ds @ [c])) opts None) = Inr r \<and>
    r_guest r = render (ds @ [c]) \<and> r_host r = h \<and> r_mount r = Some m \<and> r_exists r \<and>
    r_is_dir r = (st_type st = FT_dir) \<and> \<not> r_final_is_symlink r \<and> \<not> r_proc_magic r"
proof -
  let ?s = "(start_at (ds @ [c]) [])\<lparr>w_is_dir := (st_type st = FT_dir)\<rparr>"
  have pl: "list_all plain (ds @ [c])" using assms(1) by (rule list_all_clean_plain)
  have c: "c \<noteq> ''.''" "c \<noteq> ''..''" using assms(1) by (auto simp: clean_def)
  have "resolve_step fs t opts c (start_at ds []) = Continue ?s"
    using c assms(3,4,5)
    by (simp add: resolve_step_def start_at_def build_render remember_dir_def)
  then have "resolve_loop fs t opts (start_at ds [c]) = Finished ?s"
    by (simp add: resolve_loop_Cons start_at_def)
  then have "fst (resolve fs t (render (ds @ [c])) opts None) = finish_walk t False ?s"
    using resolve_render [OF pl assms(6), of fs t opts] loop_below_dirs [OF assms(2), of opts "[c]"]
      assms(1) by simp
  then show ?thesis
    using assms(3,7) by (simp add: finish_walk_def Let_def start_at_def build_render)
qed

text \<open>
  An absolute symlink target is interpreted from the guest root, never from the host root:
  resolving the link gives exactly what resolving the target gives with one link less to spend.
\<close>

theorem resolve_absolute_symlink:
  assumes "list_all clean (ds @ [l])" and "all_dirs fs t ds"
    and "to_host t (render (ds @ [l])) = (m, h)" and "lstat fs h = Inr st" and "st_type st = FT_lnk"
    and "m_kind m \<noteq> Kind_proc" and "read_link fs h = Inr (render tg)" and "list_all plain tg"
    and "link_target_id (render tg) = []" and "0 < max_symlinks opts" and "follow_final opts"
    and "length (render (ds @ [l])) < kPathMax"
  shows "fst (resolve fs t (render (ds @ [l])) opts None) =
    fst (resolve fs t (render tg) (one_less opts) None)"
proof -
  have pl: "list_all plain (ds @ [l])" using assms(1) by (rule list_all_clean_plain)
  have tgl: "length (render tg) < kPathMax"
    using assms(7) by (auto simp: read_link_def split: sum.splits if_splits)
  have nt: "\<not> trailing_slash (render tg)" using render_no_trailing [OF assms(8)] .
  have "render tg \<noteq> []" using is_absolute_render [of tg] by (simp add: is_absolute_def)
  then have "resolve_loop fs t opts (start_at ds [l]) = resolve_loop fs t opts (bump (start_at [] tg))"
    using loop_at_link [of l t ds m h fs st "render tg" opts "[]"] assms nt
    by (simp add: build_render components_render)
  also have "\<dots> = bump_loop (resolve_loop fs t (one_less opts) (start_at [] tg))"
    by (rule resolve_loop_bump [OF assms(10)])
  finally have "resolve_loop fs t opts (start_at [] (ds @ [l])) =
      bump_loop (resolve_loop fs t (one_less opts) (start_at [] tg))"
    using loop_below_dirs [OF assms(2), of opts "[l]"] assms(1) by simp
  then show ?thesis
    using resolve_render [OF pl assms(12), of fs t opts]
      resolve_render [OF assms(8) tgl, of fs t "one_less opts"]
    by (cases "resolve_loop fs t (one_less opts) (start_at [] tg)")
      (simp_all add: finish_walk_bump)
qed

text \<open>
  C35: a symlink that leads to itself is reported as \<open>ELOOP\<close> for every limit on the number of
  links; resolution never runs on.
\<close>

theorem resolve_self_loop:
  assumes "list_all clean (ds @ [l])" and "all_dirs fs t ds"
    and "to_host t (render (ds @ [l])) = (m, h)" and "lstat fs h = Inr st" and "st_type st = FT_lnk"
    and "m_kind m \<noteq> Kind_proc" and "readlink fs h = Inr l" and "follow_final opts"
    and "length (render (ds @ [l])) < kPathMax"
  shows "fst (resolve fs t (render (ds @ [l])) opts None) = Inl ELOOP"
proof -
  have pl: "list_all plain (ds @ [l])" using assms(1) by (rule list_all_clean_plain)
  have l: "clean l" "\<not> is_absolute l" "l \<noteq> []" "link_target_id l = []" "components l = [l]"
    "\<not> trailing_slash l"
    using assms(1)
    by (auto simp: clean_def is_absolute_def trailing_slash_def clean_no_link_id components_split split_on_id
        dest: hd_in_set last_in_set)
  have "length l \<le> length (render (ds @ [l]))" by (simp add: render_def slash_join_append)
  then have rl: "read_link fs h = Inr l" using assms(7,9) by (simp add: read_link_def)
  have "\<exists>s. resolve_loop fs t opts (start_at ds [l]) = Returned s (Inl ELOOP)"
    if "follow_final opts" for opts
    using that
  proof (induction "max_symlinks opts" arbitrary: opts)
    case 0
    have "resolve_step fs t opts l (start_at ds []) = Return (Inl ELOOP)"
      using l(1) assms(3-6) 0
      by (auto simp: resolve_step_def start_at_def Let_def build_render follow_link_def clean_def)
    then show ?case by (simp add: resolve_loop_Cons start_at_def)
  next
    case (Suc k)
    then have pos: "0 < max_symlinks opts" by simp
    have "resolve_loop fs t opts (start_at ds [l]) = resolve_loop fs t opts (bump (start_at ds [l]))"
      using loop_at_link [of l t ds m h fs st l opts "[]"] assms(3-6) rl l pos Suc.prems
      by (simp add: build_render)
    moreover have k: "k = max_symlinks (one_less opts)" using Suc.hyps(2) by simp
    moreover obtain s where
      "resolve_loop fs t (one_less opts) (start_at ds [l]) = Returned s (Inl ELOOP)"
      using Suc.hyps(1) [OF k] Suc.prems by auto
    ultimately show ?case using resolve_loop_bump [OF pos] by simp
  qed
  then obtain s where "resolve_loop fs t opts (start_at ds [l]) = Returned s (Inl ELOOP)"
    using assms(8) by blast
  then show ?thesis
    using resolve_render [OF pl assms(9), of fs t opts] loop_below_dirs [OF assms(2), of opts "[l]"]
      assms(1) by simp
qed

section \<open>Witnesses on a sample rootfs\<close>

definition sample_fs :: host_fs where
  "sample_fs =
     \<lparr>lstat = (\<lambda>p. case map_of
         [(''/data/rootfs/etc'', \<lparr>st_dev = 1, st_ino = 10, st_type = FT_dir\<rparr>),
          (''/data/rootfs/etc/passwd'', \<lparr>st_dev = 1, st_ino = 11, st_type = FT_reg\<rparr>),
          (''/data/rootfs/esc'', \<lparr>st_dev = 1, st_ino = 12, st_type = FT_lnk\<rparr>),
          (''/data/rootfs/abs'', \<lparr>st_dev = 1, st_ino = 13, st_type = FT_lnk\<rparr>),
          (''/data/rootfs/self'', \<lparr>st_dev = 1, st_ino = 14, st_type = FT_lnk\<rparr>)] p of
        None \<Rightarrow> Inl ENOENT | Some st \<Rightarrow> Inr st),
      readlink = (\<lambda>p. case map_of
         [(''/data/rootfs/esc'', ''../../../etc/passwd''),
          (''/data/rootfs/abs'', ''/etc/passwd''),
          (''/data/rootfs/self'', ''self'')] p of
        None \<Rightarrow> Inl EINVAL | Some tg \<Rightarrow> Inr tg)\<rparr>"

definition sample_cache :: dir_cache where
  "sample_cache = [(''/etc'', \<lparr>ce_host = ''/data/rootfs/etc'', ce_dev = 1, ce_ino = 10\<rparr>)]"

lemma sample_esc_resolves:
  "fst (resolve sample_fs sample_table ''/esc'' default_options None) =
     Inr \<lparr>r_guest = ''/etc/passwd'', r_host = ''/data/rootfs/etc/passwd'',
          r_mount = Some (hd sample_table), r_exists = True, r_is_dir = False,
          r_final_is_symlink = False, r_proc_magic = False, r_link_id = []\<rparr>"
  by code_simp

lemma sample_cache_sound: "cache_sound sample_fs sample_table sample_cache"
  by code_simp

theorem resolve_contained_witness:
  "\<exists>m \<in> set sample_table. is_below ''/data/rootfs/etc/passwd'' (m_host m)"
  using resolve_contained [OF sample_table_ok _ sample_esc_resolves] by auto

theorem resolve_prefixes_are_dirs_witness:
  "all_dirs sample_fs sample_table (butlast (components ''/etc/passwd''))"
  using resolve_prefixes_are_dirs [OF _ sample_esc_resolves] by simp

theorem resolve_keeps_cache_sound_witness:
  "\<exists>c'. snd (resolve sample_fs sample_table ''/esc'' default_options (Some sample_cache)) = Some c' \<and>
     cache_sound sample_fs sample_table c'"
  by (rule resolve_keeps_cache_sound [OF sample_cache_sound])

theorem resolve_cache_transparent_witness:
  "fst (resolve sample_fs sample_table ''/etc/passwd'' default_options (Some sample_cache)) =
     fst (resolve sample_fs sample_table ''/etc/passwd'' default_options None)"
  by (rule resolve_cache_transparent [OF sample_cache_sound])

theorem resolve_plain_path_witness:
  "\<exists>r. fst (resolve sample_fs sample_table ''/etc/passwd'' default_options None) = Inr r \<and>
     r_host r = ''/data/rootfs/etc/passwd'' \<and> r_exists r \<and> \<not> r_is_dir r"
proof -
  have "list_all clean ([''etc''] @ [''passwd''])" by (simp add: clean_def)
  moreover have "all_dirs sample_fs sample_table [''etc'']" by code_simp
  moreover have "to_host sample_table (render ([''etc''] @ [''passwd''])) =
      (hd sample_table, ''/data/rootfs/etc/passwd'')" by code_simp
  moreover have "lstat sample_fs ''/data/rootfs/etc/passwd'' =
      Inr \<lparr>st_dev = 1, st_ino = 11, st_type = FT_reg\<rparr>" by code_simp
  ultimately show ?thesis
    using resolve_plain_path [of "[''etc'']" "''passwd''" sample_fs sample_table _ _ _ default_options]
    by (fastforce simp: render_def kPathMax_def)
qed

theorem resolve_absolute_symlink_witness:
  "fst (resolve sample_fs sample_table ''/abs'' default_options None) =
     fst (resolve sample_fs sample_table ''/etc/passwd'' (one_less default_options) None)"
proof -
  have a: "list_all clean ([] @ [''abs''])" "list_all plain [''etc'', ''passwd'']"
    by (simp_all add: clean_def plain_def)
  have b: "to_host sample_table (render ([] @ [''abs''])) = (hd sample_table, ''/data/rootfs/abs'')"
    by code_simp
  have c: "lstat sample_fs ''/data/rootfs/abs'' = Inr \<lparr>st_dev = 1, st_ino = 13, st_type = FT_lnk\<rparr>"
    by code_simp
  have d: "read_link sample_fs ''/data/rootfs/abs'' = Inr (render [''etc'', ''passwd''])"
    "m_kind (hd sample_table) \<noteq> Kind_proc" "link_target_id (render [''etc'', ''passwd'']) = []"
    by code_simp+
  show ?thesis
    using resolve_absolute_symlink [OF a(1) all_dirs_Nil b c _ d(2,1) a(2) d(3), of default_options]
    by (simp add: default_options_def render_def kPathMax_def)
qed

theorem resolve_self_loop_witness:
  "fst (resolve sample_fs sample_table ''/self'' default_options None) = Inl ELOOP"
proof -
  have a: "list_all clean ([] @ [''self''])" by (simp add: clean_def)
  have b: "to_host sample_table (render ([] @ [''self''])) = (hd sample_table, ''/data/rootfs/self'')"
    by code_simp
  have c: "lstat sample_fs ''/data/rootfs/self'' = Inr \<lparr>st_dev = 1, st_ino = 14, st_type = FT_lnk\<rparr>"
    by code_simp
  have d: "readlink sample_fs ''/data/rootfs/self'' = Inr ''self''"
    "m_kind (hd sample_table) \<noteq> Kind_proc"
    by code_simp+
  show ?thesis
    using resolve_self_loop [OF a all_dirs_Nil b c _ d(2,1), of default_options]
    by (simp add: default_options_def render_def kPathMax_def)
qed

end
