(* ===== verification/Json_Validity.thy ===== *)
theory Json_Validity
  imports Json
begin

text \<open>
  Everything the writer produces passes the validator: escaped strings whatever bytes they hold,
  and whole documents written by a well-bracketed sequence of writer calls, described by a tree.
\<close>

section \<open>Consumption\<close>

lemma v_lit_shorter: "l \<noteq> [] \<Longrightarrow> v_lit l s = Some r \<Longrightarrow> length r < length s"
  by (auto simp: v_lit_def split: if_splits) (metis diff_less length_0_conv length_drop
      length_greater_0_conv take_Nil)

lemma v_digits_shorter: "v_digits s = Some r \<Longrightarrow> length r < length s"
  by (cases s) (auto simp: v_digits_def le_imp_less_Suc length_dropWhile_le split: if_splits)

lemma v_integer_shorter: "v_integer s = Some r \<Longrightarrow> length r < length s"
  by (cases s) (auto simp: v_integer_def Let_def peek_def split: if_splits dest!: v_digits_shorter)

lemma v_fraction_shorter: "v_fraction s = Some r \<Longrightarrow> length r \<le> length s"
  by (auto simp: v_fraction_def split: if_splits dest!: v_digits_shorter)

lemma v_exponent_shorter: "v_exponent s = Some r \<Longrightarrow> length r \<le> length s"
  by (auto simp: v_exponent_def split: if_splits dest!: v_digits_shorter)

lemma v_number_shorter: "v_number s = Some r \<Longrightarrow> length r < length s"
  by (fastforce simp: v_number_def split: option.splits
      dest: v_integer_shorter v_fraction_shorter v_exponent_shorter)

lemma v_members_Some:
  assumes "v_members d s = Some r"
  obtains s2 s5 where "peek dquote (v_ws s)" "v_string (tl (v_ws s)) = Some s2"
    "peek (CHR '':'') (v_ws s2)" "v_value d (v_ws (tl (v_ws s2))) = Some s5"
    "(peek (CHR '','') (v_ws s5) \<and> length (v_ws s5) < length s \<and> v_members d (tl (v_ws s5)) = Some r) \<or>
     (peek (CHR ''}'') (v_ws s5) \<and> r = tl (v_ws s5))"
  using assms that
  by (subst (asm) v_members.simps) (auto simp: Let_def split: if_splits option.splits)

lemma v_elements_Some:
  assumes "v_elements d s = Some r"
  obtains s5 where "v_value d (v_ws s) = Some s5"
    "(peek (CHR '','') (v_ws s5) \<and> length (v_ws s5) < length s \<and> v_elements d (tl (v_ws s5)) = Some r) \<or>
     (peek (CHR '']'') (v_ws s5) \<and> r = tl (v_ws s5))"
  using assms that
  by (subst (asm) v_elements.simps) (auto simp: Let_def split: if_splits option.splits)

text \<open>Each parsing method consumes at least one byte when it accepts.\<close>

lemma v_tail_lt: "peek c s \<Longrightarrow> length (tl s) < length s"
  by (cases s) (auto simp: peek_def)

lemma v_Nil: "v_members d [] = None" "v_elements d [] = None"
  by (simp_all add: v_members.simps v_elements.simps v_value.simps v_ws_def peek_def)

lemma v_accept_shorter:
  "length s \<le> n \<Longrightarrow>
     (v_value d s = Some r \<longrightarrow> length r < length s) \<and>
     (v_object d s = Some r \<longrightarrow> length r < length s) \<and>
     (v_members d s = Some r \<longrightarrow> length r < length s) \<and>
     (v_array d s = Some r \<longrightarrow> length r < length s) \<and>
     (v_elements d s = Some r \<longrightarrow> length r < length s)"
proof (induction n arbitrary: d s r)
  case 0
  then show ?case
    by (simp add: v_Nil v_value.simps v_object.simps v_array.simps v_ws_def peek_def)
next
  case (Suc n)
  have val: "length r < length s" if "v_value d s = Some r" "length s \<le> Suc n" for d r s
  proof (cases s)
    case (Cons c cs)
    then have "length r < length cs" if "v_object (Suc d) cs = Some r \<or> v_array (Suc d) cs = Some r"
      using Suc.IH [of cs "Suc d" r] \<open>length s \<le> Suc n\<close> that by auto
    moreover have "v_object (Suc d) cs = Some r \<or> v_array (Suc d) cs = Some r \<or> v_string cs = Some r \<or>
      (\<exists>l. l \<noteq> [] \<and> v_lit l s = Some r) \<or> v_number s = Some r"
      using that(1) Cons by (auto simp: v_value.simps split: if_splits)
    ultimately show ?thesis
      using Cons by (auto dest: v_string_shorter v_number_shorter v_lit_shorter)
  qed (use that in \<open>simp add: v_value.simps\<close>)
  have mem: "length r < length s" if "v_members d s = Some r" "length s \<le> Suc n" for d r s
    using that(1)
  proof (cases rule: v_members_Some)
    case (1 s2 s5)
    have "length s2 < length s"
      using v_string_shorter [OF 1(2)] v_ws_le [of s] by (cases "v_ws s") auto
    then have "length (v_ws (tl (v_ws s2))) < length s"
      using v_ws_le [of "tl (v_ws s2)"] v_ws_le [of s2] by (cases "v_ws s2") auto
    then have "length s5 < length s" using val [OF 1(4)] that(2) by linarith
    then have "length (tl (v_ws s5)) < length s" "length (v_ws s5) < length s"
      using v_ws_le [of s5] by auto
    then show ?thesis using 1(5) Suc.IH [of "tl (v_ws s5)" d r] that(2) by auto
  qed
  have elt: "length r < length s" if "v_elements d s = Some r" "length s \<le> Suc n" for d r s
    using that(1)
  proof (cases rule: v_elements_Some)
    case (1 s5)
    have "length s5 < length s" using val [OF 1(1)] v_ws_le [of s] that(2) by linarith
    then have "length (tl (v_ws s5)) < length s" "length (v_ws s5) < length s"
      using v_ws_le [of s5] by auto
    then show ?thesis using 1(2) Suc.IH [of "tl (v_ws s5)" d r] that(2) by auto
  qed
  have "length r < length s" if "v_object d s = Some r \<or> v_array d s = Some r"
    using that mem [of d "v_ws s" r] elt [of d "v_ws s" r] v_ws_le [of s] Suc.prems
    by (cases "v_ws s") (auto simp: v_object.simps v_array.simps Let_def peek_def split: if_splits)
  then show ?case using val mem elt Suc.prems by blast
qed

lemmas v_value_shorter = v_accept_shorter [OF order_refl, THEN conjunct1, rule_format]

text \<open>The equations of the source, without the termination guards.\<close>

lemma v_members_eq:
  "v_members depth s =
     (if \<not> peek dquote (v_ws s) then None
      else case v_string (tl (v_ws s)) of
          None \<Rightarrow> None
        | Some s2 \<Rightarrow>
            if \<not> peek (CHR '':'') (v_ws s2) then None
            else case v_value depth (v_ws (tl (v_ws s2))) of
                None \<Rightarrow> None
              | Some s5 \<Rightarrow>
                  if peek (CHR '','') (v_ws s5) then v_members depth (tl (v_ws s5))
                  else if peek (CHR ''}'') (v_ws s5) then Some (tl (v_ws s5)) else None)"
proof -
  have "length (v_ws s2) < length s" if "v_string (tl (v_ws s)) = Some s2" for s2
    using v_string_shorter [OF that] v_ws_le [of s2] v_ws_le [of s] by simp
  moreover have "length (v_ws s5) < length (v_ws s2)"
    if "v_value depth (v_ws (tl (v_ws s2))) = Some s5" for s2 s5
    using v_value_shorter [OF that] v_ws_le [of s5] v_ws_le [of "tl (v_ws s2)"] by simp
  ultimately show ?thesis
    by (subst v_members.simps) (fastforce simp: Let_def split: option.splits)
qed

lemma v_elements_eq:
  "v_elements depth s =
     (case v_value depth (v_ws s) of
        None \<Rightarrow> None
      | Some s5 \<Rightarrow>
          if peek (CHR '','') (v_ws s5) then v_elements depth (tl (v_ws s5))
          else if peek (CHR '']'') (v_ws s5) then Some (tl (v_ws s5)) else None)"
proof -
  have "length (v_ws s5) < length s" if "v_value depth (v_ws s) = Some s5" for s5
    using v_value_shorter [OF that] v_ws_le [of s5] v_ws_le [of s] by simp
  then show ?thesis by (subst v_elements.simps) (auto simp: Let_def split: option.splits)
qed

section \<open>Escaped strings\<close>

lemma utf8_seq_len_le: "s \<noteq> [] \<Longrightarrow> utf8_seq_len s \<le> length s"
  by (cases s) (auto simp: utf8_seq_len_def Let_def split: option.splits)

lemma utf8_seq_len_local:
  assumes "utf8_seq_len s = n" and "0 < n" and "s \<noteq> []"
  shows "utf8_seq_len (take n s @ r) = n"
proof -
  obtain c cs where s: "s = c # cs" using assms(3) by (cases s) auto
  have n: "n \<le> length s" using utf8_seq_len_le assms by blast
  show ?thesis
  proof (cases "byte c < 0x80")
    case True
    then show ?thesis using assms(1) s by (simp add: utf8_seq_len_def)
  next
    case False
    then obtain m cp where l: "utf8_lead (byte c) = Some (m, cp)"
      using assms(1,2) s by (cases "utf8_lead (byte c)") (auto simp: utf8_seq_len_def)
    then have "m = n"
      using False assms(1,2) s by (auto simp: utf8_seq_len_def Let_def split: option.splits if_splits)
    moreover obtain k where "n = Suc k" using assms(2) by (cases n) auto
    ultimately show ?thesis
      using assms(1) n s l False by (simp add: utf8_seq_len_def Let_def)
  qed
qed

lemma is_hex_hex_digit: "n < 16 \<Longrightarrow> is_hex (hex_digit n)"
proof -
  assume "n < 16"
  then have "n \<in> set [0..<16]" by simp
  moreover have "list_all (\<lambda>n. is_hex (hex_digit n)) [0..<16]" by code_simp
  ultimately show ?thesis by (simp only: list_all_iff)
qed

lemma and_15_less: "(x::nat) AND 15 < 16"
proof -
  have "x AND 15 = take_bit 4 x" by (simp add: take_bit_eq_mask mask_eq_exp_minus_1)
  then show ?thesis using take_bit_nat_less_exp [of 4 x] by simp
qed

lemma escape_cases:
  assumes "s = c # cs"
  obtains (esc) e where "json_escape_body s = backslash # e # json_escape_body cs"
      "e \<in> set [dquote, backslash, CHR ''/'', CHR ''b'', CHR ''f'', CHR ''n'', CHR ''r'', CHR ''t'']"
    | (hex) h where "json_escape_body s = backslash # CHR ''u'' # h @ json_escape_body cs"
      "length h = 4" "list_all is_hex h"
    | (copy) "c \<noteq> dquote" "c \<noteq> backslash" "\<not> byte c < 0x20" "0 < utf8_seq_len s"
      "json_escape_body s = take (utf8_seq_len s) s @ json_escape_body (drop (utf8_seq_len s) s)"
proof -
  let ?E = "json_escape_body cs"
  consider "c \<in> set [dquote, backslash, CHR 0x0A, CHR 0x0D, CHR 0x09, CHR 0x08, CHR 0x0C]"
    | "c \<notin> set [dquote, backslash, CHR 0x0A, CHR 0x0D, CHR 0x09, CHR 0x08, CHR 0x0C]" "byte c < 0x20"
    | "c \<notin> set [dquote, backslash, CHR 0x0A, CHR 0x0D, CHR 0x09, CHR 0x08, CHR 0x0C]"
      "\<not> byte c < 0x20" "utf8_seq_len s = 0"
    | "c \<notin> set [dquote, backslash, CHR 0x0A, CHR 0x0D, CHR 0x09, CHR 0x08, CHR 0x0C]"
      "\<not> byte c < 0x20" "0 < utf8_seq_len s"
    by blast
  then show ?thesis
  proof cases
    case 1
    then have "\<exists>e. json_escape_body s = backslash # e # ?E \<and>
        e \<in> set [dquote, backslash, CHR ''/'', CHR ''b'', CHR ''f'', CHR ''n'', CHR ''r'', CHR ''t'']"
      using assms by (subst json_escape_body.simps) auto
    then show ?thesis using esc by blast
  next
    case 2
    let ?h = "''00'' @ [hex_digit (drop_bit 4 (byte c) AND 0xF), hex_digit (byte c AND 0xF)]"
    have "json_escape_body s = backslash # CHR ''u'' # ?h @ ?E"
      using assms 2 by (subst json_escape_body.simps) simp
    moreover have "list_all is_hex ?h" using and_15_less is_hex_hex_digit by (simp add: is_hex_def)
    ultimately show ?thesis using hex [of ?h] by simp
  next
    case 3
    have "json_escape_body s = backslash # CHR ''u'' # ''fffd'' @ ?E"
      using assms 3 by (subst json_escape_body.simps) simp
    moreover have "list_all is_hex ''fffd''" by (simp add: is_hex_def)
    ultimately show ?thesis using hex [of "''fffd''"] by simp
  next
    case 4
    have "json_escape_body s = take (utf8_seq_len s) s @ json_escape_body (drop (utf8_seq_len s) s)"
      using assms 4 by (subst json_escape_body.simps) (simp add: Let_def)
    then show ?thesis using copy 4 by simp
  qed
qed

lemma v_string_escape: "v_string (json_escape_body s @ dquote # r) = Some r"
proof (induction s rule: length_induct)
  case (1 s)
  show ?case
  proof (cases s)
    case Nil
    then show ?thesis by (simp add: json_escape_body.simps)
  next
    case (Cons c cs)
    have IH: "v_string (json_escape_body u @ dquote # r) = Some r" if "length u < length s" for u
      using "1.IH" that by blast
    have cs: "v_string (json_escape_body cs @ dquote # r) = Some r" using IH Cons by simp
    show ?thesis
      using Cons
    proof (cases rule: escape_cases)
      case (esc e)
      then show ?thesis using cs by (auto simp: v_string_backslash)
    next
      case (hex h)
      then show ?thesis using cs by (simp add: v_string_backslash)
    next
      case copy
      let ?n = "utf8_seq_len s"
      let ?t = "json_escape_body (drop ?n s) @ dquote # r"
      have len: "?n \<le> length s" using utf8_seq_len_le Cons by blast
      have loc: "utf8_seq_len (take ?n s @ ?t) = ?n"
        using utf8_seq_len_local copy(4) Cons by blast
      have tk: "take ?n s @ ?t = c # (take (?n - 1) cs @ ?t)"
        using copy(4) Cons by (cases ?n) auto
      have "v_string (take ?n s @ ?t) = v_string (drop ?n (take ?n s @ ?t))"
        using v_string_plain [of c "take (?n - 1) cs @ ?t"] copy loc unfolding tk by simp
      also have "\<dots> = v_string ?t" using len by simp
      also have "\<dots> = Some r" using IH [of "drop ?n s"] copy(4) Cons by simp
      finally show ?thesis using copy(5) by simp
    qed
  qed
qed

section \<open>Accepted text inside a longer text\<close>

definition delimiter :: "string \<Rightarrow> bool" where
  "delimiter r \<longleftrightarrow> r = [] \<or> hd r \<in> set ['','' ! 0, ''}'' ! 0, '']'' ! 0] \<or> is_ws (hd r)"

lemma delimiter_simps [simp]:
  "delimiter []" "delimiter (CHR '','' # r)" "delimiter (CHR ''}'' # r)" "delimiter (CHR '']'' # r)"
  by (simp_all add: delimiter_def)

lemma delimiter_no_peek:
  assumes "delimiter r"
  shows "\<not> peek (CHR ''.'') r" "\<not> peek (CHR ''e'') r" "\<not> peek (CHR ''E'') r"
    "r \<noteq> [] \<Longrightarrow> \<not> is_digit (hd r)"
  using assms by (auto simp: delimiter_def peek_def is_ws_def is_digit_def)

lemma peek_append: "peek c (s @ r) \<longleftrightarrow> (if s = [] then peek c r else peek c s)"
  by (simp add: peek_def)

lemma v_ws_append: "v_ws s \<noteq> [] \<Longrightarrow> v_ws (s @ r) = v_ws s @ r"
  by (auto simp: v_ws_def dropWhile_append)

lemma digits_append: "delimiter r \<Longrightarrow> dropWhile is_digit (s @ r) = dropWhile is_digit s @ r"
  using delimiter_no_peek(4) [of r] by (cases r) (auto simp: dropWhile_append)

lemma v_digits_append: "delimiter r \<Longrightarrow> v_digits s = Some u \<Longrightarrow> v_digits (s @ r) = Some (u @ r)"
  by (auto simp: v_digits_def digits_append split: if_splits)

lemma v_number_append:
  assumes "v_number s = Some u" and "delimiter r"
  shows "v_number (s @ r) = Some (u @ r)"
proof -
  obtain s1 s2 where a: "v_integer s = Some s1" "v_fraction s1 = Some s2" "v_exponent s2 = Some u"
    using assms(1) by (auto simp: v_number_def split: option.splits)
  note np = delimiter_no_peek [OF assms(2)]
  note app = v_digits_def digits_append [OF assms(2)] digits_append [OF assms(2), of "[]", simplified]
    peek_def
  have "v_integer (s @ r) = Some (s1 @ r)"
    using a(1) by (cases s; cases "tl s") (auto simp: v_integer_def Let_def app split: if_splits)
  moreover have "v_fraction (s1 @ r) = Some (s2 @ r)"
    using a(2) np by (cases s1) (auto simp: v_fraction_def app split: if_splits)
  moreover have "v_exponent (s2 @ r) = Some (u @ r)"
    using a(3) np by (cases s2; cases "tl s2") (auto simp: v_exponent_def app split: if_splits)
  ultimately show ?thesis by (simp add: v_number_def)
qed

lemma v_lit_append: "v_lit l s = Some u \<Longrightarrow> v_lit l (s @ r) = Some (u @ r)"
  by (auto simp: v_lit_def split: if_splits) (metis append_take_drop_id length_append length_take
      min.absorb_iff2 diff_is_0_eq' drop_append le_add1 append_eq_append_conv_if drop0 take_append)+

lemma utf8_seq_len_append:
  assumes "0 < utf8_seq_len s" and "s \<noteq> []"
  shows "utf8_seq_len (s @ r) = utf8_seq_len s"
  using utf8_seq_len_local [OF refl assms, of "drop (utf8_seq_len s) s @ r"]
  by (simp flip: append_assoc)

lemma v_string_append: "v_string s = Some u \<Longrightarrow> v_string (s @ r) = Some (u @ r)"
proof (induction s rule: length_induct)
  case (1 s)
  show ?case
  proof (cases s)
    case Nil
    then show ?thesis using "1.prems" by simp
  next
    case (Cons c cs)
    have IH: "v_string w = Some u \<Longrightarrow> v_string (w @ r) = Some (u @ r)" if "length w < length s" for w
      using "1.IH" that by blast
    consider "c = dquote" | "c \<noteq> dquote" "byte c < 0x20" | "c = backslash" |
      "c \<noteq> dquote" "c \<noteq> backslash" "\<not> byte c < 0x20" by auto
    then show ?thesis
    proof cases
      case 3
      then show ?thesis
        using "1.prems" Cons IH [of "tl cs"] IH [of "drop 4 (tl cs)"]
        by (cases cs) (auto simp: v_string_backslash split: if_splits)
    next
      case 4
      let ?n = "utf8_seq_len s"
      have n: "0 < ?n" "v_string (drop ?n s) = Some u"
        using "1.prems" 4 Cons by (auto simp: v_string_plain split: if_splits)
      then have "v_string (drop ?n s @ r) = Some (u @ r)" using IH Cons by simp
      moreover have "drop ?n (s @ r) = drop ?n s @ r"
        using utf8_seq_len_le [of s] Cons by (simp only: drop_append) simp
      ultimately show ?thesis
        using v_string_plain [of c "cs @ r"] 4 n utf8_seq_len_append [of s r] Cons by simp
    qed (use "1.prems" Cons in \<open>auto simp: v_string_control\<close>)
  qed
qed

lemma v_tail_append: "peek c (v_ws s) \<Longrightarrow> v_ws (s @ r) = v_ws s @ r \<and> tl (v_ws s @ r) = tl (v_ws s) @ r"
  by (auto simp: peek_def v_ws_append)

lemma v_value_ne: "v_value d s = Some u \<Longrightarrow> s \<noteq> []"
  by (auto simp: v_value.simps)

lemma v_accept_append:
  "length s \<le> n \<Longrightarrow> delimiter r \<Longrightarrow>
     (v_value d s = Some u \<longrightarrow> v_value d (s @ r) = Some (u @ r)) \<and>
     (v_object d s = Some u \<longrightarrow> v_object d (s @ r) = Some (u @ r)) \<and>
     (v_members d s = Some u \<longrightarrow> v_members d (s @ r) = Some (u @ r)) \<and>
     (v_array d s = Some u \<longrightarrow> v_array d (s @ r) = Some (u @ r)) \<and>
     (v_elements d s = Some u \<longrightarrow> v_elements d (s @ r) = Some (u @ r))"
proof (induction n arbitrary: d s u)
  case 0
  then show ?case
    by (simp add: v_Nil v_value.simps v_object.simps v_array.simps v_ws_def peek_def)
next
  case (Suc n)
  have val: "v_value d (s @ r) = Some (u @ r)" if ve: "v_value d s = Some u" and le: "length s \<le> Suc n" for d u s
  proof -
    obtain c cs where s: "s = c # cs" using v_value_ne [OF ve] by (cases s) auto
    then have "v_object (Suc d) cs = Some u \<Longrightarrow> v_object (Suc d) (cs @ r) = Some (u @ r)"
      "v_array (Suc d) cs = Some u \<Longrightarrow> v_array (Suc d) (cs @ r) = Some (u @ r)"
      using Suc.IH [of cs "Suc d" u] Suc.prems le by auto
    then show ?thesis
      using ve s v_number_append [of s u r] v_lit_append [of _ s u r] Suc.prems
      by (auto simp: v_value.simps v_string_append split: if_splits)
  qed
  have mem: "v_members d (s @ r) = Some (u @ r)" if "v_members d s = Some u" "length s \<le> Suc n" for d u s
    using that(1)
  proof (cases rule: v_members_Some)
    case (1 s2 s5)
    have l2: "length s2 < length s"
      using v_string_shorter [OF 1(2)] v_ws_le [of s] by (cases "v_ws s") auto
    have l3: "length (v_ws (tl (v_ws s2))) < length s"
      using l2 v_ws_le [of "tl (v_ws s2)"] v_ws_le [of s2] by (cases "v_ws s2") auto
    have l5: "length (tl (v_ws s5)) < length s"
      using v_value_shorter [OF 1(4)] l3 v_ws_le [of s5] by simp
    have w: "v_ws (tl (v_ws s2) @ r) = v_ws (tl (v_ws s2)) @ r"
      using v_value_ne [OF 1(4)] by (rule v_ws_append)
    have v: "v_value d (v_ws (tl (v_ws s2)) @ r) = Some (s5 @ r)"
      using val [OF 1(4)] l3 that(2) by simp
    note a = v_tail_append [OF 1(1)] v_tail_append [OF 1(3)]
    have p: "peek c (v_ws x @ r) = peek c (v_ws x)" if "peek c' (v_ws x)" for c c' x
      using that by (simp add: peek_append peek_def)
    show ?thesis
      using 1(5)
    proof
      assume b: "peek (CHR '','') (v_ws s5) \<and> length (v_ws s5) < length s \<and> v_members d (tl (v_ws s5)) = Some u"
      then have "v_members d (tl (v_ws s5) @ r) = Some (u @ r)"
        using Suc.IH [of "tl (v_ws s5)" d u] Suc.prems l5 that(2) by simp
      then show ?thesis
        using 1(1-4) a b v w v_tail_append [of "CHR '',''" s5] v_string_append [OF 1(2)]
        by (subst v_members_eq) (simp add: p [OF 1(1)] p [OF 1(3)] p [OF conjunct1 [OF b]])
    next
      assume b: "peek (CHR ''}'') (v_ws s5) \<and> u = tl (v_ws s5)"
      then have "\<not> peek (CHR '','') (v_ws s5)" by (auto simp: peek_def)
      then show ?thesis
        using 1(1-4) a b v w v_tail_append [of "CHR ''}''" s5] v_string_append [OF 1(2)]
        by (subst v_members_eq) (simp add: p [OF 1(1)] p [OF 1(3)] p [OF conjunct1 [OF b]])
    qed
  qed
  have elt: "v_elements d (s @ r) = Some (u @ r)" if "v_elements d s = Some u" "length s \<le> Suc n" for d u s
    using that(1)
  proof (cases rule: v_elements_Some)
    case (1 s5)
    have l5: "length (tl (v_ws s5)) < length s"
      using v_value_shorter [OF 1(1)] v_ws_le [of s5] v_ws_le [of s] by simp
    have w: "v_ws (s @ r) = v_ws s @ r" using v_value_ne [OF 1(1)] by (rule v_ws_append)
    have v: "v_value d (v_ws s @ r) = Some (s5 @ r)"
      using val [OF 1(1)] v_ws_le [of s] that(2) by simp
    show ?thesis
      using 1(2)
    proof
      assume b: "peek (CHR '','') (v_ws s5) \<and> length (v_ws s5) < length s \<and> v_elements d (tl (v_ws s5)) = Some u"
      then have "v_elements d (tl (v_ws s5) @ r) = Some (u @ r)"
        using Suc.IH [of "tl (v_ws s5)" d u] Suc.prems l5 that(2) by simp
      then show ?thesis
        using b v w v_tail_append [of "CHR '',''" s5]
        by (subst v_elements_eq) (simp add: peek_append peek_def)
    next
      assume b: "peek (CHR '']'') (v_ws s5) \<and> u = tl (v_ws s5)"
      then show ?thesis
        using v w v_tail_append [of "CHR '']''" s5]
        by (subst v_elements_eq) (auto simp: peek_append peek_def)
    qed
  qed
  have obj: "v_object d (s @ r) = Some (u @ r)" if "v_object d s = Some u"
  proof (cases "peek (CHR ''}'') (v_ws s)")
    case True
    then show ?thesis
      using that v_tail_append [OF True] by (simp add: v_object.simps Let_def peek_append peek_def)
  next
    case False
    then have m: "v_members d (v_ws s) = Some u" using that by (simp add: v_object.simps Let_def)
    then have "v_ws s \<noteq> []" by (intro notI) (simp add: v_Nil)
    then show ?thesis
      using mem [OF m] v_ws_le [of s] Suc.prems False
      by (simp add: v_object.simps Let_def v_ws_append peek_append)
  qed
  have arr: "v_array d (s @ r) = Some (u @ r)" if "v_array d s = Some u"
  proof (cases "peek (CHR '']'') (v_ws s)")
    case True
    then show ?thesis
      using that v_tail_append [OF True] by (simp add: v_array.simps Let_def peek_append peek_def)
  next
    case False
    then have m: "v_elements d (v_ws s) = Some u" using that by (simp add: v_array.simps Let_def)
    then have "v_ws s \<noteq> []" by (intro notI) (simp add: v_Nil)
    then show ?thesis
      using elt [OF m] v_ws_le [of s] Suc.prems False
      by (simp add: v_array.simps Let_def v_ws_append peek_append)
  qed
  show ?case using val mem elt obj arr Suc.prems by blast
qed

lemmas v_value_append = v_accept_append [OF order_refl, THEN conjunct1, rule_format]

section \<open>Documents written by the writer\<close>

text \<open>
  A document as a client of the writer builds it: \<open>emit\<close> is the sequence of writer calls for a
  tree, \<open>jtext\<close> the text it should produce.
\<close>

datatype jtree =
    JStr string | JInt int | JNat nat | JBool bool | JNull | JRaw string
  | JArr "jtree list" | JObj "(string \<times> jtree) list"

fun emit :: "jtree \<Rightarrow> json_writer \<Rightarrow> json_writer"
  and emit_elements :: "jtree list \<Rightarrow> json_writer \<Rightarrow> json_writer"
  and emit_members :: "(string \<times> jtree) list \<Rightarrow> json_writer \<Rightarrow> json_writer"
where
  "emit (JStr v) w = value_string v w"
| "emit (JInt i) w = value_int64 i w"
| "emit (JNat n) w = value_uint64 n w"
| "emit (JBool b) w = value_bool b w"
| "emit JNull w = write_null w"
| "emit (JRaw j) w = write_raw j w"
| "emit (JArr ts) w = end_array (emit_elements ts (begin_array w))"
| "emit (JObj ms) w = end_object (emit_members ms (begin_object w))"
| "emit_elements [] w = w"
| "emit_elements (t # ts) w = emit_elements ts (emit t w)"
| "emit_members [] w = w"
| "emit_members ((k, t) # ms) w = emit_members ms (emit t (write_key k w))"

fun jtext :: "jtree \<Rightarrow> string"
  and jtext_elements :: "bool \<Rightarrow> jtree list \<Rightarrow> string"
  and jtext_members :: "bool \<Rightarrow> (string \<times> jtree) list \<Rightarrow> string"
where
  "jtext (JStr v) = json_quote v"
| "jtext (JInt i) = int_string i"
| "jtext (JNat n) = dec_string n"
| "jtext (JBool b) = (if b then ''true'' else ''false'')"
| "jtext JNull = ''null''"
| "jtext (JRaw j) = j"
| "jtext (JArr ts) = ''['' @ jtext_elements True ts @ '']''"
| "jtext (JObj ms) = ''{'' @ jtext_members True ms @ ''}''"
| "jtext_elements first [] = []"
| "jtext_elements first (t # ts) = (if first then [] else '','') @ jtext t @ jtext_elements False ts"
| "jtext_members first [] = []"
| "jtext_members first ((k, t) # ms) =
     (if first then [] else '','') @ json_quote k @ '':'' @ jtext t @ jtext_members False ms"

text \<open>A tree fits below \<open>depth\<close> when no value is nested deeper than the validator's limit.\<close>

fun fits :: "nat \<Rightarrow> jtree \<Rightarrow> bool" where
  "fits d (JArr ts) \<longleftrightarrow> d \<le> 256 \<and> (\<forall>t \<in> set ts. fits (Suc d) t)"
| "fits d (JObj ms) \<longleftrightarrow> d \<le> 256 \<and> (\<forall>m \<in> set ms. fits (Suc d) (snd m))"
| "fits d (JRaw j) \<longleftrightarrow> d \<le> 256 \<and> (\<exists>u. v_value d (v_ws j) = Some u \<and> v_ws u = [])"
| "fits d _ \<longleftrightarrow> d \<le> 256"

lemma json_escape_into_quote: "json_escape_into out s = out @ json_quote s"
  by (simp add: json_escape_into_def json_quote_def)

lemma before_value_members:
  "jw_after_key (before_value w) = False"
  "jw_first w = f # fs \<Longrightarrow> \<not> jw_after_key w \<Longrightarrow>
     before_value w = w\<lparr>jw_out := jw_out w @ (if f then [] else '',''), jw_first := False # fs\<rparr>"
  by (auto simp: before_value_def split: list.splits)

lemma begin_members:
  "jw_first (begin_array w) = True # jw_first (before_value w)"
  "jw_first (begin_object w) = True # jw_first (before_value w)"
  "jw_after_key (begin_array w) = False" "jw_after_key (begin_object w) = False"
  by (simp_all add: begin_array_def begin_object_def put_def Let_def before_value_members(1))

lemma emit_put:
  shows "emit t w = put (jtext t) (before_value w)"
    and "jw_first w = f # fs \<Longrightarrow> \<not> jw_after_key w \<Longrightarrow>
      emit_elements ts w = w\<lparr>jw_out := jw_out w @ jtext_elements f ts, jw_first := (f \<and> ts = []) # fs\<rparr>"
    and "jw_first w = f # fs \<Longrightarrow> \<not> jw_after_key w \<Longrightarrow>
      emit_members ms w = w\<lparr>jw_out := jw_out w @ jtext_members f ms, jw_first := (f \<and> ms = []) # fs\<rparr>"
proof (induction t w and ts w and ms w arbitrary: and f fs and f fs
    rule: emit_emit_elements_emit_members.induct)
  case (7 ts w)
  show ?case
    using "7" [OF begin_members(1)] begin_members(3)
    by (simp add: end_array_def begin_array_def put_def Let_def)
next
  case (8 ms w)
  show ?case
    using "8" [OF begin_members(2)] begin_members(4)
    by (simp add: end_object_def begin_object_def put_def Let_def)
next
  case (10 t ts w)
  show ?case
    using "10.prems" "10.IH"(1) "10.IH"(2) [of False fs]
    by (simp add: put_def before_value_members(2))
next
  case (12 k t ms w)
  show ?case
    using "12.prems" "12.IH"(1) "12.IH"(2) [of False fs]
    by (simp add: write_key_def put_def Let_def before_value_def json_escape_into_quote)
qed (simp_all add: value_string_def value_int64_def value_uint64_def value_bool_def write_null_def
    write_raw_def put_def Let_def json_escape_into_quote)


lemma digit_char_facts:
  assumes "d < 10"
  shows "is_digit (digit_char d)" "digit_char d = CHR ''0'' \<longleftrightarrow> d = 0" "\<not> is_ws (digit_char d)"
    "digit_char d \<notin> set [CHR ''{'', CHR ''['', dquote, CHR ''t'', CHR ''f'', CHR ''n'', CHR ''-'']"
proof -
  have "list_all (\<lambda>d. is_digit (digit_char d) \<and> (digit_char d = CHR ''0'' \<longleftrightarrow> d = 0) \<and>
      \<not> is_ws (digit_char d) \<and>
      digit_char d \<notin> set [CHR ''{'', CHR ''['', dquote, CHR ''t'', CHR ''f'', CHR ''n'', CHR ''-'']) [0..<10]"
    by code_simp
  moreover have "d \<in> set [0..<10]" using assms by simp
  ultimately have "is_digit (digit_char d) \<and> (digit_char d = CHR ''0'' \<longleftrightarrow> d = 0) \<and>
      \<not> is_ws (digit_char d) \<and>
      digit_char d \<notin> set [CHR ''{'', CHR ''['', dquote, CHR ''t'', CHR ''f'', CHR ''n'', CHR ''-'']"
    unfolding list_all_iff by (rule bspec)
  then show "is_digit (digit_char d)" "digit_char d = CHR ''0'' \<longleftrightarrow> d = 0" "\<not> is_ws (digit_char d)"
    "digit_char d \<notin> set [CHR ''{'', CHR ''['', dquote, CHR ''t'', CHR ''f'', CHR ''n'', CHR ''-'']"
    by blast+
qed

text \<open>A decimal numeral has no leading zero unless it is the number zero.\<close>

lemma dec_string_digits: "list_all is_digit (dec_string n)"
  by (induction n rule: dec_string.induct) (subst dec_string.simps, simp add: digit_char_facts(1))

lemma dec_string_hd: "\<exists>d cs. d < 10 \<and> dec_string n = digit_char d # cs \<and> (d = 0 \<longrightarrow> n = 0 \<and> cs = [])"
proof (induction n rule: dec_string.induct)
  case (1 n)
  show ?case
  proof (cases "n < 10")
    case True
    then show ?thesis by (subst dec_string.simps) auto
  next
    case False
    then obtain d cs where "d < 10" "dec_string (n div 10) = digit_char d # cs" "d \<noteq> 0"
      using 1 by fastforce
    then show ?thesis using False by (subst dec_string.simps) auto
  qed
qed

lemma v_integer_dec: "delimiter r \<Longrightarrow> v_integer (dec_string n @ r) = Some r"
proof -
  assume r: "delimiter r"
  obtain d cs where d: "d < 10" "dec_string n = digit_char d # cs" "d = 0 \<longrightarrow> n = 0 \<and> cs = []"
    using dec_string_hd by blast
  have "dropWhile is_digit (dec_string n @ r) = r"
    using digits_append [OF r, of "dec_string n"] dec_string_digits [of n]
    by (simp add: list_all_iff dropWhile_eq_self_iff dropWhile_append)
  then show ?thesis
    using d digit_char_facts [OF d(1)]
    by (auto simp: v_integer_def v_digits_def peek_def Let_def)
qed

lemma v_number_dec: "delimiter r \<Longrightarrow> v_number (dec_string n @ r) = Some r"
  by (simp add: v_number_def v_integer_dec v_fraction_def v_exponent_def delimiter_no_peek)

lemma v_integer_minus:
  assumes "v_integer (dec_string n @ r) = Some u"
  shows "v_integer (CHR ''-'' # dec_string n @ r) = Some u"
proof -
  obtain d cs where d: "d < 10" "dec_string n = digit_char d # cs" using dec_string_hd by blast
  then show ?thesis
    using assms digit_char_facts(4) [OF d(1)]
    unfolding v_integer_def peek_def d(2) by simp
qed

lemma v_number_int: "delimiter r \<Longrightarrow> v_number (int_string i @ r) = Some r"
  using v_integer_minus [OF v_integer_dec, of r "nat (- i)"] v_number_dec [of r "nat i"]
  by (simp add: int_string_def v_number_def v_fraction_def v_exponent_def delimiter_no_peek)


text \<open>Whitespace around values.\<close>

lemma v_ws_idem [simp]: "v_ws (v_ws s) = v_ws s"
  by (simp add: v_ws_def)

lemma v_ws_skip: "v_ws u = [] \<Longrightarrow> v_ws (u @ r) = v_ws r"
  by (simp add: v_ws_def)

lemma v_ws_Cons: "\<not> is_ws c \<Longrightarrow> v_ws (c # r) = c # r"
  by (simp add: v_ws_def)

lemma not_ws [simp]:
  "\<not> is_ws (CHR '','')" "\<not> is_ws (CHR '']'')" "\<not> is_ws (CHR ''}'')" "\<not> is_ws dquote" "\<not> is_ws (CHR '':'')"
  "\<not> is_ws (CHR ''['')" "\<not> is_ws (CHR ''{'')" "\<not> is_ws (CHR ''t'')" "\<not> is_ws (CHR ''f'')" "\<not> is_ws (CHR ''n'')"
  "\<not> is_ws (CHR ''-'')"
  by (simp_all add: is_ws_def)

lemma peek_Cons [simp]: "peek c (x # xs) \<longleftrightarrow> x = c"
  by (simp add: peek_def)

lemma v_elements_ws: "v_elements d (v_ws s) = v_elements d s"
  by (subst (1 2) v_elements_eq) simp

lemma v_members_ws: "v_members d (v_ws s) = v_members d s"
  by (subst (1 2) v_members_eq) simp

lemma v_value_not_close: "v_value d (CHR '']'' # s) = None"
  by (simp add: v_value.simps v_number_def v_integer_def v_digits_def peek_def is_digit_def)

lemma v_value_int: 
  assumes "d \<le> 256" "delimiter r"
  shows "v_value d (v_ws (int_string i @ r)) = Some r"
proof -
  obtain e cs where e: "e < 10" "dec_string (nat (if i < 0 then - i else i)) = digit_char e # cs"
    using dec_string_hd by blast
  note f = digit_char_facts [OF e(1)]
  have "\<exists>c x. int_string i @ r = c # x \<and> \<not> is_ws c \<and>
      c \<notin> set [CHR ''{'', CHR ''['', dquote, CHR ''t'', CHR ''f'', CHR ''n'']"
    using e f(3,4) by (cases "i < 0") (auto simp: int_string_def)
  then obtain c x where "int_string i @ r = c # x" "\<not> is_ws c"
    "c \<notin> set [CHR ''{'', CHR ''['', dquote, CHR ''t'', CHR ''f'', CHR ''n'']" by blast
  then show ?thesis
    using assms v_number_int [OF assms(2), of i] by (simp add: v_ws_Cons v_value.simps)
qed

lemma v_value_dec: "d \<le> 256 \<Longrightarrow> delimiter r \<Longrightarrow> v_value d (v_ws (dec_string n @ r)) = Some r"
  using v_value_int [of d r "int n"] by (simp add: int_string_def)

lemma json_quote_Cons: "json_quote s @ r = dquote # json_escape_body s @ dquote # r"
  by (simp add: json_quote_def json_escape_into_def)

lemma v_value_quote: "d \<le> 256 \<Longrightarrow> v_value d (v_ws (json_quote s @ r)) = Some r"
  by (simp add: json_quote_Cons v_ws_Cons v_value.simps v_string_escape)

definition reads :: "nat \<Rightarrow> string \<Rightarrow> string \<Rightarrow> bool" where
  "reads d s r \<longleftrightarrow> (\<exists>u. v_value d (v_ws (s @ r)) = Some (u @ r) \<and> v_ws u = [])"

lemma reads_atom:
  assumes "d \<le> 256"
  shows "reads d (json_quote s) r" "reads d ''true'' r" "reads d ''false'' r" "reads d ''null'' r"
    "delimiter r \<Longrightarrow> reads d (int_string i) r" "delimiter r \<Longrightarrow> reads d (dec_string n) r"
  unfolding reads_def
  using assms v_value_quote [of d s r] v_value_int [of d r i] v_value_dec [of d r n]
  by (auto intro!: exI [of _ "[]"] simp: v_ws_Cons v_value.simps v_lit_def) (simp_all add: v_ws_def)

lemma reads_raw:
  assumes "fits d (JRaw j)" and "delimiter r"
  shows "reads d j r"
proof -
  obtain u where u: "v_value d (v_ws j) = Some u" "v_ws u = []" using assms(1) by auto
  then have "v_value d (v_ws (j @ r)) = Some (u @ r)"
    using v_ws_append [OF v_value_ne [OF u(1)]] v_value_append [OF assms(2) u(1)] by simp
  then show ?thesis using u(2) unfolding reads_def by blast
qed


lemma jtext_rest:
  "jtext_elements False (t # ts) = CHR '','' # jtext_elements True (t # ts)"
  "jtext_members False (m # ms) = CHR '','' # jtext_members True (m # ms)"
  by (cases m; simp)+

lemma reads_elements:
  assumes "\<And>t r. t \<in> set ts \<Longrightarrow> delimiter r \<Longrightarrow> reads d (jtext t) r" and "ts \<noteq> []"
  shows "v_elements d (jtext_elements True ts @ CHR '']'' # r) = Some r"
  using assms
proof (induction ts)
  case (Cons t ts)
  let ?rest = "jtext_elements False ts @ CHR '']'' # r"
  have "delimiter ?rest" by (cases ts) (simp_all add: jtext_rest)
  then have "reads d (jtext t) ?rest" using Cons.prems(1) [of t ?rest] by simp
  then obtain u where u: "v_value d (v_ws (jtext t @ ?rest)) = Some (u @ ?rest)" "v_ws u = []"
    unfolding reads_def by blast
  have "v_ws (u @ ?rest) = ?rest"
    using u(2) by (cases ts) (simp_all add: v_ws_skip v_ws_Cons jtext_rest)
  then show ?case
    using u(1) Cons by (cases ts) (subst v_elements_eq, simp add: jtext_rest)+
qed simp

lemma reads_members:
  assumes "\<And>m r. m \<in> set ms \<Longrightarrow> delimiter r \<Longrightarrow> reads d (jtext (snd m)) r" and "ms \<noteq> []"
  shows "v_members d (jtext_members True ms @ CHR ''}'' # r) = Some r"
  using assms
proof (induction ms)
  case (Cons m ms)
  obtain k t where m: "m = (k, t)" by (cases m)
  let ?rest = "jtext_members False ms @ CHR ''}'' # r"
  have "delimiter ?rest" by (cases ms) (simp_all add: jtext_rest)
  then have "reads d (jtext t) ?rest" using Cons.prems(1) [of m ?rest] m by simp
  then obtain u where u: "v_value d (v_ws (jtext t @ ?rest)) = Some (u @ ?rest)" "v_ws u = []"
    unfolding reads_def by blast
  have w: "v_ws (u @ ?rest) = ?rest"
    using u(2) by (cases ms) (simp_all add: v_ws_skip v_ws_Cons jtext_rest)
  have "v_members d (jtext_members True (m # ms) @ CHR ''}'' # r) =
      (if peek (CHR '','') ?rest then v_members d (tl ?rest)
       else if peek (CHR ''}'') ?rest then Some (tl ?rest) else None)"
    using u(1) w
    by (subst v_members_eq) (simp add: m json_quote_Cons v_ws_Cons v_string_escape)
  also have "\<dots> = Some r"
    using Cons by (cases ms) (simp_all add: jtext_rest)
  finally show ?case .
qed simp

lemma reads_array:
  assumes "d \<le> 256" and "\<And>t r. t \<in> set ts \<Longrightarrow> delimiter r \<Longrightarrow> reads (Suc d) (jtext t) r"
  shows "reads d (jtext (JArr ts)) r"
proof -
  let ?s = "jtext_elements True ts @ CHR '']'' # r"
  have "v_array (Suc d) ?s = Some r"
  proof (cases "ts = []")
    case True
    then show ?thesis by (simp add: v_array.simps v_ws_Cons)
  next
    case False
    have e: "v_elements (Suc d) ?s = Some r" using reads_elements [OF assms(2) False] by blast
    then obtain y where "v_value (Suc d) (v_ws ?s) = Some y" by (rule v_elements_Some)
    then have "\<not> peek (CHR '']'') (v_ws ?s)"
      by (cases "v_ws ?s") (auto simp: v_value_not_close peek_def)
    then show ?thesis using e by (simp add: v_array.simps v_elements_ws)
  qed
  then have "v_value d (v_ws (jtext (JArr ts) @ r)) = Some ([] @ r)"
    using assms(1) by (simp add: v_ws_Cons v_value.simps)
  then show ?thesis unfolding reads_def by (intro exI [of _ "[]"]) (simp add: v_ws_def)
qed

lemma reads_object:
  assumes "d \<le> 256" and "\<And>m r. m \<in> set ms \<Longrightarrow> delimiter r \<Longrightarrow> reads (Suc d) (jtext (snd m)) r"
  shows "reads d (jtext (JObj ms)) r"
proof -
  let ?s = "jtext_members True ms @ CHR ''}'' # r"
  have "v_object (Suc d) ?s = Some r"
  proof (cases "ms = []")
    case True
    then show ?thesis by (simp add: v_object.simps v_ws_Cons)
  next
    case False
    have e: "v_members (Suc d) ?s = Some r" using reads_members [OF assms(2) False] by blast
    then obtain s2 s5 where "peek dquote (v_ws ?s)" by (rule v_members_Some)
    then have "\<not> peek (CHR ''}'') (v_ws ?s)" by (auto simp: peek_def)
    then show ?thesis using e by (simp add: v_object.simps v_members_ws)
  qed
  then have "v_value d (v_ws (jtext (JObj ms) @ r)) = Some ([] @ r)"
    using assms(1) by (simp add: v_ws_Cons v_value.simps)
  then show ?thesis unfolding reads_def by (intro exI [of _ "[]"]) (simp add: v_ws_def)
qed

lemma reads_jtext: "fits d t \<Longrightarrow> delimiter r \<Longrightarrow> reads d (jtext t) r"
proof (induction d t arbitrary: r rule: fits.induct)
  case (1 d ts)
  show ?case using reads_array [of d ts r] "1.prems" "1.IH" by auto
next
  case (2 d ms)
  show ?case using reads_object [of d ms r] "2.prems" "2.IH" by auto
next
  case (3 d j)
  then show ?case using reads_raw by simp
qed (simp_all add: reads_atom)

lemma json_validate_reads: "reads 0 s [] \<Longrightarrow> json_validate s"
  by (auto simp: reads_def json_validate_def)

lemma jw_out_emit_new: "jw_out (emit t new_writer) = jtext t"
  by (simp add: emit_put(1) put_def new_writer_def before_value_def)

section \<open>Properties\<close>

text \<open>
  Quoting any byte string, valid UTF-8 or not, gives a document the validator accepts.\<close>

theorem json_quote_valid: "json_validate (json_quote s)"
  by (rule json_validate_reads) (simp add: reads_atom)

text \<open>
  Every document written by a well-bracketed sequence of writer calls, starting from an empty
  writer, is accepted by the validator, provided it nests no deeper than the validator's limit and
  the text passed to \<open>raw\<close> is itself accepted where it stands.\<close>

theorem writer_document_valid:
  "fits 0 t \<Longrightarrow> json_validate (jw_out (emit t new_writer))"
  unfolding jw_out_emit_new by (rule json_validate_reads) (simp add: reads_jtext)

text \<open>A document that uses every kind of value.\<close>

definition sample_document :: jtree where
  "sample_document = JObj [(''a'', JArr [JInt (- 12), JNat 0, JNull]), (''b'' @ [backslash], JStr [CHR 0xFF, dquote]),
     (''c'', JBool True), (''d'', JRaw '' {} ''), (''e'', JObj []), (''f'', JArr [])]"

theorem writer_document_valid_witness:
  "fits 0 sample_document \<and> json_validate (jw_out (emit sample_document new_writer))"
proof -
  have "fits 0 sample_document"
    by (simp add: sample_document_def v_value.simps v_object.simps v_ws_def is_ws_def peek_def)
  then show ?thesis using writer_document_valid by blast
qed

end
