(* ===== verification/Strings.thy ===== *)
theory Strings
  imports Prelude "HOL-Library.Word"
begin

text \<open>
  Number parsing and splitting (\<open>src/src/common/strings.cpp\<close>).  The accumulator of \<open>parse_u64\<close> is
  a 64-bit word, so the overflow guard of the source is what keeps the result exact.
\<close>

section \<open>Operations\<close>

fun parse_u64_loop :: "64 word \<Rightarrow> string \<Rightarrow> 64 word option" where
  "parse_u64_loop v [] = Some v"
| "parse_u64_loop v (c # cs) =
     (if byte c < 48 \<or> byte c > 57 then None
      else let d = (of_nat (byte c - 48) :: 64 word)
           in if v > (- 1 - d) div 10 then None else parse_u64_loop (v * 10 + d) cs)"

definition parse_u64 :: "string \<Rightarrow> 64 word option" where
  "parse_u64 s = (if s = [] \<or> length s > 20 then None else parse_u64_loop 0 s)"

definition parse_u32 :: "string \<Rightarrow> 32 word option" where
  "parse_u32 s =
     (case parse_u64 s of
        None \<Rightarrow> None
      | Some v \<Rightarrow> if v > 0xFFFFFFFF then None else Some (ucast v))"

definition parse_i32 :: "string \<Rightarrow> 32 word option" where
  "parse_i32 s =
     (let neg = (s \<noteq> [] \<and> hd s = CHR ''-'');
          s1 = (if neg then tl s else s)
      in case parse_u64 s1 of
           None \<Rightarrow> None
         | Some v \<Rightarrow>
             (let limit = 0x7FFFFFFF + (if neg then 1 else 0)
              in if v > limit then None
                 else if neg then Some (ucast (- v)) else Some (ucast v)))"

function split_loop :: "string \<Rightarrow> char \<Rightarrow> nat \<Rightarrow> string list \<Rightarrow> string list" where
  "split_loop s sep start out =
     (case find_char sep (drop start s) of
        None \<Rightarrow> out @ [drop start s]
      | Some k \<Rightarrow> split_loop s sep (start + k + 1) (out @ [take k (drop start s)]))"
  by pat_completeness auto
termination
proof (relation "measure (\<lambda>(s, sep, start, out). length s - start)")
  fix s sep start out k assume "find_char sep (drop start s) = Some k"
  then have "k < length (drop start s)" using find_char_SomeD by metis
  then show "((s, sep, start + k + 1, out @ [take k (drop start s)]), s, sep, start, out)
      \<in> measure (\<lambda>(s, sep, start, out). length s - start)" by auto
qed simp

declare split_loop.simps [simp del]

definition split :: "string \<Rightarrow> char \<Rightarrow> string list" where
  "split s sep = split_loop s sep 0 []"

definition contains_nul :: "string \<Rightarrow> bool" where
  "contains_nul s \<longleftrightarrow> find_char nul s \<noteq> None"

section \<open>Decimal values\<close>

abbreviation digit_byte :: "char \<Rightarrow> bool" where
  "digit_byte c \<equiv> 48 \<le> byte c \<and> byte c \<le> 57"

definition dec_value :: "string \<Rightarrow> nat" where
  "dec_value s = foldl (\<lambda>v c. v * 10 + (byte c - 48)) 0 s"

lemma foldl_dec_ge: "v \<le> foldl (\<lambda>v c. v * 10 + (byte c - 48)) v s"
proof (induction s arbitrary: v)
  case (Cons c s)
  have "v \<le> v * 10 + (byte c - 48)" by simp
  then show ?case using Cons [of "v * 10 + (byte c - 48)"] by simp
qed simp

lemma digit_char_byte: "d < 10 \<Longrightarrow> byte (digit_char d) = 48 + d"
  by (simp add: digit_char_def)

lemma dec_string_all_digits: "\<forall>c \<in> set (dec_string n). digit_byte c"
proof (induction n rule: dec_string.induct)
  case (1 n)
  then show ?case by (subst dec_string.simps) (auto simp: digit_char_byte)
qed

lemma dec_value_dec_string [simp]: "dec_value (dec_string n) = n"
proof (induction n rule: dec_string.induct)
  case (1 n)
  then show ?case by (subst dec_string.simps) (auto simp: dec_value_def digit_char_byte)
qed

lemma dec_string_ne [simp]: "dec_string n \<noteq> []"
  by (subst dec_string.simps) simp

lemma dec_string_length: "n < 10 ^ k \<Longrightarrow> 0 < k \<Longrightarrow> length (dec_string n) \<le> k"
proof (induction n arbitrary: k rule: dec_string.induct)
  case (1 n)
  show ?case
  proof (cases "n < 10")
    case True
    then show ?thesis using 1 by (subst dec_string.simps) simp
  next
    case False
    then obtain j where j: "k = Suc j" "0 < j" using 1 by (cases k; cases "k - 1") auto
    then have "n div 10 < 10 ^ j" using "1.prems" by (simp add: less_mult_imp_div_less mult.commute)
    then show ?thesis using 1 False j by (subst dec_string.simps) simp
  qed
qed

text \<open>The guard of the loop is exactly the condition that the next accumulator fits 64 bits.\<close>

lemma u64_guard:
  fixes v :: "64 word"
  assumes "d \<le> 9"
  shows "v > (- 1 - of_nat d) div 10 \<longleftrightarrow> unat v * 10 + d \<ge> 2 ^ 64"
proof -
  have d: "unat (of_nat d :: 64 word) = d" using assms by (simp add: unat_of_nat)
  have m: "unat (- 1 :: 64 word) = 2 ^ 64 - 1"
    by (simp add: unsigned_minus_1_eq_mask mask_eq_exp_minus_1)
  have "unat (- 1 - of_nat d :: 64 word) = 2 ^ 64 - 1 - d"
    using unat_sub [of "of_nat d" "- 1 :: 64 word"] unfolding d m by simp
  then have "unat ((- 1 - of_nat d) div 10 :: 64 word) = (2 ^ 64 - 1 - d) div 10"
    by (simp add: unat_div)
  then show ?thesis using assms unfolding word_less_nat_alt by simp linarith
qed

lemma u64_step:
  fixes v :: "64 word"
  assumes "unat v * 10 + d < 2 ^ 64"
  shows "unat (v * 10 + of_nat d) = unat v * 10 + d"
proof -
  have "v * 10 + of_nat d = of_nat (unat v * 10 + d)" by simp
  then show ?thesis using assms by (simp only: unat_of_nat) simp
qed

lemma parse_u64_loop_Some:
  "parse_u64_loop v s = Some w \<longleftrightarrow>
     (\<forall>c \<in> set s. digit_byte c) \<and>
     unat w = foldl (\<lambda>v c. v * 10 + (byte c - 48)) (unat v) s"
proof (induction s arbitrary: v)
  case Nil
  then show ?case by (auto simp: word_unat_eq_iff)
next
  case (Cons c s)
  let ?d = "byte c - 48" and ?n = "unat v * 10 + (byte c - 48)"
  consider "\<not> digit_byte c" | "digit_byte c" "?n \<ge> 2 ^ 64" | "digit_byte c" "?n < 2 ^ 64" by linarith
  then show ?case
  proof cases
    case 1
    then show ?thesis by auto
  next
    case 2
    then have "v > (- 1 - of_nat ?d) div 10" by (subst u64_guard) auto
    moreover have "unat w < 2 ^ 64" using unsigned_less [of w] by simp
    ultimately show ?thesis using 2 foldl_dec_ge [of ?n s] by (simp add: Let_def)
  next
    case 3
    then have "\<not> v > (- 1 - of_nat ?d) div 10" by (subst u64_guard) auto
    then show ?thesis using 3 u64_step [of v ?d] Cons [of "v * 10 + of_nat ?d"] by (simp add: Let_def)
  qed
qed

lemma parse_u64_Some:
  "parse_u64 s = Some v \<longleftrightarrow>
     s \<noteq> [] \<and> length s \<le> 20 \<and> (\<forall>c \<in> set s. digit_byte c) \<and> dec_value s = unat v"
  by (auto simp: parse_u64_def parse_u64_loop_Some dec_value_def)

lemma parse_u64_dec_string: "n < 2 ^ 64 \<Longrightarrow> parse_u64 (dec_string n) = Some (of_nat n)"
  unfolding parse_u64_Some
  using dec_string_length [of n 20] dec_string_all_digits [of n] by (simp add: unat_of_nat)

lemma split_loop_split_on: "split_loop s sep start out = out @ split_on sep (drop start s)"
proof (induction s sep start out rule: split_loop.induct)
  case (1 s sep start out)
  show ?case
  proof (cases "find_char sep (drop start s)")
    case None
    then have "sep \<notin> set (drop start s)" by simp
    then show ?thesis
      by (subst split_loop.simps) (simp add: split_on_id None del: find_char_None)
  next
    case (Some k)
    then show ?thesis
      using 1 find_char_takeWhile [OF Some]
      by (subst split_loop.simps, subst split_on_break) (simp add: add.commute del: dropWhile_eq_Nil_conv)
  qed
qed

lemma split_on_join: "concat (map (\<lambda>w. sep # w) (split_on sep s)) = sep # s"
  by (induction s) (auto split: list.splits)

lemma ucast_word_of_int: "(ucast (word_of_int i :: 64 word) :: 32 word) = word_of_int i"
  by transfer simp

lemma word_of_sint: "word_of_int (sint w) = (w :: 32 word)"
  using scast_eq [of w] by (simp add: scast_id)

section \<open>Properties\<close>

text \<open>
  \<open>parse_u64\<close> accepts exactly the decimal numerals of at most 20 digits whose value fits 64
  bits, and returns that value: the overflow guard neither rejects a representable number nor lets
  the accumulator wrap.\<close>

theorem parse_u64_spec:
  "parse_u64 s =
     (if s \<noteq> [] \<and> length s \<le> 20 \<and> list_all digit_byte s \<and> dec_value s < 2 ^ 64
      then Some (of_nat (dec_value s)) else None)"
proof (cases "parse_u64 s")
  case None
  have "\<not> (s \<noteq> [] \<and> length s \<le> 20 \<and> list_all digit_byte s \<and> dec_value s < 2 ^ 64)"
  proof
    assume a: "s \<noteq> [] \<and> length s \<le> 20 \<and> list_all digit_byte s \<and> dec_value s < 2 ^ 64"
    then have "parse_u64 s = Some (of_nat (dec_value s))"
      unfolding parse_u64_Some by (simp add: list_all_iff unat_of_nat)
    then show False using None by simp
  qed
  then show ?thesis using None by simp
next
  case (Some v)
  moreover have "unat v < 2 ^ 64" using unsigned_less [of v] by simp
  ultimately show ?thesis by (simp add: parse_u64_Some list_all_iff)
qed

text \<open>
  Printing a 32-bit signed number and parsing it back with \<open>parse_i32\<close> gives the number, the
  most negative one included.\<close>

theorem parse_i32_roundtrip: "parse_i32 (int_string (sint w)) = Some (w :: 32 word)"
proof -
  have b: "- (2 ^ 31) \<le> sint w" "sint w < 2 ^ 31"
    using sint_range_size [of w] by (simp_all add: word_size)
  show ?thesis
  proof (cases "sint w < 0")
    case True
    define n where "n = nat (- sint w)"
    have n: "n \<le> 2 ^ 31" "sint w = - int n" using b True by (simp_all add: n_def)
    then have "parse_u64 (dec_string n) = Some (of_nat n)" by (intro parse_u64_dec_string) simp
    moreover have "\<not> of_nat n > (0x80000000 :: 64 word)"
      using n(1) by (simp add: word_less_nat_alt unat_of_nat)
    moreover have "ucast (- (of_nat n :: 64 word)) = w"
    proof -
      have "ucast (- (of_nat n :: 64 word)) = (word_of_int (- int n) :: 32 word)"
        using ucast_word_of_int [of "- int n"] by simp
      then show ?thesis using n(2) word_of_sint [of w] by simp
    qed
    ultimately show ?thesis
      using True by (simp add: parse_i32_def int_string_def n_def [symmetric])
  next
    case False
    define n where "n = nat (sint w)"
    have n: "n < 2 ^ 31" "sint w = int n" using b False by (simp_all add: n_def)
    then have "parse_u64 (dec_string n) = Some (of_nat n)" by (intro parse_u64_dec_string) simp
    moreover have "\<not> of_nat n > (0x7FFFFFFF :: 64 word)"
      using n(1) by (simp add: word_less_nat_alt unat_of_nat)
    moreover have "hd (dec_string n) \<noteq> CHR ''-''"
      using dec_string_all_digits [of n] by (cases "dec_string n") auto
    moreover have "ucast (of_nat n :: 64 word) = w"
      using n(2) ucast_word_of_int [of "int n"] word_of_sint [of w] by simp
    ultimately show ?thesis using False by (simp add: parse_i32_def int_string_def n_def [symmetric])
  qed
qed

text \<open>
  \<open>split\<close> cuts at every separator and nowhere else: the pieces hold no separator, there is
  always at least one, and joining them again with the separator gives the text.\<close>

theorem split_spec:
  "split s sep = split_on sep s \<and>
   concat (map (\<lambda>w. sep # w) (split s sep)) = sep # s \<and>
   list_all (\<lambda>w. sep \<notin> set w) (split s sep)"
  by (simp add: split_def split_loop_split_on split_on_join list_all_iff split_on_no_sep)

end
