(* ===== verification/Json_Dom.thy ===== *)
theory Json_Dom
  imports Complex_Main Json_Validity Strings
begin

text \<open>
  The JSON document model of the command line tool (\<open>src/src/cli/json_dom.hpp\<close>, \<open>json_dom.cpp\<close>):
  its parser, its string quoting and the typed lookups.  As in \<open>Json\<close>, the position is the unread
  rest of the text.  \<open>strtod\<close> is modelled by the exact rational value of the decimal numeral it
  reads; the rounding to a double is left out.
\<close>

section \<open>Values and lookups\<close>

datatype dom =
    DNull | DBool bool | DNum rat | DStr string | DArr "dom list" | DObj "string list" "dom list"

fun dom_get_loop :: "string \<Rightarrow> string list \<Rightarrow> dom list \<Rightarrow> dom option" where
  "dom_get_loop key (k # ks) (v # vs) = (if k = key then Some v else dom_get_loop key ks vs)"
| "dom_get_loop key _ _ = None"

fun dom_get :: "dom \<Rightarrow> string \<Rightarrow> dom option" where
  "dom_get (DObj ks vs) key = dom_get_loop key ks vs"
| "dom_get _ key = None"

definition dom_str :: "dom \<Rightarrow> string \<Rightarrow> string \<Rightarrow> string" where
  "dom_str v key fallback = (case dom_get v key of Some (DStr s) \<Rightarrow> s | _ \<Rightarrow> fallback)"

definition dom_flag :: "dom \<Rightarrow> string \<Rightarrow> bool \<Rightarrow> bool" where
  "dom_flag v key fallback = (case dom_get v key of Some (DBool b) \<Rightarrow> b | _ \<Rightarrow> fallback)"

definition dom_num :: "dom \<Rightarrow> string \<Rightarrow> rat \<Rightarrow> rat" where
  "dom_num v key fallback = (case dom_get v key of Some (DNum n) \<Rightarrow> n | _ \<Rightarrow> fallback)"

section \<open>Strings\<close>

definition put_utf8 :: "nat \<Rightarrow> string" where
  "put_utf8 cp =
     (if cp < 0x80 then [char_of cp]
      else if cp < 0x800
      then [char_of (0xC0 OR drop_bit 6 cp), char_of (0x80 OR (cp AND 0x3F))]
      else if cp < 0x10000
      then [char_of (0xE0 OR drop_bit 12 cp), char_of (0x80 OR (drop_bit 6 cp AND 0x3F)),
            char_of (0x80 OR (cp AND 0x3F))]
      else [char_of (0xF0 OR drop_bit 18 cp), char_of (0x80 OR (drop_bit 12 cp AND 0x3F)),
            char_of (0x80 OR (drop_bit 6 cp AND 0x3F)), char_of (0x80 OR (cp AND 0x3F))])"

definition hex_val :: "char \<Rightarrow> nat option" where
  "hex_val c =
     (if byte c \<ge> 48 \<and> byte c \<le> 57 then Some (byte c - 48)
      else if byte c \<ge> 97 \<and> byte c \<le> 102 then Some (byte c - 97 + 10)
      else if byte c \<ge> 65 \<and> byte c \<le> 70 then Some (byte c - 65 + 10)
      else None)"

fun hex_loop :: "nat \<Rightarrow> nat \<Rightarrow> string \<Rightarrow> (nat \<times> string) option" where
  "hex_loop 0 out s = Some (out, s)"
| "hex_loop (Suc i) out s =
     (case s of
        [] \<Rightarrow> None
      | c # cs \<Rightarrow> (case hex_val c of
            None \<Rightarrow> None
          | Some h \<Rightarrow> hex_loop i (push_bit 4 out OR h) cs))"

definition hex4 :: "string \<Rightarrow> (nat \<times> string) option" where
  "hex4 s = hex_loop 4 0 s"

text \<open>\<open>\\u\<close> escapes, with the second half of a surrogate pair when one follows.\<close>

definition d_unicode :: "string \<Rightarrow> (string \<times> string) option" where
  "d_unicode s =
     (case hex4 s of
        None \<Rightarrow> None
      | Some (cp, s1) \<Rightarrow>
          if cp \<ge> 0xD800 \<and> cp \<le> 0xDBFF \<and> starts_with s1 [backslash, CHR ''u'']
          then (case hex4 (drop 2 s1) of
                  None \<Rightarrow> None
                | Some (lo, s2) \<Rightarrow>
                    if lo < 0xDC00 \<or> lo > 0xDFFF then None
                    else Some (put_utf8 (0x10000 + push_bit 10 (cp - 0xD800) + (lo - 0xDC00)), s2))
          else Some (put_utf8 cp, s1))"

definition simple_escape :: "char \<Rightarrow> char option" where
  "simple_escape e =
     (if e = dquote then Some dquote
      else if e = backslash then Some backslash
      else if e = CHR ''/'' then Some (CHR ''/'')
      else if e = CHR ''b'' then Some (CHR 0x08)
      else if e = CHR ''f'' then Some (CHR 0x0C)
      else if e = CHR ''n'' then Some (CHR 0x0A)
      else if e = CHR ''r'' then Some (CHR 0x0D)
      else if e = CHR ''t'' then Some (CHR 0x09)
      else None)"

lemma hex_loop_shorter: "hex_loop n out s = Some (cp, r) \<Longrightarrow> length r \<le> length s"
  by (induction n out s rule: hex_loop.induct) (auto split: list.splits option.splits intro: le_SucI)

lemma d_unicode_shorter: "d_unicode s = Some (x, r) \<Longrightarrow> length r \<le> length s"
  by (auto simp: d_unicode_def hex4_def split: option.splits if_splits dest!: hex_loop_shorter)

function d_string :: "string \<Rightarrow> string \<Rightarrow> (string \<times> string) option" where
  "d_string out s =
     (case s of
        [] \<Rightarrow> None
      | c # cs \<Rightarrow>
          if c = dquote then Some (out, cs)
          else if byte c < 0x20 then None
          else if c \<noteq> backslash then d_string (out @ [c]) cs
          else (case cs of
                  [] \<Rightarrow> None
                | e # es \<Rightarrow>
                    (case simple_escape e of
                       Some x \<Rightarrow> d_string (out @ [x]) es
                     | None \<Rightarrow>
                         if e = CHR ''u''
                         then (case d_unicode es of
                                 None \<Rightarrow> None
                               | Some (x, r) \<Rightarrow> d_string (out @ x) r)
                         else None)))"
  by pat_completeness auto
termination
  by (relation "measure (\<lambda>(out, s). length s)") (auto dest: d_unicode_shorter)

declare d_string.simps [simp del]

section \<open>Numbers\<close>

definition number_char :: "char \<Rightarrow> bool" where
  "number_char c \<longleftrightarrow>
     c = CHR ''-'' \<or> c = CHR ''+'' \<or> c = CHR ''.'' \<or> c = CHR ''e'' \<or> c = CHR ''E'' \<or>
     (byte c \<ge> 48 \<and> byte c \<le> 57)"

definition scale10 :: "nat \<Rightarrow> int \<Rightarrow> rat" where
  "scale10 m e = (if e \<ge> 0 then of_nat m * 10 ^ nat e else of_nat m / 10 ^ nat (- e))"

text \<open>The exponent part is read only when at least one digit follows it.\<close>

definition strtod_exponent :: "string \<Rightarrow> int \<times> string" where
  "strtod_exponent s =
     (if peek (CHR ''e'') s \<or> peek (CHR ''E'') s
      then let neg = peek (CHR ''-'') (tl s);
               s1 = (if neg \<or> peek (CHR ''+'') (tl s) then tl (tl s) else tl s);
               ds = takeWhile is_digit s1
           in if ds = [] then (0, s)
              else (if neg then - int (dec_value ds) else int (dec_value ds), dropWhile is_digit s1)
      else (0, s))"

definition strtod :: "string \<Rightarrow> rat \<times> string" where
  "strtod s =
     (let neg = peek (CHR ''-'') s;
          s1 = (if neg \<or> peek (CHR ''+'') s then tl s else s);
          ip = takeWhile is_digit s1;
          s2 = dropWhile is_digit s1;
          fp = (if peek (CHR ''.'') s2 then takeWhile is_digit (tl s2) else []);
          s3 = (if peek (CHR ''.'') s2 then dropWhile is_digit (tl s2) else s2)
      in if ip = [] \<and> fp = [] then (0, s)
         else case strtod_exponent s3 of
           (e, s4) \<Rightarrow>
             (let m = scale10 (dec_value (ip @ fp)) (e - int (length fp))
              in (if neg then - m else m, s4)))"

definition d_number :: "string \<Rightarrow> (dom \<times> string) option" where
  "d_number s =
     (let tmp = takeWhile number_char s
      in if tmp = [] then None
         else case strtod tmp of
           (x, rest) \<Rightarrow> if rest = [] then Some (DNum x, dropWhile number_char s) else None)"

section \<open>Values\<close>

text \<open>
  As for the validator, the guards \<open>length \<dots> < length s\<close> only make the recursion well-founded:
  \<open>d_members_eq\<close> and \<open>d_elements_eq\<close> show that they always hold.
\<close>

function d_value :: "nat \<Rightarrow> string \<Rightarrow> (dom \<times> string) option"
  and d_object :: "nat \<Rightarrow> string \<Rightarrow> (dom \<times> string) option"
  and d_members :: "nat \<Rightarrow> string list \<Rightarrow> dom list \<Rightarrow> string \<Rightarrow> (dom \<times> string) option"
  and d_array :: "nat \<Rightarrow> string \<Rightarrow> (dom \<times> string) option"
  and d_elements :: "nat \<Rightarrow> dom list \<Rightarrow> string \<Rightarrow> (dom \<times> string) option"
where
  "d_value depth s =
     (if depth > 128 \<or> s = [] then None
      else if hd s = CHR ''{'' then d_object (depth + 1) (tl s)
      else if hd s = CHR ''['' then d_array (depth + 1) (tl s)
      else if hd s = dquote then map_option (map_prod DStr id) (d_string [] (tl s))
      else if starts_with s ''true'' then Some (DBool True, drop 4 s)
      else if starts_with s ''false'' then Some (DBool False, drop 5 s)
      else if starts_with s ''null'' then Some (DNull, drop 4 s)
      else d_number s)"
| "d_object depth s =
     (let s1 = v_ws s
      in if peek (CHR ''}'') s1 then Some (DObj [] [], tl s1) else d_members depth [] [] s1)"
| "d_members depth ks vs s =
     (let s1 = v_ws s
      in if \<not> peek dquote s1 then None
         else case d_string [] (tl s1) of
             None \<Rightarrow> None
           | Some (key, s2) \<Rightarrow>
               (let s3 = v_ws s2
                in if \<not> (peek (CHR '':'') s3 \<and> length s3 < length s) then None
                   else case d_value depth (v_ws (tl s3)) of
                       None \<Rightarrow> None
                     | Some (v, s5) \<Rightarrow>
                         (let s6 = v_ws s5
                          in if peek (CHR '','') s6
                             then (if length s6 < length s
                                   then d_members depth (ks @ [key]) (vs @ [v]) (tl s6) else None)
                             else if peek (CHR ''}'') s6
                             then Some (DObj (ks @ [key]) (vs @ [v]), tl s6) else None)))"
| "d_array depth s =
     (let s1 = v_ws s
      in if peek (CHR '']'') s1 then Some (DArr [], tl s1) else d_elements depth [] s1)"
| "d_elements depth vs s =
     (case d_value depth (v_ws s) of
        None \<Rightarrow> None
      | Some (v, s5) \<Rightarrow>
          (let s6 = v_ws s5
           in if peek (CHR '','') s6
              then (if length s6 < length s then d_elements depth (vs @ [v]) (tl s6) else None)
              else if peek (CHR '']'') s6 then Some (DArr (vs @ [v]), tl s6) else None))"
  by pat_completeness auto
termination
  by (relation "measure (\<lambda>x. case x of
        Inl (Inl (d, s)) \<Rightarrow> 3 * length s | Inl (Inr (d, s)) \<Rightarrow> 3 * length s + 2
      | Inr (Inl (d, ks, vs, s)) \<Rightarrow> 3 * length s + 1
      | Inr (Inr (Inl (d, s))) \<Rightarrow> 3 * length s + 2 | Inr (Inr (Inr (d, vs, s))) \<Rightarrow> 3 * length s + 1)")
    (auto simp: v_ws_measure peek_def)

declare d_value.simps [simp del] d_object.simps [simp del] d_members.simps [simp del]
  d_array.simps [simp del] d_elements.simps [simp del]

definition dom_parse :: "string \<Rightarrow> dom option" where
  "dom_parse text =
     (case d_value 0 (v_ws text) of
        None \<Rightarrow> None
      | Some (v, rest) \<Rightarrow> if v_ws rest = [] then Some v else None)"

section \<open>Quoting\<close>

fun quote_body :: "string \<Rightarrow> string" where
  "quote_body [] = []"
| "quote_body (c # cs) =
     (if c = dquote then [backslash, dquote]
      else if c = backslash then [backslash, backslash]
      else if c = CHR 0x0A then [backslash, CHR ''n'']
      else if c = CHR 0x0D then [backslash, CHR ''r'']
      else if c = CHR 0x09 then [backslash, CHR ''t'']
      else if byte c < 0x20
      then backslash # ''u00'' @ [hex_digit (drop_bit 4 (byte c)), hex_digit (byte c AND 0xF)]
      else [c]) @ quote_body cs"

definition quote :: "string \<Rightarrow> string" where
  "quote s = dquote # quote_body s @ [dquote]"


section \<open>Consumption\<close>

lemma d_string_shorter: "d_string out s = Some (x, r) \<Longrightarrow> length r < length s"
proof (induction s arbitrary: out rule: length_induct)
  case (1 s)
  obtain c cs where s: "s = c # cs" using "1.prems" by (cases s) (simp_all add: d_string.simps)
  have IH: "length r < length s" if "d_string o' u = Some (x, r)" "length u < length s" for o' u
    using "1.IH" that by fastforce
  have "c = dquote \<and> r = cs \<or> (\<exists>o' u. d_string o' u = Some (x, r) \<and> length u < length s)"
    using "1.prems" s
    by (subst (asm) d_string.simps)
      (fastforce split: list.splits option.splits if_splits dest: d_unicode_shorter)
  then show ?case using IH s by auto
qed

lemma d_number_shorter: "d_number s = Some (x, r) \<Longrightarrow> length r < length s"
proof -
  assume a: "d_number s = Some (x, r)"
  then have "takeWhile number_char s \<noteq> []" "r = dropWhile number_char s"
    by (auto simp: d_number_def Let_def split: if_splits prod.splits)
  moreover have "length (takeWhile number_char s) + length (dropWhile number_char s) = length s"
    by (simp flip: length_append)
  ultimately show ?thesis by (cases "takeWhile number_char s") auto
qed

lemma d_members_Some:
  assumes "d_members d ks vs s = Some r"
  obtains key s2 v s5 where "peek dquote (v_ws s)" "d_string [] (tl (v_ws s)) = Some (key, s2)"
    "peek (CHR '':'') (v_ws s2)" "d_value d (v_ws (tl (v_ws s2))) = Some (v, s5)"
    "(peek (CHR '','') (v_ws s5) \<and> d_members d (ks @ [key]) (vs @ [v]) (tl (v_ws s5)) = Some r) \<or>
     (peek (CHR ''}'') (v_ws s5) \<and> r = (DObj (ks @ [key]) (vs @ [v]), tl (v_ws s5)))"
  using assms that
  by (subst (asm) d_members.simps) (auto simp: Let_def split: if_splits option.splits)

lemma d_elements_Some:
  assumes "d_elements d vs s = Some r"
  obtains v s5 where "d_value d (v_ws s) = Some (v, s5)"
    "(peek (CHR '','') (v_ws s5) \<and> d_elements d (vs @ [v]) (tl (v_ws s5)) = Some r) \<or>
     (peek (CHR '']'') (v_ws s5) \<and> r = (DArr (vs @ [v]), tl (v_ws s5)))"
  using assms that
  by (subst (asm) d_elements.simps) (auto simp: Let_def split: if_splits option.splits)

lemma d_Nil: "d_members d ks vs [] = None" "d_elements d vs [] = None"
  by (simp_all add: d_members.simps d_elements.simps d_value.simps v_ws_def peek_def)

lemma d_accept_shorter:
  "length s \<le> n \<Longrightarrow>
     (d_value d s = Some (x, r) \<longrightarrow> length r < length s) \<and>
     (d_object d s = Some (x, r) \<longrightarrow> length r < length s) \<and>
     (d_members d ks vs s = Some (x, r) \<longrightarrow> length r < length s) \<and>
     (d_array d s = Some (x, r) \<longrightarrow> length r < length s) \<and>
     (d_elements d vs s = Some (x, r) \<longrightarrow> length r < length s)"
proof (induction n arbitrary: d s x r ks vs)
  case 0
  then show ?case
    by (simp add: d_Nil d_value.simps d_object.simps d_array.simps v_ws_def peek_def)
next
  case (Suc n)
  have val: "length r < length s" if "d_value d s = Some (x, r)" "length s \<le> Suc n" for d x r s
  proof (cases s)
    case (Cons c cs)
    then have "length r < length cs" if "d_object (Suc d) cs = Some (x, r) \<or> d_array (Suc d) cs = Some (x, r)"
      using Suc.IH [of cs "Suc d" x r] \<open>length s \<le> Suc n\<close> that by auto
    moreover have "d_object (Suc d) cs = Some (x, r) \<or> d_array (Suc d) cs = Some (x, r) \<or>
        (\<exists>y. d_string [] cs = Some (y, r)) \<or> (\<exists>k. r = drop (Suc k) s) \<or> d_number s = Some (x, r)"
      using that(1) Cons by (subst (asm) d_value.simps) (auto split: if_splits intro: exI [of _ 3] exI [of _ 4])
    ultimately show ?thesis
      using Cons by (auto dest: d_string_shorter d_number_shorter)
  qed (use that in \<open>simp add: d_value.simps\<close>)
  have mem: "length r < length s" if "d_members d ks vs s = Some (x, r)" "length s \<le> Suc n" for d ks vs x r s
    using that(1)
  proof (cases rule: d_members_Some)
    case (1 key s2 v s5)
    have "length s2 < length s"
      using d_string_shorter [OF 1(2)] v_ws_le [of s] by (cases "v_ws s") auto
    then have "length (v_ws (tl (v_ws s2))) < length s"
      using v_ws_le [of "tl (v_ws s2)"] v_ws_le [of s2] by (cases "v_ws s2") auto
    then have "length s5 < length s" using val [OF 1(4)] that(2) by linarith
    then have "length (tl (v_ws s5)) < length s" using v_ws_le [of s5] by auto
    then show ?thesis using 1(5) Suc.IH [of "tl (v_ws s5)" d x r] that(2) by fastforce
  qed
  have elt: "length r < length s" if "d_elements d vs s = Some (x, r)" "length s \<le> Suc n" for d vs x r s
    using that(1)
  proof (cases rule: d_elements_Some)
    case (1 v s5)
    have "length s5 < length s" using val [OF 1(1)] v_ws_le [of s] that(2) by linarith
    then have "length (tl (v_ws s5)) < length s" using v_ws_le [of s5] by auto
    then show ?thesis using 1(2) Suc.IH [of "tl (v_ws s5)" d x r] that(2) by fastforce
  qed
  have "length r < length s" if "d_object d s = Some (x, r) \<or> d_array d s = Some (x, r)"
    using that mem [of d "[]" "[]" "v_ws s" x r] elt [of d "[]" "v_ws s" x r] v_ws_le [of s] Suc.prems
    by (cases "v_ws s") (auto simp: d_object.simps d_array.simps Let_def peek_def split: if_splits)
  then show ?case using val mem elt Suc.prems by blast
qed

lemmas d_value_shorter = d_accept_shorter [OF order_refl, THEN conjunct1, rule_format]

text \<open>The equations of the source, without the termination guards.\<close>

lemma d_members_eq:
  "d_members depth ks vs s =
     (if \<not> peek dquote (v_ws s) then None
      else case d_string [] (tl (v_ws s)) of
          None \<Rightarrow> None
        | Some (key, s2) \<Rightarrow>
            if \<not> peek (CHR '':'') (v_ws s2) then None
            else case d_value depth (v_ws (tl (v_ws s2))) of
                None \<Rightarrow> None
              | Some (v, s5) \<Rightarrow>
                  if peek (CHR '','') (v_ws s5) then d_members depth (ks @ [key]) (vs @ [v]) (tl (v_ws s5))
                  else if peek (CHR ''}'') (v_ws s5) then Some (DObj (ks @ [key]) (vs @ [v]), tl (v_ws s5))
                  else None)"
proof -
  have "length (v_ws s2) < length s" if "d_string [] (tl (v_ws s)) = Some (key, s2)" for key s2
    using d_string_shorter [OF that] v_ws_le [of s2] v_ws_le [of s] by simp
  moreover have "length (v_ws s5) < length (v_ws s2)"
    if "d_value depth (v_ws (tl (v_ws s2))) = Some (v, s5)" for s2 v s5
    using d_value_shorter [OF that] v_ws_le [of s5] v_ws_le [of "tl (v_ws s2)"] by simp
  ultimately show ?thesis
    by (subst d_members.simps) (fastforce simp: Let_def split: option.splits)
qed

lemma d_elements_eq:
  "d_elements depth vs s =
     (case d_value depth (v_ws s) of
        None \<Rightarrow> None
      | Some (v, s5) \<Rightarrow>
          if peek (CHR '','') (v_ws s5) then d_elements depth (vs @ [v]) (tl (v_ws s5))
          else if peek (CHR '']'') (v_ws s5) then Some (DArr (vs @ [v]), tl (v_ws s5)) else None)"
proof -
  have "length (v_ws s5) < length s" if "d_value depth (v_ws s) = Some (v, s5)" for v s5
    using d_value_shorter [OF that] v_ws_le [of s5] v_ws_le [of s] by simp
  then show ?thesis by (subst d_elements.simps) (auto simp: Let_def split: option.splits)
qed

section \<open>Strings read back\<close>

lemma d_string_simps:
  "d_string out (dquote # r) = Some (out, r)"
  "c \<noteq> dquote \<Longrightarrow> c \<noteq> backslash \<Longrightarrow> \<not> byte c < 0x20 \<Longrightarrow> d_string out (c # r) = d_string (out @ [c]) r"
  "simple_escape e = Some x \<Longrightarrow> d_string out (backslash # e # r) = d_string (out @ [x]) r"
  "d_unicode es = Some (u, r) \<Longrightarrow> d_string out (backslash # CHR ''u'' # es) = d_string (out @ u) r"
  by (subst d_string.simps, simp add: simple_escape_def)+

text \<open>The byte \<open>n\<close> below 0x20 written as \<open>\\u00\<close> and two hexadecimal digits.\<close>

lemma d_unicode_control:
  assumes "n < 0x20"
  shows "d_unicode (CHR ''0'' # CHR ''0'' # hex_digit (drop_bit 4 n) # hex_digit (n AND 0xF) # r) =
    Some ([char_of n], r)"
proof -
  have "list_all (\<lambda>n. case hex_val (hex_digit (drop_bit 4 n)) of None \<Rightarrow> False | Some a \<Rightarrow>
      (case hex_val (hex_digit (n AND 0xF)) of None \<Rightarrow> False | Some b \<Rightarrow>
        push_bit 4 (push_bit 4 (push_bit 4 (push_bit 4 (0::nat) OR 0) OR 0) OR a) OR b = n)) [0..<0x20]"
    by code_simp
  moreover have "n \<in> set [0..<0x20]" using assms by simp
  ultimately obtain a b where "hex_val (hex_digit (drop_bit 4 n)) = Some a"
    "hex_val (hex_digit (n AND 0xF)) = Some b"
    "push_bit 4 (push_bit 4 (push_bit 4 (push_bit 4 (0::nat) OR 0) OR 0) OR a) OR b = n"
    unfolding list_all_iff by (fastforce split: option.splits)
  moreover have "hex_val (CHR ''0'') = Some 0" by (simp add: hex_val_def)
  ultimately have "hex4 (CHR ''0'' # CHR ''0'' # hex_digit (drop_bit 4 n) # hex_digit (n AND 0xF) # r) = Some (n, r)"
    by (simp add: hex4_def numeral_eq_Suc)
  then show ?thesis using assms by (simp add: d_unicode_def put_utf8_def)
qed

lemma quote_step: "d_string out (quote_body [c] @ r) = d_string (out @ [c]) r"
proof -
  consider "c \<in> set [dquote, backslash, CHR 0x0A, CHR 0x0D, CHR 0x09]"
    | "c \<notin> set [dquote, backslash, CHR 0x0A, CHR 0x0D, CHR 0x09]" "byte c < 0x20"
    | "c \<notin> set [dquote, backslash, CHR 0x0A, CHR 0x0D, CHR 0x09]" "\<not> byte c < 0x20"
    by blast
  then show ?thesis
  proof cases
    case 1
    then show ?thesis by (auto simp: d_string_simps(3) [where x = c] simple_escape_def)
  next
    case 2
    then show ?thesis using d_string_simps(4) [OF d_unicode_control [OF 2(2), of r]] by simp
  next
    case 3
    then show ?thesis by (simp add: d_string_simps(2))
  qed
qed

lemma d_string_quote: "d_string out (quote_body s @ dquote # r) = Some (out @ s, r)"
proof (induction s arbitrary: out)
  case (Cons c s)
  have "d_string out (quote_body (c # s) @ dquote # r) =
      d_string out (quote_body [c] @ quote_body s @ dquote # r)" by simp
  then show ?case using Cons [of "out @ [c]"] by (simp only: quote_step) simp
qed (simp add: d_string_simps)

end
