(* ===== verification/Events.thy ===== *)
theory Events
  imports Json_Validity
begin

text \<open>
  Events and their JSON form (\<open>src/src/core/events.hpp\<close>, \<open>events.cpp\<close>).  The clock is not
  modelled: an event carries its timestamp.
\<close>

datatype event_kind = EK_lifecycle | EK_diagnostic | EK_log | EK_trace
datatype severity = Sev_debug | Sev_info | Sev_warning | Sev_error

record event =
  ev_kind :: event_kind
  ev_severity :: severity
  ev_session_id :: nat
  ev_pid :: int
  ev_timestamp_ns :: nat
  ev_code :: int
  ev_name :: string
  ev_message :: string
  ev_detail_json :: string

fun event_kind_name :: "event_kind \<Rightarrow> string" where
  "event_kind_name EK_lifecycle = ''lifecycle''"
| "event_kind_name EK_diagnostic = ''diagnostic''"
| "event_kind_name EK_log = ''log''"
| "event_kind_name EK_trace = ''trace''"

fun severity_name :: "severity \<Rightarrow> string" where
  "severity_name Sev_debug = ''debug''"
| "severity_name Sev_info = ''info''"
| "severity_name Sev_warning = ''warning''"
| "severity_name Sev_error = ''error''"

definition event_to_json :: "event \<Rightarrow> string" where
  "event_to_json ev =
     (let w = begin_object new_writer;
          w = value_string (event_kind_name (ev_kind ev)) (write_key ''type'' w);
          w = value_string (severity_name (ev_severity ev)) (write_key ''severity'' w);
          w = value_string (ev_name ev) (write_key ''name'' w);
          w = value_uint64 (ev_timestamp_ns ev) (write_key ''ts_ns'' w);
          w = value_uint64 (ev_session_id ev) (write_key ''session'' w);
          w = value_int64 (ev_pid ev) (write_key ''pid'' w);
          w = value_int64 (ev_code ev) (write_key ''code'' w);
          w = value_string (ev_message ev) (write_key ''message'' w);
          w = (if json_validate (ev_detail_json ev)
               then write_raw (ev_detail_json ev) (write_key ''detail'' w)
               else end_object (begin_object (write_key ''detail'' w)));
          w = end_object w
      in jw_out w)"

section \<open>The document of an event\<close>

definition event_tree :: "event \<Rightarrow> jtree" where
  "event_tree ev = JObj
     [(''type'', JStr (event_kind_name (ev_kind ev))), (''severity'', JStr (severity_name (ev_severity ev))),
      (''name'', JStr (ev_name ev)), (''ts_ns'', JNat (ev_timestamp_ns ev)),
      (''session'', JNat (ev_session_id ev)), (''pid'', JInt (ev_pid ev)), (''code'', JInt (ev_code ev)),
      (''message'', JStr (ev_message ev)),
      (''detail'', if json_validate (ev_detail_json ev) then JRaw (ev_detail_json ev) else JObj [])]"

lemma event_to_json_tree: "event_to_json ev = jw_out (emit (event_tree ev) new_writer)"
  by (simp add: event_to_json_def event_tree_def Let_def)

lemma event_tree_fits:
  "\<not> json_validate (ev_detail_json ev) \<or> fits 1 (JRaw (ev_detail_json ev)) \<Longrightarrow> fits 0 (event_tree ev)"
  by (auto simp: event_tree_def)

text \<open>The detail is validated at nesting level 0 but stands at level 1 of the event.\<close>

fun nested :: "nat \<Rightarrow> string \<Rightarrow> string" where
  "nested 0 r = r"
| "nested (Suc n) r = CHR ''['' # nested n (CHR '']'' # r)"

lemma nested_hd: "v_ws (nested (Suc n) r) = nested (Suc n) r"
  by (simp add: v_ws_Cons)

lemma v_value_nested: "v_value d (nested (Suc n) r) = (if d + n \<le> 256 then Some r else None)"
proof (induction n arbitrary: d r)
  case 0
  then show ?case by (simp add: v_value.simps v_array.simps v_ws_Cons)
next
  case (Suc n)
  have "v_elements (Suc d) (nested (Suc n) (CHR '']'' # r)) = (if d + Suc n \<le> 256 then Some r else None)"
    using Suc [of "Suc d" "CHR '']'' # r"] nested_hd [of n "CHR '']'' # r"]
    by (subst v_elements_eq) (simp add: v_ws_Cons)
  then show ?case by (auto simp: v_value.simps v_array.simps v_ws_Cons)
qed

lemma nested_append: "nested n r @ s = nested n (r @ s)"
  by (induction n arbitrary: r) simp_all

lemma v_members_reject:
  assumes "\<And>m. m \<in> set ms \<Longrightarrow> fits d (snd m)" and "v_value d (v_ws (j @ CHR ''}'' # r)) = None"
  shows "v_members d (jtext_members True (ms @ [(k, JRaw j)]) @ CHR ''}'' # r) = None"
  using assms
proof (induction ms)
  case Nil
  then show ?case
    by (subst v_members_eq) (simp add: json_quote_Cons v_ws_Cons v_string_escape)
next
  case (Cons m ms)
  obtain l t where m: "m = (l, t)" by (cases m)
  let ?rest = "jtext_members False (ms @ [(k, JRaw j)]) @ CHR ''}'' # r"
  have rest: "?rest = CHR '','' # jtext_members True (ms @ [(k, JRaw j)]) @ CHR ''}'' # r"
    by (cases ms) (simp_all add: jtext_rest)
  have "reads d (jtext t) ?rest" using Cons.prems(1) [of m] m by (intro reads_jtext) (simp_all add: rest)
  then obtain u where "v_value d (v_ws (jtext t @ ?rest)) = Some (u @ ?rest)" "v_ws (u @ ?rest) = ?rest"
    unfolding reads_def by (auto simp: v_ws_skip rest v_ws_Cons)
  then show ?case
    using Cons unfolding rest
    by (subst v_members_eq) (simp add: m rest json_quote_Cons v_ws_Cons v_string_escape)
qed

section \<open>Properties\<close>

text \<open>
  The JSON line of an event is accepted by the validator, whatever bytes its name and message
  hold and whether its detail is valid JSON (embedded as is) or not (replaced by an empty object),
  as long as a valid detail leaves room for the one level of nesting the event adds.\<close>

theorem event_to_json_valid:
  assumes "json_validate (ev_detail_json ev) \<Longrightarrow> fits 1 (JRaw (ev_detail_json ev))"
  shows "json_validate (event_to_json ev)"
  unfolding event_to_json_tree jw_out_emit_new
  using assms by (intro json_validate_reads reads_jtext event_tree_fits) auto

definition sample_event :: event where
  "sample_event = \<lparr>ev_kind = EK_log, ev_severity = Sev_info, ev_session_id = 7, ev_pid = - 1,
     ev_timestamp_ns = 12, ev_code = 0, ev_name = ''n'' @ [CHR 0xC3], ev_message = [dquote, CHR 0x01],
     ev_detail_json = ''{}''\<rparr>"

theorem event_to_json_valid_witness: "json_validate (event_to_json sample_event)"
proof (rule event_to_json_valid)
  show "fits 1 (JRaw (ev_detail_json sample_event))"
    by (simp add: sample_event_def v_value.simps v_object.simps v_ws_Cons v_ws_def)
qed

text \<open>
  The room is needed: a detail nested to the validator's limit is accepted on its own and makes
  the whole event a document the validator rejects.\<close>

theorem event_detail_depth_limit:
  "json_validate (nested 257 []) \<and>
   \<not> json_validate (event_to_json (sample_event\<lparr>ev_detail_json := nested 257 []\<rparr>))"
proof -
  let ?ev = "sample_event\<lparr>ev_detail_json := nested 257 []\<rparr>"
  have n: "nested 257 r = nested (Suc 256) r" for r by simp
  have ok: "json_validate (nested 257 [])"
    unfolding json_validate_def n nested_hd v_value_nested by (simp add: v_ws_def)
  obtain ms where ms: "event_tree ?ev = JObj (ms @ [(''detail'', JRaw (nested 257 []))])"
      "\<And>m. m \<in> set ms \<Longrightarrow> fits 1 (snd m)" "ms \<noteq> []"
    using ok by (rule_tac that [of "butlast (case event_tree ?ev of JObj l \<Rightarrow> l)"])
      (simp_all only: event_tree_def, auto)
  have "v_value 1 (v_ws (nested 257 [] @ CHR ''}'' # [])) = None"
    unfolding nested_append n nested_hd v_value_nested by simp
  then have "v_members 1 (jtext_members True (ms @ [(''detail'', JRaw (nested 257 []))]) @ ''}'') = None"
    using v_members_reject [of ms 1] ms(2) by simp
  then have "v_value 0 (jtext (event_tree ?ev)) = None"
    using ms(3) by (cases ms) (auto simp: ms(1) v_value.simps v_object.simps json_quote_Cons v_ws_Cons)
  moreover have "v_ws (jtext (event_tree ?ev)) = jtext (event_tree ?ev)" by (simp add: ms(1) v_ws_Cons)
  ultimately show ?thesis
    using ok by (simp add: event_to_json_tree jw_out_emit_new json_validate_def)
qed

end
