(* ===== verification/Json_Roundtrip.thy ===== *)
theory Json_Roundtrip
  imports Json_Dom Events
begin

text \<open>
  The command line tool reads what the library writes: quoting followed by parsing is the identity,
  and a document emitted through the library's writer parses to the document that was meant, with
  malformed UTF-8 bytes replaced.
\<close>

section \<open>Malformed bytes\<close>

function scrub :: "string \<Rightarrow> string" where
  "scrub s =
     (case s of
        [] \<Rightarrow> []
      | c # cs \<Rightarrow>
          if utf8_seq_len s = 0 then put_utf8 0xFFFD @ scrub cs
          else take (utf8_seq_len s) s @ scrub (drop (utf8_seq_len s) s))"
  by pat_completeness auto
termination
  by (relation "measure length") auto

declare scrub.simps [simp del]

lemma scrub_Nil [simp]: "scrub [] = []"
  by (simp add: scrub.simps)

text \<open>A string is well-formed UTF-8 when it splits into sequences the library accepts.\<close>

inductive utf8 :: "string \<Rightarrow> bool" where
  "utf8 []"
| "s \<noteq> [] \<Longrightarrow> utf8_seq_len s \<noteq> 0 \<Longrightarrow> utf8 (drop (utf8_seq_len s) s) \<Longrightarrow> utf8 s"

lemma scrub_utf8: "utf8 s \<Longrightarrow> scrub s = s"
proof (induction rule: utf8.induct)
  case (2 s)
  then show ?case by (cases s) (simp, subst scrub.simps, simp)
qed simp

lemma utf8_seq_len_ascii: "byte c < 0x80 \<Longrightarrow> utf8_seq_len (c # cs) = 1"
  by (simp add: utf8_seq_len_def)

lemma scrub_ascii: "byte c < 0x80 \<Longrightarrow> scrub (c # cs) = c # scrub cs"
  by (subst scrub.simps) (simp add: utf8_seq_len_ascii)

lemma utf8_ascii: "\<forall>c \<in> set s. byte c < 0x80 \<Longrightarrow> utf8 s"
proof (induction s)
  case (Cons c s)
  then show ?case using utf8.intros(2) [of "c # s"] by (simp add: utf8_seq_len_ascii)
qed (rule utf8.intros)

lemma continuation_high: "(n::nat) AND 0xC0 = 0x80 \<Longrightarrow> n \<ge> 0x80"
proof (rule ccontr)
  assume a: "n AND 0xC0 = 0x80" "\<not> n \<ge> 0x80"
  have "list_all (\<lambda>n::nat. n AND 0xC0 \<noteq> 0x80) [0..<0x80]" by code_simp
  then have "n AND 0xC0 \<noteq> 0x80" using a(2) unfolding list_all_iff by auto
  then show False using a(1) by simp
qed

lemma utf8_tail_high: "utf8_tail cs cp = Some v \<Longrightarrow> c \<in> set cs \<Longrightarrow> byte c \<ge> 0x80"
  by (induction cs arbitrary: cp) (auto split: if_splits intro: continuation_high)

lemma utf8_seq_high:
  assumes "0 < utf8_seq_len (c # cs)" and "\<not> byte c < 0x80" and "x \<in> set (take (utf8_seq_len (c # cs)) (c # cs))"
  shows "byte x \<ge> 0x80"
proof -
  obtain n cp v where n: "utf8_seq_len (c # cs) = n" "utf8_tail (take (n - 1) cs) cp = Some v"
    using assms(1,2) by (auto simp: utf8_seq_len_def Let_def split: option.splits if_splits)
  then have "x = c \<or> x \<in> set (take (n - 1) cs)" using assms(1,3) by (cases n) auto
  then show ?thesis using n(2) utf8_tail_high assms(2) by (metis not_le)
qed

lemma d_string_copy:
  "\<forall>x \<in> set u. byte x \<ge> 0x80 \<Longrightarrow> d_string out (u @ r) = d_string (out @ u) r"
proof (induction u arbitrary: out)
  case (Cons x u)
  then have "x \<noteq> dquote" "x \<noteq> backslash" "\<not> byte x < 0x20" by auto
  then show ?case using Cons by (simp add: d_string_simps(2))
qed simp

lemma hex4_unfold: "hex4 s = hex_loop (Suc (Suc (Suc (Suc 0)))) 0 s"
  by (simp add: hex4_def numeral_eq_Suc)

lemma d_unicode_fffd: "d_unicode (''fffd'' @ r) = Some (put_utf8 0xFFFD, r)"
proof -
  have "hex4 (''fffd'' @ r) = Some (0xFFFD, r)"
    unfolding hex4_unfold by (simp add: hex_val_def)
  then show ?thesis by (simp add: d_unicode_def)
qed

lemma and_15_id: "(x::nat) < 16 \<Longrightarrow> x AND 15 = x"
  using take_bit_nat_eq_self [of x 4] by (simp add: take_bit_eq_mask mask_eq_exp_minus_1)

lemma d_string_escape: "d_string out (json_escape_body s @ dquote # r) = Some (out @ scrub s, r)"
proof (induction s arbitrary: out rule: length_induct)
  case (1 s)
  show ?case
  proof (cases s)
    case Nil
    then show ?thesis by (simp add: json_escape_body.simps d_string_simps)
  next
    case (Cons c cs)
    have IH: "d_string out (json_escape_body u @ dquote # r) = Some (out @ scrub u, r)"
      if "length u < length s" for u out
      using "1.IH" that by blast
    let ?S = "[dquote, backslash, CHR 0x0A, CHR 0x0D, CHR 0x09, CHR 0x08, CHR 0x0C]"
    consider (simple) "c \<in> set ?S" | (control) "c \<notin> set ?S" "byte c < 0x20"
      | (bad) "c \<notin> set ?S" "\<not> byte c < 0x20" "utf8_seq_len s = 0"
      | (copy) "c \<notin> set ?S" "\<not> byte c < 0x20" "0 < utf8_seq_len s"
      by blast
    then show ?thesis
    proof cases
      case simple
      then have "byte c < 0x80" by auto
      moreover from simple have "\<exists>e. json_escape_body s = backslash # e # json_escape_body cs \<and> simple_escape e = Some c"
        using Cons by (subst json_escape_body.simps) (auto simp: simple_escape_def)
      ultimately show ?thesis
        using IH [of cs "out @ [c]"] Cons by (auto simp: d_string_simps(3) scrub_ascii)
    next
      case control
      have "drop_bit 4 (byte c) AND 0xF = drop_bit 4 (byte c)"
        using control(2) by (intro and_15_id) (simp add: drop_bit_eq_div)
      then have "json_escape_body s = backslash # CHR ''u'' # CHR ''0'' # CHR ''0'' #
          hex_digit (drop_bit 4 (byte c)) # hex_digit (byte c AND 0xF) # json_escape_body cs"
        using Cons control by (subst json_escape_body.simps) simp
      then show ?thesis
        using IH [of cs "out @ [c]"] Cons control(2) d_string_simps(4) [OF d_unicode_control [OF control(2)]]
        by (simp add: scrub_ascii)
    next
      case bad
      have "json_escape_body s = backslash # CHR ''u'' # ''fffd'' @ json_escape_body cs"
        using Cons bad by (subst json_escape_body.simps) simp
      moreover have "scrub s = put_utf8 0xFFFD @ scrub cs"
        using Cons bad by (subst scrub.simps) simp
      ultimately show ?thesis
        using IH [of cs "out @ put_utf8 0xFFFD"] Cons d_string_simps(4) [OF d_unicode_fffd] by simp
    next
      case copy
      let ?n = "utf8_seq_len s"
      have e: "json_escape_body s = take ?n s @ json_escape_body (drop ?n s)"
        using Cons copy by (subst json_escape_body.simps) (simp add: Let_def)
      have sc: "scrub s = take ?n s @ scrub (drop ?n s)" using Cons copy by (subst scrub.simps) simp
      have ih: "d_string (out @ take ?n s) (json_escape_body (drop ?n s) @ dquote # r) =
          Some ((out @ take ?n s) @ scrub (drop ?n s), r)"
        using IH Cons copy by simp
      have "d_string out (take ?n s @ u) = d_string (out @ take ?n s) u" for u
      proof (cases "byte c < 0x80")
        case True
        then show ?thesis using copy Cons by (simp add: utf8_seq_len_ascii d_string_simps(2))
      next
        case False
        then show ?thesis using utf8_seq_high copy(3) Cons by (intro d_string_copy) blast
      qed
      then show ?thesis using e sc ih by simp
    qed
  qed
qed


section \<open>Numbers\<close>

lemma number_char_digit: "is_digit c \<Longrightarrow> number_char c"
  by (simp add: is_digit_def number_char_def)

lemma number_char_delimiter: "delimiter r \<Longrightarrow> takeWhile number_char r = [] \<and> dropWhile number_char r = r"
  by (cases r) (auto simp: delimiter_def number_char_def is_ws_def)

lemma strtod_int: "strtod (int_string i) = (of_int i, [])"
proof -
  have d: "takeWhile is_digit (dec_string n) = dec_string n" "dropWhile is_digit (dec_string n) = []" for n
    using dec_string_digits [of n] by (simp_all add: list_all_iff takeWhile_eq_all_conv)
  have h: "\<not> peek (CHR ''-'') (dec_string n)" "\<not> peek (CHR ''+'') (dec_string n)" for n
    using dec_string_digits [of n] by (cases "dec_string n"; auto simp: is_digit_def)+
  show ?thesis
    using h [of "nat i"]
    by (simp add: strtod_def int_string_def Let_def d strtod_exponent_def scale10_def)
qed

lemma d_number_int:
  assumes "delimiter r"
  shows "d_number (int_string i @ r) = Some (DNum (of_int i), r)"
proof -
  have n: "\<forall>c \<in> set (int_string i). number_char c"
    using dec_string_digits [of "nat i"] dec_string_digits [of "nat (- i)"] number_char_digit
    by (auto simp: int_string_def list_all_iff number_char_def)
  have "takeWhile number_char (int_string i @ r) = int_string i" "dropWhile number_char (int_string i @ r) = r"
    using n number_char_delimiter [OF assms] by (simp_all add: takeWhile_append2 dropWhile_append2)
  moreover have "int_string i \<noteq> []" by (simp add: int_string_def)
  ultimately show ?thesis by (simp add: d_number_def Let_def strtod_int)
qed

section \<open>Documents\<close>

fun dom_of :: "jtree \<Rightarrow> dom" where
  "dom_of (JStr v) = DStr (scrub v)"
| "dom_of (JInt i) = DNum (of_int i)"
| "dom_of (JNat n) = DNum (of_nat n)"
| "dom_of (JBool b) = DBool b"
| "dom_of JNull = DNull"
| "dom_of (JRaw j) = DNull"
| "dom_of (JArr ts) = DArr (map dom_of ts)"
| "dom_of (JObj ms) = DObj (map (\<lambda>m. scrub (fst m)) ms) (map (\<lambda>m. dom_of (snd m)) ms)"

text \<open>Documents within the parser's nesting limit that hold no pre-formatted text.\<close>

fun dom_fits :: "nat \<Rightarrow> jtree \<Rightarrow> bool" where
  "dom_fits d (JArr ts) \<longleftrightarrow> d \<le> 128 \<and> (\<forall>t \<in> set ts. dom_fits (Suc d) t)"
| "dom_fits d (JObj ms) \<longleftrightarrow> d \<le> 128 \<and> (\<forall>m \<in> set ms. dom_fits (Suc d) (snd m))"
| "dom_fits d (JRaw j) \<longleftrightarrow> False"
| "dom_fits d _ \<longleftrightarrow> d \<le> 128"

lemma jtext_hd: "dom_fits d t \<Longrightarrow> \<exists>c cs. jtext t = c # cs \<and> \<not> is_ws c \<and> c \<noteq> CHR '']''"
proof (cases t)
  case (JInt i)
  obtain e cs where "e < 10" "dec_string (nat (if i < 0 then - i else i)) = digit_char e # cs"
    using dec_string_hd by blast
  then show ?thesis using JInt digit_char_facts [of e] by (cases "i < 0") (auto simp: int_string_def is_digit_def)
next
  case (JNat n)
  obtain e cs where "e < 10" "dec_string n = digit_char e # cs" using dec_string_hd by blast
  then show ?thesis using JNat digit_char_facts [of e] by (auto simp: is_digit_def)
qed (auto simp: json_quote_def json_escape_into_def)

definition parses :: "nat \<Rightarrow> jtree \<Rightarrow> string \<Rightarrow> bool" where
  "parses d t r \<longleftrightarrow> d_value d (jtext t @ r) = Some (dom_of t, r) \<and> v_ws (jtext t @ r) = jtext t @ r"

lemma parses_elements:
  assumes "\<And>t r. t \<in> set ts \<Longrightarrow> delimiter r \<Longrightarrow> parses d t r" and "ts \<noteq> []"
  shows "d_elements d vs (jtext_elements True ts @ CHR '']'' # r) = Some (DArr (vs @ map dom_of ts), r)"
  using assms
proof (induction ts arbitrary: vs)
  case (Cons t ts)
  let ?rest = "jtext_elements False ts @ CHR '']'' # r"
  have "delimiter ?rest" by (cases ts) (simp_all add: jtext_rest)
  then have p: "parses d t ?rest" using Cons.prems(1) by simp
  have w: "v_ws ?rest = ?rest" by (cases ts) (simp_all add: v_ws_Cons jtext_rest)
  have "d_elements d vs (jtext_elements True (t # ts) @ CHR '']'' # r) =
      (if peek (CHR '','') ?rest then d_elements d (vs @ [dom_of t]) (tl ?rest)
       else if peek (CHR '']'') ?rest then Some (DArr (vs @ [dom_of t]), tl ?rest) else None)"
    using p w by (subst d_elements_eq) (simp add: parses_def)
  also have "\<dots> = Some (DArr (vs @ map dom_of (t # ts)), r)"
    using Cons by (cases ts) (simp_all add: jtext_rest)
  finally show ?case .
qed simp

lemma parses_members:
  assumes "\<And>m r. m \<in> set ms \<Longrightarrow> delimiter r \<Longrightarrow> parses d (snd m) r" and "ms \<noteq> []"
  shows "d_members d ks vs (jtext_members True ms @ CHR ''}'' # r) =
    Some (DObj (ks @ map (\<lambda>m. scrub (fst m)) ms) (vs @ map (\<lambda>m. dom_of (snd m)) ms), r)"
  using assms
proof (induction ms arbitrary: ks vs)
  case (Cons m ms)
  obtain k t where m: "m = (k, t)" by (cases m)
  let ?rest = "jtext_members False ms @ CHR ''}'' # r"
  have "delimiter ?rest" by (cases ms) (simp_all add: jtext_rest)
  then have p: "parses d t ?rest" using Cons.prems(1) [of m ?rest] m by simp
  have w: "v_ws ?rest = ?rest" by (cases ms) (simp_all add: v_ws_Cons jtext_rest)
  have "d_members d ks vs (jtext_members True (m # ms) @ CHR ''}'' # r) =
      (if peek (CHR '','') ?rest then d_members d (ks @ [scrub k]) (vs @ [dom_of t]) (tl ?rest)
       else if peek (CHR ''}'') ?rest then Some (DObj (ks @ [scrub k]) (vs @ [dom_of t]), tl ?rest) else None)"
    using p w
    by (subst d_members_eq) (simp add: m json_quote_Cons v_ws_Cons d_string_escape parses_def)
  also have "\<dots> = Some (DObj (ks @ map (\<lambda>m. scrub (fst m)) (m # ms)) (vs @ map (\<lambda>m. dom_of (snd m)) (m # ms)), r)"
    using Cons m by (cases ms) (simp_all add: jtext_rest)
  finally show ?case .
qed simp


lemma parses_array:
  assumes "d \<le> 128" and "\<And>t r. t \<in> set ts \<Longrightarrow> delimiter r \<Longrightarrow> parses (Suc d) t r"
    and "\<And>t. t \<in> set ts \<Longrightarrow> dom_fits (Suc d) t"
  shows "parses d (JArr ts) r"
proof -
  let ?s = "jtext_elements True ts @ CHR '']'' # r"
  have "d_array (Suc d) ?s = Some (DArr (map dom_of ts), r)"
  proof (cases ts)
    case Nil
    then show ?thesis by (simp add: d_array.simps v_ws_Cons)
  next
    case (Cons t us)
    obtain c cs where "jtext t = c # cs" "\<not> is_ws c" "c \<noteq> CHR '']''"
      using jtext_hd assms(3) Cons by (metis list.set_intros(1))
    then show ?thesis
      using parses_elements [of ts "Suc d" "[]" r] assms(2) Cons by (simp add: d_array.simps v_ws_Cons)
  qed
  then show ?thesis using assms(1) by (simp add: parses_def d_value.simps v_ws_Cons)
qed

lemma parses_object:
  assumes "d \<le> 128" and "\<And>m r. m \<in> set ms \<Longrightarrow> delimiter r \<Longrightarrow> parses (Suc d) (snd m) r"
  shows "parses d (JObj ms) r"
proof -
  let ?s = "jtext_members True ms @ CHR ''}'' # r"
  have "d_object (Suc d) ?s = Some (dom_of (JObj ms), r)"
  proof (cases ms)
    case Nil
    then show ?thesis by (simp add: d_object.simps v_ws_Cons)
  next
    case (Cons m us)
    then show ?thesis
      using parses_members [of ms "Suc d" "[]" "[]" r] assms(2)
      by (cases m) (simp add: d_object.simps v_ws_Cons json_quote_Cons)
  qed
  then show ?thesis using assms(1) by (simp add: parses_def d_value.simps v_ws_Cons)
qed

lemma parses_int:
  assumes "d \<le> 128" and "delimiter r"
  shows "parses d (JInt i) r"
proof -
  obtain e cs where e: "e < 10" "dec_string (nat (if i < 0 then - i else i)) = digit_char e # cs"
    using dec_string_hd by blast
  note f = digit_char_facts [OF e(1)]
  have "\<exists>c x. int_string i @ r = c # x \<and> \<not> is_ws c \<and>
      c \<notin> set [CHR ''{'', CHR ''['', dquote, CHR ''t'', CHR ''f'', CHR ''n'']"
    using e f(3,4) by (cases "i < 0") (auto simp: int_string_def)
  then obtain c x where "int_string i @ r = c # x" "\<not> is_ws c"
    "c \<notin> set [CHR ''{'', CHR ''['', dquote, CHR ''t'', CHR ''f'', CHR ''n'']" by blast
  then show ?thesis
    using assms d_number_int [OF assms(2), of i]
    by (simp add: parses_def v_ws_Cons d_value.simps starts_with_def)
qed

lemma parses_nat: "d \<le> 128 \<Longrightarrow> delimiter r \<Longrightarrow> parses d (JNat n) r"
  using parses_int [of d r "int n"] by (simp add: parses_def int_string_def)

lemma parses_jtext: "dom_fits d t \<Longrightarrow> delimiter r \<Longrightarrow> parses d t r"
proof (induction d t arbitrary: r rule: dom_fits.induct)
  case (1 d ts)
  show ?case using parses_array [of d ts r] "1.prems" "1.IH" by auto
next
  case (2 d ms)
  show ?case using parses_object [of d ms r] "2.prems" "2.IH" by auto
next
  case "4_1"
  then show ?case by (simp add: parses_def d_value.simps json_quote_Cons v_ws_Cons d_string_escape)
next
  case "4_2"
  then show ?case using parses_int by simp
next
  case "4_3"
  then show ?case using parses_nat by simp
next
  case "4_4"
  then show ?case by (simp add: parses_def d_value.simps v_ws_Cons starts_with_def)
next
  case "4_5"
  then show ?case by (simp add: parses_def d_value.simps v_ws_Cons starts_with_def)
qed simp

section \<open>Properties\<close>

text \<open>
  \<open>quote\<close> followed by \<open>parse\<close> is the identity on every byte string.\<close>

theorem quote_parse: "dom_parse (quote s) = Some (DStr s)"
  using d_string_quote [of "[]" s "[]"]
  by (simp add: dom_parse_def quote_def v_ws_Cons d_value.simps) (simp add: v_ws_def)

text \<open>
  A document written through the library's writer parses, in the command line tool, to the
  document that was written: same structure, same numbers, and the same strings up to the replacement
  of malformed UTF-8 bytes by U+FFFD.\<close>

theorem writer_dom_roundtrip:
  assumes "dom_fits 0 t"
  shows "dom_parse (jw_out (emit t new_writer)) = Some (dom_of t)"
  using parses_jtext [OF assms, of "[]"]
  unfolding jw_out_emit_new by (simp add: dom_parse_def parses_def) (simp add: v_ws_def)

definition sample_tree :: jtree where
  "sample_tree = JObj [(''a'', JArr [JInt (- 12), JNat 0, JNull]), (''b'', JStr [dquote, CHR 0x01]),
     (''c'', JBool True), (''e'', JObj []), (''f'', JArr [])]"

theorem writer_dom_roundtrip_witness:
  "dom_parse (jw_out (emit sample_tree new_writer)) =
     Some (DObj [''a'', ''b'', ''c'', ''e'', ''f'']
       [DArr [DNum (- 12), DNum 0, DNull], DStr [dquote, CHR 0x01], DBool True, DObj [] [], DArr []])"
proof -
  have "dom_fits 0 sample_tree" by (simp add: sample_tree_def)
  moreover have "dom_of sample_tree =
      DObj [''a'', ''b'', ''c'', ''e'', ''f'']
       [DArr [DNum (- 12), DNum 0, DNull], DStr [dquote, CHR 0x01], DBool True, DObj [] [], DArr []]"
    by (simp add: sample_tree_def scrub_ascii)
  ultimately show ?thesis using writer_dom_roundtrip by simp
qed

text \<open>
  Well-formed UTF-8 survives the library's escaping and the tool's parsing unchanged.\<close>

theorem json_quote_parse:
  assumes "utf8 s"
  shows "dom_parse (json_quote s) = Some (DStr s)"
  using parses_jtext [of 0 "JStr s" "[]"] scrub_utf8 [OF assms]
  by (simp add: dom_parse_def parses_def) (simp add: v_ws_def)

theorem json_quote_parse_witness: "dom_parse (json_quote ''a/b'') = Some (DStr ''a/b'')"
  by (rule json_quote_parse) (rule utf8_ascii, simp)

end
