(* ===== verification/Status.thy ===== *)
theory Status
  imports Prelude
begin

text \<open>
  Status codes and results (\<open>src/src/common/status.hpp\<close>, \<open>status.cpp\<close>).  A \<open>Result<T>\<close> is a sum:
  \<open>Inl\<close> a status that is not ok, \<open>Inr\<close> the value.
\<close>

datatype code =
    Code_ok | Code_invalid_argument | Code_abi_mismatch | Code_no_memory | Code_invalid_state
  | Code_unsupported | Code_engine_unavailable | Code_rootfs_invalid | Code_bind_invalid
  | Code_exec_failed | Code_permission_denied | Code_timeout | Code_buffer_too_small | Code_io
  | Code_busy | Code_cancelled | Code_not_found | Code_host_environment | Code_internal

fun code_value :: "code \<Rightarrow> nat" where
  "code_value Code_ok = 0"
| "code_value Code_invalid_argument = 1"
| "code_value Code_abi_mismatch = 2"
| "code_value Code_no_memory = 3"
| "code_value Code_invalid_state = 4"
| "code_value Code_unsupported = 5"
| "code_value Code_engine_unavailable = 6"
| "code_value Code_rootfs_invalid = 7"
| "code_value Code_bind_invalid = 8"
| "code_value Code_exec_failed = 9"
| "code_value Code_permission_denied = 10"
| "code_value Code_timeout = 11"
| "code_value Code_buffer_too_small = 12"
| "code_value Code_io = 13"
| "code_value Code_busy = 14"
| "code_value Code_cancelled = 15"
| "code_value Code_not_found = 16"
| "code_value Code_host_environment = 17"
| "code_value Code_internal = 255"

fun code_name :: "code \<Rightarrow> string" where
  "code_name Code_ok = ''VHDP_OK''"
| "code_name Code_invalid_argument = ''VHDP_E_INVALID_ARGUMENT''"
| "code_name Code_abi_mismatch = ''VHDP_E_ABI_MISMATCH''"
| "code_name Code_no_memory = ''VHDP_E_NO_MEMORY''"
| "code_name Code_invalid_state = ''VHDP_E_INVALID_STATE''"
| "code_name Code_unsupported = ''VHDP_E_UNSUPPORTED''"
| "code_name Code_engine_unavailable = ''VHDP_E_ENGINE_UNAVAILABLE''"
| "code_name Code_rootfs_invalid = ''VHDP_E_ROOTFS_INVALID''"
| "code_name Code_bind_invalid = ''VHDP_E_BIND_INVALID''"
| "code_name Code_exec_failed = ''VHDP_E_EXEC_FAILED''"
| "code_name Code_permission_denied = ''VHDP_E_PERMISSION_DENIED''"
| "code_name Code_timeout = ''VHDP_E_TIMEOUT''"
| "code_name Code_buffer_too_small = ''VHDP_E_BUFFER_TOO_SMALL''"
| "code_name Code_io = ''VHDP_E_IO''"
| "code_name Code_busy = ''VHDP_E_BUSY''"
| "code_name Code_cancelled = ''VHDP_E_CANCELLED''"
| "code_name Code_not_found = ''VHDP_E_NOT_FOUND''"
| "code_name Code_host_environment = ''VHDP_E_HOST_ENVIRONMENT''"
| "code_name Code_internal = ''VHDP_E_INTERNAL''"

record status =
  st_code :: code
  st_message :: string

definition status_ok :: status where
  "status_ok = \<lparr>st_code = Code_ok, st_message = []\<rparr>"

definition is_ok :: "status \<Rightarrow> bool" where
  "is_ok s \<longleftrightarrow> st_code s = Code_ok"

abbreviation mk_status :: "code \<Rightarrow> string \<Rightarrow> status" where
  "mk_status c m \<equiv> \<lparr>st_code = c, st_message = m\<rparr>"

section \<open>Host errors\<close>

text \<open>The table of \<open>src/src/linux_abi/errno_table.c\<close>, with the Linux errno values.\<close>

definition k_errno_table :: "(errno \<times> string \<times> string) list" where
  "k_errno_table = [
     (1, ''EPERM'', ''Operation not permitted''),
     (2, ''ENOENT'', ''No such file or directory''),
     (3, ''ESRCH'', ''No such process''),
     (4, ''EINTR'', ''Interrupted system call''),
     (5, ''EIO'', ''Input/output error''),
     (6, ''ENXIO'', ''No such device or address''),
     (7, ''E2BIG'', ''Argument list too long''),
     (8, ''ENOEXEC'', ''Exec format error''),
     (9, ''EBADF'', ''Bad file descriptor''),
     (10, ''ECHILD'', ''No child processes''),
     (11, ''EAGAIN'', ''Resource temporarily unavailable''),
     (12, ''ENOMEM'', ''Cannot allocate memory''),
     (13, ''EACCES'', ''Permission denied''),
     (14, ''EFAULT'', ''Bad address''),
     (16, ''EBUSY'', ''Device or resource busy''),
     (17, ''EEXIST'', ''File exists''),
     (18, ''EXDEV'', ''Invalid cross-device link''),
     (19, ''ENODEV'', ''No such device''),
     (20, ''ENOTDIR'', ''Not a directory''),
     (21, ''EISDIR'', ''Is a directory''),
     (22, ''EINVAL'', ''Invalid argument''),
     (24, ''EMFILE'', ''Too many open files''),
     (28, ''ENOSPC'', ''No space left on device''),
     (29, ''ESPIPE'', ''Illegal seek''),
     (30, ''EROFS'', ''Read-only file system''),
     (31, ''EMLINK'', ''Too many links''),
     (32, ''EPIPE'', ''Broken pipe''),
     (34, ''ERANGE'', ''Numerical result out of range''),
     (36, ''ENAMETOOLONG'', ''File name too long''),
     (38, ''ENOSYS'', ''Function not implemented''),
     (39, ''ENOTEMPTY'', ''Directory not empty''),
     (40, ''ELOOP'', ''Too many levels of symbolic links''),
     (61, ''ENODATA'', ''No data available''),
     (75, ''EOVERFLOW'', ''Value too large for defined data type''),
     (88, ''ENOTSOCK'', ''Socket operation on non-socket''),
     (97, ''EAFNOSUPPORT'', ''Address family not supported by protocol''),
     (98, ''EADDRINUSE'', ''Address already in use''),
     (111, ''ECONNREFUSED'', ''Connection refused''),
     (95, ''EOPNOTSUPP'', ''Operation not supported''),
     (110, ''ETIMEDOUT'', ''Connection timed out''),
     (25, ''ENOTTY'', ''Inappropriate ioctl for device''),
     (26, ''ETXTBSY'', ''Text file busy''),
     (27, ''EFBIG'', ''File too large''),
     (33, ''EDOM'', ''Numerical argument out of domain''),
     (93, ''EPROTONOSUPPORT'', ''Protocol not supported''),
     (35, ''EDEADLK'', ''Resource deadlock avoided''),
     (15, ''ENOTBLK'', ''Block device required''),
     (37, ''ENOLCK'', ''No locks available''),
     (84, ''EILSEQ'', ''Invalid or incomplete multibyte or wide character''),
     (89, ''EDESTADDRREQ'', ''Destination address required''),
     (90, ''EMSGSIZE'', ''Message too long''),
     (91, ''EPROTOTYPE'', ''Protocol wrong type for socket''),
     (92, ''ENOPROTOOPT'', ''Protocol not available''),
     (99, ''EADDRNOTAVAIL'', ''Cannot assign requested address''),
     (100, ''ENETDOWN'', ''Network is down''),
     (101, ''ENETUNREACH'', ''Network is unreachable''),
     (104, ''ECONNRESET'', ''Connection reset by peer''),
     (105, ''ENOBUFS'', ''No buffer space available''),
     (106, ''EISCONN'', ''Transport endpoint is already connected''),
     (107, ''ENOTCONN'', ''Transport endpoint is not connected''),
     (113, ''EHOSTUNREACH'', ''No route to host''),
     (114, ''EALREADY'', ''Operation already in progress''),
     (115, ''EINPROGRESS'', ''Operation now in progress''),
     (116, ''ESTALE'', ''Stale file handle''),
     (122, ''EDQUOT'', ''Disk quota exceeded''),
     (125, ''ECANCELED'', ''Operation canceled''),
     (130, ''EOWNERDEAD'', ''Owner died''),
     (131, ''ENOTRECOVERABLE'', ''State not recoverable''),
     (126, ''ENOKEY'', ''Required key not available''),
     (123, ''ENOMEDIUM'', ''No medium found''),
     (80, ''ELIBBAD'', ''Accessing a corrupted shared library''),
     (67, ''ENOLINK'', ''Link has been severed''),
     (71, ''EPROTO'', ''Protocol error''),
     (74, ''EBADMSG'', ''Bad message''),
     (60, ''ENOSTR'', ''Device not a stream''),
     (62, ''ETIME'', ''Timer expired''),
     (63, ''ENOSR'', ''Out of streams resources''),
     (66, ''EREMOTE'', ''Object is remote''),
     (87, ''EUSERS'', ''Too many users''),
     (94, ''ESOCKTNOSUPPORT'', ''Socket type not supported''),
     (96, ''EPFNOSUPPORT'', ''Protocol family not supported''),
     (108, ''ESHUTDOWN'', ''Cannot send after transport endpoint shutdown''),
     (109, ''ETOOMANYREFS'', ''Too many references: cannot splice''),
     (112, ''EHOSTDOWN'', ''Host is down''),
     (44, ''ECHRNG'', ''Channel number out of range'')]"

fun find_entry :: "(errno \<times> string \<times> string) list \<Rightarrow> errno \<Rightarrow> (string \<times> string) option" where
  "find_entry [] err = None"
| "find_entry ((v, n, d) # es) err = (if v = err then Some (n, d) else find_entry es err)"

definition vhdp_errno_name :: "errno \<Rightarrow> string" where
  "vhdp_errno_name err = (case find_entry k_errno_table err of Some (n, d) \<Rightarrow> n | None \<Rightarrow> ''E?'')"

definition vhdp_errno_description :: "errno \<Rightarrow> string" where
  "vhdp_errno_description err =
     (case find_entry k_errno_table err of Some (n, d) \<Rightarrow> d | None \<Rightarrow> ''unknown error'')"

definition errno_status :: "code \<Rightarrow> string \<Rightarrow> errno \<Rightarrow> status" where
  "errno_status c what err =
     mk_status c (what @ '': '' @ vhdp_errno_name err @ '' ('' @ vhdp_errno_description err @ '')'')"

type_synonym 'a result = "status + 'a"

lemma is_ok_simps [simp]: "is_ok status_ok" "is_ok (mk_status c m) \<longleftrightarrow> c = Code_ok"
  by (simp_all add: is_ok_def status_ok_def)

end
