(* ===== verification/Config.thy ===== *)
theory Config
  imports Status Strings Guest_Path
begin

text \<open>
  Session configuration (\<open>src/src/core/config.hpp\<close>, \<open>config.cpp\<close>): the builder's record, its
  validation and the guest environment.  \<open>realpath\<close>, \<open>stat\<close>, \<open>fcntl\<close> and the host environment
  are what the host answers, collected in a record that the validation takes as an argument.
\<close>

section \<open>The configuration\<close>

datatype engine_kind = Eng_auto_select | Eng_rootless | Eng_rooted | Eng_emulator | Eng_vm
datatype network_policy = Net_host | Net_none
datatype stdio_mode = Stdio_inherit | Stdio_pty | Stdio_fds | Stdio_unknown nat
datatype seccomp_mode = Seccomp_auto_select | Seccomp_on | Seccomp_off
datatype dev_mode = Dev_minimal | Dev_none
datatype proc_mode = Proc_none | Proc_host

fun engine_name :: "engine_kind \<Rightarrow> string" where
  "engine_name Eng_auto_select = ''auto''"
| "engine_name Eng_rootless = ''rootless''"
| "engine_name Eng_rooted = ''rooted''"
| "engine_name Eng_emulator = ''emulator''"
| "engine_name Eng_vm = ''vm''"

record bind_spec =
  bs_host :: string
  bs_guest :: string
  bs_read_write :: bool

definition kMaxTimeoutMs :: nat where "kMaxTimeoutMs = 366 * 24 * 3600 * 1000"
definition kMaxArgs :: nat where "kMaxArgs = 4096"
definition kMaxEnv :: nat where "kMaxEnv = 4096"
definition kMaxBinds :: nat where "kMaxBinds = 256"
definition kMaxArgBytes :: nat where "kMaxArgBytes = 256 * 1024"

record session_config =
  sc_rootfs :: string
  sc_engine :: engine_kind
  sc_cwd :: string
  sc_argv :: "string list"
  sc_env :: "string list"
  sc_clear_env :: bool
  sc_binds :: "bind_spec list"
  sc_read_only_rootfs :: bool
  sc_network :: network_policy
  sc_uid :: "nat option"
  sc_gid :: "nat option"
  sc_timeout_ms :: nat
  sc_trace :: bool
  sc_stdio :: stdio_mode
  sc_stdio_fds :: "int list"
  sc_pty_rows :: nat
  sc_pty_cols :: nat
  sc_output_fn :: bool
  sc_seccomp :: seccomp_mode
  sc_dev :: dev_mode
  sc_proc :: proc_mode

definition default_config :: session_config where
  "default_config = \<lparr>sc_rootfs = [], sc_engine = Eng_auto_select, sc_cwd = ''/'', sc_argv = [], sc_env = [],
     sc_clear_env = False, sc_binds = [], sc_read_only_rootfs = False, sc_network = Net_host,
     sc_uid = None, sc_gid = None, sc_timeout_ms = 0, sc_trace = False, sc_stdio = Stdio_inherit,
     sc_stdio_fds = [- 1, - 1, - 1], sc_pty_rows = 24, sc_pty_cols = 80, sc_output_fn = False,
     sc_seccomp = Seccomp_auto_select, sc_dev = Dev_minimal, sc_proc = Proc_none\<rparr>"

definition kHostEnvAllowlist :: "string list" where
  "kHostEnvAllowlist = [''TERM'', ''COLORTERM'', ''LANG'', ''LC_ALL'', ''TZ'']"

record validated_config =
  vc_cfg :: session_config
  vc_final_env :: "string list"

text \<open>What the host answers: \<open>realpath\<close>, \<open>stat\<close> and \<open>S_ISDIR\<close>, \<open>fcntl(F_GETFD)\<close>, \<open>getenv\<close>.\<close>

record config_host =
  ch_realpath :: "string \<Rightarrow> errno + string"
  ch_is_dir :: "string \<Rightarrow> bool"
  ch_fd_open :: "int \<Rightarrow> bool"
  ch_env :: "(string \<Rightarrow> string option) option"

section \<open>Operations\<close>

definition valid_env_entry :: "string \<Rightarrow> bool" where
  "valid_env_entry kv \<longleftrightarrow>
     (case find_char (CHR ''='') kv of None \<Rightarrow> False | Some eq \<Rightarrow> eq > 0 \<and> \<not> contains_nul kv)"

definition check_guest_path :: "string \<Rightarrow> string \<Rightarrow> status" where
  "check_guest_path p what =
     (if p = [] \<or> contains_nul p
      then mk_status Code_invalid_argument (what @ '' must be a non-empty path without NUL bytes'')
      else if \<not> is_absolute p
      then mk_status Code_invalid_argument (what @ '' must be an absolute guest path: '' @ p)
      else if length p \<ge> kPathMax
      then mk_status Code_invalid_argument (what @ '' is longer than PATH_MAX'')
      else if has_dotdot p
      then mk_status Code_invalid_argument (what @ '' must not contain '' @ [CHR 0x27] @ ''..'' @ [CHR 0x27] @ '': '' @ p)
      else status_ok)"

definition canonical_dir :: "config_host \<Rightarrow> string \<Rightarrow> code \<Rightarrow> string \<Rightarrow> string result" where
  "canonical_dir h path c what =
     (if path = [] \<or> contains_nul path
      then Inl (mk_status c (what @ '' path is empty or contains NUL''))
      else case ch_realpath h path of
          Inl err \<Rightarrow> Inl (errno_status c (what @ '' '' @ [CHR 0x27] @ path @ [CHR 0x27]) err)
        | Inr buf \<Rightarrow> Inr buf)"

definition env_key :: "string \<Rightarrow> string" where
  "env_key kv = (case find_char (CHR ''='') kv of None \<Rightarrow> kv | Some eq \<Rightarrow> take eq kv)"

definition env_matches :: "string \<Rightarrow> string \<Rightarrow> bool" where
  "env_matches key e \<longleftrightarrow>
     length e > length key \<and> take (length key) e = key \<and> e ! length key = CHR ''=''"

fun env_assign :: "string \<Rightarrow> string list \<Rightarrow> string \<Rightarrow> string list" where
  "env_assign key [] kv = [kv]"
| "env_assign key (e # es) kv = (if env_matches key e then kv # es else e # env_assign key es kv)"

definition set_env :: "string list \<Rightarrow> string \<Rightarrow> string list" where
  "set_env env kv = env_assign (env_key kv) env kv"

definition host_env_step :: "(string \<Rightarrow> string option) \<Rightarrow> string list \<Rightarrow> string \<Rightarrow> string list" where
  "host_env_step lookup env name =
     (case lookup name of
        None \<Rightarrow> env
      | Some v \<Rightarrow> if contains_nul v then env else set_env env (name @ ''='' @ v))"

definition default_env :: "config_host \<Rightarrow> session_config \<Rightarrow> string list" where
  "default_env h c =
     (if sc_clear_env c then []
      else
        let env = set_env [] ''PATH=/usr/local/sbin:/usr/local/bin:/usr/sbin:/usr/bin:/sbin:/bin'';
            guest_root = (sc_uid c = Some 0);
            env = set_env env (if guest_root then ''HOME=/root'' else ''HOME=/'');
            env = (if guest_root then set_env (set_env env ''USER=root'') ''LOGNAME=root'' else env)
        in case ch_env h of
             None \<Rightarrow> env
           | Some lookup \<Rightarrow> foldl (host_env_step lookup) env kHostEnvAllowlist)"

fun override_env :: "string list \<Rightarrow> string list \<Rightarrow> string list result" where
  "override_env env [] = Inr env"
| "override_env env (kv # kvs) =
     (if \<not> valid_env_entry kv
      then Inl (mk_status Code_invalid_argument (''invalid environment entry (expected KEY=VALUE): '' @ kv))
      else override_env (set_env env kv) kvs)"

definition entry_bytes :: "string list \<Rightarrow> nat" where
  "entry_bytes xs = sum_list (map (\<lambda>a. length a + 1) xs)"

fun validate_binds ::
  "config_host \<Rightarrow> proc_mode \<Rightarrow> string list \<Rightarrow> bind_spec list \<Rightarrow> bind_spec list \<Rightarrow> bind_spec list result" where
  "validate_binds h proc guests out [] = Inr out"
| "validate_binds h proc guests out (b # bs) =
     (let s = check_guest_path (bs_guest b) ''bind guest path''
      in if \<not> is_ok s then Inl (mk_status Code_bind_invalid (st_message s))
         else
           let guest = normalize_lexical (bs_guest b)
           in if guest = ''/''
              then Inl (mk_status Code_bind_invalid (''cannot bind over the guest root '' @ [CHR 0x27] @ ''/'' @ [CHR 0x27]))
              else if proc = Proc_host \<and> is_below guest ''/proc''
              then Inl (mk_status Code_bind_invalid (''bind target '' @ guest @ '' conflicts with --proc host''))
              else if guest \<in> set guests
              then Inl (mk_status Code_bind_invalid (''duplicate bind target: '' @ guest))
              else case canonical_dir h (bs_host b) Code_bind_invalid ''bind source'' of
                  Inl s \<Rightarrow> Inl s
                | Inr host \<Rightarrow>
                    validate_binds h proc (guest # guests)
                      (out @ [\<lparr>bs_host = host, bs_guest = guest, bs_read_write = bs_read_write b\<rparr>]) bs)"

definition validate_rootfs :: "config_host \<Rightarrow> session_config \<Rightarrow> string result" where
  "validate_rootfs h c =
     (if sc_rootfs c = [] then Inl (mk_status Code_rootfs_invalid ''no rootfs directory configured'')
      else case canonical_dir h (sc_rootfs c) Code_rootfs_invalid ''rootfs'' of
          Inl s \<Rightarrow> Inl s
        | Inr root \<Rightarrow>
            if \<not> ch_is_dir h root
            then Inl (mk_status Code_rootfs_invalid (''rootfs is not a directory: '' @ root))
            else if root = ''/''
            then Inl (mk_status Code_rootfs_invalid
              (''rootfs resolves to the host root '' @ [CHR 0x27] @ ''/'' @ [CHR 0x27] @
               ''; point phdp at a root filesystem directory''))
            else Inr root)"

definition validate_argv :: "session_config \<Rightarrow> status" where
  "validate_argv c =
     (if length (sc_argv c) > kMaxArgs then mk_status Code_invalid_argument ''too many command arguments''
      else if list_ex contains_nul (sc_argv c)
      then mk_status Code_invalid_argument ''command argument contains a NUL byte''
      else if sc_argv c \<noteq> [] \<and> hd (sc_argv c) = []
      then mk_status Code_invalid_argument ''command name is empty''
      else status_ok)"

definition validate_env :: "config_host \<Rightarrow> session_config \<Rightarrow> string list result" where
  "validate_env h c =
     (if length (sc_env c) > kMaxEnv
      then Inl (mk_status Code_invalid_argument ''too many environment entries'')
      else case override_env (default_env h c) (sc_env c) of
          Inl s \<Rightarrow> Inl s
        | Inr env \<Rightarrow>
            if entry_bytes (sc_argv c) + entry_bytes env > kMaxArgBytes
            then Inl (mk_status Code_invalid_argument ''command arguments and environment exceed 256 KiB'')
            else Inr env)"

definition validate_stdio :: "config_host \<Rightarrow> session_config \<Rightarrow> status" where
  "validate_stdio h c =
     (case sc_stdio c of
        Stdio_inherit \<Rightarrow> status_ok
      | Stdio_pty \<Rightarrow>
          if sc_pty_rows c = 0 \<or> sc_pty_cols c = 0
          then mk_status Code_invalid_argument ''PTY rows and columns must be non-zero'' else status_ok
      | Stdio_fds \<Rightarrow>
          if list_ex (\<lambda>fd. fd < 0 \<or> \<not> ch_fd_open h fd) (sc_stdio_fds c)
          then mk_status Code_invalid_argument ''VHDP_STDIO_FDS requires three open file descriptors''
          else status_ok
      | Stdio_unknown n \<Rightarrow> mk_status Code_invalid_argument ''unknown stdio mode'')"

definition validate_limits :: "config_host \<Rightarrow> session_config \<Rightarrow> status" where
  "validate_limits h c =
     (if sc_uid c = Some 4294967295
      then mk_status Code_invalid_argument ''uid 4294967295 is reserved''
      else if sc_gid c = Some 4294967295
      then mk_status Code_invalid_argument ''gid 4294967295 is reserved''
      else if sc_timeout_ms c > kMaxTimeoutMs
      then mk_status Code_invalid_argument ''timeout is longer than one year''
      else let s = validate_stdio h c
           in if \<not> is_ok s then s
              else if sc_output_fn c \<and> sc_stdio c \<noteq> Stdio_pty
              then mk_status Code_invalid_argument ''an output callback requires VHDP_STDIO_PTY''
              else status_ok)"

definition validate_config :: "config_host \<Rightarrow> session_config \<Rightarrow> validated_config result" where
  "validate_config h c =
     (case validate_rootfs h c of
        Inl s \<Rightarrow> Inl s
      | Inr root \<Rightarrow>
          (let s = check_guest_path (sc_cwd c) ''cwd''
           in if \<not> is_ok s then Inl s
              else
                let a = validate_argv c
                in if \<not> is_ok a then Inl a
                   else case validate_env h c of
                       Inl s \<Rightarrow> Inl s
                     | Inr env \<Rightarrow>
                         if length (sc_binds c) > kMaxBinds
                         then Inl (mk_status Code_bind_invalid ''too many binds'')
                         else case validate_binds h (sc_proc c) [] [] (sc_binds c) of
                             Inl s \<Rightarrow> Inl s
                           | Inr binds \<Rightarrow>
                               (let l = validate_limits h c
                                in if \<not> is_ok l then Inl l
                                   else Inr \<lparr>vc_cfg = c\<lparr>sc_rootfs := root, sc_cwd := normalize_lexical (sc_cwd c),
                                                          sc_binds := binds\<rparr>,
                                             vc_final_env = env\<rparr>)))"


section \<open>The environment as a map\<close>

definition env_get :: "string list \<Rightarrow> string \<Rightarrow> string option" where
  "env_get env k = map_option (drop (length k + 1)) (List.find (env_matches k) env)"

definition env_ok :: "string list \<Rightarrow> bool" where
  "env_ok env \<longleftrightarrow> list_all valid_env_entry env \<and> distinct (map env_key env)"

lemma valid_env_entryE:
  assumes "valid_env_entry kv"
  obtains k v where "kv = k @ CHR ''='' # v" "k \<noteq> []" "CHR ''='' \<notin> set k" "env_key kv = k" "nul \<notin> set kv"
proof -
  obtain i where i: "find_char (CHR ''='') kv = Some i" "i > 0" "nul \<notin> set kv"
    using assms by (auto simp: valid_env_entry_def contains_nul_def split: option.splits)
  note f = find_char_SomeD [OF i(1)]
  have "kv = take i kv @ CHR ''='' # drop (Suc i) kv" using f id_take_nth_drop [of i kv] by simp
  then show ?thesis
    using that [of "take i kv" "drop (Suc i) kv"] i f by (fastforce simp: env_key_def)
qed

lemma takeWhile_first: "c \<notin> set a \<Longrightarrow> takeWhile (\<lambda>x. x \<noteq> c) (a @ c # v) = a"
  by (induction a) auto

lemma first_split: "a @ c # v = b @ c # w \<Longrightarrow> c \<notin> set a \<Longrightarrow> c \<notin> set b \<Longrightarrow> a = b"
  using takeWhile_first [of c a v] takeWhile_first [of c b w] by simp

lemma find_append: "List.find P (xs @ ys) = (case List.find P xs of None \<Rightarrow> List.find P ys | Some x \<Rightarrow> Some x)"
  by (induction xs) auto

lemma env_matches_valid:
  assumes "valid_env_entry e"
  shows "env_matches k e \<and> CHR ''='' \<notin> set k \<longleftrightarrow> k = env_key e"
proof -
  obtain a v where e: "e = a @ CHR ''='' # v" "CHR ''='' \<notin> set a" "env_key e = a"
    using assms by (rule valid_env_entryE)
  have "k = a" if m: "env_matches k e" "CHR ''='' \<notin> set k"
  proof -
    have "e = k @ CHR ''='' # drop (Suc (length k)) e"
      using m(1) id_take_nth_drop [of "length k" e] by (simp add: env_matches_def)
    then have "a @ CHR ''='' # v = k @ CHR ''='' # drop (Suc (length k)) e" using e(1) by simp
    then show ?thesis using first_split [of a "CHR ''=''" v k] e(2) m(2) by simp
  qed
  moreover have "env_matches a e" using e by (simp add: env_matches_def)
  ultimately show ?thesis using e by auto
qed

lemma env_get_Cons:
  "env_get (e # es) k = (if env_matches k e then Some (drop (length k + 1) e) else env_get es k)"
  by (simp add: env_get_def)

lemma env_get_set_env:
  assumes "valid_env_entry kv" and "list_all valid_env_entry env" and "CHR ''='' \<notin> set k"
  shows "env_get (set_env env kv) k =
    (if k = env_key kv then Some (drop (length k + 1) kv) else env_get env k)"
proof -
  have kv: "env_matches k kv \<longleftrightarrow> k = env_key kv" using env_matches_valid [OF assms(1), of k] assms(3) by blast
  have no_eq: "CHR ''='' \<notin> set (env_key kv)" using assms(1) by (elim valid_env_entryE) simp
  show ?thesis
    unfolding set_env_def using assms(2)
  proof (induction env)
    case Nil
    then show ?case by (simp add: env_get_def kv)
  next
    case (Cons e es)
    have e: "env_matches j e \<longleftrightarrow> j = env_key e" if "CHR ''='' \<notin> set j" for j
      using env_matches_valid [of e j] Cons.prems that by auto
    show ?case
    proof (cases "k = env_key kv")
      case True
      then show ?thesis using Cons kv by (cases "env_matches (env_key kv) e") (simp_all add: env_get_Cons)
    next
      case False
      then have "\<not> (env_matches (env_key kv) e \<and> env_matches k e)"
        using e [OF no_eq] e [OF assms(3)] by auto
      then show ?thesis
        using Cons kv False
        by (cases "env_matches (env_key kv) e"; cases "env_matches k e") (simp_all add: env_get_Cons)
    qed
  qed
qed

lemma env_assign_keys:
  "list_all valid_env_entry env \<Longrightarrow> valid_env_entry kv \<Longrightarrow>
     map env_key (set_env env kv) =
       (if env_key kv \<in> set (map env_key env) then map env_key env else map env_key env @ [env_key kv])"
proof -
  assume a: "list_all valid_env_entry env" "valid_env_entry kv"
  have no_eq: "CHR ''='' \<notin> set (env_key kv)" using a(2) by (elim valid_env_entryE) simp
  show ?thesis
    unfolding set_env_def using a(1)
  proof (induction env)
    case (Cons e es)
    then have "env_matches (env_key kv) e \<longleftrightarrow> env_key kv = env_key e"
      using env_matches_valid [of e "env_key kv"] no_eq by auto
    then show ?case using Cons by auto
  qed simp
qed

lemma env_assign_members: "set (env_assign k env kv) \<subseteq> insert kv (set env)"
  by (induction env) auto

lemma env_ok_set_env:
  assumes "env_ok env" and "valid_env_entry kv"
  shows "env_ok (set_env env kv)"
proof -
  have "list_all valid_env_entry (set_env env kv)"
    using assms env_assign_members [of "env_key kv" env kv] by (auto simp: env_ok_def set_env_def list_all_iff)
  then show ?thesis using assms env_assign_keys [of env kv] by (auto simp: env_ok_def)
qed

lemma allowlist_entry:
  "name \<in> set kHostEnvAllowlist \<Longrightarrow> \<not> contains_nul v \<Longrightarrow> valid_env_entry (name @ ''='' @ v)"
  by (auto simp: kHostEnvAllowlist_def valid_env_entry_def contains_nul_def)

lemma env_ok_host_steps:
  "env_ok env \<Longrightarrow> set names \<subseteq> set kHostEnvAllowlist \<Longrightarrow> env_ok (foldl (host_env_step lookup) env names)"
proof (induction names arbitrary: env)
  case (Cons name names)
  have "env_ok (host_env_step lookup env name)"
    using Cons.prems allowlist_entry [of name] env_ok_set_env [of env]
    by (auto simp: host_env_step_def split: option.splits)
  then show ?case using Cons by simp
qed simp

lemma env_ok_default: "env_ok (default_env h c)"
proof -
  have lit: "valid_env_entry ''PATH=/usr/local/sbin:/usr/local/bin:/usr/sbin:/usr/bin:/sbin:/bin''"
    "valid_env_entry ''HOME=/root''" "valid_env_entry ''HOME=/''" "valid_env_entry ''USER=root''"
    "valid_env_entry ''LOGNAME=root''"
    by code_simp+
  have "env_ok []" by (simp add: env_ok_def)
  then show ?thesis
    using lit unfolding default_env_def Let_def
    by (auto intro!: env_ok_set_env env_ok_host_steps split: option.splits)
qed

lemma override_env_ok: "override_env env kvs = Inr env' \<Longrightarrow> env_ok env \<Longrightarrow> env_ok env' \<and> list_all valid_env_entry kvs"
  by (induction env kvs rule: override_env.induct) (auto split: if_splits intro: env_ok_set_env)

text \<open>The value the overrides give to a key: the last entry for it, if any.\<close>

definition last_value :: "string list \<Rightarrow> string \<Rightarrow> string option" where
  "last_value kvs k = env_get (rev kvs) k"

lemma override_env_get:
  "override_env env kvs = Inr env' \<Longrightarrow> env_ok env \<Longrightarrow> CHR ''='' \<notin> set k \<Longrightarrow>
     env_get env' k = (case last_value kvs k of None \<Rightarrow> env_get env k | Some v \<Rightarrow> Some v)"
proof (induction env kvs rule: override_env.induct)
  case (2 env kv kvs)
  then have kv: "valid_env_entry kv" "override_env (set_env env kv) kvs = Inr env'" by (auto split: if_splits)
  have m: "env_matches k kv \<longleftrightarrow> k = env_key kv" using env_matches_valid [OF kv(1), of k] "2.prems"(3) by blast
  have "env_get env' k = (case last_value kvs k of None \<Rightarrow> env_get (set_env env kv) k | Some v \<Rightarrow> Some v)"
    using "2.IH" kv "2.prems" env_ok_set_env by auto
  moreover have "last_value (kv # kvs) k =
      (case last_value kvs k of None \<Rightarrow> if k = env_key kv then Some (drop (length k + 1) kv) else None
       | Some v \<Rightarrow> Some v)"
    using m by (cases "env_matches k kv") (simp_all add: last_value_def env_get_def find_append split: option.splits)
  ultimately show ?case
    using env_get_set_env [OF kv(1), of env k] "2.prems" by (auto simp: env_ok_def split: option.splits)
qed (simp add: last_value_def env_get_def)


section \<open>What a validated configuration guarantees\<close>

definition bind_ok :: "config_host \<Rightarrow> proc_mode \<Rightarrow> bind_spec \<Rightarrow> bool" where
  "bind_ok h proc b \<longleftrightarrow>
     canonical (bs_guest b) \<and> bs_guest b \<noteq> ''/'' \<and> (proc = Proc_host \<longrightarrow> \<not> is_below (bs_guest b) ''/proc'') \<and>
     (\<exists>p. p \<noteq> [] \<and> nul \<notin> set p \<and> ch_realpath h p = Inr (bs_host b))"

definition config_ok :: "config_host \<Rightarrow> validated_config \<Rightarrow> bool" where
  "config_ok h v \<longleftrightarrow>
     (let c = vc_cfg v
      in (\<exists>p. ch_realpath h p = Inr (sc_rootfs c)) \<and> ch_is_dir h (sc_rootfs c) \<and> sc_rootfs c \<noteq> ''/'' \<and>
         canonical (sc_cwd c) \<and>
         length (sc_argv c) \<le> kMaxArgs \<and> \<not> list_ex contains_nul (sc_argv c) \<and>
         (sc_argv c = [] \<or> hd (sc_argv c) \<noteq> []) \<and>
         env_ok (vc_final_env v) \<and> entry_bytes (sc_argv c) + entry_bytes (vc_final_env v) \<le> kMaxArgBytes \<and>
         length (sc_binds c) \<le> kMaxBinds \<and> distinct (map bs_guest (sc_binds c)) \<and>
         list_all (bind_ok h (sc_proc c)) (sc_binds c) \<and>
         sc_uid c \<noteq> Some 4294967295 \<and> sc_gid c \<noteq> Some 4294967295 \<and> sc_timeout_ms c \<le> kMaxTimeoutMs \<and>
         (sc_output_fn c \<longrightarrow> sc_stdio c = Stdio_pty \<and> sc_pty_rows c > 0 \<and> sc_pty_cols c > 0))"

lemma canonical_dir_Inr:
  "canonical_dir h p c what = Inr d \<Longrightarrow> p \<noteq> [] \<and> nul \<notin> set p \<and> ch_realpath h p = Inr d"
  by (auto simp: canonical_dir_def contains_nul_def split: if_splits sum.splits)

lemma validate_rootfs_Inr:
  assumes "validate_rootfs h c = Inr root"
  shows "(\<exists>p. ch_realpath h p = Inr root) \<and> ch_is_dir h root \<and> root \<noteq> ''/''"
  using assms by (auto simp: validate_rootfs_def split: if_splits sum.splits dest!: canonical_dir_Inr)

lemma check_guest_path_ok:
  "is_ok (check_guest_path p what) \<longleftrightarrow>
     p \<noteq> [] \<and> nul \<notin> set p \<and> is_absolute p \<and> length p < kPathMax \<and> \<not> has_dotdot p"
  by (auto simp: check_guest_path_def contains_nul_def)

lemma validate_binds_ok:
  "validate_binds h proc guests out bs = Inr binds \<Longrightarrow>
     set guests = bs_guest ` set out \<Longrightarrow> distinct (map bs_guest out) \<Longrightarrow> list_all (bind_ok h proc) out \<Longrightarrow>
     distinct (map bs_guest binds) \<and> list_all (bind_ok h proc) binds \<and> length binds = length out + length bs"
proof (induction h proc guests out bs rule: validate_binds.induct)
  case (2 h proc guests out b bs)
  let ?guest = "normalize_lexical (bs_guest b)"
  obtain host where host: "canonical_dir h (bs_host b) Code_bind_invalid ''bind source'' = Inr host"
    and rest: "validate_binds h proc (?guest # guests)
      (out @ [\<lparr>bs_host = host, bs_guest = ?guest, bs_read_write = bs_read_write b\<rparr>]) bs = Inr binds"
    and g: "is_ok (check_guest_path (bs_guest b) ''bind guest path'')" "?guest \<noteq> ''/''"
      "\<not> (proc = Proc_host \<and> is_below ?guest ''/proc'')" "?guest \<notin> set guests"
    using "2.prems"(1) by (auto simp: Let_def split: if_splits sum.splits)
  have "bind_ok h proc \<lparr>bs_host = host, bs_guest = ?guest, bs_read_write = bs_read_write b\<rparr>"
    using g canonical_dir_Inr [OF host] by (auto simp: bind_ok_def intro: normalize_canonical)
  then show ?case using "2.IH" [OF refl _ refl _ _ _ host] g rest "2.prems" by auto
qed auto

lemma validate_env_Inr:
  assumes "validate_env h c = Inr env"
  shows "override_env (default_env h c) (sc_env c) = Inr env" "env_ok env"
    "entry_bytes (sc_argv c) + entry_bytes env \<le> kMaxArgBytes" "list_all valid_env_entry (sc_env c)"
proof -
  show o: "override_env (default_env h c) (sc_env c) = Inr env"
    and "entry_bytes (sc_argv c) + entry_bytes env \<le> kMaxArgBytes"
    using assms by (auto simp: validate_env_def split: if_splits sum.splits)
  show "env_ok env" "list_all valid_env_entry (sc_env c)"
    using override_env_ok [OF o env_ok_default] by blast+
qed

lemma validate_config_Inr:
  assumes "validate_config h c = Inr v"
  obtains root env binds where "validate_rootfs h c = Inr root" "is_ok (check_guest_path (sc_cwd c) ''cwd'')"
    "is_ok (validate_argv c)" "validate_env h c = Inr env" "length (sc_binds c) \<le> kMaxBinds"
    "validate_binds h (sc_proc c) [] [] (sc_binds c) = Inr binds" "is_ok (validate_limits h c)"
    "v = \<lparr>vc_cfg = c\<lparr>sc_rootfs := root, sc_cwd := normalize_lexical (sc_cwd c), sc_binds := binds\<rparr>, vc_final_env = env\<rparr>"
  using assms that by (auto simp: validate_config_def Let_def split: if_splits sum.splits)

lemma validate_limits_ok:
  "is_ok (validate_limits h c) \<Longrightarrow>
     sc_uid c \<noteq> Some 4294967295 \<and> sc_gid c \<noteq> Some 4294967295 \<and> sc_timeout_ms c \<le> kMaxTimeoutMs \<and>
     (sc_output_fn c \<longrightarrow> sc_stdio c = Stdio_pty \<and> sc_pty_rows c > 0 \<and> sc_pty_cols c > 0)"
  by (auto simp: validate_limits_def validate_stdio_def Let_def split: if_splits)

lemma validate_argv_ok:
  "is_ok (validate_argv c) \<Longrightarrow>
     length (sc_argv c) \<le> kMaxArgs \<and> \<not> list_ex contains_nul (sc_argv c) \<and> (sc_argv c = [] \<or> hd (sc_argv c) \<noteq> [])"
  by (auto simp: validate_argv_def split: if_splits)

lemma canonical_dir_env: "canonical_dir (h\<lparr>ch_env := x\<rparr>) = canonical_dir h"
  by (intro ext) (simp add: canonical_dir_def)

lemma validate_binds_env: "validate_binds (h\<lparr>ch_env := x\<rparr>) p gs out bs = validate_binds h p gs out bs"
  by (induction h p gs out bs rule: validate_binds.induct)
    (simp_all add: Let_def canonical_dir_env split: sum.split)

lemma validated_config_ok:
  assumes "validate_config h c = Inr v"
  shows "config_ok h v"
  using assms
proof (rule validate_config_Inr)
  fix root env binds
  assume a: "validate_rootfs h c = Inr root" "is_ok (validate_argv c)" "validate_env h c = Inr env"
    "length (sc_binds c) \<le> kMaxBinds"
    "validate_binds h (sc_proc c) [] [] (sc_binds c) = Inr binds" "is_ok (validate_limits h c)"
    "v = \<lparr>vc_cfg = c\<lparr>sc_rootfs := root, sc_cwd := normalize_lexical (sc_cwd c), sc_binds := binds\<rparr>, vc_final_env = env\<rparr>"
  have b: "distinct (map bs_guest binds)" "list_all (bind_ok h (sc_proc c)) binds" "length binds = length (sc_binds c)"
    using validate_binds_ok [OF a(5)] by auto
  show ?thesis
    using validate_rootfs_Inr [OF a(1)] validate_argv_ok [OF a(2)] validate_env_Inr [OF a(3)] a(4) b
      validate_limits_ok [OF a(6)] normalize_canonical [of "sc_cwd c"]
    unfolding config_ok_def a(7) by (simp add: Let_def)
qed

section \<open>Properties\<close>


text \<open>
  The guest's environment is exactly the requested overrides on top of the defaults: a key holds
  the value of the last override for it, and its default value when there is none.\<close>

theorem validate_config_env:
  assumes "validate_config h c = Inr v" and "CHR ''='' \<notin> set k"
  shows "env_get (vc_final_env v) k =
    (case last_value (sc_env c) k of None \<Rightarrow> env_get (default_env h c) k | Some x \<Rightarrow> Some x)"
  using assms(1)
proof (rule validate_config_Inr)
  fix root env binds
  assume "validate_env h c = Inr env"
    "v = \<lparr>vc_cfg = c\<lparr>sc_rootfs := root, sc_cwd := normalize_lexical (sc_cwd c), sc_binds := binds\<rparr>, vc_final_env = env\<rparr>"
  then show ?thesis
    using override_env_get [OF validate_env_Inr(1) env_ok_default assms(2)] by simp
qed

text \<open>
  Nothing of the host environment but the allowlisted variables reaches the guest: two hosts that
  agree on those give the same validated configuration, whatever else their environments hold.\<close>

theorem validate_config_env_isolated:
  assumes "\<forall>name \<in> set kHostEnvAllowlist. f name = g name"
  shows "validate_config (h\<lparr>ch_env := Some f\<rparr>) c = validate_config (h\<lparr>ch_env := Some g\<rparr>) c"
proof -
  have "foldl (host_env_step f) env names = foldl (host_env_step g) env names"
    if "set names \<subseteq> set kHostEnvAllowlist" for env names
    using that assms by (induction names arbitrary: env) (auto simp: host_env_step_def)
  then have env: "default_env (h\<lparr>ch_env := Some f\<rparr>) c = default_env (h\<lparr>ch_env := Some g\<rparr>) c"
    by (simp add: default_env_def Let_def)
  have root: "validate_rootfs (h\<lparr>ch_env := x\<rparr>) c = validate_rootfs h c"
    and limits: "validate_limits (h\<lparr>ch_env := x\<rparr>) c = validate_limits h c" for x
    by (simp_all add: validate_rootfs_def validate_limits_def validate_stdio_def canonical_dir_env split: sum.split)
  show ?thesis
    unfolding validate_config_def validate_env_def root limits env validate_binds_env ..
qed

section \<open>A configuration that validates\<close>

definition sample_host :: config_host where
  "sample_host = \<lparr>ch_realpath = (\<lambda>p. if p = ''r'' then Inr ''/data/r'' else if p = ''/w'' then Inr p else Inl 2),
     ch_is_dir = (\<lambda>p. p = ''/data/r''), ch_fd_open = (\<lambda>fd. fd < 3),
     ch_env = Some (\<lambda>n. if n = ''TERM'' then Some ''xterm'' else if n = ''SECRET'' then Some ''s'' else None)\<rparr>"

definition sample_config :: session_config where
  "sample_config = default_config\<lparr>sc_rootfs := ''r'', sc_cwd := ''/home//u/.'', sc_argv := [''sh''],
     sc_env := [''A=1'', ''HOME=/h'', ''A=2''],
     sc_binds := [\<lparr>bs_host = ''/w'', bs_guest = ''/mnt/w/'', bs_read_write = True\<rparr>]\<rparr>"

lemma no_dotdot_sample: "\<not> has_dotdot ''/home//u/.''" "\<not> has_dotdot ''/mnt/w/''"
  by code_simp+

definition sample_validated :: validated_config where
  "sample_validated = \<lparr>vc_cfg = sample_config\<lparr>sc_rootfs := ''/data/r'', sc_cwd := ''/home/u'',
       sc_binds := [\<lparr>bs_host = ''/w'', bs_guest = ''/mnt/w'', bs_read_write = True\<rparr>]\<rparr>,
     vc_final_env = [''PATH=/usr/local/sbin:/usr/local/bin:/usr/sbin:/usr/bin:/sbin:/bin'', ''HOME=/h'',
       ''TERM=xterm'', ''A=2'']\<rparr>"

lemma sample_validates: "validate_config sample_host sample_config = Inr sample_validated"
proof -
  have root: "validate_rootfs sample_host sample_config = Inr ''/data/r''" by code_simp
  have cwd: "is_ok (check_guest_path (sc_cwd sample_config) ''cwd'')"
    "is_ok (check_guest_path ''/mnt/w/'' ''bind guest path'')"
    unfolding check_guest_path_ok
    using no_dotdot_sample by (simp_all add: sample_config_def is_absolute_def kPathMax_def)
  have "override_env (default_env sample_host sample_config) (sc_env sample_config) =
      Inr (vc_final_env sample_validated)"
    by code_simp
  then have env: "validate_env sample_host sample_config = Inr (vc_final_env sample_validated)"
    by (simp add: validate_env_def)
      (simp add: sample_config_def default_config_def sample_validated_def entry_bytes_def kMaxEnv_def kMaxArgBytes_def)
  have norm: "normalize_lexical ''/home//u/.'' = ''/home/u''" "normalize_lexical ''/mnt/w/'' = ''/mnt/w''"
    by code_simp+
  have binds: "validate_binds sample_host (sc_proc sample_config) [] [] (sc_binds sample_config) =
      Inr [\<lparr>bs_host = ''/w'', bs_guest = ''/mnt/w'', bs_read_write = True\<rparr>]"
    using cwd(2)
    by (simp add: sample_config_def default_config_def norm canonical_dir_def sample_host_def contains_nul_def)
  show ?thesis
    unfolding validate_config_def root env binds
    using cwd(1)
    by (simp add: sample_validated_def validate_argv_def validate_limits_def validate_stdio_def norm
        kMaxArgs_def kMaxBinds_def kMaxTimeoutMs_def contains_nul_def)
      (simp add: sample_config_def default_config_def norm contains_nul_def)
qed


theorem validate_config_env_witness: "env_get (vc_final_env sample_validated) ''A'' = Some ''2''"
proof -
  have "last_value (sc_env sample_config) ''A'' = Some ''2''" by code_simp
  then show ?thesis using validate_config_env [OF sample_validates, of "''A''"] by simp
qed

theorem validate_config_env_isolated_witness:
  "validate_config (sample_host\<lparr>ch_env := Some (\<lambda>n. if n = ''SECRET'' then Some ''s'' else None)\<rparr>) sample_config =
   validate_config (sample_host\<lparr>ch_env := Some (\<lambda>n. None)\<rparr>) sample_config"
  by (rule validate_config_env_isolated) (simp add: kHostEnvAllowlist_def)

end
