(* ===== verification/Cli_Args.thy ===== *)
theory Cli_Args
  imports Strings Config
begin

text \<open>
  The command line parser of \<open>phdp\<close> (\<open>src/src/cli/cli_args.hpp\<close>, \<open>cli_args.cpp\<close>).  A position in
  the argument vector is the list of the remaining arguments; \<open>std::variant<Parsed, ParseError>\<close> is a
  sum with the error message on the left.
\<close>

section \<open>Data\<close>

datatype command = Cmd_run | Cmd_doctor | Cmd_inspect | Cmd_capabilities | Cmd_help | Cmd_version

record bind_arg =
  ba_host :: string
  ba_guest :: string
  ba_read_write :: bool

record run_options =
  ro_engine :: string
  ro_cwd :: "string option"
  ro_env :: "string list"
  ro_clear_env :: bool
  ro_binds :: "bind_arg list"
  ro_read_only_rootfs :: bool
  ro_network :: string
  ro_uid :: "nat option"
  ro_gid :: "nat option"
  ro_timeout_ms :: "nat option"
  ro_trace :: bool
  ro_verbose :: bool
  ro_json :: bool
  ro_event_fd :: "int option"
  ro_pty :: bool
  ro_seccomp :: string
  ro_dev :: string
  ro_proc :: string
  ro_rootfs :: string
  ro_command :: "string list"

definition default_run :: run_options where
  "default_run = \<lparr>ro_engine = ''auto'', ro_cwd = None, ro_env = [], ro_clear_env = False, ro_binds = [],
     ro_read_only_rootfs = False, ro_network = ''host'', ro_uid = None, ro_gid = None, ro_timeout_ms = None,
     ro_trace = False, ro_verbose = False, ro_json = False, ro_event_fd = None, ro_pty = False,
     ro_seccomp = ''auto'', ro_dev = ''minimal'', ro_proc = ''none'', ro_rootfs = [], ro_command = []\<rparr>"

record parsed =
  pa_command :: command
  pa_implicit_run :: bool
  pa_run :: run_options
  pa_json :: bool
  pa_no_active :: bool
  pa_inspect_path :: string
  pa_help_topic :: string

definition default_parsed :: parsed where
  "default_parsed = \<lparr>pa_command = Cmd_help, pa_implicit_run = False, pa_run = default_run, pa_json = False,
     pa_no_active = False, pa_inspect_path = [], pa_help_topic = []\<rparr>"

type_synonym parse_result = "string + parsed"

definition sq :: "string \<Rightarrow> string" where "sq s = CHR 0x27 # s @ [CHR 0x27]"

section \<open>Values\<close>

fun digits_loop :: "nat \<Rightarrow> string \<Rightarrow> nat option" where
  "digits_loop v [] = Some v"
| "digits_loop v (c # cs) =
     (if byte c < 48 \<or> byte c > 57 then None else digits_loop (v * 10 + (byte c - 48)) cs)"

definition cli_parse_u32 :: "string \<Rightarrow> nat option" where
  "cli_parse_u32 s =
     (if s = [] \<or> length s > 10 then None
      else case digits_loop 0 s of
          None \<Rightarrow> None
        | Some v \<Rightarrow> if v \<ge> 4294967295 then None else Some v)"

text \<open>The three rounds of the fraction loop.\<close>

fun frac_loop :: "nat \<Rightarrow> nat \<Rightarrow> string \<Rightarrow> nat option" where
  "frac_loop 0 f frac = Some f"
| "frac_loop (Suc i) f [] = frac_loop i (f * 10) []"
| "frac_loop (Suc i) f (c # cs) =
     (if byte c < 48 \<or> byte c > 57 then None else frac_loop i (f * 10 + (byte c - 48)) cs)"

definition parse_timeout :: "string \<Rightarrow> nat option" where
  "parse_timeout s =
     (let dot = find_char (CHR ''.'') s;
          whole = (case dot of None \<Rightarrow> s | Some d \<Rightarrow> take d s);
          frac = (case dot of None \<Rightarrow> [] | Some d \<Rightarrow> drop (d + 1) s)
      in if whole = [] \<or> length whole > 8 \<or> (dot \<noteq> None \<and> (frac = [] \<or> length frac > 3)) then None
         else case digits_loop 0 whole of
             None \<Rightarrow> None
           | Some sec \<Rightarrow>
               (case frac_loop 3 0 frac of
                  None \<Rightarrow> None
                | Some f \<Rightarrow>
                    let ms = sec * 1000 + f in if ms > 0 \<and> ms \<le> kMaxTimeoutMs then Some ms else None))"

definition one_of :: "string \<Rightarrow> string list \<Rightarrow> bool" where
  "one_of v allowed \<longleftrightarrow> list_ex (\<lambda>a. v = a) allowed"

definition parse_bind :: "string \<Rightarrow> string + bind_arg" where
  "parse_bind spec =
     (let parts = split spec (CHR '':'')
      in if length parts < 2 \<or> length parts > 3
         then Inl (''invalid --bind '' @ sq spec @ '': expected HOST:GUEST[:ro|rw] (paths containing '' @ sq '':'' @ '' are not supported)'')
         else if parts ! 0 = [] \<or> parts ! 1 = []
         then Inl (''invalid --bind '' @ sq spec @ '': HOST and GUEST must not be empty'')
         else if length parts = 3 \<and> parts ! 2 \<noteq> ''rw'' \<and> parts ! 2 \<noteq> ''ro''
         then Inl (''invalid --bind mode '' @ sq (parts ! 2) @ '': use ro or rw'')
         else if hd (parts ! 1) \<noteq> slash
         then Inl (''invalid --bind '' @ sq spec @ '': GUEST must be an absolute path'')
         else Inr \<lparr>ba_host = parts ! 0, ba_guest = parts ! 1,
                   ba_read_write = (length parts = 3 \<and> parts ! 2 = ''rw'')\<rparr>)"

definition split_inline :: "string \<Rightarrow> string \<times> string option" where
  "split_inline token =
     (case find_char (CHR ''='') token of
        None \<Rightarrow> (token, None)
      | Some eq \<Rightarrow> (take eq token, Some (drop (eq + 1) token)))"

section \<open>The run command\<close>

datatype option_result = Opt_error string | Opt_help | Opt_next run_options "string list"

definition opt_flag :: "string \<Rightarrow> string option \<Rightarrow> string list \<Rightarrow> run_options \<Rightarrow> option_result" where
  "opt_flag name inline rest o' =
     (if inline \<noteq> None then Opt_error (''option '' @ name @ '' does not take a value'') else Opt_next o' rest)"

definition opt_value ::
  "string \<Rightarrow> string option \<Rightarrow> string list \<Rightarrow> (string \<Rightarrow> string + run_options) \<Rightarrow> option_result" where
  "opt_value name inline rest assign =
     (case inline of
        Some v \<Rightarrow> (case assign v of Inl e \<Rightarrow> Opt_error e | Inr o' \<Rightarrow> Opt_next o' rest)
      | None \<Rightarrow>
          (case rest of
             [] \<Rightarrow> Opt_error (''option '' @ name @ '' requires a value'')
           | v # rest' \<Rightarrow> (case assign v of Inl e \<Rightarrow> Opt_error e | Inr o' \<Rightarrow> Opt_next o' rest')))"

definition set_engine :: "run_options \<Rightarrow> string \<Rightarrow> string + run_options" where
  "set_engine o' v =
     (if \<not> one_of v [''auto'', ''rootless'', ''rooted'', ''emulator'', ''vm'']
      then Inl (''invalid --engine '' @ sq v @ '': use auto|rootless|rooted|emulator|vm'')
      else Inr (o'\<lparr>ro_engine := v\<rparr>))"

definition set_cwd :: "run_options \<Rightarrow> string \<Rightarrow> string + run_options" where
  "set_cwd o' v =
     (if v = [] \<or> hd v \<noteq> slash then Inl ''--cwd requires an absolute guest path'' else Inr (o'\<lparr>ro_cwd := Some v\<rparr>))"

definition add_env :: "run_options \<Rightarrow> string \<Rightarrow> string + run_options" where
  "add_env o' v =
     (case find_char (CHR ''='') v of
        None \<Rightarrow> Inl (''invalid --env '' @ sq v @ '': expected KEY=VALUE'')
      | Some eq \<Rightarrow>
          if eq = 0 then Inl (''invalid --env '' @ sq v @ '': expected KEY=VALUE'')
          else Inr (o'\<lparr>ro_env := ro_env o' @ [v]\<rparr>))"

definition add_bind :: "run_options \<Rightarrow> string \<Rightarrow> string + run_options" where
  "add_bind o' v = (case parse_bind v of Inl e \<Rightarrow> Inl e | Inr b \<Rightarrow> Inr (o'\<lparr>ro_binds := ro_binds o' @ [b]\<rparr>))"

definition set_network :: "run_options \<Rightarrow> string \<Rightarrow> string + run_options" where
  "set_network o' v =
     (if \<not> one_of v [''host'', ''none''] then Inl (''invalid --network '' @ sq v @ '': use host|none'')
      else Inr (o'\<lparr>ro_network := v\<rparr>))"

definition set_id :: "string \<Rightarrow> run_options \<Rightarrow> string \<Rightarrow> string + run_options" where
  "set_id name o' v =
     (case cli_parse_u32 v of
        None \<Rightarrow> Inl (''invalid '' @ name @ '' '' @ sq v @ '': expected 0..4294967294'')
      | Some n \<Rightarrow> Inr (if name = ''--uid'' then o'\<lparr>ro_uid := Some n\<rparr> else o'\<lparr>ro_gid := Some n\<rparr>))"

definition set_timeout :: "run_options \<Rightarrow> string \<Rightarrow> string + run_options" where
  "set_timeout o' v =
     (case parse_timeout v of
        None \<Rightarrow> Inl (''invalid --timeout '' @ sq v @ '': expected positive seconds, e.g. 30 or 1.5'')
      | Some ms \<Rightarrow> Inr (o'\<lparr>ro_timeout_ms := Some ms\<rparr>))"

definition set_event_fd :: "run_options \<Rightarrow> string \<Rightarrow> string + run_options" where
  "set_event_fd o' v =
     (case cli_parse_u32 v of
        None \<Rightarrow> Inl (''invalid --event-fd '' @ sq v @ '': must be a descriptor >= 2 (stdin/stdout are reserved for the guest)'')
      | Some fd \<Rightarrow>
          if fd < 2 \<or> fd > 1024 * 1024
          then Inl (''invalid --event-fd '' @ sq v @ '': must be a descriptor >= 2 (stdin/stdout are reserved for the guest)'')
          else Inr (o'\<lparr>ro_event_fd := Some (int fd)\<rparr>))"

definition set_seccomp :: "run_options \<Rightarrow> string \<Rightarrow> string + run_options" where
  "set_seccomp o' v =
     (if \<not> one_of v [''auto'', ''on'', ''off''] then Inl (''invalid --seccomp '' @ sq v @ '': use auto|on|off'')
      else Inr (o'\<lparr>ro_seccomp := v\<rparr>))"

definition set_dev :: "run_options \<Rightarrow> string \<Rightarrow> string + run_options" where
  "set_dev o' v =
     (if \<not> one_of v [''minimal'', ''none''] then Inl (''invalid --dev '' @ sq v @ '': use minimal|none'')
      else Inr (o'\<lparr>ro_dev := v\<rparr>))"

definition set_proc :: "run_options \<Rightarrow> string \<Rightarrow> string + run_options" where
  "set_proc o' v =
     (if \<not> one_of v [''none'', ''host''] then Inl (''invalid --proc '' @ sq v @ '': use none|host'')
      else Inr (o'\<lparr>ro_proc := v\<rparr>))"

definition run_option :: "run_options \<Rightarrow> string \<Rightarrow> string option \<Rightarrow> string list \<Rightarrow> option_result" where
  "run_option o' name inline rest =
     (if name = ''--help'' \<or> name = ''-h'' then Opt_help
      else if name = ''--engine'' then opt_value name inline rest (set_engine o')
      else if name = ''--cwd'' then opt_value name inline rest (set_cwd o')
      else if name = ''--env'' \<or> name = ''-e'' then opt_value name inline rest (add_env o')
      else if name = ''--clear-env'' then opt_flag name inline rest (o'\<lparr>ro_clear_env := True\<rparr>)
      else if name = ''--bind'' \<or> name = ''-b'' then opt_value name inline rest (add_bind o')
      else if name = ''--read-only-rootfs'' then opt_flag name inline rest (o'\<lparr>ro_read_only_rootfs := True\<rparr>)
      else if name = ''--network'' then opt_value name inline rest (set_network o')
      else if name = ''--uid'' \<or> name = ''--gid'' then opt_value name inline rest (set_id name o')
      else if name = ''--timeout'' then opt_value name inline rest (set_timeout o')
      else if name = ''--trace'' then opt_flag name inline rest (o'\<lparr>ro_trace := True\<rparr>)
      else if name = ''--verbose'' \<or> name = ''-v'' then opt_flag name inline rest (o'\<lparr>ro_verbose := True\<rparr>)
      else if name = ''--json'' then opt_flag name inline rest (o'\<lparr>ro_json := True\<rparr>)
      else if name = ''--event-fd'' then opt_value name inline rest (set_event_fd o')
      else if name = ''--pty'' then opt_flag name inline rest (o'\<lparr>ro_pty := True\<rparr>)
      else if name = ''--seccomp'' then opt_value name inline rest (set_seccomp o')
      else if name = ''--dev'' then opt_value name inline rest (set_dev o')
      else if name = ''--proc'' then opt_value name inline rest (set_proc o')
      else Opt_error (''unknown option '' @ sq name @ '' (see phdp run --help)''))"

lemma opt_shorter:
  "opt_value name inline rest assign = Opt_next o' rest' \<Longrightarrow> length rest' \<le> length rest"
  "opt_flag name inline rest x = Opt_next o' rest' \<Longrightarrow> length rest' \<le> length rest"
  by (auto simp: opt_value_def opt_flag_def split: option.splits list.splits sum.splits if_splits)

definition value_setters :: "string \<Rightarrow> run_options \<Rightarrow> (string \<Rightarrow> string + run_options) list" where
  "value_setters name x = [set_engine x, set_cwd x, add_env x, add_bind x, set_network x, set_id name x,
     set_timeout x, set_event_fd x, set_seccomp x, set_dev x, set_proc x]"

definition flag_settings :: "run_options \<Rightarrow> run_options list" where
  "flag_settings x = [x\<lparr>ro_clear_env := True\<rparr>, x\<lparr>ro_read_only_rootfs := True\<rparr>, x\<lparr>ro_trace := True\<rparr>,
     x\<lparr>ro_verbose := True\<rparr>, x\<lparr>ro_json := True\<rparr>, x\<lparr>ro_pty := True\<rparr>]"

lemma if_chainE: "(if c then a else b) = r \<Longrightarrow> (a = r \<Longrightarrow> P) \<Longrightarrow> (b = r \<Longrightarrow> P) \<Longrightarrow> P"
  by (cases c) simp_all

lemma setter_memI:
  "set_engine x \<in> set (value_setters name x)" "set_cwd x \<in> set (value_setters name x)"
  "add_env x \<in> set (value_setters name x)" "add_bind x \<in> set (value_setters name x)"
  "set_network x \<in> set (value_setters name x)" "set_id name x \<in> set (value_setters name x)"
  "set_timeout x \<in> set (value_setters name x)" "set_event_fd x \<in> set (value_setters name x)"
  "set_seccomp x \<in> set (value_setters name x)" "set_dev x \<in> set (value_setters name x)"
  "set_proc x \<in> set (value_setters name x)"
  by (simp_all add: value_setters_def)

lemma flag_memI:
  "x\<lparr>ro_clear_env := True\<rparr> \<in> set (flag_settings x)" "x\<lparr>ro_read_only_rootfs := True\<rparr> \<in> set (flag_settings x)"
  "x\<lparr>ro_trace := True\<rparr> \<in> set (flag_settings x)" "x\<lparr>ro_verbose := True\<rparr> \<in> set (flag_settings x)"
  "x\<lparr>ro_json := True\<rparr> \<in> set (flag_settings x)" "x\<lparr>ro_pty := True\<rparr> \<in> set (flag_settings x)"
  by (simp_all add: flag_settings_def)

text \<open>An accepted option either assigns a value or sets a flag.\<close>

lemma run_option_next:
  assumes "run_option x name inline rest = Opt_next y rest'"
  shows "(\<exists>assign \<in> set (value_setters name x). opt_value name inline rest assign = Opt_next y rest') \<or>
    (\<exists>z \<in> set (flag_settings x). opt_flag name inline rest z = Opt_next y rest')"
  using assms unfolding run_option_def
  by (elim if_chainE) (blast intro: setter_memI flag_memI | simp)+

lemma run_option_shorter: "run_option x name inline rest = Opt_next o' rest' \<Longrightarrow> length rest' \<le> length rest"
  using run_option_next opt_shorter by blast

definition help_run :: parsed where
  "help_run = default_parsed\<lparr>pa_command := Cmd_help, pa_help_topic := ''run''\<rparr>"

function parse_run_loop :: "bool \<Rightarrow> run_options \<Rightarrow> string list \<Rightarrow> parse_result" where
  "parse_run_loop implicit o' [] =
     (if ro_rootfs o' = [] then Inl ''missing ROOTFS_DIR (see phdp --help)''
      else Inr (default_parsed\<lparr>pa_command := Cmd_run, pa_implicit_run := implicit, pa_run := o'\<rparr>))"
| "parse_run_loop implicit o' (tok # rest) =
     (if tok = ''--''
      then (if ro_rootfs o' = [] then Inl (''ROOTFS_DIR must be given before '' @ sq ''--'')
            else if rest = [] then Inl (sq ''--'' @ '' must be followed by a command'')
            else Inr (default_parsed\<lparr>pa_command := Cmd_run, pa_implicit_run := implicit,
                                     pa_run := o'\<lparr>ro_command := ro_command o' @ rest\<rparr>\<rparr>))
      else if ro_rootfs o' \<noteq> []
      then (if tok \<noteq> [] \<and> hd tok = CHR ''-''
            then Inl (''option '' @ sq tok @ '' after ROOTFS_DIR; put options before ROOTFS_DIR'')
            else Inl (''unexpected argument '' @ sq tok @ '' after ROOTFS_DIR; separate the command with '' @
                      sq ''--'' @ '' (phdp run ROOTFS -- COMMAND)''))
      else if tok = [] then Inl ''empty argument''
      else if hd tok \<noteq> CHR ''-'' then parse_run_loop implicit (o'\<lparr>ro_rootfs := tok\<rparr>) rest
      else case split_inline tok of
        (name, inline) \<Rightarrow>
          (case run_option o' name inline rest of
             Opt_error e \<Rightarrow> Inl e
           | Opt_help \<Rightarrow> Inr help_run
           | Opt_next o'' rest' \<Rightarrow> parse_run_loop implicit o'' rest'))"
  by pat_completeness auto
termination
  by (relation "measure (\<lambda>(i, o', a). length a)") (auto dest: run_option_shorter simp: le_imp_less_Suc)

definition parse_run :: "bool \<Rightarrow> string list \<Rightarrow> parse_result" where
  "parse_run implicit args = parse_run_loop implicit default_run args"

section \<open>All commands\<close>

definition is_subcommand_name :: "string \<Rightarrow> bool" where
  "is_subcommand_name s \<longleftrightarrow>
     s = ''doctor'' \<or> s = ''inspect'' \<or> s = ''capabilities'' \<or> s = ''run'' \<or> s = ''help'' \<or> s = ''version''"

fun parse_report_args :: "string \<Rightarrow> parsed \<Rightarrow> string list \<Rightarrow> parse_result" where
  "parse_report_args first p [] = Inr p"
| "parse_report_args first p (a # args) =
     (if a = ''--json'' then parse_report_args first (p\<lparr>pa_json := True\<rparr>) args
      else if a = ''--no-active'' \<and> pa_command p = Cmd_doctor
      then parse_report_args first (p\<lparr>pa_no_active := True\<rparr>) args
      else if a = ''--help'' \<or> a = ''-h'' then Inr (p\<lparr>pa_command := Cmd_help, pa_help_topic := first\<rparr>)
      else Inl (''unknown argument for '' @ first @ '': '' @ sq a))"

fun parse_inspect_args :: "parsed \<Rightarrow> string list \<Rightarrow> parse_result" where
  "parse_inspect_args p [] =
     (if pa_inspect_path p = [] then Inl ''inspect requires ROOTFS_DIR'' else Inr p)"
| "parse_inspect_args p (a # args) =
     (if a = ''--json'' then parse_inspect_args (p\<lparr>pa_json := True\<rparr>) args
      else if a = ''--help'' \<or> a = ''-h'' then Inr (p\<lparr>pa_command := Cmd_help, pa_help_topic := ''inspect''\<rparr>)
      else if a \<noteq> [] \<and> hd a = CHR ''-'' then Inl (''unknown option for inspect: '' @ sq a)
      else if pa_inspect_path p = [] then parse_inspect_args (p\<lparr>pa_inspect_path := a\<rparr>) args
      else Inl ''inspect takes exactly one ROOTFS_DIR'')"

definition parse_help :: "string \<Rightarrow> string list \<Rightarrow> parse_result" where
  "parse_help first rest =
     (let p = default_parsed\<lparr>pa_command := Cmd_help\<rparr>
      in if first = ''help'' \<and> rest \<noteq> []
         then (if length rest > 1 \<or> \<not> is_subcommand_name (hd rest)
               then Inl ''usage: phdp help [doctor|inspect|capabilities|run|version]''
               else Inr (p\<lparr>pa_help_topic := hd rest\<rparr>))
         else if rest \<noteq> [] then Inl (''unexpected arguments after '' @ first)
         else Inr p)"

fun parse_arguments :: "string list \<Rightarrow> parse_result" where
  "parse_arguments [] = Inl ''missing ROOTFS_DIR or subcommand (see phdp --help)''"
| "parse_arguments (first # rest) =
     (if first = ''--help'' \<or> first = ''-h'' \<or> first = ''help'' then parse_help first rest
      else if first = ''--version'' \<or> first = ''-V'' \<or> first = ''version''
      then (if rest \<noteq> [] then Inl (''unexpected arguments after '' @ first)
            else Inr (default_parsed\<lparr>pa_command := Cmd_version\<rparr>))
      else if first = ''doctor'' \<or> first = ''capabilities''
      then parse_report_args first
             (default_parsed\<lparr>pa_command := (if first = ''doctor'' then Cmd_doctor else Cmd_capabilities)\<rparr>) rest
      else if first = ''inspect'' then parse_inspect_args (default_parsed\<lparr>pa_command := Cmd_inspect\<rparr>) rest
      else if first = ''run'' then parse_run False rest
      else parse_run True (first # rest))"


section \<open>What a successful parse guarantees\<close>

lemma digits_loop_Some: "digits_loop v s = Some w \<longleftrightarrow>
    (\<forall>c \<in> set s. digit_byte c) \<and> w = foldl (\<lambda>v c. v * 10 + (byte c - 48)) v s"
  by (induction v s rule: digits_loop.induct) auto

lemma digits_loop_dec: "digits_loop 0 (dec_string n) = Some n"
  unfolding digits_loop_Some using dec_string_all_digits [of n] dec_value_dec_string [of n]
  by (simp add: dec_value_def)

definition bind_arg_ok :: "bind_arg \<Rightarrow> bool" where
  "bind_arg_ok b \<longleftrightarrow>
     ba_host b \<noteq> [] \<and> CHR '':'' \<notin> set (ba_host b) \<and> CHR '':'' \<notin> set (ba_guest b) \<and> is_absolute (ba_guest b)"

definition run_ok :: "run_options \<Rightarrow> bool" where
  "run_ok o' \<longleftrightarrow>
     ro_engine o' \<in> {''auto'', ''rootless'', ''rooted'', ''emulator'', ''vm''} \<and>
     (\<forall>v. ro_cwd o' = Some v \<longrightarrow> is_absolute v) \<and>
     list_all (\<lambda>v. env_key v \<noteq> [] \<and> CHR ''='' \<in> set v) (ro_env o') \<and> list_all bind_arg_ok (ro_binds o') \<and>
     ro_network o' \<in> {''host'', ''none''} \<and>
     (\<forall>n. ro_uid o' = Some n \<longrightarrow> n < 4294967295) \<and> (\<forall>n. ro_gid o' = Some n \<longrightarrow> n < 4294967295) \<and>
     (\<forall>n. ro_timeout_ms o' = Some n \<longrightarrow> 0 < n \<and> n \<le> kMaxTimeoutMs) \<and>
     (\<forall>n. ro_event_fd o' = Some n \<longrightarrow> 2 \<le> n \<and> n \<le> 1048576) \<and>
     ro_seccomp o' \<in> {''auto'', ''on'', ''off''} \<and> ro_dev o' \<in> {''minimal'', ''none''} \<and>
     ro_proc o' \<in> {''none'', ''host''}"

lemma run_ok_default: "run_ok default_run"
  by (simp add: run_ok_def default_run_def)

lemma run_ok_fields [simp]:
  "run_ok (o'\<lparr>ro_rootfs := a\<rparr>) = run_ok o'" "run_ok (o'\<lparr>ro_command := b\<rparr>) = run_ok o'"
  "run_ok (o'\<lparr>ro_clear_env := c\<rparr>) = run_ok o'" "run_ok (o'\<lparr>ro_read_only_rootfs := c\<rparr>) = run_ok o'"
  "run_ok (o'\<lparr>ro_trace := c\<rparr>) = run_ok o'" "run_ok (o'\<lparr>ro_verbose := c\<rparr>) = run_ok o'"
  "run_ok (o'\<lparr>ro_json := c\<rparr>) = run_ok o'" "run_ok (o'\<lparr>ro_pty := c\<rparr>) = run_ok o'"
  by (simp_all add: run_ok_def)

lemma parse_bind_ok: "parse_bind v = Inr b \<Longrightarrow> bind_arg_ok b"
proof -
  assume a: "parse_bind v = Inr b"
  let ?p = "split_on (CHR '':'') v"
  have s: "split v (CHR '':'') = ?p" by (simp add: split_def split_loop_split_on)
  have l: "\<not> length ?p < 2" "?p ! 0 \<noteq> []" "?p ! 1 \<noteq> []" "hd (?p ! 1) = slash"
    "ba_host b = ?p ! 0" "ba_guest b = ?p ! 1"
    using a unfolding parse_bind_def s Let_def by (auto split: if_splits)
  then have "?p ! 0 \<in> set ?p" "?p ! 1 \<in> set ?p" by (auto intro: nth_mem)
  then show ?thesis
    using l split_on_no_sep [of "?p ! 0" "CHR '':''" v] split_on_no_sep [of "?p ! 1" "CHR '':''" v]
    by (auto simp: bind_arg_ok_def is_absolute_def)
qed

lemma parse_timeout_bounds: "parse_timeout v = Some ms \<Longrightarrow> 0 < ms \<and> ms \<le> kMaxTimeoutMs"
  by (auto simp: parse_timeout_def Let_def split: if_splits option.splits)

lemma cli_parse_u32_bound: "cli_parse_u32 v = Some n \<Longrightarrow> n < 4294967295"
  by (auto simp: cli_parse_u32_def split: if_splits option.splits)

lemma setters_ok:
  assumes "run_ok x"
  shows "set_engine x v = Inr y \<Longrightarrow> run_ok y" "set_cwd x v = Inr y \<Longrightarrow> run_ok y" "add_env x v = Inr y \<Longrightarrow> run_ok y"
    "add_bind x v = Inr y \<Longrightarrow> run_ok y" "set_network x v = Inr y \<Longrightarrow> run_ok y" "set_id name x v = Inr y \<Longrightarrow> run_ok y"
    "set_timeout x v = Inr y \<Longrightarrow> run_ok y" "set_event_fd x v = Inr y \<Longrightarrow> run_ok y" "set_seccomp x v = Inr y \<Longrightarrow> run_ok y"
    "set_dev x v = Inr y \<Longrightarrow> run_ok y" "set_proc x v = Inr y \<Longrightarrow> run_ok y"
proof -
  show "add_env x v = Inr y \<Longrightarrow> run_ok y"
  proof -
    assume a: "add_env x v = Inr y"
    then obtain i where i: "find_char (CHR ''='') v = Some i" "0 < i" "y = x\<lparr>ro_env := ro_env x @ [v]\<rparr>"
      by (auto simp: add_env_def split: option.splits if_splits)
    then have "env_key v \<noteq> []" "CHR ''='' \<in> set v"
      using find_char_SomeD [OF i(1)] nth_mem [of i v] by (auto simp: env_key_def)
    then show ?thesis using assms i(3) by (simp add: run_ok_def)
  qed
  show "add_bind x v = Inr y \<Longrightarrow> run_ok y"
    using assms parse_bind_ok [of v] unfolding add_bind_def
    by (cases "parse_bind v") (clarsimp simp: run_ok_def)+
  show "set_timeout x v = Inr y \<Longrightarrow> run_ok y"
    using assms parse_timeout_bounds [of v] unfolding set_timeout_def
    by (cases "parse_timeout v") (clarsimp simp: run_ok_def)+
  show "set_event_fd x v = Inr y \<Longrightarrow> run_ok y"
    using assms unfolding set_event_fd_def
    by (cases "cli_parse_u32 v") (clarsimp simp: run_ok_def split: if_splits)+
  show "set_id name x v = Inr y \<Longrightarrow> run_ok y"
    using assms cli_parse_u32_bound [of v] unfolding set_id_def
    by (cases "cli_parse_u32 v") (clarsimp simp: run_ok_def split: if_splits)+
  show "set_engine x v = Inr y \<Longrightarrow> run_ok y" "set_cwd x v = Inr y \<Longrightarrow> run_ok y"
    "set_network x v = Inr y \<Longrightarrow> run_ok y" "set_seccomp x v = Inr y \<Longrightarrow> run_ok y"
    "set_dev x v = Inr y \<Longrightarrow> run_ok y" "set_proc x v = Inr y \<Longrightarrow> run_ok y"
    using assms unfolding set_engine_def set_cwd_def set_network_def set_seccomp_def set_dev_def set_proc_def
    by (clarsimp simp: run_ok_def one_of_def is_absolute_def split: if_splits)+
qed

lemma opt_value_ok:
  "opt_value name inline rest assign = Opt_next y rest' \<Longrightarrow> (\<And>v y. assign v = Inr y \<Longrightarrow> run_ok y) \<Longrightarrow> run_ok y"
  by (auto simp: opt_value_def split: option.splits list.splits sum.splits)

lemma opt_value_next: "opt_value name inline rest assign = Opt_next y rest' \<Longrightarrow> \<exists>v. assign v = Inr y"
  unfolding opt_value_def by (cases inline; cases rest) (fastforce split: sum.splits)+

lemma opt_rest_subset:
  "opt_value name inline rest assign = Opt_next y rest' \<Longrightarrow> set rest' \<subseteq> set rest"
  "opt_flag name inline rest z = Opt_next y rest' \<Longrightarrow> set rest' \<subseteq> set rest"
  unfolding opt_value_def opt_flag_def by (auto split: option.splits list.splits sum.splits if_splits)

lemma opt_flag_ok: "opt_flag name inline rest x = Opt_next y rest' \<Longrightarrow> y = x"
  by (auto simp: opt_flag_def split: if_splits)

lemma run_option_ok:
  assumes "run_ok x" and "run_option x name inline rest = Opt_next y rest'"
  shows "run_ok y"
  using run_option_next [OF assms(2)]
proof
  assume "\<exists>assign \<in> set (value_setters name x). opt_value name inline rest assign = Opt_next y rest'"
  then obtain assign where a: "assign \<in> set (value_setters name x)" "opt_value name inline rest assign = Opt_next y rest'"
    by blast
  have "run_ok z" if "assign v = Inr z" for v z
    using a(1) that setters_ok [OF assms(1), where v = v and y = z]
    unfolding value_setters_def by (simp, elim disjE) simp_all
  then show ?thesis using opt_value_ok [OF a(2)] by blast
next
  assume "\<exists>z \<in> set (flag_settings x). opt_flag name inline rest z = Opt_next y rest'"
  then have "y \<in> set (flag_settings x)" by (auto dest: opt_flag_ok)
  then show ?thesis using assms(1) by (auto simp: flag_settings_def)
qed

lemma setters_keep:
  assumes "assign \<in> set (value_setters name x)" and "assign v = Inr z"
  shows "ro_rootfs z = ro_rootfs x \<and> ro_command z = ro_command x"
  using assms unfolding value_setters_def
  by (simp, elim disjE) (auto simp: set_engine_def set_cwd_def add_env_def add_bind_def set_network_def set_id_def
      set_timeout_def set_event_fd_def set_seccomp_def set_dev_def set_proc_def split: if_splits option.splits sum.splits)

lemma run_option_keep:
  assumes "run_option x name inline rest = Opt_next y rest'"
  shows "ro_rootfs y = ro_rootfs x \<and> ro_command y = ro_command x"
  using run_option_next [OF assms]
proof
  assume "\<exists>assign \<in> set (value_setters name x). opt_value name inline rest assign = Opt_next y rest'"
  then obtain assign v where "assign \<in> set (value_setters name x)" "assign v = Inr y"
    using opt_value_next by blast
  then show ?thesis by (rule setters_keep)
next
  assume "\<exists>z \<in> set (flag_settings x). opt_flag name inline rest z = Opt_next y rest'"
  then have "y \<in> set (flag_settings x)" by (auto dest: opt_flag_ok)
  then show ?thesis by (auto simp: flag_settings_def)
qed

lemma parse_run_loop_ok:
  "parse_run_loop implicit x args = Inr p \<Longrightarrow> run_ok x \<Longrightarrow> (ro_rootfs x = [] \<or> hd (ro_rootfs x) \<noteq> CHR ''-'') \<Longrightarrow>
     p = help_run \<or>
     (pa_command p = Cmd_run \<and> run_ok (pa_run p) \<and> ro_rootfs (pa_run p) \<noteq> [] \<and> hd (ro_rootfs (pa_run p)) \<noteq> CHR ''-'')"
proof (induction implicit x args rule: parse_run_loop.induct)
  case (2 implicit x tok rest)
  obtain name inline where s: "split_inline tok = (name, inline)" by fastforce
  consider "tok = ''--''" | "tok \<noteq> ''--''" "ro_rootfs x \<noteq> []" | "tok \<noteq> ''--''" "ro_rootfs x = []" "tok = []"
    | "tok \<noteq> ''--''" "ro_rootfs x = []" "tok \<noteq> []" "hd tok \<noteq> CHR ''-''"
    | "tok \<noteq> ''--''" "ro_rootfs x = []" "tok \<noteq> []" "hd tok = CHR ''-''" by blast
  then show ?case
  proof cases
    case 5
    note s' = s [symmetric]
    show ?thesis
    proof (cases "run_option x name inline rest")
      case (Opt_next y rest')
      then show ?thesis
        using "2.IH"(2) [OF 5(1) _ 5(3) _ s' Opt_next] 5 s "2.prems" run_option_ok [OF _ Opt_next]
          run_option_keep [OF Opt_next] by simp
    qed (use 5 s "2.prems" in simp_all)
  next
    case 4
    then show ?thesis using "2.IH"(1) "2.prems" by simp
  qed (use "2.prems" in \<open>auto split: if_splits\<close>)
qed (auto split: if_splits)


lemma if_condE: "(if c then a else b) = r \<Longrightarrow> (c \<Longrightarrow> a = r \<Longrightarrow> P) \<Longrightarrow> (\<not> c \<Longrightarrow> b = r \<Longrightarrow> P) \<Longrightarrow> P"
  by (cases c) simp_all

lemma default_run_fields: "ro_rootfs default_run = []" "ro_command default_run = []"
  by (simp_all add: default_run_def)

lemma parse_report_args_command:
  "parse_report_args first p args = Inr q \<Longrightarrow> pa_command q = pa_command p \<or> pa_command q = Cmd_help"
  by (induction first p args rule: parse_report_args.induct) (auto split: if_splits)

lemma parse_inspect_args_command:
  "parse_inspect_args p args = Inr q \<Longrightarrow> pa_command q = pa_command p \<or> pa_command q = Cmd_help"
  by (induction p args rule: parse_inspect_args.induct) (auto split: if_splits)

lemma parse_arguments_run:
  assumes "parse_arguments args = Inr p" and "pa_command p = Cmd_run"
  shows "(\<exists>rest. args = ''run'' # rest \<and> parse_run False rest = Inr p) \<or> parse_run True args = Inr p"
proof (cases args)
  case (Cons first rest)
  have not_help: "parse_help first rest = Inr p \<Longrightarrow> False"
    using assms(2) by (auto simp: parse_help_def Let_def split: if_splits)
  have not_report: "parse_report_args first (default_parsed\<lparr>pa_command := c\<rparr>) rest = Inr p \<Longrightarrow> c \<noteq> Cmd_run \<Longrightarrow> False" for c
    using parse_report_args_command assms(2) by fastforce
  have doctor: "parse_report_args first (default_parsed\<lparr>pa_command := (if first = ''doctor'' then Cmd_doctor else Cmd_capabilities)\<rparr>)
      rest = Inr p \<Longrightarrow> False"
    using not_report [of "if first = ''doctor'' then Cmd_doctor else Cmd_capabilities"] by (simp split: if_splits)
  have not_inspect: "parse_inspect_args (default_parsed\<lparr>pa_command := Cmd_inspect\<rparr>) rest = Inr p \<Longrightarrow> False"
    using parse_inspect_args_command assms(2) by fastforce
  have not_version: "(if rest \<noteq> [] then Inl (''unexpected arguments after '' @ first)
      else Inr (default_parsed\<lparr>pa_command := Cmd_version\<rparr>)) = Inr p \<Longrightarrow> False"
    using assms(2) by (auto split: if_splits)
  have "first = ''run'' \<and> parse_run False rest = Inr p \<or> parse_run True (first # rest) = Inr p"
    using assms(1) not_help doctor not_inspect not_version unfolding Cons parse_arguments.simps
    by (elim if_condE [where r = "Inr p" and a = "parse_help first rest"] if_condE [where r = "Inr p" and a = "parse_run False rest"]
        if_condE [where r = "Inr p" and a = "parse_inspect_args (default_parsed\<lparr>pa_command := Cmd_inspect\<rparr>) rest"]
        if_condE [where r = "Inr p" and a = "parse_report_args _ _ rest"]
        if_condE [where r = "Inr p" and a = "if rest \<noteq> [] then _ else _"]) blast+
  then show ?thesis using Cons by blast
qed (use assms in simp)

text \<open>Appending \<open>--\<close> and a command to arguments that parse.\<close>

definition extends :: "string list \<Rightarrow> option_result \<Rightarrow> option_result \<Rightarrow> bool" where
  "extends m r1 r2 \<longleftrightarrow> (\<forall>y rest. r1 = Opt_next y rest \<longrightarrow> r2 = Opt_next y (rest @ m))"

lemma extends_intros:
  "extends m (Opt_error e) r" "extends m Opt_help r"
  "extends m (opt_flag name inline rest z) (opt_flag name inline (rest @ m) z)"
  "extends m (opt_value name inline rest assign) (opt_value name inline (rest @ m) assign)"
  "extends m a1 b1 \<Longrightarrow> extends m a2 b2 \<Longrightarrow> extends m (if c then a1 else a2) (if c then b1 else b2)"
  unfolding extends_def opt_flag_def opt_value_def
  by (auto split: option.splits list.splits sum.splits)

lemma run_option_append:
  "run_option x name inline rest = Opt_next y rest' \<Longrightarrow> run_option x name inline (rest @ m) = Opt_next y (rest' @ m)"
proof -
  have "extends m (run_option x name inline rest) (run_option x name inline (rest @ m))"
    unfolding run_option_def by (intro extends_intros)
  then show "run_option x name inline rest = Opt_next y rest' \<Longrightarrow> run_option x name inline (rest @ m) = Opt_next y (rest' @ m)"
    by (simp add: extends_def)
qed

lemma parse_run_loop_append:
  assumes "parse_run_loop implicit x args = Inr p" and "p \<noteq> help_run" and "''--'' \<notin> set args" and "cmd \<noteq> []"
    and "ro_command x = []"
  shows "parse_run_loop implicit x (args @ ''--'' # cmd) = Inr (p\<lparr>pa_run := (pa_run p)\<lparr>ro_command := cmd\<rparr>\<rparr>)"
  using assms
proof (induction implicit x args rule: parse_run_loop.induct)
  case (1 implicit x)
  then show ?case by (auto split: if_splits)
next
  case (2 implicit x tok rest)
  obtain name inline where s: "split_inline tok = (name, inline)" by fastforce
  have tok: "tok \<noteq> ''--''" using "2.prems"(3) by auto
  consider "ro_rootfs x \<noteq> [] \<or> tok = []" | "ro_rootfs x = []" "tok \<noteq> []" "hd tok \<noteq> CHR ''-''"
    | "ro_rootfs x = []" "tok \<noteq> []" "hd tok = CHR ''-''" by blast
  then show ?case
  proof cases
    case 1
    then show ?thesis using "2.prems"(1) tok by (auto split: if_splits)
  next
    case 2
    then show ?thesis using "2.IH"(1) "2.prems" tok by simp
  next
    case 3
    show ?thesis
    proof (cases "run_option x name inline rest")
      case (Opt_next y rest')
      have sub: "set rest' \<subseteq> set rest"
        using run_option_next [OF Opt_next] by (auto dest: opt_rest_subset)
      have "parse_run_loop implicit y (rest' @ ''--'' # cmd) = Inr (p\<lparr>pa_run := (pa_run p)\<lparr>ro_command := cmd\<rparr>\<rparr>)"
        using "2.IH"(2) [OF tok _ 3(2) _ s [symmetric] Opt_next] 3 tok s "2.prems" sub run_option_keep [OF Opt_next]
          Opt_next by auto
      then show ?thesis
        using 3 tok s run_option_append [OF Opt_next, of "''--'' # cmd"] by simp
    qed (use 3 s tok "2.prems" in simp_all)
  qed
qed

section \<open>Properties\<close>

text \<open>
  Options accepted for a run are well-formed and within the library's limits: a root filesystem is
  named, enumerated options have one of their values, identities are not the reserved one, the timeout
  and the event descriptor are in range, bind targets are absolute.\<close>

theorem parse_arguments_run_ok:
  assumes "parse_arguments args = Inr p" and "pa_command p = Cmd_run"
  shows "run_ok (pa_run p) \<and> ro_rootfs (pa_run p) \<noteq> [] \<and> hd (ro_rootfs (pa_run p)) \<noteq> CHR ''-''"
proof -
  note d = run_ok_default default_run_fields(1)
  have n: "p \<noteq> help_run" using assms(2) by (auto simp: help_run_def)
  obtain implicit rest where "parse_run_loop implicit default_run rest = Inr p"
    using parse_arguments_run [OF assms] unfolding parse_run_def by blast
  then show ?thesis using parse_run_loop_ok d n by blast
qed

theorem parse_arguments_run_ok_witness:
  "\<exists>p. parse_arguments [''--timeout'', ''1.5'', ''-e'', ''A=b'', ''root''] = Inr p \<and> run_ok (pa_run p)"
proof -
  let ?args = "[''--timeout'', ''1.5'', ''-e'', ''A=b'', ''root'']"
  let ?p = "default_parsed\<lparr>pa_command := Cmd_run, pa_implicit_run := True,
      pa_run := default_run\<lparr>ro_timeout_ms := Some 1500, ro_env := [''A=b''], ro_rootfs := ''root''\<rparr>\<rparr>"
  have t: "parse_timeout ''1.5'' = Some 1500"
    by (simp add: parse_timeout_def kMaxTimeoutMs_def numeral_3_eq_3)
  have "parse_arguments ?args = Inr ?p"
    by (simp add: parse_run_def split_inline_def run_option_def opt_value_def set_timeout_def t add_env_def
        default_run_def)
  then show ?thesis using parse_arguments_run_ok [of ?args ?p] by (auto simp: default_parsed_def)
qed

text \<open>
  Whatever follows \<open>--\<close> is the guest's command, byte for byte: no argument of the command is read
  as an option of phdp.\<close>

theorem run_command_verbatim:
  assumes "parse_run implicit args = Inr p" and "pa_command p = Cmd_run" and "''--'' \<notin> set args" and "cmd \<noteq> []"
  shows "parse_run implicit (args @ ''--'' # cmd) = Inr (p\<lparr>pa_run := (pa_run p)\<lparr>ro_command := cmd\<rparr>\<rparr>)"
proof -
  have "p \<noteq> help_run" using assms(2) by (auto simp: help_run_def)
  then show ?thesis
    using assms parse_run_loop_append [of implicit default_run args p cmd] default_run_fields(2)
    unfolding parse_run_def by blast
qed

theorem run_command_verbatim_witness:
  "parse_run False ([''root''] @ ''--'' # [''ls'', ''--help'', ''--'']) =
     Inr (default_parsed\<lparr>pa_command := Cmd_run,
       pa_run := default_run\<lparr>ro_rootfs := ''root'', ro_command := [''ls'', ''--help'', ''--'']\<rparr>\<rparr>)"
proof -
  let ?p = "default_parsed\<lparr>pa_command := Cmd_run, pa_run := default_run\<lparr>ro_rootfs := ''root''\<rparr>\<rparr>"
  have "parse_run False [''root''] = Inr ?p" by (simp add: parse_run_def default_run_def default_parsed_def)
  then show ?thesis
    using run_command_verbatim [of False "[''root'']" ?p "[''ls'', ''--help'', ''--'']"] by simp
qed

text \<open>
  A timeout in seconds with up to three decimals is read exactly, in milliseconds, and accepted
  exactly when it is positive and at most one leap year.\<close>

theorem parse_timeout_exact:
  assumes "sec < 10 ^ 8" and "a < 10" and "b < 10" and "c < 10"
  shows "parse_timeout (dec_string sec @ CHR ''.'' # [digit_char a, digit_char b, digit_char c]) =
    (let ms = sec * 1000 + a * 100 + b * 10 + c in if 0 < ms \<and> ms \<le> kMaxTimeoutMs then Some ms else None)"
proof -
  let ?f = "[digit_char a, digit_char b, digit_char c]"
  let ?s = "dec_string sec @ CHR ''.'' # ?f"
  have no_dot: "CHR ''.'' \<notin> set (dec_string sec)" using dec_string_all_digits [of sec] by fastforce
  have "find_char (CHR ''.'') (xs @ CHR ''.'' # ys) = Some (length xs)" if "CHR ''.'' \<notin> set xs" for xs ys
    using that by (induction xs) auto
  then have dot: "find_char (CHR ''.'') ?s = Some (length (dec_string sec))" using no_dot by blast
  have len: "length (dec_string sec) \<le> 8" using dec_string_length [of sec 8] assms(1) by simp
  have frac: "frac_loop 3 0 ?f = Some (a * 100 + b * 10 + c)"
    using assms(2-4) by (simp add: numeral_3_eq_3 digit_char_byte)
  have w: "take (length (dec_string sec)) ?s = dec_string sec" "drop (length (dec_string sec) + 1) ?s = ?f" by simp_all
  show ?thesis
    unfolding parse_timeout_def dot Let_def option.case w digits_loop_dec frac
    using len by (simp add: add.assoc)
qed

theorem parse_timeout_exact_witness:
  "parse_timeout (dec_string 90 @ CHR ''.'' # [digit_char 2, digit_char 5, digit_char 0]) = Some 90250"
  using parse_timeout_exact [of 90 2 5 0] by (simp add: kMaxTimeoutMs_def)

end
