(* ===== verification/Syscall_Table.thy ===== *)
theory Syscall_Table
  imports Prelude
begin

text \<open>
  The system call classification table (\<open>src/src/linux_abi/syscall_table.cpp\<close> and the entries of
  \<open>syscalls.def\<close>).  The numbers come from the target's \<open>asm/unistd.h\<close>, a parameter \<open>nr_of\<close> that
  gives the number of a name when the header defines it; an entry without a number is skipped by
  the preprocessor.
\<close>

datatype syscall_class = Cls_pass_through | Cls_translated | Cls_emulated | Cls_denied | Cls_unsupported

datatype (plugins only:) handler =
     H_none | H_open | H_openat | H_creat | H_stat | H_lstat | H_newfstatat | H_statx | H_access
    | H_faccessat | H_faccessat2 | H_readlink | H_readlinkat | H_chdir | H_getcwd | H_mkdir
    | H_mkdirat | H_mknod | H_mknodat | H_rmdir | H_unlink | H_unlinkat | H_rename | H_renameat
    | H_renameat2 | H_link | H_linkat | H_symlink | H_symlinkat | H_chmod | H_fchmodat
    | H_fchmodat2 | H_chown | H_lchown | H_fchownat | H_utime | H_utimes | H_futimesat
    | H_utimensat | H_truncate | H_statfs | H_xattr_get | H_xattr_lget | H_xattr_set
    | H_xattr_lset | H_inotify_add_watch | H_fanotify_mark | H_execve | H_execveat
    | H_fd_meta_write | H_fchown_fd | H_socket | H_connect | H_bind | H_sendto | H_sendmsg
    | H_sendmmsg | H_clone | H_kill | H_tkill | H_tgkill | H_sigqueue | H_tgsigqueue
    | H_pidfd_open | H_getuid | H_geteuid | H_getgid | H_getegid | H_getresuid | H_getresgid
    | H_setid | H_deny_eperm | H_deny_enosys | H_deny_eopnotsupp | H_deny_eacces

record syscall_info =
  si_nr :: int
  si_name :: string
  si_cls :: syscall_class
  si_handler :: handler

section \<open>The entries of \<open>syscalls.def\<close>\<close>

type_synonym syscall_entry = "string \<times> syscall_class \<times> handler"

definition syscalls_def_1 :: "syscall_entry list" where
  "syscalls_def_1 =
     [(''_sysctl'', Cls_denied, H_deny_enosys),
      (''accept'', Cls_pass_through, H_none),
      (''accept4'', Cls_pass_through, H_none),
      (''access'', Cls_translated, H_access),
      (''acct'', Cls_denied, H_deny_eperm),
      (''add_key'', Cls_pass_through, H_none),
      (''adjtimex'', Cls_pass_through, H_none),
      (''afs_syscall'', Cls_denied, H_deny_enosys),
      (''alarm'', Cls_pass_through, H_none),
      (''arch_prctl'', Cls_pass_through, H_none),
      (''bind'', Cls_translated, H_bind),
      (''bpf'', Cls_denied, H_deny_eperm),
      (''brk'', Cls_pass_through, H_none),
      (''cachestat'', Cls_pass_through, H_none),
      (''capget'', Cls_pass_through, H_none),
      (''capset'', Cls_pass_through, H_none),
      (''chdir'', Cls_translated, H_chdir),
      (''chmod'', Cls_translated, H_chmod),
      (''chown'', Cls_translated, H_chown),
      (''chroot'', Cls_unsupported, H_deny_eperm),
      (''clock_adjtime'', Cls_pass_through, H_none),
      (''clock_getres'', Cls_pass_through, H_none),
      (''clock_gettime'', Cls_pass_through, H_none),
      (''clock_nanosleep'', Cls_pass_through, H_none),
      (''clock_settime'', Cls_pass_through, H_none),
      (''clone'', Cls_translated, H_clone),
      (''clone3'', Cls_denied, H_deny_enosys),
      (''close'', Cls_pass_through, H_none),
      (''close_range'', Cls_pass_through, H_none),
      (''connect'', Cls_translated, H_connect),
      (''copy_file_range'', Cls_pass_through, H_none),
      (''creat'', Cls_translated, H_creat),
      (''create_module'', Cls_denied, H_deny_enosys),
      (''delete_module'', Cls_denied, H_deny_eperm),
      (''dup'', Cls_pass_through, H_none),
      (''dup2'', Cls_pass_through, H_none),
      (''dup3'', Cls_pass_through, H_none),
      (''epoll_create'', Cls_pass_through, H_none),
      (''epoll_create1'', Cls_pass_through, H_none),
      (''epoll_ctl'', Cls_pass_through, H_none),
      (''epoll_ctl_old'', Cls_denied, H_deny_enosys),
      (''epoll_pwait'', Cls_pass_through, H_none),
      (''epoll_pwait2'', Cls_pass_through, H_none),
      (''epoll_wait'', Cls_pass_through, H_none),
      (''epoll_wait_old'', Cls_denied, H_deny_enosys),
      (''eventfd'', Cls_pass_through, H_none),
      (''eventfd2'', Cls_pass_through, H_none),
      (''execve'', Cls_translated, H_execve),
      (''execveat'', Cls_translated, H_execveat),
      (''exit'', Cls_pass_through, H_none),
      (''exit_group'', Cls_pass_through, H_none),
      (''faccessat'', Cls_translated, H_faccessat),
      (''faccessat2'', Cls_translated, H_faccessat2),
      (''fadvise64'', Cls_pass_through, H_none),
      (''fallocate'', Cls_pass_through, H_none),
      (''fanotify_init'', Cls_pass_through, H_none),
      (''fanotify_mark'', Cls_translated, H_fanotify_mark),
      (''fchdir'', Cls_pass_through, H_none),
      (''fchmod'', Cls_translated, H_fd_meta_write),
      (''fchmodat'', Cls_translated, H_fchmodat),
      (''fchmodat2'', Cls_translated, H_fchmodat2),
      (''fchown'', Cls_translated, H_fchown_fd),
      (''fchownat'', Cls_translated, H_fchownat),
      (''fcntl'', Cls_pass_through, H_none),
      (''fdatasync'', Cls_pass_through, H_none),
      (''fgetxattr'', Cls_pass_through, H_none),
      (''finit_module'', Cls_denied, H_deny_eperm),
      (''flistxattr'', Cls_pass_through, H_none),
      (''flock'', Cls_pass_through, H_none),
      (''fork'', Cls_pass_through, H_none),
      (''fremovexattr'', Cls_translated, H_fd_meta_write),
      (''fsconfig'', Cls_denied, H_deny_eperm),
      (''fsetxattr'', Cls_translated, H_fd_meta_write),
      (''fsmount'', Cls_denied, H_deny_eperm),
      (''fsopen'', Cls_denied, H_deny_eperm)]"

definition syscalls_def_2 :: "syscall_entry list" where
  "syscalls_def_2 =
     [(''fspick'', Cls_denied, H_deny_eperm),
      (''fstat'', Cls_pass_through, H_none),
      (''fstatfs'', Cls_pass_through, H_none),
      (''fsync'', Cls_pass_through, H_none),
      (''ftruncate'', Cls_pass_through, H_none),
      (''futex'', Cls_pass_through, H_none),
      (''futex_requeue'', Cls_pass_through, H_none),
      (''futex_wait'', Cls_pass_through, H_none),
      (''futex_waitv'', Cls_pass_through, H_none),
      (''futex_wake'', Cls_pass_through, H_none),
      (''futimesat'', Cls_translated, H_futimesat),
      (''get_kernel_syms'', Cls_denied, H_deny_enosys),
      (''get_mempolicy'', Cls_pass_through, H_none),
      (''get_robust_list'', Cls_pass_through, H_none),
      (''get_thread_area'', Cls_pass_through, H_none),
      (''getcpu'', Cls_pass_through, H_none),
      (''getcwd'', Cls_translated, H_getcwd),
      (''getdents'', Cls_pass_through, H_none),
      (''getdents64'', Cls_pass_through, H_none),
      (''getegid'', Cls_emulated, H_getegid),
      (''geteuid'', Cls_emulated, H_geteuid),
      (''getgid'', Cls_emulated, H_getgid),
      (''getgroups'', Cls_pass_through, H_none),
      (''getitimer'', Cls_pass_through, H_none),
      (''getpeername'', Cls_pass_through, H_none),
      (''getpgid'', Cls_pass_through, H_none),
      (''getpgrp'', Cls_pass_through, H_none),
      (''getpid'', Cls_pass_through, H_none),
      (''getpmsg'', Cls_denied, H_deny_enosys),
      (''getppid'', Cls_pass_through, H_none),
      (''getpriority'', Cls_pass_through, H_none),
      (''getrandom'', Cls_pass_through, H_none),
      (''getresgid'', Cls_emulated, H_getresgid),
      (''getresuid'', Cls_emulated, H_getresuid),
      (''getrlimit'', Cls_pass_through, H_none),
      (''getrusage'', Cls_pass_through, H_none),
      (''getsid'', Cls_pass_through, H_none),
      (''getsockname'', Cls_pass_through, H_none),
      (''getsockopt'', Cls_pass_through, H_none),
      (''gettid'', Cls_pass_through, H_none),
      (''gettimeofday'', Cls_pass_through, H_none),
      (''getuid'', Cls_emulated, H_getuid),
      (''getxattr'', Cls_translated, H_xattr_get),
      (''init_module'', Cls_denied, H_deny_eperm),
      (''inotify_add_watch'', Cls_translated, H_inotify_add_watch),
      (''inotify_init'', Cls_pass_through, H_none),
      (''inotify_init1'', Cls_pass_through, H_none),
      (''inotify_rm_watch'', Cls_pass_through, H_none),
      (''io_cancel'', Cls_pass_through, H_none),
      (''io_destroy'', Cls_pass_through, H_none),
      (''io_getevents'', Cls_pass_through, H_none),
      (''io_pgetevents'', Cls_pass_through, H_none),
      (''io_setup'', Cls_pass_through, H_none),
      (''io_submit'', Cls_pass_through, H_none),
      (''io_uring_enter'', Cls_denied, H_deny_enosys),
      (''io_uring_register'', Cls_denied, H_deny_enosys),
      (''io_uring_setup'', Cls_denied, H_deny_enosys),
      (''ioctl'', Cls_pass_through, H_none),
      (''ioperm'', Cls_denied, H_deny_eperm),
      (''iopl'', Cls_denied, H_deny_eperm),
      (''ioprio_get'', Cls_pass_through, H_none),
      (''ioprio_set'', Cls_pass_through, H_none),
      (''kcmp'', Cls_pass_through, H_none),
      (''kexec_file_load'', Cls_denied, H_deny_eperm),
      (''kexec_load'', Cls_denied, H_deny_eperm),
      (''keyctl'', Cls_pass_through, H_none),
      (''kill'', Cls_translated, H_kill),
      (''landlock_add_rule'', Cls_pass_through, H_none),
      (''landlock_create_ruleset'', Cls_pass_through, H_none),
      (''landlock_restrict_self'', Cls_pass_through, H_none),
      (''lchown'', Cls_translated, H_lchown),
      (''lgetxattr'', Cls_translated, H_xattr_lget),
      (''link'', Cls_translated, H_link),
      (''linkat'', Cls_translated, H_linkat),
      (''listen'', Cls_pass_through, H_none)]"

definition syscalls_def_3 :: "syscall_entry list" where
  "syscalls_def_3 =
     [(''listmount'', Cls_pass_through, H_none),
      (''listxattr'', Cls_translated, H_xattr_get),
      (''llistxattr'', Cls_translated, H_xattr_lget),
      (''lookup_dcookie'', Cls_denied, H_deny_enosys),
      (''lremovexattr'', Cls_translated, H_xattr_lset),
      (''lseek'', Cls_pass_through, H_none),
      (''lsetxattr'', Cls_translated, H_xattr_lset),
      (''lsm_get_self_attr'', Cls_pass_through, H_none),
      (''lsm_list_modules'', Cls_pass_through, H_none),
      (''lsm_set_self_attr'', Cls_pass_through, H_none),
      (''lstat'', Cls_translated, H_lstat),
      (''madvise'', Cls_pass_through, H_none),
      (''map_shadow_stack'', Cls_pass_through, H_none),
      (''mbind'', Cls_pass_through, H_none),
      (''membarrier'', Cls_pass_through, H_none),
      (''memfd_create'', Cls_pass_through, H_none),
      (''memfd_secret'', Cls_pass_through, H_none),
      (''migrate_pages'', Cls_pass_through, H_none),
      (''mincore'', Cls_pass_through, H_none),
      (''mkdir'', Cls_translated, H_mkdir),
      (''mkdirat'', Cls_translated, H_mkdirat),
      (''mknod'', Cls_translated, H_mknod),
      (''mknodat'', Cls_translated, H_mknodat),
      (''mlock'', Cls_pass_through, H_none),
      (''mlock2'', Cls_pass_through, H_none),
      (''mlockall'', Cls_pass_through, H_none),
      (''mmap'', Cls_pass_through, H_none),
      (''modify_ldt'', Cls_pass_through, H_none),
      (''mount'', Cls_denied, H_deny_eperm),
      (''mount_setattr'', Cls_denied, H_deny_eperm),
      (''move_mount'', Cls_denied, H_deny_eperm),
      (''move_pages'', Cls_pass_through, H_none),
      (''mprotect'', Cls_pass_through, H_none),
      (''mq_getsetattr'', Cls_pass_through, H_none),
      (''mq_notify'', Cls_pass_through, H_none),
      (''mq_open'', Cls_pass_through, H_none),
      (''mq_timedreceive'', Cls_pass_through, H_none),
      (''mq_timedsend'', Cls_pass_through, H_none),
      (''mq_unlink'', Cls_pass_through, H_none),
      (''mremap'', Cls_pass_through, H_none),
      (''mseal'', Cls_pass_through, H_none),
      (''msgctl'', Cls_pass_through, H_none),
      (''msgget'', Cls_pass_through, H_none),
      (''msgrcv'', Cls_pass_through, H_none),
      (''msgsnd'', Cls_pass_through, H_none),
      (''msync'', Cls_pass_through, H_none),
      (''munlock'', Cls_pass_through, H_none),
      (''munlockall'', Cls_pass_through, H_none),
      (''munmap'', Cls_pass_through, H_none),
      (''name_to_handle_at'', Cls_unsupported, H_deny_eopnotsupp),
      (''nanosleep'', Cls_pass_through, H_none),
      (''newfstatat'', Cls_translated, H_newfstatat),
      (''nfsservctl'', Cls_denied, H_deny_enosys),
      (''open'', Cls_translated, H_open),
      (''open_by_handle_at'', Cls_denied, H_deny_eperm),
      (''open_tree'', Cls_denied, H_deny_eperm),
      (''openat'', Cls_translated, H_openat),
      (''openat2'', Cls_unsupported, H_deny_enosys),
      (''pause'', Cls_pass_through, H_none),
      (''perf_event_open'', Cls_denied, H_deny_eacces),
      (''personality'', Cls_pass_through, H_none),
      (''pidfd_getfd'', Cls_denied, H_deny_eperm),
      (''pidfd_open'', Cls_translated, H_pidfd_open),
      (''pidfd_send_signal'', Cls_pass_through, H_none),
      (''pipe'', Cls_pass_through, H_none),
      (''pipe2'', Cls_pass_through, H_none),
      (''pivot_root'', Cls_denied, H_deny_eperm),
      (''pkey_alloc'', Cls_pass_through, H_none),
      (''pkey_free'', Cls_pass_through, H_none),
      (''pkey_mprotect'', Cls_pass_through, H_none),
      (''poll'', Cls_pass_through, H_none),
      (''ppoll'', Cls_pass_through, H_none),
      (''prctl'', Cls_pass_through, H_none),
      (''pread64'', Cls_pass_through, H_none),
      (''preadv'', Cls_pass_through, H_none)]"

definition syscalls_def_4 :: "syscall_entry list" where
  "syscalls_def_4 =
     [(''preadv2'', Cls_pass_through, H_none),
      (''prlimit64'', Cls_pass_through, H_none),
      (''process_madvise'', Cls_pass_through, H_none),
      (''process_mrelease'', Cls_pass_through, H_none),
      (''process_vm_readv'', Cls_pass_through, H_none),
      (''process_vm_writev'', Cls_pass_through, H_none),
      (''pselect6'', Cls_pass_through, H_none),
      (''ptrace'', Cls_unsupported, H_deny_eperm),
      (''putpmsg'', Cls_denied, H_deny_enosys),
      (''pwrite64'', Cls_pass_through, H_none),
      (''pwritev'', Cls_pass_through, H_none),
      (''pwritev2'', Cls_pass_through, H_none),
      (''query_module'', Cls_denied, H_deny_enosys),
      (''quotactl'', Cls_denied, H_deny_eperm),
      (''quotactl_fd'', Cls_denied, H_deny_eperm),
      (''read'', Cls_pass_through, H_none),
      (''readahead'', Cls_pass_through, H_none),
      (''readlink'', Cls_translated, H_readlink),
      (''readlinkat'', Cls_translated, H_readlinkat),
      (''readv'', Cls_pass_through, H_none),
      (''reboot'', Cls_denied, H_deny_eperm),
      (''recvfrom'', Cls_pass_through, H_none),
      (''recvmmsg'', Cls_pass_through, H_none),
      (''recvmsg'', Cls_pass_through, H_none),
      (''remap_file_pages'', Cls_pass_through, H_none),
      (''removexattr'', Cls_translated, H_xattr_set),
      (''rename'', Cls_translated, H_rename),
      (''renameat'', Cls_translated, H_renameat),
      (''renameat2'', Cls_translated, H_renameat2),
      (''request_key'', Cls_pass_through, H_none),
      (''restart_syscall'', Cls_pass_through, H_none),
      (''rmdir'', Cls_translated, H_rmdir),
      (''rseq'', Cls_pass_through, H_none),
      (''rt_sigaction'', Cls_pass_through, H_none),
      (''rt_sigpending'', Cls_pass_through, H_none),
      (''rt_sigprocmask'', Cls_pass_through, H_none),
      (''rt_sigqueueinfo'', Cls_translated, H_sigqueue),
      (''rt_sigreturn'', Cls_pass_through, H_none),
      (''rt_sigsuspend'', Cls_pass_through, H_none),
      (''rt_sigtimedwait'', Cls_pass_through, H_none),
      (''rt_tgsigqueueinfo'', Cls_translated, H_tgsigqueue),
      (''sched_get_priority_max'', Cls_pass_through, H_none),
      (''sched_get_priority_min'', Cls_pass_through, H_none),
      (''sched_getaffinity'', Cls_pass_through, H_none),
      (''sched_getattr'', Cls_pass_through, H_none),
      (''sched_getparam'', Cls_pass_through, H_none),
      (''sched_getscheduler'', Cls_pass_through, H_none),
      (''sched_rr_get_interval'', Cls_pass_through, H_none),
      (''sched_setaffinity'', Cls_pass_through, H_none),
      (''sched_setattr'', Cls_pass_through, H_none),
      (''sched_setparam'', Cls_pass_through, H_none),
      (''sched_setscheduler'', Cls_pass_through, H_none),
      (''sched_yield'', Cls_pass_through, H_none),
      (''seccomp'', Cls_pass_through, H_none),
      (''security'', Cls_denied, H_deny_enosys),
      (''select'', Cls_pass_through, H_none),
      (''semctl'', Cls_pass_through, H_none),
      (''semget'', Cls_pass_through, H_none),
      (''semop'', Cls_pass_through, H_none),
      (''semtimedop'', Cls_pass_through, H_none),
      (''sendfile'', Cls_pass_through, H_none),
      (''sendmmsg'', Cls_translated, H_sendmmsg),
      (''sendmsg'', Cls_translated, H_sendmsg),
      (''sendto'', Cls_translated, H_sendto),
      (''set_mempolicy'', Cls_pass_through, H_none),
      (''set_mempolicy_home_node'', Cls_pass_through, H_none),
      (''set_robust_list'', Cls_pass_through, H_none),
      (''set_thread_area'', Cls_pass_through, H_none),
      (''set_tid_address'', Cls_pass_through, H_none),
      (''setdomainname'', Cls_denied, H_deny_eperm),
      (''setfsgid'', Cls_emulated, H_setid),
      (''setfsuid'', Cls_emulated, H_setid),
      (''setgid'', Cls_emulated, H_setid),
      (''setgroups'', Cls_emulated, H_setid),
      (''sethostname'', Cls_denied, H_deny_eperm)]"

definition syscalls_def_5 :: "syscall_entry list" where
  "syscalls_def_5 =
     [(''setitimer'', Cls_pass_through, H_none),
      (''setns'', Cls_denied, H_deny_eperm),
      (''setpgid'', Cls_pass_through, H_none),
      (''setpriority'', Cls_pass_through, H_none),
      (''setregid'', Cls_emulated, H_setid),
      (''setresgid'', Cls_emulated, H_setid),
      (''setresuid'', Cls_emulated, H_setid),
      (''setreuid'', Cls_emulated, H_setid),
      (''setrlimit'', Cls_pass_through, H_none),
      (''setsid'', Cls_pass_through, H_none),
      (''setsockopt'', Cls_pass_through, H_none),
      (''settimeofday'', Cls_pass_through, H_none),
      (''setuid'', Cls_emulated, H_setid),
      (''setxattr'', Cls_translated, H_xattr_set),
      (''shmat'', Cls_pass_through, H_none),
      (''shmctl'', Cls_pass_through, H_none),
      (''shmdt'', Cls_pass_through, H_none),
      (''shmget'', Cls_pass_through, H_none),
      (''shutdown'', Cls_pass_through, H_none),
      (''sigaltstack'', Cls_pass_through, H_none),
      (''signalfd'', Cls_pass_through, H_none),
      (''signalfd4'', Cls_pass_through, H_none),
      (''socket'', Cls_translated, H_socket),
      (''socketpair'', Cls_pass_through, H_none),
      (''splice'', Cls_pass_through, H_none),
      (''stat'', Cls_translated, H_stat),
      (''statfs'', Cls_translated, H_statfs),
      (''statmount'', Cls_pass_through, H_none),
      (''statx'', Cls_translated, H_statx),
      (''swapoff'', Cls_denied, H_deny_eperm),
      (''swapon'', Cls_denied, H_deny_eperm),
      (''symlink'', Cls_translated, H_symlink),
      (''symlinkat'', Cls_translated, H_symlinkat),
      (''sync'', Cls_pass_through, H_none),
      (''sync_file_range'', Cls_pass_through, H_none),
      (''syncfs'', Cls_pass_through, H_none),
      (''sysfs'', Cls_pass_through, H_none),
      (''sysinfo'', Cls_pass_through, H_none),
      (''syslog'', Cls_pass_through, H_none),
      (''tee'', Cls_pass_through, H_none),
      (''tgkill'', Cls_translated, H_tgkill),
      (''time'', Cls_pass_through, H_none),
      (''timer_create'', Cls_pass_through, H_none),
      (''timer_delete'', Cls_pass_through, H_none),
      (''timer_getoverrun'', Cls_pass_through, H_none),
      (''timer_gettime'', Cls_pass_through, H_none),
      (''timer_settime'', Cls_pass_through, H_none),
      (''timerfd_create'', Cls_pass_through, H_none),
      (''timerfd_gettime'', Cls_pass_through, H_none),
      (''timerfd_settime'', Cls_pass_through, H_none),
      (''times'', Cls_pass_through, H_none),
      (''tkill'', Cls_translated, H_tkill),
      (''truncate'', Cls_translated, H_truncate),
      (''tuxcall'', Cls_denied, H_deny_enosys),
      (''umask'', Cls_pass_through, H_none),
      (''umount2'', Cls_denied, H_deny_eperm),
      (''uname'', Cls_pass_through, H_none),
      (''unlink'', Cls_translated, H_unlink),
      (''unlinkat'', Cls_translated, H_unlinkat),
      (''unshare'', Cls_denied, H_deny_eperm),
      (''uretprobe'', Cls_pass_through, H_none),
      (''uselib'', Cls_unsupported, H_deny_enosys),
      (''userfaultfd'', Cls_pass_through, H_none),
      (''ustat'', Cls_pass_through, H_none),
      (''utime'', Cls_translated, H_utime),
      (''utimensat'', Cls_translated, H_utimensat),
      (''utimes'', Cls_translated, H_utimes),
      (''vfork'', Cls_pass_through, H_none),
      (''vhangup'', Cls_pass_through, H_none),
      (''vmsplice'', Cls_pass_through, H_none),
      (''vserver'', Cls_denied, H_deny_enosys),
      (''wait4'', Cls_pass_through, H_none),
      (''waitid'', Cls_pass_through, H_none),
      (''write'', Cls_pass_through, H_none),
      (''writev'', Cls_pass_through, H_none)]"

definition syscalls_def :: "syscall_entry list" where
  "syscalls_def = syscalls_def_1 @ syscalls_def_2 @ syscalls_def_3 @ syscalls_def_4 @ syscalls_def_5"

section \<open>Table and lookup\<close>

definition kTable :: "(string \<Rightarrow> int option) \<Rightarrow> syscall_info list" where
  "kTable nr_of =
     concat (map (\<lambda>(name, cls, hd). case nr_of name of
               None \<Rightarrow> []
             | Some nr \<Rightarrow> [\<lparr>si_nr = nr, si_name = name, si_cls = cls, si_handler = hd\<rparr>]) syscalls_def)"

definition kMaxNr :: nat where "kMaxNr = 1024"

text \<open>\<open>build_index\<close>: position of the last entry of each number, \<open>-1\<close> where there is none.\<close>

definition index_entry :: "syscall_info list \<Rightarrow> int list \<Rightarrow> nat \<Rightarrow> int list" where
  "index_entry table idx i =
     (let nr = si_nr (table ! i)
      in if 0 \<le> nr \<and> nr < int kMaxNr then idx[nat nr := int i] else idx)"

definition build_index :: "syscall_info list \<Rightarrow> int list" where
  "build_index table = foldl (index_entry table) (replicate kMaxNr (- 1)) [0..<length table]"

definition lookup_syscall :: "syscall_info list \<Rightarrow> int \<Rightarrow> syscall_info option" where
  "lookup_syscall table nr =
     (if nr < 0 \<or> nr \<ge> int kMaxNr then None
      else let i = build_index table ! nat nr
           in if i < 0 then None else Some (table ! nat i))"

definition class_name :: "syscall_class \<Rightarrow> string" where
  "class_name c =
     (case c of
        Cls_pass_through \<Rightarrow> ''pass-through''
      | Cls_translated \<Rightarrow> ''translated''
      | Cls_emulated \<Rightarrow> ''emulated''
      | Cls_denied \<Rightarrow> ''denied''
      | Cls_unsupported \<Rightarrow> ''unsupported'')"

fun lookup_nr :: "syscall_info list \<Rightarrow> string \<Rightarrow> int" where
  "lookup_nr [] name = - 1"
| "lookup_nr (e # es) name = (if name = si_name e then si_nr e else lookup_nr es name)"

section \<open>Lookup finds the last entry of a number\<close>

definition index_ok :: "syscall_info list \<Rightarrow> nat \<Rightarrow> int list \<Rightarrow> bool" where
  "index_ok table n idx \<longleftrightarrow>
     length idx = kMaxNr \<and>
     (\<forall>nr < kMaxNr. if idx ! nr < 0 then (\<forall>i < n. si_nr (table ! i) \<noteq> int nr)
        else nat (idx ! nr) < n \<and> si_nr (table ! nat (idx ! nr)) = int nr \<and>
             (\<forall>i < n. nat (idx ! nr) < i \<longrightarrow> si_nr (table ! i) \<noteq> int nr))"

lemma index_ok_step:
  assumes "index_ok table n idx"
  shows "index_ok table (Suc n) (index_entry table idx n)"
proof -
  have len: "length idx = kMaxNr" using assms by (simp add: index_ok_def)
  have "if index_entry table idx n ! nr < 0 then (\<forall>i < Suc n. si_nr (table ! i) \<noteq> int nr)
        else nat (index_entry table idx n ! nr) < Suc n \<and> si_nr (table ! nat (index_entry table idx n ! nr)) = int nr \<and>
             (\<forall>i < Suc n. nat (index_entry table idx n ! nr) < i \<longrightarrow> si_nr (table ! i) \<noteq> int nr)"
    if nr: "nr < kMaxNr" for nr
  proof (cases "si_nr (table ! n) = int nr")
    case True
    then have "index_entry table idx n ! nr = int n" using nr len by (simp add: index_entry_def Let_def)
    then show ?thesis using True by auto
  next
    case False
    then have "index_entry table idx n ! nr = idx ! nr"
      using len by (auto simp: index_entry_def Let_def nth_list_update)
    then show ?thesis using assms nr False by (auto simp: index_ok_def less_Suc_eq)
  qed
  then show ?thesis using len by (simp add: index_ok_def) (auto simp: index_entry_def Let_def)
qed

lemma build_index_ok: "index_ok table (length table) (build_index table)"
proof -
  have "index_ok table n (foldl (index_entry table) (replicate kMaxNr (- 1)) [0..<n])" for n
  proof (induction n)
    case 0
    then show ?case by (simp add: index_ok_def)
  next
    case (Suc n)
    then show ?case using index_ok_step by simp
  qed
  then show ?thesis by (simp add: build_index_def)
qed

lemma lookup_syscall_Some:
  assumes "lookup_syscall table nr = Some e"
  shows "e \<in> set table" "si_nr e = nr" "0 \<le> nr" "nr < int kMaxNr"
proof -
  have c: "0 \<le> nr" "nr < int kMaxNr" "\<not> build_index table ! nat nr < 0" "e = table ! nat (build_index table ! nat nr)"
    using assms by (auto simp: lookup_syscall_def Let_def split: if_splits)
  have "nat nr < kMaxNr" using c(1,2) by linarith
  then have "nat (build_index table ! nat nr) < length table" "si_nr (table ! nat (build_index table ! nat nr)) = int (nat nr)"
    using build_index_ok [of table] c(3) unfolding index_ok_def by (meson)+
  then show "e \<in> set table" "si_nr e = nr" "0 \<le> nr" "nr < int kMaxNr" using c by auto
qed

lemma lookup_syscall_None:
  assumes "lookup_syscall table nr = None" and "0 \<le> nr" and "nr < int kMaxNr"
  shows "\<forall>e \<in> set table. si_nr e \<noteq> nr"
proof -
  have "nat nr < kMaxNr" "build_index table ! nat nr < 0"
    using assms by (auto simp: lookup_syscall_def Let_def split: if_splits)
  then have "\<forall>i < length table. si_nr (table ! i) \<noteq> int (nat nr)"
    using build_index_ok [of table] unfolding index_ok_def by meson
  then show ?thesis using assms(2) by (auto simp: in_set_conv_nth)
qed

lemma lookup_syscall_distinct:
  assumes "distinct (map si_nr table)" and "e \<in> set table" and "0 \<le> si_nr e" and "si_nr e < int kMaxNr"
  shows "lookup_syscall table (si_nr e) = Some e"
proof (cases "lookup_syscall table (si_nr e)")
  case None
  then show ?thesis using lookup_syscall_None assms(2-4) by blast
next
  case (Some e')
  then have "e' \<in> set table" "si_nr e' = si_nr e" using lookup_syscall_Some by auto
  then show ?thesis using Some assms(1,2) by (metis distinct_map inj_onD)
qed

lemma kTable_entry:
  "e \<in> set (kTable nr_of) \<longleftrightarrow>
     nr_of (si_name e) = Some (si_nr e) \<and> (si_name e, si_cls e, si_handler e) \<in> set syscalls_def"
  by (cases e) (force simp: kTable_def split: option.splits)

section \<open>The policy of the table\<close>

definition denies :: "handler \<Rightarrow> bool" where
  "denies h \<longleftrightarrow> h \<in> {H_deny_eperm, H_deny_enosys, H_deny_eopnotsupp, H_deny_eacces}"

definition identity_handler :: "handler \<Rightarrow> bool" where
  "identity_handler h \<longleftrightarrow>
     h \<in> {H_getuid, H_geteuid, H_getgid, H_getegid, H_getresuid, H_getresgid, H_setid}"

definition entry_consistent :: "syscall_entry \<Rightarrow> bool" where
  "entry_consistent x =
     (case x of (name, cls, h) \<Rightarrow>
        (cls = Cls_pass_through \<longleftrightarrow> h = H_none) \<and>
        (cls = Cls_denied \<or> cls = Cls_unsupported \<longleftrightarrow> denies h) \<and>
        (cls = Cls_emulated \<longleftrightarrow> identity_handler h))"

lemma syscalls_def_consistent: "list_all entry_consistent syscalls_def"
  by (simp add: syscalls_def_def syscalls_def_1_def syscalls_def_2_def syscalls_def_3_def
      syscalls_def_4_def syscalls_def_5_def entry_consistent_def denies_def identity_handler_def)

lemma kTable_consistent:
  "e \<in> set (kTable nr_of) \<Longrightarrow> entry_consistent (si_name e, si_cls e, si_handler e)"
  using syscalls_def_consistent by (auto simp: kTable_entry list_all_iff)

end
