(* ===== verification/Tracee_Mem.thy ===== *)
theory Tracee_Mem
  imports Prelude "HOL-Library.Word"
begin

unbundle bit_operations_syntax

text \<open>
  Access to the memory of a traced task (\<open>src/src/engines/rootless/tracee_mem.cpp\<close>) and the scratch
  space below its stack pointer (\<open>StackWriter\<close> of \<open>supervisor.cpp\<close>).  The kernel calls are a
  parameter, the record \<open>mem_host\<close>; what the sources rely on is stated by \<open>mem_reads\<close>,
  \<open>mem_writes\<close> and \<open>mem_mapped\<close> over a view of the task's bytes.  Calls interrupted by a signal
  are repeated by the source, so a field of \<open>mem_host\<close> is the outcome of the call that was not
  interrupted.
\<close>

section \<open>Operations\<close>

record 'm mem_host =
  mh_sysconf_page :: int
  mh_readv :: "int \<Rightarrow> 'm \<Rightarrow> 64 word \<Rightarrow> nat \<Rightarrow> errno + string"
  mh_writev :: "int \<Rightarrow> 'm \<Rightarrow> 64 word \<Rightarrow> string \<Rightarrow> (errno + nat) \<times> 'm"
  mh_open :: "string \<Rightarrow> 'm \<Rightarrow> bool \<Rightarrow> errno option"
  mh_pread :: "int \<Rightarrow> 'm \<Rightarrow> 64 word \<Rightarrow> nat \<Rightarrow> errno + string"
  mh_pwrite :: "int \<Rightarrow> 'm \<Rightarrow> 64 word \<Rightarrow> string \<Rightarrow> (errno + nat) \<times> 'm"

definition page_size :: "'m mem_host \<Rightarrow> nat" where
  "page_size mh = (let p = mh_sysconf_page mh in if p > 0 then nat p else 4096)"

definition proc_mem_path :: "int \<Rightarrow> string" where
  "proc_mem_path tid = ''/proc/'' @ int_string tid @ ''/mem''"

text \<open>The transfer loop of \<open>proc_mem_io\<close>, once per direction.\<close>

function proc_read_loop ::
  "'m mem_host \<Rightarrow> int \<Rightarrow> 'm \<Rightarrow> 64 word \<Rightarrow> nat \<Rightarrow> string \<Rightarrow> errno + string" where
  "proc_read_loop mh tid m addr len out =
     (if length out \<ge> len then Inr out
      else case mh_pread mh tid m (addr + of_nat (length out)) (len - length out) of
          Inl e \<Rightarrow> Inl (if e = EIO then EFAULT else e)
        | Inr s \<Rightarrow> if s = [] then Inl EFAULT else proc_read_loop mh tid m addr len (out @ s))"
  by pat_completeness auto
termination
  by (relation "measure (\<lambda>(mh, tid, m, addr, len, out). len - length out)")
    (auto simp: neq_Nil_conv)

function proc_write_loop ::
  "'m mem_host \<Rightarrow> int \<Rightarrow> 'm \<Rightarrow> 64 word \<Rightarrow> string \<Rightarrow> nat \<Rightarrow> errno \<times> 'm" where
  "proc_write_loop mh tid m addr data k =
     (if k \<ge> length data then (0, m)
      else case mh_pwrite mh tid m (addr + of_nat k) (drop k data) of
          (Inl e, m') \<Rightarrow> (if e = EIO then EFAULT else e, m')
        | (Inr r, m') \<Rightarrow> if r = 0 then (EFAULT, m') else proc_write_loop mh tid m' addr data (k + r))"
  by pat_completeness auto
termination
  by (relation "measure (\<lambda>(mh, tid, m, addr, data, k). length data - k)") auto

declare proc_read_loop.simps [simp del] proc_write_loop.simps [simp del]

definition open_error :: "errno \<Rightarrow> errno" where
  "open_error e = (if e = ENOENT then ESRCH else e)"

definition proc_mem_read :: "'m mem_host \<Rightarrow> int \<Rightarrow> 'm \<Rightarrow> 64 word \<Rightarrow> nat \<Rightarrow> errno + string" where
  "proc_mem_read mh tid m addr len =
     (if length (proc_mem_path tid) \<ge> 64 then Inl EINVAL
      else case mh_open mh (proc_mem_path tid) m False of
          Some e \<Rightarrow> Inl (open_error e)
        | None \<Rightarrow> proc_read_loop mh tid m addr len [])"

definition proc_mem_write :: "'m mem_host \<Rightarrow> int \<Rightarrow> 'm \<Rightarrow> 64 word \<Rightarrow> string \<Rightarrow> errno \<times> 'm" where
  "proc_mem_write mh tid m addr data =
     (if length (proc_mem_path tid) \<ge> 64 then (EINVAL, m)
      else case mh_open mh (proc_mem_path tid) m True of
          Some e \<Rightarrow> (open_error e, m)
        | None \<Rightarrow> proc_write_loop mh tid m addr data 0)"

definition overflows :: "64 word \<Rightarrow> nat \<Rightarrow> bool" where
  "overflows addr len \<longleftrightarrow> len > 0 \<and> addr > - 1 - of_nat (len - 1)"

definition read_mem :: "'m mem_host \<Rightarrow> int \<Rightarrow> 'm \<Rightarrow> 64 word \<Rightarrow> nat \<Rightarrow> errno + string" where
  "read_mem mh tid m addr len =
     (if len = 0 then Inr []
      else if overflows addr len then Inl EFAULT
      else case mh_readv mh tid m addr len of
          Inr s \<Rightarrow> if length s = len then Inr s else Inl EFAULT
        | Inl e \<Rightarrow> if e = ESRCH then Inl ESRCH else proc_mem_read mh tid m addr len)"

text \<open>The result is the errno the source returns (\<open>0\<close> for success) and the memory afterwards.\<close>

definition write_mem :: "'m mem_host \<Rightarrow> int \<Rightarrow> 'm \<Rightarrow> 64 word \<Rightarrow> string \<Rightarrow> errno \<times> 'm" where
  "write_mem mh tid m addr data =
     (if data = [] then (0, m)
      else if overflows addr (length data) then (EFAULT, m)
      else case mh_writev mh tid m addr data of
          (r, m') \<Rightarrow>
            if r = Inr (length data) then (0, m')
            else if r = Inl ESRCH then (ESRCH, m')
            else proc_mem_write mh tid m' addr data)"

definition chunk_want :: "nat \<Rightarrow> 64 word \<Rightarrow> nat \<Rightarrow> nat" where
  "chunk_want page addr room =
     (let to_page_end = page - unat addr mod page;
          want = (if to_page_end > 4096 then 4096 else to_page_end)
      in if want > room then room else want)"

lemma page_size_pos [simp]: "0 < page_size mh" "page_size mh \<noteq> 0"
  by (auto simp: page_size_def Let_def)

lemma chunk_want_bounds:
  assumes "0 < page" and "0 < room"
  shows "0 < chunk_want page addr room" "chunk_want page addr room \<le> room"
    "chunk_want page addr room \<le> page - unat addr mod page"
  using assms by (auto simp: chunk_want_def Let_def)

lemma proc_read_loop_length:
  "proc_read_loop mh tid m addr len out = Inr s \<Longrightarrow> len \<le> length s"
  by (induction mh tid m addr len out rule: proc_read_loop.induct)
    (subst (asm) proc_read_loop.simps, auto split: if_splits sum.splits)

lemma read_mem_length: "read_mem mh tid m addr len = Inr s \<Longrightarrow> len \<le> length s"
  by (auto simp: read_mem_def proc_mem_read_def split: if_splits sum.splits option.splits
      dest: proc_read_loop_length)

function read_cstring_loop ::
  "'m mem_host \<Rightarrow> int \<Rightarrow> 'm \<Rightarrow> 64 word \<Rightarrow> nat \<Rightarrow> string \<Rightarrow> errno + string" where
  "read_cstring_loop mh tid m addr limit out =
     (if length out \<ge> limit then Inl ENAMETOOLONG
      else let want = chunk_want (page_size mh) addr (limit - length out)
           in case read_mem mh tid m addr want of
                Inl e \<Rightarrow> Inl e
              | Inr chunk \<Rightarrow>
                  (case find_char nul chunk of
                     Some k \<Rightarrow> Inr (out @ take k chunk)
                   | None \<Rightarrow> read_cstring_loop mh tid m (addr + of_nat want) limit (out @ chunk)))"
  by pat_completeness auto
termination
proof (relation "measure (\<lambda>(mh, tid, m, addr, limit, out). limit - length out)")
  fix mh :: "'m mem_host" and tid m addr limit out want chunk
  assume "\<not> limit \<le> length (out :: string)"
    and "want = chunk_want (page_size mh) addr (limit - length out)"
    and "read_mem mh tid m addr want = Inr chunk"
  then show "((mh, tid, m, addr + of_nat want, limit, out @ chunk), mh, tid, m, addr, limit, out)
      \<in> measure (\<lambda>(mh, tid, m, addr, limit, out). limit - length out)"
    using chunk_want_bounds(1) [of "page_size mh" "limit - length out" addr] read_mem_length
    by fastforce
qed simp

declare read_cstring_loop.simps [simp del]

definition read_cstring :: "'m mem_host \<Rightarrow> int \<Rightarrow> 'm \<Rightarrow> 64 word \<Rightarrow> nat \<Rightarrow> errno + string" where
  "read_cstring mh tid m addr limit =
     (if addr = 0 then Inl EFAULT else read_cstring_loop mh tid m addr limit [])"

section \<open>Scratch space below the stack pointer\<close>

datatype arch = X86_64 | AArch64

definition stack_red_zone :: "arch \<Rightarrow> 64 word" where
  "stack_red_zone a = (case a of X86_64 \<Rightarrow> 128 | AArch64 \<Rightarrow> 0)"

definition stack_alignment :: "arch \<Rightarrow> 64 word" where
  "stack_alignment a = 16"

definition kMaxStackScratch :: nat where "kMaxStackScratch = 1024 * 1024"

definition align_down :: "arch \<Rightarrow> 64 word \<Rightarrow> 64 word" where
  "align_down a x = x AND NOT (stack_alignment a - 1)"

record stack_writer =
  sw_tid :: int
  sw_base :: "64 word"
  sw_top :: "64 word"

definition stack_writer_new :: "arch \<Rightarrow> int \<Rightarrow> 64 word \<Rightarrow> stack_writer" where
  "stack_writer_new a tid sp =
     \<lparr>sw_tid = tid, sw_base = sp, sw_top = align_down a (sp - stack_red_zone a - 64)\<rparr>"

definition sw_push ::
  "arch \<Rightarrow> 'm mem_host \<Rightarrow> 'm \<Rightarrow> stack_writer \<Rightarrow> string \<Rightarrow> (errno + 64 word) \<times> stack_writer \<times> 'm" where
  "sw_push a mh m w data =
     (if length data > kMaxStackScratch \<or> sw_top w < of_nat (length data) + 4096
      then (Inl ENOMEM, w, m)
      else let nxt = align_down a (sw_top w - of_nat (length data))
           in if sw_base w - nxt > of_nat kMaxStackScratch then (Inl ENOMEM, w, m)
              else case write_mem mh (sw_tid w) m nxt data of
                  (e, m') \<Rightarrow>
                    if e \<noteq> 0 then (Inl (if e = ESRCH then ESRCH else ENOMEM), w, m')
                    else (Inr nxt, w\<lparr>sw_top := nxt\<rparr>, m'))"

definition sw_push_string ::
  "arch \<Rightarrow> 'm mem_host \<Rightarrow> 'm \<Rightarrow> stack_writer \<Rightarrow> string \<Rightarrow> (errno + 64 word) \<times> stack_writer \<times> 'm" where
  "sw_push_string a mh m w s = sw_push a mh m w (s @ [nul])"

definition sw_skip :: "nat \<Rightarrow> stack_writer \<Rightarrow> stack_writer" where
  "sw_skip len w = w\<lparr>sw_top := (if sw_top w > of_nat len then sw_top w - of_nat len else 0)\<rparr>"

text \<open>The loop of \<open>handle_exec\<close> that places the argument strings.\<close>

fun push_strings ::
  "arch \<Rightarrow> 'm mem_host \<Rightarrow> 'm \<Rightarrow> stack_writer \<Rightarrow> string list \<Rightarrow> (errno + 64 word list) \<times> stack_writer \<times> 'm" where
  "push_strings a mh m w [] = (Inr [], w, m)"
| "push_strings a mh m w (s # ss) =
     (case sw_push_string a mh m w s of
        (Inl e, w', m') \<Rightarrow> (Inl e, w', m')
      | (Inr p, w', m') \<Rightarrow>
          (case push_strings a mh m' w' ss of
             (Inl e, w'', m'') \<Rightarrow> (Inl e, w'', m'')
           | (Inr ps, w'', m'') \<Rightarrow> (Inr (p # ps), w'', m'')))"

section \<open>Bytes of a task\<close>

type_synonym bytes_view = "64 word \<Rightarrow> char option"

definition stored :: "bytes_view \<Rightarrow> 64 word \<Rightarrow> string \<Rightarrow> bool" where
  "stored f a s \<longleftrightarrow> list_all (\<lambda>i. f (a + of_nat i) = Some (s ! i)) [0..<length s]"

definition put_bytes :: "bytes_view \<Rightarrow> 64 word \<Rightarrow> string \<Rightarrow> bytes_view" where
  "put_bytes f a s b = (if unat (b - a) < length s then Some (s ! unat (b - a)) else f b)"

text \<open>
  What the sources rely on of the kernel: a read returns at most the bytes asked for, and they are
  the task's; a refused call has an errno and changes nothing; a write that reports \<open>k\<close> bytes has replaced exactly the first \<open>k\<close>; memory is mapped
  by whole pages and a read of mapped bytes is complete.
\<close>

definition mem_reads :: "'m mem_host \<Rightarrow> (int \<Rightarrow> 'm \<Rightarrow> bytes_view) \<Rightarrow> bool" where
  "mem_reads mh v \<longleftrightarrow>
     (\<forall>tid m a n s. (mh_readv mh tid m a n = Inr s \<or> mh_pread mh tid m a n = Inr s) \<longrightarrow>
        length s \<le> n \<and> stored (v tid m) a s)"

definition wrote :: "(int \<Rightarrow> 'm \<Rightarrow> bytes_view) \<Rightarrow> int \<Rightarrow> 'm \<Rightarrow> 64 word \<Rightarrow> string \<Rightarrow> (errno + nat) \<times> 'm \<Rightarrow> bool" where
  "wrote v tid m a s r \<longleftrightarrow>
     (case r of
        (Inl e, m') \<Rightarrow> e \<noteq> 0 \<and> v tid m' = v tid m
      | (Inr k, m') \<Rightarrow> k \<le> length s \<and> v tid m' = put_bytes (v tid m) a (take k s))"

definition mem_writes :: "'m mem_host \<Rightarrow> (int \<Rightarrow> 'm \<Rightarrow> bytes_view) \<Rightarrow> bool" where
  "mem_writes mh v \<longleftrightarrow>
     (\<forall>path m. mh_open mh path m True \<noteq> Some 0) \<and>
     (\<forall>tid m a s. wrote v tid m a s (mh_writev mh tid m a s) \<and> wrote v tid m a s (mh_pwrite mh tid m a s))"

definition mem_mapped :: "'m mem_host \<Rightarrow> (int \<Rightarrow> 'm \<Rightarrow> bytes_view) \<Rightarrow> bool" where
  "mem_mapped mh v \<longleftrightarrow>
     (\<exists>k < 64. page_size mh = 2 ^ k) \<and>
     (\<forall>tid m a b. unat a div page_size mh = unat b div page_size mh \<longrightarrow> v tid m a \<noteq> None \<longrightarrow> v tid m b \<noteq> None) \<and>
     (\<forall>tid m a n. (\<forall>i < n. v tid m (a + of_nat i) \<noteq> None) \<longrightarrow>
        (\<exists>s. mh_readv mh tid m a n = Inr s \<and> length s = n))"

lemma unat64_less: "unat (x :: 64 word) < 2 ^ 64"
  using unsigned_less [of x, where ?'a = nat] by simp

lemma align_down_unat: "unat (align_down a x) = unat x - unat x mod 16"
proof -
  have "align_down a x = x AND NOT (mask 4)"
    by (simp add: align_down_def stack_alignment_def mask_eq_exp_minus_1)
  also have "\<dots> = push_bit 4 (drop_bit 4 x)"
    by (rule bit_word_eqI) (auto simp: bit_simps)
  finally have "unat (align_down a x) = take_bit 64 (push_bit 4 (drop_bit 4 (unat x)))"
    using unat64_less [of x] by (simp add: unsigned_push_bit_eq unsigned_drop_bit_eq take_bit_nat_eq_self)
  moreover have "push_bit 4 (drop_bit 4 (unat x)) = unat x - unat x mod 16"
    by (simp add: push_bit_eq_mult drop_bit_eq_div minus_mod_eq_div_mult)
  moreover have "unat x - unat x mod 16 < 2 ^ 64"
    using unat64_less [of x] by simp
  ultimately show ?thesis by (simp add: take_bit_nat_eq_self)
qed

lemma stored_iff: "stored f a s \<longleftrightarrow> (\<forall>i < length s. f (a + of_nat i) = Some (s ! i))"
  by (auto simp: stored_def list_all_iff)

lemma stored_Nil [simp]: "stored f a []"
  by (simp add: stored_def)

lemma stored_append:
  "stored f a (s @ t) \<longleftrightarrow> stored f a s \<and> stored f (a + of_nat (length s)) t"
proof -
  have "stored f a (s @ t) \<longleftrightarrow>
      (\<forall>i < length s. f (a + of_nat i) = Some (s ! i)) \<and>
      (\<forall>i < length t. f (a + of_nat (length s + i)) = Some (t ! i))"
    unfolding stored_iff
  proof (safe, goal_cases)
    case (1 i) then show ?case by (metis nth_append trans_less_add1 length_append)
  next
    case (2 i) then show ?case
      by (metis length_append nat_add_left_cancel_less nth_append_length_plus)
  next
    case (3 i) then show ?case
      by (cases "i < length s")
        (auto simp: nth_append dest: spec [of _ "i - length s"])
  qed
  then show ?thesis by (simp add: stored_iff add.assoc)
qed

lemma unat_offset: "i < 2 ^ 64 \<Longrightarrow> unat (a + of_nat i - a :: 64 word) = i"
  by (simp add: unat_of_nat)

lemma stored_put_bytes: "length s \<le> 2 ^ 64 \<Longrightarrow> stored (put_bytes f a s) a s"
  by (auto simp: stored_iff put_bytes_def unat_of_nat)

lemma put_bytes_over: "put_bytes (put_bytes f a (take k s)) a s = put_bytes f a s"
  by (auto simp: put_bytes_def fun_eq_iff)

lemma put_bytes_Nil [simp]: "put_bytes f a [] = f"
  by (simp add: put_bytes_def fun_eq_iff)

lemma unat_minus_offset:
  fixes d :: "64 word"
  assumes "n < 2 ^ 64"
  shows "unat (d - of_nat n) = (if n \<le> unat d then unat d - n else unat d + 2 ^ 64 - n)"
proof -
  have "unat (of_nat n :: 64 word) = n" using assms by (simp add: unat_of_nat)
  then show ?thesis
    using unat_sub_if_size [of d "of_nat n"] by (simp add: word_size)
qed

lemma put_bytes_append:
  assumes "length s + length t < 2 ^ 64"
  shows "put_bytes f a (s @ t) = put_bytes (put_bytes f a s) (a + of_nat (length s)) t"
proof
  fix b
  have eq: "b - (a + of_nat (length s)) = (b - a) - of_nat (length s)" by simp
  have "unat (b - (a + of_nat (length s))) =
      (if length s \<le> unat (b - a) then unat (b - a) - length s else unat (b - a) + 2 ^ 64 - length s)"
    unfolding eq by (rule unat_minus_offset) (use assms in simp)
  then show "put_bytes f a (s @ t) b = put_bytes (put_bytes f a s) (a + of_nat (length s)) t b"
    using assms by (auto simp: put_bytes_def nth_append)
qed

lemma stored_put_other:
  assumes "stored f b t" and "\<forall>i < length t. length s \<le> unat (b + of_nat i - a)"
  shows "stored (put_bytes f a s) b t"
  using assms by (auto simp: stored_iff put_bytes_def)

section \<open>Reads and writes\<close>

lemma mem_readsD:
  assumes "mem_reads mh v"
  shows "mh_readv mh tid m a n = Inr s \<Longrightarrow> length s \<le> n \<and> stored (v tid m) a s"
    and "mh_pread mh tid m a n = Inr s \<Longrightarrow> length s \<le> n \<and> stored (v tid m) a s"
  using assms unfolding mem_reads_def by blast+

lemma read_loop_stored:
  assumes "mem_reads mh v" and "stored (v tid m) addr out" and "length out \<le> len"
    and "proc_read_loop mh tid m addr len out = Inr s"
  shows "length s = len \<and> stored (v tid m) addr s"
  using assms
proof (induction mh tid m addr len out rule: proc_read_loop.induct)
  case (1 mh tid m addr len out)
  show ?case
  proof (cases "len \<le> length out")
    case True
    then show ?thesis using "1.prems" by (subst (asm) proc_read_loop.simps) auto
  next
    case False
    then obtain t where t: "mh_pread mh tid m (addr + of_nat (length out)) (len - length out) = Inr t"
      "t \<noteq> []" "proc_read_loop mh tid m addr len (out @ t) = Inr s"
      using "1.prems"(4) [unfolded proc_read_loop.simps [of mh tid m addr len out]]
      by (auto split: sum.splits if_splits)
    then have "length t \<le> len - length out" "stored (v tid m) (addr + of_nat (length out)) t"
      using mem_readsD(2) [OF "1.prems"(1) t(1)] by auto
    then show ?thesis using "1.IH" [OF False t(1,2)] "1.prems" t(3) False by (auto simp: stored_append)
  qed
qed

lemma read_mem_stored:
  assumes "mem_reads mh v" and "read_mem mh tid m addr len = Inr s"
  shows "length s = len \<and> stored (v tid m) addr s"
proof -
  have "(len = 0 \<and> s = []) \<or> (mh_readv mh tid m addr len = Inr s \<and> length s = len) \<or>
      proc_read_loop mh tid m addr len [] = Inr s"
    using assms(2)
    by (cases "mh_readv mh tid m addr len")
      (simp_all add: read_mem_def proc_mem_read_def split: if_splits option.splits)
  then consider "len = 0" "s = []"
    | "mh_readv mh tid m addr len = Inr s" "length s = len"
    | "proc_read_loop mh tid m addr len [] = Inr s" by blast
  then show ?thesis
  proof cases
    case 2
    then show ?thesis using mem_readsD(1) [OF assms(1)] by blast
  next
    case 3
    then show ?thesis using read_loop_stored [OF assms(1), of tid m addr "[]"] by simp
  qed simp
qed

lemma write_loop_put:
  assumes "mem_writes mh v" and "length data < 2 ^ 64" and "k \<le> length data"
    and "proc_write_loop mh tid m addr data k = (0, m')"
  shows "v tid m' = put_bytes (v tid m) (addr + of_nat k) (drop k data)"
  using assms
proof (induction mh tid m addr data k arbitrary: m' rule: proc_write_loop.induct)
  case (1 mh tid m addr data k)
  show ?case
  proof (cases "length data \<le> k")
    case True
    then show ?thesis using "1.prems" by (subst (asm) proc_write_loop.simps) auto
  next
    case False
    have wr: "wrote v tid m (addr + of_nat k) (drop k data) (mh_pwrite mh tid m (addr + of_nat k) (drop k data))"
      using "1.prems"(1) unfolding mem_writes_def by metis
    obtain r m1 where w: "mh_pwrite mh tid m (addr + of_nat k) (drop k data) = (Inr r, m1)"
      "r \<noteq> 0" "proc_write_loop mh tid m1 addr data (k + r) = (0, m')"
      using "1.prems"(4) [unfolded proc_write_loop.simps [of mh tid m addr data k]] wr False
      by (auto simp: wrote_def EFAULT_def EIO_def split: sum.splits if_splits prod.splits)
    have "wrote v tid m (addr + of_nat k) (drop k data) (Inr r, m1)" using wr w(1) by simp
    then have r: "r \<le> length data - k"
      "v tid m1 = put_bytes (v tid m) (addr + of_nat k) (take r (drop k data))"
      by (auto simp: wrote_def)
    then have "v tid m' = put_bytes (v tid m1) (addr + of_nat (k + r)) (drop (k + r) data)"
      using "1.IH" [OF False w(1) [symmetric] refl w(2), of m'] "1.prems" w(3) False by simp
    also have "\<dots> = put_bytes (v tid m) (addr + of_nat k) (take r (drop k data) @ drop r (drop k data))"
      using r "1.prems"(2) False by (subst put_bytes_append) (auto simp: ac_simps)
    finally show ?thesis by (simp only: append_take_drop_id)
  qed
qed

lemma write_mem_put:
  assumes "mem_writes mh v" and "length data < 2 ^ 64" and "write_mem mh tid m addr data = (0, m')"
  shows "v tid m' = put_bytes (v tid m) addr data"
proof (cases "data = []")
  case True
  then show ?thesis using assms(3) by (simp add: write_mem_def)
next
  case False
  obtain r m1 where w: "mh_writev mh tid m addr data = (r, m1)" by fastforce
  have wr: "wrote v tid m addr data (r, m1)" using assms(1) w unfolding mem_writes_def by metis
  show ?thesis
  proof (cases "r = Inr (length data)")
    case True
    then show ?thesis
      using assms(3) False w wr by (auto simp: write_mem_def wrote_def EFAULT_def split: if_splits)
  next
    case part: False
    then have "proc_mem_write mh tid m1 addr data = (0, m')"
      using assms(3) False w by (auto simp: write_mem_def EFAULT_def ESRCH_def split: if_splits)
    then have "proc_write_loop mh tid m1 addr data 0 = (0, m')"
      using assms(1) by (auto simp: proc_mem_write_def open_error_def mem_writes_def EINVAL_def ESRCH_def
          split: if_splits option.splits)
    then have "v tid m' = put_bytes (v tid m1) addr data"
      using write_loop_put [OF assms(1,2), of 0] by simp
    moreover have "\<exists>k. v tid m1 = put_bytes (v tid m) addr (take k data)"
      using wr by (cases r) (auto simp: wrote_def intro: exI [of _ 0])
    ultimately show ?thesis using put_bytes_over by metis
  qed
qed

section \<open>Strings\<close>

lemma find_char_first: "c \<notin> set s \<Longrightarrow> find_char c (s @ c # r) = Some (length s) \<and> take (length s) (s @ c # r) = s"
  by (induction s) auto

lemma find_char_nul_split:
  "find_char c s = Some k \<Longrightarrow> \<exists>rest. s = take k s @ c # rest \<and> c \<notin> set (take k s)"
  by (metis Cons_nth_drop_Suc append_take_drop_id find_char_SomeD)

lemma read_cstring_loop_sound:
  assumes "mem_reads mh v" and "stored (v tid m) a0 out" and "addr = a0 + of_nat (length out)"
    and "nul \<notin> set out" and "read_cstring_loop mh tid m addr limit out = Inr s"
  shows "nul \<notin> set s \<and> length s < limit \<and> stored (v tid m) a0 (s @ [nul])"
  using assms
proof (induction mh tid m addr limit out rule: read_cstring_loop.induct)
  case (1 mh tid m addr limit out)
  define want where "want = chunk_want (page_size mh) addr (limit - length out)"
  have lim: "length out < limit" and "0 < want" "want \<le> limit - length out"
    using "1.prems"(5) chunk_want_bounds [of "page_size mh" "limit - length out" addr]
    by (auto simp: read_cstring_loop.simps [of mh tid m addr limit out] want_def split: if_splits)
  obtain chunk where c: "read_mem mh tid m addr want = Inr chunk"
    "case find_char nul chunk of Some k \<Rightarrow> s = out @ take k chunk
     | None \<Rightarrow> read_cstring_loop mh tid m (addr + of_nat want) limit (out @ chunk) = Inr s"
    using "1.prems"(5) lim
    by (auto simp: read_cstring_loop.simps [of mh tid m addr limit out] want_def Let_def
        split: sum.splits option.splits)
  have st: "length chunk = want" "stored (v tid m) addr chunk"
    using read_mem_stored [OF "1.prems"(1) c(1)] by auto
  show ?case
  proof (cases "find_char nul chunk")
    case None
    have "stored (v tid m) a0 (out @ chunk)"
      using "1.prems"(2,3) st(2) by (simp add: stored_append)
    moreover have "addr + of_nat want = a0 + of_nat (length (out @ chunk))"
      using "1.prems"(3) st(1) by (simp add: add.assoc)
    moreover have "nul \<notin> set (out @ chunk)" using "1.prems"(4) None by simp
    moreover have "read_cstring_loop mh tid m (addr + of_nat want) limit (out @ chunk) = Inr s"
      using c(2) None by simp
    ultimately show ?thesis
      using "1.IH" [OF _ want_def c(1) None] "1.prems"(1) lim by (meson not_less)
  next
    case (Some k)
    obtain rest where r: "chunk = take k chunk @ nul # rest" "nul \<notin> set (take k chunk)"
      using find_char_nul_split [OF Some] by auto
    have "stored (v tid m) addr (take k chunk @ [nul])"
      using st(2) r(1) stored_append [of "v tid m" addr "take k chunk @ [nul]" rest] by simp
    moreover have "k < length chunk" using find_char_SomeD [OF Some] by simp
    ultimately show ?thesis
      using c(2) Some "1.prems" r(2) st(1) \<open>want \<le> limit - length out\<close> lim
      by (auto simp: stored_append)
  qed
qed

text \<open>A read within one page never wraps around the address space.\<close>

lemma in_page_no_overflow:
  fixes a :: "64 word"
  assumes "page = 2 ^ k" and "k < 64" and "0 < n" and "n \<le> page - unat a mod page"
  shows "unat a + n \<le> 2 ^ 64" "\<not> overflows a n"
    "i < n \<Longrightarrow> unat (a + of_nat i) div page = unat a div page"
proof -
  have pos: "0 < page" using assms(1) by simp
  have dv: "(2 :: nat) ^ 64 = page * 2 ^ (64 - k)" using assms(1,2) by (simp flip: power_add)
  have "unat a div page < 2 ^ (64 - k)"
    using unat64_less [of a] dv pos by (simp add: div_less_iff_less_mult mult.commute)
  then have "page * (unat a div page + 1) \<le> page * 2 ^ (64 - k)" by (intro mult_le_mono2) simp
  moreover have "unat a + n \<le> page * (unat a div page + 1)"
  proof -
    have "n + unat a mod page \<le> page" using assms(4) mod_less_divisor [OF pos, of "unat a"] by simp
    moreover have "unat a = page * (unat a div page) + unat a mod page" by simp
    ultimately show ?thesis unfolding distrib_left mult_1_right by linarith
  qed
  ultimately show le: "unat a + n \<le> 2 ^ 64" using dv by simp
  then have n1: "n - 1 < 2 ^ 64" using assms(3) by simp
  have "unat (- 1 - of_nat (n - 1) :: 64 word) = 2 ^ 64 - 1 - (n - 1)"
    using unat_minus_offset [OF n1, of "- 1"] n1
    by (simp add: unsigned_minus_1_eq_mask mask_eq_exp_minus_1)
  then show "\<not> overflows a n"
    using le assms(3) by (simp add: overflows_def word_less_nat_alt)
  show "unat (a + of_nat i) div page = unat a div page" if "i < n"
  proof -
    have "unat (a + of_nat i) = unat a + i"
      using that le by (simp add: unat_word_ariths unat_of_nat)
    moreover have "unat a mod page + i < page" using that assms(4) by simp
    moreover have "unat a + i = (unat a mod page + i) + unat a div page * page"
      using div_mult_mod_eq [of "unat a" page] by linarith
    moreover have "(r + q * page) div page = q" if "r < page" for r q :: nat
      using that pos by simp
    ultimately show ?thesis by metis
  qed
qed

lemma read_mem_mapped:
  assumes "mem_mapped mh v" and "0 < n" and "n \<le> page_size mh - unat a mod page_size mh"
    and "v tid m a \<noteq> None"
  shows "\<exists>s. read_mem mh tid m a n = Inr s \<and> length s = n"
proof -
  obtain k where k: "page_size mh = 2 ^ k" "k < 64" using assms(1) unfolding mem_mapped_def by blast
  note pg = in_page_no_overflow [OF k assms(2,3)]
  have same_page: "unat a div page_size mh = unat b div page_size mh \<Longrightarrow> v tid m b \<noteq> None" for b
    using assms(1,4) unfolding mem_mapped_def by blast
  have "\<forall>i < n. v tid m (a + of_nat i) \<noteq> None" using same_page pg(3) by simp
  then obtain s where "mh_readv mh tid m a n = Inr s" "length s = n"
    using assms(1) unfolding mem_mapped_def by blast
  then show ?thesis using pg(2) assms(2) by (auto simp: read_mem_def)
qed

lemma stored_unique:
  "stored f a s \<Longrightarrow> stored f a t \<Longrightarrow> length s \<le> length t \<Longrightarrow> s = take (length s) t"
  by (auto simp: stored_iff list_eq_iff_nth_eq)

lemma read_cstring_loop_complete:
  assumes "mem_reads mh v" "mem_mapped mh v" and "stored (v tid m) addr (s @ [nul])" "nul \<notin> set s"
    and "length out + length s < limit"
  shows "read_cstring_loop mh tid m addr limit out = Inr (out @ s)"
  using assms
proof (induction mh tid m addr limit out arbitrary: s rule: read_cstring_loop.induct)
  case (1 mh tid m addr limit out)
  define want where "want = chunk_want (page_size mh) addr (limit - length out)"
  have lim: "length out < limit" using "1.prems"(5) by simp
  have want: "0 < want" "want \<le> page_size mh - unat addr mod page_size mh"
    using chunk_want_bounds [of "page_size mh" "limit - length out" addr] lim by (auto simp: want_def)
  have "v tid m addr \<noteq> None"
    using "1.prems"(3) by (auto simp: stored_iff dest: spec [of _ 0])
  then obtain chunk where c: "read_mem mh tid m addr want = Inr chunk" "length chunk = want"
    using read_mem_mapped [OF "1.prems"(2) want] by blast
  have st: "stored (v tid m) addr chunk" using read_mem_stored [OF "1.prems"(1) c(1)] by simp
  have step: "read_cstring_loop mh tid m addr limit out =
      (case find_char nul chunk of Some k \<Rightarrow> Inr (out @ take k chunk)
       | None \<Rightarrow> read_cstring_loop mh tid m (addr + of_nat want) limit (out @ chunk))"
    using lim c(1) by (subst read_cstring_loop.simps) (simp add: Let_def flip: want_def)
  show ?case
  proof (cases "length s < want")
    case True
    then have "s @ [nul] = take (length s + 1) chunk"
      using stored_unique [OF "1.prems"(3) st] c(2) by simp
    then have "chunk = s @ nul # drop (length s + 1) chunk"
      by (metis append.assoc append_Cons append_Nil append_take_drop_id)
    then have "find_char nul chunk = Some (length s) \<and> take (length s) chunk = s"
      using "1.prems"(4) find_char_first by metis
    then show ?thesis using step by simp
  next
    case False
    then have "chunk = take want s"
      using stored_unique [OF st "1.prems"(3)] c(2) by simp
    then have sp: "s = chunk @ drop want s" by simp
    then have none: "find_char nul chunk = None" using "1.prems"(4) by (metis UnCI find_char_None set_append)
    have "stored (v tid m) (addr + of_nat want) (drop want s @ [nul])"
      using "1.prems"(3) sp c(2) by (metis append.assoc stored_append)
    moreover have "nul \<notin> set (drop want s)" using "1.prems"(4) in_set_dropD by metis
    moreover have "length (out @ chunk) + length (drop want s) < limit"
      using "1.prems"(5) sp c(2) False by simp
    ultimately have "read_cstring_loop mh tid m (addr + of_nat want) limit (out @ chunk) = Inr ((out @ chunk) @ drop want s)"
      using "1.IH" [OF _ want_def c(1) none] "1.prems"(1,2) lim by (meson not_less)
    then show ?thesis using step none sp by simp
  qed
qed

lemma read_cstring_iff:
  assumes "mem_reads mh v" and "mem_mapped mh v"
  shows "read_cstring mh tid m addr limit = Inr s \<longleftrightarrow>
    addr \<noteq> 0 \<and> nul \<notin> set s \<and> length s < limit \<and> stored (v tid m) addr (s @ [nul])"
proof -
  have "read_cstring_loop mh tid m addr limit [] = Inr s \<longleftrightarrow>
      nul \<notin> set s \<and> length s < limit \<and> stored (v tid m) addr (s @ [nul])"
    using read_cstring_loop_sound [OF assms(1), of tid m addr "[]" addr limit s]
      read_cstring_loop_complete [OF assms, of tid m addr s "[]" limit] by auto
  then show ?thesis by (auto simp: read_cstring_def)
qed

section \<open>Pushes\<close>

text \<open>What the scratch pointer keeps: it stays below the red zone of the stack it started from.\<close>

definition sw_ok :: "arch \<Rightarrow> 64 word \<Rightarrow> stack_writer \<Rightarrow> bool" where
  "sw_ok a sp w \<longleftrightarrow> sw_base w = sp \<and> unat (sw_top w) + unat (stack_red_zone a) + 64 \<le> unat sp"

lemma stack_writer_new_ok:
  assumes "unat (stack_red_zone a) + 64 \<le> unat sp"
  shows "sw_ok a sp (stack_writer_new a tid sp)"
proof -
  have "unat (sp - stack_red_zone a - 64) = unat sp - (unat (stack_red_zone a) + 64)"
    using assms by (cases a) (auto simp: stack_red_zone_def unat_sub_if_size word_size)
  then show ?thesis using assms by (simp add: sw_ok_def stack_writer_new_def align_down_unat)
qed

lemma sw_push_Inr:
  assumes "mem_writes mh v" and "sw_ok a sp w" and "sw_push a mh m w data = (Inr addr, w', m')"
  shows "sw_ok a sp w'" "sw_tid w' = sw_tid w" "sw_top w' = addr" "length data \<le> kMaxStackScratch"
    "unat addr + length data \<le> unat (sw_top w)" "4096 - 16 < unat addr" "unat addr mod 16 = 0"
    "v (sw_tid w) m' = put_bytes (v (sw_tid w) m) addr data"
proof -
  let ?n = "length data"
  have c: "?n \<le> kMaxStackScratch" "\<not> sw_top w < of_nat ?n + 4096"
    "addr = align_down a (sw_top w - of_nat ?n)" "write_mem mh (sw_tid w) m addr data = (0, m')"
    "w' = w\<lparr>sw_top := addr\<rparr>"
    using assms(3) by (auto simp: sw_push_def Let_def split: if_splits prod.splits)
  have n: "?n \<le> 1048576" using c(1) by (simp add: kMaxStackScratch_def)
  then have u: "unat (of_nat ?n + 4096 :: 64 word) = ?n + 4096"
    by (simp add: unat_word_ariths unat_of_nat)
  then have top: "?n + 4096 \<le> unat (sw_top w)" using c(2) by (simp add: not_less word_le_nat_alt)
  have "unat (sw_top w - of_nat ?n) = unat (sw_top w) - ?n"
    using unat_minus_offset [of ?n "sw_top w"] n top by simp
  then have ad: "unat addr = (unat (sw_top w) - ?n) - (unat (sw_top w) - ?n) mod 16"
    using c(3) by (simp add: align_down_unat)
  show "length data \<le> kMaxStackScratch" by (rule c(1))
  show below: "unat addr + ?n \<le> unat (sw_top w)" using ad top by linarith
  show "4096 - 16 < unat addr"
  proof -
    have "(unat (sw_top w) - ?n) mod 16 < 16" by simp
    then show ?thesis using ad top by linarith
  qed
  show "unat addr mod 16 = 0" using ad by (simp add: minus_mod_eq_mult_div)
  show "sw_ok a sp w'" using assms(2) below c(5) by (simp add: sw_ok_def)
  show "sw_tid w' = sw_tid w" "sw_top w' = addr" using c(5) by simp_all
  show "v (sw_tid w) m' = put_bytes (v (sw_tid w) m) addr data"
    using write_mem_put [OF assms(1) _ c(4)] n by simp
qed

lemma put_bytes_above:
  assumes "unat a + length s \<le> unat b"
  shows "put_bytes f a s b = f b"
proof -
  have "unat (b - a) = unat b - unat a" using assms by (simp add: unat_sub word_le_nat_alt)
  then have "\<not> unat (b - a) < length s" using assms by linarith
  then show ?thesis by (simp add: put_bytes_def)
qed

lemma stored_below_kept:
  assumes "stored f b t" and "unat a + length s \<le> unat b" and "unat b + length t \<le> 2 ^ 64"
  shows "stored (put_bytes f a s) b t"
proof -
  have "put_bytes f a s (b + of_nat i) = f (b + of_nat i)" if "i < length t" for i
  proof (rule put_bytes_above)
    have "unat (b + of_nat i) = unat b + i"
      using that assms(3) by (simp add: unat_word_ariths unat_of_nat)
    then show "unat a + length s \<le> unat (b + of_nat i)" using assms(2) by simp
  qed
  then show ?thesis using assms(1) by (auto simp: stored_iff)
qed

lemma push_strings_Inr:
  assumes "mem_writes mh v" and "sw_ok a sp w" and "push_strings a mh m w ss = (Inr ps, w', m')"
  shows "length ps = length ss \<and> sw_ok a sp w' \<and> sw_tid w' = sw_tid w \<and>
    (\<forall>i < length ss. unat (sw_top w') \<le> unat (ps ! i) \<and>
       unat (ps ! i) + length (ss ! i) < unat (sw_top w) \<and> ps ! i \<noteq> 0 \<and>
       stored (v (sw_tid w) m') (ps ! i) (ss ! i @ [nul])) \<and>
    unat (sw_top w') \<le> unat (sw_top w) \<and>
    (\<forall>b. unat (sw_top w) \<le> unat b \<longrightarrow> v (sw_tid w) m' b = v (sw_tid w) m b)"
  using assms(2,3)
proof (induction ss arbitrary: m w ps)
  case (Cons s ss)
  obtain p w1 m1 qs where p: "sw_push a mh m w (s @ [nul]) = (Inr p, w1, m1)"
    "push_strings a mh m1 w1 ss = (Inr qs, w', m')" "ps = p # qs"
    using Cons.prems(2) by (auto simp: sw_push_string_def split: prod.splits sum.splits)
  note one = sw_push_Inr [OF assms(1) Cons.prems(1) p(1)]
  note IH = Cons.IH [OF one(1) p(2)]
  have keep: "v (sw_tid w) m' b = v (sw_tid w) m1 b" if "unat p \<le> unat b" for b
    using IH one(2,3) that by auto
  have "stored (v (sw_tid w) m1) p (s @ [nul])"
    unfolding one(8) by (rule stored_put_bytes) (use one(4) in \<open>simp add: kMaxStackScratch_def\<close>)
  moreover have "v (sw_tid w) m' (p + of_nat i) = v (sw_tid w) m1 (p + of_nat i)" if "i < length (s @ [nul])" for i
  proof (rule keep)
    have "unat p + i < 2 ^ 64" using that one(5) unat64_less [of "sw_top w"] by simp
    then show "unat p \<le> unat (p + of_nat i)" by (simp add: unat_word_ariths unat_of_nat)
  qed
  ultimately have "stored (v (sw_tid w) m') p (s @ [nul])" by (auto simp: stored_iff)
  moreover have "v (sw_tid w) m' b = v (sw_tid w) m b" if "unat (sw_top w) \<le> unat b" for b
    using keep [of b] that one(5,8) put_bytes_above [of p "s @ [nul]" b] by simp
  moreover have "p \<noteq> 0" using one(6) by auto
  ultimately show ?case
    using IH p(3) one(2,3,5) by (auto simp: nth_Cons less_Suc_eq_0_disj split: nat.splits)
qed simp

section \<open>A host to evaluate with\<close>

text \<open>A task whose memory is mapped everywhere but in the first page.\<close>

definition flat_view :: "int \<Rightarrow> (64 word \<Rightarrow> char) \<Rightarrow> bytes_view" where
  "flat_view tid m b = (if 4096 \<le> unat b then Some (m b) else None)"

definition flat_ok :: "64 word \<Rightarrow> nat \<Rightarrow> bool" where
  "flat_ok a n \<longleftrightarrow> list_all (\<lambda>i. 4096 \<le> unat (a + of_nat i)) [0..<n]"

definition flat_read :: "int \<Rightarrow> (64 word \<Rightarrow> char) \<Rightarrow> 64 word \<Rightarrow> nat \<Rightarrow> errno + string" where
  "flat_read tid m a n =
     (if flat_ok a n then Inr (map (\<lambda>i. m (a + of_nat i)) [0..<n]) else Inl EFAULT)"

definition flat_write :: "int \<Rightarrow> (64 word \<Rightarrow> char) \<Rightarrow> 64 word \<Rightarrow> string \<Rightarrow> (errno + nat) \<times> (64 word \<Rightarrow> char)" where
  "flat_write tid m a s =
     (if flat_ok a (length s)
      then (Inr (length s), \<lambda>b. if unat (b - a) < length s then s ! unat (b - a) else m b)
      else (Inl EFAULT, m))"

definition flat_host :: "(64 word \<Rightarrow> char) mem_host" where
  "flat_host = \<lparr>mh_sysconf_page = 4096, mh_readv = flat_read, mh_writev = flat_write,
     mh_open = (\<lambda>path m w. None), mh_pread = flat_read, mh_pwrite = flat_write\<rparr>"

lemma flat_reads: "mem_reads flat_host flat_view"
  by (auto simp: mem_reads_def flat_host_def flat_read_def flat_ok_def stored_iff flat_view_def
      list_all_iff split: if_splits)

lemma flat_writes: "mem_writes flat_host flat_view"
proof -
  have "wrote flat_view tid m a s (flat_write tid m a s)" for tid m a s
  proof (cases "flat_ok a (length s)")
    case True
    have "4096 \<le> unat b" if "unat (b - a) < length s" for b
      using True that by (auto simp: flat_ok_def list_all_iff dest: bspec [of _ _ "unat (b - a)"])
    then show ?thesis
      using True by (auto simp: wrote_def flat_write_def flat_view_def put_bytes_def fun_eq_iff)
  qed (simp add: wrote_def flat_write_def EFAULT_def)
  then show ?thesis by (simp add: mem_writes_def flat_host_def)
qed

lemma flat_mapped: "mem_mapped flat_host flat_view"
  unfolding mem_mapped_def
proof (intro conjI allI impI)
  have page: "page_size flat_host = 4096" by (simp add: page_size_def flat_host_def)
  show "\<exists>k < 64. page_size flat_host = 2 ^ k" unfolding page by (rule exI [of _ 12]) simp
  show "flat_view tid m b \<noteq> None"
    if "unat a div page_size flat_host = unat b div page_size flat_host" "flat_view tid m a \<noteq> None"
    for tid m a b
  proof -
    have "4096 \<le> unat a" using that(2) by (simp add: flat_view_def split: if_splits)
    then have "0 < unat b div 4096" using that(1) page by (metis div_greater_zero_iff zero_less_numeral)
    then show ?thesis by (simp add: flat_view_def div_greater_zero_iff)
  qed
  show "\<exists>s. mh_readv flat_host tid m a n = Inr s \<and> length s = n"
    if "\<forall>i < n. flat_view tid m (a + of_nat i) \<noteq> None" for tid m a n
  proof -
    have "flat_ok a n" using that by (auto simp: flat_ok_def flat_view_def list_all_iff split: if_splits)
    then show ?thesis by (simp add: flat_host_def flat_read_def)
  qed
qed

section \<open>Properties\<close>

text \<open>
  Reading a guest string page by page returns exactly the bytes before the first NUL, whatever
  the alignment of the string and the number of pages it spans, and succeeds whenever the whole
  string is mapped and shorter than the limit.\<close>

theorem read_cstring_exact:
  assumes "mem_reads mh v" and "mem_mapped mh v"
  shows "read_cstring mh tid m addr limit = Inr s \<longleftrightarrow>
    addr \<noteq> 0 \<and> nul \<notin> set s \<and> length s < limit \<and> stored (v tid m) addr (s @ [nul])"
  by (rule read_cstring_iff [OF assms])

theorem read_cstring_exact_witness:
  "read_cstring flat_host 7 (\<lambda>b. if b = 0x1FFF then CHR ''a'' else if b = 0x2000 then CHR ''b'' else nul) 0x1FFF 4096 = Inr ''ab''"
  unfolding read_cstring_exact [OF flat_reads flat_mapped]
  by (simp add: stored_def flat_view_def)

text \<open>
  The strings an exec places below the stack of the task are all readable afterwards at the
  addresses handed to the kernel, none overlapping another, and nothing at or above the red zone
  of the interrupted program has changed.\<close>

theorem pushed_strings_intact:
  assumes "mem_reads mh v" and "mem_writes mh v" and "mem_mapped mh v"
    and "unat (stack_red_zone a) + 64 \<le> unat sp" and "list_all (\<lambda>s. nul \<notin> set s \<and> length s < limit) ss"
    and "push_strings a mh m (stack_writer_new a tid sp) ss = (Inr ps, w', m')"
  shows "map (\<lambda>p. read_cstring mh tid m' p limit) ps = map Inr ss \<and>
    (\<forall>b. unat sp - unat (stack_red_zone a) \<le> unat b \<longrightarrow> v tid m' b = v tid m b)"
proof -
  let ?w = "stack_writer_new a tid sp"
  have tid: "sw_tid ?w = tid" by (simp add: stack_writer_new_def)
  note ok = stack_writer_new_ok [OF assms(4), of tid]
  note res = push_strings_Inr [OF assms(2) ok assms(6), unfolded tid]
  have "read_cstring mh tid m' (ps ! i) limit = Inr (ss ! i)" if "i < length ss" for i
    unfolding read_cstring_iff [OF assms(1,3)]
    using res that assms(5) by (auto simp: list_all_length)
  moreover have "unat (sw_top ?w) \<le> unat sp - unat (stack_red_zone a)"
    using ok unfolding sw_ok_def by linarith
  ultimately show ?thesis
    using res by (auto simp: list_eq_iff_nth_eq)
qed

theorem pushed_strings_intact_witness:
  "case push_strings X86_64 flat_host (\<lambda>b. nul) (stack_writer_new X86_64 7 0x8000) [''ab'', ''c''] of
     (Inl e, w', m') \<Rightarrow> False
   | (Inr ps, w', m') \<Rightarrow> map (\<lambda>p. read_cstring flat_host 7 m' p 4096) ps = [Inr ''ab'', Inr ''c'']"
proof -
  have "\<exists>ps w' m'. push_strings X86_64 flat_host (\<lambda>b. nul) (stack_writer_new X86_64 7 0x8000) [''ab'', ''c''] = (Inr ps, w', m')"
    by (simp add: sw_push_string_def sw_push_def stack_writer_new_def align_down_def stack_alignment_def
        stack_red_zone_def kMaxStackScratch_def write_mem_def overflows_def flat_host_def flat_write_def
        flat_ok_def Let_def)
  then obtain ps w' m' where
    p: "push_strings X86_64 flat_host (\<lambda>b. nul) (stack_writer_new X86_64 7 0x8000) [''ab'', ''c''] = (Inr ps, w', m')"
    by blast
  show ?thesis
    unfolding p using pushed_strings_intact [OF flat_reads flat_writes flat_mapped _ _ p, of 4096]
    by (simp add: stack_red_zone_def)
qed

end
