(* ===== verification/Link_Store.thy ===== *)
theory Link_Store
  imports Link_Marker Mount_Table Strings
begin

unbundle bit_operations_syntax

text \<open>
  Hard-link emulation for hosts that refuse \<open>link(2)\<close>
  (\<open>src/src/engines/rootless/link_store.cpp\<close>).  The host's file calls are a parameter, the record
  \<open>link_host\<close> over a file system state \<open>'f\<close>; a call returns \<open>0\<close> or its errno and the new state.
  The members of \<open>LinkStore\<close> and the process-wide counter form the record \<open>link_store\<close>.  The
  operations are those of one session; the \<open>flock\<close> of the store serialises sessions.
\<close>

section \<open>State\<close>

record 'f link_host =
  lk_readlink :: "'f \<Rightarrow> string \<Rightarrow> errno + string"
  lk_lstat :: "'f \<Rightarrow> string \<Rightarrow> errno + (64 word \<times> 64 word)"
  lk_symlink :: "string \<Rightarrow> string \<Rightarrow> 'f \<Rightarrow> errno \<times> 'f"
  lk_unlink :: "string \<Rightarrow> 'f \<Rightarrow> errno \<times> 'f"
  lk_rename :: "string \<Rightarrow> string \<Rightarrow> 'f \<Rightarrow> errno \<times> 'f"
  lk_link :: "string \<Rightarrow> string \<Rightarrow> 'f \<Rightarrow> errno \<times> 'f"
  lk_mkdir :: "string \<Rightarrow> 'f \<Rightarrow> errno \<times> 'f"
  lk_lock :: "string \<Rightarrow> 'f \<Rightarrow> 'f"
  lk_mkostemp :: "string \<Rightarrow> 'f \<Rightarrow> string option \<times> 'f"
  lk_readdir :: "'f \<Rightarrow> string \<Rightarrow> string list option"
  lk_getrandom :: "'f \<Rightarrow> 8 word list option"
  lk_urandom :: "'f \<Rightarrow> 8 word list option"
  lk_realtime_ns :: "'f \<Rightarrow> 64 word"
  lk_monotonic_ns :: "'f \<Rightarrow> 64 word"
  lk_pid :: int

type_synonym dev_ino = "64 word \<times> 64 word"

record link_store =
  ls_objects :: "dev_ino \<rightharpoonup> string \<times> string"
  ls_by_path :: "string \<rightharpoonup> dev_ino"
  ls_checked_ns :: "64 word"
  ls_present :: bool
  ls_counter :: "64 word"

record link_record =
  lr_count :: nat
  lr_names :: "string list"

definition empty_record :: link_record where
  "empty_record = \<lparr>lr_count = 1, lr_names = []\<rparr>"

definition new_link_store :: link_store where
  "new_link_store = \<lparr>ls_objects = Map.empty, ls_by_path = Map.empty, ls_checked_ns = 0,
     ls_present = False, ls_counter = 0\<rparr>"

definition kRecordMax :: nat where "kRecordMax = 4095"

abbreviation newline :: char where "newline \<equiv> CHR 0x0A"

section \<open>Identifiers\<close>

definition kHex :: string where "kHex = ''0123456789abcdef''"

definition hex_byte :: "8 word \<Rightarrow> string" where
  "hex_byte c = [kHex ! unat (drop_bit 4 c), kHex ! unat (c AND 0xF)]"

definition clock_bytes :: "64 word \<Rightarrow> 64 word \<Rightarrow> 8 word list" where
  "clock_bytes a b = map (\<lambda>i. ucast (drop_bit (8 * i) a)) [0..<8] @ map (\<lambda>i. ucast (drop_bit (8 * i) b)) [0..<8]"

definition raw_ok :: "8 word list option \<Rightarrow> bool" where
  "raw_ok r \<longleftrightarrow> (case r of None \<Rightarrow> False | Some bs \<Rightarrow> length bs = 16)"

definition random_id :: "'f link_host \<Rightarrow> 'f \<Rightarrow> link_store \<Rightarrow> string \<times> link_store" where
  "random_id lh fs ls =
     (if raw_ok (lk_getrandom lh fs) then (concat (map hex_byte (the (lk_getrandom lh fs))), ls)
      else if raw_ok (lk_urandom lh fs) then (concat (map hex_byte (the (lk_urandom lh fs))), ls)
      else let n = ls_counter ls + 1;
               b = push_bit 32 (word_of_int (lk_pid lh)) XOR n
           in (concat (map hex_byte (clock_bytes (lk_realtime_ns lh fs) b)), ls\<lparr>ls_counter := n\<rparr>))"

section \<open>Reading and writing records\<close>

definition store_read_link :: "'f link_host \<Rightarrow> 'f \<Rightarrow> string \<Rightarrow> errno + string" where
  "store_read_link lh fs path =
     (case lk_readlink lh fs path of
        Inl e \<Rightarrow> Inl e
      | Inr t \<Rightarrow> if length t \<ge> kRecordMax + 1 then Inl ENAMETOOLONG else Inr t)"

text \<open>
  \<open>strtoul(s, &end, 10)\<close>: white space, an optional sign, digits.  The result is the value, whether
  any digit was read (\<open>end != s\<close>) and what is left at \<open>end\<close>.
\<close>

definition c_space :: "char \<Rightarrow> bool" where
  "c_space c \<longleftrightarrow> byte c = 32 \<or> (9 \<le> byte c \<and> byte c \<le> 13)"

definition strtoul :: "string \<Rightarrow> 64 word \<times> bool \<times> string" where
  "strtoul s =
     (let s1 = dropWhile c_space s;
          neg = (s1 \<noteq> [] \<and> hd s1 = CHR ''-'');
          s2 = (if s1 \<noteq> [] \<and> (hd s1 = CHR ''-'' \<or> hd s1 = CHR ''+'') then tl s1 else s1);
          ds = takeWhile (\<lambda>c. digit_byte c) s2;
          v = dec_value ds;
          w = (if v \<ge> 2 ^ 64 then - 1 else if neg then - of_nat v else of_nat v)
      in if ds = [] then (0, False, s) else (w, True, dropWhile (\<lambda>c. digit_byte c) s2))"

function record_names :: "string \<Rightarrow> string list" where
  "record_names raw =
     (case find_char newline raw of
        None \<Rightarrow> []
      | Some k \<Rightarrow>
          (let rest = drop (Suc k) raw;
               name = (case find_char newline rest of None \<Rightarrow> rest | Some n \<Rightarrow> take n rest)
           in (if name \<noteq> [] then [name] else []) @ record_names rest))"
  by pat_completeness auto
termination
  by (relation "measure length") (auto dest: find_char_SomeD)

declare record_names.simps [simp del]

definition parse_record :: "string \<Rightarrow> link_record" where
  "parse_record raw =
     (let head = (case find_char newline raw of None \<Rightarrow> raw | Some k \<Rightarrow> take k raw);
          (n, digits, rest) = strtoul head
      in \<lparr>lr_count = (if digits \<and> rest = [] \<and> n > 0 \<and> n < 0x7fffffff then unat n else lr_count empty_record),
          lr_names = record_names raw\<rparr>)"

definition record_path :: "string \<Rightarrow> string \<Rightarrow> string" where
  "record_path store i = store @ slash # i @ ''.n''"

definition read_record :: "'f link_host \<Rightarrow> 'f \<Rightarrow> string \<Rightarrow> string \<Rightarrow> link_record option" where
  "read_record lh fs store i =
     (case store_read_link lh fs (record_path store i) of
        Inl e \<Rightarrow> None
      | Inr raw \<Rightarrow> Some (parse_record raw))"

definition add_name :: "string \<Rightarrow> string \<Rightarrow> string" where
  "add_name body name =
     (if newline \<in> set name \<or> length body + 1 + length name > kRecordMax then body
      else body @ newline # name)"

definition record_body :: "link_record \<Rightarrow> string" where
  "record_body r = foldl add_name (dec_string (lr_count r)) (lr_names r)"

definition write_record ::
  "'f link_host \<Rightarrow> string \<Rightarrow> string \<Rightarrow> link_record \<Rightarrow> 'f \<times> link_store \<Rightarrow> errno \<times> 'f \<times> link_store" where
  "write_record lh store i r st =
     (case st of (fs, ls) \<Rightarrow>
        (let final_path = record_path store i;
             n = ls_counter ls + 1;
             ls' = ls\<lparr>ls_counter := n\<rparr>;
             tmp = final_path @ ''.'' @ int_string (lk_pid lh) @ ''.'' @ dec_string (unat n)
         in case lk_symlink lh (record_body r) tmp fs of
              (e, fs1) \<Rightarrow>
                if e \<noteq> 0 then (e, fs1, ls')
                else case lk_rename lh tmp final_path fs1 of
                  (e2, fs2) \<Rightarrow>
                    if e2 \<noteq> 0 then (e2, snd (lk_unlink lh tmp fs2), ls') else (0, fs2, ls')))"

definition remove_record :: "'f link_host \<Rightarrow> string \<Rightarrow> string \<Rightarrow> 'f \<Rightarrow> 'f" where
  "remove_record lh store i fs = snd (lk_unlink lh (record_path store i) fs)"

section \<open>Objects known by device and inode\<close>

text \<open>The C library's encoding of device numbers.\<close>

definition makedev :: "32 word \<Rightarrow> 32 word \<Rightarrow> 64 word" where
  "makedev ma mi =
     push_bit 32 (ucast ma AND 0xfffff000) OR push_bit 8 (ucast ma AND 0xfff) OR
     push_bit 12 (ucast mi AND 0xffffff00) OR (ucast mi AND 0xff)"

definition dev_major :: "64 word \<Rightarrow> 32 word" where
  "dev_major d = ucast ((drop_bit 32 d AND 0xfffff000) OR (drop_bit 8 d AND 0xfff))"

definition dev_minor :: "64 word \<Rightarrow> 32 word" where
  "dev_minor d = ucast ((drop_bit 12 d AND 0xffffff00) OR (d AND 0xff))"

definition dev_key :: "64 word \<Rightarrow> 64 word" where
  "dev_key d = makedev (dev_major d) (dev_minor d)"

definition store_of :: "mount \<Rightarrow> string" where
  "store_of m = link_store_path (m_host m)"

definition object_path :: "string \<Rightarrow> string \<Rightarrow> string" where
  "object_path store i = store @ slash # i"

definition remember :: "'f link_host \<Rightarrow> 'f \<Rightarrow> string \<Rightarrow> string \<Rightarrow> link_store \<Rightarrow> link_store" where
  "remember lh fs store i ls =
     (case lk_lstat lh fs (object_path store i) of
        Inl e \<Rightarrow> ls
      | Inr (dev, ino) \<Rightarrow>
          (let key = (dev_key dev, ino)
           in ls\<lparr>ls_objects := (ls_objects ls)(key \<mapsto> (store, i)),
                 ls_by_path := (ls_by_path ls)(object_path store i \<mapsto> key)\<rparr>))"

definition forget_object :: "string \<Rightarrow> string \<Rightarrow> link_store \<Rightarrow> link_store" where
  "forget_object store i ls =
     (case ls_by_path ls (object_path store i) of
        None \<Rightarrow> ls
      | Some key \<Rightarrow>
          ls\<lparr>ls_objects := (ls_objects ls)(key := None),
             ls_by_path := (ls_by_path ls)(object_path store i := None)\<rparr>)"

definition may_hold_links :: "mount \<Rightarrow> bool" where
  "may_hold_links m \<longleftrightarrow> \<not> (m_kind m \<noteq> Kind_rootfs \<and> m_kind m \<noteq> Kind_bind)"

definition scan_mount :: "'f link_host \<Rightarrow> 'f \<Rightarrow> mount \<Rightarrow> link_store \<Rightarrow> link_store" where
  "scan_mount lh fs m ls =
     (if \<not> may_hold_links m then ls
      else case lk_readdir lh fs (store_of m) of
          None \<Rightarrow> ls
        | Some ents \<Rightarrow>
            foldl (\<lambda>ls ent. if is_link_id ent then remember lh fs (store_of m) ent ls else ls) ls ents)"

definition scan :: "'f link_host \<Rightarrow> 'f \<Rightarrow> mount_table \<Rightarrow> link_store \<Rightarrow> link_store" where
  "scan lh fs t ls = foldl (\<lambda>ls m. scan_mount lh fs m ls) ls t"

definition has_objects :: "link_store \<Rightarrow> bool" where
  "has_objects ls \<longleftrightarrow> ls_objects ls \<noteq> Map.empty"

definition kRecheckNs :: "64 word" where "kRecheckNs = 500000000"

definition store_has_object :: "'f link_host \<Rightarrow> 'f \<Rightarrow> mount \<Rightarrow> bool" where
  "store_has_object lh fs m \<longleftrightarrow>
     may_hold_links m \<and>
     (case lk_readdir lh fs (store_of m) of None \<Rightarrow> False | Some ents \<Rightarrow> list_ex is_link_id ents)"

definition stores_present :: "'f link_host \<Rightarrow> 'f \<Rightarrow> mount_table \<Rightarrow> link_store \<Rightarrow> bool \<times> link_store" where
  "stores_present lh fs t ls =
     (let now = lk_monotonic_ns lh fs
      in if ls_checked_ns ls \<noteq> 0 \<and> now - ls_checked_ns ls < kRecheckNs then (ls_present ls, ls)
         else let p = list_ex (store_has_object lh fs) t
              in (p, ls\<lparr>ls_checked_ns := now, ls_present := p\<rparr>))"

definition note_object :: "'f link_host \<Rightarrow> 'f \<Rightarrow> mount \<Rightarrow> string \<Rightarrow> link_store \<Rightarrow> link_store" where
  "note_object lh fs m i ls =
     (if ls_by_path ls (object_path (store_of m) i) = None then remember lh fs (store_of m) i ls else ls)"

definition count_for :: "'f link_host \<Rightarrow> 'f \<Rightarrow> link_store \<Rightarrow> 32 word \<Rightarrow> 32 word \<Rightarrow> 64 word \<Rightarrow> nat option" where
  "count_for lh fs ls ma mi ino =
     (case ls_objects ls (makedev ma mi, ino) of
        None \<Rightarrow> None
      | Some (store, i) \<Rightarrow> map_option lr_count (read_record lh fs store i))"

section \<open>Names\<close>

definition kernel_refuses_link :: "'f link_host \<Rightarrow> string \<Rightarrow> 'f \<Rightarrow> bool \<times> 'f" where
  "kernel_refuses_link lh dir fs =
     (let tmpl = (if dir = [] \<or> last dir \<noteq> slash then dir @ [slash] else dir) @ ''.vhdp-link-probe-XXXXXX''
      in case lk_mkostemp lh tmpl fs of
           (None, fs1) \<Rightarrow> (False, fs1)
         | (Some name, fs1) \<Rightarrow>
             (case lk_link lh name (name @ ''.l'') fs1 of
                (e, fs2) \<Rightarrow>
                  (let fs3 = (if e = 0 then snd (lk_unlink lh (name @ ''.l'') fs2) else fs2)
                   in (e \<noteq> 0 \<and> (e = EACCES \<or> e = EPERM), snd (lk_unlink lh name fs3)))))"

definition entry_id :: "'f link_host \<Rightarrow> 'f \<Rightarrow> string \<Rightarrow> string" where
  "entry_id lh fs name =
     (case store_read_link lh fs name of Inl e \<Rightarrow> [] | Inr t \<Rightarrow> link_target_id t)"

definition target_for :: "mount \<Rightarrow> string \<Rightarrow> string \<Rightarrow> string" where
  "target_for m name i =
     (if is_below name (m_host m)
      then concat (replicate (length (components (suffix_after name (m_host m))) - 1) ''../'') @ kLinkStoreDir
      else store_of m) @ slash # i"

definition link_new ::
  "'f link_host \<Rightarrow> mount \<Rightarrow> string \<Rightarrow> string \<Rightarrow> 'f \<times> link_store \<Rightarrow> errno \<times> 'f \<times> link_store" where
  "link_new lh m old_host new_host st =
     (case st of (fs, ls0) \<Rightarrow>
      case random_id lh fs ls0 of (i, ls) \<Rightarrow>
        (let store = store_of m; object = object_path store i
         in case lk_symlink lh (target_for m new_host i) new_host fs of
              (e, fs1) \<Rightarrow>
              if e \<noteq> 0 then (e, fs1, ls)
              else case lk_mkdir lh store fs1 of
                (e, fs2) \<Rightarrow>
                if e \<noteq> 0 \<and> e \<noteq> EEXIST then (e, snd (lk_unlink lh new_host fs2), ls)
                else case write_record lh store i \<lparr>lr_count = 2, lr_names = [old_host, new_host]\<rparr>
                            (lk_lock lh store fs2, ls) of
                  (e, fs3, ls3) \<Rightarrow>
                  if e \<noteq> 0 then (e, snd (lk_unlink lh new_host fs3), ls3)
                  else case lk_rename lh old_host object fs3 of
                    (e, fs4) \<Rightarrow>
                    if e \<noteq> 0
                    then (e, snd (lk_unlink lh new_host (remove_record lh store i fs4)), ls3)
                    else case lk_symlink lh (target_for m old_host i) old_host fs4 of
                      (e, fs5) \<Rightarrow>
                      if e \<noteq> 0
                      then (e, snd (lk_unlink lh new_host
                              (remove_record lh store i (snd (lk_rename lh object old_host fs5)))), ls3)
                      else (0, fs5, remember lh fs5 store i ls3)))"

definition link_existing ::
  "'f link_host \<Rightarrow> mount \<Rightarrow> string \<Rightarrow> string \<Rightarrow> 'f \<times> link_store \<Rightarrow> errno \<times> 'f \<times> link_store" where
  "link_existing lh m i new_host st =
     (case st of (fs, ls) \<Rightarrow>
        (let store = store_of m; object = object_path store i
         in case lk_lstat lh fs object of
              Inl e \<Rightarrow> (ENOENT, fs, ls)
            | Inr d \<Rightarrow>
              (case lk_symlink lh (target_for m new_host i) new_host fs of
                (e, fs1) \<Rightarrow>
                if e \<noteq> 0 then (e, fs1, ls)
                else let fs2 = lk_lock lh store fs1
                     in case lk_lstat lh fs2 object of
                          Inl e \<Rightarrow> (ENOENT, snd (lk_unlink lh new_host fs2), ls)
                        | Inr d2 \<Rightarrow>
                          (let rec0 = (case read_record lh fs2 store i of None \<Rightarrow> empty_record | Some r \<Rightarrow> r);
                               r = \<lparr>lr_count = lr_count rec0 + 1,
                                    lr_names = (if new_host \<in> set (lr_names rec0) then lr_names rec0
                                                else lr_names rec0 @ [new_host])\<rparr>
                           in case write_record lh store i r (fs2, ls) of
                                (e, fs3, ls3) \<Rightarrow>
                                if e \<noteq> 0 then (e, snd (lk_unlink lh new_host fs3), ls3)
                                else (0, fs3, remember lh fs3 store i ls3)))))"

text \<open>The names tried, in order, to take the file back when one name is left.\<close>

fun restore_name :: "'f link_host \<Rightarrow> string \<Rightarrow> string \<Rightarrow> string list \<Rightarrow> 'f \<Rightarrow> bool \<times> 'f" where
  "restore_name lh object i [] fs = (False, fs)"
| "restore_name lh object i (name # names) fs =
     (if entry_id lh fs name = i
      then (case lk_rename lh object name fs of
              (e, fs1) \<Rightarrow> if e = 0 then (True, fs1) else restore_name lh object i names fs1)
      else restore_name lh object i names fs)"

definition release ::
  "'f link_host \<Rightarrow> string \<Rightarrow> string \<Rightarrow> string \<Rightarrow> 'f \<times> link_store \<Rightarrow> 'f \<times> link_store" where
  "release lh store i gone st =
     (case st of (fs0, ls) \<Rightarrow>
        (let fs = lk_lock lh store fs0
         in case read_record lh fs store i of
              None \<Rightarrow> (fs, ls)
            | Some r0 \<Rightarrow>
              (let r = \<lparr>lr_count = (if lr_count r0 > 0 then lr_count r0 - 1 else 0),
                        lr_names = filter (\<lambda>n. n \<noteq> gone) (lr_names r0)\<rparr>;
                   object = object_path store i
               in if lr_count r = 0
                  then (remove_record lh store i (snd (lk_unlink lh object fs)), forget_object store i ls)
                  else let (restored, fs1) =
                             (if lr_count r = 1 then restore_name lh object i (lr_names r) fs else (False, fs))
                       in if restored then (remove_record lh store i fs1, forget_object store i ls)
                          else snd (write_record lh store i r (fs1, ls)))))"

definition unlink_name ::
  "'f link_host \<Rightarrow> mount \<Rightarrow> string \<Rightarrow> string \<Rightarrow> 'f \<times> link_store \<Rightarrow> errno \<times> 'f \<times> link_store" where
  "unlink_name lh m i host_name st =
     (case st of (fs, ls) \<Rightarrow>
      case lk_unlink lh host_name fs of
        (e, fs1) \<Rightarrow> if e \<noteq> 0 then (e, fs1, ls) else (0, release lh (store_of m) i host_name (fs1, ls)))"

definition name_dropped ::
  "'f link_host \<Rightarrow> mount \<Rightarrow> string \<Rightarrow> string \<Rightarrow> 'f \<times> link_store \<Rightarrow> 'f \<times> link_store" where
  "name_dropped lh m i host_name st = release lh (store_of m) i host_name st"

definition name_moved ::
  "'f link_host \<Rightarrow> mount \<Rightarrow> string \<Rightarrow> string \<Rightarrow> string \<Rightarrow> 'f \<times> link_store \<Rightarrow> 'f \<times> link_store" where
  "name_moved lh m i from to_name st =
     (case st of (fs0, ls) \<Rightarrow>
        (let store = store_of m; fs = lk_lock lh store fs0
         in case read_record lh fs store i of
              None \<Rightarrow> (fs, ls)
            | Some r \<Rightarrow>
              (let names = map (\<lambda>n. if n = from then to_name else n) (lr_names r);
                   names' = (if to_name \<in> set names then names else names @ [to_name])
               in snd (write_record lh store i \<lparr>lr_count = lr_count r, lr_names = names'\<rparr> (fs, ls)))))"

section \<open>Records are read back\<close>

text \<open>The names of a record that its text has room for.\<close>

fun kept_names :: "nat \<Rightarrow> string list \<Rightarrow> string list" where
  "kept_names len [] = []"
| "kept_names len (n # ns) =
     (if newline \<in> set n \<or> len + 1 + length n > kRecordMax then kept_names len ns
      else n # kept_names (len + 1 + length n) ns)"

lemma foldl_add_name:
  "foldl add_name body ns = body @ concat (map (\<lambda>n. newline # n) (kept_names (length body) ns))"
proof (induction ns arbitrary: body)
  case (Cons n ns)
  then show ?case by (cases "newline \<in> set n \<or> length body + 1 + length n > kRecordMax")
      (auto simp: add_name_def)
qed simp

lemma kept_names_no_newline: "n \<in> set (kept_names len ns) \<Longrightarrow> newline \<notin> set n"
  by (induction len ns rule: kept_names.induct) (auto split: if_splits)

lemma kept_names_subseq: "subseq (kept_names len ns) ns"
  by (induction len ns rule: kept_names.induct) auto

lemma kept_names_length:
  "len \<le> kRecordMax \<Longrightarrow>
     len + length (concat (map (\<lambda>n. newline # n) (kept_names len ns))) \<le> kRecordMax"
proof (induction len ns rule: kept_names.induct)
  case (2 len n ns)
  then show ?case by (cases "newline \<in> set n \<or> len + 1 + length n > kRecordMax") auto
qed simp

lemma kept_names_all:
  assumes "list_all (\<lambda>n. newline \<notin> set n) ns" and "len + sum_list (map (\<lambda>n. Suc (length n)) ns) \<le> kRecordMax"
  shows "kept_names len ns = ns"
  using assms by (induction len ns rule: kept_names.induct) auto

lemma record_names_split:
  "record_names raw = filter (\<lambda>n. n \<noteq> []) (tl (split_on newline raw))"
proof (induction raw rule: record_names.induct)
  case (1 raw)
  show ?case
  proof (cases "find_char newline raw")
    case None
    then have "split_on newline raw = [raw]" using split_on_id find_char_None by metis
    then show ?thesis using None by (subst record_names.simps) (simp del: find_char_None)
  next
    case (Some k)
    let ?rest = "drop (Suc k) raw"
    have tw: "dropWhile (\<lambda>x. x \<noteq> newline) raw = newline # ?rest"
      using find_char_takeWhile [OF Some] by simp
    have tl1: "tl (split_on newline raw) = split_on newline ?rest"
      by (subst split_on_break) (simp add: tw)
    have hd1: "hd (split_on newline ?rest) =
        (case find_char newline ?rest of None \<Rightarrow> ?rest | Some n \<Rightarrow> take n ?rest)"
      by (subst split_on_break)
        (auto simp: find_char_takeWhile takeWhile_eq_all_conv split: option.split list.split)
    have "record_names raw =
        (if hd (split_on newline ?rest) \<noteq> [] then [hd (split_on newline ?rest)] else []) @ record_names ?rest"
      using Some hd1 by (subst record_names.simps) (simp add: Let_def)
    also have "record_names ?rest = filter (\<lambda>n. n \<noteq> []) (tl (split_on newline ?rest))"
      using "1.IH" [OF Some refl refl] by simp
    finally show ?thesis
      unfolding tl1 by (cases "split_on newline ?rest") auto
  qed
qed

lemma split_on_records:
  "newline \<notin> set d \<Longrightarrow> \<forall>n \<in> set ns. newline \<notin> set n \<Longrightarrow>
     split_on newline (d @ concat (map (\<lambda>n. newline # n) ns)) = d # ns"
  by (induction ns arbitrary: d) (auto simp: split_on_id split_on_app_sep)

lemma digit_not_special: "digit_byte c \<Longrightarrow> c \<noteq> newline \<and> \<not> c_space c \<and> c \<noteq> CHR ''-'' \<and> c \<noteq> CHR ''+''"
  by (auto simp: c_space_def)

lemma strtoul_dec_string:
  assumes "n < 2 ^ 64"
  shows "strtoul (dec_string n) = (of_nat n, True, [])"
proof -
  obtain c cs where d: "dec_string n = c # cs" using dec_string_ne [of n] by (cases "dec_string n") auto
  have all: "\<forall>x \<in> set (c # cs). digit_byte x" using dec_string_all_digits [of n] d by simp
  then have "dropWhile c_space (c # cs) = c # cs" "c \<noteq> CHR ''-''" "c \<noteq> CHR ''+''"
    using digit_not_special [of c] by auto
  moreover have "takeWhile (\<lambda>c. digit_byte c) (c # cs) = c # cs" "dropWhile (\<lambda>c. digit_byte c) (c # cs) = []"
    using all by (auto simp: takeWhile_eq_all_conv)
  moreover have "dec_value (c # cs) = n" using dec_value_dec_string [of n] d by simp
  ultimately show ?thesis
    unfolding d strtoul_def Let_def using assms by simp
qed

lemma record_body_split:
  "record_body r = dec_string (lr_count r) @
     concat (map (\<lambda>n. newline # n) (kept_names (length (dec_string (lr_count r))) (lr_names r)))"
  by (simp add: record_body_def foldl_add_name)

lemma parse_record_body:
  assumes "0 < lr_count r" and "lr_count r < 0x7fffffff"
  shows "parse_record (record_body r) =
    \<lparr>lr_count = lr_count r,
     lr_names = filter (\<lambda>n. n \<noteq> []) (kept_names (length (dec_string (lr_count r))) (lr_names r))\<rparr>"
proof -
  let ?d = "dec_string (lr_count r)" and ?ks = "kept_names (length (dec_string (lr_count r))) (lr_names r)"
  have nl: "newline \<notin> set ?d" using dec_string_all_digits [of "lr_count r"] digit_not_special by blast
  have sp: "split_on newline (record_body r) = ?d # ?ks"
    unfolding record_body_split using nl kept_names_no_newline by (intro split_on_records) auto
  have "(case find_char newline (record_body r) of None \<Rightarrow> record_body r | Some k \<Rightarrow> take k (record_body r)) = ?d"
  proof (cases "find_char newline (record_body r)")
    case None
    then have "split_on newline (record_body r) = [record_body r]" using split_on_id find_char_None by metis
    then show ?thesis using None sp by (simp del: find_char_None)
  next
    case (Some k)
    then show ?thesis
      using sp split_on_break [of newline "record_body r"] find_char_takeWhile [OF Some] by simp
  qed
  moreover have "strtoul ?d = (of_nat (lr_count r), True, [])"
    using assms by (intro strtoul_dec_string) simp
  moreover have "(of_nat (lr_count r) :: 64 word) > 0" "(of_nat (lr_count r) :: 64 word) < 0x7fffffff"
    "unat (of_nat (lr_count r) :: 64 word) = lr_count r"
    using assms by (simp_all add: word_less_nat_alt unat_of_nat)
  ultimately show ?thesis
    unfolding parse_record_def record_names_split sp by simp
qed

section \<open>What the store relies on of the host\<close>

text \<open>
  The entries of the host's directories as the store sees them.  The paths are those the resolver
  produced, without symlinks on the way, so different strings are different entries.
\<close>

datatype node = N_sym string | N_file nat | N_dir

type_synonym 'f fs_view = "'f \<Rightarrow> string \<Rightarrow> node option"

definition reads_links :: "'f link_host \<Rightarrow> 'f fs_view \<Rightarrow> bool" where
  "reads_links lh v \<longleftrightarrow>
     (\<forall>fs p t. lk_readlink lh fs p = Inr t \<longleftrightarrow> v fs p = Some (N_sym t)) \<and>
     (\<forall>fs p. (\<exists>d. lk_lstat lh fs p = Inr d) \<longleftrightarrow> v fs p \<noteq> None)"

definition changes :: "'f fs_view \<Rightarrow> 'f \<Rightarrow> errno \<times> 'f \<Rightarrow> bool \<Rightarrow> (string \<Rightarrow> node option) \<Rightarrow> bool" where
  "changes v fs r can w \<longleftrightarrow> (if fst r = 0 then can \<and> v (snd r) = w else v (snd r) = v fs)"

definition edits_entries :: "'f link_host \<Rightarrow> 'f fs_view \<Rightarrow> bool" where
  "edits_entries lh v \<longleftrightarrow>
     (\<forall>fs t p. changes v fs (lk_symlink lh t p fs) (v fs p = None) ((v fs)(p \<mapsto> N_sym t))) \<and>
     (\<forall>fs p. changes v fs (lk_unlink lh p fs) (v fs p \<noteq> None) ((v fs)(p := None))) \<and>
     (\<forall>fs p. changes v fs (lk_mkdir lh p fs) (v fs p = None) ((v fs)(p \<mapsto> N_dir))) \<and>
     (\<forall>fs a b. a \<noteq> b \<longrightarrow> v fs a \<noteq> Some N_dir \<longrightarrow>
        changes v fs (lk_rename lh a b fs) (v fs a \<noteq> None) ((v fs)(a := None, b := v fs a))) \<and>
     (\<forall>fs s p. p \<noteq> s @ ''/.lock'' \<longrightarrow> v (lk_lock lh s fs) p = v fs p)"

text \<open>
  Undoing works: a symlink can be removed, and a file moved away can be moved back, also over a
  symlink left in its place.
\<close>

definition undoes :: "'f link_host \<Rightarrow> 'f fs_view \<Rightarrow> bool" where
  "undoes lh v \<longleftrightarrow>
     (\<forall>fs p t. v fs p = Some (N_sym t) \<longrightarrow> fst (lk_unlink lh p fs) = 0) \<and>
     (\<forall>fs fs1 fs2 a b. lk_rename lh a b fs = (0, fs1) \<longrightarrow>
        (case v fs2 a of None \<Rightarrow> True | Some (N_sym t) \<Rightarrow> True | _ \<Rightarrow> False) \<longrightarrow> v fs2 b = v fs a \<longrightarrow>
        fst (lk_rename lh b a fs2) = 0)"

lemma readlink_view:
  assumes "reads_links lh v"
  shows "store_read_link lh fs p = Inr t \<longleftrightarrow> v fs p = Some (N_sym t) \<and> length t \<le> kRecordMax"
proof -
  have rl: "v fs p = Some (N_sym t) \<longleftrightarrow> lk_readlink lh fs p = Inr t"
    using assms unfolding reads_links_def by blast
  show ?thesis unfolding store_read_link_def rl by (auto split: sum.split)
qed

lemma entry_id_view:
  assumes "reads_links lh v" and "v fs p = Some (N_sym t)" and "length t \<le> kRecordMax"
  shows "entry_id lh fs p = link_target_id t"
  using readlink_view [OF assms(1), of fs p t] assms(2,3) by (simp add: entry_id_def)

lemma read_record_view:
  assumes "reads_links lh v" and "v fs (record_path store i) = Some (N_sym t)" and "length t \<le> kRecordMax"
  shows "read_record lh fs store i = Some (parse_record t)"
  using readlink_view [OF assms(1), of fs "record_path store i" t] assms(2,3) by (simp add: read_record_def)

lemma edits:
  assumes "edits_entries lh v"
  shows edit_symlink: "lk_symlink lh t p fs = (e, fs') \<Longrightarrow>
      (if e = 0 then v fs p = None \<and> v fs' = (v fs)(p \<mapsto> N_sym t) else v fs' = v fs)"
    and edit_unlink: "lk_unlink lh p fs = (e, fs') \<Longrightarrow>
      (if e = 0 then v fs p \<noteq> None \<and> v fs' = (v fs)(p := None) else v fs' = v fs)"
    and edit_mkdir: "lk_mkdir lh p fs = (e, fs') \<Longrightarrow>
      (if e = 0 then v fs p = None \<and> v fs' = (v fs)(p \<mapsto> N_dir) else v fs' = v fs)"
    and edit_rename: "lk_rename lh a b fs = (e, fs') \<Longrightarrow> a \<noteq> b \<Longrightarrow> v fs a \<noteq> Some N_dir \<Longrightarrow>
      (if e = 0 then v fs a \<noteq> None \<and> v fs' = (v fs)(a := None, b := v fs a) else v fs' = v fs)"
    and edit_lock: "p \<noteq> s @ ''/.lock'' \<Longrightarrow> v (lk_lock lh s fs) p = v fs p"
  using assms unfolding edits_entries_def changes_def by (metis fst_conv snd_conv)+

lemma undo_unlink:
  assumes "edits_entries lh v" and "undoes lh v" and "v fs p = Some (N_sym t)"
  shows "v (snd (lk_unlink lh p fs)) = (v fs)(p := None)"
proof -
  obtain fs' where "lk_unlink lh p fs = (0, fs')"
    using assms(2,3) unfolding undoes_def by (metis prod.collapse)
  then show ?thesis using edit_unlink [OF assms(1), of p fs 0 fs'] by simp
qed

lemma undo_rename:
  assumes "undoes lh v" and "lk_rename lh a b g = (0, g')" and "v fs b = v g a"
    and "v fs a = None \<or> v fs a = Some (N_sym t)"
  shows "fst (lk_rename lh b a fs) = 0"
proof -
  have "case v fs a of None \<Rightarrow> True | Some (N_sym t) \<Rightarrow> True | _ \<Rightarrow> False" using assms(4) by auto
  then show ?thesis using assms(1,2,3) unfolding undoes_def by blast
qed

section \<open>Paths of a store\<close>

lemma record_path_neq:
  "record_path s i \<noteq> object_path s i" "record_path s i \<noteq> s @ ''/.lock''" "record_path s i \<noteq> s"
  "object_path s i \<noteq> s"
  by (auto simp: record_path_def object_path_def append_eq_append_conv2 append_eq_Cons_conv)

lemma object_path_lock: "is_link_id i \<Longrightarrow> object_path s i \<noteq> s @ ''/.lock''"
  by (auto simp: object_path_def is_link_id_def kLinkIdLen_def)

definition in_store :: "string \<Rightarrow> string \<Rightarrow> bool" where
  "in_store store p \<longleftrightarrow> p = store \<or> prefix (store @ ''/'') p"

lemma in_store_paths [simp]:
  "in_store s s" "in_store s (record_path s i)" "in_store s (object_path s i)" "in_store s (s @ ''/.lock'')"
  "in_store s (record_path s i @ x)"
  by (auto simp: in_store_def record_path_def object_path_def prefix_def)

lemma write_record_effect:
  assumes "edits_entries lh v" and "undoes lh v"
    and "write_record lh store i r (fs, ls) = (e, fs', ls')"
    and "\<forall>p. prefix (record_path store i @ ''.'') p \<longrightarrow> v fs p = None"
  shows "v fs' = (if e = 0 then (v fs)(record_path store i \<mapsto> N_sym (record_body r)) else v fs)"
    and "ls_objects ls' = ls_objects ls" "ls_by_path ls' = ls_by_path ls"
proof -
  define tmp where "tmp = record_path store i @ ''.'' @ int_string (lk_pid lh) @ ''.'' @ dec_string (unat (ls_counter ls + 1))"
  have free: "v fs tmp = None" using assms(4) by (simp add: tmp_def prefix_def)
  have neq: "tmp \<noteq> record_path store i" by (simp add: tmp_def)
  obtain e1 fs1 where s: "lk_symlink lh (record_body r) tmp fs = (e1, fs1)" by fastforce
  obtain e2 fs2 where rn: "lk_rename lh tmp (record_path store i) fs1 = (e2, fs2)" by fastforce
  have w: "write_record lh store i r (fs, ls) =
      (if e1 \<noteq> 0 then (e1, fs1, ls\<lparr>ls_counter := ls_counter ls + 1\<rparr>)
       else if e2 \<noteq> 0 then (e2, snd (lk_unlink lh tmp fs2), ls\<lparr>ls_counter := ls_counter ls + 1\<rparr>)
       else (0, fs2, ls\<lparr>ls_counter := ls_counter ls + 1\<rparr>))"
    using s rn by (simp add: write_record_def Let_def tmp_def)
  show "ls_objects ls' = ls_objects ls" "ls_by_path ls' = ls_by_path ls"
    using assms(3) w by (auto split: if_splits)
  note v1 = edit_symlink [OF assms(1) s]
  have v2: "e1 = 0 \<Longrightarrow>
      (if e2 = 0 then v fs2 = (v fs)(tmp := None, record_path store i \<mapsto> N_sym (record_body r)) else v fs2 = v fs1)"
    using edit_rename [OF assms(1) rn neq] v1 by (simp split: if_splits)
  show "v fs' = (if e = 0 then (v fs)(record_path store i \<mapsto> N_sym (record_body r)) else v fs)"
  proof (cases "e1 = 0")
    case False
    then show ?thesis using w v1 assms(3) by auto
  next
    case e1: True
    show ?thesis
    proof (cases "e2 = 0")
      case True
      then show ?thesis using e1 w v2 assms(3) free by (auto simp: fun_eq_iff)
    next
      case False
      then have "v fs2 = (v fs)(tmp \<mapsto> N_sym (record_body r))" using e1 v1 v2 by simp
      then have "v (snd (lk_unlink lh tmp fs2)) = v fs"
        using undo_unlink [OF assms(1,2), of fs2 tmp "record_body r"] free by (simp add: fun_upd_idem)
      then show ?thesis using e1 False w assms(3) by simp
    qed
  qed
qed

section \<open>Linking\<close>

lemma kHex_id_char: "n < 16 \<Longrightarrow> id_char (kHex ! n)"
proof -
  have "list_all (\<lambda>n. id_char (kHex ! n)) [0..<16]" by code_simp
  then show "n < 16 \<Longrightarrow> id_char (kHex ! n)" by (simp add: list_all_iff)
qed

lemma hex_byte_ids: "list_all id_char (hex_byte c)" "length (hex_byte c) = 2"
proof -
  have "unat (drop_bit 4 c) < 16"
    using unsigned_less [of c, where ?'a = nat] unfolding unsigned_drop_bit_eq
    by (simp add: drop_bit_eq_div take_bit_nat_eq_self)
  moreover have "unat (c AND 0xF) < 16"
    using word_and_le1 [of c 15] by (simp add: word_le_nat_alt)
  ultimately show "list_all id_char (hex_byte c)" "length (hex_byte c) = 2"
    by (simp_all add: hex_byte_def kHex_id_char)
qed

lemma hex_bytes_link_id: "length bs = 16 \<Longrightarrow> is_link_id (concat (map hex_byte bs))"
proof -
  have "length (concat (map hex_byte bs)) = 2 * length bs" for bs
    by (induction bs) (auto simp: hex_byte_ids(2))
  then show "length bs = 16 \<Longrightarrow> is_link_id (concat (map hex_byte bs))"
    using hex_byte_ids(1) by (auto simp: is_link_id_def kLinkIdLen_def list_all_iff)
qed

lemma clock_bytes_length: "length (clock_bytes a b) = 16"
  by (simp add: clock_bytes_def)

lemma random_id_link_id:
  assumes "random_id lh fs ls = (i, ls')"
  shows "is_link_id i" "ls_objects ls' = ls_objects ls" "ls_by_path ls' = ls_by_path ls"
  using assms clock_bytes_length
  by (auto simp: random_id_def raw_ok_def Let_def split: if_splits option.splits
      intro!: hex_bytes_link_id)

text \<open>Everything but the store directory itself and its lock file.\<close>

definition off :: "string \<Rightarrow> string \<Rightarrow> bool" where
  "off store p \<longleftrightarrow> p \<noteq> store \<and> p \<noteq> store @ ''/.lock''"

definition fresh_id :: "(string \<Rightarrow> node option) \<Rightarrow> string \<Rightarrow> string \<Rightarrow> bool" where
  "fresh_id w store i \<longleftrightarrow> (\<forall>p. prefix (object_path store i) p \<longrightarrow> w p = None)"

lemma fresh_id_paths:
  assumes "fresh_id w store i"
  shows "w (object_path store i) = None" "w (record_path store i) = None"
    "prefix (record_path store i @ ''.'') p \<Longrightarrow> w p = None"
  using assms unfolding fresh_id_def record_path_def object_path_def
  by (auto simp: prefix_def)

lemma off_simps:
  "\<not> in_store store p \<Longrightarrow> off store p" "off store (record_path store i)"
  "is_link_id i \<Longrightarrow> off store (object_path store i)" "off store (record_path store i @ x)"
  by (auto simp: off_def record_path_def object_path_def is_link_id_def kLinkIdLen_def append_eq_Cons_conv)

definition linked_view ::
  "(string \<Rightarrow> node option) \<Rightarrow> mount \<Rightarrow> string \<Rightarrow> string \<Rightarrow> string \<Rightarrow> string \<Rightarrow> node option" where
  "linked_view w m i old_host new_host =
     w(new_host \<mapsto> N_sym (target_for m new_host i),
       record_path (store_of m) i \<mapsto> N_sym (record_body \<lparr>lr_count = 2, lr_names = [old_host, new_host]\<rparr>),
       object_path (store_of m) i := w old_host,
       old_host \<mapsto> N_sym (target_for m old_host i))"

lemma link_new_view:
  assumes laws: "edits_entries lh v" "undoes lh v"
    and rid: "random_id lh fs ls = (i, ls1)" and fresh: "fresh_id (v fs) (store_of m) i"
    and out: "\<not> in_store (store_of m) new_host" "\<not> in_store (store_of m) old_host"
    and old: "v fs old_host = Some n" "n \<noteq> N_dir"
    and run: "link_new lh m old_host new_host (fs, ls) = (e, fs', ls')"
    and p: "off (store_of m) p"
  shows "v fs' p = (if e = 0 then linked_view (v fs) m i old_host new_host p else v fs p)"
    and "e = 0 \<Longrightarrow> v fs new_host = None"
    and "e = 0 \<Longrightarrow> \<exists>g g'. lk_rename lh old_host (object_path (store_of m) i) g = (0, g') \<and> v g old_host = Some n"
    and "e = 0 \<Longrightarrow> \<exists>ls2. ls' = remember lh fs' (store_of m) i ls2"
proof -
  define store where "store = store_of m"
  define ob where "ob = object_path store i"
  define rc where "rc = record_path store i"
  define T where "T h = N_sym (target_for m h i)" for h
  define r where "r = \<lparr>lr_count = 2, lr_names = [old_host, new_host]\<rparr>"
  note defs = store_def ob_def rc_def T_def r_def
  have idi: "is_link_id i" using random_id_link_id [OF rid] by simp
  have offs: "off store new_host" "off store old_host" "off store ob" "off store rc"
    using out idi by (auto simp: defs off_simps)
  have ne: "new_host \<noteq> ob" "new_host \<noteq> rc" "old_host \<noteq> ob" "old_host \<noteq> rc" "ob \<noteq> rc"
    using out record_path_neq(1) [of "store_of m" i] by (auto simp: defs)
  have free: "v fs ob = None" "v fs rc = None"
    using fresh_id_paths [OF fresh] by (auto simp: defs)
  obtain e1 fs1 where s1: "lk_symlink lh (target_for m new_host i) new_host fs = (e1, fs1)" by fastforce
  obtain e2 fs2 where s2: "lk_mkdir lh store fs1 = (e2, fs2)" by fastforce
  define fl where "fl = lk_lock lh store fs2"
  obtain e3 fs3 ls3 where s3: "write_record lh store i r (fl, ls1) = (e3, fs3, ls3)" by (metis prod_cases3)
  obtain e4 fs4 where s4: "lk_rename lh old_host ob fs3 = (e4, fs4)" by fastforce
  obtain e5 fs5 where s5: "lk_symlink lh (target_for m old_host i) old_host fs4 = (e5, fs5)" by fastforce
  have prog: "link_new lh m old_host new_host (fs, ls) =
      (if e1 \<noteq> 0 then (e1, fs1, ls1)
       else if e2 \<noteq> 0 \<and> e2 \<noteq> EEXIST then (e2, snd (lk_unlink lh new_host fs2), ls1)
       else if e3 \<noteq> 0 then (e3, snd (lk_unlink lh new_host fs3), ls3)
       else if e4 \<noteq> 0 then (e4, snd (lk_unlink lh new_host (remove_record lh store i fs4)), ls3)
       else if e5 \<noteq> 0 then (e5, snd (lk_unlink lh new_host
            (remove_record lh store i (snd (lk_rename lh ob old_host fs5)))), ls3)
       else (0, fs5, remember lh fs5 store i ls3))"
    using rid s1 s2 s3 s4 s5 by (simp add: link_new_def Let_def defs fl_def)
  have u1: "e1 = 0 \<Longrightarrow> v fs new_host = None \<and> v fs1 = (v fs)(new_host := Some (T new_host))" "e1 \<noteq> 0 \<Longrightarrow> v fs1 = v fs"
    using edit_symlink [OF laws(1) s1] by (auto simp: T_def split: if_splits)
  have u2: "off store q \<Longrightarrow> v fs2 q = v fs1 q" "e2 \<noteq> 0 \<Longrightarrow> v fs2 = v fs1" for q
    using edit_mkdir [OF laws(1) s2] by (auto simp: off_def split: if_splits)
  have ul: "off store q \<Longrightarrow> v fl q = v fs1 q" for q
    using u2(1) edit_lock [OF laws(1), of q store fs2] by (simp add: fl_def off_def)
  have tmp: "\<forall>q. prefix (record_path store i @ ''.'') q \<longrightarrow> v fl q = None" if "e1 = 0"
  proof (intro allI impI)
    fix q assume q: "prefix (record_path store i @ ''.'') q"
    then obtain x where x: "q = record_path store i @ x" by (auto simp: prefix_def)
    have "q \<noteq> new_host" using out(1) x by (auto simp: defs)
    moreover have "off store q" using x by (simp add: off_simps)
    moreover have "v fs q = None" using fresh_id_paths(3) [OF fresh] q by (simp add: defs)
    ultimately show "v fl q = None" using ul u1(1) that by simp
  qed
  have u3: "v fs3 = (if e3 = 0 then (v fl)(rc \<mapsto> N_sym (record_body r)) else v fl)" if "e1 = 0"
    using write_record_effect(1) [OF laws s3 tmp [OF that]] by (simp add: rc_def)
  have old3: "v fs3 old_host = Some n" "new_host \<noteq> old_host" if "e1 = 0"
    using that u3 ul u1 old offs ne by (auto split: if_splits)
  have u4: "v fs4 = (if e4 = 0 then (v fs3)(old_host := None, ob \<mapsto> n) else v fs3)" if "e1 = 0"
    using edit_rename [OF laws(1) s4 ne(3)] old3 [OF that] old(2) by (auto split: if_splits)
  have u5: "v fs5 = (if e5 = 0 then (v fs4)(old_host := Some (T old_host)) else v fs4)"
    using edit_symlink [OF laws(1) s5] by (auto simp: T_def split: if_splits)
  show "e = 0 \<Longrightarrow> v fs new_host = None"
    using run prog u1 by (auto split: if_splits)
  show "e = 0 \<Longrightarrow> \<exists>g g'. lk_rename lh old_host (object_path (store_of m) i) g = (0, g') \<and> v g old_host = Some n"
    using run prog s4 old3(1) by (auto simp: defs split: if_splits)
  show "e = 0 \<Longrightarrow> \<exists>ls2. ls' = remember lh fs' (store_of m) i ls2"
    using run prog by (auto simp: defs split: if_splits)
  show "v fs' p = (if e = 0 then linked_view (v fs) m i old_host new_host p else v fs p)"
  proof -
    have base: "off store q \<Longrightarrow> v fl q = ((v fs)(new_host := Some (T new_host))) q" if "e1 = 0" for q
      using ul u1(1) [OF that] by simp
    have drop_new: "v (snd (lk_unlink lh new_host g)) p = v fs p"
      if "e1 = 0" "v g new_host = Some (T new_host)" "p \<noteq> new_host \<longrightarrow> v g p = v fs p" for g
      using undo_unlink [OF laws, of g new_host "target_for m new_host i"] that u1(1) by (auto simp: T_def)
    have rm: "v (remove_record lh store i g) = (v g)(rc := None)"
      if "v g rc = Some (N_sym (record_body r))" for g
      using undo_unlink [OF laws that] by (simp add: remove_record_def rc_def)
    have pst: "off store p" using p by (simp add: defs)
    consider "e1 \<noteq> 0" | "e1 = 0" "e2 \<noteq> 0" "e2 \<noteq> EEXIST" | "e1 = 0" "e2 = 0 \<or> e2 = EEXIST" "e3 \<noteq> 0"
      | "e1 = 0" "e2 = 0 \<or> e2 = EEXIST" "e3 = 0" "e4 \<noteq> 0"
      | "e1 = 0" "e2 = 0 \<or> e2 = EEXIST" "e3 = 0" "e4 = 0" "e5 \<noteq> 0"
      | "e1 = 0" "e2 = 0 \<or> e2 = EEXIST" "e3 = 0" "e4 = 0" "e5 = 0"
      by (cases "e1 = 0"; cases "e2 = 0 \<or> e2 = EEXIST"; cases "e3 = 0"; cases "e4 = 0"; cases "e5 = 0") simp_all
    then show ?thesis
    proof cases
      case 1
      then show ?thesis using run prog u1(2) by auto
    next
      case 2
      then show ?thesis using run prog u2(2) u1(1) drop_new [of fs2] by auto
    next
      case 3
      have "v fs3 new_host = Some (T new_host)" "p \<noteq> new_host \<longrightarrow> v fs3 p = v fs p"
        using 3 u3 base [OF 3(1)] offs(1) pst by auto
      then show ?thesis using 3 run prog drop_new [of fs3] by auto
    next
      case 4
      have v4: "v fs4 = (v fl)(rc \<mapsto> N_sym (record_body r))" using 4 u3 u4 by simp
      let ?g = "remove_record lh store i fs4"
      have "v ?g = (v fl)(rc := None)" using rm [of fs4] v4 by simp
      then have "v ?g new_host = Some (T new_host)" "p \<noteq> new_host \<longrightarrow> v ?g p = v fs p"
        using base [OF 4(1)] offs(1) pst ne(2) free(2) by auto
      then show ?thesis using 4 run prog drop_new [of ?g] by auto
    next
      case 5
      have v5: "v fs5 = (v fl)(rc \<mapsto> N_sym (record_body r), old_host := None, ob \<mapsto> n)"
        using 5 u3 u4 u5 by simp
      let ?b = "snd (lk_rename lh ob old_host fs5)"
      have "fst (lk_rename lh ob old_host fs5) = 0"
      proof -
        have "lk_rename lh old_host ob fs3 = (0, fs4)" "v fs5 old_host = None" "v fs5 ob = v fs3 old_host"
          using s4 5 v5 ne old3 by auto
        then show ?thesis using undo_rename [OF laws(2)] by simp
      qed
      then have "v ?b = (v fs5)(ob := None, old_host := v fs5 ob)"
        using edit_rename [OF laws(1), of ob old_host fs5 0 ?b] ne(3) v5 old(2) ne
        by (cases "lk_rename lh ob old_host fs5") (auto split: if_splits)
      then have vb: "v ?b = (v fl)(rc \<mapsto> N_sym (record_body r), ob := None, old_host := Some n)"
        using v5 ne by (auto simp: fun_eq_iff)
      let ?g = "remove_record lh store i ?b"
      have "v ?g = (v fl)(rc := None, ob := None, old_host := Some n)"
        using rm [of ?b] vb ne by (auto simp: fun_eq_iff)
      then have "v ?g new_host = Some (T new_host)" "p \<noteq> new_host \<longrightarrow> v ?g p = v fs p"
        using base [OF 5(1)] offs pst ne free old old3(2) [OF 5(1)] by auto
      then show ?thesis using 5 run prog drop_new [of ?g] by auto
    next
      case 6
      have "v fs5 = (v fl)(rc \<mapsto> N_sym (record_body r), old_host := Some (T old_host), ob \<mapsto> n)"
        using 6 u3 u4 u5 ne by (auto simp: fun_eq_iff)
      then have "v fs5 p = linked_view (v fs) m i old_host new_host p"
        using base [OF 6(1) pst] old(1) ne old3(2) [OF 6(1)]
        by (simp add: linked_view_def defs [symmetric] fun_upd_def)
      then show ?thesis using 6 run prog by auto
    qed
  qed
qed

lemma dots_end: "concat (replicate k ''../'') = [] \<or> last (concat (replicate k ''../'')) = slash"
  by (induction k) auto

lemma target_for_id:
  assumes "is_link_id i"
  shows "link_target_id (target_for m name i) = i"
proof (cases "is_below name (m_host m)")
  case True
  let ?pre = "concat (replicate (length (components (suffix_after name (m_host m))) - 1) ''../'')"
  have "?pre = [] \<or> last ?pre = slash" by (rule dots_end)
  then show ?thesis
    using link_target_id_intro [OF assms, of ?pre] True by (simp add: target_for_def)
next
  case False
  then show ?thesis using link_store_target [OF assms] by (simp add: target_for_def store_of_def)
qed

lemma two_name_record:
  assumes "newline \<notin> set a" "newline \<notin> set b" "a \<noteq> []" "b \<noteq> []" "length a + length b + 3 \<le> kRecordMax"
  shows "parse_record (record_body \<lparr>lr_count = 2, lr_names = [a, b]\<rparr>) = \<lparr>lr_count = 2, lr_names = [a, b]\<rparr>"
    "length (record_body \<lparr>lr_count = 2, lr_names = [a, b]\<rparr>) \<le> kRecordMax"
proof -
  have "length (dec_string 2) = 1" by (simp add: dec_string.simps)
  moreover have "kept_names 1 [a, b] = [a, b]" using assms by (intro kept_names_all) auto
  ultimately have k: "kept_names (length (dec_string 2)) [a, b] = [a, b]" "length (dec_string 2) = 1" by simp_all
  show "parse_record (record_body \<lparr>lr_count = 2, lr_names = [a, b]\<rparr>) = \<lparr>lr_count = 2, lr_names = [a, b]\<rparr>"
    using parse_record_body [of "\<lparr>lr_count = 2, lr_names = [a, b]\<rparr>"] k assms(3,4)
    by (simp del: kept_names.simps)
  show "length (record_body \<lparr>lr_count = 2, lr_names = [a, b]\<rparr>) \<le> kRecordMax"
    using assms(5) k by (simp add: record_body_split del: kept_names.simps)
qed

lemma drop_one_of_two:
  assumes laws: "reads_links lh v" "edits_entries lh v" "undoes lh v" and idi: "is_link_id i"
    and names: "{gone, other} = {a, b}" "gone \<noteq> other" "\<not> in_store (store_of m) gone" "\<not> in_store (store_of m) other"
    and text_ok: "newline \<notin> set a" "newline \<notin> set b" "a \<noteq> []" "b \<noteq> []" "length a + length b + 3 \<le> kRecordMax"
      "length (target_for m other i) \<le> kRecordMax"
    and st: "v fs gone = Some (N_sym (target_for m gone i))" "v fs other = Some (N_sym (target_for m other i))"
      "v fs (record_path (store_of m) i) = Some (N_sym (record_body \<lparr>lr_count = 2, lr_names = [a, b]\<rparr>))"
      "v fs (object_path (store_of m) i) = Some n" "n \<noteq> N_dir"
    and moves: "\<And>g. v g (object_path (store_of m) i) = Some n \<Longrightarrow> v g other = Some (N_sym (target_for m other i)) \<Longrightarrow>
      fst (lk_rename lh (object_path (store_of m) i) other g) = 0"
    and run: "unlink_name lh m i gone (fs, ls) = (e, fs', ls')" and p: "off (store_of m) p"
  shows "e = 0 \<and> v fs' p = ((v fs)(gone := None, record_path (store_of m) i := None,
    object_path (store_of m) i := None, other := Some n)) p"
proof -
  define store where "store = store_of m"
  define ob where "ob = object_path store i"
  define rc where "rc = record_path store i"
  note defs = store_def ob_def rc_def
  have ne: "gone \<noteq> ob" "gone \<noteq> rc" "other \<noteq> ob" "other \<noteq> rc" "ob \<noteq> rc"
    using names(3,4) record_path_neq(1) [of "store_of m" i] by (auto simp: defs)
  obtain fs1 where u: "lk_unlink lh gone fs = (0, fs1)"
    using laws(3) st(1) unfolding undoes_def by (metis prod.collapse)
  then have v1: "v fs1 = (v fs)(gone := None)" using edit_unlink [OF laws(2) u] by simp
  define fl where "fl = lk_lock lh store fs1"
  have vl: "off store q \<Longrightarrow> v fl q = v fs1 q" for q
    using edit_lock [OF laws(2), of q store fs1] by (simp add: fl_def off_def)
  have o: "off store ob" "off store rc" "off store other" "off store gone"
    using idi names(3,4) by (auto simp: defs off_simps)
  have rr: "read_record lh fl store i = Some \<lparr>lr_count = 2, lr_names = [a, b]\<rparr>"
  proof -
    have "v fl (record_path store i) = Some (N_sym (record_body \<lparr>lr_count = 2, lr_names = [a, b]\<rparr>))"
      using vl [OF o(2)] v1 st(3) ne by (simp add: defs)
    then show ?thesis
      using read_record_view [OF laws(1)] two_name_record [OF text_ok(1-5)] by simp
  qed
  have fl: "filter (\<lambda>n. n \<noteq> gone) [a, b] = [other]"
    using names(1,2) by (auto simp: doubleton_eq_iff)
  have vo: "v fl other = Some (N_sym (target_for m other i))" "v fl ob = Some n"
    using vl o v1 st names(2) ne by (auto simp: defs)
  have eid: "entry_id lh fl other = i"
    using entry_id_view [OF laws(1) vo(1) text_ok(6)] target_for_id [OF idi] by simp
  obtain fs2 where rn: "lk_rename lh ob other fl = (0, fs2)"
    using moves [of fl] vo by (metis defs prod.collapse)
  have v2: "v fs2 = (v fl)(ob := None, other := Some n)"
    using edit_rename [OF laws(2) rn] ne(3) vo(2) st(5) by auto
  have "v fs2 rc = Some (N_sym (record_body \<lparr>lr_count = 2, lr_names = [a, b]\<rparr>))"
    using v2 vl o v1 st(3) ne by (simp add: defs)
  then have "v (remove_record lh store i fs2) = (v fs2)(rc := None)"
    using undo_unlink [OF laws(2,3)] by (simp add: remove_record_def rc_def)
  moreover have "unlink_name lh m i gone (fs, ls) = (0, remove_record lh store i fs2, forget_object store i ls)"
    using u rr rn eid fl
    by (simp add: unlink_name_def release_def Let_def defs fl_def)
  ultimately show ?thesis
    using run vl [of p] p v1 v2 ne by (auto simp: defs)
qed

section \<open>Further names\<close>

text \<open>The names that are emulated links to an object.\<close>

definition names_of :: "(string \<Rightarrow> node option) \<Rightarrow> string \<Rightarrow> string \<Rightarrow> string set" where
  "names_of w store i = {p. \<not> in_store store p \<and> (\<exists>t. w p = Some (N_sym t) \<and> link_target_id t = i)}"

lemma read_record_cong:
  assumes "reads_links lh v" and "v fs (record_path store i) = v fs' (record_path store i)"
  shows "read_record lh fs store i = read_record lh fs' store i"
proof -
  have "store_read_link lh fs p = Inr t \<longleftrightarrow> store_read_link lh fs' p = Inr t" if "v fs p = v fs' p" for p t
    using readlink_view [OF assms(1)] that by simp
  from this [OF assms(2)] show ?thesis
    by (fastforce simp: read_record_def split: sum.splits)
qed

lemma link_existing_view:
  assumes laws: "reads_links lh v" "edits_entries lh v" "undoes lh v" and idi: "is_link_id i"
    and out: "\<not> in_store (store_of m) new_host"
    and free: "\<forall>p. prefix (record_path (store_of m) i @ ''.'') p \<longrightarrow> v fs p = None"
    and rec0: "read_record lh fs (store_of m) i = Some r0"
    and run: "link_existing lh m i new_host (fs, ls) = (0, fs', ls')"
  defines "r1 \<equiv> \<lparr>lr_count = lr_count r0 + 1,
    lr_names = (if new_host \<in> set (lr_names r0) then lr_names r0 else lr_names r0 @ [new_host])\<rparr>"
  shows "v fs new_host = None"
    and "off (store_of m) p \<Longrightarrow> v fs' p = ((v fs)(new_host \<mapsto> N_sym (target_for m new_host i),
      record_path (store_of m) i \<mapsto> N_sym (record_body r1))) p"
    and "\<exists>ls2. ls' = remember lh fs' (store_of m) i ls2"
proof -
  define store where "store = store_of m"
  obtain d where d: "lk_lstat lh fs (object_path store i) = Inr d"
    using run by (auto simp: link_existing_def Let_def store_def ENOENT_def split: sum.splits)
  obtain e1 fs1 where s: "lk_symlink lh (target_for m new_host i) new_host fs = (e1, fs1)" by fastforce
  define fl where "fl = lk_lock lh store fs1"
  obtain d2 where d2: "e1 = 0" "lk_lstat lh fl (object_path store i) = Inr d2"
    using run s d by (auto simp: link_existing_def Let_def store_def fl_def ENOENT_def split: sum.splits if_splits)
  have v1: "v fs new_host = None" "v fs1 = (v fs)(new_host \<mapsto> N_sym (target_for m new_host i))"
    using edit_symlink [OF laws(2) s] d2(1) by auto
  show "v fs new_host = None" by (rule v1(1))
  have vl: "off store q \<Longrightarrow> v fl q = v fs1 q" for q
    using edit_lock [OF laws(2), of q store fs1] by (simp add: fl_def off_def)
  have ne: "new_host \<noteq> record_path store i @ x" for x using out by (auto simp: store_def)
  have "v fl (record_path store i) = v fs (record_path store i)"
    using vl [of "record_path store i"] v1(2) ne [of "[]"] by (simp add: off_simps)
  then have "read_record lh fl store i = Some r0"
    using read_record_cong [OF laws(1), of fl store i fs] rec0 by (simp add: store_def)
  moreover obtain e3 fs3 ls3 where w: "write_record lh store i r1 (fl, ls) = (e3, fs3, ls3)" by (metis prod_cases3)
  ultimately have res: "e3 = 0" "fs' = fs3" "ls' = remember lh fs3 store i ls3"
    using run s d d2 by (auto simp: link_existing_def Let_def store_def fl_def r1_def split: if_splits)
  show "\<exists>ls2. ls' = remember lh fs' (store_of m) i ls2" using res by (auto simp: store_def)
  have "\<forall>q. prefix (record_path store i @ ''.'') q \<longrightarrow> v fl q = None"
  proof (intro allI impI)
    fix q assume q: "prefix (record_path store i @ ''.'') q"
    then obtain x where x: "q = record_path store i @ x" by (auto simp: prefix_def)
    have "new_host \<noteq> q" using ne x by simp
    moreover have "off store q" using x by (simp add: off_simps)
    ultimately show "v fl q = None" using free q vl v1(2) by (simp add: store_def)
  qed
  then have "v fs3 = (v fl)(record_path store i \<mapsto> N_sym (record_body r1))"
    using write_record_effect(1) [OF laws(2,3) w] res(1) by simp
  then show "off (store_of m) p \<Longrightarrow> v fs' p = ((v fs)(new_host \<mapsto> N_sym (target_for m new_host i),
      record_path (store_of m) i \<mapsto> N_sym (record_body r1))) p"
    using res(2) vl v1(2) by (simp add: store_def)
qed

text \<open>The directory tree without the store: an emulated link denotes the object it names.\<close>

definition abs_view :: "mount \<Rightarrow> (string \<Rightarrow> node option) \<Rightarrow> string \<Rightarrow> node option" where
  "abs_view m w p =
     (if in_store (store_of m) p then None
      else case w p of
          Some (N_sym t) \<Rightarrow>
            (let i = link_target_id t
             in if i \<noteq> [] \<and> w (object_path (store_of m) i) \<noteq> None
                then w (object_path (store_of m) i) else w p)
        | x \<Rightarrow> x)"

lemma link_target_id_is: "link_target_id t \<noteq> [] \<Longrightarrow> is_link_id (link_target_id t)"
  by (metis link_target_id_elim)

lemma object_path_inj: "object_path s i = object_path s j \<longleftrightarrow> i = j"
  by (simp add: object_path_def)

lemma object_not_record: "is_link_id j \<Longrightarrow> is_link_id i \<Longrightarrow> object_path s j \<noteq> record_path s i"
  by (auto simp: object_path_def record_path_def is_link_id_def)

lemma abs_view_cong:
  assumes "\<And>q. off (store_of m) q \<Longrightarrow> w q = w' q"
  shows "abs_view m w = abs_view m w'"
proof
  fix p
  have "in_store (store_of m) p \<or> w p = w' p" using assms off_simps(1) by blast
  moreover have "link_target_id t \<noteq> [] \<Longrightarrow>
      w (object_path (store_of m) (link_target_id t)) = w' (object_path (store_of m) (link_target_id t))" for t
    using assms off_simps(3) link_target_id_is by simp
  ultimately show "abs_view m w p = abs_view m w' p"
    by (auto simp: abs_view_def Let_def split: option.split node.split)
qed

lemma abs_view_in_store: "in_store (store_of m) p \<Longrightarrow> abs_view m w p = None"
  by (simp add: abs_view_def)

lemma abs_view_linked:
  assumes idi: "is_link_id i" and free: "names_of w (store_of m) i = {}" "w (object_path (store_of m) i) = None"
    and out: "\<not> in_store (store_of m) new_host" "\<not> in_store (store_of m) old_host"
    and w: "w old_host = Some (N_file k)" "w new_host = None"
  shows "abs_view m (linked_view w m i old_host new_host) = (abs_view m w)(new_host := abs_view m w old_host)"
proof
  fix p
  let ?l = "linked_view w m i old_host new_host" and ?s = "store_of m"
  have ne: "new_host \<noteq> old_host" using w by auto
  have ob: "?l (object_path ?s i) = Some (N_file k)"
    using out w(1) by (auto simp: linked_view_def)
  have obj: "?l (object_path ?s j) = w (object_path ?s j)" if "is_link_id j" "j \<noteq> i" for j
    using out that object_not_record [OF that(1) idi] by (auto simp: linked_view_def object_path_inj)
  have at_link: "abs_view m ?l q = Some (N_file k)" if "q = old_host \<or> q = new_host" for q
  proof -
    have "?l q = Some (N_sym (target_for m q i))" "\<not> in_store ?s q"
      using that out ne by (auto simp: linked_view_def)
    then show ?thesis using ob target_for_id [OF idi] is_link_id_ne [OF idi] by (simp add: abs_view_def)
  qed
  have old: "abs_view m w old_host = Some (N_file k)" using out(2) w(1) by (simp add: abs_view_def)
  show "abs_view m ?l p = ((abs_view m w)(new_host := abs_view m w old_host)) p"
  proof (cases "p = old_host \<or> p = new_host \<or> in_store ?s p")
    case True
    then show ?thesis using at_link old out ne abs_view_in_store by auto
  next
    case False
    then have same: "?l p = w p" by (auto simp: linked_view_def)
    have "?l (object_path ?s (link_target_id t)) = w (object_path ?s (link_target_id t))"
      if "w p = Some (N_sym t)" "link_target_id t \<noteq> []" for t
    proof (rule obj)
      show "is_link_id (link_target_id t)" by (rule link_target_id_is [OF that(2)])
      show "link_target_id t \<noteq> i" using free(1) that(1) False by (auto simp: names_of_def)
    qed
    then show ?thesis
      using same False by (auto simp: abs_view_def Let_def split: option.split node.split)
  qed
qed

lemma last_sep_unique:
  assumes "xs @ c # ys = xs' @ c # ys'" and "c \<notin> set ys" and "c \<notin> set ys'"
  shows "xs = xs'"
proof -
  have "rev ys @ c # rev xs = rev ys' @ c # rev xs'"
    using arg_cong [OF assms(1), of rev] by simp
  then have "dropWhile (\<lambda>x. x \<noteq> c) (rev ys @ c # rev xs) = dropWhile (\<lambda>x. x \<noteq> c) (rev ys' @ c # rev xs')"
    by (rule arg_cong)
  moreover have "dropWhile (\<lambda>x. x \<noteq> c) (rev zs @ c # ws) = c # ws" if "c \<notin> set zs" for zs ws
    using that by (subst dropWhile_append2) auto
  ultimately show ?thesis using assms(2,3) by simp
qed

lemma link_store_path_render:
  assumes "list_all clean hs"
  shows "link_store_path (render hs) = render (hs @ [kLinkStoreDir])"
proof (cases hs rule: rev_cases)
  case Nil
  then show ?thesis by (simp add: link_store_path_def render_def)
next
  case (snoc ks k)
  have "last (slash_join hs) \<noteq> slash"
    using snoc assms by (auto simp: slash_join_append clean_def last_append) (metis last_in_set)
  then show ?thesis using snoc by (simp add: link_store_path_def render_def slash_join_append)
qed

lemma components_dots:
  "components (concat (replicate k ''../'') @ s) = replicate k ''..'' @ components s"
proof (induction k)
  case (Suc k)
  have "components (concat (replicate (Suc k) ''../'') @ s) =
      components (''..'' @ slash # (concat (replicate k ''../'') @ s))" by simp
  also have "\<dots> = components ''..'' @ components (concat (replicate k ''../'') @ s)"
    by (rule components_append_slash)
  also have "components ''..'' = [''..'']" by (simp add: components_split)
  finally show ?case using Suc by simp
qed simp

lemma foldl_lex_push_dots:
  "foldl lex_push (st @ xs) (replicate (length xs) ''..'') = st"
  by (induction xs rule: rev_induct) (auto simp: butlast_append)

lemma components_clean: "clean c \<Longrightarrow> components c = [c]"
  by (simp add: components_split split_on_id clean_def)

lemma kLinkStoreDir_clean: "clean kLinkStoreDir"
  by (simp add: clean_def kLinkStoreDir_def)

section \<open>A host to evaluate with\<close>

definition tree_rename :: "string \<Rightarrow> string \<Rightarrow> (string \<Rightarrow> node option) \<Rightarrow> errno \<times> (string \<Rightarrow> node option)" where
  "tree_rename a b w = (if w a = None then (ENOENT, w) else if a = b then (0, w) else (0, w(a := None, b := w a)))"

definition tree_host :: "(string \<Rightarrow> node option) link_host" where
  "tree_host =
     \<lparr>lk_readlink = (\<lambda>w p. case w p of Some (N_sym t) \<Rightarrow> Inr t | _ \<Rightarrow> Inl EINVAL),
      lk_lstat = (\<lambda>w p. case w p of None \<Rightarrow> Inl ENOENT | Some n \<Rightarrow> Inr (1, case n of N_file k \<Rightarrow> of_nat k | _ \<Rightarrow> 0)),
      lk_symlink = (\<lambda>t p w. if w p = None then (0, w(p \<mapsto> N_sym t)) else (EEXIST, w)),
      lk_unlink = (\<lambda>p w. if w p = None then (ENOENT, w) else (0, w(p := None))),
      lk_rename = tree_rename, lk_link = (\<lambda>a b w. (EACCES, w)),
      lk_mkdir = (\<lambda>p w. if w p = None then (0, w(p \<mapsto> N_dir)) else (EEXIST, w)),
      lk_lock = (\<lambda>s w. w(s @ ''/.lock'' \<mapsto> N_file 0)), lk_mkostemp = (\<lambda>t w. (None, w)),
      lk_readdir = (\<lambda>w p. None), lk_getrandom = (\<lambda>w. Some (replicate 16 0xAB)), lk_urandom = (\<lambda>w. None),
      lk_realtime_ns = (\<lambda>w. 0), lk_monotonic_ns = (\<lambda>w. 0), lk_pid = 7\<rparr>"

lemma tree_host_sel:
  "lk_symlink tree_host t p w = (if w p = None then (0, w(p \<mapsto> N_sym t)) else (EEXIST, w))"
  "lk_unlink tree_host p w = (if w p = None then (ENOENT, w) else (0, w(p := None)))"
  "lk_rename tree_host a b w = tree_rename a b w" "lk_pid tree_host = 7"
  "lk_mkdir tree_host p w = (if w p = None then (0, w(p \<mapsto> N_dir)) else (EEXIST, w))"
  "lk_lock tree_host s w = w(s @ ''/.lock'' \<mapsto> N_file 0)"
  "lk_lstat tree_host w p =
     (case w p of None \<Rightarrow> Inl ENOENT | Some n \<Rightarrow> Inr (1, case n of N_file k \<Rightarrow> of_nat k | _ \<Rightarrow> 0))"
  by (simp_all add: tree_host_def)

lemma tree_reads: "reads_links tree_host (\<lambda>w. w)"
  by (auto simp: reads_links_def tree_host_def split: option.splits node.splits)

lemma tree_edits: "edits_entries tree_host (\<lambda>w. w)"
  by (auto simp: edits_entries_def changes_def tree_host_def tree_rename_def EEXIST_def ENOENT_def fun_eq_iff)

lemma tree_undoes: "undoes tree_host (\<lambda>w. w)"
  by (auto simp: undoes_def tree_host_def tree_rename_def ENOENT_def split: if_splits)

section \<open>Properties\<close>

text \<open>
  Reading back a link record gives its count and, of its names, a subsequence; every name is
  kept when they fit the text of a symlink, and the text never exceeds what \<open>symlink(2)\<close> accepts.\<close>

theorem record_roundtrip:
  assumes "0 < lr_count r" and "lr_count r < 0x7fffffff" and "list_all (\<lambda>n. n \<noteq> []) (lr_names r)"
  shows "lr_count (parse_record (record_body r)) = lr_count r \<and>
    subseq (lr_names (parse_record (record_body r))) (lr_names r) \<and> length (record_body r) \<le> kRecordMax \<and>
    (list_all (\<lambda>n. newline \<notin> set n) (lr_names r) \<and>
     length (dec_string (lr_count r)) + sum_list (map (\<lambda>n. Suc (length n)) (lr_names r)) \<le> kRecordMax \<longrightarrow>
     parse_record (record_body r) = r)"
proof -
  let ?ks = "kept_names (length (dec_string (lr_count r))) (lr_names r)"
  have "set ?ks \<subseteq> set (lr_names r)"
    using kept_names_subseq [of "length (dec_string (lr_count r))" "lr_names r"] by (auto dest: list_emb_set)
  then have "filter (\<lambda>n. n \<noteq> []) ?ks = ?ks"
    using assms(3) by (auto simp: filter_id_conv list_all_iff)
  then have p: "parse_record (record_body r) = \<lparr>lr_count = lr_count r, lr_names = ?ks\<rparr>"
    using parse_record_body [OF assms(1,2)] by simp
  have "length (dec_string (lr_count r)) \<le> kRecordMax"
    using dec_string_length [of "lr_count r" 10] assms(2) by (simp add: kRecordMax_def)
  then have "length (record_body r) \<le> kRecordMax"
    using kept_names_length unfolding record_body_split by simp
  then show ?thesis
    unfolding p using kept_names_subseq kept_names_all by auto
qed

theorem record_roundtrip_witness:
  "parse_record (record_body \<lparr>lr_count = 12, lr_names = [''/r/a'', ''/r/b'']\<rparr>) = \<lparr>lr_count = 12, lr_names = [''/r/a'', ''/r/b'']\<rparr>"
  using record_roundtrip [of "\<lparr>lr_count = 12, lr_names = [''/r/a'', ''/r/b'']\<rparr>"]
  by (simp add: kRecordMax_def dec_string.simps)


text \<open>
  A link that is refused, at whichever step, leaves every entry of the host's directories as it
  was, except that the (empty) store directory and its lock file may have been created.\<close>

theorem link_refused_no_trace:
  assumes "edits_entries lh v" and "undoes lh v" and "random_id lh fs ls = (i, ls1)"
    and "fresh_id (v fs) (store_of m) i"
    and "\<not> in_store (store_of m) new_host" and "\<not> in_store (store_of m) old_host"
    and "v fs old_host = Some n" and "n \<noteq> N_dir"
    and "link_new lh m old_host new_host (fs, ls) = (e, fs', ls')" and "e \<noteq> 0"
    and "p \<noteq> store_of m" and "p \<noteq> store_of m @ ''/.lock''"
  shows "v fs' p = v fs p"
  using link_new_view(1) [OF assms(1-9), of p] assms(10-12) by (simp add: off_def)

text \<open>
  A short-lived link leaves nothing behind: making a link and removing the new name puts the
  file back under its old name, with no object, record or symlink left.\<close>

theorem link_unlink_restores:
  assumes "reads_links lh v" and "edits_entries lh v" and "undoes lh v" and "random_id lh fs ls = (i, ls1)"
    and "fresh_id (v fs) (store_of m) i"
    and "\<not> in_store (store_of m) new_host" and "\<not> in_store (store_of m) old_host"
    and "v fs old_host = Some n" and "n \<noteq> N_dir"
    and "newline \<notin> set old_host" "newline \<notin> set new_host" "old_host \<noteq> []" "new_host \<noteq> []"
      "length old_host + length new_host + 3 \<le> kRecordMax" "length (target_for m old_host i) \<le> kRecordMax"
    and "link_new lh m old_host new_host (fs, ls) = (0, fs1, ls2)"
    and "unlink_name lh m i new_host (fs1, ls2) = (e, fs2, ls3)"
    and "p \<noteq> store_of m" and "p \<noteq> store_of m @ ''/.lock''"
  shows "e = 0 \<and> v fs2 p = v fs p"
proof -
  note step = link_new_view [OF assms(2-9,16)]
  have idi: "is_link_id i" using random_id_link_id [OF assms(4)] by simp
  let ?s = "store_of m" and ?ob = "object_path (store_of m) i" and ?rc = "record_path (store_of m) i"
  have o: "off ?s new_host" "off ?s old_host" "off ?s ?ob" "off ?s ?rc" "off ?s p"
    using assms(6,7,18,19) idi by (auto simp: off_simps) (simp add: off_def)
  have nn: "v fs new_host = None" using step(2) [OF o(5)] by simp
  then have ne: "new_host \<noteq> old_host" using assms(8) by auto
  have paths: "new_host \<noteq> ?ob" "new_host \<noteq> ?rc" "old_host \<noteq> ?ob" "old_host \<noteq> ?rc" "?ob \<noteq> ?rc"
    using assms(6,7) record_path_neq(1) [of ?s i] by auto
  have at: "off ?s q \<Longrightarrow> v fs1 q = linked_view (v fs) m i old_host new_host q" for q
    using step(1) [of q] by simp
  have st: "v fs1 new_host = Some (N_sym (target_for m new_host i))"
    "v fs1 old_host = Some (N_sym (target_for m old_host i))"
    "v fs1 ?rc = Some (N_sym (record_body \<lparr>lr_count = 2, lr_names = [old_host, new_host]\<rparr>))"
    "v fs1 ?ob = Some n"
    using at [OF o(1)] at [OF o(2)] at [OF o(3)] at [OF o(4)] paths ne assms(8)
    by (auto simp: linked_view_def)
  obtain g g' where g: "lk_rename lh old_host ?ob g = (0, g')" "v g old_host = Some n"
    using step(3) [OF o(5)] by auto
  have "e = 0 \<and> v fs2 p = ((v fs1)(new_host := None, ?rc := None, ?ob := None, old_host := Some n)) p"
  proof (rule drop_one_of_two [OF assms(1-3) idi _ ne assms(6,7,10-15) st(1-4) assms(9) _ assms(17) o(5)])
    show "{new_host, old_host} = {old_host, new_host}" by (rule insert_commute)
    show "fst (lk_rename lh ?ob old_host h) = 0"
      if "v h ?ob = Some n" "v h old_host = Some (N_sym (target_for m old_host i))" for h
      using undo_rename [OF assms(3) g(1)] g(2) that by simp
  qed
  then show ?thesis
    using at [OF o(5)] nn paths ne fresh_id_paths(1,2) [OF assms(5)] assms(8) by (auto simp: linked_view_def)
qed


text \<open>
  The target written into a name, followed by any reader of the host tree from the directory of
  that name, leads to the object in the store of its mount.\<close>

theorem target_for_leads_to_object:
  assumes "canonical (m_host m)" and "canonical name" and "is_below name (m_host m)" and "name \<noteq> m_host m"
    and "is_link_id i" and "name = dir @ slash # base" and "slash \<notin> set base"
  shows "normalize_lexical (dir @ slash # target_for m name i) = object_path (store_of m) i"
proof -
  obtain hs ns where h: "list_all clean hs" "m_host m = render hs" "list_all clean ns" "name = render ns"
    using assms(1,2) by (auto simp: canonical_iff)
  then obtain cs where cs: "ns = hs @ cs" using assms(3) by (auto simp: is_below_render prefix_def)
  have cne: "cs \<noteq> []" using assms(4) h cs by auto
  have cl: "list_all clean cs" "clean i" using h(3) cs is_link_id_clean [OF assms(5)] by auto
  have "name = slash_join (butlast ns) @ slash # last ns"
  proof -
    have "ns = butlast ns @ [last ns]" using cs cne by (metis append_butlast_last_id append_is_Nil_conv)
    then have "slash_join ns = slash_join (butlast ns) @ slash_join [last ns]" by (metis slash_join_append)
    then show ?thesis using h(4) cs cne by (simp add: render_def)
  qed
  moreover have "slash \<notin> set (last ns)" using h(3) cs cne by (auto simp: list_all_iff clean_def)
  ultimately have "dir = slash_join (butlast ns)"
    using assms(6,7) last_sep_unique by metis
  moreover have "list_all clean (butlast ns)" using h(3) by (auto simp: list_all_iff dest: in_set_butlastD)
  ultimately have "components dir = butlast ns" by (simp add: components_slash_join list_all_clean_plain)
  then have cdir: "components dir = hs @ butlast cs" using cs cne by (simp add: butlast_append)
  have "components (suffix_after name (m_host m)) = cs"
    using h cs cl(1) by (simp add: suffix_after_render components_slash_join list_all_clean_plain)
  then have "components (target_for m name i) = replicate (length (butlast cs)) ''..'' @ [kLinkStoreDir, i]"
    using assms(3) cl(2) kLinkStoreDir_clean
    by (simp add: target_for_def components_dots components_append_slash components_clean)
  then have "normalize_lexical (dir @ slash # target_for m name i) = render (hs @ [kLinkStoreDir, i])"
  proof -
    have "list_all clean (hs @ butlast cs)" using h(1) cl(1) by (auto simp: list_all_iff dest: in_set_butlastD)
    then have "foldl lex_push [] (hs @ butlast cs @ replicate (length (butlast cs)) ''..'') = hs"
      using foldl_lex_push_no_dotdot [of "hs @ butlast cs" "[]"] foldl_lex_push_dots [of hs "butlast cs"]
      by (simp del: lex_push.simps)
    moreover have "components dir @ components (target_for m name i) =
        (hs @ butlast cs @ replicate (length (butlast cs)) ''..'') @ [kLinkStoreDir, i]"
      using cdir \<open>components (target_for m name i) = _\<close> by simp
    ultimately have "foldl lex_push [] (components dir @ components (target_for m name i)) =
        foldl lex_push hs [kLinkStoreDir, i]" by (metis foldl_append)
    then have "foldl lex_push [] (components dir @ components (target_for m name i)) = hs @ [kLinkStoreDir, i]"
      using cl(2) kLinkStoreDir_clean by (simp add: clean_def)
    then show ?thesis by (simp only: normalize_render components_append_slash)
  qed
  also have "\<dots> = object_path (store_of m) i"
    using h(1,2) link_store_path_render [OF h(1)] by (simp add: object_path_def store_of_def render_def slash_join_append)
  finally show ?thesis .
qed

section \<open>Witnesses\<close>

definition sample_mount :: mount where
  "sample_mount = \<lparr>m_guest = ''/'', m_host = ''/r'', m_read_only = False, m_kind = Kind_rootfs, m_source = ''rootfs''\<rparr>"

definition sample_id :: string where "sample_id = ''abababababababababababababababab''"

definition sample_tree :: "string \<Rightarrow> node option" where
  "sample_tree = Map.empty(''/r'' \<mapsto> N_dir, ''/r/a'' \<mapsto> N_file 5)"

lemma sample_random_id: "random_id tree_host w ls = (sample_id, ls)"
proof -
  have "concat (map hex_byte (replicate 16 0xAB)) = sample_id" by code_simp
  then show ?thesis by (simp add: random_id_def raw_ok_def tree_host_def)
qed

lemma sample_store: "store_of sample_mount = ''/r/.vhdp-hardlinks''"
  by (simp add: store_of_def sample_mount_def link_store_path_def kLinkStoreDir_def)

lemma sample_fresh: "fresh_id sample_tree (store_of sample_mount) i"
  "names_of sample_tree (store_of sample_mount) i = {}"
  by (auto simp: fresh_id_def sample_tree_def sample_store object_path_def names_of_def prefix_def)

lemma sample_outside: "\<not> in_store (store_of sample_mount) ''/r/b''" "\<not> in_store (store_of sample_mount) ''/r/a''"
  by (simp_all add: in_store_def sample_store)

lemma sample_link:
  "fst (link_new tree_host sample_mount ''/r/a'' ''/r/b'' (sample_tree, new_link_store)) = 0"
  by (simp add: link_new_def sample_random_id write_record_def Let_def tree_host_sel tree_rename_def
      sample_store sample_tree_def object_path_def record_path_def sample_id_def EEXIST_def)


text \<open>A link refused because the new name exists, and one that a full store directory refuses.\<close>

theorem link_refused_no_trace_witness:
  "fst (snd (link_new tree_host sample_mount ''/r/a'' ''/r/b'' (sample_tree(''/r/b'' \<mapsto> N_file 6), new_link_store))) ''/r/a'' = Some (N_file 5)"
proof -
  let ?t = "sample_tree(''/r/b'' \<mapsto> N_file 6)"
  let ?r = "link_new tree_host sample_mount ''/r/a'' ''/r/b'' (?t, new_link_store)"
  obtain e fs' ls' where r: "?r = (e, fs', ls')" by (metis prod_cases3)
  have "fst ?r = EEXIST" by (simp add: link_new_def sample_random_id Let_def tree_host_sel EEXIST_def)
  then have e: "e \<noteq> 0" using r by (simp add: EEXIST_def)
  have fresh: "fresh_id ?t (store_of sample_mount) sample_id"
    by (auto simp: fresh_id_def sample_tree_def sample_store object_path_def prefix_def)
  have "fs' ''/r/a'' = ?t ''/r/a''"
    using link_refused_no_trace [OF tree_edits tree_undoes sample_random_id fresh sample_outside _ _ r e,
        of "N_file 5" "''/r/a''"] by (simp add: sample_tree_def sample_store)
  then show ?thesis using r by (simp add: sample_tree_def)
qed

theorem link_unlink_restores_witness:
  "case link_new tree_host sample_mount ''/r/a'' ''/r/b'' (sample_tree, new_link_store) of
     (e1, st1) \<Rightarrow>
       (case unlink_name tree_host sample_mount sample_id ''/r/b'' st1 of
          (e2, fs2, ls2) \<Rightarrow> e1 = 0 \<and> e2 = 0 \<and> fs2 ''/r/a'' = Some (N_file 5) \<and> fs2 ''/r/b'' = None)"
proof -
  obtain fs1 ls1 where l: "link_new tree_host sample_mount ''/r/a'' ''/r/b'' (sample_tree, new_link_store) = (0, fs1, ls1)"
    using sample_link by (metis prod.collapse)
  obtain e2 fs2 ls2 where u: "unlink_name tree_host sample_mount sample_id ''/r/b'' (fs1, ls1) = (e2, fs2, ls2)"
    by (metis prod_cases3)
  have t: "length (target_for sample_mount ''/r/a'' sample_id) \<le> kRecordMax"
    by code_simp
  have a: "sample_tree ''/r/a'' = Some (N_file 5)" by (simp add: sample_tree_def)
  have "e2 = 0 \<and> fs2 p = sample_tree p" if "p = ''/r/a'' \<or> p = ''/r/b''" for p
    using link_unlink_restores [OF tree_reads tree_edits tree_undoes sample_random_id sample_fresh(1)
        sample_outside a _ _ _ _ _ _ t l u, of p] that by (auto simp: sample_store kRecordMax_def)
  from this [of "''/r/a''"] this [of "''/r/b''"] show ?thesis using l u by (simp add: sample_tree_def)
qed

lemma sample_link_again:
  "fst (link_existing tree_host sample_mount sample_id ''/r/c''
     (snd (link_new tree_host sample_mount ''/r/a'' ''/r/b'' (sample_tree, new_link_store)))) = 0"
  "lk_lstat tree_host (fst (snd (link_existing tree_host sample_mount sample_id ''/r/c''
     (snd (link_new tree_host sample_mount ''/r/a'' ''/r/b'' (sample_tree, new_link_store))))))
     (object_path (store_of sample_mount) sample_id) = Inr (1, 5)"
  by (simp_all add: link_new_def link_existing_def sample_random_id write_record_def Let_def tree_host_sel
      tree_rename_def sample_store sample_tree_def object_path_def record_path_def sample_id_def EEXIST_def)


theorem target_for_leads_to_object_witness:
  "normalize_lexical (''/r/x/y/'' @ target_for sample_mount ''/r/x/y/z'' sample_id) = ''/r/.vhdp-hardlinks/'' @ sample_id"
proof -
  have c: "canonical (m_host sample_mount)" "canonical ''/r/x/y/z''" "is_link_id sample_id"
    using canonical_render [of "[''r'']"] canonical_render [of "[''r'', ''x'', ''y'', ''z'']"]
      random_id_link_id(1) [OF sample_random_id]
    by (simp_all add: render_def clean_def sample_mount_def)
  have "normalize_lexical (''/r/x/y'' @ slash # target_for sample_mount ''/r/x/y/z'' sample_id) =
      object_path (store_of sample_mount) sample_id"
    by (rule target_for_leads_to_object [OF c(1,2) _ _ c(3), where base = "''z''"]) (simp_all add: is_below_def sample_mount_def)
  then show ?thesis by (simp add: object_path_def sample_store)
qed

end
