(* ===== verification/Elf.thy ===== *)
theory Elf
  imports Prelude
begin

text \<open>
  ELF decoding (\<open>src/src/linux_abi/elf.h\<close>, \<open>elf.c\<close>).  Buffers are byte strings; a read outside the
  buffer, which C leaves undefined, is the value \<open>None\<close>.  All the sums the decoder forms stay below
  \<open>2 ^ 64\<close>, so its unsigned numbers are natural numbers.
\<close>

section \<open>Reading\<close>

definition rd8 :: "string \<Rightarrow> nat \<Rightarrow> nat option" where
  "rd8 buf i = (if i < length buf then Some (byte (buf ! i)) else None)"

fun rd_le :: "nat \<Rightarrow> string \<Rightarrow> nat \<Rightarrow> nat option" where
  "rd_le 0 buf i = Some 0"
| "rd_le (Suc n) buf i =
     (case rd8 buf i of
        None \<Rightarrow> None
      | Some b \<Rightarrow> (case rd_le n buf (i + 1) of None \<Rightarrow> None | Some v \<Rightarrow> Some (b + 256 * v)))"

definition rd16 :: "string \<Rightarrow> nat \<Rightarrow> nat option" where "rd16 buf i = rd_le 2 buf i"
definition rd32 :: "string \<Rightarrow> nat \<Rightarrow> nat option" where "rd32 buf i = rd_le 4 buf i"
definition rd64 :: "string \<Rightarrow> nat \<Rightarrow> nat option" where "rd64 buf i = rd_le 8 buf i"

definition range_ok :: "nat \<Rightarrow> nat \<Rightarrow> nat \<Rightarrow> bool" where
  "range_ok a b limit \<longleftrightarrow> a \<le> limit \<and> b \<le> limit - a"

datatype elf_err =
    ELF_OK | ELF_E_TRUNCATED | ELF_E_NOT_ELF | ELF_E_UNSUPPORTED_CLASS | ELF_E_UNSUPPORTED_ENCODING
  | ELF_E_BAD_VERSION | ELF_E_BAD_TYPE | ELF_E_BAD_PHDR | ELF_E_BAD_INTERP

record elf_info =
  ei_class :: nat
  ei_machine :: nat
  ei_type :: nat
  ei_osabi :: nat
  ei_entry :: nat
  ei_phoff :: nat
  ei_phentsize :: nat
  ei_phnum :: nat
  ei_has_interp :: bool
  ei_interp_offset :: nat
  ei_interp_size :: nat

definition elf_zero :: elf_info where
  "elf_zero = \<lparr>ei_class = 0, ei_machine = 0, ei_type = 0, ei_osabi = 0, ei_entry = 0, ei_phoff = 0,
     ei_phentsize = 0, ei_phnum = 0, ei_has_interp = False, ei_interp_offset = 0, ei_interp_size = 0\<rparr>"

definition elf_magic :: string where "elf_magic = CHR 0x7F # ''ELF''"

definition VHDP_ELF_MAX_PHDR_BYTES :: nat where "VHDP_ELF_MAX_PHDR_BYTES = 65536"
definition VHDP_ELF_MAX_INTERP :: nat where "VHDP_ELF_MAX_INTERP = 4096"

section \<open>Header\<close>

text \<open>The checks on the 64-bit header, after the identification bytes and the length.\<close>

definition parse_header64 :: "string \<Rightarrow> nat \<Rightarrow> elf_info \<Rightarrow> (elf_err \<times> elf_info) option" where
  "parse_header64 buf file_size out =
     (case (rd8 buf 6, rd32 buf 20) of
        (Some ident_version, Some version) \<Rightarrow>
          if ident_version \<noteq> 1 \<or> version \<noteq> 1 then Some (ELF_E_BAD_VERSION, out)
          else if ei_type out \<noteq> 2 \<and> ei_type out \<noteq> 3 then Some (ELF_E_BAD_TYPE, out)
          else (case (rd64 buf 24, rd64 buf 32, rd16 buf 52, rd16 buf 54, rd16 buf 56) of
              (Some entry, Some phoff, Some ehsize, Some phentsize, Some phnum) \<Rightarrow>
                (let out = out\<lparr>ei_entry := entry, ei_phoff := phoff, ei_phentsize := phentsize, ei_phnum := phnum\<rparr>
                 in if ehsize < 64 then Some (ELF_E_BAD_VERSION, out)
                    else if phnum = 0 then Some (ELF_E_BAD_PHDR, out)
                    else if phnum = 0xffff \<or> phentsize < 56 then Some (ELF_E_BAD_PHDR, out)
                    else if phnum * phentsize > VHDP_ELF_MAX_PHDR_BYTES \<or>
                            \<not> range_ok phoff (phnum * phentsize) file_size
                    then Some (ELF_E_BAD_PHDR, out)
                    else Some (ELF_OK, out))
            | _ \<Rightarrow> None)
      | _ \<Rightarrow> None)"

definition elf_parse_header :: "string \<Rightarrow> nat \<Rightarrow> (elf_err \<times> elf_info) option" where
  "elf_parse_header buf file_size =
     (if length buf < 20
      then Some (if length buf \<ge> 4 \<and> take 4 buf \<noteq> elf_magic then ELF_E_NOT_ELF else ELF_E_TRUNCATED, elf_zero)
      else if take 4 buf \<noteq> elf_magic then Some (ELF_E_NOT_ELF, elf_zero)
      else (case (rd8 buf 4, rd8 buf 5, rd8 buf 7) of
          (Some cls, Some data, Some osabi) \<Rightarrow>
            (let out = elf_zero\<lparr>ei_osabi := osabi\<rparr>
             in if data \<noteq> 1 then Some (ELF_E_UNSUPPORTED_ENCODING, out)
                else case (rd16 buf 16, rd16 buf 18) of
                    (Some type, Some machine) \<Rightarrow>
                      (let out = out\<lparr>ei_type := type, ei_machine := machine\<rparr>
                       in if cls = 1
                          then Some (if length buf < 52 then ELF_E_TRUNCATED else ELF_E_UNSUPPORTED_CLASS,
                                     out\<lparr>ei_class := 32\<rparr>)
                          else if cls \<noteq> 2 then Some (ELF_E_NOT_ELF, out)
                          else if length buf < 64 then Some (ELF_E_TRUNCATED, out\<lparr>ei_class := 64\<rparr>)
                          else parse_header64 buf file_size (out\<lparr>ei_class := 64\<rparr>))
                  | _ \<Rightarrow> None)
        | _ \<Rightarrow> None))"

section \<open>Program headers\<close>

text \<open>The loop over the headers \<open>i \<dots> phnum - 1\<close>, \<open>k\<close> of them left.\<close>

fun scan_loop :: "string \<Rightarrow> nat \<Rightarrow> nat \<Rightarrow> nat \<Rightarrow> elf_info \<Rightarrow> (elf_err \<times> elf_info) option" where
  "scan_loop phdrs file_size 0 i info = Some (ELF_OK, info)"
| "scan_loop phdrs file_size (Suc k) i info =
     (let ph = i * ei_phentsize info
      in case rd32 phdrs ph of
           None \<Rightarrow> None
         | Some p_type \<Rightarrow>
             if p_type \<noteq> 3 then scan_loop phdrs file_size k (i + 1) info
             else if ei_has_interp info then Some (ELF_E_BAD_INTERP, info)
             else (case (rd64 phdrs (ph + 8), rd64 phdrs (ph + 32)) of
                 (Some off, Some filesz) \<Rightarrow>
                   if filesz < 2 \<or> filesz > VHDP_ELF_MAX_INTERP \<or> \<not> range_ok off filesz file_size
                   then Some (ELF_E_BAD_INTERP, info)
                   else scan_loop phdrs file_size k (i + 1)
                          (info\<lparr>ei_has_interp := True, ei_interp_offset := off, ei_interp_size := filesz\<rparr>)
               | _ \<Rightarrow> None))"

definition elf_scan_phdrs :: "string \<Rightarrow> nat \<Rightarrow> elf_info \<Rightarrow> (elf_err \<times> elf_info) option" where
  "elf_scan_phdrs phdrs file_size info =
     (if ei_class info \<noteq> 64 then Some (ELF_E_BAD_PHDR, info)
      else let table = ei_phnum info * ei_phentsize info
           in if table > length phdrs \<or> table > VHDP_ELF_MAX_PHDR_BYTES then Some (ELF_E_TRUNCATED, info)
              else scan_loop phdrs file_size (ei_phnum info) 0
                     (info\<lparr>ei_has_interp := False, ei_interp_offset := 0, ei_interp_size := 0\<rparr>))"

definition elf_validate_interp :: "string \<Rightarrow> elf_err" where
  "elf_validate_interp data =
     (if length data < 2 \<or> length data > VHDP_ELF_MAX_INTERP then ELF_E_BAD_INTERP
      else if data ! (length data - 1) \<noteq> nul \<or> data ! 0 \<noteq> slash then ELF_E_BAD_INTERP
      else if nul \<in> set (take (length data - 1) data) then ELF_E_BAD_INTERP
      else ELF_OK)"

definition elf_machine_name :: "nat \<Rightarrow> string" where
  "elf_machine_name m =
     (if m = 62 then ''x86_64'' else if m = 183 then ''aarch64'' else if m = 40 then ''arm''
      else if m = 3 then ''i386'' else if m = 243 then ''riscv64'' else ''unknown'')"

fun elf_error_name :: "elf_err \<Rightarrow> string" where
  "elf_error_name ELF_OK = ''ok''"
| "elf_error_name ELF_E_TRUNCATED = ''truncated''"
| "elf_error_name ELF_E_NOT_ELF = ''not-elf''"
| "elf_error_name ELF_E_UNSUPPORTED_CLASS = ''unsupported-class''"
| "elf_error_name ELF_E_UNSUPPORTED_ENCODING = ''unsupported-encoding''"
| "elf_error_name ELF_E_BAD_VERSION = ''bad-version''"
| "elf_error_name ELF_E_BAD_TYPE = ''bad-type''"
| "elf_error_name ELF_E_BAD_PHDR = ''bad-phdr''"
| "elf_error_name ELF_E_BAD_INTERP = ''bad-interp''"

section \<open>Bounds\<close>

lemma rd8_Some [simp]: "i < length buf \<Longrightarrow> rd8 buf i = Some (byte (buf ! i))"
  by (simp add: rd8_def)

lemma rd_le_Some: "i + n \<le> length buf \<Longrightarrow> \<exists>v. rd_le n buf i = Some v"
proof (induction n arbitrary: i)
  case (Suc n)
  then have "i + 1 + n \<le> length buf" by simp
  then obtain v where "rd_le n buf (i + 1) = Some v" using Suc.IH by blast
  then show ?case using Suc.prems by (simp add: rd8_def)
qed simp

lemma rd_Some:
  "i + 2 \<le> length buf \<Longrightarrow> \<exists>v. rd16 buf i = Some v" "i + 4 \<le> length buf \<Longrightarrow> \<exists>v. rd32 buf i = Some v"
  "i + 8 \<le> length buf \<Longrightarrow> \<exists>v. rd64 buf i = Some v"
  unfolding rd16_def rd32_def rd64_def using rd_le_Some by auto

lemma range_ok_sum: "range_ok a b limit \<longleftrightarrow> a + b \<le> limit"
  by (auto simp: range_ok_def)

definition header_ok :: "nat \<Rightarrow> elf_info \<Rightarrow> bool" where
  "header_ok file_size info \<longleftrightarrow>
     ei_class info = 64 \<and> ei_type info \<in> {2, 3} \<and> 0 < ei_phnum info \<and> 56 \<le> ei_phentsize info \<and>
     ei_phnum info * ei_phentsize info \<le> VHDP_ELF_MAX_PHDR_BYTES \<and>
     ei_phoff info + ei_phnum info * ei_phentsize info \<le> file_size"

lemma parse_header64_total:
  assumes "64 \<le> length buf"
  shows "\<exists>r. parse_header64 buf file_size out = Some r"
proof -
  obtain a b c d e f where "rd32 buf 20 = Some a" "rd64 buf 24 = Some b" "rd64 buf 32 = Some c" "rd16 buf 52 = Some d"
    "rd16 buf 54 = Some e" "rd16 buf 56 = Some f"
    using rd_Some [of 20 buf] rd_Some [of 24 buf] rd_Some [of 32 buf] rd_Some [of 52 buf] rd_Some [of 54 buf]
      rd_Some [of 56 buf] assms by auto
  then show ?thesis using assms by (simp add: parse_header64_def Let_def)
qed

lemma elf_parse_header_total: "\<exists>r. elf_parse_header buf file_size = Some r"
proof (cases "length buf < 20")
  case False
  then obtain a b where "rd16 buf 16 = Some a" "rd16 buf 18 = Some b"
    using rd_Some(1) [of 16 buf] rd_Some(1) [of 18 buf] by auto
  then show ?thesis
    using False parse_header64_total [of buf file_size] by (simp add: elf_parse_header_def Let_def)
qed (simp add: elf_parse_header_def)

lemma parse_header64_ok:
  "parse_header64 buf file_size out = Some (ELF_OK, info) \<Longrightarrow> ei_class out = 64 \<Longrightarrow> header_ok file_size info"
  by (auto simp: parse_header64_def Let_def header_ok_def range_ok_sum split: if_splits option.splits)

lemma elf_parse_header_ok: "elf_parse_header buf file_size = Some (ELF_OK, info) \<Longrightarrow> header_ok file_size info"
  by (auto simp: elf_parse_header_def Let_def split: if_splits option.splits dest!: parse_header64_ok)

definition interp_ok :: "nat \<Rightarrow> elf_info \<Rightarrow> bool" where
  "interp_ok file_size info \<longleftrightarrow>
     (ei_has_interp info \<longrightarrow>
        2 \<le> ei_interp_size info \<and> ei_interp_size info \<le> VHDP_ELF_MAX_INTERP \<and>
        ei_interp_offset info + ei_interp_size info \<le> file_size)"

lemma scan_loop_total:
  assumes "(i + k) * ei_phentsize info \<le> length phdrs" and "56 \<le> ei_phentsize info"
  shows "\<exists>r. scan_loop phdrs file_size k i info = Some r"
  using assms
proof (induction k arbitrary: i info)
  case (Suc k)
  have "i * ei_phentsize info + ei_phentsize info \<le> (i + Suc k) * ei_phentsize info"
    by (simp add: add_mult_distrib)
  then have b: "i * ei_phentsize info + 56 \<le> length phdrs" using Suc.prems by linarith
  then obtain p off sz where "rd32 phdrs (i * ei_phentsize info) = Some p"
    "rd64 phdrs (i * ei_phentsize info + 8) = Some off" "rd64 phdrs (i * ei_phentsize info + 32) = Some sz"
    using rd_Some(2) [of "i * ei_phentsize info" phdrs] rd_Some(3) [of "i * ei_phentsize info + 8" phdrs]
      rd_Some(3) [of "i * ei_phentsize info + 32" phdrs] by auto
  then show ?case
    using Suc.IH [of "i + 1" info] Suc.IH [of "i + 1" "info\<lparr>ei_has_interp := True, ei_interp_offset := off, ei_interp_size := sz\<rparr>"]
      Suc.prems by (simp add: Let_def)
qed simp

lemma scan_loop_ok:
  "scan_loop phdrs file_size k i info = Some (ELF_OK, info') \<Longrightarrow> interp_ok file_size info \<Longrightarrow> interp_ok file_size info'"
  by (induction phdrs file_size k i info rule: scan_loop.induct)
    (auto simp: Let_def interp_ok_def range_ok_sum split: if_splits option.splits)

text \<open>A 64-bit executable with one program header, at offset 64.\<close>

definition sample_elf :: string where
  "sample_elf = elf_magic @ [CHR 0x02, CHR 0x01, CHR 0x01] @ replicate 9 nul @ [CHR 0x02, nul, CHR 0x3E, nul, CHR 0x01, nul, nul, nul] @
     replicate 8 nul @ [CHR 0x40] @ replicate 19 nul @ [CHR 0x40, nul, CHR 0x38, nul, CHR 0x01, nul] @ replicate 6 nul"

definition sample_info :: elf_info where
  "sample_info = elf_zero\<lparr>ei_class := 64, ei_machine := 62, ei_type := 2, ei_phoff := 64, ei_phentsize := 56, ei_phnum := 1\<rparr>"

lemma sample_elf_fields:
  "rd8 sample_elf 4 = Some 2" "rd8 sample_elf 5 = Some 1" "rd8 sample_elf 6 = Some 1" "rd8 sample_elf 7 = Some 0"
  "rd16 sample_elf 16 = Some 2" "rd16 sample_elf 18 = Some 62" "rd32 sample_elf 20 = Some 1"
  "rd64 sample_elf 24 = Some 0" "rd64 sample_elf 32 = Some 64" "rd16 sample_elf 52 = Some 64"
  "rd16 sample_elf 54 = Some 56" "rd16 sample_elf 56 = Some 1"
  "length sample_elf = 64" "take 4 sample_elf = elf_magic"
  by code_simp+

lemma sample_elf_parses: "elf_parse_header sample_elf 120 = Some (ELF_OK, sample_info)"
  by (simp add: elf_parse_header_def parse_header64_def sample_elf_fields sample_info_def elf_zero_def
      VHDP_ELF_MAX_PHDR_BYTES_def range_ok_def)

section \<open>Properties\<close>

text \<open>
  Decoding an ELF header never reads outside the buffer, whatever bytes it holds, and a header it
  accepts describes a program header table that lies inside the file and fits the decoder's limit.\<close>

theorem elf_header_safe:
  "\<exists>err info. elf_parse_header buf file_size = Some (err, info) \<and> (err = ELF_OK \<longrightarrow> header_ok file_size info)"
  using elf_parse_header_total [of buf file_size] elf_parse_header_ok [of buf file_size] by fastforce

theorem elf_header_safe_witness: "header_ok 120 sample_info"
  using elf_header_safe [of sample_elf 120] sample_elf_parses by simp

text \<open>
  Scanning the program headers that an accepted header announces never reads outside them, and a
  PT_INTERP it accepts lies inside the file and is short enough for the buffer made for it.\<close>

theorem elf_phdrs_safe:
  assumes "elf_parse_header buf file_size = Some (ELF_OK, info)"
    and "length phdrs = ei_phnum info * ei_phentsize info"
  shows "\<exists>err info'. elf_scan_phdrs phdrs file_size info = Some (err, info') \<and>
    (err = ELF_OK \<longrightarrow> interp_ok file_size info')"
proof -
  have h: "header_ok file_size info" using elf_parse_header_ok [OF assms(1)] .
  let ?i = "info\<lparr>ei_has_interp := False, ei_interp_offset := 0, ei_interp_size := 0\<rparr>"
  have e: "elf_scan_phdrs phdrs file_size info = scan_loop phdrs file_size (ei_phnum info) 0 ?i"
    using h assms(2) by (simp add: elf_scan_phdrs_def header_ok_def Let_def)
  obtain err info' where r: "scan_loop phdrs file_size (ei_phnum info) 0 ?i = Some (err, info')"
    using scan_loop_total [of 0 "ei_phnum info" ?i phdrs file_size] h assms(2) by (auto simp: header_ok_def)
  moreover have "interp_ok file_size ?i" by (simp add: interp_ok_def)
  ultimately show ?thesis using e scan_loop_ok [of phdrs file_size "ei_phnum info" 0 ?i info'] by auto
qed

theorem elf_phdrs_safe_witness:
  "\<exists>info. elf_scan_phdrs (CHR 0x01 # replicate 55 nul) 120 sample_info = Some (ELF_OK, info) \<and> interp_ok 120 info"
proof -
  have "rd32 (CHR 0x01 # replicate 55 nul) 0 = Some 1" by code_simp
  then have "elf_scan_phdrs (CHR 0x01 # replicate 55 nul) 120 sample_info = Some (ELF_OK, sample_info)"
    by (simp add: elf_scan_phdrs_def sample_info_def elf_zero_def VHDP_ELF_MAX_PHDR_BYTES_def)
  then show ?thesis
    using elf_phdrs_safe [OF sample_elf_parses, of "CHR 0x01 # replicate 55 nul"] by (auto simp: sample_info_def elf_zero_def)
qed

end
