(* ===== verification/Exec_Resolver.thy ===== *)
theory Exec_Resolver
  imports Resolver_Behaviour Elf Strings
begin

text \<open>
  Resolution of a guest program for execve (\<open>src/src/engines/rootless/exec_resolver.hpp\<close>,
  \<open>exec_resolver.cpp\<close>): shebang scripts, ELF checks, and the guest's own dynamic loader.  What the
  host answers (\<open>access\<close>, \<open>statvfs\<close>, \<open>open\<close>, \<open>fstat\<close>, \<open>pread\<close>, \<open>read\<close>) is collected in a record.
  An interrupted call is repeated by the source and does not appear here.
\<close>

section \<open>Host\<close>

record exec_file =
  ef_stat :: "errno + (bool \<times> nat)"
  ef_pread :: "nat \<Rightarrow> nat \<Rightarrow> errno + string"

type_synonym argv0_key = "nat \<times> nat \<times> int \<times> int"

record exec_host =
  eh_fs :: host_fs
  eh_access :: "string \<Rightarrow> errno option"
  eh_noexec :: "string \<Rightarrow> bool"
  eh_open :: "string \<Rightarrow> errno + exec_file"
  eh_stat_key :: "string \<Rightarrow> argv0_key option"
  eh_chunks :: "string \<Rightarrow> string list option"
  eh_machine :: nat

definition kMaxShebangDepth :: nat where "kMaxShebangDepth = 4"
definition kShebangMax :: nat where "kShebangMax = 256"
definition kLoaderScanMax :: nat where "kLoaderScanMax = 16 * 1024 * 1024"

function pread_full :: "exec_file \<Rightarrow> nat \<Rightarrow> nat \<Rightarrow> string \<Rightarrow> errno + string" where
  "pread_full f len off buf =
     (if length buf < len
      then (case ef_pread f (off + length buf) (len - length buf) of
              Inl e \<Rightarrow> Inl e
            | Inr d \<Rightarrow> if d = [] then Inr buf else pread_full f len off (buf @ d))
      else Inr buf)"
  by pat_completeness auto
termination
  by (relation "measure (\<lambda>(f, len, off, buf). len - length buf)") (auto simp: diff_less_mono2)

declare pread_full.simps [simp del]

section \<open>Shebang lines\<close>

definition is_space :: "char \<Rightarrow> bool" where
  "is_space c \<longleftrightarrow> c = CHR '' '' \<or> c = CHR 0x09"

definition rstrip :: "(char \<Rightarrow> bool) \<Rightarrow> string \<Rightarrow> string" where
  "rstrip P s = rev (dropWhile P (rev s))"

definition parse_shebang :: "string \<Rightarrow> (string \<times> string option) option" where
  "parse_shebang buf =
     (if length buf < 2 \<or> buf ! 0 \<noteq> CHR 0x23 \<or> buf ! 1 \<noteq> CHR 0x21 then None
      else
        let line = takeWhile (\<lambda>c. c \<noteq> CHR 0x0A) (drop 2 buf);
            l1 = dropWhile is_space line;
            interp = takeWhile (\<lambda>c. \<not> is_space c \<and> c \<noteq> nul) l1
        in if interp = [] then None
           else
             let l2 = dropWhile is_space (drop (length interp) l1);
                 a = rstrip (\<lambda>c. is_space c \<or> c = CHR 0x0D) l2;
                 arg = takeWhile (\<lambda>c. c \<noteq> nul) a
             in Some (interp, if arg \<noteq> [] then Some arg else None))"

section \<open>Loader probe\<close>

definition kNeedle :: string where "kNeedle = ''--argv0''"

text \<open>The chunked search; the last bytes of what has been read are carried into the next round.\<close>

fun scan_chunks :: "string \<Rightarrow> nat \<Rightarrow> string list \<Rightarrow> bool" where
  "scan_chunks carry tot [] = False"
| "scan_chunks carry tot (c # cs) =
     (if tot \<ge> kLoaderScanMax \<or> c = [] then False
      else
        let view = carry @ c
        in if contains_sub kNeedle view then True
           else scan_chunks (drop (length view - (if length view \<ge> length kNeedle - 1 then length kNeedle - 1 else length view)) view)
                  (tot + length c) cs)"

type_synonym argv0_cache = "(argv0_key \<times> bool) list"

definition loader_supports_argv0 :: "exec_host \<Rightarrow> argv0_cache \<Rightarrow> string \<Rightarrow> bool \<times> argv0_cache" where
  "loader_supports_argv0 eh cache host_loader =
     (case eh_stat_key eh host_loader of
        None \<Rightarrow> (False, cache)
      | Some key \<Rightarrow>
          (case map_of cache key of
             Some b \<Rightarrow> (b, cache)
           | None \<Rightarrow>
               (let found = (case eh_chunks eh host_loader of None \<Rightarrow> False | Some cs \<Rightarrow> scan_chunks [] 0 cs)
                in (found, (key, found) # cache))))"

section \<open>PATH lookup\<close>

definition path_candidate :: "string \<Rightarrow> string \<Rightarrow> string \<Rightarrow> string" where
  "path_candidate guest_cwd dir0 name =
     (let dir = (if dir0 = [] then guest_cwd else dir0)
      in join (if is_absolute dir then dir else join guest_cwd dir) name)"

fun search_dirs ::
  "exec_host \<Rightarrow> mount_table \<Rightarrow> resolve_options \<Rightarrow> string \<Rightarrow> string \<Rightarrow> errno \<Rightarrow> string list \<Rightarrow> errno + string" where
  "search_dirs eh t opts cwd name err [] = Inl err"
| "search_dirs eh t opts cwd name err (d # ds) =
     (let cand = path_candidate cwd d name
      in case fst (resolve (eh_fs eh) t cand opts None) of
           Inl e \<Rightarrow> search_dirs eh t opts cwd name err ds
         | Inr r \<Rightarrow>
             if r_exists r \<and> \<not> r_is_dir r
             then (if eh_access eh (r_host r) = None then Inr cand
                   else search_dirs eh t opts cwd name EACCES ds)
             else search_dirs eh t opts cwd name err ds)"

definition search_path ::
  "exec_host \<Rightarrow> mount_table \<Rightarrow> resolve_options \<Rightarrow> string \<Rightarrow> string \<Rightarrow> string \<Rightarrow> errno + string" where
  "search_path eh t opts cwd name path_list = search_dirs eh t opts cwd name ENOENT (split path_list (CHR '':''))"

section \<open>The plan\<close>

record exec_plan =
  ep_host_exec :: string
  ep_argv :: "string list"
  ep_guest_program :: string
  ep_guest_loader :: string
  ep_program_argv :: "string list"
  ep_via_loader :: bool
  ep_loader_argv0 :: bool
  ep_shebang_depth :: nat

type_synonym exec_diag = "string \<times> string"
type_synonym plan_result = "((errno \<times> exec_diag option) + exec_plan) \<times> argv0_cache"

abbreviation plan_fail :: "errno \<Rightarrow> argv0_cache \<Rightarrow> plan_result" where
  "plan_fail e cache \<equiv> (Inl (e, None), cache)"

abbreviation plan_diag :: "errno \<Rightarrow> string \<Rightarrow> string \<Rightarrow> argv0_cache \<Rightarrow> plan_result" where
  "plan_diag e name message cache \<equiv> (Inl (e, Some (name, message)), cache)"

text \<open>\<open>vhdp_elf_parse_header\<close> never leaves its buffer (\<open>elf_parse_header_total\<close>).\<close>

definition elf_header :: "string \<Rightarrow> nat \<Rightarrow> elf_err \<times> elf_info" where
  "elf_header buf fsize = (case elf_parse_header buf fsize of Some x \<Rightarrow> x | None \<Rightarrow> (ELF_E_TRUNCATED, elf_zero))"

definition final_argv :: "bool \<Rightarrow> string \<Rightarrow> string list \<Rightarrow> string list" where
  "final_argv argv0 guest argv =
     (let a0 = (if argv = [] then guest else hd argv)
      in [a0] @ (if argv0 then [''--argv0'', a0] else []) @ [guest] @ drop 1 argv)"

text \<open>The program is a dynamic executable: find and check its loader.\<close>

definition plan_loader ::
  "exec_host \<Rightarrow> mount_table \<Rightarrow> resolve_options \<Rightarrow> resolved \<Rightarrow> string \<Rightarrow> string list \<Rightarrow> nat \<Rightarrow> argv0_cache \<Rightarrow> plan_result" where
  "plan_loader eh t opts r loader argv shebang_depth cache =
     (let missing = (''exec.loader_missing'', ''dynamic loader '' @ loader @ '' required by '' @ r_guest r @ '' is missing from the rootfs'')
      in case fst (resolve (eh_fs eh) t loader opts None) of
           Inl le \<Rightarrow> (Inl (le, Some missing), cache)
         | Inr lr \<Rightarrow>
             if \<not> r_exists lr \<or> r_is_dir lr then (Inl (ENOENT, Some missing), cache)
             else case eh_open eh (r_host lr) of
                 Inl e \<Rightarrow> plan_fail e cache
               | Inr lf \<Rightarrow>
                   (case pread_full lf 64 0 [] of
                      Inl e \<Rightarrow> plan_fail e cache
                    | Inr lhead \<Rightarrow>
                        (let fsize = (case ef_stat lf of Inl e \<Rightarrow> 0 | Inr (reg, n) \<Rightarrow> n);
                             (lee, linfo) = elf_header lhead fsize
                         in if lee \<noteq> ELF_OK \<or> ei_machine linfo \<noteq> eh_machine eh
                            then plan_diag ENOEXEC ''exec.loader_invalid''
                                   (''dynamic loader '' @ loader @ '' is not a valid '' @ elf_machine_name (eh_machine eh) @ '' ELF'') cache
                            else case loader_supports_argv0 eh cache (r_host lr) of
                              (argv0, cache') \<Rightarrow>
                                (Inr \<lparr>ep_host_exec = r_host lr, ep_argv = final_argv argv0 (r_guest r) argv,
                                      ep_guest_program = r_guest r, ep_guest_loader = r_guest lr,
                                      ep_program_argv = argv, ep_via_loader = True, ep_loader_argv0 = argv0,
                                      ep_shebang_depth = shebang_depth\<rparr>, cache'))))"

definition plan_interp ::
  "exec_host \<Rightarrow> mount_table \<Rightarrow> resolve_options \<Rightarrow> resolved \<Rightarrow> exec_file \<Rightarrow> elf_info \<Rightarrow> string list \<Rightarrow> nat \<Rightarrow> argv0_cache \<Rightarrow> plan_result" where
  "plan_interp eh t opts r f info argv shebang_depth cache =
     (if \<not> ei_has_interp info
      then (Inr \<lparr>ep_host_exec = r_host r, ep_argv = argv, ep_guest_program = r_guest r, ep_guest_loader = [],
                 ep_program_argv = argv, ep_via_loader = False, ep_loader_argv0 = False,
                 ep_shebang_depth = shebang_depth\<rparr>, cache)
      else case pread_full f (ei_interp_size info) (ei_interp_offset info) [] of
          Inl e \<Rightarrow> plan_fail e cache
        | Inr ibuf \<Rightarrow>
            if length ibuf \<noteq> ei_interp_size info \<or> elf_validate_interp ibuf \<noteq> ELF_OK
            then plan_diag ENOEXEC ''exec.bad_elf'' (''malformed PT_INTERP in '' @ r_guest r) cache
            else plan_loader eh t opts r (takeWhile (\<lambda>c. c \<noteq> nul) ibuf) argv shebang_depth cache)"

definition plan_elf ::
  "exec_host \<Rightarrow> mount_table \<Rightarrow> resolve_options \<Rightarrow> resolved \<Rightarrow> exec_file \<Rightarrow> nat \<Rightarrow> string \<Rightarrow> string list \<Rightarrow> nat \<Rightarrow> argv0_cache \<Rightarrow> plan_result" where
  "plan_elf eh t opts r f fsize head argv shebang_depth cache =
     (let (ee, info) = elf_header head fsize;
          host_machine = eh_machine eh
      in if ee = ELF_E_NOT_ELF \<or> (ee = ELF_E_TRUNCATED \<and> length head < 4)
         then plan_diag ENOEXEC ''exec.format'' (''not an ELF executable or #! script: '' @ r_guest r) cache
         else if ei_machine info \<noteq> 0 \<and> (ei_machine info \<noteq> host_machine \<or> ei_class info = 32)
         then plan_diag ENOEXEC ''exec.abi_mismatch''
                (''ABI mismatch: '' @ r_guest r @ '' is '' @ elf_machine_name (ei_machine info) @
                 (if ei_class info = 32 then '' (32-bit)'' else '''') @ '', host engine runs '' @
                 elf_machine_name host_machine @ '' guests only; cross-architecture execution needs an emulator backend'') cache
         else if ee \<noteq> ELF_OK
         then plan_diag ENOEXEC ''exec.bad_elf'' (''malformed ELF ('' @ elf_error_name ee @ ''): '' @ r_guest r) cache
         else case pread_full f (ei_phnum info * ei_phentsize info) (ei_phoff info) [] of
             Inl e \<Rightarrow> plan_fail e cache
           | Inr phdrs \<Rightarrow>
               (case (if length phdrs \<noteq> ei_phnum info * ei_phentsize info then None
                      else elf_scan_phdrs phdrs fsize info) of
                  Some (ELF_OK, info') \<Rightarrow> plan_interp eh t opts r f info' argv shebang_depth cache
                | _ \<Rightarrow> plan_diag ENOEXEC ''exec.bad_elf'' (''malformed ELF program headers: '' @ r_guest r) cache))"

function plan_loop ::
  "exec_host \<Rightarrow> mount_table \<Rightarrow> resolve_options \<Rightarrow> string \<Rightarrow> string \<Rightarrow> nat \<Rightarrow> string \<Rightarrow> string list \<Rightarrow> argv0_cache \<Rightarrow> plan_result" where
  "plan_loop eh t opts guest_cwd guest_path depth current argv cache =
     (if depth > kMaxShebangDepth
      then plan_diag ELOOP ''exec.shebang_loop'' (''too many nested #! interpreters for '' @ guest_path) cache
      else case fst (resolve (eh_fs eh) t current opts None) of
          Inl e \<Rightarrow> plan_fail e cache
        | Inr r \<Rightarrow>
            if \<not> r_exists r then plan_fail ENOENT cache
            else if r_is_dir r then plan_fail EACCES cache
            else case eh_access eh (r_host r) of
                Some e \<Rightarrow> plan_fail e cache
              | None \<Rightarrow>
                  if eh_noexec eh (r_host r)
                  then plan_diag EACCES ''exec.noexec_mount'' (''program is on a noexec mount: '' @ r_guest r) cache
                  else case eh_open eh (r_host r) of
                      Inl e \<Rightarrow> plan_fail e cache
                    | Inr f \<Rightarrow>
                        (case ef_stat f of
                           Inl e \<Rightarrow> plan_fail e cache
                         | Inr (reg, fsize) \<Rightarrow>
                             if \<not> reg then plan_fail EACCES cache
                             else case pread_full f 512 0 [] of
                                 Inl e \<Rightarrow> plan_fail e cache
                               | Inr head \<Rightarrow>
                                   (case parse_shebang (take kShebangMax head) of
                                      Some (interp, arg) \<Rightarrow>
                                        plan_loop eh t opts guest_cwd guest_path (depth + 1)
                                          (if is_absolute interp then interp else join guest_cwd interp)
                                          ([interp] @ (case arg of None \<Rightarrow> [] | Some a \<Rightarrow> [a]) @ [current] @ drop 1 argv)
                                          cache
                                    | None \<Rightarrow> plan_elf eh t opts r f fsize head argv depth cache)))"
  by pat_completeness auto
termination
  by (relation "measure (\<lambda>(eh, t, opts, cwd, gp, depth, cur, argv, cache). Suc kMaxShebangDepth - depth)") auto

declare plan_loop.simps [simp del]

definition plan ::
  "exec_host \<Rightarrow> mount_table \<Rightarrow> string \<Rightarrow> string list \<Rightarrow> string \<Rightarrow> resolve_options \<Rightarrow> argv0_cache \<Rightarrow> plan_result" where
  "plan eh t guest_path argv guest_cwd opts cache =
     (if guest_path = [] then plan_fail ENOENT cache
      else plan_loop eh t opts guest_cwd guest_path 0
             (if is_absolute guest_path then guest_path else join guest_cwd guest_path)
             (if argv = [] then [guest_path] else argv) cache)"


section \<open>Chunked search\<close>

lemma contains_sub_iff: "contains_sub pat s \<longleftrightarrow> (\<exists>u v. s = u @ pat @ v)"
proof (induction s)
  case (Cons x s)
  show ?case
  proof
    assume "contains_sub pat (x # s)"
    then show "\<exists>u v. x # s = u @ pat @ v"
      using Cons by (auto simp: starts_with_prefix prefix_def) (metis append_Cons append_Nil)+
  next
    assume "\<exists>u v. x # s = u @ pat @ v"
    then obtain u v where uv: "x # s = u @ pat @ v" by blast
    show "contains_sub pat (x # s)"
    proof (cases u)
      case Nil
      then have "starts_with (x # s) pat" using uv unfolding starts_with_prefix prefix_def by auto
      then show ?thesis by simp
    next
      case (Cons y u')
      then show ?thesis using uv \<open>contains_sub pat s \<longleftrightarrow> (\<exists>u v. s = u @ pat @ v)\<close> by auto
    qed
  qed
qed auto

text \<open>An occurrence in \<open>view @ rest\<close> lies in \<open>view\<close> or starts in its last \<open>length pat - 1\<close> bytes.\<close>

lemma contains_sub_split:
  assumes "pat \<noteq> []" and "\<not> contains_sub pat view" and "k = length view - min (length view) (length pat - 1)"
  shows "contains_sub pat (view @ rest) \<longleftrightarrow> contains_sub pat (drop k view @ rest)"
proof
  assume "contains_sub pat (view @ rest)"
  then obtain u v where uv: "view @ rest = u @ pat @ v" by (auto simp: contains_sub_iff)
  have "k \<le> length u"
  proof (rule ccontr)
    assume "\<not> k \<le> length u"
    then have le: "length u + length pat \<le> length view" using assms(1,3) by (cases pat) auto
    have "view = take (length view) (u @ pat @ v)" using uv by (metis append_eq_conv_conj)
    also have "\<dots> = u @ pat @ take (length view - length u - length pat) v" using le by simp
    finally show False using assms(2) contains_sub_iff by blast
  qed
  then have "drop k view @ rest = drop k u @ pat @ v"
    using uv assms(3) by (metis append.assoc drop_append diff_is_0_eq' drop_0 diff_le_self le_trans length_append)
  then show "contains_sub pat (drop k view @ rest)" using contains_sub_iff by blast
next
  assume "contains_sub pat (drop k view @ rest)"
  then obtain u v where "drop k view @ rest = u @ pat @ v" by (auto simp: contains_sub_iff)
  then have "view @ rest = (take k view @ u) @ pat @ v" by (metis append.assoc append_take_drop_id)
  then show "contains_sub pat (view @ rest)" using contains_sub_iff by blast
qed

lemma contains_sub_short: "length s < length pat \<Longrightarrow> \<not> contains_sub pat s"
  by (auto simp: contains_sub_iff)

lemma contains_sub_append: "contains_sub pat s \<Longrightarrow> contains_sub pat (s @ r)"
proof -
  assume "contains_sub pat s"
  then obtain u v where "s @ r = u @ pat @ (v @ r)" by (auto simp: contains_sub_iff)
  then show ?thesis unfolding contains_sub_iff by blast
qed

lemma scan_chunks_contains:
  assumes "list_all (\<lambda>c. c \<noteq> []) cs" and "tot + length (concat cs) \<le> kLoaderScanMax"
    and "length carry < length kNeedle"
  shows "scan_chunks carry tot cs \<longleftrightarrow> contains_sub kNeedle (carry @ concat cs)"
  using assms
proof (induction carry tot cs rule: scan_chunks.induct)
  case (1 carry tot)
  then show ?case using contains_sub_short by simp
next
  case (2 carry tot c cs)
  let ?view = "carry @ c"
  let ?k = "length ?view - (if length ?view \<ge> length kNeedle - 1 then length kNeedle - 1 else length ?view)"
  have ne: "c \<noteq> []" "tot < kLoaderScanMax" using "2.prems" by (cases c; auto)+
  show ?case
  proof (cases "contains_sub kNeedle ?view")
    case True
    then show ?thesis using ne contains_sub_append [OF True, of "concat cs"] by simp
  next
    case False
    have k: "?k = length ?view - min (length ?view) (length kNeedle - 1)" by (simp add: min_def)
    have "length (drop ?k ?view) < length kNeedle"
      unfolding length_drop by (cases "length ?view \<ge> length kNeedle - 1") (simp_all add: kNeedle_def)
    then have "scan_chunks (drop ?k ?view) (tot + length c) cs \<longleftrightarrow> contains_sub kNeedle (drop ?k ?view @ concat cs)"
      using "2.IH" [OF _ refl False] "2.prems" ne by auto
    also have "\<dots> \<longleftrightarrow> contains_sub kNeedle (?view @ concat cs)"
      using contains_sub_split [OF _ False k, of "concat cs"] by (simp add: kNeedle_def)
    finally show ?thesis using ne False by (simp add: Let_def)
  qed
qed


section \<open>Successful plans\<close>

definition argv_of :: "exec_plan \<Rightarrow> string list" where
  "argv_of ep =
     (if ep_via_loader ep then final_argv (ep_loader_argv0 ep) (ep_guest_program ep) (ep_program_argv ep)
      else ep_program_argv ep)"

definition below_mount :: "mount_table \<Rightarrow> string \<Rightarrow> bool" where
  "below_mount t host \<longleftrightarrow> list_ex (\<lambda>m. is_below host (m_host m)) t"

lemma resolve_below_mount:
  assumes "table_ok t" and "fst (resolve fs t p opts None) = Inr r"
  shows "canonical (r_guest r) \<and> below_mount t (r_host r)"
  using resolve_result_contained [OF assms(1) _ assms(2)]
  by (auto simp: below_mount_def list_ex_iff)

lemma plan_loader_ok:
  assumes "table_ok t" and "plan_loader eh t opts r loader argv sd cache = (Inr ep, cache')"
  shows "below_mount t (ep_host_exec ep) \<and> canonical (ep_guest_loader ep) \<and> ep_guest_program ep = r_guest r \<and>
    ep_program_argv ep = argv \<and> ep_argv ep = argv_of ep \<and> ep_shebang_depth ep = sd"
proof -
  obtain lr argv0 where lr: "fst (resolve (eh_fs eh) t loader opts None) = Inr lr"
    "ep = \<lparr>ep_host_exec = r_host lr, ep_argv = final_argv argv0 (r_guest r) argv, ep_guest_program = r_guest r,
      ep_guest_loader = r_guest lr, ep_program_argv = argv, ep_via_loader = True, ep_loader_argv0 = argv0,
      ep_shebang_depth = sd\<rparr>"
    using assms(2) unfolding plan_loader_def Let_def
    by (auto split: sum.splits if_splits prod.splits)
  then show ?thesis using resolve_below_mount [OF assms(1) lr(1)] by (simp add: argv_of_def)
qed

lemma plan_elf_ok:
  assumes "table_ok t" and "below_mount t (r_host r)" and "plan_elf eh t opts r f fs head argv sd cache = (Inr ep, cache')"
  shows "below_mount t (ep_host_exec ep) \<and> ep_guest_program ep = r_guest r \<and>
    (ep_via_loader ep \<longrightarrow> canonical (ep_guest_loader ep)) \<and>
    ep_program_argv ep = argv \<and> ep_argv ep = argv_of ep \<and> ep_shebang_depth ep = sd"
proof -
  obtain info where "plan_interp eh t opts r f info argv sd cache = (Inr ep, cache')"
    using assms(3) unfolding plan_elf_def Let_def
    by (auto split: sum.splits if_splits prod.splits option.splits elf_err.splits)
  then show ?thesis
    using assms(2) plan_loader_ok [OF assms(1)] unfolding plan_interp_def
    by (auto simp: argv_of_def split: sum.splits if_splits)
qed

lemma plan_loop_ok:
  assumes "table_ok t" and "plan_loop eh t opts cwd gp depth current argv cache = (Inr ep, cache')"
  shows "below_mount t (ep_host_exec ep) \<and> canonical (ep_guest_program ep) \<and>
    (ep_via_loader ep \<longrightarrow> canonical (ep_guest_loader ep)) \<and> ep_argv ep = argv_of ep \<and>
    suffix (drop 1 argv) (ep_program_argv ep) \<and> (ep_shebang_depth ep = depth \<longrightarrow> ep_program_argv ep = argv) \<and>
    depth \<le> ep_shebang_depth ep \<and> ep_shebang_depth ep \<le> kMaxShebangDepth"
  using assms
proof (induction "Suc kMaxShebangDepth - depth" arbitrary: depth current argv rule: less_induct)
  case less
  note prems = less.prems
  have d: "\<not> depth > kMaxShebangDepth" using prems(2) by (subst (asm) plan_loop.simps) auto
  obtain r f fs head where r: "fst (resolve (eh_fs eh) t current opts None) = Inr r" "r_exists r" "\<not> r_is_dir r"
    "eh_access eh (r_host r) = None" "\<not> eh_noexec eh (r_host r)" "eh_open eh (r_host r) = Inr f"
    "ef_stat f = Inr (True, fs)" "pread_full f 512 0 [] = Inr head"
    using prems(2) d
    by (subst (asm) plan_loop.simps) (auto split: sum.splits if_splits option.splits prod.splits)
  have b: "canonical (r_guest r)" "below_mount t (r_host r)"
    using resolve_below_mount [OF prems(1) r(1)] by auto
  show ?case
  proof (cases "parse_shebang (take kShebangMax head)")
    case None
    then have "plan_elf eh t opts r f fs head argv depth cache = (Inr ep, cache')"
      using prems(2) d r by (subst (asm) plan_loop.simps) simp
    then show ?thesis using plan_elf_ok [OF prems(1) b(2)] b(1) d suffix_drop [of 1 argv] by auto
  next
    case (Some x)
    obtain interp arg where x: "x = (interp, arg)" by (cases x)
    let ?argv = "[interp] @ (case arg of None \<Rightarrow> [] | Some a \<Rightarrow> [a]) @ [current] @ drop 1 argv"
    have "plan_loop eh t opts cwd gp (depth + 1) (if is_absolute interp then interp else join cwd interp) ?argv cache = (Inr ep, cache')"
      using prems(2) d r Some x by (subst (asm) plan_loop.simps) simp
    then have IH: "below_mount t (ep_host_exec ep)" "canonical (ep_guest_program ep)"
      "ep_via_loader ep \<longrightarrow> canonical (ep_guest_loader ep)" "ep_argv ep = argv_of ep"
      "suffix (drop 1 ?argv) (ep_program_argv ep)" "depth + 1 \<le> ep_shebang_depth ep" "ep_shebang_depth ep \<le> kMaxShebangDepth"
      using less.hyps [of "depth + 1" "if is_absolute interp then interp else join cwd interp" ?argv] prems(1) d by auto
    have "suffix (drop 1 argv) (drop 1 ?argv)" by (cases arg) (auto simp: suffix_def)
    then show ?thesis using IH suffix_order.trans by auto
  qed
qed

section \<open>Properties\<close>


text \<open>
  Searching the dynamic loader for its \<open>--argv0\<close> option in 64 KiB pieces finds it exactly when
  the file contains it, also when the text straddles two pieces.\<close>

theorem loader_scan_exact:
  assumes "list_all (\<lambda>c. c \<noteq> []) chunks" and "length (concat chunks) \<le> kLoaderScanMax"
  shows "scan_chunks [] 0 chunks \<longleftrightarrow> contains_sub kNeedle (concat chunks)"
  using scan_chunks_contains [OF assms(1), of 0 "[]"] assms(2) by (simp add: kNeedle_def)


section \<open>Witnesses\<close>

definition sample_program :: string where
  "sample_program = sample_elf @ CHR 0x01 # replicate 55 nul"

definition sample_exec_host :: exec_host where
  "sample_exec_host = \<lparr>eh_fs = sample_fs, eh_access = (\<lambda>_. None), eh_noexec = (\<lambda>_. False),
     eh_open = (\<lambda>_. Inr \<lparr>ef_stat = Inr (True, 120), ef_pread = (\<lambda>off len. Inr (take len (drop off sample_program)))\<rparr>),
     eh_stat_key = (\<lambda>_. None), eh_chunks = (\<lambda>_. None), eh_machine = 62\<rparr>"

lemma length_sample_program: "length sample_program = 120"
  by (simp add: sample_program_def sample_elf_fields)

lemma pread_full_content:
  assumes "ef_pread f = (\<lambda>off len. Inr (take len (drop off content)))"
  shows "pread_full f len off [] = Inr (take len (drop off content))"
proof (cases "take len (drop off content) = []")
  case True
  then show ?thesis using assms by (subst pread_full.simps) auto
next
  case False
  let ?d = "take len (drop off content)"
  have "pread_full f len off ?d = Inr ?d"
  proof (cases "length ?d < len")
    case True
    then have "drop (off + length ?d) content = []" by auto
    then show ?thesis using True assms by (subst pread_full.simps) simp
  qed (subst pread_full.simps, simp)
  then show ?thesis using False assms by (subst pread_full.simps) simp
qed

lemma sample_header: "elf_header sample_program 120 = (ELF_OK, sample_info)"
proof -
  have ext: "rd_le n buf i = Some v \<Longrightarrow> rd_le n (buf @ r) i = Some v" for n buf i v r
    by (induction n arbitrary: i v) (auto simp: rd8_def nth_append split: option.splits if_splits)
  have "rd8 sample_program i = rd8 sample_elf i" if "i < 64" for i
    using that by (simp add: rd8_def sample_program_def nth_append sample_elf_fields)
  moreover have "take 4 sample_program = elf_magic"
    using sample_elf_fields by (simp add: sample_program_def)
  ultimately show ?thesis
    using length_sample_program ext [of _ sample_elf _ _ "CHR 0x01 # replicate 55 nul"] sample_elf_fields
    by (simp add: elf_header_def elf_parse_header_def parse_header64_def sample_info_def elf_zero_def
        VHDP_ELF_MAX_PHDR_BYTES_def range_ok_def rd16_def rd32_def rd64_def flip: sample_program_def)
qed

lemma sample_plan:
  "\<exists>ep c. plan sample_exec_host sample_table ''/esc'' [''esc'', ''-x''] ''/'' default_options [] = (Inr ep, c) \<and>
     ep_host_exec ep = ''/data/rootfs/etc/passwd'' \<and> ep_shebang_depth ep = 0"
proof -
  have head: "pread_full f 512 0 [] = Inr sample_program" "pread_full f 56 64 [] = Inr (CHR 0x01 # replicate 55 nul)"
    if "ef_pread f = (\<lambda>off len. Inr (take len (drop off sample_program)))" for f
    using pread_full_content [OF that] length_sample_program sample_elf_fields(13)
    by (simp_all add: sample_program_def)
  have scan: "elf_scan_phdrs (CHR 0x01 # replicate 55 nul) 120 sample_info = Some (ELF_OK, sample_info)"
  proof -
    have "rd32 (CHR 0x01 # replicate 55 nul) 0 = Some 1" by code_simp
    then show ?thesis
      by (simp add: elf_scan_phdrs_def sample_info_def elf_zero_def VHDP_ELF_MAX_PHDR_BYTES_def)
  qed
  have sheb: "parse_shebang (take kShebangMax sample_program) = None"
    by (simp add: parse_shebang_def sample_program_def sample_elf_def elf_magic_def kShebangMax_def)
  have fields: "ei_machine sample_info = 62" "ei_class sample_info = 64" "ei_phnum sample_info = 1"
    "ei_phentsize sample_info = 56" "ei_phoff sample_info = 64" "\<not> ei_has_interp sample_info"
    by (simp_all add: sample_info_def elf_zero_def)
  have mach: "eh_machine sample_exec_host = 62" by (simp add: sample_exec_host_def)
  have elf: "plan_elf sample_exec_host t opts r f 120 sample_program argv 0 [] =
      (Inr \<lparr>ep_host_exec = r_host r, ep_argv = argv, ep_guest_program = r_guest r, ep_guest_loader = [],
            ep_program_argv = argv, ep_via_loader = False, ep_loader_argv0 = False, ep_shebang_depth = 0\<rparr>, [])"
    if "ef_pread f = (\<lambda>off len. Inr (take len (drop off sample_program)))" for f r t opts argv
    using head(2) [OF that]
    by (simp add: plan_elf_def sample_header fields scan plan_interp_def mach)
  define f where "f = \<lparr>ef_stat = Inr (True, 120 :: nat), ef_pread = (\<lambda>off len. Inr (take len (drop off sample_program)))\<rparr>"
  have f: "ef_stat f = Inr (True, 120)" "ef_pread f = (\<lambda>off len. Inr (take len (drop off sample_program)))"
    by (simp_all add: f_def)
  have h: "eh_fs sample_exec_host = sample_fs" "eh_access sample_exec_host p = None" "\<not> eh_noexec sample_exec_host p"
    "eh_open sample_exec_host p = Inr f" for p
    by (simp_all add: sample_exec_host_def f_def)
  show ?thesis
    unfolding plan_def
    by (subst plan_loop.simps)
      (simp add: is_absolute_def h f head(1) [OF f(2)] sheb elf [OF f(2)] sample_esc_resolves)
qed


theorem loader_scan_exact_witness:
  "scan_chunks [] 0 [''ab--a'', ''rgv0 '', ''x'']"
  using loader_scan_exact [of "[''ab--a'', ''rgv0 '', ''x'']"]
  by (simp add: kLoaderScanMax_def kNeedle_def starts_with_def)

end
