(* ===== verification/Engine_Select.thy ===== *)
theory Engine_Select
  imports Config
begin

text \<open>
  Engine selection and the shell status of a session (\<open>src/src/core/engine.hpp\<close>,
  \<open>engine_select.cpp\<close>).  An engine is its kind and the report of its probe; a null pointer in the
  engine list is \<open>None\<close>.
\<close>

datatype exit_reason = Exit_none | Exit_normal | Exit_signaled | Exit_timeout | Exit_cancelled | Exit_start_failed

record exit_result =
  er_reason :: exit_reason
  er_exit_code :: int
  er_term_signal :: int
  er_exec_errno :: nat
  er_status :: status

definition no_result :: exit_result where
  "no_result = \<lparr>er_reason = Exit_none, er_exit_code = 0, er_term_signal = 0, er_exec_errno = 0,
     er_status = status_ok\<rparr>"

definition shell_status :: "exit_result \<Rightarrow> int" where
  "shell_status r =
     (case er_reason r of
        Exit_normal \<Rightarrow> er_exit_code r mod 256
      | Exit_signaled \<Rightarrow> 128 + er_term_signal r
      | Exit_timeout \<Rightarrow> 124
      | Exit_start_failed \<Rightarrow>
          if er_exec_errno r = ENOENT then 127
          else if er_exec_errno r = EACCES \<or> er_exec_errno r = ENOEXEC \<or> er_exec_errno r = EPERM then 126
          else 125
      | Exit_cancelled \<Rightarrow> 125
      | Exit_none \<Rightarrow> 125)"

record probe_report =
  pr_available :: bool
  pr_reason :: string
  pr_details :: "string list"

record engine =
  eng_kind :: engine_kind
  eng_probe :: probe_report

record engine_choice =
  ec_engine :: engine
  ec_reason :: string

fun find_engine :: "engine option list \<Rightarrow> engine_kind \<Rightarrow> engine option" where
  "find_engine [] k = None"
| "find_engine (None # es) k = find_engine es k"
| "find_engine (Some e # es) k = (if eng_kind e = k then Some e else find_engine es k)"

definition other_reasons :: "engine option list \<Rightarrow> string \<Rightarrow> string" where
  "other_reasons engines why =
     foldl (\<lambda>why k. case find_engine engines k of
              None \<Rightarrow> why
            | Some e \<Rightarrow> why @ ''; '' @ engine_name k @ '': '' @ pr_reason (eng_probe e))
       why [Eng_rooted, Eng_emulator, Eng_vm]"

definition select_engine :: "engine_kind \<Rightarrow> engine option list \<Rightarrow> engine_choice result" where
  "select_engine requested engines =
     (if requested = Eng_auto_select
      then (case find_engine engines Eng_rootless of
              Some e \<Rightarrow>
                if pr_available (eng_probe e)
                then Inr \<lparr>ec_engine = e, ec_reason = ''auto selected rootless: '' @ pr_reason (eng_probe e)\<rparr>
                else Inl (mk_status Code_engine_unavailable
                  (''no usable engine ('' @ other_reasons engines (''rootless: '' @ pr_reason (eng_probe e)) @ '')''))
            | None \<Rightarrow> Inl (mk_status Code_engine_unavailable
                  (''no usable engine ('' @ other_reasons engines ''rootless: not built'' @ '')'')))
      else (case find_engine engines requested of
              None \<Rightarrow> Inl (mk_status Code_engine_unavailable
                (''engine '' @ [CHR 0x27] @ engine_name requested @ [CHR 0x27] @ '' is not built''))
            | Some e \<Rightarrow>
                if \<not> pr_available (eng_probe e)
                then Inl (mk_status Code_engine_unavailable
                  (''engine '' @ [CHR 0x27] @ engine_name requested @ [CHR 0x27] @ '' unavailable: '' @ pr_reason (eng_probe e)))
                else Inr \<lparr>ec_engine = e,
                  ec_reason = ''explicitly requested '' @ engine_name requested @ '': '' @ pr_reason (eng_probe e)\<rparr>))"

section \<open>Lemmas\<close>

lemma find_engine_Some: "find_engine es k = Some e \<Longrightarrow> Some e \<in> set es \<and> eng_kind e = k"
  by (induction es k rule: find_engine.induct) (auto split: if_splits)

lemma find_engine_None: "find_engine es k = None \<longleftrightarrow> (\<forall>e. Some e \<in> set es \<longrightarrow> eng_kind e \<noteq> k)"
  by (induction es k rule: find_engine.induct) auto

text \<open>The kind an engine must have to serve a request: \<open>auto\<close> stands for rootless only.\<close>

definition effective_kind :: "engine_kind \<Rightarrow> engine_kind" where
  "effective_kind k = (if k = Eng_auto_select then Eng_rootless else k)"

lemma select_engine_outcome:
  "(\<exists>c. select_engine k es = Inr c) \<longleftrightarrow>
     (\<exists>e. find_engine es (effective_kind k) = Some e \<and> pr_available (eng_probe e))"
  by (auto simp: select_engine_def effective_kind_def split: option.splits)

section \<open>Properties\<close>

text \<open>
  Selection never falls back to an engine with other security semantics: the chosen engine is one
  of the given ones, its probe passed, and it has the requested kind, rootless when the request is
  \<open>auto\<close>.\<close>

theorem select_engine_no_fallback:
  assumes "select_engine k es = Inr c"
  shows "Some (ec_engine c) \<in> set es \<and> pr_available (eng_probe (ec_engine c)) \<and>
    eng_kind (ec_engine c) = (if k = Eng_auto_select then Eng_rootless else k)"
  using assms by (auto simp: select_engine_def split: if_splits option.splits dest!: find_engine_Some)

definition sample_engine :: engine where
  "sample_engine = \<lparr>eng_kind = Eng_rootless, eng_probe = \<lparr>pr_available = True, pr_reason = ''ptrace works'', pr_details = []\<rparr>\<rparr>"

theorem select_engine_no_fallback_witness:
  "eng_kind sample_engine = Eng_rootless"
  using select_engine_no_fallback
    [of Eng_auto_select "[None, Some sample_engine]" "\<lparr>ec_engine = sample_engine, ec_reason = ''auto selected rootless: ptrace works''\<rparr>"]
  by (simp add: select_engine_def sample_engine_def)

text \<open>
  A shell status fits one byte, for every exit code and every signal Linux knows, and separates
  the outcomes a caller must tell apart: only a guest that exits with 0 yields 0.\<close>

theorem shell_status_range:
  assumes "er_reason r = Exit_signaled \<Longrightarrow> 1 \<le> er_term_signal r \<and> er_term_signal r \<le> 64"
  shows "0 \<le> shell_status r \<and> shell_status r \<le> 255 \<and>
    (shell_status r = 0 \<longleftrightarrow> er_reason r = Exit_normal \<and> er_exit_code r mod 256 = 0)"
  using assms by (cases "er_reason r") (auto simp: shell_status_def)

theorem shell_status_range_witness:
  "shell_status (no_result\<lparr>er_reason := Exit_signaled, er_term_signal := 9\<rparr>) = 137 \<and>
   shell_status (no_result\<lparr>er_reason := Exit_signaled, er_term_signal := 9\<rparr>) \<le> 255"
  using shell_status_range [of "no_result\<lparr>er_reason := Exit_signaled, er_term_signal := 9\<rparr>"]
  by (simp add: shell_status_def)

end
