(* ===== verification/Host_Proc.thy ===== *)
theory Host_Proc
  imports Strings
begin

text \<open>
  Bounded readers of procfs (\<open>src/src/platform/linux/proc.cpp\<close>).  The host is a parameter: what
  opening and reading a file to its end gives, and the entries of \<open>/proc\<close>.
\<close>

definition read_small_file :: "(string \<Rightarrow> errno + string) \<Rightarrow> string \<Rightarrow> nat \<Rightarrow> errno + string" where
  "read_small_file rd path max_bytes =
     (case rd path of Inl e \<Rightarrow> Inl e | Inr d \<Rightarrow> Inr (take max_bytes d))"

definition kSmallFileMax :: nat where "kSmallFileMax = 64 * 1024"

definition trim_char :: "char \<Rightarrow> bool" where
  "trim_char c \<longleftrightarrow> c = CHR 0x0A \<or> c = CHR '' '' \<or> c = CHR 0x09 \<or> c = CHR 0x0D"

definition trim_right :: "string \<Rightarrow> string" where
  "trim_right s = rev (dropWhile trim_char (rev s))"

text \<open>The lines of a status file, looked through for the first that starts with the key.\<close>

definition blank :: "char \<Rightarrow> bool" where
  "blank c \<longleftrightarrow> c = CHR '' '' \<or> c = CHR 0x09"

function status_lines :: "string \<Rightarrow> string \<Rightarrow> string option" where
  "status_lines needle txt =
     (if txt = [] then None
      else let line = takeWhile (\<lambda>c. c \<noteq> CHR 0x0A) txt
           in if take (length needle) txt = needle
              then Some (dropWhile blank (drop (length needle) line))
              else status_lines needle (drop (Suc (length line)) txt))"
  by pat_completeness auto
termination
  by (relation "measure (\<lambda>(needle, txt). length txt)") auto

declare status_lines.simps [simp del]

definition status_path :: "int \<Rightarrow> string" where
  "status_path pid = (if pid = 0 then ''/proc/self/status'' else ''/proc/'' @ int_string pid @ ''/status'')"

definition proc_status_field :: "(string \<Rightarrow> errno + string) \<Rightarrow> int \<Rightarrow> string \<Rightarrow> string option" where
  "proc_status_field rd pid key =
     (case read_small_file rd (status_path pid) kSmallFileMax of
        Inl e \<Rightarrow> None
      | Inr txt \<Rightarrow> status_lines (key @ '':'') txt)"

text \<open>\<open>strtol(s, &end, 10)\<close>: the saturated value, whether a digit was read and what is left.\<close>

definition c_white :: "char \<Rightarrow> bool" where
  "c_white c \<longleftrightarrow> byte c = 32 \<or> (9 \<le> byte c \<and> byte c \<le> 13)"

definition strtol :: "string \<Rightarrow> int \<times> bool \<times> string" where
  "strtol s =
     (let s1 = dropWhile c_white s;
          neg = (s1 \<noteq> [] \<and> hd s1 = CHR ''-'');
          s2 = (if s1 \<noteq> [] \<and> (hd s1 = CHR ''-'' \<or> hd s1 = CHR ''+'') then tl s1 else s1);
          ds = takeWhile digit_byte s2;
          v = int (dec_value ds)
      in if ds = [] then (0, False, s)
         else (if neg then max (- v) (- (2 ^ 63)) else min v (2 ^ 63 - 1), True, dropWhile digit_byte s2))"

text \<open>A 64-bit integer narrowed to \<open>int\<close> or \<open>pid_t\<close>.\<close>

definition to_int32 :: "int \<Rightarrow> int" where
  "to_int32 v = (let w = v mod 2 ^ 32 in if w < 2 ^ 31 then w else w - 2 ^ 32)"

text \<open>Position of the last occurrence of a character: \<open>std::string::rfind\<close>.\<close>

definition rfind_char :: "char \<Rightarrow> string \<Rightarrow> nat option" where
  "rfind_char c s = map_option (\<lambda>k. length s - Suc k) (find_char c (rev s))"

definition parse_stat :: "string \<Rightarrow> (char \<times> int) option" where
  "parse_stat st =
     (case rfind_char (CHR '')'') st of
        None \<Rightarrow> None
      | Some close \<Rightarrow>
          if close + 4 \<ge> length st then None
          else case strtol (drop (close + 4) st) of
              (p, digits, rest) \<Rightarrow> if digits then Some (st ! (close + 2), to_int32 p) else None)"

definition child_pids :: "(string \<Rightarrow> errno + string) \<Rightarrow> string list option \<Rightarrow> int \<Rightarrow> int list" where
  "child_pids rd entries parent =
     (case entries of
        None \<Rightarrow> []
      | Some names \<Rightarrow>
          concat (map (\<lambda>nm.
            (case strtol nm of
               (pid, digits, rest) \<Rightarrow>
                 if \<not> digits \<or> rest \<noteq> [] \<or> pid \<le> 0 then []
                 else case read_small_file rd (''/proc/'' @ nm @ ''/stat'') 4096 of
                     Inl e \<Rightarrow> []
                   | Inr st \<Rightarrow>
                       (case parse_stat st of
                          None \<Rightarrow> []
                        | Some (state, ppid) \<Rightarrow> if ppid = parent then [to_int32 pid] else []))) names))"

definition process_state :: "(string \<Rightarrow> errno + string) \<Rightarrow> int \<Rightarrow> char" where
  "process_state rd pid =
     (case read_small_file rd (''/proc/'' @ int_string pid @ ''/stat'') 4096 of
        Inl e \<Rightarrow> nul
      | Inr st \<Rightarrow> (case parse_stat st of None \<Rightarrow> nul | Some (state, ppid) \<Rightarrow> state))"

section \<open>Parsing is robust against the task name\<close>

lemma rfind_char_last:
  assumes "c \<notin> set t"
  shows "rfind_char c (s @ c # t) = Some (length s)"
proof -
  have "find_char c (rev t @ c # rev s) = Some (length t)"
    using assms by (induction t rule: rev_induct) auto
  then show ?thesis by (simp add: rfind_char_def)
qed

text \<open>
  A stat line is read back whatever the task name holds, parentheses and spaces included: the
  scan starts at the last closing parenthesis, and what the kernel prints after it has none.
\<close>

lemma parse_stat_any_name:
  assumes "CHR '')'' \<notin> set rest" and "state \<noteq> CHR '')''"
    and "strtol rest = (p, True, more)" and "rest \<noteq> []"
  shows "parse_stat (pid @ '' ('' @ name @ '') '' @ state # CHR '' '' # rest) = Some (state, to_int32 p)"
proof -
  define pre where "pre = pid @ '' ('' @ name"
  have form: "pid @ '' ('' @ name @ '') '' @ state # CHR '' '' # rest = pre @ CHR '')'' # CHR '' '' # state # CHR '' '' # rest"
    by (simp add: pre_def)
  have "rfind_char (CHR '')'') (pre @ CHR '')'' # CHR '' '' # state # CHR '' '' # rest) = Some (length pre)"
    by (rule rfind_char_last) (use assms(1,2) in auto)
  then show ?thesis
    using assms(3,4) unfolding form parse_stat_def by (simp add: nth_append)
qed

lemma status_lines_first:
  assumes "CHR 0x0A \<notin> set needle" and "CHR 0x0A \<notin> set v" and "needle \<noteq> []"
  shows "status_lines needle (needle @ v @ CHR 0x0A # rest) = Some (dropWhile blank v)"
proof -
  have "takeWhile (\<lambda>c. c \<noteq> CHR 0x0A) (needle @ v @ CHR 0x0A # rest) = needle @ v"
    using assms(1,2) by (auto simp: takeWhile_append)
  then show ?thesis using assms(3) by (simp add: status_lines.simps [of needle "needle @ v @ _"] Let_def)
qed

lemma status_lines_skip:
  assumes "CHR 0x0A \<notin> set line" and "take (length needle) (line @ CHR 0x0A # rest) \<noteq> needle"
  shows "status_lines needle (line @ CHR 0x0A # rest) = status_lines needle rest"
proof -
  have "takeWhile (\<lambda>c. c \<noteq> CHR 0x0A) (line @ CHR 0x0A # rest) = line"
    using assms(1) by (auto simp: takeWhile_append)
  then show ?thesis using assms(2) by (simp add: status_lines.simps [of needle "line @ _"] Let_def)
qed

end
