(* ===== verification/Proc_Synth.thy ===== *)
theory Proc_Synth
  imports Host_Proc "HOL-Library.Word" "HOL-Library.List_Lexorder" "HOL-Library.Char_ord"
begin

text \<open>
  Stand-ins for \<open>/proc\<close> files the host hides (\<open>src/src/engines/rootless/proc_synth.cpp\<close>).  What the
  host answers is a record: file contents (empty when unreadable), \<open>sysconf\<close>, \<open>uname\<close>, \<open>sysinfo\<close>.
  Floating point belongs to the host too: the texts \<open>printf\<close> makes of the up time, the idle time
  and the load averages, and the two integers computed from the up time.
\<close>

record proc_info =
  pi_file :: "string \<Rightarrow> string"
  pi_nproc :: int
  pi_page_size :: int
  pi_uname :: "(string \<times> string \<times> string \<times> string) option"
  pi_sysinfo :: "(nat \<times> 64 word \<times> 64 word \<times> 64 word) option"
  pi_uptime_text :: string
  pi_idle_text :: "64 word option list \<Rightarrow> string"
  pi_load_texts :: "string \<times> string \<times> string"
  pi_total_ticks :: "64 word"
  pi_btime :: int

definition fmt :: "string \<Rightarrow> string" where "fmt s = take 511 s"

abbreviation u64_string :: "64 word \<Rightarrow> string" where "u64_string w \<equiv> dec_string (unat w)"

section \<open>Processors\<close>

text \<open>\<open>std::getline\<close> in a loop: the pieces between delimiters, no empty last one.\<close>

definition getlines :: "char \<Rightarrow> string \<Rightarrow> string list" where
  "getlines d s = (let ps = split_on d s in if last ps = [] then butlast ps else ps)"

definition cpu_part :: "string \<Rightarrow> int list" where
  "cpu_part part =
     (case strtol part of
        (v, False, rest) \<Rightarrow> []
      | (v, True, rest) \<Rightarrow>
          (let lo = to_int32 v
           in case rest of
                [] \<Rightarrow> [lo]
              | c # rest' \<Rightarrow>
                  if c = CHR ''-''
                  then (case strtol rest' of
                          (w, True, r) \<Rightarrow> [lo..min (to_int32 w) 4095]
                        | (w, False, r) \<Rightarrow> [lo])
                  else [lo]))"

definition parse_cpu_list :: "string \<Rightarrow> int list" where
  "parse_cpu_list txt = concat (map cpu_part (getlines (CHR '','') txt))"

definition online_cpus :: "proc_info \<Rightarrow> int list" where
  "online_cpus pi =
     (let cpus = parse_cpu_list (pi_file pi ''/sys/devices/system/cpu/online'')
      in if cpus = [] then map to_int32 [0..(if pi_nproc pi > 0 then pi_nproc pi else 1) - 1] else cpus)"

text \<open>\<open>in >> v\<close> for an unsigned 64-bit number; a number out of range fails.\<close>

definition in_u64 :: "string \<Rightarrow> 64 word option" where
  "in_u64 s =
     (let s1 = dropWhile c_white s;
          neg = (s1 \<noteq> [] \<and> hd s1 = CHR ''-'');
          s2 = (if s1 \<noteq> [] \<and> (hd s1 = CHR ''-'' \<or> hd s1 = CHR ''+'') then tl s1 else s1);
          ds = takeWhile digit_byte s2;
          v = dec_value ds
      in if ds = [] \<or> v \<ge> 2 ^ 64 then None else Some (if neg then - of_nat v else of_nat v))"

definition cpuidle_path :: "int \<Rightarrow> nat \<Rightarrow> string" where
  "cpuidle_path cpu state =
     ''/sys/devices/system/cpu/cpu'' @ int_string cpu @ ''/cpuidle/state'' @ dec_string state @ ''/time''"

fun idle_states :: "proc_info \<Rightarrow> int \<Rightarrow> nat list \<Rightarrow> 64 word \<Rightarrow> bool \<Rightarrow> 64 word option" where
  "idle_states pi cpu [] tot any = (if any then Some tot else None)"
| "idle_states pi cpu (st # sts) tot any =
     (case in_u64 (pi_file pi (cpuidle_path cpu st)) of
        None \<Rightarrow> (if any then Some tot else None)
      | Some v \<Rightarrow> idle_states pi cpu sts (tot + v) True)"

definition cpu_idle_us :: "proc_info \<Rightarrow> int \<Rightarrow> 64 word option" where
  "cpu_idle_us pi cpu = idle_states pi cpu [0..<16] 0 False"

definition synth_uptime :: "proc_info \<Rightarrow> string" where
  "synth_uptime pi =
     fmt (pi_uptime_text pi @ '' '' @ pi_idle_text pi (map (cpu_idle_us pi) (online_cpus pi)) @ [CHR 0x0A])"

definition synth_loadavg :: "proc_info \<Rightarrow> int \<Rightarrow> string" where
  "synth_loadavg pi last_pid =
     (let (l0, l1, l2) = (case pi_sysinfo pi of None \<Rightarrow> (''0.00'', ''0.00'', ''0.00'') | Some _ \<Rightarrow> pi_load_texts pi);
          procs = (case pi_sysinfo pi of None \<Rightarrow> 0 | Some (procs, _) \<Rightarrow> procs)
      in fmt (l0 @ '' '' @ l1 @ '' '' @ l2 @ '' 1/'' @ dec_string procs @ '' '' @ int_string last_pid @ [CHR 0x0A]))"

definition cpu_idle_ticks :: "proc_info \<Rightarrow> int \<Rightarrow> 64 word" where
  "cpu_idle_ticks pi cpu =
     (case cpu_idle_us pi cpu of
        None \<Rightarrow> pi_total_ticks pi
      | Some us \<Rightarrow> (let idle = us div 10000 in if idle > pi_total_ticks pi then pi_total_ticks pi else idle))"

definition cpu_line :: "string \<Rightarrow> 64 word \<Rightarrow> 64 word \<Rightarrow> string" where
  "cpu_line name user idle =
     fmt (name @ '' '' @ u64_string user @ '' 0 0 '' @ u64_string idle @ '' 0 0 0 0 0 0'' @ [CHR 0x0A])"

definition synth_stat :: "proc_info \<Rightarrow> int \<Rightarrow> string" where
  "synth_stat pi last_pid =
     (let cpus = online_cpus pi;
          idles = map (cpu_idle_ticks pi) cpus;
          users = map (\<lambda>i. pi_total_ticks pi - i) idles;
          lines = concat (map (\<lambda>cpu. cpu_line (''cpu'' @ int_string cpu)
                     (pi_total_ticks pi - cpu_idle_ticks pi cpu) (cpu_idle_ticks pi cpu)) cpus);
          procs = (case pi_sysinfo pi of None \<Rightarrow> 0 | Some (procs, _) \<Rightarrow> procs);
          nl = [CHR 0x0A]
      in cpu_line ''cpu '' (foldl (+) 0 users) (foldl (+) 0 idles) @ lines @
         ''intr 0'' @ nl @ ''ctxt 0'' @ nl @
         fmt (''btime '' @ int_string (pi_btime pi) @ nl @ ''processes '' @
              int_string (if last_pid > 0 then last_pid else to_int32 (int procs)) @ nl @
              ''procs_running 1'' @ nl @ ''procs_blocked 0'' @ nl) @
         ''softirq 0 0 0 0 0 0 0 0 0 0 0'' @ nl)"

section \<open>Files without floating point\<close>

definition synth_version :: "proc_info \<Rightarrow> string" where
  "synth_version pi =
     (case pi_uname pi of
        None \<Rightarrow> ''Linux version unknown'' @ [CHR 0x0A]
      | Some (sysname, nodename, release, version) \<Rightarrow>
          sysname @ '' version '' @ release @ '' (unknown@unknown) (unknown) '' @ version @ [CHR 0x0A])"

definition base_nodev :: "string list" where
  "base_nodev = [''sysfs'', ''tmpfs'', ''proc'', ''devpts'', ''cgroup'', ''cgroup2'', ''securityfs'',
     ''debugfs'', ''tracefs'', ''pstore'', ''bpf'', ''configfs'', ''selinuxfs'', ''functionfs'', ''binder'', ''fuse'']"

definition base_block :: "string list" where
  "base_block = [''ext4'', ''f2fs'', ''erofs'', ''vfat'', ''exfat'']"

text \<open>A word of a stream and what follows it; \<open>None\<close> at the end of the stream.\<close>

definition in_word :: "string \<Rightarrow> (string \<times> string) option" where
  "in_word s =
     (let s1 = dropWhile c_white s
      in if s1 = [] then None
         else Some (takeWhile (\<lambda>c. \<not> c_white c) s1, dropWhile (\<lambda>c. \<not> c_white c) s1))"

lemma in_word_shorter: "in_word s = Some (w, r) \<Longrightarrow> length r < length s"
proof -
  assume a: "in_word s = Some (w, r)"
  then have ne: "dropWhile c_white s \<noteq> []" and r: "r = dropWhile (\<lambda>c. \<not> c_white c) (dropWhile c_white s)"
    by (auto simp: in_word_def Let_def split: if_splits)
  obtain x xs where x: "dropWhile c_white s = x # xs" using ne by (cases "dropWhile c_white s") auto
  have "\<not> c_white x" using hd_dropWhile [of c_white s] x by auto
  then have "length r \<le> length xs" using r x by (simp add: length_dropWhile_le)
  moreover have "length (x # xs) \<le> length s" using x length_dropWhile_le [of c_white s] by simp
  ultimately show ?thesis by simp
qed

text \<open>The rest of a line; \<open>None\<close> when nothing is left to read.\<close>

definition in_line :: "string \<Rightarrow> string option" where
  "in_line s = (if s = [] then None else Some (drop (Suc (length (takeWhile (\<lambda>c. c \<noteq> CHR 0x0A) s))) s))"

function mount_types :: "string \<Rightarrow> (string \<times> string) list" where
  "mount_types s =
     (case in_word s of
        None \<Rightarrow> []
      | Some (src, r1) \<Rightarrow>
          (case in_word r1 of
             None \<Rightarrow> []
           | Some (dst, r2) \<Rightarrow>
               (case in_word r2 of
                  None \<Rightarrow> []
                | Some (ty, r3) \<Rightarrow>
                    (case in_line r3 of None \<Rightarrow> [] | Some r4 \<Rightarrow> (src, ty) # mount_types r4))))"
  by pat_completeness auto
termination
  by (relation "measure length") (auto simp: in_line_def split: if_splits dest!: in_word_shorter)

definition string_set :: "string list \<Rightarrow> string list" where
  "string_set xs = sort (remdups xs)"

definition synth_filesystems :: "proc_info \<Rightarrow> string" where
  "synth_filesystems pi =
     (let ms = mount_types (pi_file pi ''/proc/self/mounts'');
          block = string_set (base_block @ map snd (filter (\<lambda>(src, ty). starts_with src ''/dev/'') ms));
          nodev = string_set (base_nodev @ map snd (filter (\<lambda>(src, ty). \<not> starts_with src ''/dev/'') ms))
      in concat (map (\<lambda>t. if t \<in> set block then [] else ''nodev'' @ CHR 0x09 # t @ [CHR 0x0A]) nodev) @
         concat (map (\<lambda>t. CHR 0x09 # t @ [CHR 0x0A]) block))"

definition tabs :: "nat \<Rightarrow> string" where "tabs n = replicate n (CHR 0x09)"

definition synth_swaps :: "proc_info \<Rightarrow> string" where
  "synth_swaps pi =
     ''Filename'' @ tabs 4 @ ''Type'' @ tabs 2 @ ''Size'' @ tabs 2 @ ''Used'' @ tabs 2 @ ''Priority'' @ [CHR 0x0A] @
     (case pi_sysinfo pi of
        None \<Rightarrow> []
      | Some (procs, totalswap, freeswap, mem_unit) \<Rightarrow>
          if totalswap = 0 then []
          else let u = (if mem_unit > 0 then mem_unit else 1)
               in fmt (''/dev/block/zram0'' @ tabs 4 @ ''partition'' @ tabs 1 @ u64_string (totalswap * u div 1024) @
                       tabs 2 @ u64_string ((totalswap - freeswap) * u div 1024) @ tabs 2 @ ''-2'' @ [CHR 0x0A]))"

text \<open>\<open>sscanf(line, "%63[^:]: %llu", ...)\<close>.\<close>

definition meminfo_line :: "string \<Rightarrow> (string \<times> nat) option" where
  "meminfo_line line =
     (let name = take 63 (takeWhile (\<lambda>c. c \<noteq> CHR '':'') line);
          rest = drop (length name) line
      in if name = [] \<or> rest = [] \<or> hd rest \<noteq> CHR '':'' then None
         else let s1 = dropWhile c_white (tl rest);
                  neg = (s1 \<noteq> [] \<and> hd s1 = CHR ''-'');
                  s2 = (if s1 \<noteq> [] \<and> (hd s1 = CHR ''-'' \<or> hd s1 = CHR ''+'') then tl s1 else s1);
                  ds = takeWhile digit_byte s2;
                  v = dec_value ds
              in if ds = [] then None
                 else Some (name, if v \<ge> 2 ^ 64 then 2 ^ 64 - 1
                                  else if neg then unat (- of_nat v :: 64 word) else v))"

definition meminfo_kb :: "proc_info \<Rightarrow> string \<rightharpoonup> nat" where
  "meminfo_kb pi =
     foldl (\<lambda>m line. case meminfo_line line of None \<Rightarrow> m | Some (k, v) \<Rightarrow> m(k \<mapsto> v)) Map.empty
       (getlines (CHR 0x0A) (pi_file pi ''/proc/meminfo''))"

definition vmstat_keys :: "(string \<times> string) list" where
  "vmstat_keys = [(''nr_free_pages'', ''MemFree''), (''nr_inactive_anon'', ''Inactive(anon)''),
     (''nr_active_anon'', ''Active(anon)''), (''nr_inactive_file'', ''Inactive(file)''),
     (''nr_active_file'', ''Active(file)''), (''nr_mapped'', ''Mapped''), (''nr_dirty'', ''Dirty''),
     (''nr_writeback'', ''Writeback'')]"

definition synth_vmstat :: "proc_info \<Rightarrow> string" where
  "synth_vmstat pi =
     (let mi = meminfo_kb pi;
          page_kb = (let p = pi_page_size pi div 1024 in if p \<le> 0 then 4 else nat p);
          pages = (\<lambda>key. case mi key of None \<Rightarrow> 0 | Some v \<Rightarrow> v div page_kb)
      in concat (map (\<lambda>(label, key). fmt (label @ '' '' @ dec_string (pages key) @ [CHR 0x0A])) vmstat_keys) @
         concat (map (\<lambda>k. k @ '' 0'' @ [CHR 0x0A])
           [''pgpgin'', ''pgpgout'', ''pswpin'', ''pswpout'', ''pgfault'', ''pgmajfault'']))"

definition stand_in_names :: "string list" where
  "stand_in_names = [''uptime'', ''loadavg'', ''stat'', ''version'', ''filesystems'', ''swaps'', ''vmstat'',
     ''sys/kernel/hostname'', ''sys/kernel/osrelease'', ''sys/kernel/ostype'', ''sys/kernel/pid_max'']"

definition has_proc_stand_in :: "string \<Rightarrow> bool" where
  "has_proc_stand_in rel \<longleftrightarrow> rel \<in> set stand_in_names"

definition synth_proc_global :: "proc_info \<Rightarrow> string \<Rightarrow> int \<Rightarrow> string option" where
  "synth_proc_global pi rel last_pid =
     (if rel = ''uptime'' then Some (synth_uptime pi)
      else if rel = ''loadavg'' then Some (synth_loadavg pi last_pid)
      else if rel = ''stat'' then Some (synth_stat pi last_pid)
      else if rel = ''version'' then Some (synth_version pi)
      else if rel = ''filesystems'' then Some (synth_filesystems pi)
      else if rel = ''swaps'' then Some (synth_swaps pi)
      else if rel = ''vmstat'' then Some (synth_vmstat pi)
      else if rel = ''sys/kernel/hostname''
      then Some ((case pi_uname pi of None \<Rightarrow> ''localhost'' | Some (sysname, nodename, release, version) \<Rightarrow> nodename) @ [CHR 0x0A])
      else if rel = ''sys/kernel/osrelease''
      then Some ((case pi_uname pi of None \<Rightarrow> ''unknown'' | Some (sysname, nodename, release, version) \<Rightarrow> release) @ [CHR 0x0A])
      else if rel = ''sys/kernel/ostype'' then Some (''Linux'' @ [CHR 0x0A])
      else if rel = ''sys/kernel/pid_max''
      then Some ((if last_pid \<ge> 32768 then ''4194304'' else ''32768'') @ [CHR 0x0A])
      else None)"

section \<open>The identity lines of a status file\<close>

record status_ids =
  sid_uid :: "32 word list"
  sid_gid :: "32 word list"
  sid_groups :: "32 word list"

definition ids_line :: "string \<Rightarrow> 32 word list \<Rightarrow> string" where
  "ids_line label xs = fmt (label @ concat (map (\<lambda>x. CHR 0x09 # dec_string (unat x)) xs))"

definition groups_line :: "32 word list \<Rightarrow> string" where
  "groups_line gs = ''Groups:'' @ CHR 0x09 # concat (map (\<lambda>g. dec_string (unat g) @ '' '') gs)"

definition status_line :: "status_ids \<Rightarrow> string \<Rightarrow> string" where
  "status_line ids line =
     (if starts_with line ''Uid:'' then ids_line ''Uid:'' (take 4 (sid_uid ids))
      else if starts_with line ''Gid:'' then ids_line ''Gid:'' (take 4 (sid_gid ids))
      else if starts_with line ''Groups:'' then groups_line (sid_groups ids)
      else line)"

function rewrite_status_ids :: "string \<Rightarrow> status_ids \<Rightarrow> string" where
  "rewrite_status_ids st ids =
     (if st = [] then []
      else let line = takeWhile (\<lambda>c. c \<noteq> CHR 0x0A) st
           in status_line ids line @ (if length line < length st then [CHR 0x0A] else []) @
              rewrite_status_ids (drop (Suc (length line)) st) ids)"
  by pat_completeness auto
termination
  by (relation "measure (\<lambda>(st, ids). length st)") auto

declare rewrite_status_ids.simps [simp del]

section \<open>A rewritten status file shows the guest's identity and nothing else changes\<close>

definition unlines :: "string list \<Rightarrow> string" where
  "unlines ls = concat (map (\<lambda>l. l @ [CHR 0x0A]) ls)"

definition plain_lines :: "string list \<Rightarrow> bool" where
  "plain_lines ls \<longleftrightarrow> list_all (\<lambda>l. CHR 0x0A \<notin> set l) ls"

definition tab_separated :: "32 word list \<Rightarrow> string" where
  "tab_separated xs = tl (concat (map (\<lambda>x. CHR 0x09 # dec_string (unat x)) xs))"

lemma rewrite_unlines:
  "plain_lines ls \<Longrightarrow> rewrite_status_ids (unlines ls) ids = unlines (map (status_line ids) ls)"
proof (induction ls)
  case (Cons l ls)
  have "takeWhile (\<lambda>c. c \<noteq> CHR 0x0A) (l @ CHR 0x0A # unlines ls) = l"
    using Cons.prems by (auto simp: plain_lines_def takeWhile_append)
  then show ?case using Cons
    by (simp add: unlines_def plain_lines_def rewrite_status_ids.simps [of "l @ _"] Let_def)
qed (simp add: unlines_def rewrite_status_ids.simps)

lemma status_lines_Cons:
  assumes "CHR 0x0A \<notin> set l" and "CHR 0x0A \<notin> set needle" and "needle \<noteq> []"
  shows "status_lines needle (unlines (l # ls)) =
     (if starts_with l needle then Some (dropWhile blank (drop (length needle) l))
      else status_lines needle (unlines ls))"
proof (cases "starts_with l needle")
  case True
  then obtain v where l: "l = needle @ v" by (auto simp: starts_with_prefix prefix_def)
  then show ?thesis using status_lines_first [of needle v "unlines ls"] assms True by (simp add: unlines_def)
next
  case False
  have "take (length needle) (l @ CHR 0x0A # unlines ls) \<noteq> needle"
  proof
    assume t: "take (length needle) (l @ CHR 0x0A # unlines ls) = needle"
    then have "length l < length needle"
      using False by (auto simp: starts_with_def not_le [symmetric])
    then have "CHR 0x0A \<in> set (take (length needle) (l @ CHR 0x0A # unlines ls))"
      by (auto simp: take_Cons' intro: gr0I)
    then show False using assms(2) unfolding t by blast
  qed
  then show ?thesis using status_lines_skip [OF assms(1)] False by (simp add: unlines_def)
qed

lemma dec_string_no_newline [simp]: "CHR 0x0A \<notin> set (dec_string n)"
  using dec_string_all_digits [of n] by auto

lemma dec_string_head: "\<not> blank (hd (dec_string n))"
proof -
  have "digit_byte (hd (dec_string n))"
    using dec_string_all_digits [of n] hd_in_set [OF dec_string_ne [of n]] by blast
  then show ?thesis by (auto simp: blank_def)
qed

lemma ids_line_full:
  assumes "length xs \<le> 4" and "length label \<le> 8"
  shows "ids_line label xs = label @ concat (map (\<lambda>x. CHR 0x09 # dec_string (unat x)) xs)"
proof -
  have one: "length (dec_string (unat (x :: 32 word))) \<le> 10" for x
    by (rule dec_string_length) (use unsigned_less [of x, where ?'a = nat] in auto)
  have "length (concat (map (\<lambda>x. CHR 0x09 # dec_string (unat x)) xs)) \<le> 11 * length xs"
    by (induction xs) (auto intro!: add_mono simp: le_SucI one intro: order_trans [OF one])
  then show ?thesis using assms by (simp add: ids_line_def fmt_def)
qed

lemma status_line_plain: "CHR 0x0A \<notin> set l \<Longrightarrow> CHR 0x0A \<notin> set (status_line ids l)"
  by (auto simp: status_line_def ids_line_def groups_line_def fmt_def split: if_splits dest!: in_set_takeD)

lemma status_line_key:
  assumes "CHR '':'' \<notin> set key" and "key \<notin> {''Uid'', ''Gid'', ''Groups''}"
  shows "starts_with (status_line ids l) (key @ '':'') \<longleftrightarrow> starts_with l (key @ '':'')"
    and "starts_with l (key @ '':'') \<Longrightarrow> status_line ids l = l"
proof -
  have only: "\<not> starts_with (k @ '':'' @ v) (key @ '':'')" if "CHR '':'' \<notin> set k" "k \<noteq> key" for k v
  proof
    assume "starts_with (k @ '':'' @ v) (key @ '':'')"
    then have "prefix (key @ '':'') (k @ CHR '':'' # v)" by (simp add: starts_with_prefix)
    then obtain z where "key @ CHR '':'' # z = k @ CHR '':'' # v" by (auto simp: prefix_def)
    then have "takeWhile (\<lambda>c. c \<noteq> CHR '':'') (key @ CHR '':'' # z) = takeWhile (\<lambda>c. c \<noteq> CHR '':'') (k @ CHR '':'' # v)"
      by simp
    moreover have "takeWhile (\<lambda>c. c \<noteq> CHR '':'') (w @ CHR '':'' # y) = w" if "CHR '':'' \<notin> set w" for w y
      using that by (subst takeWhile_append2) auto
    ultimately show False using assms(1) that by metis
  qed
  have lab: "\<not> starts_with (ids_line (k @ '':'') xs) (key @ '':'')" if "k \<in> {''Uid'', ''Gid''}" for k xs
  proof -
    have "\<exists>v. ids_line (k @ '':'') xs = k @ '':'' @ v" using that by (auto simp: ids_line_def fmt_def take_Cons')
    then show ?thesis using only [of k] that assms(2) by auto
  qed
  have grp: "\<not> starts_with (groups_line gs) (key @ '':'')" for gs
    using only [of "''Groups''" "CHR 0x09 # concat (map (\<lambda>g. dec_string (unat g) @ '' '') gs)"] assms(2)
    by (auto simp: groups_line_def)
  have src: "\<not> starts_with l (key @ '':'')" if "starts_with l (k @ '':'')" "k \<in> {''Uid'', ''Gid'', ''Groups''}" for k
  proof -
    have "prefix (k @ '':'') l" using that(1) by (simp add: starts_with_prefix)
    then obtain v where "l = k @ '':'' @ v" unfolding prefix_def by (metis append_assoc)
    then show ?thesis using only [of k v] that(2) assms(2) by auto
  qed
  show "starts_with (status_line ids l) (key @ '':'') \<longleftrightarrow> starts_with l (key @ '':'')"
    using lab [of "''Uid''"] lab [of "''Gid''"] grp src [of "''Uid''"] src [of "''Gid''"] src [of "''Groups''"]
    by (auto simp: status_line_def)
  show "status_line ids l = l" if "starts_with l (key @ '':'')"
    using src [of "''Uid''"] src [of "''Gid''"] src [of "''Groups''"] that by (auto simp: status_line_def)
qed

lemma ids_line_value:
  assumes "xs \<noteq> []" and "length xs \<le> 4" and "length label \<le> 8"
  shows "dropWhile blank (drop (length label) (ids_line label xs)) = tab_separated xs"
proof -
  obtain y ys where xs: "xs = y # ys" using assms(1) by (cases xs) auto
  obtain c cs where c: "dec_string (unat y) = c # cs" "\<not> blank c"
    using dec_string_head [of "unat y"] dec_string_ne [of "unat y"] by (cases "dec_string (unat y)") auto
  then show ?thesis using ids_line_full [OF assms(2,3)] by (simp add: xs tab_separated_def blank_def)
qed

lemma status_lines_identity:
  assumes "plain_lines ls" and "list_ex (\<lambda>l. starts_with l ''Uid:'') ls" and "length (sid_uid ids) = 4"
  shows "status_lines ''Uid:'' (unlines (map (status_line ids) ls)) = Some (tab_separated (sid_uid ids))"
  using assms
proof (induction ls)
  case (Cons l ls)
  have pl: "CHR 0x0A \<notin> set (status_line ids l)" using Cons.prems(1) status_line_plain by (simp add: plain_lines_def)
  show ?case
  proof (cases "starts_with l ''Uid:''")
    case True
    have "starts_with (ids_line ''Uid:'' (sid_uid ids)) ''Uid:''"
      using Cons.prems(3) by (simp add: ids_line_full starts_with_def)
    moreover have "dropWhile blank (drop (length ''Uid:'') (ids_line ''Uid:'' (sid_uid ids))) = tab_separated (sid_uid ids)"
      by (rule ids_line_value) (use Cons.prems(3) in auto)
    ultimately show ?thesis using status_lines_Cons [OF pl, of "''Uid:''"] True Cons.prems(3)
      by (simp add: status_line_def)
  next
    case False
    have "starts_with (status_line ids l) ''Uid:'' \<longleftrightarrow> False"
      using False Cons.prems(3)
      by (auto simp: status_line_def ids_line_def fmt_def groups_line_def starts_with_def)
    then show ?thesis using status_lines_Cons [OF pl, of "''Uid:''"] Cons False by (simp add: plain_lines_def)
  qed
qed simp

lemma status_lines_other:
  assumes "plain_lines ls" and "CHR '':'' \<notin> set key" and "CHR 0x0A \<notin> set key" and "key \<notin> {''Uid'', ''Gid'', ''Groups''}"
  shows "status_lines (key @ '':'') (unlines (map (status_line ids) ls)) = status_lines (key @ '':'') (unlines ls)"
  using assms(1)
proof (induction ls)
  case (Cons l ls)
  then have pl: "CHR 0x0A \<notin> set l" "CHR 0x0A \<notin> set (status_line ids l)"
    using status_line_plain by (auto simp: plain_lines_def)
  show ?case
    using status_lines_Cons [OF pl(1), of "key @ '':''"] status_lines_Cons [OF pl(2), of "key @ '':''"]
      status_line_key [OF assms(2,4)] Cons assms(3)
    by (auto simp: plain_lines_def)
qed simp

text \<open>
  The rewritten status text shows the guest's four user ids where it showed the host's, and
  every field but the identity lines reads as before.
\<close>

theorem status_shows_identity:
  assumes "plain_lines ls" and "length (sid_uid ids) = 4" and "list_ex (\<lambda>l. starts_with l ''Uid:'') ls"
    and "CHR '':'' \<notin> set key" and "CHR 0x0A \<notin> set key" and "key \<notin> {''Uid'', ''Gid'', ''Groups''}"
  shows "status_lines ''Uid:'' (rewrite_status_ids (unlines ls) ids) = Some (tab_separated (sid_uid ids)) \<and>
    status_lines (key @ '':'') (rewrite_status_ids (unlines ls) ids) = status_lines (key @ '':'') (unlines ls)"
  using status_lines_identity [OF assms(1,3,2)] status_lines_other [OF assms(1,4,5,6)] rewrite_unlines [OF assms(1)]
  by simp

theorem status_shows_identity_witness:
  "status_lines ''Uid:'' (rewrite_status_ids (unlines [''Name:'' @ CHR 0x09 # ''sh'', ''Uid:'' @ CHR 0x09 # ''1000''])
      \<lparr>sid_uid = [0, 0, 0, 0], sid_gid = [0, 0, 0, 0], sid_groups = []\<rparr>) =
    Some (''0'' @ CHR 0x09 # ''0'' @ CHR 0x09 # ''0'' @ CHR 0x09 # ''0'')"
  using status_shows_identity [of "[''Name:'' @ CHR 0x09 # ''sh'', ''Uid:'' @ CHR 0x09 # ''1000'']"
      "\<lparr>sid_uid = [0, 0, 0, 0], sid_gid = [0, 0, 0, 0], sid_groups = []\<rparr>" "''Name''"]
  by (simp add: plain_lines_def starts_with_def tab_separated_def dec_string.simps digit_char_def char_of_def bit_0)

end
