(* ===== verification/Regs.thy ===== *)
theory Regs
  imports Prelude "HOL-Library.Word"
begin

unbundle bit_operations_syntax

text \<open>
  Register access of a stopped task (\<open>src/src/arch/regs.hpp\<close>, \<open>x86_64/regs_x86_64.cpp\<close>,
  \<open>aarch64/regs_aarch64.cpp\<close>).  \<open>PTRACE_GETREGS\<close> and \<open>PTRACE_SETREGS\<close> belong to the kernel: the
  fetch takes what the kernel reported, the commit returns what is written, if anything.  A \<open>long\<close>
  is an \<open>int\<close> in the signed 64-bit range.
\<close>

section \<open>x86\_64\<close>

record user_regs =
  u_orig_rax :: "64 word"
  u_rdi :: "64 word"
  u_rsi :: "64 word"
  u_rdx :: "64 word"
  u_r10 :: "64 word"
  u_r8 :: "64 word"
  u_r9 :: "64 word"
  u_rax :: "64 word"
  u_rsp :: "64 word"
  u_rip :: "64 word"
  u_cs :: "64 word"
  u_others :: "64 word list"

record regs =
  rg_nr :: int
  rg_args :: "64 word list"
  rg_ret :: int
  rg_sp :: "64 word"
  rg_ip :: "64 word"
  rg_native :: bool
  rg_dirty :: bool
  rg_raw :: user_regs

definition kX32SyscallBit :: "64 word" where "kX32SyscallBit = 0x40000000"
definition kUser64Cs :: "64 word" where "kUser64Cs = 0x33"

definition fetch_regs :: "user_regs \<Rightarrow> regs" where
  "fetch_regs r = \<lparr>rg_nr = sint (u_orig_rax r),
     rg_args = [u_rdi r, u_rsi r, u_rdx r, u_r10 r, u_r8 r, u_r9 r],
     rg_ret = sint (u_rax r), rg_sp = u_rsp r, rg_ip = u_rip r,
     rg_native = (u_cs r = kUser64Cs \<and> u_orig_rax r AND kX32SyscallBit = 0),
     rg_dirty = False, rg_raw = r\<rparr>"

definition set_arg :: "int \<Rightarrow> 64 word \<Rightarrow> regs \<Rightarrow> regs" where
  "set_arg i v rg =
     (if i < 0 \<or> i > 5 then rg else rg\<lparr>rg_args := (rg_args rg)[nat i := v], rg_dirty := True\<rparr>)"

definition set_return :: "int \<Rightarrow> regs \<Rightarrow> regs" where
  "set_return v rg = rg\<lparr>rg_ret := v, rg_dirty := True\<rparr>"

definition set_nr :: "int \<Rightarrow> regs \<Rightarrow> regs" where
  "set_nr n rg = rg\<lparr>rg_nr := n, rg_dirty := True\<rparr>"

definition restart_as :: "int \<Rightarrow> regs \<Rightarrow> regs" where
  "restart_as n rg = rg\<lparr>rg_ip := rg_ip rg - 2, rg_ret := n, rg_nr := - 1, rg_dirty := True\<rparr>"

text \<open>The registers \<open>commit\<close> writes; nothing when no change was staged.\<close>

definition commit_image :: "regs \<Rightarrow> user_regs" where
  "commit_image rg = (rg_raw rg)
     \<lparr>u_orig_rax := word_of_int (rg_nr rg), u_rdi := rg_args rg ! 0, u_rsi := rg_args rg ! 1,
      u_rdx := rg_args rg ! 2, u_r10 := rg_args rg ! 3, u_r8 := rg_args rg ! 4, u_r9 := rg_args rg ! 5,
      u_rax := word_of_int (rg_ret rg), u_rip := rg_ip rg\<rparr>"

definition commit_regs :: "regs \<Rightarrow> user_regs option" where
  "commit_regs rg = (if \<not> rg_dirty rg then None else Some (commit_image rg))"

definition arg :: "regs \<Rightarrow> nat \<Rightarrow> 64 word" where
  "arg rg i = rg_args rg ! i"

section \<open>AArch64\<close>

record a64_regs =
  a_raw :: "64 word list"
  a_nr :: int
  a_args :: "64 word list"
  a_ret :: int
  a_sp :: "64 word"
  a_ip :: "64 word"
  a_native :: bool
  a_dirty_regs :: bool
  a_dirty_nr :: bool

text \<open>\<open>full\<close>: the whole register set was reported; \<open>knr\<close>: the kernel's own copy of the number.\<close>

definition a64_fetch :: "64 word list \<Rightarrow> bool \<Rightarrow> 32 word option \<Rightarrow> a64_regs" where
  "a64_fetch raw full knr = \<lparr>a_raw = raw,
     a_nr = (case knr of Some n \<Rightarrow> sint n | None \<Rightarrow> sint (ucast (raw ! 8) :: 32 word)),
     a_args = take 6 raw, a_ret = sint (raw ! 0), a_sp = raw ! 31, a_ip = raw ! 32,
     a_native = (full \<and> (raw ! 33) AND 0x10 = 0), a_dirty_regs = False, a_dirty_nr = False\<rparr>"

definition a64_set_arg :: "int \<Rightarrow> 64 word \<Rightarrow> a64_regs \<Rightarrow> a64_regs" where
  "a64_set_arg i v rg =
     (if i < 0 \<or> i > 5 then rg
      else rg\<lparr>a_args := (a_args rg)[nat i := v], a_raw := (a_raw rg)[nat i := v], a_dirty_regs := True\<rparr>)"

definition a64_set_return :: "int \<Rightarrow> a64_regs \<Rightarrow> a64_regs" where
  "a64_set_return v rg = rg\<lparr>a_ret := v, a_raw := (a_raw rg)[0 := word_of_int v], a_dirty_regs := True\<rparr>"

definition a64_set_nr :: "int \<Rightarrow> a64_regs \<Rightarrow> a64_regs" where
  "a64_set_nr n rg = rg\<lparr>a_nr := n, a_dirty_nr := True\<rparr>"

definition a64_restart_as :: "int \<Rightarrow> a64_regs \<Rightarrow> a64_regs" where
  "a64_restart_as n rg =
     rg\<lparr>a_raw := (a_raw rg)[32 := a_raw rg ! 32 - 4, 8 := word_of_int n], a_ip := a_raw rg ! 32 - 4,
        a_dirty_regs := True, a_nr := - 1, a_dirty_nr := True\<rparr>"

text \<open>The two writes of \<open>commit\<close>: the register set and the system call number.\<close>

definition a64_commit :: "a64_regs \<Rightarrow> 64 word list option \<times> 32 word option" where
  "a64_commit rg =
     (if a_dirty_regs rg then Some (a_raw rg) else None,
      if a_dirty_nr rg then Some (word_of_int (a_nr rg)) else None)"

definition arch_name :: "bool \<Rightarrow> string" where
  "arch_name a64 = (if a64 then ''aarch64'' else ''x86_64'')"

section \<open>What is staged is what the task continues with\<close>

lemma arg_set_arg [simp]:
  "length (rg_args rg) = 6 \<Longrightarrow> j < 6 \<Longrightarrow>
     arg (set_arg (int i) v rg) j = (if i < 6 \<and> j = i then v else arg rg j)"
  by (auto simp: set_arg_def arg_def nth_list_update)

lemma length_set_arg [simp]: "length (rg_args (set_arg i v rg)) = length (rg_args rg)"
  by (simp add: set_arg_def)

lemma set_arg_fields [simp]:
  "rg_nr (set_arg i v rg) = rg_nr rg" "rg_ret (set_arg i v rg) = rg_ret rg"
  "rg_sp (set_arg i v rg) = rg_sp rg" "rg_ip (set_arg i v rg) = rg_ip rg"
  "rg_native (set_arg i v rg) = rg_native rg" "rg_raw (set_arg i v rg) = rg_raw rg"
  by (simp_all add: set_arg_def)

lemma set_return_fields [simp]:
  "rg_nr (set_return v rg) = rg_nr rg" "rg_ret (set_return v rg) = v" "rg_args (set_return v rg) = rg_args rg"
  "rg_sp (set_return v rg) = rg_sp rg" "rg_ip (set_return v rg) = rg_ip rg" "rg_raw (set_return v rg) = rg_raw rg"
  by (simp_all add: set_return_def)

lemma set_nr_fields [simp]:
  "rg_nr (set_nr n rg) = n" "rg_ret (set_nr n rg) = rg_ret rg" "rg_args (set_nr n rg) = rg_args rg"
  "rg_sp (set_nr n rg) = rg_sp rg" "rg_ip (set_nr n rg) = rg_ip rg" "rg_raw (set_nr n rg) = rg_raw rg"
  by (simp_all add: set_nr_def)

lemma arg_other [simp]: "arg (set_return v rg) j = arg rg j" "arg (set_nr n rg) j = arg rg j"
  by (simp_all add: arg_def)

definition long_range :: "int \<Rightarrow> bool" where
  "long_range v \<longleftrightarrow> - (2 ^ 63) \<le> v \<and> v < 2 ^ 63"

lemma sint_of_long: "long_range v \<Longrightarrow> sint (word_of_int v :: 64 word) = v"
  unfolding long_range_def
  by (simp only: sint_sbintrunc' len_num1 len_num0, rule signed_take_bit_int_eq_self) simp_all

lemma fetch_commit:
  assumes "length (rg_args rg) = 6" and "long_range (rg_nr rg)" and "long_range (rg_ret rg)"
  shows "rg_args (fetch_regs (commit_image rg)) = rg_args rg" "rg_nr (fetch_regs (commit_image rg)) = rg_nr rg"
    "rg_ret (fetch_regs (commit_image rg)) = rg_ret rg" "rg_ip (fetch_regs (commit_image rg)) = rg_ip rg"
proof -
  have "\<exists>a b c d e f. rg_args rg = [a, b, c, d, e, f]"
    using assms(1) by (auto simp: length_Suc_conv eval_nat_numeral)
  then show "rg_args (fetch_regs (commit_image rg)) = rg_args rg"
    by (auto simp: fetch_regs_def commit_image_def)
qed (use assms in \<open>simp_all add: fetch_regs_def commit_image_def sint_of_long\<close>)

end
