(* ===== verification/Seccomp_Filter.thy ===== *)
theory Seccomp_Filter
  imports Prelude "HOL-Library.Word"
begin

text \<open>
  The seccomp-bpf accelerator of the rootless engine (\<open>src/src/engines/rootless/seccomp_filter.hpp\<close>,
  \<open>seccomp_filter.cpp\<close>): the generator of the filter program and the interpreter the tests use.  The
  constants of \<open>linux/filter.h\<close>, \<open>linux/seccomp.h\<close> and \<open>sys/socket.h\<close> are written out.
\<close>

unbundle bit_operations_syntax

section \<open>Programs\<close>

record sock_filter =
  sf_code :: nat
  sf_jt :: nat
  sf_jf :: nat
  sf_k :: "32 word"

definition BPF_LD_W_ABS :: nat where "BPF_LD_W_ABS = 0x20"
definition BPF_JEQ_K :: nat where "BPF_JEQ_K = 0x15"
definition BPF_JGT_K :: nat where "BPF_JGT_K = 0x25"
definition BPF_JGE_K :: nat where "BPF_JGE_K = 0x35"
definition BPF_JSET_K :: nat where "BPF_JSET_K = 0x45"
definition BPF_RET_K :: nat where "BPF_RET_K = 0x06"

definition SECCOMP_RET_ALLOW :: "32 word" where "SECCOMP_RET_ALLOW = 0x7fff0000"
definition SECCOMP_RET_TRACE :: "32 word" where "SECCOMP_RET_TRACE = 0x7ff00000"
definition SECCOMP_RET_ERRNO :: "32 word" where "SECCOMP_RET_ERRNO = 0x00050000"
definition kSeccompTraceMarker :: "32 word" where "kSeccompTraceMarker = 0x7648"
definition AF_UNIX :: "32 word" where "AF_UNIX = 1"

definition kOffNr :: nat where "kOffNr = 0"
definition kOffArch :: nat where "kOffArch = 4"
definition kOffArgs :: nat where "kOffArgs = 16"
definition kX32Bit :: "32 word" where "kX32Bit = 0x40000000"
definition kCloneUntraced :: "32 word" where "kCloneUntraced = 0x00800000"

lemmas bpf_codes = BPF_LD_W_ABS_def BPF_JEQ_K_def BPF_JGT_K_def BPF_JGE_K_def BPF_JSET_K_def BPF_RET_K_def

definition stmt :: "nat \<Rightarrow> 32 word \<Rightarrow> sock_filter" where
  "stmt code k = \<lparr>sf_code = code, sf_jt = 0, sf_jf = 0, sf_k = k\<rparr>"

definition jump :: "nat \<Rightarrow> 32 word \<Rightarrow> nat \<Rightarrow> nat \<Rightarrow> sock_filter" where
  "jump code k jt jf = \<lparr>sf_code = code, sf_jt = jt, sf_jf = jf, sf_k = k\<rparr>"

definition trace_action :: "32 word" where
  "trace_action = SECCOMP_RET_TRACE OR kSeccompTraceMarker"

record filter_policy =
  fp_audit_arch :: "32 word"
  fp_check_x32 :: bool
  fp_allow :: "int list"
  fp_network_none :: bool
  fp_nr_socket :: int
  fp_nr_clone :: int
  fp_nr_sendto :: int

section \<open>The generator\<close>

text \<open>The inner loop: extend the range \<open>[lo, hi]\<close> while the next number is its successor.\<close>

fun extend_range :: "int \<Rightarrow> int list \<Rightarrow> int \<times> int list" where
  "extend_range hi (n # ns) = (if n = hi + 1 then extend_range (hi + 1) ns else (hi, n # ns))"
| "extend_range hi [] = (hi, [])"

lemma extend_range_shorter: "extend_range hi ns = (h, rest) \<Longrightarrow> length rest \<le> length ns"
  by (induction hi ns rule: extend_range.induct) (auto split: if_splits)

function range_code :: "int list \<Rightarrow> sock_filter list" where
  "range_code [] = []"
| "range_code (lo # ns) =
     (if lo < 0 then range_code ns
      else case extend_range lo ns of
        (hi, rest) \<Rightarrow>
          [jump BPF_JGE_K (word_of_int lo) 0 2, jump BPF_JGT_K (word_of_int hi) 1 0,
           stmt BPF_RET_K SECCOMP_RET_ALLOW] @ range_code rest)"
  by pat_completeness auto
termination
  by (relation "measure length") (auto dest: extend_range_shorter [OF sym] simp: le_imp_less_Suc)

definition arch_code :: "filter_policy \<Rightarrow> sock_filter list" where
  "arch_code p =
     [stmt BPF_LD_W_ABS (of_nat kOffArch), jump BPF_JEQ_K (fp_audit_arch p) 1 0, stmt BPF_RET_K trace_action,
      stmt BPF_LD_W_ABS (of_nat kOffNr)]"

definition x32_code :: "filter_policy \<Rightarrow> sock_filter list" where
  "x32_code p = (if fp_check_x32 p then [jump BPF_JGE_K kX32Bit 0 1, stmt BPF_RET_K trace_action] else [])"

definition socket_code :: "filter_policy \<Rightarrow> sock_filter list" where
  "socket_code p =
     (if fp_network_none p \<and> fp_nr_socket p \<ge> 0
      then [jump BPF_JEQ_K (word_of_int (fp_nr_socket p)) 0 4, stmt BPF_LD_W_ABS (of_nat kOffArgs),
            jump BPF_JEQ_K AF_UNIX 0 1, stmt BPF_RET_K SECCOMP_RET_ALLOW,
            stmt BPF_RET_K (SECCOMP_RET_ERRNO OR of_nat EACCES)]
      else [])"

definition clone_code :: "filter_policy \<Rightarrow> sock_filter list" where
  "clone_code p =
     (if fp_nr_clone p \<ge> 0
      then [jump BPF_JEQ_K (word_of_int (fp_nr_clone p)) 0 4, stmt BPF_LD_W_ABS (of_nat kOffArgs),
            jump BPF_JSET_K kCloneUntraced 0 1, stmt BPF_RET_K trace_action, stmt BPF_RET_K SECCOMP_RET_ALLOW]
      else [])"

definition sendto_code :: "filter_policy \<Rightarrow> sock_filter list" where
  "sendto_code p =
     (if fp_nr_sendto p \<ge> 0
      then [jump BPF_JEQ_K (word_of_int (fp_nr_sendto p)) 0 6, stmt BPF_LD_W_ABS (of_nat (kOffArgs + 4 * 8)),
            jump BPF_JEQ_K 0 0 3, stmt BPF_LD_W_ABS (of_nat (kOffArgs + 4 * 8 + 4)), jump BPF_JEQ_K 0 0 1,
            stmt BPF_RET_K SECCOMP_RET_ALLOW, stmt BPF_RET_K trace_action]
      else [])"

definition build_seccomp_filter :: "filter_policy \<Rightarrow> sock_filter list" where
  "build_seccomp_filter p =
     arch_code p @ x32_code p @ socket_code p @ clone_code p @ sendto_code p @
     range_code (remdups_adj (sort (fp_allow p))) @ [stmt BPF_RET_K trace_action]"

section \<open>The interpreter\<close>

record filter_input =
  fi_nr :: "32 word"
  fi_arch :: "32 word"
  fi_args :: "64 word list"

definition put32 :: "8 word list \<Rightarrow> nat \<Rightarrow> 32 word \<Rightarrow> 8 word list" where
  "put32 data off v =
     data[off := ucast v, off + 1 := ucast (drop_bit 8 v), off + 2 := ucast (drop_bit 16 v),
          off + 3 := ucast (drop_bit 24 v)]"

definition put_arg :: "filter_input \<Rightarrow> 8 word list \<Rightarrow> nat \<Rightarrow> 8 word list" where
  "put_arg inp data a =
     put32 (put32 data (kOffArgs + a * 8) (ucast (fi_args inp ! a)))
       (kOffArgs + a * 8 + 4) (ucast (drop_bit 32 (fi_args inp ! a)))"

definition seccomp_data :: "filter_input \<Rightarrow> 8 word list" where
  "seccomp_data inp =
     foldl (put_arg inp) (put32 (put32 (replicate 64 0) kOffNr (fi_nr inp)) kOffArch (fi_arch inp)) [0..<6]"

definition load32 :: "8 word list \<Rightarrow> nat \<Rightarrow> 32 word" where
  "load32 data k =
     ucast (data ! k) OR push_bit 8 (ucast (data ! (k + 1))) OR push_bit 16 (ucast (data ! (k + 2))) OR
     push_bit 24 (ucast (data ! (k + 3)))"

text \<open>\<open>steps\<close> counts down from \<open>prog.size() + 1\<close>; an instruction either returns or moves on.\<close>

fun eval_loop :: "sock_filter list \<Rightarrow> 8 word list \<Rightarrow> nat \<Rightarrow> nat \<Rightarrow> 32 word \<Rightarrow> 32 word" where
  "eval_loop prog data 0 pc acc = 0"
| "eval_loop prog data (Suc steps) pc acc =
     (if pc \<ge> length prog then 0
      else
        let ins = prog ! pc; k = sf_k ins
        in if sf_code ins = BPF_LD_W_ABS
           then (if k > of_nat (length data - 4) then 0
                 else eval_loop prog data steps (pc + 1) (load32 data (unat k)))
           else if sf_code ins = BPF_JEQ_K
           then eval_loop prog data steps (pc + 1 + (if acc = k then sf_jt ins else sf_jf ins)) acc
           else if sf_code ins = BPF_JGE_K
           then eval_loop prog data steps (pc + 1 + (if acc \<ge> k then sf_jt ins else sf_jf ins)) acc
           else if sf_code ins = BPF_JGT_K
           then eval_loop prog data steps (pc + 1 + (if acc > k then sf_jt ins else sf_jf ins)) acc
           else if sf_code ins = BPF_JSET_K
           then eval_loop prog data steps (pc + 1 + (if acc AND k \<noteq> 0 then sf_jt ins else sf_jf ins)) acc
           else if sf_code ins = BPF_RET_K then k
           else 0)"

definition evaluate_seccomp_filter :: "sock_filter list \<Rightarrow> filter_input \<Rightarrow> 32 word" where
  "evaluate_seccomp_filter prog inp = eval_loop prog (seccomp_data inp) (length prog + 1) 0 0"

section \<open>Reading the data back\<close>

lemma length_put32 [simp]: "length (put32 d off v) = length d"
  by (simp add: put32_def)

lemma load32_put32_same:
  assumes "off + 3 < length d"
  shows "load32 (put32 d off v) off = v"
proof -
  have "load32 (put32 d off v) off =
      ucast (ucast v :: 8 word) OR push_bit 8 (ucast (ucast (drop_bit 8 v) :: 8 word)) OR
      push_bit 16 (ucast (ucast (drop_bit 16 v) :: 8 word)) OR push_bit 24 (ucast (ucast (drop_bit 24 v) :: 8 word))"
    using assms by (simp add: load32_def put32_def nth_list_update)
  also have "\<dots> = v"
  proof (rule bit_word_eqI)
    fix n assume "n < LENGTH(32)"
    then consider "n < 8" | "8 \<le> n" "n < 16" | "16 \<le> n" "n < 24" | "24 \<le> n" "n < 32" by fastforce
    then show "bit (ucast (ucast v :: 8 word) OR push_bit 8 (ucast (ucast (drop_bit 8 v) :: 8 word)) OR
      push_bit 16 (ucast (ucast (drop_bit 16 v) :: 8 word)) OR
      push_bit 24 (ucast (ucast (drop_bit 24 v) :: 8 word)) :: 32 word) n = bit v n"
      by cases (auto simp: bit_simps)
  qed
  finally show ?thesis .
qed

lemma load32_put32_other:
  assumes "off + 4 \<le> k \<or> k + 4 \<le> off"
  shows "load32 (put32 d off v) k = load32 d k"
  using assms by (auto simp: load32_def put32_def nth_list_update)

lemma length_seccomp_data [simp]: "length (seccomp_data inp) = 64"
  by (simp add: seccomp_data_def put_arg_def upt_rec)

lemma load_seccomp_data:
  "load32 (seccomp_data inp) 0 = fi_nr inp" "load32 (seccomp_data inp) 4 = fi_arch inp"
  "load32 (seccomp_data inp) 16 = ucast (fi_args inp ! 0)"
  "load32 (seccomp_data inp) 48 = ucast (fi_args inp ! 4)"
  "load32 (seccomp_data inp) 52 = ucast (drop_bit 32 (fi_args inp ! 4))"
  by (simp_all add: seccomp_data_def put_arg_def kOffNr_def kOffArch_def kOffArgs_def upt_rec
      load32_put32_same load32_put32_other) (simp_all add: numeral_eq_Suc)

section \<open>Execution of program suffixes\<close>

text \<open>
  All jumps go forward, so a program position is a suffix of the program, and executing a suffix needs
  no step counter.
\<close>

function run :: "8 word list \<Rightarrow> 32 word \<Rightarrow> sock_filter list \<Rightarrow> 32 word" where
  "run data acc [] = 0"
| "run data acc (ins # rest) =
     (let k = sf_k ins
      in if sf_code ins = BPF_LD_W_ABS
         then (if k > of_nat (length data - 4) then 0 else run data (load32 data (unat k)) rest)
         else if sf_code ins = BPF_JEQ_K
         then run data acc (drop (if acc = k then sf_jt ins else sf_jf ins) rest)
         else if sf_code ins = BPF_JGE_K
         then run data acc (drop (if acc \<ge> k then sf_jt ins else sf_jf ins) rest)
         else if sf_code ins = BPF_JGT_K
         then run data acc (drop (if acc > k then sf_jt ins else sf_jf ins) rest)
         else if sf_code ins = BPF_JSET_K
         then run data acc (drop (if acc AND k \<noteq> 0 then sf_jt ins else sf_jf ins) rest)
         else if sf_code ins = BPF_RET_K then k
         else 0)"
  by pat_completeness auto
termination
  by (relation "measure (\<lambda>(d, a, p). length p)") auto

declare run.simps [simp del]

lemma eval_loop_run: "length prog - pc < steps \<Longrightarrow> eval_loop prog data steps pc acc = run data acc (drop pc prog)"
proof (induction steps arbitrary: pc acc)
  case (Suc steps)
  show ?case
  proof (cases "pc < length prog")
    case True
    then have d: "drop pc prog = prog ! pc # drop (Suc pc) prog" by (simp add: Cons_nth_drop_Suc)
    have IH: "eval_loop prog data steps (Suc (pc + j)) a = run data a (drop j (drop (Suc pc) prog))" for j a
      using Suc.IH [of "Suc (pc + j)" a] Suc.prems True by (simp add: drop_drop add.commute)
    have IH0: "eval_loop prog data steps (Suc pc) a = run data a (drop (Suc pc) prog)" for a
      using IH [of 0 a] by simp
    show ?thesis
      using True unfolding d run.simps by (simp add: Let_def IH IH0)
  next
    case False
    then show ?thesis by (simp add: run.simps)
  qed
qed simp

lemma evaluate_run: "evaluate_seccomp_filter prog inp = run (seccomp_data inp) 0 prog"
  using eval_loop_run [of prog 0 "length prog + 1"] by (simp add: evaluate_seccomp_filter_def del: eval_loop.simps)

lemma run_stmts:
  "run data acc (stmt BPF_RET_K v # rest) = v"
  "run data acc (jump BPF_JEQ_K v t f # rest) = run data acc (drop (if acc = v then t else f) rest)"
  "run data acc (jump BPF_JGE_K v t f # rest) = run data acc (drop (if acc \<ge> v then t else f) rest)"
  "run data acc (jump BPF_JGT_K v t f # rest) = run data acc (drop (if acc > v then t else f) rest)"
  "run data acc (jump BPF_JSET_K v t f # rest) = run data acc (drop (if acc AND v \<noteq> 0 then t else f) rest)"
  by (simp_all add: run.simps stmt_def jump_def bpf_codes)

lemma run_load:
  "k \<le> 60 \<Longrightarrow> run (seccomp_data inp) acc (stmt BPF_LD_W_ABS (of_nat k) # rest) =
     run (seccomp_data inp) (load32 (seccomp_data inp) k) rest"
  by (simp add: run.simps stmt_def bpf_codes word_less_nat_alt unat_of_nat)


lemma run_loads:
  "run (seccomp_data inp) acc (stmt BPF_LD_W_ABS 0 # rest) = run (seccomp_data inp) (fi_nr inp) rest"
  "run (seccomp_data inp) acc (stmt BPF_LD_W_ABS 4 # rest) = run (seccomp_data inp) (fi_arch inp) rest"
  "run (seccomp_data inp) acc (stmt BPF_LD_W_ABS 16 # rest) =
     run (seccomp_data inp) (ucast (fi_args inp ! 0)) rest"
  "run (seccomp_data inp) acc (stmt BPF_LD_W_ABS 48 # rest) =
     run (seccomp_data inp) (ucast (fi_args inp ! 4)) rest"
  "run (seccomp_data inp) acc (stmt BPF_LD_W_ABS 52 # rest) =
     run (seccomp_data inp) (ucast (drop_bit 32 (fi_args inp ! 4))) rest"
  using run_load [of 0 inp acc rest] run_load [of 4 inp acc rest] run_load [of 16 inp acc rest]
    run_load [of 48 inp acc rest] run_load [of 52 inp acc rest]
  by (simp_all add: load_seccomp_data)

section \<open>Blocks of the generated program\<close>

lemma run_arch_code:
  "run (seccomp_data inp) acc (arch_code p @ rest) =
     (if fi_arch inp = fp_audit_arch p then run (seccomp_data inp) (fi_nr inp) rest else trace_action)"
  by (simp add: arch_code_def run_loads run_stmts kOffArch_def kOffNr_def)

lemma run_x32_code:
  "run data acc (x32_code p @ rest) =
     (if fp_check_x32 p \<and> acc \<ge> kX32Bit then trace_action else run data acc rest)"
  by (simp add: x32_code_def run_stmts)

lemma run_socket_code:
  "run (seccomp_data inp) acc (socket_code p @ rest) =
     (if fp_network_none p \<and> fp_nr_socket p \<ge> 0 \<and> acc = word_of_int (fp_nr_socket p)
      then (if ucast (fi_args inp ! 0) = AF_UNIX then SECCOMP_RET_ALLOW else SECCOMP_RET_ERRNO OR of_nat EACCES)
      else run (seccomp_data inp) acc rest)"
  by (simp add: socket_code_def run_loads run_stmts kOffArgs_def load_seccomp_data)

lemma run_clone_code:
  "run (seccomp_data inp) acc (clone_code p @ rest) =
     (if fp_nr_clone p \<ge> 0 \<and> acc = word_of_int (fp_nr_clone p)
      then (if ucast (fi_args inp ! 0) AND kCloneUntraced \<noteq> 0 then trace_action else SECCOMP_RET_ALLOW)
      else run (seccomp_data inp) acc rest)"
  by (simp add: clone_code_def run_loads run_stmts kOffArgs_def load_seccomp_data)

lemma u64_zero_iff: "(w :: 64 word) = 0 \<longleftrightarrow> (ucast w :: 32 word) = 0 \<and> (ucast (drop_bit 32 w) :: 32 word) = 0"
proof
  assume a: "(ucast w :: 32 word) = 0 \<and> (ucast (drop_bit 32 w) :: 32 word) = 0"
  show "w = 0"
  proof (rule bit_word_eqI)
    fix n assume n: "n < LENGTH(64)"
    show "bit w n = bit (0 :: 64 word) n"
    proof (cases "n < 32")
      case True
      have "bit (ucast w :: 32 word) n = bit w n" using True by (simp add: bit_simps)
      then show ?thesis using a by simp
    next
      case False
      have "bit (ucast (drop_bit 32 w) :: 32 word) (n - 32) = bit w n" using False n less_diff_conv2 [of 32 n 32] by (simp add: bit_simps)
      then show ?thesis using a by simp
    qed
  qed
qed simp

lemma run_sendto_code:
  "run (seccomp_data inp) acc (sendto_code p @ rest) =
     (if fp_nr_sendto p \<ge> 0 \<and> acc = word_of_int (fp_nr_sendto p)
      then (if fi_args inp ! 4 = 0 then SECCOMP_RET_ALLOW else trace_action)
      else run (seccomp_data inp) acc rest)"
  by (simp add: sendto_code_def run_loads run_stmts kOffArgs_def load_seccomp_data u64_zero_iff)

text \<open>Ranges.  Numbers of the table are below \<open>2 ^ 32\<close>, so a word comparison is a comparison of numbers.\<close>

lemma extend_range_spec:
  assumes "extend_range hi ns = (h, rest)" and "sorted ns" and "distinct ns"
  shows "set ns = {hi + 1..h} \<union> set rest \<and> hi \<le> h \<and> sorted rest \<and> distinct rest"
  using assms
proof (induction hi ns rule: extend_range.induct)
  case (1 hi n ns)
  then show ?case by (auto split: if_splits)
qed auto


lemma word_of_int_le: "0 \<le> a \<Longrightarrow> a < 2 ^ 32 \<Longrightarrow> (word_of_int a :: 32 word) \<le> w \<longleftrightarrow> a \<le> uint w"
  by (simp add: word_le_def uint_word_of_int)

lemma word_of_int_less: "0 \<le> a \<Longrightarrow> a < 2 ^ 32 \<Longrightarrow> (word_of_int a :: 32 word) < w \<longleftrightarrow> a < uint w"
  by (simp add: word_less_def uint_word_of_int)

lemma run_range_code:
  assumes "sorted ns" and "distinct ns" and "\<forall>n \<in> set ns. n < 2 ^ 32"
  shows "run data acc (range_code ns @ rest) =
    (if uint acc \<in> set ns then SECCOMP_RET_ALLOW else run data acc rest)"
  using assms
proof (induction ns rule: range_code.induct)
  case (2 lo ns)
  show ?case
  proof (cases "lo < 0")
    case True
    moreover have "uint acc \<noteq> lo" using True uint_ge_0 [of acc] by linarith
    ultimately show ?thesis using 2 by simp
  next
    case False
    obtain hi more where e: "extend_range lo ns = (hi, more)" by fastforce
    have s: "set ns = {lo + 1..hi} \<union> set more" "lo \<le> hi" "sorted more" "distinct more"
      using extend_range_spec [OF e] "2.prems" by auto
    have hi: "hi < 2 ^ 32" using s "2.prems"(3) by (cases "lo = hi") auto
    have IH: "run data acc (range_code more @ rest) =
        (if uint acc \<in> set more then SECCOMP_RET_ALLOW else run data acc rest)"
      using "2.IH"(2) [OF False e [symmetric]] s "2.prems"(3) by auto
    have "uint acc \<in> set (lo # ns) \<longleftrightarrow> lo \<le> uint acc \<and> uint acc \<le> hi \<or> uint acc \<in> set more"
      using s by auto
    then show ?thesis
      using False hi s(2) "2.prems"(3) IH
      by (simp add: e run_stmts word_of_int_le word_of_int_less not_less)
  qed
qed simp

section \<open>The decision the filter implements\<close>

definition filter_decision :: "filter_policy \<Rightarrow> filter_input \<Rightarrow> 32 word" where
  "filter_decision p inp =
     (let nr = uint (fi_nr inp)
      in if fi_arch inp \<noteq> fp_audit_arch p \<or> fp_check_x32 p \<and> nr \<ge> 0x40000000 then trace_action
         else if fp_network_none p \<and> nr = fp_nr_socket p
         then (if ucast (fi_args inp ! 0) = AF_UNIX then SECCOMP_RET_ALLOW else SECCOMP_RET_ERRNO OR of_nat EACCES)
         else if nr = fp_nr_clone p
         then (if ucast (fi_args inp ! 0) AND kCloneUntraced \<noteq> 0 then trace_action else SECCOMP_RET_ALLOW)
         else if nr = fp_nr_sendto p
         then (if fi_args inp ! 4 = 0 then SECCOMP_RET_ALLOW else trace_action)
         else if nr \<in> set (fp_allow p) then SECCOMP_RET_ALLOW
         else trace_action)"

definition policy_ok :: "filter_policy \<Rightarrow> bool" where
  "policy_ok p \<longleftrightarrow>
     fp_nr_socket p < 2 ^ 32 \<and> fp_nr_clone p < 2 ^ 32 \<and> fp_nr_sendto p < 2 ^ 32 \<and>
     list_all (\<lambda>n. n < 2 ^ 32) (fp_allow p)"

lemma nr_eq: "n < 2 ^ 32 \<Longrightarrow> 0 \<le> n \<and> w = (word_of_int n :: 32 word) \<longleftrightarrow> uint w = n"
  using uint_ge_0 [of w] by (auto simp: uint_word_of_int)

lemma distinct_remdups_adj_sorted: "sorted (xs :: int list) \<Longrightarrow> distinct (remdups_adj xs)"
  by (induction xs rule: remdups_adj.induct) auto

lemma evaluate_build_filter:
  assumes "policy_ok p"
  shows "evaluate_seccomp_filter (build_seccomp_filter p) inp = filter_decision p inp"
proof -
  have r: "sorted (remdups_adj (sort (fp_allow p)))" "distinct (remdups_adj (sort (fp_allow p)))"
    by (simp_all add: distinct_remdups_adj_sorted)
  have x: "kX32Bit \<le> fi_nr inp \<longleftrightarrow> 0x40000000 \<le> uint (fi_nr inp)"
    by (simp add: kX32Bit_def word_le_def)
  have n: "0 \<le> fp_nr_socket p \<and> fi_nr inp = word_of_int (fp_nr_socket p) \<longleftrightarrow> uint (fi_nr inp) = fp_nr_socket p"
    "0 \<le> fp_nr_clone p \<and> fi_nr inp = word_of_int (fp_nr_clone p) \<longleftrightarrow> uint (fi_nr inp) = fp_nr_clone p"
    "0 \<le> fp_nr_sendto p \<and> fi_nr inp = word_of_int (fp_nr_sendto p) \<longleftrightarrow> uint (fi_nr inp) = fp_nr_sendto p"
    using assms nr_eq unfolding policy_ok_def by blast+
  have tail: "run (seccomp_data inp) (fi_nr inp) (range_code (remdups_adj (sort (fp_allow p))) @ [stmt BPF_RET_K trace_action]) =
      (if uint (fi_nr inp) \<in> set (fp_allow p) then SECCOMP_RET_ALLOW else trace_action)"
    using assms by (simp add: run_range_code [OF r] run_stmts policy_ok_def list_all_iff)
  show ?thesis
    unfolding evaluate_run build_seccomp_filter_def run_arch_code run_x32_code run_socket_code run_clone_code
      run_sendto_code n x tail filter_decision_def Let_def
    by (cases "fi_arch inp = fp_audit_arch p"; cases "fp_check_x32 p \<and> 0x40000000 \<le> uint (fi_nr inp)")
      (simp_all only: if_True if_False simp_thms)
qed

section \<open>Properties\<close>

text \<open>
  C30: The generated program, run by the interpreter, terminates within the step limit and takes the
  decision the policy describes on every input: foreign architectures, x32 numbers and every number
  that is not allowed are traced; sockets are refused without a network unless they are local; clone
  and sendto are inspected; ranges compress the allowed numbers without adding or losing one.\<close>

theorem seccomp_filter_correct:
  assumes "policy_ok p"
  shows "evaluate_seccomp_filter (build_seccomp_filter p) inp = filter_decision p inp"
  using assms by (rule evaluate_build_filter)

definition sample_policy :: filter_policy where
  "sample_policy = \<lparr>fp_audit_arch = 0xC000003E, fp_check_x32 = True, fp_allow = [3, 0, 1, 1, - 1, 7],
     fp_network_none = True, fp_nr_socket = 41, fp_nr_clone = 56, fp_nr_sendto = 44\<rparr>"

definition sample_input :: "32 word \<Rightarrow> 64 word \<Rightarrow> filter_input" where
  "sample_input nr arg0 = \<lparr>fi_nr = nr, fi_arch = 0xC000003E, fi_args = [arg0, 0, 0, 0, 0, 0]\<rparr>"

theorem seccomp_filter_correct_witness:
  "evaluate_seccomp_filter (build_seccomp_filter sample_policy) (sample_input 1 0) = SECCOMP_RET_ALLOW \<and>
   evaluate_seccomp_filter (build_seccomp_filter sample_policy) (sample_input 2 0) = trace_action \<and>
   evaluate_seccomp_filter (build_seccomp_filter sample_policy) (sample_input 41 2) = SECCOMP_RET_ERRNO OR 13"
proof -
  have "policy_ok sample_policy" by (simp add: policy_ok_def sample_policy_def)
  note ev = seccomp_filter_correct [OF this]
  show ?thesis
    unfolding ev by (simp add: filter_decision_def sample_policy_def sample_input_def AF_UNIX_def EACCES_def)
qed

end
