(* ===== verification/Supervisor_State.thy ===== *)
theory Supervisor_State
  imports Syscall_Table Tracee_Mem Link_Store Exec_Resolver Events Engine_Select Proc_Synth Regs Seccomp_Filter
begin

text \<open>
  State of the rootless supervisor (\<open>src/src/engines/rootless/supervisor.hpp\<close>) and the small members
  the handlers share, in the x86\_64 build.  The kernel, the host's files and the tasks' memory are
  parameters: the record \<open>sup_host\<close> over a memory state \<open>'m\<close> and a kernel state \<open>'f\<close>, which the
  supervisor's state carries along.  Events are appended to a list in the order of emission.
\<close>

definition E2BIG :: errno where "E2BIG = 7"
definition EXDEV :: errno where "EXDEV = 18"
definition EPROTONOSUPPORT :: errno where "EPROTONOSUPPORT = 93"

section \<open>Tasks\<close>

datatype fixup =
    Fx_none | Fx_getcwd | Fx_readlink_proc | Fx_stat | Fx_statx | Fx_emulated_return | Fx_rename_links
  | Fx_dirents

record pending_syscall =
  ps_active :: bool
  ps_nr :: int
  ps_orig_args :: "64 word list"
  ps_restore :: "bool list"
  ps_fixup :: fixup
  ps_buf :: "64 word"
  ps_size :: "64 word"
  ps_emulated :: int
  ps_exe_tgid :: int
  ps_link_host :: string
  ps_fd :: int
  ps_link_mount :: "mount option"
  ps_link_src :: string
  ps_link_dst :: string
  ps_link_from :: string
  ps_link_to :: string
  ps_link_exchange :: bool
  ps_scratch :: string

definition no_pending :: pending_syscall where
  "no_pending = \<lparr>ps_active = False, ps_nr = - 1, ps_orig_args = replicate 6 0,
     ps_restore = replicate 6 False, ps_fixup = Fx_none, ps_buf = 0, ps_size = 0, ps_emulated = 0,
     ps_exe_tgid = 0, ps_link_host = [], ps_fd = - 1, ps_link_mount = None, ps_link_src = [],
     ps_link_dst = [], ps_link_from = [], ps_link_to = [], ps_link_exchange = False, ps_scratch = []\<rparr>"

record creds =
  cr_ruid :: "32 word"
  cr_euid :: "32 word"
  cr_suid :: "32 word"
  cr_fsuid :: "32 word"
  cr_rgid :: "32 word"
  cr_egid :: "32 word"
  cr_sgid :: "32 word"
  cr_fsgid :: "32 word"
  cr_groups :: "32 word list"

record tracee =
  tr_tid :: int
  tr_tgid :: int
  tr_fresh :: bool
  tr_in_syscall :: bool
  tr_bootstrap :: bool
  tr_exec_seen :: bool
  tr_pending :: pending_syscall
  tr_load_request :: string
  tr_load_exe :: string

definition new_tracee :: "int \<Rightarrow> bool \<Rightarrow> tracee" where
  "new_tracee tid in_syscall = \<lparr>tr_tid = tid, tr_tgid = 0, tr_fresh = True, tr_in_syscall = in_syscall,
     tr_bootstrap = False, tr_exec_seen = False, tr_pending = no_pending, tr_load_request = [], tr_load_exe = []\<rparr>"

record syscall_action =
  sa_skip :: bool
  sa_ret :: int

definition pass :: syscall_action where "pass = \<lparr>sa_skip = False, sa_ret = 0\<rparr>"

definition answer :: "int \<Rightarrow> syscall_action" where "answer r = \<lparr>sa_skip = True, sa_ret = r\<rparr>"

definition fail_with :: "errno \<Rightarrow> syscall_action" where "fail_with e = answer (- int e)"

record path_spec =
  sp_path_arg :: nat
  sp_dirfd_arg :: int
  sp_follow :: bool
  sp_erofs_if_exists :: bool
  sp_erofs_if_missing :: bool
  sp_empty_ok :: bool
  sp_null_ok :: bool
  sp_link_name :: bool
  sp_resolve_only :: bool

record translated_path =
  tp_present :: bool
  tp_r :: resolved
  tp_original :: string

record sup_options =
  so_use_seccomp :: bool
  so_get_syscall_info :: bool
  so_loader_path :: string

section \<open>The supervisor\<close>

text \<open>
  What the supervisor hands to the bootstrap of the first process (\<open>vhdp_bootstrap\<close>).
\<close>

record bootstrap =
  bs_ready_fd :: int
  bs_sync_fd :: int
  bs_error_fd :: int
  bs_stdio_fds :: "int list"
  bs_ctty_fd :: int
  bs_new_session :: bool
  bs_reset_signals :: bool
  bs_max_fd :: nat
  bs_host_cwd :: string
  bs_exec_path :: string
  bs_argv :: "string list"
  bs_envp :: "string list"
  bs_seccomp :: "sock_filter list option"

text \<open>
  The host: memory, hard-link and file calls, and the system calls of the supervisor itself.  A
  call that changes the kernel's state returns it; a failing call gives its errno (0 for success).
\<close>

record ('m, 'f) sup_host =
  hs_mem :: "'m mem_host"
  hs_link :: "'f link_host"
  hs_files :: "'f \<Rightarrow> host_fs"
  hs_exec :: "'f \<Rightarrow> exec_host"
  hs_read :: "'f \<Rightarrow> string \<Rightarrow> errno + string"
  hs_kstat :: "bool \<Rightarrow> string \<Rightarrow> 32 word \<Rightarrow> 32 word \<Rightarrow> 'f \<Rightarrow> errno + string"
  hs_xattr :: "bool \<Rightarrow> string \<Rightarrow> string option \<Rightarrow> nat \<Rightarrow> 'f \<Rightarrow> errno + nat \<times> string"
  hs_faccessat :: "string \<Rightarrow> 32 word \<Rightarrow> 'f \<Rightarrow> errno"
  hs_getpgid :: "'f \<Rightarrow> int \<Rightarrow> int"
  hs_kill :: "int \<Rightarrow> int \<Rightarrow> 'f \<Rightarrow> errno \<times> 'f"
  hs_now :: "'f \<Rightarrow> nat"
  hs_time :: "'f \<Rightarrow> int"
  hs_env :: "string \<Rightarrow> string option"
  hs_mkdtemp :: "string \<Rightarrow> 'f \<Rightarrow> string option \<times> 'f"
  hs_create :: "string \<Rightarrow> string \<Rightarrow> 'f \<Rightarrow> bool \<times> 'f"
  hs_getregs :: "int \<Rightarrow> 'f \<Rightarrow> errno + user_regs"
  hs_setregs :: "int \<Rightarrow> user_regs \<Rightarrow> 'f \<Rightarrow> errno \<times> 'f"
  hs_resume :: "bool \<Rightarrow> int \<Rightarrow> int \<Rightarrow> 'f \<Rightarrow> errno \<times> 'f"
  hs_listen :: "int \<Rightarrow> 'f \<Rightarrow> errno \<times> 'f"
  hs_event_msg :: "int \<Rightarrow> 'f \<Rightarrow> 64 word option"
  hs_siginfo :: "int \<Rightarrow> 'f \<Rightarrow> (int \<times> int \<times> int \<times> 32 word) option"
  hs_syscall_op :: "int \<Rightarrow> 'f \<Rightarrow> nat option"
  hs_proc :: "'f \<Rightarrow> proc_info"
  hs_pidfd_send :: "int \<Rightarrow> 'f \<Rightarrow> (errno \<times> 'f) option"
  hs_rmdir :: "string \<Rightarrow> 'f \<Rightarrow> 'f"
  hs_seccomp_status :: "'f \<Rightarrow> string"
  hs_audit_socket :: "'f \<Rightarrow> errno"
  hs_pipe :: "'f \<Rightarrow> (errno + int \<times> int) \<times> 'f"
  hs_spawn :: "bootstrap \<Rightarrow> 'f \<Rightarrow> (errno + int) \<times> 'f"
  hs_await_ready :: "int \<Rightarrow> 'f \<Rightarrow> 'f"
  hs_seize :: "int \<Rightarrow> 64 word \<Rightarrow> 'f \<Rightarrow> errno \<times> 'f"
  hs_reap :: "int \<Rightarrow> 'f \<Rightarrow> 'f"
  hs_go :: "int \<Rightarrow> 'f \<Rightarrow> 'f"
  hs_rlimit_nofile :: "'f \<Rightarrow> nat option"
  hs_table :: "syscall_info list"
  hs_wants :: "severity \<Rightarrow> bool"

datatype start_state = Start_pending | Start_ok | Start_failed

record ('m, 'f) supervisor =
  sv_cfg :: session_config
  sv_final_env :: "string list"
  sv_session_id :: nat
  sv_opts :: sup_options
  sv_mounts :: mount_table
  sv_host_uid :: "32 word"
  sv_host_gid :: "32 word"
  sv_tracees :: "int \<rightharpoonup> tracee"
  sv_tids :: "int list"
  sv_exe_of :: "int \<rightharpoonup> string"
  sv_creds :: "int \<rightharpoonup> creds"
  sv_denials :: "((int \<times> errno) \<times> nat) list"
  sv_reported :: "string list"
  sv_links :: link_store
  sv_links_enabled :: bool
  sv_dir_cache :: dir_cache
  sv_proc_scratch :: string
  sv_proc_seq :: nat
  sv_argv0_cache :: argv0_cache
  sv_last_pid :: int
  sv_audit_refused :: bool
  sv_host_policy :: bool
  sv_guest_filtered :: "int list"
  sv_exited :: "int list"
  sv_known :: "int list"
  sv_main_pid :: int
  sv_main_reaped :: bool
  sv_main_exited :: bool
  sv_cancel_reason :: nat
  sv_main_exit :: exit_result
  sv_start_state :: start_state
  sv_start_status :: status
  sv_done :: bool
  sv_err_pipe :: bool
  sv_result :: exit_result
  sv_events :: "event list"
  sv_mem :: 'm
  sv_fs :: 'f

definition loader_mode :: "('m, 'f) supervisor \<Rightarrow> bool" where
  "loader_mode s \<longleftrightarrow> so_loader_path (sv_opts s) \<noteq> []"

definition the_tracee :: "('m, 'f) supervisor \<Rightarrow> int \<Rightarrow> tracee" where
  "the_tracee s tid = (case sv_tracees s tid of Some t \<Rightarrow> t | None \<Rightarrow> new_tracee tid False)"

definition put_tracee :: "int \<Rightarrow> tracee \<Rightarrow> ('m, 'f) supervisor \<Rightarrow> ('m, 'f) supervisor" where
  "put_tracee tid t s = s\<lparr>sv_tracees := (sv_tracees s)(tid \<mapsto> t)\<rparr>"

abbreviation pending_of :: "('m, 'f) supervisor \<Rightarrow> int \<Rightarrow> pending_syscall" where
  "pending_of s tid \<equiv> tr_pending (the_tracee s tid)"

definition set_pending :: "int \<Rightarrow> pending_syscall \<Rightarrow> ('m, 'f) supervisor \<Rightarrow> ('m, 'f) supervisor" where
  "set_pending tid p s = put_tracee tid ((the_tracee s tid)\<lparr>tr_pending := p\<rparr>) s"

definition emit ::
  "('m, 'f) sup_host \<Rightarrow> event_kind \<Rightarrow> severity \<Rightarrow> string \<Rightarrow> string \<Rightarrow> int \<Rightarrow> int \<Rightarrow> string \<Rightarrow>
     ('m, 'f) supervisor \<Rightarrow> ('m, 'f) supervisor" where
  "emit h kind sev name message pid code detail s =
     (if \<not> hs_wants h sev then s
      else s\<lparr>sv_events := sv_events s @
               [\<lparr>ev_kind = kind, ev_severity = sev, ev_session_id = sv_session_id s, ev_pid = pid,
                 ev_timestamp_ns = hs_now h (sv_fs s), ev_code = code, ev_name = name,
                 ev_message = message, ev_detail_json = detail\<rparr>]\<rparr>)"

definition first_report :: "string \<Rightarrow> string \<Rightarrow> ('m, 'f) supervisor \<Rightarrow> bool \<times> ('m, 'f) supervisor" where
  "first_report name subject s =
     (if length (sv_reported s) \<ge> 512 then (False, s)
      else let key = name @ nul # subject
           in if key \<in> set (sv_reported s) then (False, s)
              else (True, s\<lparr>sv_reported := key # sv_reported s\<rparr>))"

definition tgid_of :: "('m, 'f) sup_host \<Rightarrow> int \<Rightarrow> ('m, 'f) supervisor \<Rightarrow> int \<times> ('m, 'f) supervisor" where
  "tgid_of h tid s =
     (let t = the_tracee s tid
      in if tr_tgid t > 0 then (tr_tgid t, s)
         else case proc_status_field (hs_read h (sv_fs s)) (tr_tid t) ''Tgid'' of
             None \<Rightarrow> (tr_tid t, s)
           | Some v \<Rightarrow>
               (let tg = fst (strtol v)
                in if tg > 0 then (to_int32 tg, put_tracee tid (t\<lparr>tr_tgid := to_int32 tg\<rparr>) s)
                   else (tr_tid t, s)))"

definition initial_creds :: "('m, 'f) supervisor \<Rightarrow> creds" where
  "initial_creds s =
     (let u = (case sc_uid (sv_cfg s) of Some u \<Rightarrow> of_nat u | None \<Rightarrow> sv_host_uid s);
          g = (case sc_gid (sv_cfg s) of Some g \<Rightarrow> of_nat g | None \<Rightarrow> sv_host_gid s)
      in \<lparr>cr_ruid = u, cr_euid = u, cr_suid = u, cr_fsuid = u, cr_rgid = g, cr_egid = g, cr_sgid = g,
          cr_fsgid = g, cr_groups = [g]\<rparr>)"

text \<open>The entry \<open>creds_of\<close> returns a reference to: the thread group and its credentials.\<close>

definition creds_of ::
  "('m, 'f) sup_host \<Rightarrow> int \<Rightarrow> ('m, 'f) supervisor \<Rightarrow> int \<times> creds \<times> ('m, 'f) supervisor" where
  "creds_of h tid s =
     (case tgid_of h tid s of
        (tg, s1) \<Rightarrow>
          (case sv_creds s1 tg of
             Some c \<Rightarrow> (tg, c, s1)
           | None \<Rightarrow> (tg, initial_creds s1, s1\<lparr>sv_creds := (sv_creds s1)(tg \<mapsto> initial_creds s1)\<rparr>)))"

definition guest_is_root :: "('m, 'f) sup_host \<Rightarrow> int \<Rightarrow> ('m, 'f) supervisor \<Rightarrow> bool \<times> ('m, 'f) supervisor" where
  "guest_is_root h tid s =
     (if sc_uid (sv_cfg s) = Some 0
      then (case creds_of h tid s of (tg, c, s1) \<Rightarrow> (cr_euid c = 0, s1))
      else (False, s))"

definition has_identity :: "('m, 'f) supervisor \<Rightarrow> bool" where
  "has_identity s \<longleftrightarrow> sc_uid (sv_cfg s) \<noteq> None \<or> sc_gid (sv_cfg s) \<noteq> None"

text \<open>\<open>get_or_add\<close>: the task's entry, created when it is new; a task that appears after the
  session was cancelled or its first process exited is killed at once.\<close>

definition get_or_add :: "('m, 'f) sup_host \<Rightarrow> int \<Rightarrow> ('m, 'f) supervisor \<Rightarrow> bool \<times> ('m, 'f) supervisor" where
  "get_or_add h tid s =
     (if sv_tracees s tid \<noteq> None then (False, s)
      else let s1 = s\<lparr>sv_tracees := (sv_tracees s)(tid \<mapsto> new_tracee tid (\<not> so_use_seccomp (sv_opts s))),
                      sv_tids := tid # sv_tids s,
                      sv_last_pid := (if tid > sv_last_pid s then tid else sv_last_pid s),
                      sv_known := (if tid \<in> set (sv_known s) then sv_known s else tid # sv_known s)\<rparr>
           in (True, if sv_cancel_reason s \<noteq> 0 \<or> sv_main_exited s
                     then s1\<lparr>sv_fs := snd (hs_kill h tid 9 (sv_fs s1))\<rparr> else s1))"

definition remove_tracee :: "int \<Rightarrow> ('m, 'f) supervisor \<Rightarrow> ('m, 'f) supervisor" where
  "remove_tracee tid s =
     s\<lparr>sv_tracees := (sv_tracees s)(tid := None), sv_tids := filter (\<lambda>x. x \<noteq> tid) (sv_tids s),
       sv_exe_of := (sv_exe_of s)(tid := None), sv_creds := (sv_creds s)(tid := None),
       sv_guest_filtered := filter (\<lambda>x. x \<noteq> tid) (sv_guest_filtered s),
       sv_known := filter (\<lambda>x. x \<noteq> tid) (sv_known s),
       sv_main_reaped := (sv_main_reaped s \<or> tid = sv_main_pid s)\<rparr>"

definition inherit_process_state ::
  "('m, 'f) sup_host \<Rightarrow> int \<Rightarrow> int \<Rightarrow> ('m, 'f) supervisor \<Rightarrow> ('m, 'f) supervisor" where
  "inherit_process_state h parent child s =
     (case tgid_of h parent s of
        (ptg, s1) \<Rightarrow>
        case get_or_add h child s1 of
          (created, s2) \<Rightarrow>
          case tgid_of h child s2 of
            (ctg, s3) \<Rightarrow>
              if ctg = ptg then s3
              else s3\<lparr>sv_exe_of := (case sv_exe_of s3 ptg of None \<Rightarrow> sv_exe_of s3 | Some e \<Rightarrow> (sv_exe_of s3)(ctg \<mapsto> e)),
                      sv_creds := (case sv_creds s3 ptg of None \<Rightarrow> sv_creds s3 | Some c \<Rightarrow> (sv_creds s3)(ctg \<mapsto> c)),
                      sv_guest_filtered := (if ptg \<in> set (sv_guest_filtered s3) \<and> ctg \<notin> set (sv_guest_filtered s3)
                        then ctg # sv_guest_filtered s3 else sv_guest_filtered s3)\<rparr>)"

definition rewrite_arg :: "int \<Rightarrow> nat \<Rightarrow> 64 word \<Rightarrow> regs \<times> ('m, 'f) supervisor \<Rightarrow> regs \<times> ('m, 'f) supervisor" where
  "rewrite_arg tid i v rs =
     (case rs of (rg, s) \<Rightarrow>
        (let p = pending_of s tid;
             p1 = (if \<not> ps_restore p ! i
                   then p\<lparr>ps_orig_args := (ps_orig_args p)[i := arg rg i], ps_restore := (ps_restore p)[i := True]\<rparr>
                   else p)
         in (set_arg (int i) v rg, set_pending tid (p1\<lparr>ps_active := True\<rparr>) s)))"

text \<open>
  The counters of refused calls: an ordered map from the call's number and the errno, kept as the
  list of its entries in ascending order.
\<close>

definition denial_before :: "int \<times> errno \<Rightarrow> int \<times> errno \<Rightarrow> bool" where
  "denial_before a b \<longleftrightarrow> fst a < fst b \<or> fst a = fst b \<and> snd a < snd b"

fun count_denial :: "int \<times> errno \<Rightarrow> ((int \<times> errno) \<times> nat) list \<Rightarrow> ((int \<times> errno) \<times> nat) list" where
  "count_denial k [] = [(k, 1)]"
| "count_denial k (e # es) =
     (if fst e = k then (k, Suc (snd e)) # es
      else if denial_before k (fst e) then (k, 1) # e # es
      else e # count_denial k es)"

definition denial_count :: "((int \<times> errno) \<times> nat) list \<Rightarrow> int \<times> errno \<Rightarrow> nat" where
  "denial_count ds k = (case map_of ds k of None \<Rightarrow> 0 | Some n \<Rightarrow> n)"

definition deny ::
  "('m, 'f) sup_host \<Rightarrow> int \<Rightarrow> syscall_info option \<Rightarrow> int \<Rightarrow> errno \<Rightarrow> string \<Rightarrow> string \<Rightarrow> severity \<Rightarrow>
     ('m, 'f) supervisor \<Rightarrow> syscall_action \<times> ('m, 'f) supervisor" where
  "deny h tid info nr err name why sev s =
     (let first = (denial_count (sv_denials s) (nr, err) = 0);
          s1 = s\<lparr>sv_denials := count_denial (nr, err) (sv_denials s)\<rparr>;
          iname = (case info of Some i \<Rightarrow> si_name i | None \<Rightarrow> ''unknown'');
          icls = (case info of Some i \<Rightarrow> class_name (si_cls i) | None \<Rightarrow> ''unknown'');
          detail = jw_out (end_object (value_string icls (write_key ''class''
            (value_string (vhdp_errno_name err) (write_key ''errno''
            (value_int64 nr (write_key ''nr'' (value_string iname (write_key ''syscall''
            (begin_object new_writer))))))))));
          msg = (case info of Some i \<Rightarrow> si_name i | None \<Rightarrow> ''syscall'') @ '' -> '' @
                vhdp_errno_name err @ '': '' @ why
      in (fail_with err,
          if first \<and> hs_wants h sev then emit h EK_diagnostic sev name msg tid (int err) detail s1 else s1))"

section \<open>A session to evaluate with\<close>

text \<open>
  One task, number 7, in \<open>/etc\<close> of the sample root file system, presented as user 0; its memory is
  the flat memory of \<open>Tracee_Mem\<close> and the host's entries are the tree of \<open>Link_Store\<close>.
\<close>

definition sample_files :: host_fs where
  "sample_files = sample_fs\<lparr>readlink := (readlink sample_fs)(''/proc/7/cwd'' := Inr ''/data/rootfs/etc'')\<rparr>"

definition sample_uregs :: user_regs where
  "sample_uregs = \<lparr>u_orig_rax = 0, u_rdi = 0, u_rsi = 0, u_rdx = 0, u_r10 = 0, u_r8 = 0, u_r9 = 0,
     u_rax = 0, u_rsp = 0x20000, u_rip = 0x1000, u_cs = 0x33, u_others = []\<rparr>"

definition sample_info :: proc_info where
  "sample_info = \<lparr>pi_file = (\<lambda>_. []), pi_nproc = 1, pi_page_size = 4096, pi_uname = None, pi_sysinfo = None,
     pi_uptime_text = ''1.00'', pi_idle_text = (\<lambda>_. ''0.00''), pi_load_texts = (''0.00'', ''0.00'', ''0.00''),
     pi_total_ticks = 100, pi_btime = 0\<rparr>"

definition sample_shost :: "(64 word \<Rightarrow> char, string \<Rightarrow> node option) sup_host" where
  "sample_shost = \<lparr>hs_mem = flat_host, hs_link = tree_host, hs_files = (\<lambda>_. sample_files),
     hs_exec = (\<lambda>_. sample_exec_host), hs_read = (\<lambda>_ _. Inl ENOENT), hs_kstat = (\<lambda>_ _ _ _ _. Inl ENOENT),
     hs_xattr = (\<lambda>_ _ _ _ _. Inl ENOENT), hs_faccessat = (\<lambda>_ _ _. 0), hs_getpgid = (\<lambda>_ _. 7),
     hs_kill = (\<lambda>_ _ w. (0, w)), hs_now = (\<lambda>_. 0), hs_time = (\<lambda>_. 0), hs_env = (\<lambda>_. None),
     hs_mkdtemp = (\<lambda>_ w. (None, w)), hs_create = (\<lambda>_ _ w. (False, w)),
     hs_getregs = (\<lambda>_ _. Inr sample_uregs), hs_setregs = (\<lambda>_ _ w. (0, w)), hs_resume = (\<lambda>_ _ _ w. (0, w)),
     hs_listen = (\<lambda>_ w. (0, w)), hs_event_msg = (\<lambda>_ _. None), hs_siginfo = (\<lambda>_ _. None),
     hs_syscall_op = (\<lambda>_ _. None), hs_proc = (\<lambda>_. sample_info),
     hs_pidfd_send = (\<lambda>_ _. None), hs_rmdir = (\<lambda>_ w. w), hs_seccomp_status = (\<lambda>_. ''0''), hs_audit_socket = (\<lambda>_. 0),
     hs_pipe = (\<lambda>w. (Inr (3, 4), w)), hs_spawn = (\<lambda>_ w. (Inr 7, w)), hs_await_ready = (\<lambda>_ w. w),
     hs_seize = (\<lambda>_ _ w. (0, w)), hs_reap = (\<lambda>_ w. w), hs_go = (\<lambda>_ w. w), hs_rlimit_nofile = (\<lambda>_. Some 1024),
     hs_table = [], hs_wants = (\<lambda>_. True)\<rparr>"

definition sample_sup :: "(64 word \<Rightarrow> char, string \<Rightarrow> node option) supervisor" where
  "sample_sup = \<lparr>sv_cfg = default_config\<lparr>sc_rootfs := ''/data/rootfs'', sc_uid := Some 0, sc_gid := Some 0\<rparr>, sv_final_env = [],
     sv_session_id = 1, sv_opts = \<lparr>so_use_seccomp = True, so_get_syscall_info = True, so_loader_path = []\<rparr>,
     sv_mounts = sample_table, sv_host_uid = 1000, sv_host_gid = 1000,
     sv_tracees = [7 \<mapsto> (new_tracee 7 False)\<lparr>tr_tgid := 7\<rparr>], sv_tids = [7], sv_exe_of = Map.empty,
     sv_creds = Map.empty, sv_denials = [], sv_reported = [], sv_links = new_link_store,
     sv_links_enabled = False, sv_dir_cache = [], sv_proc_scratch = [], sv_proc_seq = 0, sv_argv0_cache = [],
     sv_last_pid = 7, sv_audit_refused = False, sv_host_policy = False, sv_guest_filtered = [], sv_exited = [],
     sv_known = [7], sv_main_pid = 7, sv_main_reaped = False, sv_main_exited = False, sv_cancel_reason = 0,
     sv_main_exit = no_result, sv_start_state = Start_ok, sv_start_status = status_ok, sv_done = False, sv_err_pipe = False, sv_result = no_result,
     sv_events = [], sv_mem = (\<lambda>_. nul), sv_fs = Map.empty\<rparr>"

lemmas sample_sup_defs = sample_shost_def sample_sup_def the_tracee_def new_tracee_def

end
