(* ===== verification/Identity.thy ===== *)
theory Identity
  imports Supervisor_State
begin

text \<open>
  The emulated credentials (\<open>Supervisor::handle_identity\<close> in
  \<open>src/src/engines/rootless/syscall_handlers.cpp\<close>).  A call is recognised by its name: the entry of
  the table has the number the system headers give that name.
\<close>

definition kKeep :: "32 word" where "kKeep = 0xffffffff"

definition is_call :: "syscall_info \<Rightarrow> string \<Rightarrow> bool" where
  "is_call info name \<longleftrightarrow> si_name info = name"

text \<open>Little-endian bytes of an integer, the object representation the code copies to the task.\<close>

fun le_digits :: "nat \<Rightarrow> nat \<Rightarrow> string" where
  "le_digits 0 v = []"
| "le_digits (Suc n) v = char_of (v mod 256) # le_digits n (v div 256)"

fun le_value :: "string \<Rightarrow> nat" where
  "le_value [] = 0"
| "le_value (c # cs) = byte c + 256 * le_value cs"

definition le_bytes :: "nat \<Rightarrow> 64 word \<Rightarrow> string" where "le_bytes n w = le_digits n (unat w)"

definition le_word :: "string \<Rightarrow> 64 word" where "le_word s = of_nat (le_value s)"

definition le32 :: "32 word \<Rightarrow> string" where "le32 v = le_digits 4 (unat v)"

definition to32 :: "string \<Rightarrow> 32 word" where "to32 s = of_nat (le_value s)"

definition id_arg :: "regs \<Rightarrow> nat \<Rightarrow> 32 word" where
  "id_arg rg i = ucast (arg rg i)"

definition int_arg :: "regs \<Rightarrow> nat \<Rightarrow> int" where
  "int_arg rg i = sint (ucast (arg rg i) :: 32 word)"

definition in3 :: "32 word \<Rightarrow> 32 word \<Rightarrow> 32 word \<Rightarrow> 32 word \<Rightarrow> bool" where
  "in3 v x y z \<longleftrightarrow> v = x \<or> v = y \<or> v = z"

text \<open>\<open>write_three\<close>: three words at three addresses, stopping at the first that cannot be written.\<close>

fun write_ids ::
  "'m mem_host \<Rightarrow> int \<Rightarrow> (64 word \<times> 32 word) list \<Rightarrow> 'm \<Rightarrow> bool \<times> 'm" where
  "write_ids mh tid [] m = (True, m)"
| "write_ids mh tid ((a, v) # rest) m =
     (case write_mem mh tid m a (le32 v) of
        (e, m') \<Rightarrow> if e \<noteq> 0 then (False, m') else write_ids mh tid rest m')"

definition write_three ::
  "('m, 'f) sup_host \<Rightarrow> int \<Rightarrow> regs \<Rightarrow> 32 word \<Rightarrow> 32 word \<Rightarrow> 32 word \<Rightarrow> ('m, 'f) supervisor \<Rightarrow>
     syscall_action \<times> ('m, 'f) supervisor" where
  "write_three h tid rg r e sv s =
     (case write_ids (hs_mem h) tid [(arg rg 0, r), (arg rg 1, e), (arg rg 2, sv)] (sv_mem s) of
        (ok, m) \<Rightarrow> (if ok then answer 0 else fail_with EFAULT, s\<lparr>sv_mem := m\<rparr>))"

text \<open>
  The user or group half of the credentials, selected by \<open>user\<close> the way the code binds its
  references.
\<close>

record id_half =
  ih_r :: "32 word"
  ih_e :: "32 word"
  ih_s :: "32 word"
  ih_fs :: "32 word"

definition half_of :: "bool \<Rightarrow> creds \<Rightarrow> id_half" where
  "half_of user c =
     (if user then \<lparr>ih_r = cr_ruid c, ih_e = cr_euid c, ih_s = cr_suid c, ih_fs = cr_fsuid c\<rparr>
      else \<lparr>ih_r = cr_rgid c, ih_e = cr_egid c, ih_s = cr_sgid c, ih_fs = cr_fsgid c\<rparr>)"

definition put_half :: "bool \<Rightarrow> id_half \<Rightarrow> creds \<Rightarrow> creds" where
  "put_half user x c =
     (if user then c\<lparr>cr_ruid := ih_r x, cr_euid := ih_e x, cr_suid := ih_s x, cr_fsuid := ih_fs x\<rparr>
      else c\<lparr>cr_rgid := ih_r x, cr_egid := ih_e x, cr_sgid := ih_s x, cr_fsgid := ih_fs x\<rparr>)"

definition set_one :: "bool \<Rightarrow> 32 word \<Rightarrow> id_half \<Rightarrow> id_half option" where
  "set_one priv u x =
     (if priv then Some \<lparr>ih_r = u, ih_e = u, ih_s = u, ih_fs = u\<rparr>
      else if u = ih_r x \<or> u = ih_s x then Some (x\<lparr>ih_e := u, ih_fs := u\<rparr>)
      else None)"

definition set_re :: "bool \<Rightarrow> 32 word \<Rightarrow> 32 word \<Rightarrow> id_half \<Rightarrow> id_half option" where
  "set_re priv r e x =
     (if \<not> priv \<and> ((r \<noteq> kKeep \<and> r \<noteq> ih_r x \<and> r \<noteq> ih_e x) \<or> (e \<noteq> kKeep \<and> \<not> in3 e (ih_r x) (ih_e x) (ih_s x)))
      then None
      else let rr = (if r \<noteq> kKeep then r else ih_r x);
               ee = (if e \<noteq> kKeep then e else ih_e x)
           in Some \<lparr>ih_r = rr, ih_e = ee,
                    ih_s = (if r \<noteq> kKeep \<or> (e \<noteq> kKeep \<and> e \<noteq> ih_r x) then ee else ih_s x), ih_fs = ee\<rparr>)"

definition set_res :: "bool \<Rightarrow> 32 word \<Rightarrow> 32 word \<Rightarrow> 32 word \<Rightarrow> id_half \<Rightarrow> id_half option" where
  "set_res priv r e sv x =
     (if \<not> priv \<and> list_ex (\<lambda>v. v \<noteq> kKeep \<and> \<not> in3 v (ih_r x) (ih_e x) (ih_s x)) [r, e, sv]
      then None
      else let ee = (if e \<noteq> kKeep then e else ih_e x)
           in Some \<lparr>ih_r = (if r \<noteq> kKeep then r else ih_r x), ih_e = ee,
                    ih_s = (if sv \<noteq> kKeep then sv else ih_s x), ih_fs = ee\<rparr>)"

definition set_fs :: "bool \<Rightarrow> 32 word \<Rightarrow> id_half \<Rightarrow> id_half" where
  "set_fs priv f x =
     (if f \<noteq> kKeep \<and> (priv \<or> in3 f (ih_r x) (ih_e x) (ih_s x) \<or> f = ih_fs x) then x\<lparr>ih_fs := f\<rparr> else x)"

definition put_creds :: "int \<Rightarrow> creds \<Rightarrow> ('m, 'f) supervisor \<Rightarrow> ('m, 'f) supervisor" where
  "put_creds tg c s = s\<lparr>sv_creds := (sv_creds s)(tg \<mapsto> c)\<rparr>"

definition settle ::
  "int \<Rightarrow> bool \<Rightarrow> creds \<Rightarrow> id_half option \<Rightarrow> ('m, 'f) supervisor \<Rightarrow> syscall_action \<times> ('m, 'f) supervisor" where
  "settle tg user cr res s =
     (case res of
        None \<Rightarrow> (fail_with EPERM, s)
      | Some x \<Rightarrow> (answer 0, put_creds tg (put_half user x cr) s))"

fun words32 :: "nat \<Rightarrow> string \<Rightarrow> 32 word list" where
  "words32 0 b = []"
| "words32 (Suc n) b = to32 (take 4 b) # words32 n (drop 4 b)"

definition get_groups ::
  "('m, 'f) sup_host \<Rightarrow> int \<Rightarrow> regs \<Rightarrow> creds \<Rightarrow> ('m, 'f) supervisor \<Rightarrow> syscall_action \<times> ('m, 'f) supervisor" where
  "get_groups h tid rg cr s =
     (let size = int_arg rg 0; n = int (length (cr_groups cr))
      in if size < 0 then (fail_with EINVAL, s)
         else if size = 0 then (answer n, s)
         else if size < n then (fail_with EINVAL, s)
         else if n > 0
         then (case write_mem (hs_mem h) tid (sv_mem s) (arg rg 1) (concat (map le32 (cr_groups cr))) of
                 (e, m) \<Rightarrow> (if e \<noteq> 0 then fail_with EFAULT else answer n, s\<lparr>sv_mem := m\<rparr>))
         else (answer n, s))"

definition set_groups ::
  "('m, 'f) sup_host \<Rightarrow> int \<Rightarrow> regs \<Rightarrow> int \<Rightarrow> creds \<Rightarrow> ('m, 'f) supervisor \<Rightarrow> syscall_action \<times> ('m, 'f) supervisor" where
  "set_groups h tid rg tg cr s =
     (if cr_euid cr \<noteq> 0 then (fail_with EPERM, s)
      else let n = int_arg rg 0
           in if n < 0 \<or> n > 65536 then (fail_with EINVAL, s)
              else if n > 0
              then (case read_mem (hs_mem h) tid (sv_mem s) (arg rg 1) (nat n * 4) of
                      Inl e \<Rightarrow> (fail_with EFAULT, s)
                    | Inr b \<Rightarrow> (answer 0, put_creds tg (cr\<lparr>cr_groups := words32 (nat n) b\<rparr>) s))
              else (answer 0, put_creds tg (cr\<lparr>cr_groups := []\<rparr>) s))"

definition handle_identity ::
  "('m, 'f) sup_host \<Rightarrow> int \<Rightarrow> regs \<Rightarrow> syscall_info \<Rightarrow> ('m, 'f) supervisor \<Rightarrow>
     syscall_action \<times> ('m, 'f) supervisor" where
  "handle_identity h tid rg info s0 =
     (case creds_of h tid s0 of
        (tg, cr, s) \<Rightarrow>
        (let priv = (cr_euid cr = 0)
         in if si_handler info = H_getuid then (answer (uint (cr_ruid cr)), s)
            else if si_handler info = H_geteuid then (answer (uint (cr_euid cr)), s)
            else if si_handler info = H_getgid then (answer (uint (cr_rgid cr)), s)
            else if si_handler info = H_getegid then (answer (uint (cr_egid cr)), s)
            else if si_handler info = H_getresuid
            then write_three h tid rg (cr_ruid cr) (cr_euid cr) (cr_suid cr) s
            else if si_handler info = H_getresgid
            then write_three h tid rg (cr_rgid cr) (cr_egid cr) (cr_sgid cr) s
            else if is_call info ''getgroups'' then get_groups h tid rg cr s
            else if is_call info ''setgroups'' then set_groups h tid rg tg cr s
            else if is_call info ''setuid''
            then settle tg True cr (set_one priv (id_arg rg 0) (half_of True cr)) s
            else if is_call info ''setgid''
            then settle tg False cr (set_one priv (id_arg rg 0) (half_of False cr)) s
            else if is_call info ''setreuid'' \<or> is_call info ''setregid''
            then let user = is_call info ''setreuid''
                 in settle tg user cr (set_re priv (id_arg rg 0) (id_arg rg 1) (half_of user cr)) s
            else if is_call info ''setresuid'' \<or> is_call info ''setresgid''
            then let user = is_call info ''setresuid''
                 in settle tg user cr (set_res priv (id_arg rg 0) (id_arg rg 1) (id_arg rg 2) (half_of user cr)) s
            else if is_call info ''setfsuid'' \<or> is_call info ''setfsgid''
            then let user = is_call info ''setfsuid''; x = half_of user cr
                 in (answer (uint (ih_fs x)), put_creds tg (put_half user (set_fs priv (id_arg rg 0) x) cr) s)
            else (pass, s)))"

section \<open>Whose credentials\<close>

lemma the_tracee_put [simp]: "the_tracee (put_tracee tid t s) tid = t"
  by (simp add: the_tracee_def put_tracee_def)

lemma put_tracee_fields [simp]:
  "sv_creds (put_tracee tid t s) = sv_creds s" "sv_fs (put_tracee tid t s) = sv_fs s"
  "sv_mem (put_tracee tid t s) = sv_mem s" "sv_cfg (put_tracee tid t s) = sv_cfg s"
  "sv_host_uid (put_tracee tid t s) = sv_host_uid s" "sv_host_gid (put_tracee tid t s) = sv_host_gid s"
  "sv_mounts (put_tracee tid t s) = sv_mounts s" "sv_events (put_tracee tid t s) = sv_events s"
  by (simp_all add: put_tracee_def)

lemma tgid_of_state:
  assumes "tgid_of h tid s = (tg, s1)"
  shows "s1 = s \<or> (\<exists>g. s1 = put_tracee tid ((the_tracee s tid)\<lparr>tr_tgid := g\<rparr>) s)"
  using assms by (auto simp: tgid_of_def Let_def split: if_splits option.splits)

lemma tgid_of_fields:
  assumes "tgid_of h tid s = (tg, s1)"
  shows "sv_creds s1 = sv_creds s" "sv_fs s1 = sv_fs s" "sv_mem s1 = sv_mem s" "initial_creds s1 = initial_creds s"
  using tgid_of_state [OF assms] by (auto simp: initial_creds_def Let_def split: option.split)

text \<open>Only the kernel's state and the task's own entry decide the thread group.\<close>

lemma tgid_of_cong:
  assumes "sv_fs s' = sv_fs s" and "the_tracee s' tid = the_tracee s tid"
  shows "fst (tgid_of h tid s') = fst (tgid_of h tid s)"
  using assms by (auto simp: tgid_of_def Let_def split: if_splits option.splits)

lemma tgid_of_stable:
  assumes "tgid_of h tid s = (tg, s1)"
  shows "fst (tgid_of h tid s1) = tg"
  using assms by (auto simp: tgid_of_def Let_def split: if_splits option.splits)

lemma creds_of_Some:
  assumes "creds_of h tid s = (tg, c, s1)"
  shows "sv_creds s1 tg = Some c" "fst (tgid_of h tid s) = tg" "fst (tgid_of h tid s1) = tg"
    "sv_fs s1 = sv_fs s" "sv_mem s1 = sv_mem s"
proof -
  obtain g s0 where g: "tgid_of h tid s = (g, s0)" by (cases "tgid_of h tid s")
  have tg: "tg = g" using assms g by (auto simp: creds_of_def split: option.splits)
  have s1: "s1 = s0 \<or> s1 = s0\<lparr>sv_creds := (sv_creds s0)(tg \<mapsto> c)\<rparr>"
    using assms g by (auto simp: creds_of_def split: option.splits)
  show "sv_creds s1 tg = Some c" using assms g by (auto simp: creds_of_def split: option.splits)
  show "fst (tgid_of h tid s) = tg" using g tg by simp
  have "fst (tgid_of h tid s1) = fst (tgid_of h tid s0)"
    by (rule tgid_of_cong) (use s1 in \<open>auto simp: the_tracee_def\<close>)
  then show "fst (tgid_of h tid s1) = tg" using tgid_of_stable [OF g] tg by simp
  show "sv_fs s1 = sv_fs s" "sv_mem s1 = sv_mem s" using s1 tgid_of_fields [OF g] by auto
qed

lemma creds_of_eq:
  assumes "fst (tgid_of h tid s) = tg" and "sv_creds s tg = Some c"
  shows "fst (snd (creds_of h tid s)) = c"
proof -
  obtain g s0 where g: "tgid_of h tid s = (g, s0)" by (cases "tgid_of h tid s")
  show ?thesis using assms g tgid_of_fields(1) [OF g] by (simp add: creds_of_def)
qed

text \<open>The changes an identity call can make to the caller's credentials.\<close>

definition id_change :: "creds \<Rightarrow> creds \<Rightarrow> bool" where
  "id_change c c' \<longleftrightarrow>
     c' = c \<or>
     (\<exists>user x. c' = put_half user x c \<and>
        ((\<exists>u. set_one (cr_euid c = 0) u (half_of user c) = Some x) \<or>
         (\<exists>r e. set_re (cr_euid c = 0) r e (half_of user c) = Some x) \<or>
         (\<exists>r e v. set_res (cr_euid c = 0) r e v (half_of user c) = Some x) \<or>
         (\<exists>f. set_fs (cr_euid c = 0) f (half_of user c) = x))) \<or>
     (cr_euid c = 0 \<and> (\<exists>gs. c' = c\<lparr>cr_groups := gs\<rparr>))"

definition kept_state :: "int \<Rightarrow> creds \<Rightarrow> ('m, 'f) supervisor \<Rightarrow> ('m, 'f) supervisor \<Rightarrow> bool" where
  "kept_state tg c s s' \<longleftrightarrow> (\<exists>m. s' = s\<lparr>sv_mem := m\<rparr>) \<and> sv_creds s tg = Some c \<or> s' = put_creds tg c s"

lemma kept_state_creds:
  assumes "kept_state tg c s s'"
  shows "sv_creds s' = (sv_creds s)(tg \<mapsto> c)" "sv_fs s' = sv_fs s" "the_tracee s' tid = the_tracee s tid"
  using assms by (auto simp: kept_state_def put_creds_def the_tracee_def fun_upd_idem_iff)

definition outcome :: "int \<Rightarrow> creds \<Rightarrow> ('m, 'f) supervisor \<Rightarrow> syscall_action \<times> ('m, 'f) supervisor \<Rightarrow> bool" where
  "outcome tg c s r \<longleftrightarrow>
     (\<exists>c'. id_change c c' \<and> kept_state tg c' s (snd r) \<and> (sa_ret (fst r) < 0 \<longrightarrow> c' = c))"

lemma outcome_same:
  "sv_creds s tg = Some c \<Longrightarrow> outcome tg c s (act, s)" "sv_creds s tg = Some c \<Longrightarrow> outcome tg c s (act, s\<lparr>sv_mem := m\<rparr>)"
proof -
  have mem: "outcome tg c s (act, s\<lparr>sv_mem := m\<rparr>)" if "sv_creds s tg = Some c" for m
    using that unfolding outcome_def id_change_def kept_state_def by auto
  show "outcome tg c s (act, s)" "outcome tg c s (act, s\<lparr>sv_mem := m\<rparr>)" if "sv_creds s tg = Some c"
    using mem [OF that, of "sv_mem s"] mem [OF that, of m] by simp_all
qed

lemma outcome_put: "id_change c c' \<Longrightarrow> 0 \<le> r \<Longrightarrow> outcome tg c s (answer r, put_creds tg c' s)"
  by (auto simp: outcome_def kept_state_def answer_def intro!: exI [of _ c'])

lemma outcome_settle:
  assumes "sv_creds s tg = Some c" and "\<And>x. res = Some x \<Longrightarrow> id_change c (put_half user x c)"
  shows "outcome tg c s (settle tg user c res s)"
  using assms by (cases res) (auto simp: settle_def intro: outcome_same outcome_put)

lemma outcome_groups:
  assumes "sv_creds s tg = Some c"
  shows "outcome tg c s (get_groups h tid rg c s)" "outcome tg c s (set_groups h tid rg tg c s)"
    "outcome tg c s (write_three h tid rg x y z s)"
  using assms
  by (auto simp: get_groups_def set_groups_def write_three_def Let_def id_change_def
      intro!: outcome_same outcome_put split: prod.splits sum.splits)

lemma handle_identity_outcome:
  assumes "creds_of h tid s = (tg, c, s1)"
  shows "outcome tg c s1 (handle_identity h tid rg info s)"
proof -
  note own = creds_of_Some(1) [OF assms]
  have one: "outcome tg c s1 (settle tg user c (set_one (cr_euid c = 0) u (half_of user c)) s1)" for user u
    by (rule outcome_settle [OF own]) (auto simp: id_change_def)
  have re: "outcome tg c s1 (settle tg user c (set_re (cr_euid c = 0) u e (half_of user c)) s1)" for user u e
    by (rule outcome_settle [OF own]) (auto simp: id_change_def)
  have res: "outcome tg c s1 (settle tg user c (set_res (cr_euid c = 0) u e v (half_of user c)) s1)" for user u e v
    by (rule outcome_settle [OF own]) (auto simp: id_change_def)
  have fs: "outcome tg c s1 (answer (uint w), put_creds tg (put_half user (set_fs (cr_euid c = 0) f (half_of user c)) c) s1)"
    for user f and w :: "32 word"
    by (rule outcome_put) (unfold id_change_def, blast, simp)
  show ?thesis
    unfolding handle_identity_def assms prod.case Let_def
    by (simp add: outcome_same [OF own] outcome_groups [OF own] one re res fs)
qed

section \<open>Dropped privileges stay dropped\<close>

text \<open>The identifiers a process without privilege can still take on.\<close>

definition half_within :: "id_half \<Rightarrow> id_half \<Rightarrow> bool" where
  "half_within x y \<longleftrightarrow>
     in3 (ih_r y) (ih_r x) (ih_e x) (ih_s x) \<and> in3 (ih_e y) (ih_r x) (ih_e x) (ih_s x) \<and>
     in3 (ih_s y) (ih_r x) (ih_e x) (ih_s x) \<and>
     (in3 (ih_fs y) (ih_r x) (ih_e x) (ih_s x) \<or> ih_fs y = ih_fs x)"

definition within :: "creds \<Rightarrow> creds \<Rightarrow> bool" where
  "within c c' \<longleftrightarrow>
     half_within (half_of True c) (half_of True c') \<and> half_within (half_of False c) (half_of False c') \<and>
     cr_groups c' = cr_groups c"

lemma in3_same [simp]: "in3 x x y z" "in3 y x y z" "in3 z x y z"
  by (simp_all add: in3_def)

lemma half_within_refl [simp]: "half_within x x"
  by (simp add: half_within_def)

lemma within_refl [simp]: "within c c"
  by (simp add: within_def)

lemma in3_trans: "in3 v x y z \<Longrightarrow> in3 x a b c \<Longrightarrow> in3 y a b c \<Longrightarrow> in3 z a b c \<Longrightarrow> in3 v a b c"
  unfolding in3_def by metis

lemma half_within_trans: "half_within x y \<Longrightarrow> half_within y z \<Longrightarrow> half_within x z"
  unfolding half_within_def by (elim conjE disjE) (blast intro: in3_trans | simp)+

lemma within_trans: "within a b \<Longrightarrow> within b c \<Longrightarrow> within a c"
  unfolding within_def by (metis half_within_trans)

lemma unprivileged_half:
  "set_one False u x = Some y \<Longrightarrow> half_within x y"
  "set_re False r e x = Some y \<Longrightarrow> half_within x y"
  "set_res False r e v x = Some y \<Longrightarrow> half_within x y"
  "half_within x (set_fs False u x)"
  by (auto simp: set_one_def set_re_def set_res_def set_fs_def half_within_def in3_def Let_def split: if_splits)

lemma half_put:
  "half_of user (put_half user x c) = x" "user' \<noteq> user \<Longrightarrow> half_of user' (put_half user x c) = half_of user' c"
  "cr_groups (put_half user x c) = cr_groups c"
  by (auto simp: half_of_def put_half_def)

lemma within_half: "half_within (half_of user c) y \<Longrightarrow> within c (put_half user y c)"
  by (cases user) (simp_all add: within_def half_put)

lemma id_change_within:
  assumes "id_change c c'" and "cr_euid c \<noteq> 0"
  shows "within c c'"
proof -
  have priv: "(cr_euid c = 0) = False" using assms(2) by simp
  show ?thesis
    using assms(1) unfolding id_change_def priv
    by (elim disjE exE conjE)
      (auto intro!: within_half intro: unprivileged_half(1) unprivileged_half(2) unprivileged_half(3) unprivileged_half(4))
qed

lemma within_euid:
  assumes "within c c'" and "0 \<notin> {cr_ruid c, cr_euid c, cr_suid c}"
  shows "cr_euid c' \<noteq> 0"
proof -
  have "in3 (cr_euid c') (cr_ruid c) (cr_euid c) (cr_suid c)"
    using assms(1) by (simp add: within_def half_within_def half_of_def)
  then show ?thesis using assms(2) by (auto simp: in3_def)
qed

definition identity_calls ::
  "('m, 'f) sup_host \<Rightarrow> int \<Rightarrow> (regs \<times> syscall_info) list \<Rightarrow> ('m, 'f) supervisor \<Rightarrow> ('m, 'f) supervisor" where
  "identity_calls h tid calls s = foldl (\<lambda>s (rg, info). snd (handle_identity h tid rg info s)) s calls"

abbreviation creds_in :: "('m, 'f) sup_host \<Rightarrow> int \<Rightarrow> ('m, 'f) supervisor \<Rightarrow> creds" where
  "creds_in h tid s \<equiv> fst (snd (creds_of h tid s))"

lemma handle_identity_creds:
  shows "id_change (creds_in h tid s) (creds_in h tid (snd (handle_identity h tid rg info s)))"
    and "sa_ret (fst (handle_identity h tid rg info s)) < 0 \<Longrightarrow>
      creds_in h tid (snd (handle_identity h tid rg info s)) = creds_in h tid s"
proof -
  obtain tg c s1 where c: "creds_of h tid s = (tg, c, s1)" by (cases "creds_of h tid s") auto
  obtain c' where c': "id_change c c'" "kept_state tg c' s1 (snd (handle_identity h tid rg info s))"
    "sa_ret (fst (handle_identity h tid rg info s)) < 0 \<longrightarrow> c' = c"
    using handle_identity_outcome [OF c] unfolding outcome_def by blast
  note k = kept_state_creds [OF c'(2)]
  have "fst (tgid_of h tid (snd (handle_identity h tid rg info s))) = tg"
    using tgid_of_cong [OF k(2) k(3)] creds_of_Some(3) [OF c] by simp
  then have new: "creds_in h tid (snd (handle_identity h tid rg info s)) = c'"
    using creds_of_eq k(1) by force
  then show "id_change (creds_in h tid s) (creds_in h tid (snd (handle_identity h tid rg info s)))"
    using c c'(1) by simp
  show "creds_in h tid (snd (handle_identity h tid rg info s)) = creds_in h tid s"
    if "sa_ret (fst (handle_identity h tid rg info s)) < 0"
    using that new c c'(3) by simp
qed

lemma identity_calls_within:
  assumes "0 \<notin> {cr_ruid c, cr_euid c, cr_suid c}" and "within c (creds_in h tid s)"
  shows "within c (creds_in h tid (identity_calls h tid calls s))"
  using assms(2)
proof (induction calls arbitrary: s)
  case (Cons call calls)
  obtain rg info where call: "call = (rg, info)" by (cases call)
  have "cr_euid (creds_in h tid s) \<noteq> 0" using within_euid [OF Cons.prems assms(1)] .
  then have "within c (creds_in h tid (snd (handle_identity h tid rg info s)))"
    by (rule within_trans [OF Cons.prems id_change_within [OF handle_identity_creds(1)]])
  then show ?case using Cons.IH by (simp add: identity_calls_def call)
qed (simp add: identity_calls_def)

text \<open>
  C9: a process that has given up user id 0 in its real, effective and saved ids never gets it
  back, whatever sequence of identity calls it makes: its ids stay among those it had, and its
  supplementary groups stay as they were.
\<close>

theorem privilege_drop_permanent:
  assumes "creds_of h tid s = (tg, c, s1)" and "0 \<notin> {cr_ruid c, cr_euid c, cr_suid c}"
  shows "within c (fst (snd (creds_of h tid (identity_calls h tid calls s))))"
  by (rule identity_calls_within [OF assms(2)]) (simp add: assms(1))

text \<open>
  An identity call that returns an error has changed nothing of the caller's credentials.
\<close>

theorem identity_error_no_effect:
  assumes "sa_ret (fst (handle_identity h tid rg info s)) < 0"
  shows "fst (snd (creds_of h tid (snd (handle_identity h tid rg info s)))) = fst (snd (creds_of h tid s))"
  using handle_identity_creds(2) [OF assms] by simp

section \<open>Group lists\<close>

lemma length_le_digits [simp]: "length (le_digits n v) = n"
  by (induction n arbitrary: v) auto

lemma le_value_digits [simp]: "le_value (le_digits n v) = v mod 256 ^ n"
proof (induction n arbitrary: v)
  case (Suc n)
  have "v mod (256 * 256 ^ n) = 256 * (v div 256 mod 256 ^ n) + v mod 256" by (rule mod_mult2_eq)
  then show ?case using Suc by simp
qed simp

lemma le_digits_value: "length s = n \<Longrightarrow> le_digits n (le_value s) = s"
proof (induction s arbitrary: n)
  case (Cons c s)
  then show ?case by (cases n) (auto simp: div_add1_eq)
qed simp

lemma length_le32 [simp]: "length (le32 v) = 4"
  by (simp add: le32_def)

lemma le32_ne [simp]: "le32 v \<noteq> []"
  using length_le32 [of v] by (metis list.size(3) zero_neq_numeral)

lemma to32_le32 [simp]: "to32 (le32 v) = v"
proof -
  have "unat v < 256 ^ 4" using unsigned_less [of v, where ?'a = nat] by simp
  then show ?thesis by (simp add: to32_def le32_def)
qed

lemma le32_to32: "length s = 4 \<Longrightarrow> le32 (to32 s) = s"
proof -
  assume l: "length s = 4"
  have "le_value t < 256 ^ length t" for t
  proof (induction t)
    case (Cons c t)
    have "byte c < 256" by simp
    then have "byte c + 256 * le_value t < 256 * (le_value t + 1)" by simp
    also have "\<dots> \<le> 256 * 256 ^ length t" using Cons by (intro mult_le_mono2) simp
    finally show ?case by simp
  qed simp
  then have "le_value s < 256 ^ 4" using l by metis
  then have "le_value s < 2 ^ 32" by simp
  then have "unat (to32 s) = le_value s" by (simp add: to32_def unat_of_nat)
  then show ?thesis using le_digits_value [OF l] by (simp add: le32_def)
qed

lemma length_words32 [simp]: "length (words32 n b) = n"
  by (induction n b rule: words32.induct) auto

lemma int_arg_less: "int_arg rg i < 2 ^ 31"
  using sint_less [of "ucast (arg rg i) :: 32 word"] by (simp add: int_arg_def)

lemma words32_groups: "words32 (length gs) (concat (map le32 gs)) = gs"
  by (induction gs) auto

lemma groups_words32: "length b = 4 * n \<Longrightarrow> concat (map le32 (words32 n b)) = b"
proof (induction n arbitrary: b)
  case (Suc n)
  then show ?case using le32_to32 [of "take 4 b"] by simp
qed simp

lemma sa_ret_simps [simp]: "sa_ret (answer r) = r" "sa_ret (fail_with e) = - int e" "sa_ret pass = 0"
  "sa_skip (answer r)" "sa_skip (fail_with e)" "\<not> sa_skip pass"
  by (simp_all add: answer_def fail_with_def pass_def)

lemma set_groups_ok:
  assumes "mem_reads (hs_mem h) v" and "set_groups h tid rg tg cr s = (act, s')" and "sa_ret act = 0"
  shows "\<exists>b. length b = 4 * nat (int_arg rg 0) \<and> stored (v tid (sv_mem s)) (arg rg 1) b \<and>
    s' = put_creds tg (cr\<lparr>cr_groups := words32 (nat (int_arg rg 0)) b\<rparr>) s \<and> 0 \<le> int_arg rg 0"
proof -
  let ?n = "int_arg rg 0"
  have err: "act \<noteq> fail_with EPERM" "act \<noteq> fail_with EINVAL" "act \<noteq> fail_with EFAULT"
    using assms(3) by (auto simp: errno_defs)
  have ok: "cr_euid cr = 0" "0 \<le> ?n" "\<not> ?n > 65536"
    using assms(2) err by (auto simp: set_groups_def Let_def split: if_splits)
  show ?thesis
  proof (cases "?n > 0")
    case True
    show ?thesis
    proof (cases "read_mem (hs_mem h) tid (sv_mem s) (arg rg 1) (nat ?n * 4)")
      case (Inl e)
      then show ?thesis using assms(2) err ok True by (auto simp: set_groups_def Let_def)
    next
      case (Inr b)
      then show ?thesis using assms(2) ok True read_mem_stored [OF assms(1) Inr]
        by (intro exI [of _ b]) (simp add: set_groups_def Let_def)
    qed
  next
    case False
    then show ?thesis using assms(2) ok by (intro exI [of _ "[]"]) (simp add: set_groups_def Let_def)
  qed
qed

lemma get_groups_ok:
  assumes "mem_writes (hs_mem h) v" and "get_groups h tid rg cr s = (act, s')" and "0 \<le> sa_ret act"
    and "0 < int_arg rg 0" and "length (cr_groups cr) < 2 ^ 60"
  shows "sa_ret act = int (length (cr_groups cr)) \<and>
    stored (v tid (sv_mem s')) (arg rg 1) (concat (map le32 (cr_groups cr)))"
proof (cases "cr_groups cr = []")
  case True
  then show ?thesis using assms(2,4) by (auto simp: get_groups_def Let_def answer_def)
next
  case False
  have len: "length (concat (map le32 (cr_groups cr))) = 4 * length (cr_groups cr)"
    by (simp add: length_concat o_def sum_list_triv)
  obtain e m where w: "write_mem (hs_mem h) tid (sv_mem s) (arg rg 1) (concat (map le32 (cr_groups cr))) = (e, m)"
    by (cases "write_mem (hs_mem h) tid (sv_mem s) (arg rg 1) (concat (map le32 (cr_groups cr)))")
  have r: "e = 0 \<and> act = answer (int (length (cr_groups cr))) \<and> s' = s\<lparr>sv_mem := m\<rparr>"
    using assms(2-4) False w
    by (auto simp: get_groups_def Let_def fail_with_def answer_def errno_defs split: if_splits)
  then have "v tid m = put_bytes (v tid (sv_mem s)) (arg rg 1) (concat (map le32 (cr_groups cr)))"
    using write_mem_put [OF assms(1) _ , of "concat (map le32 (cr_groups cr))" tid "sv_mem s" "arg rg 1" m] w len assms(5) by simp
  then show ?thesis using r len assms(5) by (simp add: stored_put_bytes answer_def)
qed

text \<open>
  The group list a privileged process installs with setgroups is the one getgroups gives back:
  the same number of entries, and byte for byte the same words in the caller's buffer.
\<close>

theorem groups_roundtrip:
  assumes "mem_reads (hs_mem h) v" and "mem_writes (hs_mem h) v"
    and "si_handler set_info = H_setid" and "is_call set_info ''setgroups''"
    and "si_handler get_info = H_none" and "is_call get_info ''getgroups''"
    and "handle_identity h tid rg set_info s = (act, s1)" and "sa_ret act = 0"
    and "handle_identity h tid rg' get_info s1 = (act', s2)" and "0 \<le> sa_ret act'" and "0 < int_arg rg' 0"
  shows "sa_ret act' = int_arg rg 0 \<and>
    (\<exists>b. length b = 4 * nat (int_arg rg 0) \<and> stored (v tid (sv_mem s)) (arg rg 1) b \<and>
         stored (v tid (sv_mem s2)) (arg rg' 1) b)"
proof -
  obtain tg c s0 where c: "creds_of h tid s = (tg, c, s0)" by (cases "creds_of h tid s") auto
  have "set_groups h tid rg tg c s0 = (act, s1)"
    using assms(3,4,7) c by (simp add: handle_identity_def is_call_def)
  then obtain b where b: "length b = 4 * nat (int_arg rg 0)" "stored (v tid (sv_mem s0)) (arg rg 1) b"
    "s1 = put_creds tg (c\<lparr>cr_groups := words32 (nat (int_arg rg 0)) b\<rparr>) s0" "0 \<le> int_arg rg 0"
    using set_groups_ok [OF assms(1)] assms(8) by metis
  obtain tg' c' s0' where c': "creds_of h tid s1 = (tg', c', s0')" by (cases "creds_of h tid s1") auto
  have "fst (tgid_of h tid s1) = tg"
    using tgid_of_cong [of s1 s0 tid h] b(3) creds_of_Some(3) [OF c] by (simp add: put_creds_def the_tracee_def)
  then have own: "c' = c\<lparr>cr_groups := words32 (nat (int_arg rg 0)) b\<rparr>"
    using creds_of_eq [of h tid s1 tg] b(3) c' by (simp add: put_creds_def)
  have n: "length (cr_groups c') = nat (int_arg rg 0)"
    unfolding own by simp
  have small: "length (cr_groups c') < 2 ^ 60" unfolding n using int_arg_less [of rg 0] by simp
  have "get_groups h tid rg' c' s0' = (act', s2)"
    using assms(5,6,9) c' by (simp add: handle_identity_def is_call_def)
  then have "sa_ret act' = int (length (cr_groups c')) \<and> stored (v tid (sv_mem s2)) (arg rg' 1) (concat (map le32 (cr_groups c')))"
    using get_groups_ok [OF assms(2) _ assms(10,11) small] by blast
  then show ?thesis using n own groups_words32 [OF b(1)] b(1,2,4) creds_of_Some(5) [OF c] by auto
qed

section \<open>Witnesses\<close>

definition sample_regs :: "64 word list \<Rightarrow> regs" where
  "sample_regs args = (fetch_regs sample_uregs)\<lparr>rg_args := args\<rparr>"

definition sample_entry :: "string \<Rightarrow> handler \<Rightarrow> syscall_info" where
  "sample_entry name k = \<lparr>si_nr = 1, si_name = name, si_cls = Cls_emulated, si_handler = k\<rparr>"

definition dropped :: creds where
  "dropped = \<lparr>cr_ruid = 42, cr_euid = 42, cr_suid = 42, cr_fsuid = 42, cr_rgid = 0, cr_egid = 0,
     cr_sgid = 0, cr_fsgid = 0, cr_groups = [0]\<rparr>"

lemma tgid_of_known: "0 < tr_tgid (the_tracee s tid) \<Longrightarrow> tgid_of h tid s = (tr_tgid (the_tracee s tid), s)"
  by (simp add: tgid_of_def Let_def)

lemma sample_dropped:
  "creds_of sample_shost 7 (put_creds 7 dropped sample_sup) = (7, dropped, put_creds 7 dropped sample_sup)"
  by (simp add: creds_of_def tgid_of_known sample_sup_defs put_creds_def)

theorem privilege_drop_permanent_witness:
  "within dropped (fst (snd (creds_of sample_shost 7 (identity_calls sample_shost 7
     [(sample_regs [0, 0, 0, 0, 0, 0], sample_entry ''setuid'' H_setid),
      (sample_regs [0, 0, 0, 0, 0, 0], sample_entry ''setresuid'' H_setid)] (put_creds 7 dropped sample_sup)))))"
  by (rule privilege_drop_permanent [OF sample_dropped]) (simp add: dropped_def)

theorem identity_error_no_effect_witness:
  "fst (snd (creds_of sample_shost 7 (snd (handle_identity sample_shost 7 (sample_regs [0, 0, 0, 0, 0, 0])
     (sample_entry ''setuid'' H_setid) (put_creds 7 dropped sample_sup))))) = dropped"
proof -
  have "sa_ret (fst (handle_identity sample_shost 7 (sample_regs [0, 0, 0, 0, 0, 0])
     (sample_entry ''setuid'' H_setid) (put_creds 7 dropped sample_sup))) < 0"
    by (simp add: handle_identity_def sample_dropped sample_entry_def is_call_def settle_def set_one_def half_of_def)
      (simp add: dropped_def sample_regs_def id_arg_def arg_def errno_defs)
  then show ?thesis using identity_error_no_effect sample_dropped by fastforce
qed

lemma flat_read_mem:
  "0 < n \<Longrightarrow> \<not> overflows a n \<Longrightarrow> flat_ok a n \<Longrightarrow> read_mem flat_host tid m a n = Inr (map (\<lambda>i. m (a + of_nat i)) [0..<n])"
  by (simp add: read_mem_def flat_host_def flat_read_def)

lemma flat_write_mem:
  "data \<noteq> [] \<Longrightarrow> \<not> overflows a (length data) \<Longrightarrow> flat_ok a (length data) \<Longrightarrow>
     fst (write_mem flat_host tid m a data) = 0"
  by (simp add: write_mem_def flat_host_def flat_write_def)

lemma sample_fields [simp]:
  "hs_mem sample_shost = flat_host" "sv_mem sample_sup = (\<lambda>_. nul)" "sv_mem (put_creds tg c s) = sv_mem s"
  "cr_euid (initial_creds sample_sup) = 0"
  by (simp_all add: sample_shost_def sample_sup_def put_creds_def initial_creds_def)

lemma put_creds_twice [simp]: "put_creds tg c (put_creds tg c' s) = put_creds tg c s"
  by (simp add: put_creds_def)

lemma sample_root: "creds_of sample_shost 7 sample_sup = (7, initial_creds sample_sup, put_creds 7 (initial_creds sample_sup) sample_sup)"
  by (simp add: creds_of_def tgid_of_known sample_sup_defs put_creds_def)

theorem groups_roundtrip_witness:
  "\<exists>b. length b = 4 \<and> stored (flat_view 7 (\<lambda>_. nul)) 0x5000 b \<and>
     stored (flat_view 7 (sv_mem (snd (handle_identity sample_shost 7 (sample_regs [1, 0x6000, 0, 0, 0, 0]) (sample_entry ''getgroups'' H_none)
       (snd (handle_identity sample_shost 7 (sample_regs [1, 0x5000, 0, 0, 0, 0]) (sample_entry ''setgroups'' H_setid) sample_sup)))))) 0x6000 b"
proof -
  let ?set = "handle_identity sample_shost 7 (sample_regs [1, 0x5000, 0, 0, 0, 0]) (sample_entry ''setgroups'' H_setid) sample_sup"
  let ?get = "handle_identity sample_shost 7 (sample_regs [1, 0x6000, 0, 0, 0, 0]) (sample_entry ''getgroups'' H_none) (snd ?set)"
  let ?c = "(initial_creds sample_sup)\<lparr>cr_groups := [0]\<rparr>"
  have args: "int_arg (sample_regs [1, a, 0, 0, 0, 0]) 0 = 1" "arg (sample_regs [1, a, 0, 0, 0, 0]) (Suc 0) = a" for a
    by (simp_all add: int_arg_def arg_def sample_regs_def)
  have "read_mem flat_host 7 (\<lambda>_. nul) 0x5000 4 = Inr (map (\<lambda>i. nul) [0..<4])"
    by (rule flat_read_mem) (simp_all add: overflows_def flat_ok_def upt_rec)
  then have set: "?set = (answer 0, put_creds 7 ?c sample_sup)"
    by (simp add: handle_identity_def sample_root sample_entry_def is_call_def set_groups_def args to32_def upt_rec)
  have own: "creds_of sample_shost 7 (put_creds 7 ?c sample_sup) = (7, ?c, put_creds 7 ?c sample_sup)"
    by (simp add: creds_of_def tgid_of_known sample_sup_defs put_creds_def)
  have "fst (write_mem flat_host 7 (\<lambda>_. nul) 0x6000 (le32 0)) = 0"
    by (rule flat_write_mem) (simp_all add: overflows_def flat_ok_def upt_rec)
  then have "sa_ret (fst (handle_identity sample_shost 7 (sample_regs [1, 0x6000, 0, 0, 0, 0])
      (sample_entry ''getgroups'' H_none) (put_creds 7 ?c sample_sup))) = 1"
    unfolding handle_identity_def own prod.case
    by (auto simp: sample_entry_def is_call_def get_groups_def args Let_def split: prod.split)
  then have "sa_ret (fst ?get) = 1" by (simp only: set snd_conv)
  then show ?thesis
    using groups_roundtrip [of sample_shost flat_view "sample_entry ''setgroups'' H_setid" "sample_entry ''getgroups'' H_none" 7
        "sample_regs [1, 0x5000, 0, 0, 0, 0]" sample_sup "fst ?set" "snd ?set" "sample_regs [1, 0x6000, 0, 0, 0, 0]" "fst ?get" "snd ?get"]
      flat_reads flat_writes args set
    by (simp add: sample_entry_def is_call_def)
qed

end
