(* ===== verification/Translate.thy ===== *)
theory Translate
  imports Identity
begin

text \<open>
  Path translation of the rootless supervisor (first part of
  \<open>src/src/engines/rootless/syscall_handlers.cpp\<close>): the path argument of a system call is read from
  the task, resolved in guest space, checked against read-only mounts and replaced by the host path
  on the task's stack.  Also the queries the supervisor answers itself (\<open>stat\<close>, \<open>readlink\<close>,
  extended attributes) and the presentation of the guest identity in \<open>stat\<close> buffers.
\<close>

section \<open>Constants of the x86\_64 ABI\<close>

definition kAtFdcwd :: int where "kAtFdcwd = - 100"
definition kAtSymlinkNofollow :: "64 word" where "kAtSymlinkNofollow = 0x100"
definition kAtSymlinkFollow :: "64 word" where "kAtSymlinkFollow = 0x400"
definition kAtEmptyPath :: "64 word" where "kAtEmptyPath = 0x1000"
definition kAtNoAutomount :: "64 word" where "kAtNoAutomount = 0x800"
definition kAtStatxSyncType :: "64 word" where "kAtStatxSyncType = 0x6000"
definition kAtEaccess :: "64 word" where "kAtEaccess = 0x200"
definition kStatxReserved :: "64 word" where "kStatxReserved = 0x80000000"
definition kStatUidOff :: nat where "kStatUidOff = 28"
definition kStatxUidOff :: nat where "kStatxUidOff = 20"
definition kStatxNlinkOff :: nat where "kStatxNlinkOff = 16"
definition kStatxInoOff :: nat where "kStatxInoOff = 32"
definition kStatxDevMajorOff :: nat where "kStatxDevMajorOff = 136"
definition kStatxSize :: nat where "kStatxSize = 256"
definition kStatSize :: nat where "kStatSize = 144"
definition kXattrMax :: nat where "kXattrMax = 65536"
definition kDeletedSuffixLen :: nat where "kDeletedSuffixLen = 10"
definition O_ACCMODE :: "64 word" where "O_ACCMODE = 3"
definition O_CREAT :: "64 word" where "O_CREAT = 0x40"
definition O_EXCL :: "64 word" where "O_EXCL = 0x80"
definition O_TRUNC :: "64 word" where "O_TRUNC = 0x200"
definition O_DIRECTORY :: "64 word" where "O_DIRECTORY = 0x10000"
definition O_NOFOLLOW :: "64 word" where "O_NOFOLLOW = 0x20000"
definition O_PATH :: "64 word" where "O_PATH = 0x200000"
definition O_TMPFILE :: "64 word" where "O_TMPFILE = 0x410000"

section \<open>Helpers\<close>

text \<open>Decimal digits with the overflow guard of \<open>proc_exe_owner\<close>; \<open>None\<close> where it gives up.\<close>

fun exe_digits :: "int \<Rightarrow> string \<Rightarrow> int option" where
  "exe_digits n [] = Some n"
| "exe_digits n (c # cs) =
     (if \<not> digit_byte c \<or> n > 400000000 then None else exe_digits (n * 10 + (int (byte c) - 48)) cs)"

definition proc_exe_owner :: "string \<Rightarrow> int \<Rightarrow> int" where
  "proc_exe_owner guest self_tgid =
     (let parts = components guest
      in if length parts < 3 \<or> hd parts \<noteq> ''proc'' \<or> last parts \<noteq> ''exe'' then 0
         else if length parts \<noteq> 3 \<and> \<not> (length parts = 5 \<and> parts ! 2 = ''task'') then 0
         else if parts ! 1 = ''self'' then self_tgid
         else case exe_digits 0 (parts ! 1) of None \<Rightarrow> 0 | Some n \<Rightarrow> n)"

definition early_stat_error :: "bool \<Rightarrow> 64 word \<Rightarrow> 64 word \<Rightarrow> errno" where
  "early_stat_error statx flags msk =
     (let allowed = kAtSymlinkNofollow OR kAtNoAutomount OR kAtEmptyPath OR (if statx then kAtStatxSyncType else 0)
      in if statx \<and> (flags AND kAtStatxSyncType = kAtStatxSyncType \<or> msk AND kStatxReserved \<noteq> 0) then EINVAL
         else if flags AND NOT allowed \<noteq> 0 then EINVAL else 0)"

definition proc_link_kind :: "string \<Rightarrow> string" where
  "proc_link_kind guest =
     concat (map (\<lambda>c. slash # (if c \<noteq> [] \<and> list_all digit_byte c then ''*'' else c)) (components guest))"

definition ends_with_deleted :: "string \<Rightarrow> bool" where
  "ends_with_deleted s \<longleftrightarrow> length s > kDeletedSuffixLen \<and> drop (length s - kDeletedSuffixLen) s = '' (deleted)''"

definition spec :: "nat \<Rightarrow> int \<Rightarrow> bool \<Rightarrow> bool \<Rightarrow> bool \<Rightarrow> path_spec" where
  "spec path_arg dirfd_arg follow erofs_if_exists erofs_if_missing =
     \<lparr>sp_path_arg = path_arg, sp_dirfd_arg = dirfd_arg, sp_follow = follow, sp_erofs_if_exists = erofs_if_exists,
      sp_erofs_if_missing = erofs_if_missing, sp_empty_ok = False, sp_null_ok = False, sp_link_name = False,
      sp_resolve_only = False\<rparr>"

definition open_spec :: "nat \<Rightarrow> int \<Rightarrow> 64 word \<Rightarrow> path_spec" where
  "open_spec path_arg dirfd_arg flags =
     (let creat = (flags AND O_CREAT \<noteq> 0);
          excl = (flags AND O_EXCL \<noteq> 0);
          tmpfile = (flags AND O_TMPFILE = O_TMPFILE)
      in spec path_arg dirfd_arg (flags AND O_NOFOLLOW = 0 \<and> \<not> (creat \<and> excl))
           (flags AND O_ACCMODE \<noteq> 0 \<or> flags AND O_TRUNC \<noteq> 0 \<or> tmpfile) creat)"

definition denial_reason :: "syscall_info \<Rightarrow> string" where
  "denial_reason info =
     (let n = si_name info
      in if n = ''ptrace'' then ''nested ptrace is not supported: the rootless engine is already the tracer''
         else if starts_with n ''io_uring'' then ''io_uring would execute path operations without syscall translation''
         else if n = ''clone3''
         then ''clone3 is refused so the C library falls back to clone(2), whose flags can be checked''
         else if n = ''openat2'' then ''openat2 resolution flags are not translated yet; callers fall back to openat''
         else if n = ''chroot'' then ''chroot is not emulated by the rootless engine''
         else if n = ''unshare'' \<or> n = ''setns'' then ''namespace changes would invalidate path translation''
         else if n \<in> set [''mount'', ''umount2'', ''pivot_root'', ''open_tree'', ''move_mount'', ''fsopen'',
                          ''fsconfig'', ''fsmount'', ''fspick'', ''mount_setattr'']
         then ''mount operations require a rooted or VM backend''
         else if n = ''open_by_handle_at'' \<or> n = ''name_to_handle_at'' then ''file handles bypass path translation''
         else if n = ''pidfd_getfd'' then ''copying descriptors out of other processes is refused''
         else if si_cls info = Cls_unsupported then ''not supported by the rootless engine''
         else ''refused by the rootless syscall policy'')"

section \<open>Resolution for a task\<close>

definition links_visible :: "('m, 'f) sup_host \<Rightarrow> ('m, 'f) supervisor \<Rightarrow> bool \<times> ('m, 'f) supervisor" where
  "links_visible h s =
     (if has_objects (sv_links s) then (True, s)
      else if \<not> sv_links_enabled s then (False, s)
      else case stores_present (hs_link h) (sv_fs s) (sv_mounts s) (sv_links s) of
          (p, ls) \<Rightarrow> (p, s\<lparr>sv_links := ls\<rparr>))"

definition resolve_options_for ::
  "('m, 'f) sup_host \<Rightarrow> int \<Rightarrow> bool \<Rightarrow> ('m, 'f) supervisor \<Rightarrow> resolve_options \<times> ('m, 'f) supervisor" where
  "resolve_options_for h tid follow s =
     (case links_visible h s of
        (vis, s1) \<Rightarrow>
          (let o1 = default_options\<lparr>follow_final := follow, see_through_links := vis\<rparr>
           in if sc_proc (sv_cfg s1) = Proc_host
              then (case tgid_of h tid s1 of
                      (tg, s2) \<Rightarrow> (o1\<lparr>proc_tgid := tg, proc_tid := tr_tid (the_tracee s2 tid)\<rparr>, s2))
              else (o1, s1)))"

text \<open>\<open>vfs::resolve\<close> with the supervisor's table and directory cache.\<close>

definition sup_resolve ::
  "('m, 'f) sup_host \<Rightarrow> string \<Rightarrow> resolve_options \<Rightarrow> ('m, 'f) supervisor \<Rightarrow> (errno + resolved) \<times> ('m, 'f) supervisor" where
  "sup_resolve h full ro s =
     (case resolve (hs_files h (sv_fs s)) (sv_mounts s) full ro (Some (sv_dir_cache s)) of
        (r, c) \<Rightarrow> (r, s\<lparr>sv_dir_cache := (case c of Some c' \<Rightarrow> c' | None \<Rightarrow> sv_dir_cache s)\<rparr>))"

definition report_outside ::
  "('m, 'f) sup_host \<Rightarrow> string \<Rightarrow> string \<Rightarrow> string \<Rightarrow> int \<Rightarrow> ('m, 'f) supervisor \<Rightarrow> ('m, 'f) supervisor" where
  "report_outside h name subject msg tid s =
     (case first_report name subject s of
        (new, s1) \<Rightarrow> if new then emit h EK_diagnostic Sev_warning name msg tid (int EACCES) ''{}'' s1 else s1)"

definition proc_cwd :: "int \<Rightarrow> string" where "proc_cwd tid = ''/proc/'' @ int_string tid @ ''/cwd''"

definition proc_fd :: "int \<Rightarrow> int \<Rightarrow> string" where
  "proc_fd tid fd = ''/proc/'' @ int_string tid @ ''/fd/'' @ int_string fd"

definition guest_cwd :: "('m, 'f) sup_host \<Rightarrow> int \<Rightarrow> ('m, 'f) supervisor \<Rightarrow> (errno + string) \<times> ('m, 'f) supervisor" where
  "guest_cwd h tid s =
     (case read_link (hs_files h (sv_fs s)) (proc_cwd tid) of
        Inl e \<Rightarrow> (Inl ESRCH, s)
      | Inr host \<Rightarrow>
          if ends_with_deleted host then (Inl ENOENT, s)
          else case to_guest (sv_mounts s) host of
              None \<Rightarrow>
                (Inl EACCES, report_outside h ''path.cwd_outside'' host
                   ''guest working directory is outside every session mount; path lookups relative to it are refused'' tid s)
            | Some g \<Rightarrow> (Inr g, s))"

text \<open>The guest path of a descriptor; \<open>None\<close> for a pipe, a socket or an anonymous inode.\<close>

definition guest_fd_path ::
  "('m, 'f) sup_host \<Rightarrow> int \<Rightarrow> int \<Rightarrow> ('m, 'f) supervisor \<Rightarrow> (errno + string option) \<times> ('m, 'f) supervisor" where
  "guest_fd_path h tid fd s =
     (if fd < 0 then (Inl EBADF, s)
      else case read_link (hs_files h (sv_fs s)) (proc_fd tid fd) of
          Inl e \<Rightarrow> (Inl EBADF, s)
        | Inr host \<Rightarrow>
            if host = [] \<or> hd host \<noteq> slash then (Inr None, s)
            else if ends_with_deleted host then (Inl ENOENT, s)
            else case to_guest (sv_mounts s) host of
                None \<Rightarrow>
                  (Inl EACCES, report_outside h ''path.fd_outside'' host
                     (''descriptor '' @ int_string fd @ '' refers to a host path outside the session mounts; refused'') tid s)
              | Some g \<Rightarrow> (Inr (Some g), s))"

section \<open>Translation of a path argument\<close>

definition no_resolved :: resolved where
  "no_resolved = \<lparr>r_guest = [], r_host = [], r_mount = None, r_exists = False, r_is_dir = False,
     r_final_is_symlink = False, r_proc_magic = False, r_link_id = []\<rparr>"

definition no_path :: translated_path where
  "no_path = \<lparr>tp_present = False, tp_r = no_resolved, tp_original = []\<rparr>"

type_synonym ('m, 'f) call_state = "regs \<times> stack_writer \<times> ('m, 'f) supervisor"

definition apply_translation ::
  "('m, 'f) sup_host \<Rightarrow> int \<Rightarrow> path_spec \<Rightarrow> translated_path \<Rightarrow> ('m, 'f) call_state \<Rightarrow> errno \<times> ('m, 'f) call_state" where
  "apply_translation h tid sp tp cs =
     (case cs of (rg, sw, s) \<Rightarrow>
        if \<not> tp_present tp \<or> r_host (tp_r tp) = tp_original tp then (0, rg, sw, s)
        else case sw_push_string X86_64 (hs_mem h) (sv_mem s) sw (r_host (tp_r tp)) of
            (Inl e, sw', m) \<Rightarrow>
              (e, rg, sw',
               if e = ENOMEM
               then emit h EK_diagnostic Sev_warning ''path.scratch_unavailable''
                      ''no writable stack space below the tracee stack pointer for a translated path'' tid (int ENOMEM) ''{}''
                      (s\<lparr>sv_mem := m\<rparr>)
               else s\<lparr>sv_mem := m\<rparr>)
          | (Inr new_addr, sw', m) \<Rightarrow>
              (case rewrite_arg tid (sp_path_arg sp) new_addr (rg, s\<lparr>sv_mem := m\<rparr>) of
                 (rg', s') \<Rightarrow> (0, rg', sw', s')))"

text \<open>The directory a relative path starts from.\<close>

definition path_base ::
  "('m, 'f) sup_host \<Rightarrow> int \<Rightarrow> regs \<Rightarrow> path_spec \<Rightarrow> ('m, 'f) supervisor \<Rightarrow> (errno + string) \<times> ('m, 'f) supervisor" where
  "path_base h tid rg sp s =
     (let dirfd = (if sp_dirfd_arg sp \<ge> 0 then int_arg rg (nat (sp_dirfd_arg sp)) else kAtFdcwd)
      in if dirfd = kAtFdcwd then guest_cwd h tid s
         else case guest_fd_path h tid dirfd s of
             (Inl e, s1) \<Rightarrow> (Inl e, s1)
           | (Inr None, s1) \<Rightarrow> (Inl ENOTDIR, s1)
           | (Inr (Some g), s1) \<Rightarrow> (Inr g, s1))"

definition read_only_refused :: "path_spec \<Rightarrow> resolved \<Rightarrow> bool" where
  "read_only_refused sp r \<longleftrightarrow>
     (case r_mount r of None \<Rightarrow> False | Some m \<Rightarrow> m_read_only m) \<and> \<not> r_proc_magic r \<and>
     ((sp_erofs_if_exists sp \<and> r_exists r) \<or> (sp_erofs_if_missing sp \<and> \<not> r_exists r))"

definition translate_full ::
  "('m, 'f) sup_host \<Rightarrow> int \<Rightarrow> path_spec \<Rightarrow> string \<Rightarrow> string \<Rightarrow> ('m, 'f) call_state \<Rightarrow>
     (errno \<times> translated_path) \<times> ('m, 'f) call_state" where
  "translate_full h tid sp path full cs =
     (case cs of (rg, sw, s) \<Rightarrow>
      case resolve_options_for h tid (sp_follow sp) s of
        (ro, s1) \<Rightarrow>
        case sup_resolve h full (ro\<lparr>see_through_links := see_through_links ro \<and> \<not> sp_link_name sp\<rparr>) s1 of
          (Inl e, s2) \<Rightarrow>
            ((e, no_path), rg, sw,
             if e = EACCES \<and> sc_proc (sv_cfg s2) = Proc_host \<and> is_below full ''/proc''
             then report_outside h ''path.magic_link_denied'' (proc_link_kind full)
                    (''/proc magic link target is outside the session mounts: '' @ full) tid s2
             else s2)
        | (Inr r, s2) \<Rightarrow>
            (let tp = \<lparr>tp_present = True, tp_r = r, tp_original = path\<rparr>
             in if read_only_refused sp r then ((EROFS, tp), rg, sw, s2)
                else if sp_resolve_only sp then ((0, tp), rg, sw, s2)
                else case apply_translation h tid sp tp (rg, sw, s2) of (e, cs') \<Rightarrow> ((e, tp), cs')))"

text \<open>\<open>report_outside\<close> is keyed by the link's kind here, as \<open>first_report\<close> is in the source.\<close>

definition translate_path ::
  "('m, 'f) sup_host \<Rightarrow> int \<Rightarrow> path_spec \<Rightarrow> ('m, 'f) call_state \<Rightarrow> (errno \<times> translated_path) \<times> ('m, 'f) call_state" where
  "translate_path h tid sp cs =
     (case cs of (rg, sw, s) \<Rightarrow>
        (let addr = arg rg (sp_path_arg sp)
         in if addr = 0 then ((if sp_null_ok sp then 0 else EFAULT, no_path), cs)
            else case read_cstring (hs_mem h) tid (sv_mem s) addr kPathMax of
                Inl e \<Rightarrow> ((e, no_path), cs)
              | Inr path \<Rightarrow>
                  if path = [] then ((if sp_empty_ok sp then 0 else ENOENT, no_path), cs)
                  else if is_absolute path then translate_full h tid sp path path cs
                  else case path_base h tid rg sp s of
                      (Inl e, s1) \<Rightarrow> ((e, no_path), rg, sw, s1)
                    | (Inr base, s1) \<Rightarrow> translate_full h tid sp path (join base path) (rg, sw, s1)))"

section \<open>Queries the supervisor answers\<close>

definition host_queryable :: "translated_path \<Rightarrow> bool" where
  "host_queryable tp \<longleftrightarrow>
     tp_present tp \<and> (case r_mount (tp_r tp) of None \<Rightarrow> False | Some m \<Rightarrow> m_kind m \<noteq> Kind_proc) \<and>
     \<not> r_proc_magic (tp_r tp)"

definition sub_bytes :: "nat \<Rightarrow> nat \<Rightarrow> string \<Rightarrow> string" where
  "sub_bytes pos n b = take n (drop pos b)"

definition patch_bytes :: "nat \<Rightarrow> string \<Rightarrow> string \<Rightarrow> string" where
  "patch_bytes pos d b = take pos b @ d @ drop (pos + length d) b"

definition present_ids :: "('m, 'f) supervisor \<Rightarrow> nat \<Rightarrow> string \<Rightarrow> string" where
  "present_ids s pos b =
     (let u = to32 (sub_bytes pos 4 b);
          g = to32 (sub_bytes (pos + 4) 4 b);
          u' = (case sc_uid (sv_cfg s) of Some x \<Rightarrow> if u = sv_host_uid s then of_nat x else u | None \<Rightarrow> u);
          g' = (case sc_gid (sv_cfg s) of Some x \<Rightarrow> if g = sv_host_gid s then of_nat x else g | None \<Rightarrow> g)
      in patch_bytes pos (le32 u' @ le32 g') b)"

definition present_stat :: "('m, 'f) sup_host \<Rightarrow> ('m, 'f) supervisor \<Rightarrow> bool \<Rightarrow> string \<Rightarrow> string" where
  "present_stat h s statx b0 =
     (let b = present_ids s (if statx then kStatxUidOff else kStatUidOff) b0
      in if \<not> has_objects (sv_links s) then b
         else if statx
         then (case count_for (hs_link h) (sv_fs s) (sv_links s) (to32 (sub_bytes kStatxDevMajorOff 4 b))
                      (to32 (sub_bytes (kStatxDevMajorOff + 4) 4 b)) (le_word (sub_bytes kStatxInoOff 8 b)) of
                 None \<Rightarrow> b | Some n \<Rightarrow> patch_bytes kStatxNlinkOff (le32 (of_nat n)) b)
         else (let dev = le_word (sub_bytes 0 8 b)
               in case count_for (hs_link h) (sv_fs s) (sv_links s) (dev_major dev) (dev_minor dev)
                         (le_word (sub_bytes 8 8 b)) of
                    None \<Rightarrow> b | Some n \<Rightarrow> patch_bytes 16 (le_bytes 8 (of_nat n)) b))"

definition host_stat_call ::
  "('m, 'f) sup_host \<Rightarrow> int \<Rightarrow> string \<Rightarrow> 64 word \<Rightarrow> bool \<Rightarrow> 64 word \<Rightarrow> 64 word \<Rightarrow> ('m, 'f) supervisor \<Rightarrow>
     int \<times> ('m, 'f) supervisor" where
  "host_stat_call h tid host buf statx flags msk s =
     (case hs_kstat h statx host (ucast flags) (ucast msk) (sv_fs s) of
        Inl e \<Rightarrow> (- int e, s)
      | Inr d \<Rightarrow>
          (let kbuf = present_stat h s statx (take kStatxSize (d @ replicate kStatxSize nul))
           in case write_mem (hs_mem h) tid (sv_mem s) buf (take (if statx then kStatxSize else kStatSize) kbuf) of
                (e, m) \<Rightarrow> (if e \<noteq> 0 then - int EFAULT else 0, s\<lparr>sv_mem := m\<rparr>)))"

definition host_readlink ::
  "('m, 'f) sup_host \<Rightarrow> int \<Rightarrow> string \<Rightarrow> 64 word \<Rightarrow> 64 word \<Rightarrow> ('m, 'f) supervisor \<Rightarrow> int \<times> ('m, 'f) supervisor" where
  "host_readlink h tid host buf sz s =
     (let want = (if unat sz < kPathMax then unat sz else kPathMax)
      in case readlink (hs_files h (sv_fs s)) host of
           Inl e \<Rightarrow> (- int e, s)
         | Inr t \<Rightarrow>
             (let target = take want t
              in if target = [] then (0, s)
                 else case write_mem (hs_mem h) tid (sv_mem s) buf target of
                     (e, m) \<Rightarrow> (if e \<noteq> 0 then - int EFAULT else int (length target), s\<lparr>sv_mem := m\<rparr>)))"

definition lists_xattrs :: "syscall_info \<Rightarrow> bool" where
  "lists_xattrs info \<longleftrightarrow> is_call info ''listxattr'' \<or> is_call info ''llistxattr''"

definition xattr_name_error :: "errno \<Rightarrow> errno" where
  "xattr_name_error e = (if e = ENAMETOOLONG then ERANGE else e)"

definition host_xattr ::
  "('m, 'f) sup_host \<Rightarrow> int \<Rightarrow> syscall_info \<Rightarrow> string \<Rightarrow> regs \<Rightarrow> ('m, 'f) supervisor \<Rightarrow> int \<times> ('m, 'f) supervisor" where
  "host_xattr h tid info host rg s =
     (let lst = lists_xattrs info;
          follow = (si_handler info = H_xattr_get);
          out = (if lst then arg rg 1 else arg rg 2);
          sz = min (unat (if lst then arg rg 2 else arg rg 3)) kXattrMax;
          name = (if lst then Inr None
                  else case read_cstring (hs_mem h) tid (sv_mem s) (arg rg 1) 256 of
                      Inl e \<Rightarrow> Inl e | Inr n \<Rightarrow> Inr (Some n))
      in case name of
           Inl e \<Rightarrow> (- int (xattr_name_error e), s)
         | Inr nm \<Rightarrow>
             (case hs_xattr h follow host nm sz (sv_fs s) of
                Inl e \<Rightarrow> (- int e, s)
              | Inr (n, data) \<Rightarrow>
                  if sz > 0 \<and> n > 0
                  then (case write_mem (hs_mem h) tid (sv_mem s) out (take n data) of
                          (e, m) \<Rightarrow> (if e \<noteq> 0 then - int EFAULT else int n, s\<lparr>sv_mem := m\<rparr>))
                  else (int n, s)))"

definition handle_fd_meta ::
  "('m, 'f) sup_host \<Rightarrow> int \<Rightarrow> int \<Rightarrow> bool \<Rightarrow> ('m, 'f) supervisor \<Rightarrow> syscall_action \<times> ('m, 'f) supervisor" where
  "handle_fd_meta h tid fd chown s =
     (case guest_fd_path h tid fd s of
        (Inl e, s1) \<Rightarrow> (if e = EBADF then pass else fail_with e, s1)
      | (Inr guest, s1) \<Rightarrow>
          if (case guest of None \<Rightarrow> False
              | Some g \<Rightarrow> (case mount_for_guest (sv_mounts s1) g of None \<Rightarrow> False | Some m \<Rightarrow> m_read_only m))
          then (fail_with EROFS, s1)
          else if chown \<and> sc_uid (sv_cfg s1) = Some 0
          then (case guest_is_root h tid s1 of (root, s2) \<Rightarrow> (if root then answer 0 else pass, s2))
          else (pass, s1))"

end
