(* ===== verification/Load_Request.thy ===== *)
theory Load_Request
  imports Identity
begin

text \<open>
  The request handed to the guest loader: \<open>Supervisor::make_load_request\<close>
  (\<open>src/src/engines/rootless/supervisor.cpp\<close>) writes it, \<open>vhdp_loader_main\<close>
  (\<open>src/src/engines/rootless/loader/loader.c\<close>) checks and reads it.  Both sides share the fixed header
  of \<open>load_request.h\<close>, eight little-endian 32-bit words.
\<close>

definition VHDP_LOAD_MAGIC :: "32 word" where "VHDP_LOAD_MAGIC = 0x4c504856"
definition VHDP_LOAD_VERSION :: "32 word" where "VHDP_LOAD_VERSION = 1"
definition VHDP_LOAD_MAX_SIZE :: nat where "VHDP_LOAD_MAX_SIZE = 16384"
definition load_header_size :: nat where "load_header_size = 32"

record load_header =
  lh_magic :: "32 word"
  lh_version :: "32 word"
  lh_total_size :: "32 word"
  lh_program_off :: "32 word"
  lh_interp_off :: "32 word"
  lh_execfn_off :: "32 word"
  lh_name_off :: "32 word"
  lh_flags :: "32 word"

definition header_bytes :: "load_header \<Rightarrow> string" where
  "header_bytes hd0 = concat (map le32
     [lh_magic hd0, lh_version hd0, lh_total_size hd0, lh_program_off hd0, lh_interp_off hd0,
      lh_execfn_off hd0, lh_name_off hd0, lh_flags hd0])"

section \<open>The supervisor's side\<close>

definition add_string :: "string \<Rightarrow> string \<Rightarrow> 32 word \<times> string" where
  "add_string body s = (of_nat (load_header_size + length body), body @ s @ [nul])"

definition task_name :: "string \<Rightarrow> string" where
  "task_name execfn = (let parts = components execfn in if parts = [] then execfn else last parts)"

definition make_load_request :: "exec_plan \<Rightarrow> string \<Rightarrow> string" where
  "make_load_request ep execfn =
     (case add_string [] (ep_guest_program ep) of (program_off, b1) \<Rightarrow>
      case (if ep_via_loader ep then add_string b1 (ep_guest_loader ep) else (0, b1)) of (interp_off, b2) \<Rightarrow>
      case add_string b2 execfn of (execfn_off, b3) \<Rightarrow>
      case add_string b3 (task_name execfn) of (name_off, b4) \<Rightarrow>
        (let hdr = \<lparr>lh_magic = VHDP_LOAD_MAGIC, lh_version = VHDP_LOAD_VERSION,
                    lh_total_size = of_nat (load_header_size + length b4), lh_program_off = program_off,
                    lh_interp_off = interp_off, lh_execfn_off = execfn_off, lh_name_off = name_off, lh_flags = 0\<rparr>
         in if unat (lh_total_size hdr) > VHDP_LOAD_MAX_SIZE then [] else header_bytes hdr @ b4))"

section \<open>The loader's side\<close>

definition header_word :: "string \<Rightarrow> nat \<Rightarrow> 32 word" where
  "header_word req i = to32 (take 4 (drop (4 * i) req))"

text \<open>\<open>req_str\<close>: the string at an offset, when it ends inside the request.\<close>

definition req_str :: "string \<Rightarrow> 32 word \<Rightarrow> string option" where
  "req_str req pos =
     (if pos = 0 \<or> unat pos < load_header_size \<or> unat pos \<ge> length req then None
      else case find_char nul (drop (unat pos) req) of
          None \<Rightarrow> None
        | Some k \<Rightarrow> Some (take k (drop (unat pos) req)))"

record load_job =
  lj_program :: string
  lj_interp :: "string option"
  lj_execfn :: string
  lj_comm :: string

datatype load_failure = No_request | Malformed_request

definition comm_of :: "string \<Rightarrow> string" where "comm_of name = take 15 name"

definition loader_request :: "string \<Rightarrow> load_failure + load_job" where
  "loader_request req =
     (if length req < load_header_size \<or> length req > VHDP_LOAD_MAX_SIZE \<or>
         header_word req 0 \<noteq> VHDP_LOAD_MAGIC \<or> header_word req 1 \<noteq> VHDP_LOAD_VERSION \<or>
         unat (header_word req 2) \<noteq> length req \<or> header_word req 7 \<noteq> 0
      then Inl No_request
      else case (req_str req (header_word req 3), req_str req (header_word req 5), req_str req (header_word req 6)) of
          (Some program, Some execfn, Some name) \<Rightarrow>
            if header_word req 4 \<noteq> 0
            then (case req_str req (header_word req 4) of
                    None \<Rightarrow> Inl Malformed_request
                  | Some interp \<Rightarrow> Inr \<lparr>lj_program = program, lj_interp = Some interp, lj_execfn = execfn, lj_comm = comm_of name\<rparr>)
            else Inr \<lparr>lj_program = program, lj_interp = None, lj_execfn = execfn, lj_comm = comm_of name\<rparr>
        | _ \<Rightarrow> Inl Malformed_request)"

section \<open>The loader reads what the supervisor wrote\<close>

lemma length_header_bytes [simp]: "length (header_bytes hd0) = 32"
  by (simp add: header_bytes_def)

lemma header_word_bytes:
  "header_word (header_bytes hd0 @ b) 0 = lh_magic hd0" "header_word (header_bytes hd0 @ b) 1 = lh_version hd0"
  "header_word (header_bytes hd0 @ b) 2 = lh_total_size hd0" "header_word (header_bytes hd0 @ b) 3 = lh_program_off hd0"
  "header_word (header_bytes hd0 @ b) 4 = lh_interp_off hd0" "header_word (header_bytes hd0 @ b) 5 = lh_execfn_off hd0"
  "header_word (header_bytes hd0 @ b) 6 = lh_name_off hd0" "header_word (header_bytes hd0 @ b) 7 = lh_flags hd0"
  by (simp_all add: header_word_def header_bytes_def)

lemma unat32_of_nat: "n < 2 ^ 32 \<Longrightarrow> unat (of_nat n :: 32 word) = n"
  by (simp add: unat_of_nat)

lemma req_str_at:
  assumes "length hd0 = load_header_size" and "length (hd0 @ b @ s @ nul # r) \<le> VHDP_LOAD_MAX_SIZE" and "nul \<notin> set s"
  shows "req_str (hd0 @ b @ s @ nul # r) (of_nat (load_header_size + length b)) = Some s"
proof -
  let ?n = "load_header_size + length b"
  have small: "?n < 2 ^ 32" using assms(2) by (simp add: VHDP_LOAD_MAX_SIZE_def load_header_size_def)
  have u: "unat (of_nat ?n :: 32 word) = ?n" by (rule unat32_of_nat [OF small])
  have d: "drop ?n (hd0 @ b @ s @ nul # r) = s @ nul # r" using assms(1) by simp
  have "(of_nat ?n :: 32 word) \<noteq> 0"
  proof
    assume "(of_nat ?n :: 32 word) = 0"
    then have "unat (of_nat ?n :: 32 word) = 0" by simp
    then show False using u by (simp add: load_header_size_def)
  qed
  then show ?thesis
    using find_char_first [OF assms(3), of r] assms(1) unfolding req_str_def u d by simp
qed

lemma components_nul_free: "nul \<notin> set p \<Longrightarrow> c \<in> set (components p) \<Longrightarrow> nul \<notin> set c"
proof -
  have "\<forall>w \<in> set (split_on slash q). set w \<subseteq> set q" for q
    by (induction q) (auto split: list.splits if_splits)
  then show "nul \<notin> set p \<Longrightarrow> c \<in> set (components p) \<Longrightarrow> nul \<notin> set c"
    by (auto simp: components_split)
qed

lemma task_name_nul_free: "nul \<notin> set p \<Longrightarrow> nul \<notin> set (task_name p)"
  using components_nul_free [of p "last (components p)"] by (auto simp: task_name_def Let_def)

lemma task_name_length: "length (task_name p) \<le> length p"
proof -
  have "\<forall>w \<in> set (split_on slash q). length w \<le> length q" for q
    by (induction q) (auto split: list.splits if_splits intro: le_SucI)
  then have "\<forall>c \<in> set (components p). length c \<le> length p" by (auto simp: components_split)
  then show ?thesis by (auto simp: task_name_def Let_def)
qed

definition request_body :: "exec_plan \<Rightarrow> string \<Rightarrow> string" where
  "request_body ep execfn =
     ep_guest_program ep @ nul # (if ep_via_loader ep then ep_guest_loader ep @ [nul] else []) @
     execfn @ nul # task_name execfn @ [nul]"

definition request_header :: "exec_plan \<Rightarrow> string \<Rightarrow> load_header" where
  "request_header ep execfn =
     (let p = load_header_size + length (ep_guest_program ep) + 1;
          q = p + (if ep_via_loader ep then length (ep_guest_loader ep) + 1 else 0)
      in \<lparr>lh_magic = VHDP_LOAD_MAGIC, lh_version = VHDP_LOAD_VERSION,
          lh_total_size = of_nat (load_header_size + length (request_body ep execfn)),
          lh_program_off = of_nat load_header_size, lh_interp_off = (if ep_via_loader ep then of_nat p else 0),
          lh_execfn_off = of_nat q, lh_name_off = of_nat (q + length execfn + 1), lh_flags = 0\<rparr>)"

lemma make_load_request_form:
  "make_load_request ep execfn =
     (if unat (of_nat (load_header_size + length (request_body ep execfn)) :: 32 word) > VHDP_LOAD_MAX_SIZE then []
      else header_bytes (request_header ep execfn) @ request_body ep execfn)"
  by (simp add: make_load_request_def add_string_def request_header_def request_body_def Let_def ac_simps)

text \<open>
  C32: the loader accepts every request the supervisor hands over and finds in it the guest program,
  its interpreter exactly when there is one, the path given to execve and the task name cut to
  fifteen bytes.
\<close>

theorem load_request_roundtrip:
  assumes "make_load_request ep execfn \<noteq> []"
    and "list_all (\<lambda>s. nul \<notin> set s \<and> length s < 2 ^ 28) [ep_guest_program ep, ep_guest_loader ep, execfn]"
  shows "loader_request (make_load_request ep execfn) =
    Inr \<lparr>lj_program = ep_guest_program ep,
         lj_interp = (if ep_via_loader ep then Some (ep_guest_loader ep) else None),
         lj_execfn = execfn, lj_comm = take 15 (task_name execfn)\<rparr>"
proof -
  let ?b = "request_body ep execfn" and ?hd = "request_header ep execfn"
  have len: "length ?b < 2 ^ 31"
    using assms(2) task_name_length [of execfn] by (auto simp: request_body_def)
  then have tot: "unat (of_nat (load_header_size + length ?b) :: 32 word) = load_header_size + length ?b"
    by (intro unat32_of_nat) (simp add: load_header_size_def)
  have req: "make_load_request ep execfn = header_bytes ?hd @ ?b" and fit: "load_header_size + length ?b \<le> VHDP_LOAD_MAX_SIZE"
    using assms(1) unfolding make_load_request_form tot by (auto split: if_splits)
  let ?h = "header_bytes ?hd"
  have hl: "length ?h = load_header_size" by (simp add: load_header_size_def)
  have str: "req_str (?h @ ?b) (of_nat (load_header_size + length pre)) = Some x"
    if "?b = pre @ x @ nul # post" "nul \<notin> set x" for pre x post
    using req_str_at [OF hl, of pre x post] that fit hl by simp
  have p: "req_str (?h @ ?b) (lh_program_off ?hd) = Some (ep_guest_program ep)"
    using str [of "[]" "ep_guest_program ep"] assms(2) by (simp add: request_body_def request_header_def Let_def)
  have e: "req_str (?h @ ?b) (lh_execfn_off ?hd) = Some execfn"
    using str [of "ep_guest_program ep @ nul # (if ep_via_loader ep then ep_guest_loader ep @ [nul] else [])" execfn] assms(2)
    by (simp add: request_body_def request_header_def Let_def ac_simps split: if_splits)
  have n: "req_str (?h @ ?b) (lh_name_off ?hd) = Some (task_name execfn)"
    using str [of "ep_guest_program ep @ nul # (if ep_via_loader ep then ep_guest_loader ep @ [nul] else []) @ execfn @ [nul]" "task_name execfn"]
      task_name_nul_free [of execfn] assms(2)
    by (simp add: request_body_def request_header_def Let_def ac_simps split: if_splits)
  have i: "req_str (?h @ ?b) (lh_interp_off ?hd) = Some (ep_guest_loader ep)" "lh_interp_off ?hd \<noteq> 0" if "ep_via_loader ep"
  proof -
    let ?pre = "ep_guest_program ep @ [nul]"
    show r: "req_str (?h @ ?b) (lh_interp_off ?hd) = Some (ep_guest_loader ep)"
      using str [of ?pre "ep_guest_loader ep"] that assms(2)
      by (simp add: request_body_def request_header_def Let_def ac_simps)
    then show "lh_interp_off ?hd \<noteq> 0" by (auto simp: req_str_def)
  qed
  show ?thesis
    unfolding req loader_request_def header_word_bytes p e n
    using i fit tot hl by (auto simp: request_header_def Let_def comm_of_def)
qed

definition sample_plan_for_load :: exec_plan where
  "sample_plan_for_load = \<lparr>ep_host_exec = ''/data/rootfs/lib/ld.so'', ep_argv = [''sh''], ep_guest_program = ''/bin/sh'',
     ep_guest_loader = ''/lib/ld.so'', ep_program_argv = [''sh''], ep_via_loader = True, ep_loader_argv0 = False,
     ep_shebang_depth = 0\<rparr>"

theorem load_request_roundtrip_witness:
  "loader_request (make_load_request sample_plan_for_load ''/bin/sh'') =
     Inr \<lparr>lj_program = ''/bin/sh'', lj_interp = Some ''/lib/ld.so'', lj_execfn = ''/bin/sh'', lj_comm = take 15 (task_name ''/bin/sh'')\<rparr>"
proof -
  have "length (request_body sample_plan_for_load ''/bin/sh'') < 100"
    using task_name_length [of "''/bin/sh''"] by (simp add: request_body_def sample_plan_for_load_def)
  then have "unat (of_nat (load_header_size + length (request_body sample_plan_for_load ''/bin/sh'')) :: 32 word) \<le> VHDP_LOAD_MAX_SIZE"
    using unat32_of_nat [of "load_header_size + length (request_body sample_plan_for_load ''/bin/sh'')"]
    by (simp only: load_header_size_def VHDP_LOAD_MAX_SIZE_def) simp
  then have "make_load_request sample_plan_for_load ''/bin/sh'' \<noteq> []"
    unfolding make_load_request_form using length_header_bytes by (auto simp del: length_header_bytes) (metis length_header_bytes list.size(3) zero_neq_numeral)
  then show ?thesis using load_request_roundtrip [of sample_plan_for_load "''/bin/sh''"] by (simp add: sample_plan_for_load_def)
qed

end
