(* ===== verification/Handlers.thy ===== *)
theory Handlers
  imports Translate Load_Request
begin

text \<open>
  The handlers of \<open>src/src/engines/rootless/syscall_handlers.cpp\<close> that are not plain path
  translations: signals, socket addresses, messages, program execution and the \<open>/proc\<close> stand-ins.
\<close>

section \<open>Signals\<close>

definition known_task :: "('m, 'f) supervisor \<Rightarrow> int \<Rightarrow> bool" where
  "known_task s p \<longleftrightarrow> p > 0 \<and> sv_tracees s p \<noteq> None"

definition outside_session ::
  "('m, 'f) sup_host \<Rightarrow> int \<Rightarrow> syscall_info \<Rightarrow> int \<Rightarrow> ('m, 'f) supervisor \<Rightarrow> syscall_action \<times> ('m, 'f) supervisor" where
  "outside_session h tid info p s =
     deny h tid (Some info) (si_nr info) ESRCH ''signal.outside_session''
       (''target '' @ int_string p @ '' is not a process of this session'') Sev_debug s"

text \<open>\<open>kill(-1, sig)\<close>: every other process of the session, at its thread group leader.\<close>

fun kill_others ::
  "('m, 'f) sup_host \<Rightarrow> int \<Rightarrow> int \<Rightarrow> int list \<Rightarrow> bool \<Rightarrow> ('m, 'f) supervisor \<Rightarrow> bool \<times> ('m, 'f) supervisor" where
  "kill_others h self sig [] sent s = (sent, s)"
| "kill_others h self sig (tid # tids) sent s =
     (case tgid_of h tid s of
        (tg, s1) \<Rightarrow>
          if tg = self \<or> tg \<noteq> tid then kill_others h self sig tids sent s1
          else if sig = 0 then kill_others h self sig tids True s1
          else case hs_kill h tg sig (sv_fs s1) of
              (e, fs) \<Rightarrow> kill_others h self sig tids (sent \<or> e = 0) (s1\<lparr>sv_fs := fs\<rparr>))"

definition handle_signal_target ::
  "('m, 'f) sup_host \<Rightarrow> int \<Rightarrow> syscall_info \<Rightarrow> regs \<Rightarrow> ('m, 'f) supervisor \<Rightarrow> syscall_action \<times> ('m, 'f) supervisor" where
  "handle_signal_target h tid info rg s =
     (let target = (\<lambda>p. if known_task s p then (pass, s) else outside_session h tid info p s)
      in if si_handler info = H_kill
         then (let pid = int_arg rg 0; sig = int_arg rg 1
               in if pid > 0 then target pid
                  else if pid = 0 then (pass, s)
                  else if pid = - 1
                  then (case tgid_of h tid s of
                          (self, s1) \<Rightarrow>
                          case kill_others h self sig (sv_tids s1) False s1 of
                            (sent, s2) \<Rightarrow> (if sent then answer 0 else fail_with ESRCH, s2))
                  else if list_ex (\<lambda>p. hs_getpgid h (sv_fs s) p = - pid) (sv_tids s) then (pass, s)
                  else outside_session h tid info pid s)
         else if si_handler info = H_tkill \<or> si_handler info = H_sigqueue \<or> si_handler info = H_pidfd_open
         then target (int_arg rg 0)
         else if si_handler info = H_tgkill \<or> si_handler info = H_tgsigqueue then target (int_arg rg 1)
         else (pass, s))"

section \<open>Socket addresses\<close>

definition sun_path_off :: nat where "sun_path_off = 2"
definition sockaddr_un_size :: nat where "sockaddr_un_size = 110"
definition sun_path_size :: nat where "sun_path_size = 108"

definition sun_bytes :: "string \<Rightarrow> string" where
  "sun_bytes host = [CHR 0x01, nul] @ host @ [nul]"

definition c_string :: "string \<Rightarrow> string" where
  "c_string b = takeWhile (\<lambda>c. c \<noteq> nul) b"

text \<open>
  The common part of \<open>handle_sockaddr\<close> and \<open>handle_sendmsg\<close>: resolving the path of an \<open>AF_UNIX\<close>
  address.  \<open>Inr None\<close>: the address can stay; \<open>Inr (Some host)\<close>: it is to be replaced.
\<close>

definition socket_path ::
  "('m, 'f) sup_host \<Rightarrow> int \<Rightarrow> string \<Rightarrow> bool \<Rightarrow> ('m, 'f) supervisor \<Rightarrow>
     (syscall_action + string option) \<times> ('m, 'f) supervisor" where
  "socket_path h tid path is_bind s =
     (case (if is_absolute path then (Inr path, s)
            else case guest_cwd h tid s of
                (Inl e, s1) \<Rightarrow> (Inl e, s1)
              | (Inr cwd, s1) \<Rightarrow> (Inr (join cwd path), s1)) of
        (Inl e, s1) \<Rightarrow> (Inl (fail_with e), s1)
      | (Inr full, s1) \<Rightarrow>
          (case resolve_options_for h tid (\<not> is_bind) s1 of
             (ro, s2) \<Rightarrow>
             case sup_resolve h full ro s2 of
               (Inl e, s3) \<Rightarrow> (Inl (fail_with e), s3)
             | (Inr r, s3) \<Rightarrow>
                 if is_bind \<and> \<not> r_exists r \<and> (case r_mount r of None \<Rightarrow> False | Some m \<Rightarrow> m_read_only m)
                 then (Inl (fail_with EROFS), s3)
                 else if r_host r = path then (Inr None, s3)
                 else if length (r_host r) + 1 > sun_path_size
                 then (let nr = ps_nr (pending_of s3 tid)
                       in case deny h tid (lookup_syscall (hs_table h) nr) nr ENAMETOOLONG ''unix_socket.path_too_long''
                                 (''translated AF_UNIX path exceeds 107 bytes: '' @ r_host r) Sev_warning s3 of
                            (act, s4) \<Rightarrow> (Inl act, s4))
                 else (Inr (Some (r_host r)), s3)))"

definition handle_sockaddr ::
  "('m, 'f) sup_host \<Rightarrow> int \<Rightarrow> nat \<Rightarrow> nat \<Rightarrow> bool \<Rightarrow> regs \<times> ('m, 'f) supervisor \<Rightarrow>
     syscall_action \<times> regs \<times> ('m, 'f) supervisor" where
  "handle_sockaddr h tid addr_arg len_arg is_bind rs =
     (case rs of (rg, s) \<Rightarrow>
        (let addr = arg rg addr_arg;
             len = unat (arg rg len_arg AND 0xffffffff)
         in if addr = 0 \<or> len \<le> sun_path_off \<or> len > sockaddr_un_size then (pass, rg, s)
            else case read_mem (hs_mem h) tid (sv_mem s) addr len of
                Inl e \<Rightarrow> (pass, rg, s)
              | Inr b \<Rightarrow>
                  if take 2 b \<noteq> [CHR 0x01, nul] \<or> b ! 2 = nul then (pass, rg, s)
                  else case socket_path h tid (c_string (drop 2 b)) is_bind s of
                      (Inl act, s1) \<Rightarrow> (act, rg, s1)
                    | (Inr None, s1) \<Rightarrow> (pass, rg, s1)
                    | (Inr (Some host), s1) \<Rightarrow>
                        (case sw_push X86_64 (hs_mem h) (sv_mem s1) (stack_writer_new X86_64 tid (rg_sp rg)) (sun_bytes host) of
                           (Inl e, sw, m) \<Rightarrow> (fail_with e, rg, s1\<lparr>sv_mem := m\<rparr>)
                         | (Inr new_addr, sw, m) \<Rightarrow>
                             (pass, rewrite_arg tid len_arg (of_nat (length (sun_bytes host)))
                                      (rewrite_arg tid addr_arg new_addr (rg, s1\<lparr>sv_mem := m\<rparr>))))))"

definition kMsghdrSize :: nat where "kMsghdrSize = 56"
definition kMmsghdrSize :: nat where "kMmsghdrSize = 64"

definition unix_pathname :: "('m, 'f) sup_host \<Rightarrow> int \<Rightarrow> ('m, 'f) supervisor \<Rightarrow> 64 word \<Rightarrow> 32 word \<Rightarrow> bool" where
  "unix_pathname h tid s name namelen \<longleftrightarrow>
     \<not> (name = 0 \<or> unat namelen \<le> sun_path_off) \<and>
     (case read_mem (hs_mem h) tid (sv_mem s) name 3 of
        Inl e \<Rightarrow> False
      | Inr hd3 \<Rightarrow> take 2 hd3 = [CHR 0x01, nul] \<and> hd3 ! 2 \<noteq> nul)"

text \<open>The headers of \<open>sendmmsg\<close>, at most \<open>n\<close> of them from index \<open>i\<close>: whether one names a path.\<close>

fun scan_mmsg ::
  "('m, 'f) sup_host \<Rightarrow> int \<Rightarrow> ('m, 'f) supervisor \<Rightarrow> 64 word \<Rightarrow> nat \<Rightarrow> nat \<Rightarrow> bool" where
  "scan_mmsg h tid s vec i 0 = False"
| "scan_mmsg h tid s vec i (Suc n) =
     (case read_mem (hs_mem h) tid (sv_mem s) (vec + of_nat (i * kMmsghdrSize)) 16 of
        Inl e \<Rightarrow> False
      | Inr hdr \<Rightarrow>
          unix_pathname h tid s (le_word (take 8 hdr)) (to32 (take 4 (drop 8 hdr))) \<or>
          scan_mmsg h tid s vec (Suc i) n)"

definition handle_sendmsg ::
  "('m, 'f) sup_host \<Rightarrow> int \<Rightarrow> bool \<Rightarrow> regs \<times> ('m, 'f) supervisor \<Rightarrow> syscall_action \<times> regs \<times> ('m, 'f) supervisor" where
  "handle_sendmsg h tid multiple rs =
     (case rs of (rg, s) \<Rightarrow>
        if multiple
        then (let vlen = min (unat (arg rg 2 AND 0xffffffff)) 1024;
                  nr = ps_nr (pending_of s tid)
              in if scan_mmsg h tid s (arg rg 1) 0 vlen
                 then (case deny h tid (lookup_syscall (hs_table h) nr) nr EOPNOTSUPP ''unix_socket.sendmmsg''
                              ''sendmmsg to AF_UNIX pathname addresses is not translated'' Sev_warning s of
                         (act, s1) \<Rightarrow> (act, rg, s1))
                 else (pass, rg, s))
        else if arg rg 1 = 0 then (pass, rg, s)
        else case read_mem (hs_mem h) tid (sv_mem s) (arg rg 1) kMsghdrSize of
            Inl e \<Rightarrow> (pass, rg, s)
          | Inr msg \<Rightarrow>
              (let name = le_word (take 8 msg); namelen = to32 (take 4 (drop 8 msg))
               in if \<not> unix_pathname h tid s name namelen \<or> unat namelen > sockaddr_un_size then (pass, rg, s)
                  else case read_mem (hs_mem h) tid (sv_mem s) name (unat namelen) of
                      Inl e \<Rightarrow> (pass, rg, s)
                    | Inr b \<Rightarrow>
                        (case socket_path h tid (c_string (drop 2 b)) False s of
                           (Inl act, s1) \<Rightarrow> (act, rg, s1)
                         | (Inr None, s1) \<Rightarrow> (pass, rg, s1)
                         | (Inr (Some host), s1) \<Rightarrow>
                             (case sw_push X86_64 (hs_mem h) (sv_mem s1) (stack_writer_new X86_64 tid (rg_sp rg)) (sun_bytes host) of
                                (Inl e, sw, m) \<Rightarrow> (fail_with e, rg, s1\<lparr>sv_mem := m\<rparr>)
                              | (Inr new_name, sw, m) \<Rightarrow>
                                  (case sw_push X86_64 (hs_mem h) m sw
                                          (patch_bytes 8 (le32 (of_nat (length (sun_bytes host)))) (patch_bytes 0 (le_bytes 8 new_name) msg)) of
                                     (Inl e, sw', m') \<Rightarrow> (fail_with e, rg, s1\<lparr>sv_mem := m'\<rparr>)
                                   | (Inr new_msg, sw', m') \<Rightarrow>
                                       (pass, rewrite_arg tid 1 new_msg (rg, s1\<lparr>sv_mem := m'\<rparr>)))))))"

section \<open>Program execution\<close>

definition kMaxExecArgs :: nat where "kMaxExecArgs = 4096"
definition kMaxArgStrlen :: nat where "kMaxArgStrlen = 131072"
definition kMaxExecBytes :: nat where "kMaxExecBytes = 512 * 1024"

text \<open>The guest path an exec call names.  \<open>cwd\<close> is the working directory or the error of reading it.\<close>

definition exec_guest_path ::
  "('m, 'f) sup_host \<Rightarrow> int \<Rightarrow> regs \<Rightarrow> bool \<Rightarrow> string \<Rightarrow> (errno + string) \<Rightarrow> syscall_info option \<Rightarrow>
     ('m, 'f) supervisor \<Rightarrow> (syscall_action + string) \<times> ('m, 'f) supervisor" where
  "exec_guest_path h tid rg at_variant path cwd info s =
     (let flags = (if at_variant then arg rg 4 else 0)
      in if at_variant \<and> path = []
         then (if flags AND kAtEmptyPath = 0 then (Inl (fail_with ENOENT), s)
               else case guest_fd_path h tid (int_arg rg 0) s of
                   (Inl e, s1) \<Rightarrow> (Inl (fail_with e), s1)
                 | (Inr None, s1) \<Rightarrow>
                     (case deny h tid info (ps_nr (pending_of s1 tid)) EACCES ''exec.fd_not_path''
                             ''executing a descriptor that is not a filesystem path (e.g. memfd) is not supported'' Sev_warning s1 of
                        (act, s2) \<Rightarrow> (Inl act, s2))
                 | (Inr (Some g), s1) \<Rightarrow> (Inr g, s1))
         else if path = [] then (Inl (fail_with ENOENT), s)
         else if is_absolute path then (Inr path, s)
         else if at_variant \<and> int_arg rg 0 \<noteq> kAtFdcwd
         then (case guest_fd_path h tid (int_arg rg 0) s of
                 (Inl e, s1) \<Rightarrow> (Inl (fail_with e), s1)
               | (Inr None, s1) \<Rightarrow> (Inl (fail_with ENOTDIR), s1)
               | (Inr (Some g), s1) \<Rightarrow> (Inr (join g path), s1))
         else case cwd of
             Inl e \<Rightarrow> (Inl (fail_with e), s)
           | Inr d \<Rightarrow> (Inr (join d path), s))"

definition exec_nofollow ::
  "('m, 'f) sup_host \<Rightarrow> int \<Rightarrow> regs \<Rightarrow> bool \<Rightarrow> string \<Rightarrow> ('m, 'f) supervisor \<Rightarrow> syscall_action option \<times> ('m, 'f) supervisor" where
  "exec_nofollow h tid rg at_variant guest_path s =
     (if at_variant \<and> arg rg 4 AND kAtSymlinkNofollow \<noteq> 0
      then (case resolve_options_for h tid False s of
              (ro, s1) \<Rightarrow>
              case sup_resolve h guest_path ro s1 of
                (Inl e, s2) \<Rightarrow> (Some (fail_with e), s2)
              | (Inr r, s2) \<Rightarrow> (if r_final_is_symlink r then Some (fail_with ELOOP) else None, s2))
      else (None, s))"

text \<open>
  The argument vector: at most \<open>n\<close> more pointers from index \<open>i\<close>, \<open>tot\<close> bytes so far.  The third
  outcome, too many bytes, is reported by the caller.
\<close>

datatype argv_result = Argv "string list" | Argv_error errno | Argv_too_large

fun read_argv ::
  "('m, 'f) sup_host \<Rightarrow> int \<Rightarrow> ('m, 'f) supervisor \<Rightarrow> 64 word \<Rightarrow> nat \<Rightarrow> nat \<Rightarrow> nat \<Rightarrow> string list \<Rightarrow> argv_result" where
  "read_argv h tid s argvp i 0 tot acc = Argv_error E2BIG"
| "read_argv h tid s argvp i (Suc n) tot acc =
     (case read_mem (hs_mem h) tid (sv_mem s) (argvp + of_nat (i * 8)) 8 of
        Inl e \<Rightarrow> Argv_error EFAULT
      | Inr b \<Rightarrow>
          (let ptr = le_word b
           in if ptr = 0 then Argv acc
              else case read_cstring (hs_mem h) tid (sv_mem s) ptr kMaxArgStrlen of
                  Inl e \<Rightarrow> Argv_error (if e = ENAMETOOLONG then E2BIG else e)
                | Inr str \<Rightarrow>
                    (let tot' = tot + length str + 1
                     in if tot' > kMaxExecBytes then Argv_too_large
                        else read_argv h tid s argvp (Suc i) n tot' (acc @ [str]))))"

definition exec_argv :: "('m, 'f) sup_host \<Rightarrow> int \<Rightarrow> 64 word \<Rightarrow> ('m, 'f) supervisor \<Rightarrow> argv_result" where
  "exec_argv h tid argvp s = (if argvp = 0 then Argv [] else read_argv h tid s argvp 0 kMaxExecArgs 0 [])"

text \<open>The plan, with the argument vector and the file the kernel is to execute in loader mode.\<close>

definition exec_plan_for ::
  "('m, 'f) sup_host \<Rightarrow> int \<Rightarrow> string \<Rightarrow> string list \<Rightarrow> string \<Rightarrow> ('m, 'f) supervisor \<Rightarrow>
     (syscall_action + exec_plan \<times> string) \<times> ('m, 'f) supervisor" where
  "exec_plan_for h tid guest_path argv cwd s =
     (case resolve_options_for h tid True s of
        (ro, s1) \<Rightarrow>
        case plan (hs_exec h (sv_fs s1)) (sv_mounts s1) guest_path argv cwd ro (sv_argv0_cache s1) of
          (Inl (e, diag), c) \<Rightarrow>
            (let s2 = s1\<lparr>sv_argv0_cache := c\<rparr>
             in (Inl (fail_with e),
                 case diag of
                   None \<Rightarrow> s2
                 | Some (nm, msg) \<Rightarrow> if nm \<noteq> [] then emit h EK_diagnostic Sev_warning nm msg tid (int e) ''{}'' s2 else s2))
        | (Inr p0, c) \<Rightarrow>
            (let s2 = s1\<lparr>sv_argv0_cache := c\<rparr>;
                 p = (if ep_argv p0 = [] then p0\<lparr>ep_argv := [ep_guest_program p0]\<rparr> else p0)
             in if loader_mode s2
                then (let request = make_load_request p guest_path
                      in if request = [] then (Inl (fail_with ENAMETOOLONG), s2)
                         else (Inr (p\<lparr>ep_host_exec := so_loader_path (sv_opts s2),
                                      ep_argv := (if ep_program_argv p \<noteq> [] then ep_program_argv p else ep_argv p)\<rparr>,
                                    request), s2))
                else (Inr (p, []), s2)))"

definition no_scratch_msg :: string where
  "no_scratch_msg = ''no stack space below the tracee stack pointer for the translated argument vector''"

definition exec_trace_detail :: "exec_plan \<Rightarrow> string" where
  "exec_trace_detail p =
     jw_out (end_object (value_int64 (int (ep_shebang_depth p)) (write_key ''shebang_depth''
       (value_string (ep_guest_loader p) (write_key ''loader'' (value_bool (ep_via_loader p) (write_key ''via_loader''
       (value_string (ep_guest_program p) (write_key ''program'' (begin_object new_writer))))))))))"

text \<open>The strings, the path and the pointer array are pushed, then the argument registers rewritten.\<close>

definition exec_commit ::
  "('m, 'f) sup_host \<Rightarrow> int \<Rightarrow> bool \<Rightarrow> syscall_info option \<Rightarrow> exec_plan \<Rightarrow> string \<Rightarrow> regs \<times> ('m, 'f) supervisor \<Rightarrow>
     syscall_action \<times> regs \<times> ('m, 'f) supervisor" where
  "exec_commit h tid at_variant info p request rs =
     (case rs of (rg, s) \<Rightarrow>
        (let refuse = (\<lambda>s'. case deny h tid info (ps_nr (pending_of s' tid)) ENOMEM ''exec.scratch_unavailable'' no_scratch_msg Sev_warning s' of
               (act, s'') \<Rightarrow> (act, rg, s''))
         in case push_strings X86_64 (hs_mem h) (sv_mem s) (stack_writer_new X86_64 tid (rg_sp rg)) (ep_argv p) of
              (Inl e, sw, m) \<Rightarrow> refuse (s\<lparr>sv_mem := m\<rparr>)
            | (Inr ptrs, sw, m) \<Rightarrow>
                (case sw_push_string X86_64 (hs_mem h) m sw (ep_host_exec p) of
                   (Inl e, sw1, m1) \<Rightarrow> refuse (s\<lparr>sv_mem := m1\<rparr>)
                 | (Inr exec_addr, sw1, m1) \<Rightarrow>
                     (case sw_push X86_64 (hs_mem h) m1 sw1 (concat (map (le_bytes 8) (ptrs @ [0]))) of
                        (Inl e, sw2, m2) \<Rightarrow> refuse (s\<lparr>sv_mem := m2\<rparr>)
                      | (Inr argv_addr, sw2, m2) \<Rightarrow>
                          (let rs1 = (rg, s\<lparr>sv_mem := m2\<rparr>);
                               rs2 = (if at_variant
                                      then rewrite_arg tid 4 0 (rewrite_arg tid 2 argv_addr (rewrite_arg tid 1 exec_addr
                                             (rewrite_arg tid 0 (word_of_int kAtFdcwd) rs1)))
                                      else rewrite_arg tid 1 argv_addr (rewrite_arg tid 0 exec_addr rs1));
                               s3 = emit h EK_trace Sev_debug ''exec.translated'' (''execve '' @ ep_guest_program p) tid 0
                                      (exec_trace_detail p) (snd rs2);
                               s4 = (if loader_mode s3
                                     then put_tracee tid ((the_tracee s3 tid)\<lparr>tr_load_request := request, tr_load_exe := ep_guest_program p\<rparr>) s3
                                     else s3)
                           in (pass, fst rs2, s4))))))"

definition handle_exec ::
  "('m, 'f) sup_host \<Rightarrow> int \<Rightarrow> bool \<Rightarrow> regs \<times> ('m, 'f) supervisor \<Rightarrow> syscall_action \<times> regs \<times> ('m, 'f) supervisor" where
  "handle_exec h tid at_variant rs =
     (case rs of (rg, s) \<Rightarrow>
        (let info = lookup_syscall (hs_table h) (ps_nr (pending_of s tid))
         in case read_cstring (hs_mem h) tid (sv_mem s) (arg rg (if at_variant then 1 else 0)) kPathMax of
              Inl e \<Rightarrow> (fail_with e, rg, s)
            | Inr path \<Rightarrow>
              (case guest_cwd h tid s of
                 (cwd, s1) \<Rightarrow>
                 case exec_guest_path h tid rg at_variant path cwd info s1 of
                   (Inl act, s2) \<Rightarrow> (act, rg, s2)
                 | (Inr guest_path, s2) \<Rightarrow>
                   (case exec_nofollow h tid rg at_variant guest_path s2 of
                      (Some act, s3) \<Rightarrow> (act, rg, s3)
                    | (None, s3) \<Rightarrow>
                      (case exec_argv h tid (arg rg (if at_variant then 2 else 1)) s3 of
                         Argv_error e \<Rightarrow> (fail_with e, rg, s3)
                       | Argv_too_large \<Rightarrow>
                           (case deny h tid info (ps_nr (pending_of s3 tid)) E2BIG ''exec.args_too_large''
                                   ''argument vector larger than the translation scratch limit (512 KiB)'' Sev_warning s3 of
                              (act, s4) \<Rightarrow> (act, rg, s4))
                       | Argv argv \<Rightarrow>
                           (case exec_plan_for h tid guest_path argv (case cwd of Inl e \<Rightarrow> ''/'' | Inr d \<Rightarrow> d) s3 of
                              (Inl act, s4) \<Rightarrow> (act, rg, s4)
                            | (Inr (p, request), s4) \<Rightarrow> exec_commit h tid at_variant info p request (rg, s4)))))))"

section \<open>Stand-ins for \<open>/proc\<close> files\<close>

definition small_number :: "string \<Rightarrow> int" where
  "small_number t = (if t = [] \<or> length t > 9 \<or> \<not> list_all digit_byte t then 0 else to_int32 (fst (strtol t)))"

definition is_status_path :: "string list \<Rightarrow> bool" where
  "is_status_path parts \<longleftrightarrow>
     (length parts = 2 \<and> parts ! 1 = ''status'') \<or>
     (length parts = 4 \<and> parts ! 1 = ''task'' \<and> parts ! 3 = ''status'')"

definition status_ids_of :: "creds \<Rightarrow> status_ids" where
  "status_ids_of c = \<lparr>sid_uid = [cr_ruid c, cr_euid c, cr_suid c, cr_fsuid c],
     sid_gid = [cr_rgid c, cr_egid c, cr_sgid c, cr_fsgid c], sid_groups = cr_groups c\<rparr>"

text \<open>The content to show instead of a \<open>/proc\<close> file, if there is one.\<close>

definition stand_in_content ::
  "('m, 'f) sup_host \<Rightarrow> translated_path \<Rightarrow> string \<Rightarrow> ('m, 'f) supervisor \<Rightarrow> string option \<times> ('m, 'f) supervisor" where
  "stand_in_content h tp rel s =
     (let parts = components rel
      in if is_status_path parts
         then (let tg = small_number (parts ! 0)
               in if \<not> has_identity s \<or> tg \<le> 0 \<or> sv_tracees s tg = None then (None, s)
                  else case hs_read h (sv_fs s) (r_host (tp_r tp)) of
                      Inl e \<Rightarrow> (None, s)
                    | Inr real \<Rightarrow>
                        (case creds_of h tg s of
                           (g, c, s1) \<Rightarrow> (Some (rewrite_status_ids real (status_ids_of c)), s1)))
         else if \<not> has_proc_stand_in rel then (None, s)
         else (let forced = (hs_env h ''VHDP_PROC_STAND_IN'' = Some ''always'');
                   acc = hs_faccessat h (r_host (tp_r tp)) 4 (sv_fs s)
               in if \<not> forced \<and> (acc = 0 \<or> acc \<noteq> EACCES) then (None, s)
                  else (synth_proc_global (hs_proc h (sv_fs s)) rel (sv_last_pid s), s)))"

definition scratch_template :: "('m, 'f) sup_host \<Rightarrow> string" where
  "scratch_template h =
     (case hs_env h ''TMPDIR'' of
        None \<Rightarrow> ''/tmp'' | Some t \<Rightarrow> if t \<noteq> [] \<and> hd t = slash then t else ''/tmp'') @ ''/.vhdp-proc.XXXXXX''"

definition ensure_scratch :: "('m, 'f) sup_host \<Rightarrow> ('m, 'f) supervisor \<Rightarrow> bool \<times> ('m, 'f) supervisor" where
  "ensure_scratch h s =
     (if sv_proc_scratch s \<noteq> [] then (True, s)
      else case hs_mkdtemp h (scratch_template h) (sv_fs s) of
          (None, fs) \<Rightarrow> (False, s\<lparr>sv_fs := fs\<rparr>)
        | (Some d, fs) \<Rightarrow> (True, s\<lparr>sv_fs := fs, sv_proc_scratch := d\<rparr>))"

definition proc_stand_in ::
  "('m, 'f) sup_host \<Rightarrow> translated_path \<Rightarrow> ('m, 'f) supervisor \<Rightarrow> string option \<times> ('m, 'f) supervisor" where
  "proc_stand_in h tp s =
     (let rel = suffix_after (r_guest (tp_r tp)) (case r_mount (tp_r tp) of Some m \<Rightarrow> m_guest m | None \<Rightarrow> [])
      in if rel = [] \<or> hd rel \<noteq> slash then (None, s)
         else case stand_in_content h tp (tl rel) s of
             (None, s1) \<Rightarrow> (None, s1)
           | (Some content, s1) \<Rightarrow>
               (case ensure_scratch h s1 of
                  (False, s2) \<Rightarrow> (None, s2)
                | (True, s2) \<Rightarrow>
                    (let path = sv_proc_scratch s2 @ slash # dec_string (Suc (sv_proc_seq s2));
                         s3 = s2\<lparr>sv_proc_seq := Suc (sv_proc_seq s2)\<rparr>
                     in case hs_create h path content (sv_fs s3) of
                          (ok, fs) \<Rightarrow> (if ok then Some path else None, s3\<lparr>sv_fs := fs\<rparr>))))"

end
