(* ===== verification/Dispatch.thy ===== *)
theory Dispatch
  imports Handlers
begin

text \<open>
  \<open>Supervisor::dispatch\<close> (\<open>src/src/engines/rootless/syscall_handlers.cpp\<close>).  The lambdas of the
  source are definitions over the call state: the registers, the stack writer and the supervisor.
\<close>

definition kCloneUntraced64 :: "64 word" where "kCloneUntraced64 = 0x00800000"
definition kInDontFollow :: "64 word" where "kInDontFollow = 0x02000000"
definition kFanMarkDontFollow :: "64 word" where "kFanMarkDontFollow = 0x4"
definition kAtRemoveDir :: "64 word" where "kAtRemoveDir = 0x200"
definition kSeccompModeFilter :: "64 word" where "kSeccompModeFilter = 2"
definition kSeccompSetModeFilter :: "64 word" where "kSeccompSetModeFilter = 1"
definition PR_SET_SECCOMP :: "64 word" where "PR_SET_SECCOMP = 22"
definition kRenameNoReplace :: "64 word" where "kRenameNoReplace = 1"
definition kRenameExchange :: "64 word" where "kRenameExchange = 2"
definition W_OK :: "64 word" where "W_OK = 2"
definition AF_NETLINK :: int where "AF_NETLINK = 16"
definition NETLINK_AUDIT :: int where "NETLINK_AUDIT = 9"

type_synonym ('m, 'f) handled = "syscall_action \<times> ('m, 'f) call_state"

definition run_spec :: "('m, 'f) sup_host \<Rightarrow> int \<Rightarrow> path_spec \<Rightarrow> ('m, 'f) call_state \<Rightarrow> translated_path \<times> ('m, 'f) handled" where
  "run_spec h tid sp cs =
     (case translate_path h tid sp cs of
        ((e, tp), cs') \<Rightarrow> if e \<noteq> 0 then (no_path, fail_with e, cs') else (tp, pass, cs'))"

definition stat_fixup :: "int \<Rightarrow> 64 word \<Rightarrow> fixup \<Rightarrow> ('m, 'f) supervisor \<Rightarrow> ('m, 'f) supervisor" where
  "stat_fixup tid buf kind s =
     (if has_identity s \<or> has_objects (sv_links s)
      then set_pending tid ((pending_of s tid)\<lparr>ps_active := True, ps_fixup := kind, ps_buf := buf\<rparr>) s else s)"

text \<open>A read-only query: the flag says that the supervisor answers it, or has refused it.\<close>

definition resolve_query ::
  "('m, 'f) sup_host \<Rightarrow> int \<Rightarrow> path_spec \<Rightarrow> ('m, 'f) call_state \<Rightarrow> bool \<times> translated_path \<times> ('m, 'f) handled" where
  "resolve_query h tid sp cs =
     (case translate_path h tid (sp\<lparr>sp_resolve_only := True\<rparr>) cs of
        ((e, tp), cs1) \<Rightarrow>
          if e \<noteq> 0 then (True, tp, fail_with e, cs1)
          else if host_queryable tp then (True, tp, pass, cs1)
          else case apply_translation h tid (sp\<lparr>sp_resolve_only := False\<rparr>) tp cs1 of
              (e2, cs2) \<Rightarrow> if e2 \<noteq> 0 then (True, tp, fail_with e2, cs2) else (False, tp, pass, cs2))"

definition on_sup :: "(('m, 'f) supervisor \<Rightarrow> ('m, 'f) supervisor) \<Rightarrow> ('m, 'f) call_state \<Rightarrow> ('m, 'f) call_state" where
  "on_sup f cs = (case cs of (rg, sw, s) \<Rightarrow> (rg, sw, f s))"

definition answered :: "int \<times> ('m, 'f) supervisor \<Rightarrow> ('m, 'f) call_state \<Rightarrow> ('m, 'f) handled" where
  "answered r cs = (case cs of (rg, sw, s) \<Rightarrow> (answer (fst r), rg, sw, snd r))"

definition note_link :: "('m, 'f) sup_host \<Rightarrow> translated_path \<Rightarrow> ('m, 'f) supervisor \<Rightarrow> ('m, 'f) supervisor" where
  "note_link h tp s =
     (case r_mount (tp_r tp) of
        None \<Rightarrow> s
      | Some m \<Rightarrow>
          if tp_present tp \<and> r_link_id (tp_r tp) \<noteq> []
          then s\<lparr>sv_links := note_object (hs_link h) (sv_fs s) m (r_link_id (tp_r tp)) (sv_links s)\<rparr> else s)"

definition stat_path ::
  "('m, 'f) sup_host \<Rightarrow> int \<Rightarrow> path_spec \<Rightarrow> 64 word \<Rightarrow> fixup \<Rightarrow> 64 word \<Rightarrow> 64 word \<Rightarrow> ('m, 'f) call_state \<Rightarrow> ('m, 'f) handled" where
  "stat_path h tid sp buf kind flags msk cs =
     (let e = early_stat_error (kind = Fx_statx) flags msk
      in if e \<noteq> 0 then (fail_with e, cs)
         else case resolve_query h tid sp cs of
             (answ, tp, act, cs1) \<Rightarrow>
               if sa_skip act then (act, cs1)
               else let cs2 = on_sup (note_link h tp) cs1
                    in if answ
                       then answered (host_stat_call h tid (r_host (tp_r tp)) buf (kind = Fx_statx) flags msk (snd (snd cs2))) cs2
                       else (pass, on_sup (stat_fixup tid buf kind) cs2))"

definition access_path ::
  "('m, 'f) sup_host \<Rightarrow> int \<Rightarrow> path_spec \<Rightarrow> 64 word \<Rightarrow> ('m, 'f) call_state \<Rightarrow> ('m, 'f) handled" where
  "access_path h tid sp md cs =
     (if md AND NOT 7 \<noteq> 0 then (fail_with EINVAL, cs)
      else case resolve_query h tid sp cs of
          (answ, tp, act, cs1) \<Rightarrow>
            if \<not> answ \<or> sa_skip act then (act, cs1)
            else (fail_with (hs_faccessat h (r_host (tp_r tp)) (ucast md) (sv_fs (snd (snd cs1)))), cs1))"

text \<open>A call into the hard-link store that returns an errno.\<close>

definition store_call ::
  "('f \<times> link_store \<Rightarrow> errno \<times> 'f \<times> link_store) \<Rightarrow> ('m, 'f) call_state \<Rightarrow> ('m, 'f) handled" where
  "store_call f cs =
     (case cs of (rg, sw, s) \<Rightarrow>
      case f (sv_fs s, sv_links s) of (e, fs, ls) \<Rightarrow> (fail_with e, rg, sw, s\<lparr>sv_fs := fs, sv_links := ls\<rparr>))"

definition entry_of :: "('m, 'f) sup_host \<Rightarrow> ('m, 'f) supervisor \<Rightarrow> resolved \<Rightarrow> string" where
  "entry_of h s r = (if r_final_is_symlink r then entry_id (hs_link h) (sv_fs s) (r_host r) else [])"

definition unlink_like ::
  "('m, 'f) sup_host \<Rightarrow> int \<Rightarrow> path_spec \<Rightarrow> bool \<Rightarrow> ('m, 'f) call_state \<Rightarrow> ('m, 'f) handled" where
  "unlink_like h tid sp removedir cs =
     (case run_spec h tid (sp\<lparr>sp_link_name := \<not> removedir\<rparr>) cs of
        (tp, act, cs1) \<Rightarrow>
          if sa_skip act \<or> removedir \<or> \<not> tp_present tp \<or> \<not> r_final_is_symlink (tp_r tp) then (act, cs1)
          else case r_mount (tp_r tp) of
              None \<Rightarrow> (act, cs1)
            | Some m \<Rightarrow>
                (let i = entry_id (hs_link h) (sv_fs (snd (snd cs1))) (r_host (tp_r tp))
                 in if i = [] then (act, cs1)
                    else store_call (unlink_name (hs_link h) m i (r_host (tp_r tp))) cs1))"

definition rename_like ::
  "('m, 'f) sup_host \<Rightarrow> int \<Rightarrow> path_spec \<Rightarrow> path_spec \<Rightarrow> 64 word \<Rightarrow> ('m, 'f) call_state \<Rightarrow> ('m, 'f) handled" where
  "rename_like h tid s1 s2 flags cs =
     (case translate_path h tid (s1\<lparr>sp_link_name := True\<rparr>) cs of
        ((e1, p1), cs1) \<Rightarrow>
        if e1 \<noteq> 0 then (fail_with e1, cs1)
        else case translate_path h tid (s2\<lparr>sp_link_name := True\<rparr>) cs1 of
          ((e2, p2), cs2) \<Rightarrow>
          if e2 \<noteq> 0 then (fail_with e2, cs2)
          else if \<not> tp_present p1 \<or> \<not> tp_present p2 then (pass, cs2)
          else if r_mount (tp_r p1) \<noteq> r_mount (tp_r p2) then (fail_with EXDEV, cs2)
          else (let s = snd (snd cs2);
                    src = entry_of h s (tp_r p1);
                    dst = entry_of h s (tp_r p2)
                in if src = [] \<and> dst = [] then (pass, cs2)
                   else if src = dst
                   then (if flags AND kRenameExchange \<noteq> 0 then (pass, cs2)
                         else (if flags AND kRenameNoReplace \<noteq> 0 then fail_with EEXIST else answer 0, cs2))
                   else (pass, on_sup (\<lambda>s. set_pending tid ((pending_of s tid)
                           \<lparr>ps_active := True, ps_fixup := Fx_rename_links, ps_link_mount := r_mount (tp_r p1),
                            ps_link_src := src, ps_link_dst := dst, ps_link_from := r_host (tp_r p1),
                            ps_link_to := r_host (tp_r p2), ps_link_exchange := (flags AND kRenameExchange \<noteq> 0)\<rparr>) s) cs2)))"

definition link_like ::
  "('m, 'f) sup_host \<Rightarrow> int \<Rightarrow> path_spec \<Rightarrow> path_spec \<Rightarrow> ('m, 'f) call_state \<Rightarrow> ('m, 'f) handled" where
  "link_like h tid old_spec new_spec cs =
     (case translate_path h tid (old_spec\<lparr>sp_link_name := \<not> sp_follow old_spec\<rparr>) cs of
        ((e1, p1), cs1) \<Rightarrow>
        if e1 \<noteq> 0 then (fail_with e1, cs1)
        else case translate_path h tid (new_spec\<lparr>sp_link_name := True\<rparr>) cs1 of
          ((e2, p2), cs2) \<Rightarrow>
          if e2 \<noteq> 0 then (fail_with e2, cs2)
          else case (if \<not> tp_present p1 \<or> \<not> tp_present p2 \<or> \<not> r_exists (tp_r p1) then None else r_mount (tp_r p1)) of
              None \<Rightarrow> (pass, cs2)
            | Some m \<Rightarrow>
                if r_exists (tp_r p2) then (fail_with EEXIST, cs2)
                else if r_mount (tp_r p1) \<noteq> r_mount (tp_r p2) then (fail_with EXDEV, cs2)
                else (let s = snd (snd cs2);
                          i = (if r_link_id (tp_r p1) = [] then entry_of h s (tp_r p1) else r_link_id (tp_r p1))
                      in if i \<noteq> [] then store_call (link_existing (hs_link h) m i (r_host (tp_r p2))) cs2
                         else if \<not> sv_links_enabled s \<or> r_is_dir (tp_r p1) then (pass, cs2)
                         else if r_final_is_symlink (tp_r p1)
                         then (case read_link (hs_files h (sv_fs s)) (r_host (tp_r p1)) of
                                 Inl e \<Rightarrow> (fail_with EIO, cs2)
                               | Inr t \<Rightarrow>
                                   store_call (\<lambda>(fs, ls). case lk_symlink (hs_link h) t (r_host (tp_r p2)) fs of (e, fs') \<Rightarrow> (e, fs', ls)) cs2)
                         else store_call (link_new (hs_link h) m (r_host (tp_r p1)) (r_host (tp_r p2))) cs2))"

definition opens_read_only :: "64 word \<Rightarrow> bool" where
  "opens_read_only flags \<longleftrightarrow>
     flags AND O_ACCMODE = 0 \<and> flags AND (O_CREAT OR O_TRUNC OR O_TMPFILE OR O_DIRECTORY OR O_PATH) = 0"

definition drop_scratch :: "('m, 'f) sup_host \<Rightarrow> int \<Rightarrow> ('m, 'f) supervisor \<Rightarrow> ('m, 'f) supervisor" where
  "drop_scratch h tid s =
     (if ps_scratch (pending_of s tid) = [] then s
      else set_pending tid ((pending_of s tid)\<lparr>ps_scratch := []\<rparr>)
             (s\<lparr>sv_fs := snd (lk_unlink (hs_link h) (ps_scratch (pending_of s tid)) (sv_fs s))\<rparr>))"

definition wants_stand_in :: "translated_path \<Rightarrow> bool" where
  "wants_stand_in tp \<longleftrightarrow>
     tp_present tp \<and> r_exists (tp_r tp) \<and>
     (case r_mount (tp_r tp) of None \<Rightarrow> False | Some m \<Rightarrow> m_kind m = Kind_proc) \<and> \<not> r_proc_magic (tp_r tp)"

definition open_path ::
  "('m, 'f) sup_host \<Rightarrow> int \<Rightarrow> path_spec \<Rightarrow> 64 word \<Rightarrow> ('m, 'f) call_state \<Rightarrow> ('m, 'f) handled" where
  "open_path h tid sp flags cs =
     (if \<not> opens_read_only flags \<or> sc_proc (sv_cfg (snd (snd cs))) \<noteq> Proc_host then snd (run_spec h tid sp cs)
      else case translate_path h tid (sp\<lparr>sp_resolve_only := True\<rparr>) cs of
          ((e, tp), cs1) \<Rightarrow>
          if e \<noteq> 0 then (fail_with e, cs1)
          else (let (stand_in, s1) = (if wants_stand_in tp then proc_stand_in h tp (snd (snd cs1)) else (None, snd (snd cs1)));
                    tp1 = (case stand_in of None \<Rightarrow> tp | Some f \<Rightarrow> tp\<lparr>tp_r := (tp_r tp)\<lparr>r_host := f\<rparr>\<rparr>);
                    s2 = (case stand_in of None \<Rightarrow> s1
                          | Some f \<Rightarrow> set_pending tid ((pending_of s1 tid)\<lparr>ps_active := True, ps_scratch := f\<rparr>) s1)
                in case apply_translation h tid (sp\<lparr>sp_resolve_only := False\<rparr>) tp1 (fst cs1, fst (snd cs1), s2) of
                     (e2, cs2) \<Rightarrow> if e2 \<noteq> 0 then (fail_with e2, on_sup (drop_scratch h tid) cs2) else (pass, cs2)))"

definition chown_like :: "('m, 'f) sup_host \<Rightarrow> int \<Rightarrow> path_spec \<Rightarrow> ('m, 'f) call_state \<Rightarrow> ('m, 'f) handled" where
  "chown_like h tid sp cs =
     (case run_spec h tid sp cs of
        (tp, act, rg, sw, s) \<Rightarrow>
          if sa_skip act \<or> sc_uid (sv_cfg s) \<noteq> Some 0 then (act, rg, sw, s)
          else case guest_is_root h tid s of
              (root, s1) \<Rightarrow>
                if \<not> root then (act, rg, sw, s1)
                else (if tp_present tp \<and> \<not> r_exists (tp_r tp) then fail_with ENOENT else answer 0, rg, sw, s1))"

definition readlink_path ::
  "('m, 'f) sup_host \<Rightarrow> int \<Rightarrow> bool \<Rightarrow> ('m, 'f) call_state \<Rightarrow> ('m, 'f) handled" where
  "readlink_path h tid at_variant cs =
     (let rg = fst cs;
          sp = (if at_variant then (spec 1 0 False False False)\<lparr>sp_empty_ok := True\<rparr> else spec 0 (- 1) False False False);
          buf = (if at_variant then arg rg 2 else arg rg 1);
          sz = (if at_variant then arg rg 3 else arg rg 2) AND 0xffffffff
      in if sint (ucast sz :: 32 word) \<le> 0 then (fail_with EINVAL, cs)
         else case resolve_query h tid sp cs of
             (answ, tp, act, cs1) \<Rightarrow>
               if answ
               then (if sa_skip act then (act, cs1)
                     else answered (host_readlink h tid (r_host (tp_r tp)) buf sz (snd (snd cs1))) cs1)
               else if \<not> sa_skip act \<and> tp_present tp \<and>
                       (case r_mount (tp_r tp) of None \<Rightarrow> False | Some m \<Rightarrow> m_kind m = Kind_proc)
               then (act, on_sup (\<lambda>s.
                      (let s1 = set_pending tid ((pending_of s tid)\<lparr>ps_active := True, ps_fixup := Fx_readlink_proc,
                                  ps_buf := buf, ps_size := sz, ps_link_host := r_host (tp_r tp)\<rparr>) s
                       in if loader_mode s1
                          then (case tgid_of h tid s1 of
                                  (tg, s2) \<Rightarrow> set_pending tid ((pending_of s2 tid)\<lparr>ps_exe_tgid := proc_exe_owner (r_guest (tp_r tp)) tg\<rparr>) s2)
                          else s1)) cs1)
               else (act, cs1))"

definition xattr_query ::
  "('m, 'f) sup_host \<Rightarrow> int \<Rightarrow> syscall_info \<Rightarrow> ('m, 'f) call_state \<Rightarrow> ('m, 'f) handled" where
  "xattr_query h tid info cs =
     (case cs of (rg, sw, s) \<Rightarrow>
        (let e = (if lists_xattrs info then 0
                  else case read_cstring (hs_mem h) tid (sv_mem s) (arg rg 1) 256 of
                      Inl e \<Rightarrow> xattr_name_error e
                    | Inr n \<Rightarrow> if n = [] then ERANGE else 0)
         in if e \<noteq> 0 then (fail_with e, cs)
            else case resolve_query h tid (spec 0 (- 1) (si_handler info = H_xattr_get) False False) cs of
                (answ, tp, act, cs1) \<Rightarrow>
                  if \<not> answ \<or> sa_skip act then (act, cs1)
                  else answered (host_xattr h tid info (r_host (tp_r tp)) (fst cs1) (snd (snd cs1))) cs1))"

definition pass_through ::
  "('m, 'f) sup_host \<Rightarrow> int \<Rightarrow> syscall_info \<Rightarrow> ('m, 'f) call_state \<Rightarrow> ('m, 'f) handled" where
  "pass_through h tid info cs =
     (case cs of (rg, sw, s0) \<Rightarrow>
        (let s1 = (if is_call info ''fstat'' then stat_fixup tid (arg rg 1) Fx_stat s0 else s0);
             s2 = (if (is_call info ''prctl'' \<and> arg rg 0 = PR_SET_SECCOMP \<and> arg rg 1 = kSeccompModeFilter) \<or>
                      (is_call info ''seccomp'' \<and> arg rg 0 = kSeccompSetModeFilter)
                   then (case tgid_of h tid s1 of
                           (tg, s1') \<Rightarrow> if tg \<in> set (sv_guest_filtered s1') then s1'
                                        else s1'\<lparr>sv_guest_filtered := tg # sv_guest_filtered s1'\<rparr>)
                   else s1);
             s3 = (if sv_links_enabled s2 \<and> is_call info ''getdents64''
                   then (case links_visible h s2 of
                           (vis, s2') \<Rightarrow>
                             if vis
                             then set_pending tid ((pending_of s2' tid)\<lparr>ps_active := True, ps_fixup := Fx_dirents,
                                    ps_fd := int_arg rg 0, ps_buf := arg rg 1, ps_size := arg rg 2 AND 0xffffffff\<rparr>) s2'
                             else s2')
                   else s2)
         in if has_identity s3 \<and> is_call info ''getgroups''
            then (case handle_identity h tid rg info s3 of (act, s4) \<Rightarrow> (act, rg, sw, s4))
            else (pass, rg, sw, s3)))"

definition denial :: "('m, 'f) sup_host \<Rightarrow> int \<Rightarrow> syscall_info \<Rightarrow> errno \<Rightarrow> ('m, 'f) call_state \<Rightarrow> ('m, 'f) handled" where
  "denial h tid info err cs =
     (case cs of (rg, sw, s) \<Rightarrow>
      case deny h tid (Some info) (si_nr info) err
             (if si_cls info = Cls_unsupported then ''syscall.unsupported'' else ''syscall.denied'') (denial_reason info)
             (if si_name info = ''clone3'' \<or> si_name info = ''openat2'' then Sev_debug else Sev_warning) s of
        (act, s') \<Rightarrow> (act, rg, sw, s'))"

definition socket_call :: "('m, 'f) sup_host \<Rightarrow> int \<Rightarrow> syscall_info \<Rightarrow> ('m, 'f) call_state \<Rightarrow> ('m, 'f) handled" where
  "socket_call h tid info cs =
     (case cs of (rg, sw, s) \<Rightarrow>
        if sc_network (sv_cfg s) = Net_none \<and> int_arg rg 0 \<noteq> 1
        then (case deny h tid (Some info) (si_nr info) EACCES ''network.denied''
                     ''--network none: only AF_UNIX sockets may be created'' Sev_info s of (act, s') \<Rightarrow> (act, rg, sw, s'))
        else if sv_audit_refused s \<and> int_arg rg 0 = AF_NETLINK \<and> int_arg rg 2 = NETLINK_AUDIT
        then (case deny h tid (Some info) (si_nr info) EPROTONOSUPPORT ''audit.unavailable''
                     ''the host refuses audit sockets; answered as a kernel without audit'' Sev_debug s of
                (act, s') \<Rightarrow> (act, rg, sw, s'))
        else (pass, cs))"

text \<open>Handlers that work on registers and supervisor only.\<close>

definition with_sup ::
  "(regs \<Rightarrow> ('m, 'f) supervisor \<Rightarrow> syscall_action \<times> ('m, 'f) supervisor) \<Rightarrow> ('m, 'f) call_state \<Rightarrow> ('m, 'f) handled" where
  "with_sup f cs = (case cs of (rg, sw, s) \<Rightarrow> case f rg s of (act, s') \<Rightarrow> (act, rg, sw, s'))"

definition with_regs ::
  "(regs \<times> ('m, 'f) supervisor \<Rightarrow> syscall_action \<times> regs \<times> ('m, 'f) supervisor) \<Rightarrow> ('m, 'f) call_state \<Rightarrow> ('m, 'f) handled" where
  "with_regs f cs = (case cs of (rg, sw, s) \<Rightarrow> case f (rg, s) of (act, rg', s') \<Rightarrow> (act, rg', sw, s'))"

definition identity_call :: "('m, 'f) sup_host \<Rightarrow> int \<Rightarrow> syscall_info \<Rightarrow> ('m, 'f) call_state \<Rightarrow> ('m, 'f) handled" where
  "identity_call h tid info cs =
     with_sup (\<lambda>rg s. if has_identity s then handle_identity h tid rg info s else (pass, s)) cs"

definition untrace_clone :: "('m, 'f) call_state \<Rightarrow> ('m, 'f) handled" where
  "untrace_clone cs =
     (case cs of (rg, sw, s) \<Rightarrow>
        (pass, if arg rg 0 AND kCloneUntraced64 \<noteq> 0 then set_arg 0 (arg rg 0 AND NOT kCloneUntraced64) rg else rg, sw, s))"

definition remember_getcwd :: "int \<Rightarrow> ('m, 'f) call_state \<Rightarrow> ('m, 'f) handled" where
  "remember_getcwd tid cs =
     (case cs of (rg, sw, s) \<Rightarrow>
        (pass, rg, sw, set_pending tid ((pending_of s tid)\<lparr>ps_active := True, ps_fixup := Fx_getcwd,
           ps_buf := arg rg 0, ps_size := arg rg 1\<rparr>) s))"

definition flagged :: "regs \<Rightarrow> nat \<Rightarrow> 64 word \<Rightarrow> bool" where
  "flagged rg i bits \<longleftrightarrow> arg rg i AND bits \<noteq> 0"

definition dispatch_call ::
  "('m, 'f) sup_host \<Rightarrow> int \<Rightarrow> syscall_info \<Rightarrow> ('m, 'f) call_state \<Rightarrow> ('m, 'f) handled" where
  "dispatch_call h tid info cs =
     (let rg = fst cs; a = arg rg; run = (\<lambda>sp. snd (run_spec h tid sp cs))
      in case si_handler info of
           H_none \<Rightarrow> pass_through h tid info cs
         | H_open \<Rightarrow> open_path h tid (open_spec 0 (- 1) (a 1)) (a 1) cs
         | H_creat \<Rightarrow> run (spec 0 (- 1) True True True)
         | H_openat \<Rightarrow> open_path h tid (open_spec 1 0 (a 2)) (a 2) cs
         | H_stat \<Rightarrow> stat_path h tid (spec 0 (- 1) True False False) (a 1) Fx_stat 0 0 cs
         | H_lstat \<Rightarrow> stat_path h tid (spec 0 (- 1) False False False) (a 1) Fx_stat kAtSymlinkNofollow 0 cs
         | H_newfstatat \<Rightarrow>
             stat_path h tid ((spec 1 0 (\<not> flagged rg 3 kAtSymlinkNofollow) False False)\<lparr>sp_empty_ok := flagged rg 3 kAtEmptyPath\<rparr>)
               (a 2) Fx_stat (a 3) 0 cs
         | H_statx \<Rightarrow>
             stat_path h tid ((spec 1 0 (\<not> flagged rg 2 kAtSymlinkNofollow) False False)\<lparr>sp_empty_ok := flagged rg 2 kAtEmptyPath\<rparr>)
               (a 4) Fx_statx (a 2) (a 3) cs
         | H_access \<Rightarrow> access_path h tid (spec 0 (- 1) True (flagged rg 1 W_OK) False) (a 1) cs
         | H_faccessat \<Rightarrow> access_path h tid (spec 1 0 True (flagged rg 2 W_OK) False) (a 2) cs
         | H_faccessat2 \<Rightarrow>
             (let sp = (spec 1 0 (\<not> flagged rg 3 kAtSymlinkNofollow) (flagged rg 2 W_OK) False)\<lparr>sp_empty_ok := flagged rg 3 kAtEmptyPath\<rparr>
              in if a 3 AND NOT (kAtEaccess OR kAtSymlinkNofollow OR kAtEmptyPath) \<noteq> 0 \<or> a 2 AND NOT 7 \<noteq> 0
                 then (fail_with EINVAL, cs)
                 else if a 3 = 0 then access_path h tid sp (a 2) cs else run sp)
         | H_readlink \<Rightarrow> readlink_path h tid False cs
         | H_readlinkat \<Rightarrow> readlink_path h tid True cs
         | H_getcwd \<Rightarrow> remember_getcwd tid cs
         | H_chdir \<Rightarrow> run (spec 0 (- 1) True False False)
         | H_mkdir \<Rightarrow> run (spec 0 (- 1) False False True)
         | H_mkdirat \<Rightarrow> run (spec 1 0 False False True)
         | H_mknod \<Rightarrow> run (spec 0 (- 1) False False True)
         | H_mknodat \<Rightarrow> run (spec 1 0 False False True)
         | H_rmdir \<Rightarrow> run (spec 0 (- 1) False True False)
         | H_unlink \<Rightarrow> unlink_like h tid (spec 0 (- 1) False True False) False cs
         | H_unlinkat \<Rightarrow> unlink_like h tid (spec 1 0 False True False) (flagged rg 2 kAtRemoveDir) cs
         | H_rename \<Rightarrow> rename_like h tid (spec 0 (- 1) False True False) (spec 1 (- 1) False True True) 0 cs
         | H_renameat \<Rightarrow> rename_like h tid (spec 1 0 False True False) (spec 3 2 False True True) 0 cs
         | H_renameat2 \<Rightarrow> rename_like h tid (spec 1 0 False True False) (spec 3 2 False True True) (a 4) cs
         | H_link \<Rightarrow> link_like h tid (spec 0 (- 1) False False False) (spec 1 (- 1) False False True) cs
         | H_linkat \<Rightarrow>
             link_like h tid ((spec 1 0 (flagged rg 4 kAtSymlinkFollow) False False)\<lparr>sp_empty_ok := flagged rg 4 kAtEmptyPath\<rparr>)
               (spec 3 2 False False True) cs
         | H_symlink \<Rightarrow> run (spec 1 (- 1) False False True)
         | H_symlinkat \<Rightarrow> run (spec 2 1 False False True)
         | H_chmod \<Rightarrow> run (spec 0 (- 1) True True False)
         | H_fchmodat \<Rightarrow> run (spec 1 0 True True False)
         | H_fchmodat2 \<Rightarrow> run ((spec 1 0 (\<not> flagged rg 3 kAtSymlinkNofollow) True False)\<lparr>sp_empty_ok := flagged rg 3 kAtEmptyPath\<rparr>)
         | H_chown \<Rightarrow> chown_like h tid (spec 0 (- 1) True True False) cs
         | H_lchown \<Rightarrow> chown_like h tid (spec 0 (- 1) False True False) cs
         | H_fchownat \<Rightarrow>
             chown_like h tid ((spec 1 0 (\<not> flagged rg 4 kAtSymlinkNofollow) True False)\<lparr>sp_empty_ok := flagged rg 4 kAtEmptyPath\<rparr>) cs
         | H_utime \<Rightarrow> run (spec 0 (- 1) True True False)
         | H_utimes \<Rightarrow> run (spec 0 (- 1) True True False)
         | H_futimesat \<Rightarrow>
             (if a 1 = 0 then with_sup (\<lambda>rg s. handle_fd_meta h tid (int_arg rg 0) False s) cs else run (spec 1 0 True True False))
         | H_utimensat \<Rightarrow>
             (if a 1 = 0 then with_sup (\<lambda>rg s. handle_fd_meta h tid (int_arg rg 0) False s) cs
              else run ((spec 1 0 (\<not> flagged rg 3 kAtSymlinkNofollow) True False)\<lparr>sp_empty_ok := flagged rg 3 kAtEmptyPath\<rparr>))
         | H_truncate \<Rightarrow> run (spec 0 (- 1) True True False)
         | H_statfs \<Rightarrow> run (spec 0 (- 1) True False False)
         | H_xattr_get \<Rightarrow> xattr_query h tid info cs
         | H_xattr_lget \<Rightarrow> xattr_query h tid info cs
         | H_xattr_set \<Rightarrow> run (spec 0 (- 1) True True False)
         | H_xattr_lset \<Rightarrow> run (spec 0 (- 1) False True False)
         | H_inotify_add_watch \<Rightarrow> run (spec 1 (- 1) (\<not> flagged rg 2 kInDontFollow) False False)
         | H_fanotify_mark \<Rightarrow> run ((spec 4 3 (\<not> flagged rg 1 kFanMarkDontFollow) False False)\<lparr>sp_null_ok := True\<rparr>)
         | H_fd_meta_write \<Rightarrow> with_sup (\<lambda>rg s. handle_fd_meta h tid (int_arg rg 0) False s) cs
         | H_fchown_fd \<Rightarrow> with_sup (\<lambda>rg s. handle_fd_meta h tid (int_arg rg 0) True s) cs
         | H_execve \<Rightarrow> with_regs (handle_exec h tid False) cs
         | H_execveat \<Rightarrow> with_regs (handle_exec h tid True) cs
         | H_socket \<Rightarrow> socket_call h tid info cs
         | H_connect \<Rightarrow> with_regs (handle_sockaddr h tid 1 2 False) cs
         | H_bind \<Rightarrow> with_regs (handle_sockaddr h tid 1 2 True) cs
         | H_sendto \<Rightarrow> (if a 4 \<noteq> 0 then with_regs (handle_sockaddr h tid 4 5 False) cs else (pass, cs))
         | H_sendmsg \<Rightarrow> with_regs (handle_sendmsg h tid False) cs
         | H_sendmmsg \<Rightarrow> with_regs (handle_sendmsg h tid True) cs
         | H_clone \<Rightarrow> untrace_clone cs
         | H_kill \<Rightarrow> with_sup (\<lambda>rg s. handle_signal_target h tid info rg s) cs
         | H_tkill \<Rightarrow> with_sup (\<lambda>rg s. handle_signal_target h tid info rg s) cs
         | H_tgkill \<Rightarrow> with_sup (\<lambda>rg s. handle_signal_target h tid info rg s) cs
         | H_sigqueue \<Rightarrow> with_sup (\<lambda>rg s. handle_signal_target h tid info rg s) cs
         | H_tgsigqueue \<Rightarrow> with_sup (\<lambda>rg s. handle_signal_target h tid info rg s) cs
         | H_pidfd_open \<Rightarrow> with_sup (\<lambda>rg s. handle_signal_target h tid info rg s) cs
         | H_getuid \<Rightarrow> identity_call h tid info cs
         | H_geteuid \<Rightarrow> identity_call h tid info cs
         | H_getgid \<Rightarrow> identity_call h tid info cs
         | H_getegid \<Rightarrow> identity_call h tid info cs
         | H_getresuid \<Rightarrow> identity_call h tid info cs
         | H_getresgid \<Rightarrow> identity_call h tid info cs
         | H_setid \<Rightarrow> identity_call h tid info cs
         | H_deny_eperm \<Rightarrow> denial h tid info EPERM cs
         | H_deny_enosys \<Rightarrow> denial h tid info ENOSYS cs
         | H_deny_eopnotsupp \<Rightarrow> denial h tid info EOPNOTSUPP cs
         | H_deny_eacces \<Rightarrow> denial h tid info EACCES cs)"

definition dispatch ::
  "('m, 'f) sup_host \<Rightarrow> int \<Rightarrow> syscall_info \<Rightarrow> regs \<times> ('m, 'f) supervisor \<Rightarrow> syscall_action \<times> regs \<times> ('m, 'f) supervisor" where
  "dispatch h tid info rs =
     (case rs of (rg, s) \<Rightarrow>
      case dispatch_call h tid info (rg, stack_writer_new X86_64 tid (rg_sp rg), s) of
        (act, rg', sw, s') \<Rightarrow> (act, rg', s'))"

end
