(* ===== verification/Fixups.thy ===== *)
theory Fixups
  imports Dispatch
begin

text \<open>
  What the supervisor changes when a system call it let through returns
  (\<open>Supervisor::fixup_exit\<close> and \<open>present_dirents\<close> in
  \<open>src/src/engines/rootless/syscall_handlers.cpp\<close>): host paths in results become guest paths, buffers
  show the guest identity, emulated hard links are listed as regular files, and the records of the
  hard-link store follow a rename.
\<close>

section \<open>Directory listings\<close>

definition kMaxDirentsScan :: nat where "kMaxDirentsScan = 2 ^ 20"
definition kReclenOff :: nat where "kReclenOff = 16"
definition kTypeOff :: nat where "kTypeOff = 18"
definition kNameOff :: nat where "kNameOff = 19"
definition DT_REG :: char where "DT_REG = CHR 0x08"
definition DT_LNK :: char where "DT_LNK = CHR 0x0A"

definition reclen_at :: "string \<Rightarrow> nat \<Rightarrow> nat" where
  "reclen_at buf pos = le_value (sub_bytes (pos + kReclenOff) 2 buf)"

text \<open>The id of the emulated hard link a record names, empty when it is another symlink.\<close>

definition dirent_link_id :: "host_fs \<Rightarrow> string \<Rightarrow> string \<Rightarrow> nat \<Rightarrow> string" where
  "dirent_link_id fs fd_dir buf pos =
     (let field = sub_bytes (pos + kNameOff) (reclen_at buf pos - kNameOff) buf;
          name = c_string field
      in if length name \<ge> reclen_at buf pos - kNameOff then []
         else case readlink fs (fd_dir @ slash # name) of
             Inl e \<Rightarrow> []
           | Inr target \<Rightarrow>
               if target \<noteq> [] \<and> length target < kPathMax then link_target_id target else [])"

text \<open>The store of the mount the listed directory is on; empty when it cannot be told.\<close>

definition dirent_store :: "host_fs \<Rightarrow> mount_table \<Rightarrow> string \<Rightarrow> string" where
  "dirent_store fs t fd_dir =
     (case read_link fs fd_dir of
        Inl e \<Rightarrow> []
      | Inr dir \<Rightarrow>
          (case to_guest t dir of
             None \<Rightarrow> []
           | Some g \<Rightarrow> (case mount_for_guest t g of None \<Rightarrow> [] | Some m \<Rightarrow> link_store_path (m_host m))))"

definition is_object :: "host_fs \<Rightarrow> string \<Rightarrow> bool" where
  "is_object fs p =
     (case lstat fs p of Inl e \<Rightarrow> False | Inr st \<Rightarrow> st_type st \<noteq> FT_dir \<and> st_type st \<noteq> FT_lnk)"

text \<open>
  The loop over the records.  The store is looked up at the first emulated link and remembered
  (\<open>store_known\<close> of the source is \<open>store \<noteq> None\<close>).
\<close>

function dirents_loop ::
  "('m, 'f) sup_host \<Rightarrow> int \<Rightarrow> string \<Rightarrow> 64 word \<Rightarrow> string \<Rightarrow> nat \<Rightarrow> string option \<Rightarrow> ('m, 'f) supervisor \<Rightarrow>
     ('m, 'f) supervisor" where
  "dirents_loop h tid fd_dir bufaddr buf pos store s =
     (let n = length buf; reclen = reclen_at buf pos
      in if pos + kNameOff \<ge> n \<or> reclen \<le> kNameOff \<or> pos + reclen > n then s
         else let fs = hs_files h (sv_fs s);
                  i = (if buf ! (pos + kTypeOff) = DT_LNK then dirent_link_id fs fd_dir buf pos else []);
                  store' = (if i \<noteq> [] \<and> store = None then Some (dirent_store fs (sv_mounts s) fd_dir) else store);
                  dir = (case store' of None \<Rightarrow> [] | Some d \<Rightarrow> d);
                  s' = (if i \<noteq> [] \<and> dir \<noteq> [] \<and> is_object fs (dir @ slash # i)
                        then s\<lparr>sv_mem := snd (write_mem (hs_mem h) tid (sv_mem s) (bufaddr + of_nat (pos + kTypeOff)) [DT_REG])\<rparr>
                        else s)
              in dirents_loop h tid fd_dir bufaddr buf (pos + reclen) store' s')"
  by pat_completeness auto

termination
  by (relation "measure (\<lambda>(h, tid, fd_dir, bufaddr, buf, pos, store, s). length buf - pos)")
    (auto simp: kNameOff_def)

declare dirents_loop.simps [simp del]

definition present_dirents :: "('m, 'f) sup_host \<Rightarrow> int \<Rightarrow> int \<Rightarrow> ('m, 'f) supervisor \<Rightarrow> ('m, 'f) supervisor" where
  "present_dirents h tid ret s =
     (let p = pending_of s tid
      in if ret \<le> 0 \<or> nat ret > unat (ps_size p) \<or> nat ret > kMaxDirentsScan then s
         else case read_mem (hs_mem h) tid (sv_mem s) (ps_buf p) (nat ret) of
             Inl e \<Rightarrow> s
           | Inr buf \<Rightarrow> dirents_loop h tid (proc_fd tid (ps_fd p)) (ps_buf p) buf 0 None s)"

section \<open>Paths in results\<close>

definition strip_nuls :: "string \<Rightarrow> string" where
  "strip_nuls t = rev (dropWhile (\<lambda>c. c = nul) (rev t))"

definition fixup_getcwd ::
  "('m, 'f) sup_host \<Rightarrow> int \<Rightarrow> regs \<times> ('m, 'f) supervisor \<Rightarrow> regs \<times> ('m, 'f) supervisor" where
  "fixup_getcwd h tid rs =
     (case rs of (rg, s) \<Rightarrow>
        (let p = pending_of s tid; n = min (nat (rg_ret rg)) (unat (ps_size p))
         in if rg_ret rg \<le> 0 \<or> n = 0 then rs
            else case read_mem (hs_mem h) tid (sv_mem s) (ps_buf p) n of
                Inl e \<Rightarrow> rs
              | Inr host \<Rightarrow>
                  (case to_guest (sv_mounts s) (strip_nuls host) of
                     None \<Rightarrow> (set_return (- int ENOENT) rg, s)
                   | Some g \<Rightarrow>
                       if length g + 1 > unat (ps_size p) then (set_return (- int ERANGE) rg, s)
                       else case write_mem (hs_mem h) tid (sv_mem s) (ps_buf p) (g @ [nul]) of
                           (e, m) \<Rightarrow> (if e = 0 then set_return (int (length g + 1)) rg else rg, s\<lparr>sv_mem := m\<rparr>))))"

text \<open>The target of a \<open>/proc\<close> link: read again in full, or the kernel's truncated answer.\<close>

definition proc_target ::
  "('m, 'f) sup_host \<Rightarrow> int \<Rightarrow> pending_syscall \<Rightarrow> int \<Rightarrow> ('m, 'f) supervisor \<Rightarrow> string option" where
  "proc_target h tid p ret s =
     (case read_link (hs_files h (sv_fs s)) (ps_link_host p) of
        Inr t \<Rightarrow> Some t
      | Inl e \<Rightarrow> (case read_mem (hs_mem h) tid (sv_mem s) (ps_buf p) (nat ret) of Inl e' \<Rightarrow> None | Inr b \<Rightarrow> Some b))"

definition split_deleted :: "string \<Rightarrow> string \<times> string" where
  "split_deleted t =
     (if ends_with_deleted t
      then (take (length t - kDeletedSuffixLen) t, drop (length t - kDeletedSuffixLen) t) else (t, []))"

text \<open>The guest's name of a link target; in loader mode the program in place of the loader.\<close>

definition guest_link_name :: "('m, 'f) supervisor \<Rightarrow> int \<Rightarrow> string \<Rightarrow> string option" where
  "guest_link_name s exe_tgid target =
     (let own = (if exe_tgid \<noteq> 0 \<and> starts_with (so_loader_path (sv_opts s)) target then sv_exe_of s exe_tgid else None)
      in case own of Some g \<Rightarrow> Some g | None \<Rightarrow> to_guest (sv_mounts s) target)"

definition fixup_readlink ::
  "('m, 'f) sup_host \<Rightarrow> int \<Rightarrow> regs \<times> ('m, 'f) supervisor \<Rightarrow> regs \<times> ('m, 'f) supervisor" where
  "fixup_readlink h tid rs =
     (case rs of (rg, s) \<Rightarrow>
        (let p = pending_of s tid
         in if rg_ret rg \<le> 0 \<or> ps_size p = 0 then rs
            else case proc_target h tid p (rg_ret rg) s of
                None \<Rightarrow> rs
              | Some full \<Rightarrow>
                  if full = [] \<or> hd full \<noteq> slash then rs
                  else case split_deleted full of
                    (target, sfx) \<Rightarrow>
                      (case guest_link_name s (ps_exe_tgid p) target of
                         None \<Rightarrow>
                           (set_return (- int EACCES) rg,
                            report_outside h ''path.magic_link_hidden'' target
                              ''readlink of a /proc magic link pointing outside the session mounts refused'' tid s)
                       | Some g \<Rightarrow>
                           (let v = take (min (length (g @ sfx)) (unat (ps_size p))) (g @ sfx)
                            in case write_mem (hs_mem h) tid (sv_mem s) (ps_buf p) v of
                                 (e, m) \<Rightarrow> (if e = 0 then set_return (int (length v)) rg else rg, s\<lparr>sv_mem := m\<rparr>)))))"

section \<open>Buffers and records\<close>

definition fixup_stat ::
  "('m, 'f) sup_host \<Rightarrow> int \<Rightarrow> bool \<Rightarrow> int \<Rightarrow> ('m, 'f) supervisor \<Rightarrow> ('m, 'f) supervisor" where
  "fixup_stat h tid statx ret s =
     (let p = pending_of s tid; sz = (if statx then kStatxSize else kStatSize)
      in if ret \<noteq> 0 \<or> ps_buf p = 0 then s
         else case read_mem (hs_mem h) tid (sv_mem s) (ps_buf p) sz of
             Inl e \<Rightarrow> s
           | Inr before \<Rightarrow>
               (let after = present_stat h s statx before
                in if before = after then s
                   else s\<lparr>sv_mem := snd (write_mem (hs_mem h) tid (sv_mem s) (ps_buf p) after)\<rparr>))"

definition on_links ::
  "('f \<times> link_store \<Rightarrow> 'f \<times> link_store) \<Rightarrow> ('m, 'f) supervisor \<Rightarrow> ('m, 'f) supervisor" where
  "on_links f s = (case f (sv_fs s, sv_links s) of (fs, ls) \<Rightarrow> s\<lparr>sv_fs := fs, sv_links := ls\<rparr>)"

definition fixup_rename :: "('m, 'f) sup_host \<Rightarrow> int \<Rightarrow> int \<Rightarrow> ('m, 'f) supervisor \<Rightarrow> ('m, 'f) supervisor" where
  "fixup_rename h tid ret s =
     (let p = pending_of s tid
      in case (if ret \<noteq> 0 then None else ps_link_mount p) of
           None \<Rightarrow> s
         | Some m \<Rightarrow>
             (let src_moved = (if ps_link_src p \<noteq> []
                               then on_links (name_moved (hs_link h) m (ps_link_src p) (ps_link_from p) (ps_link_to p)) else id);
                  dst_moved = (if ps_link_dst p \<noteq> []
                               then on_links (name_moved (hs_link h) m (ps_link_dst p) (ps_link_to p) (ps_link_from p)) else id);
                  dst_dropped = (if ps_link_dst p \<noteq> []
                                 then on_links (name_dropped (hs_link h) m (ps_link_dst p) (ps_link_to p)) else id)
              in if ps_link_exchange p then dst_moved (src_moved s) else src_moved (dst_dropped s)))"

definition fixup_exit ::
  "('m, 'f) sup_host \<Rightarrow> int \<Rightarrow> regs \<times> ('m, 'f) supervisor \<Rightarrow> regs \<times> ('m, 'f) supervisor" where
  "fixup_exit h tid rs =
     (case rs of (rg, s) \<Rightarrow>
        (case ps_fixup (pending_of s tid) of
           Fx_none \<Rightarrow> rs
         | Fx_emulated_return \<Rightarrow> (set_return (ps_emulated (pending_of s tid)) rg, s)
         | Fx_getcwd \<Rightarrow> fixup_getcwd h tid rs
         | Fx_readlink_proc \<Rightarrow> fixup_readlink h tid rs
         | Fx_stat \<Rightarrow> (rg, fixup_stat h tid False (rg_ret rg) s)
         | Fx_statx \<Rightarrow> (rg, fixup_stat h tid True (rg_ret rg) s)
         | Fx_rename_links \<Rightarrow> (rg, fixup_rename h tid (rg_ret rg) s)
         | Fx_dirents \<Rightarrow> (rg, present_dirents h tid (rg_ret rg) s)))"

end
