(* ===== verification/Supervisor.thy ===== *)
theory Supervisor
  imports Fixups
begin

text \<open>
  The supervisor's reactions to the stops and exits of its tasks
  (\<open>src/src/engines/rootless/supervisor.cpp\<close>): system call entry and exit, fork, exec and seccomp
  events, group stops, host seccomp traps with the restart of legacy calls, exits, cancellation, and
  the event loop over the reports of \<open>waitpid\<close>.  A wait status is a natural number with the layout
  of \<open>sys/wait.h\<close>.
\<close>

definition ECHILD :: errno where "ECHILD = 10"

definition errno_text :: "errno \<Rightarrow> string" where
  "errno_text e = vhdp_errno_name e @ '' ('' @ vhdp_errno_description e @ '')''"

definition SIGKILL :: int where "SIGKILL = 9"
definition SIGTRAP :: nat where "SIGTRAP = 5"
definition SIGSTOP :: nat where "SIGSTOP = 19"
definition SIGTSTP :: nat where "SIGTSTP = 20"
definition SIGTTIN :: nat where "SIGTTIN = 21"
definition SIGTTOU :: nat where "SIGTTOU = 22"
definition SIGSYS :: nat where "SIGSYS = 31"
definition SIGCHLD :: nat where "SIGCHLD = 17"
definition kEventFork :: nat where "kEventFork = 1"
definition kEventVfork :: nat where "kEventVfork = 2"
definition kEventClone :: nat where "kEventClone = 3"
definition kEventExec :: nat where "kEventExec = 4"
definition kEventSeccomp :: nat where "kEventSeccomp = 7"
definition kEventStop :: nat where "kEventStop = 128"
definition kSyscallInfoEntry :: nat where "kSyscallInfoEntry = 1"
definition kSyscallInfoExit :: nat where "kSyscallInfoExit = 2"

section \<open>Resuming and registers\<close>

definition resume :: "('m, 'f) sup_host \<Rightarrow> int \<Rightarrow> int \<Rightarrow> ('m, 'f) supervisor \<Rightarrow> ('m, 'f) supervisor" where
  "resume h tid sig s =
     (case hs_resume h (\<not> so_use_seccomp (sv_opts s) \<or> ps_active (pending_of s tid)) (tr_tid (the_tracee s tid)) sig (sv_fs s) of
        (e, fs) \<Rightarrow>
          (let s1 = s\<lparr>sv_fs := fs\<rparr>
           in if e \<noteq> 0 \<and> e \<noteq> ESRCH
              then emit h EK_log Sev_warning ''supervisor.resume_failed'' (''ptrace resume: '' @ errno_text e) tid (int e) ''{}'' s1
              else s1))"

definition commit :: "('m, 'f) sup_host \<Rightarrow> int \<Rightarrow> regs \<Rightarrow> ('m, 'f) supervisor \<Rightarrow> errno \<times> ('m, 'f) supervisor" where
  "commit h tid rg s =
     (case commit_regs rg of
        None \<Rightarrow> (0, s)
      | Some img \<Rightarrow> (case hs_setregs h tid img (sv_fs s) of (e, fs) \<Rightarrow> (e, s\<lparr>sv_fs := fs\<rparr>)))"

definition kill_task :: "('m, 'f) sup_host \<Rightarrow> int \<Rightarrow> ('m, 'f) supervisor \<Rightarrow> ('m, 'f) supervisor" where
  "kill_task h p s = s\<lparr>sv_fs := snd (hs_kill h p SIGKILL (sv_fs s))\<rparr>"

definition kill_all :: "('m, 'f) sup_host \<Rightarrow> ('m, 'f) supervisor \<Rightarrow> ('m, 'f) supervisor" where
  "kill_all h s = foldl (\<lambda>s p. kill_task h p s) s (sv_known s)"

section \<open>System call entry\<close>

text \<open>Undo the argument rewrites recorded for the pending call.\<close>

definition restore_args :: "pending_syscall \<Rightarrow> regs \<Rightarrow> regs" where
  "restore_args p rg =
     foldl (\<lambda>rg i. if ps_restore p ! i then set_arg (int i) (ps_orig_args p ! i) rg else rg) rg [0..<6]"

definition begin_entry :: "int \<Rightarrow> ('m, 'f) supervisor \<Rightarrow> ('m, 'f) supervisor" where
  "begin_entry tid s =
     (let t = the_tracee s tid;
          t1 = t\<lparr>tr_pending := no_pending, tr_exec_seen := False\<rparr>
      in put_tracee tid (if tr_bootstrap t then t1 else t1\<lparr>tr_load_request := [], tr_load_exe := []\<rparr>) s)"

definition enter_detail :: "syscall_info \<Rightarrow> regs \<Rightarrow> string" where
  "enter_detail info rg =
     jw_out (end_object (end_array (foldl (\<lambda>w a. value_uint64 (unat a) w)
       (begin_array (write_key ''args'' (value_string (class_name (si_cls info)) (write_key ''class''
         (value_int64 (rg_nr rg) (write_key ''nr'' (value_string (si_name info) (write_key ''syscall''
           (begin_object new_writer)))))))))
       (rg_args rg))))"

definition entry_action ::
  "('m, 'f) sup_host \<Rightarrow> int \<Rightarrow> regs \<times> ('m, 'f) supervisor \<Rightarrow> syscall_action \<times> regs \<times> ('m, 'f) supervisor" where
  "entry_action h tid rs =
     (case rs of (rg, s) \<Rightarrow>
        if \<not> rg_native rg
        then (case deny h tid None (rg_nr rg) ENOSYS ''syscall.foreign_abi''
                     ''non-native syscall ABI (compat/x32) is not supported by the rootless engine'' Sev_warning s of
                (act, s') \<Rightarrow> (act, rg, s'))
        else case lookup_syscall (hs_table h) (rg_nr rg) of
            None \<Rightarrow>
              (case deny h tid None (rg_nr rg) ENOSYS ''syscall.unknown''
                      (''syscall number '' @ int_string (rg_nr rg) @ '' is not in the syscall table'') Sev_warning s of
                 (act, s') \<Rightarrow> (act, rg, s'))
          | Some info \<Rightarrow>
              dispatch h tid info
                (rg, if sc_trace (sv_cfg s)
                     then emit h EK_trace Sev_debug ''syscall.enter'' (si_name info) tid 0 (enter_detail info rg) s else s))"

text \<open>A refused or answered call: its number becomes \<open>-1\<close>, which the kernel skips.\<close>

definition skip_call :: "int \<Rightarrow> int \<Rightarrow> regs \<times> ('m, 'f) supervisor \<Rightarrow> regs \<times> ('m, 'f) supervisor" where
  "skip_call tid ret rs =
     (case rs of (rg, s) \<Rightarrow>
        (let p = pending_of s tid
         in (set_return ret (set_nr (- 1) (restore_args p rg)),
             set_pending tid
               (if so_use_seccomp (sv_opts s) then no_pending
                else p\<lparr>ps_active := True, ps_fixup := Fx_emulated_return, ps_emulated := ret, ps_restore := replicate 6 False\<rparr>)
               s)))"

definition on_syscall_enter :: "('m, 'f) sup_host \<Rightarrow> int \<Rightarrow> ('m, 'f) supervisor \<Rightarrow> ('m, 'f) supervisor" where
  "on_syscall_enter h tid s0 =
     (let s = begin_entry tid s0
      in case hs_getregs h tid (sv_fs s) of
           Inl e \<Rightarrow> if e \<noteq> ESRCH then resume h tid 0 s else s
         | Inr u \<Rightarrow>
             (let rg = fetch_regs u;
                  s1 = set_pending tid ((pending_of s tid)\<lparr>ps_nr := rg_nr rg\<rparr>) s
              in if tr_bootstrap (the_tracee s1 tid) then resume h tid 0 s1
                 else case entry_action h tid (rg, s1) of
                   (act, rg1, s2) \<Rightarrow>
                     (case (if sa_skip act then skip_call tid (sa_ret act) (rg1, s2) else (rg1, s2)) of
                        (rg2, s3) \<Rightarrow>
                        case commit h tid rg2 s3 of
                          (e, s4) \<Rightarrow>
                            resume h tid 0
                              (if e \<noteq> 0 \<and> e \<noteq> ESRCH
                               then emit h EK_log Sev_warning ''supervisor.regs_failed''
                                      (''register update failed: '' @ errno_text e) tid (int e) ''{}'' s4
                               else s4))))"

section \<open>System call exit\<close>

definition end_call :: "int \<Rightarrow> ('m, 'f) supervisor \<Rightarrow> ('m, 'f) supervisor" where
  "end_call tid s = put_tracee tid ((the_tracee s tid)\<lparr>tr_pending := no_pending, tr_exec_seen := False\<rparr>) s"

definition on_syscall_exit :: "('m, 'f) sup_host \<Rightarrow> int \<Rightarrow> ('m, 'f) supervisor \<Rightarrow> ('m, 'f) supervisor" where
  "on_syscall_exit h tid s0 =
     (let p = pending_of s0 tid
      in if \<not> ps_active p then resume h tid 0 s0
         else let s = (if ps_scratch p = [] then s0
                       else s0\<lparr>sv_fs := snd (lk_unlink (hs_link h) (ps_scratch p) (sv_fs s0))\<rparr>)
              in case hs_getregs h tid (sv_fs s) of
                   Inl e \<Rightarrow>
                     (let s1 = set_pending tid no_pending s in if e \<noteq> ESRCH then resume h tid 0 s1 else s1)
                 | Inr u \<Rightarrow>
                     resume h tid 0 (end_call tid
                       (if tr_exec_seen (the_tracee s tid) then s
                        else case fixup_exit h tid (fetch_regs u, s) of
                            (rg, s1) \<Rightarrow> snd (commit h tid (restore_args (pending_of s1 tid) rg) s1))))"

definition stop_is_exit :: "('m, 'f) sup_host \<Rightarrow> int \<Rightarrow> ('m, 'f) supervisor \<Rightarrow> bool" where
  "stop_is_exit h tid s =
     (let o1 = sv_opts s;
          op = (if so_get_syscall_info o1 \<and> \<not> (so_use_seccomp o1 \<and> ps_active (pending_of s tid))
                then hs_syscall_op h tid (sv_fs s) else None)
      in if op = Some kSyscallInfoEntry then False
         else if op = Some kSyscallInfoExit then True
         else if so_use_seccomp o1 then True
         else tr_in_syscall (the_tracee s tid))"

definition on_syscall_stop :: "('m, 'f) sup_host \<Rightarrow> int \<Rightarrow> ('m, 'f) supervisor \<Rightarrow> ('m, 'f) supervisor" where
  "on_syscall_stop h tid s =
     (let is_exit = stop_is_exit h tid s;
          s1 = (if so_use_seccomp (sv_opts s) then s
                else put_tracee tid ((the_tracee s tid)\<lparr>tr_in_syscall := \<not> is_exit\<rparr>) s)
      in if is_exit then on_syscall_exit h tid s1 else on_syscall_enter h tid s1)"

end
