(* ===== verification/Supervisor_Events.thy ===== *)
theory Supervisor_Events
  imports Supervisor
begin

text \<open>
  Events of the traced tasks other than system call stops, and the supervisor's own life cycle
  (\<open>src/src/engines/rootless/supervisor.cpp\<close>).
\<close>

section \<open>Hand-over to the userland loader\<close>

definition inject_load_request ::
  "('m, 'f) sup_host \<Rightarrow> int \<Rightarrow> string \<Rightarrow> string \<Rightarrow> ('m, 'f) supervisor \<Rightarrow> ('m, 'f) supervisor" where
  "inject_load_request h pid request exe s =
     (case (case hs_getregs h pid (sv_fs s) of
              Inl e \<Rightarrow> (e, s)
            | Inr u \<Rightarrow>
                (let rg = fetch_regs u;
                     addr = align_down X86_64 (rg_sp rg - stack_red_zone X86_64 - 256 - of_nat (length request))
                 in case write_mem (hs_mem h) pid (sv_mem s) addr request of
                      (e, m) \<Rightarrow>
                        if e \<noteq> 0 then (e, s\<lparr>sv_mem := m\<rparr>)
                        else commit h pid (set_arg 2 (of_nat (length request)) (set_arg 1 addr rg)) (s\<lparr>sv_mem := m\<rparr>))) of
        (e, s1) \<Rightarrow>
          if e \<noteq> 0
          then kill_task h pid (emit h EK_diagnostic Sev_error ''exec.loader_handover_failed''
                 (''cannot hand the load request to the userland loader: '' @ errno_text e) pid (int e) ''{}'' s1)
          else s1\<lparr>sv_exe_of := (sv_exe_of s1)(pid \<mapsto> exe)\<rparr>)"

section \<open>Calls the host's policy traps\<close>

definition kFdcwd :: "64 word" where "kFdcwd = word_of_int kAtFdcwd"
definition kLegacySkip :: nat where "kLegacySkip = 64 * 1024"

definition set_args :: "64 word list \<Rightarrow> regs \<Rightarrow> regs" where
  "set_args vs rg = foldl (\<lambda>rg (i, v). set_arg (int i) v rg) rg (enumerate 0 vs)"

text \<open>Restart as another call: its arguments and its number are staged.\<close>

definition restart_call ::
  "('m, 'f) sup_host \<Rightarrow> string \<Rightarrow> 64 word list \<Rightarrow> regs \<times> ('m, 'f) supervisor \<Rightarrow> bool \<times> regs \<times> ('m, 'f) supervisor" where
  "restart_call h name vs rs =
     (case rs of (rg, s) \<Rightarrow> (True, restart_as (lookup_nr (hs_table h) name) (set_args vs rg), s))"

definition answer_call :: "int \<Rightarrow> regs \<times> ('m, 'f) supervisor \<Rightarrow> bool \<times> regs \<times> ('m, 'f) supervisor" where
  "answer_call v rs = (case rs of (rg, s) \<Rightarrow> (True, set_return v rg, s))"

definition i64s :: "int list \<Rightarrow> string" where
  "i64s vs = concat (map (\<lambda>v. le_bytes 8 (word_of_int v)) vs)"

definition read_i64s :: "string \<Rightarrow> int list" where
  "read_i64s b = map (\<lambda>i. sint (le_word (sub_bytes (8 * i) 8 b))) [0..<length b div 8]"

text \<open>A converted timeout is placed below the stack pointer, clear of the translation's scratch.\<close>

definition with_scratch ::
  "('m, 'f) sup_host \<Rightarrow> int \<Rightarrow> int list \<Rightarrow> (64 word \<Rightarrow> regs \<times> ('m, 'f) supervisor \<Rightarrow> bool \<times> regs \<times> ('m, 'f) supervisor) \<Rightarrow>
     regs \<times> ('m, 'f) supervisor \<Rightarrow> bool \<times> regs \<times> ('m, 'f) supervisor" where
  "with_scratch h tid vs k rs =
     (case rs of (rg, s) \<Rightarrow>
      case sw_push X86_64 (hs_mem h) (sv_mem s) (sw_skip kLegacySkip (stack_writer_new X86_64 tid (rg_sp rg))) (i64s vs) of
        (Inl e, sw, m) \<Rightarrow> answer_call (- int ENOMEM) (rg, s\<lparr>sv_mem := m\<rparr>)
      | (Inr addr, sw, m) \<Rightarrow> k addr (rg, s\<lparr>sv_mem := m\<rparr>))"

definition with_times ::
  "('m, 'f) sup_host \<Rightarrow> int \<Rightarrow> 64 word \<Rightarrow> nat \<Rightarrow> (int list \<Rightarrow> regs \<times> ('m, 'f) supervisor \<Rightarrow> bool \<times> regs \<times> ('m, 'f) supervisor) \<Rightarrow>
     regs \<times> ('m, 'f) supervisor \<Rightarrow> bool \<times> regs \<times> ('m, 'f) supervisor" where
  "with_times h tid addr n k rs =
     (case read_mem (hs_mem h) tid (sv_mem (snd rs)) addr (8 * n) of
        Inl e \<Rightarrow> answer_call (- int EFAULT) rs
      | Inr b \<Rightarrow> k (read_i64s b) rs)"

definition restart_poll ::
  "('m, 'f) sup_host \<Rightarrow> int \<Rightarrow> regs \<times> ('m, 'f) supervisor \<Rightarrow> bool \<times> regs \<times> ('m, 'f) supervisor" where
  "restart_poll h tid rs =
     (let a = arg (fst rs); ms = int_arg (fst rs) 2;
          go = (\<lambda>ts. restart_call h ''ppoll'' [a 0, a 1, ts, 0, 8])
      in if ms \<ge> 0 then with_scratch h tid [ms div 1000, ms mod 1000 * 1000000] go rs else go 0 rs)"

definition restart_select ::
  "('m, 'f) sup_host \<Rightarrow> int \<Rightarrow> regs \<times> ('m, 'f) supervisor \<Rightarrow> bool \<times> regs \<times> ('m, 'f) supervisor" where
  "restart_select h tid rs =
     (let a = arg (fst rs);
          go = (\<lambda>ts. restart_call h ''pselect6'' [a 0, a 1, a 2, a 3, ts, 0])
      in if a 4 \<noteq> 0
         then with_times h tid (a 4) 2 (\<lambda>tv rs.
                if tv ! 0 < 0 \<or> tv ! 1 < 0 then answer_call (- int EINVAL) rs
                else with_scratch h tid [tv ! 0 + tv ! 1 div 1000000, tv ! 1 mod 1000000 * 1000] go rs) rs
         else go 0 rs)"

definition restart_utimes ::
  "('m, 'f) sup_host \<Rightarrow> int \<Rightarrow> bool \<Rightarrow> regs \<times> ('m, 'f) supervisor \<Rightarrow> bool \<times> regs \<times> ('m, 'f) supervisor" where
  "restart_utimes h tid micro rs =
     (let a = arg (fst rs);
          go = (\<lambda>ts. restart_call h ''utimensat'' [kFdcwd, a 0, ts, 0])
      in if a 1 = 0 then go 0 rs
         else if micro
         then with_times h tid (a 1) 4 (\<lambda>tv. with_scratch h tid [tv ! 0, tv ! 1 * 1000, tv ! 2, tv ! 3 * 1000] go) rs
         else with_times h tid (a 1) 2 (\<lambda>ut. with_scratch h tid [ut ! 0, 0, ut ! 1, 0] go) rs)"

definition answer_time ::
  "('m, 'f) sup_host \<Rightarrow> int \<Rightarrow> regs \<times> ('m, 'f) supervisor \<Rightarrow> bool \<times> regs \<times> ('m, 'f) supervisor" where
  "answer_time h tid rs =
     (case rs of (rg, s) \<Rightarrow>
        (let now = hs_time h (sv_fs s)
         in if arg rg 0 = 0 then answer_call now rs
            else case write_mem (hs_mem h) tid (sv_mem s) (arg rg 0) (i64s [now]) of
                (e, m) \<Rightarrow> answer_call (if e \<noteq> 0 then - int EFAULT else now) (rg, s\<lparr>sv_mem := m\<rparr>)))"

definition restart_legacy ::
  "('m, 'f) sup_host \<Rightarrow> int \<Rightarrow> string \<Rightarrow> regs \<times> ('m, 'f) supervisor \<Rightarrow> bool \<times> regs \<times> ('m, 'f) supervisor" where
  "restart_legacy h tid name rs =
     (let a = arg (fst rs); go = (\<lambda>to_name vs. restart_call h to_name vs rs)
      in if name = ''open'' then go ''openat'' [kFdcwd, a 0, a 1, a 2]
         else if name = ''creat'' then go ''openat'' [kFdcwd, a 0, O_CREAT OR 1 OR O_TRUNC, a 1]
         else if name = ''stat'' then go ''newfstatat'' [kFdcwd, a 0, a 1, 0]
         else if name = ''lstat'' then go ''newfstatat'' [kFdcwd, a 0, a 1, kAtSymlinkNofollow]
         else if name = ''access'' then go ''faccessat'' [kFdcwd, a 0, a 1]
         else if name = ''dup2''
         then (if a 0 \<noteq> a 1 then go ''dup3'' [a 0, a 1, 0]
               else answer_call (case lstat (hs_files h (sv_fs (snd rs))) (proc_fd tid (int_arg (fst rs) 0)) of
                                   Inl e \<Rightarrow> - int EBADF | Inr st \<Rightarrow> int_arg (fst rs) 0) rs)
         else if name = ''pipe'' then go ''pipe2'' [a 0, 0]
         else if name = ''poll'' then restart_poll h tid rs
         else if name = ''select'' then restart_select h tid rs
         else if name = ''epoll_wait'' then go ''epoll_pwait'' [a 0, a 1, a 2, a 3, 0, 8]
         else if name = ''epoll_create''
         then (if int_arg (fst rs) 0 \<le> 0 then answer_call (- int EINVAL) rs else go ''epoll_create1'' [0])
         else if name = ''inotify_init'' then go ''inotify_init1'' [0]
         else if name = ''eventfd'' then go ''eventfd2'' [a 0, 0]
         else if name = ''signalfd'' then go ''signalfd4'' [a 0, a 1, a 2, 0]
         else if name = ''mkdir'' then go ''mkdirat'' [kFdcwd, a 0, a 1]
         else if name = ''mknod'' then go ''mknodat'' [kFdcwd, a 0, a 1, a 2]
         else if name = ''rmdir'' then go ''unlinkat'' [kFdcwd, a 0, kAtRemoveDir]
         else if name = ''unlink'' then go ''unlinkat'' [kFdcwd, a 0, 0]
         else if name = ''rename'' then go ''renameat'' [kFdcwd, a 0, kFdcwd, a 1]
         else if name = ''link'' then go ''linkat'' [kFdcwd, a 0, kFdcwd, a 1, 0]
         else if name = ''symlink'' then go ''symlinkat'' [a 0, kFdcwd, a 1]
         else if name = ''readlink'' then go ''readlinkat'' [kFdcwd, a 0, a 1, a 2]
         else if name = ''chmod'' then go ''fchmodat'' [kFdcwd, a 0, a 1]
         else if name = ''chown'' then go ''fchownat'' [kFdcwd, a 0, a 1, a 2, 0]
         else if name = ''lchown'' then go ''fchownat'' [kFdcwd, a 0, a 1, a 2, kAtSymlinkNofollow]
         else if name = ''utimes'' then restart_utimes h tid True rs
         else if name = ''utime'' then restart_utimes h tid False rs
         else if name = ''getpgrp'' then go ''getpgid'' [0]
         else if name = ''fork'' then go ''clone'' [of_nat SIGCHLD, 0, 0, 0, 0]
         else if name = ''time'' then answer_time h tid rs
         else (False, rs))"

definition kSysSeccomp :: int where "kSysSeccomp = 1"
definition native_audit_arch :: "32 word" where "native_audit_arch = 0xC000003E"

definition identity_handler_call :: "syscall_info \<Rightarrow> bool" where
  "identity_handler_call info \<longleftrightarrow>
     si_handler info \<in> {H_getuid, H_geteuid, H_getgid, H_getegid, H_getresuid, H_getresgid, H_setid} \<or>
     is_call info ''getgroups''"

text \<open>The answer to a trapped call, \<open>ENOSYS\<close> where nothing better is known.\<close>

definition trap_answer ::
  "('m, 'f) sup_host \<Rightarrow> int \<Rightarrow> regs \<Rightarrow> syscall_info option \<Rightarrow> ('m, 'f) supervisor \<Rightarrow> int \<times> ('m, 'f) supervisor" where
  "trap_answer h tid rg info s =
     (case info of
        None \<Rightarrow> (- int ENOSYS, s)
      | Some i \<Rightarrow>
          if identity_handler_call i \<and> has_identity s
          then (case handle_identity h tid rg i s of
                  (act, s1) \<Rightarrow> (if sa_skip act then sa_ret act else - int ENOSYS, s1))
          else if si_handler i = H_setid then (- int EPERM, s)
          else (- int ENOSYS, s))"

definition finish_trap ::
  "('m, 'f) sup_host \<Rightarrow> int \<Rightarrow> int \<Rightarrow> syscall_info option \<Rightarrow> regs \<Rightarrow> ('m, 'f) supervisor \<Rightarrow> bool \<times> ('m, 'f) supervisor" where
  "finish_trap h tid nr info rg s =
     (case trap_answer h tid rg info s of
        (ret, s1) \<Rightarrow>
        case commit h tid (set_return ret rg) s1 of
          (e, s2) \<Rightarrow>
            if e \<noteq> 0 then (False, s2)
            else (let s3 = (if ret = - int ENOSYS then s2\<lparr>sv_denials := count_denial (nr, ENOSYS) (sv_denials s2)\<rparr> else s2)
                  in (True, resume h tid 0 (emit h EK_trace Sev_debug ''syscall.host_policy_trap''
                        (''host seccomp policy refused '' @ (case info of Some i \<Rightarrow> si_name i | None \<Rightarrow> ''syscall'') @
                         '' ('' @ int_string nr @ ''); answered '' @ int_string ret) tid (to_int32 (- ret)) ''{}'' s3))))"

definition handle_host_seccomp_trap :: "('m, 'f) sup_host \<Rightarrow> int \<Rightarrow> ('m, 'f) supervisor \<Rightarrow> bool \<times> ('m, 'f) supervisor" where
  "handle_host_seccomp_trap h tid s =
     (case hs_siginfo h tid (sv_fs s) of
        None \<Rightarrow> (False, s)
      | Some (signo, code, nr, arch) \<Rightarrow>
          if signo \<noteq> int SIGSYS \<or> code \<noteq> kSysSeccomp then (False, s)
          else case (if nr \<ge> 0
                     then (if \<not> sv_host_policy s then (True, s)
                           else case tgid_of h tid s of (tg, s1) \<Rightarrow> (tg \<in> set (sv_guest_filtered s1), s1))
                     else (False, s)) of
            (own, s1) \<Rightarrow>
              if own then (False, s1)
              else if nr < 0 then (True, resume h tid 0 s1)
              else case hs_getregs h tid (sv_fs s1) of
                  Inl e \<Rightarrow> (False, s1)
                | Inr u \<Rightarrow>
                    (let rg = fetch_regs u;
                         info = (if arch = native_audit_arch then lookup_syscall (hs_table h) nr else None)
                     in case (case info of None \<Rightarrow> (False, rg, s1) | Some i \<Rightarrow> restart_legacy h tid (si_name i) (rg, s1)) of
                          (restarted, rg1, s2) \<Rightarrow>
                            if restarted
                            then (case commit h tid rg1 s2 of
                                    (e, s3) \<Rightarrow>
                                      if e \<noteq> 0 then (False, s3)
                                      else (True, resume h tid 0 (emit h EK_trace Sev_debug ''syscall.host_policy_restart''
                                             (''host seccomp policy refused '' @ (case info of Some i \<Rightarrow> si_name i | None \<Rightarrow> []) @
                                              ''; restarted as its modern equivalent'') tid 0 ''{}'' s3)))
                            else finish_trap h tid nr info rg1 s2))"

section \<open>Start and end of a session\<close>

definition finish_start :: "status \<Rightarrow> errno \<Rightarrow> ('m, 'f) supervisor \<Rightarrow> ('m, 'f) supervisor" where
  "finish_start st exec_errno s =
     (if sv_start_state s \<noteq> Start_pending then s
      else s\<lparr>sv_start_state := (if is_ok st then Start_ok else Start_failed), sv_start_status := st,
             sv_result := (sv_result s)\<lparr>er_exec_errno := exec_errno\<rparr>\<rparr>)"

definition finish :: "exit_result \<Rightarrow> ('m, 'f) supervisor \<Rightarrow> ('m, 'f) supervisor" where
  "finish r s =
     (if sv_done s then s
      else s\<lparr>sv_result := (if er_exec_errno r = 0 then r\<lparr>er_exec_errno := er_exec_errno (sv_result s)\<rparr> else r),
             sv_done := True\<rparr>)"

definition signal_main ::
  "('m, 'f) sup_host \<Rightarrow> int \<Rightarrow> ('m, 'f) supervisor \<Rightarrow> status \<times> ('m, 'f) supervisor" where
  "signal_main h signo s =
     (if signo < 0 \<or> signo > 64 then (mk_status Code_invalid_argument ''invalid signal number'', s)
      else if sv_main_pid s \<le> 0 \<or> sv_main_reaped s then (mk_status Code_invalid_state ''guest process is not running'', s)
      else let by_pid = (\<lambda>s. case hs_kill h (sv_main_pid s) signo (sv_fs s) of
                 (e, fs) \<Rightarrow> (if e \<noteq> 0 then errno_status Code_io ''kill'' e else status_ok, s\<lparr>sv_fs := fs\<rparr>))
           in case hs_pidfd_send h signo (sv_fs s) of
                None \<Rightarrow> by_pid s
              | Some (e, fs) \<Rightarrow>
                  if e = 0 then (status_ok, s\<lparr>sv_fs := fs\<rparr>)
                  else if e \<noteq> ENOSYS then (errno_status Code_io ''pidfd_send_signal'' e, s\<lparr>sv_fs := fs\<rparr>)
                  else by_pid (s\<lparr>sv_fs := fs\<rparr>))"

fun exit_reason_value :: "exit_reason \<Rightarrow> nat" where
  "exit_reason_value Exit_none = 0"
| "exit_reason_value Exit_normal = 1"
| "exit_reason_value Exit_signaled = 2"
| "exit_reason_value Exit_timeout = 3"
| "exit_reason_value Exit_cancelled = 4"
| "exit_reason_value Exit_start_failed = 5"

definition reason_of_value :: "nat \<Rightarrow> exit_reason" where
  "reason_of_value n =
     (if n = 1 then Exit_normal else if n = 2 then Exit_signaled else if n = 3 then Exit_timeout
      else if n = 4 then Exit_cancelled else if n = 5 then Exit_start_failed else Exit_none)"

definition cancel_session :: "('m, 'f) sup_host \<Rightarrow> exit_reason \<Rightarrow> ('m, 'f) supervisor \<Rightarrow> ('m, 'f) supervisor" where
  "cancel_session h reason s =
     kill_all h (if sv_cancel_reason s = 0 then s\<lparr>sv_cancel_reason := exit_reason_value reason\<rparr> else s)"

definition remove_proc_scratch :: "('m, 'f) sup_host \<Rightarrow> ('m, 'f) supervisor \<Rightarrow> ('m, 'f) supervisor" where
  "remove_proc_scratch h s =
     (let dir = sv_proc_scratch s;
          drop_entry = (\<lambda>fs n. if n = [] \<or> hd n \<noteq> CHR ''.'' then snd (lk_unlink (hs_link h) (dir @ slash # n) fs) else fs);
          fs1 = (case lk_readdir (hs_link h) (sv_fs s) dir of None \<Rightarrow> sv_fs s | Some ns \<Rightarrow> foldl drop_entry (sv_fs s) ns)
      in if dir = [] then s else s\<lparr>sv_fs := hs_rmdir h dir fs1, sv_proc_scratch := []\<rparr>)"

definition summary_entry :: "('m, 'f) sup_host \<Rightarrow> json_writer \<Rightarrow> (int \<times> errno) \<times> nat \<Rightarrow> json_writer" where
  "summary_entry h w e =
     (case e of ((nr, err), n) \<Rightarrow>
        end_object (value_uint64 n (write_key ''count'' (value_string (vhdp_errno_name err) (write_key ''errno''
          (value_int64 nr (write_key ''nr''
            (value_string (case lookup_syscall (hs_table h) nr of Some i \<Rightarrow> si_name i | None \<Rightarrow> ''unknown'')
              (write_key ''syscall'' (begin_object w))))))))))"

definition summary_json :: "('m, 'f) sup_host \<Rightarrow> ((int \<times> errno) \<times> nat) list \<Rightarrow> string" where
  "summary_json h ds =
     jw_out (end_object (end_array (foldl (summary_entry h)
       (begin_array (write_key ''denials'' (begin_object new_writer))) ds)))"

definition emit_summary :: "('m, 'f) sup_host \<Rightarrow> ('m, 'f) supervisor \<Rightarrow> ('m, 'f) supervisor" where
  "emit_summary h s =
     (if sv_denials s = [] then s
      else emit h EK_diagnostic Sev_info ''syscall.summary'' ''refused syscalls during the session'' 0 0
             (summary_json h (sv_denials s)) s)"

section \<open>Exits and stops\<close>

definition kMaxExited :: nat where "kMaxExited = 4096"

definition wif_exited :: "nat \<Rightarrow> bool" where "wif_exited st \<longleftrightarrow> st mod 128 = 0"
definition wif_signaled :: "nat \<Rightarrow> bool" where "wif_signaled st \<longleftrightarrow> st mod 128 \<noteq> 0 \<and> st mod 128 \<noteq> 127"
definition wif_stopped :: "nat \<Rightarrow> bool" where "wif_stopped st \<longleftrightarrow> st mod 256 = 127"
definition wexitstatus :: "nat \<Rightarrow> nat" where "wexitstatus st = st div 256 mod 256"
definition wtermsig :: "nat \<Rightarrow> nat" where "wtermsig st = st mod 128"

definition handle_exit :: "('m, 'f) sup_host \<Rightarrow> int \<Rightarrow> nat \<Rightarrow> ('m, 'f) supervisor \<Rightarrow> ('m, 'f) supervisor" where
  "handle_exit h pid st s =
     (let ex = (if length (sv_exited s) \<ge> kMaxExited then [] else sv_exited s);
          s1 = remove_tracee pid (s\<lparr>sv_exited := (if pid \<in> set ex then ex else pid # ex)\<rparr>)
      in if pid \<noteq> sv_main_pid s then s1
         else let s2 = s1\<lparr>sv_main_exited := True,
                          sv_main_exit := (if wif_exited st
                            then (sv_main_exit s1)\<lparr>er_reason := Exit_normal, er_exit_code := int (wexitstatus st)\<rparr>
                            else (sv_main_exit s1)\<lparr>er_reason := Exit_signaled, er_term_signal := int (wtermsig st)\<rparr>)\<rparr>
              in kill_all h (if sv_tids s2 = [] then s2
                             else emit h EK_lifecycle Sev_debug ''session.reap_remaining''
                                    (''initial process exited; killing '' @ dec_string (length (sv_tids s2)) @
                                     '' remaining guest task(s)'') pid 0 ''{}'' s2))"

text \<open>A new task, unless its exit was reported already and its id names no live task.\<close>

definition on_fork_event :: "('m, 'f) sup_host \<Rightarrow> int \<Rightarrow> ('m, 'f) supervisor \<Rightarrow> ('m, 'f) supervisor" where
  "on_fork_event h pid s =
     (case hs_event_msg h pid (sv_fs s) of
        None \<Rightarrow> s
      | Some msg \<Rightarrow>
          (let child = sint (ucast msg :: 32 word);
               state = (if child \<in> set (sv_exited s) \<and> sv_tracees s child = None
                        then process_state (hs_read h (sv_fs s)) child else CHR ''R'');
               gone = (state = nul \<or> state = CHR ''Z'' \<or> state = CHR ''X'')
           in if gone then s
              else inherit_process_state h pid child
                     (snd (get_or_add h child (s\<lparr>sv_exited := filter (\<lambda>x. x \<noteq> child) (sv_exited s)\<rparr>)))))"

definition on_exec_event :: "('m, 'f) sup_host \<Rightarrow> int \<Rightarrow> ('m, 'f) supervisor \<Rightarrow> ('m, 'f) supervisor" where
  "on_exec_event h pid s =
     (let former = (case hs_event_msg h pid (sv_fs s) of
                      None \<Rightarrow> None
                    | Some msg \<Rightarrow> (let p = sint (ucast msg :: 32 word) in if p \<noteq> pid then Some p else None));
          carried = (case former of
                       None \<Rightarrow> ([], [])
                     | Some p \<Rightarrow> (case sv_tracees s p of None \<Rightarrow> ([], []) | Some t \<Rightarrow> (tr_load_request t, tr_load_exe t)));
          s1 = (case former of None \<Rightarrow> s | Some p \<Rightarrow> remove_tracee p s);
          cur = the_tracee s1 pid;
          req = (if fst carried = [] then (tr_load_request cur, tr_load_exe cur) else carried);
          s2 = put_tracee pid (cur\<lparr>tr_load_request := [], tr_load_exe := []\<rparr>) s1;
          s3 = (if fst req \<noteq> [] then inject_load_request h pid (fst req) (snd req) s2 else s2);
          t3 = (the_tracee s3 pid)\<lparr>tr_exec_seen := True, tr_tgid := pid\<rparr>;
          t4 = (if so_use_seccomp (sv_opts s3) then t3 else t3\<lparr>tr_in_syscall := True\<rparr>)
      in resume h pid 0
           (if tr_bootstrap t4
            then finish_start status_ok 0
                   (emit h EK_lifecycle Sev_info ''session.running'' ''guest program started'' pid 0 ''{}''
                      ((put_tracee pid (t4\<lparr>tr_bootstrap := False\<rparr>) s3)\<lparr>sv_err_pipe := False\<rparr>))
            else put_tracee pid t4 s3))"

definition on_group_stop :: "('m, 'f) sup_host \<Rightarrow> int \<Rightarrow> nat \<Rightarrow> ('m, 'f) supervisor \<Rightarrow> ('m, 'f) supervisor" where
  "on_group_stop h pid sig s =
     (if tr_fresh (the_tracee s pid) then resume h pid 0 (put_tracee pid ((the_tracee s pid)\<lparr>tr_fresh := False\<rparr>) s)
      else if sig = SIGSTOP \<or> sig = SIGTSTP \<or> sig = SIGTTIN \<or> sig = SIGTTOU
      then (case hs_listen h pid (sv_fs s) of
              (e, fs) \<Rightarrow> if e \<noteq> 0 \<and> e \<noteq> ESRCH then resume h pid 0 (s\<lparr>sv_fs := fs\<rparr>) else s\<lparr>sv_fs := fs\<rparr>)
      else resume h pid 0 s)"

definition on_ptrace_event :: "('m, 'f) sup_host \<Rightarrow> int \<Rightarrow> nat \<Rightarrow> ('m, 'f) supervisor \<Rightarrow> ('m, 'f) supervisor" where
  "on_ptrace_event h pid ev s =
     (if ev = kEventFork \<or> ev = kEventVfork \<or> ev = kEventClone then resume h pid 0 (on_fork_event h pid s)
      else if ev = kEventExec then on_exec_event h pid s
      else if ev = kEventSeccomp
      then (case hs_event_msg h pid (sv_fs s) of
              None \<Rightarrow> resume h pid 0 s
            | Some msg \<Rightarrow> if msg AND 0xffff = ucast kSeccompTraceMarker then on_syscall_enter h pid s else resume h pid 0 s)
      else resume h pid 0 s)"

definition on_signal_stop :: "('m, 'f) sup_host \<Rightarrow> int \<Rightarrow> nat \<Rightarrow> ('m, 'f) supervisor \<Rightarrow> ('m, 'f) supervisor" where
  "on_signal_stop h pid sig s =
     (let fresh = tr_fresh (the_tracee s pid);
          s1 = (if fresh then put_tracee pid ((the_tracee s pid)\<lparr>tr_fresh := False\<rparr>) s else s)
      in if fresh \<and> sig = SIGSTOP then resume h pid 0 s1
         else if sig = SIGSYS
         then (case handle_host_seccomp_trap h pid s1 of
                 (handled, s2) \<Rightarrow> if handled then s2 else resume h pid (int sig) s2)
         else resume h pid (int sig) s1)"

text \<open>\<open>created\<close> is covered by \<open>fresh\<close>: a new entry is fresh.\<close>

definition handle_stop :: "('m, 'f) sup_host \<Rightarrow> int \<Rightarrow> nat \<Rightarrow> ('m, 'f) supervisor \<Rightarrow> ('m, 'f) supervisor" where
  "handle_stop h pid st s0 =
     (let s = snd (get_or_add h pid s0);
          sig = st div 256 mod 256;
          ev = st div 65536 mod 256
      in if sig = SIGTRAP + 128 then on_syscall_stop h pid s
         else if ev = kEventStop then on_group_stop h pid sig s
         else if sig = SIGTRAP \<and> ev \<noteq> 0 then on_ptrace_event h pid ev s
         else on_signal_stop h pid sig s)"

section \<open>The event loop\<close>

datatype wait_report = Reported int nat | Wait_failed errno

text \<open>Over the reports \<open>waitpid\<close> gives, in order; it ends with \<open>ECHILD\<close> or another error.\<close>

fun event_loop :: "('m, 'f) sup_host \<Rightarrow> wait_report list \<Rightarrow> ('m, 'f) supervisor \<Rightarrow> ('m, 'f) supervisor" where
  "event_loop h [] s = s"
| "event_loop h (Wait_failed e # rs) s =
     (if e = EINTR then event_loop h rs s
      else if e = ECHILD then s
      else kill_all h (emit h EK_log Sev_error ''supervisor.wait_failed'' (''waitpid: '' @ errno_text e) 0 (int e) ''{}'' s))"
| "event_loop h (Reported pid st # rs) s =
     event_loop h rs
       (if wif_exited st \<or> wif_signaled st then handle_exit h pid st s
        else if wif_stopped st then handle_stop h pid st s else s)"

definition stage_name :: "int \<Rightarrow> string" where
  "stage_name n =
     (if n = 1 then ''signal reset'' else if n = 2 then ''session/controlling terminal''
      else if n = 3 then ''stdio setup'' else if n = 4 then ''tracer synchronisation''
      else if n = 5 then ''chdir'' else if n = 6 then ''close-on-exec'' else if n = 7 then ''no_new_privs''
      else if n = 8 then ''seccomp filter'' else if n = 9 then ''execve'' else ''unknown'')"

definition kBootStageExec :: int where "kBootStageExec = 9"

text \<open>The end of \<open>run\<close>; \<open>msg\<close> is the stage and errno the bootstrap left in its error pipe, if any.\<close>

definition run_end ::
  "('m, 'f) sup_host \<Rightarrow> (int \<times> errno) option \<Rightarrow> ('m, 'f) supervisor \<Rightarrow> ('m, 'f) supervisor" where
  "run_end h msg s =
     (let reason = reason_of_value (sv_cancel_reason s)
      in if sv_start_state s \<noteq> Start_ok
         then (let pipe = (if sv_err_pipe s then msg else None);
                   exec_errno = (case pipe of Some (stage, e) \<Rightarrow> e | None \<Rightarrow> 0);
                   st = (case pipe of
                           Some (stage, e) \<Rightarrow>
                             mk_status (if stage = kBootStageExec then Code_exec_failed else Code_internal)
                               (''guest bootstrap failed at '' @ stage_name stage @ '': '' @ errno_text e)
                         | None \<Rightarrow>
                             if reason \<noteq> Exit_none then mk_status Code_cancelled ''session cancelled during start''
                             else mk_status Code_exec_failed ''guest process exited before exec completed'');
                   s1 = emit h EK_lifecycle Sev_error ''session.start_failed'' (st_message st) (sv_main_pid s) (int exec_errno) ''{}'' s
               in finish (no_result\<lparr>er_reason := (if reason \<noteq> Exit_none then reason else Exit_start_failed),
                                    er_status := st, er_exec_errno := exec_errno\<rparr>)
                    (finish_start st exec_errno s1))
         else finish (if reason \<noteq> Exit_none then (sv_main_exit s)\<lparr>er_reason := reason\<rparr> else sv_main_exit s)
                (emit_summary h s))"

end
