(* ===== verification/Drivers.thy ===== *)
theory Drivers
  imports Config Resolver_Safety
begin

text \<open>
  The drivers of a session (\<open>src/vdr/drivers.cpp\<close>): the mounts they project and the table built from
  a validated configuration, and the pseudo-terminal's input and output loops.  What \<open>stat\<close> says of a
  device node and the results of \<open>poll\<close>, \<open>read\<close> and \<open>write\<close> are parameters.
\<close>

section \<open>Mounts\<close>

definition kNodes :: "string list" where
  "kNodes = [''/dev/null'', ''/dev/zero'', ''/dev/full'', ''/dev/random'', ''/dev/urandom'', ''/dev/tty'', ''/dev/ptmx'']"

definition device_mount :: "string \<Rightarrow> mount" where
  "device_mount n = \<lparr>m_guest = n, m_host = n, m_read_only = False, m_kind = Kind_device, m_source = ''vdr:dev-minimal''\<rparr>"

text \<open>\<open>is_chr\<close>, \<open>is_dir\<close>: the node exists on the host with that type.\<close>

definition dev_minimal_mounts :: "(string \<Rightarrow> bool) \<Rightarrow> (string \<Rightarrow> bool) \<Rightarrow> mount list" where
  "dev_minimal_mounts is_chr is_dir =
     map device_mount (filter is_chr kNodes) @ (if is_dir ''/dev/pts'' then [device_mount ''/dev/pts''] else [])"

definition proc_host_mount :: mount where
  "proc_host_mount = \<lparr>m_guest = ''/proc'', m_host = ''/proc'', m_read_only = True, m_kind = Kind_proc, m_source = ''vdr:proc-host''\<rparr>"

definition host_bind_mounts :: "bind_spec list \<Rightarrow> mount list" where
  "host_bind_mounts binds =
     map (\<lambda>b. \<lparr>m_guest = bs_guest b, m_host = bs_host b, m_read_only = \<not> bs_read_write b, m_kind = Kind_bind,
               m_source = ''host-bind''\<rparr>) binds"

definition build_mount_table :: "(string \<Rightarrow> bool) \<Rightarrow> (string \<Rightarrow> bool) \<Rightarrow> validated_config \<Rightarrow> mount_table" where
  "build_mount_table is_chr is_dir v =
     (let c = vc_cfg v;
          t0 = mount_table_new (sc_rootfs c) (sc_read_only_rootfs c);
          t1 = (if sc_dev c = Dev_minimal then foldl add_mount t0 (dev_minimal_mounts is_chr is_dir) else t0);
          t2 = (if sc_proc c = Proc_host then add_mount t1 proc_host_mount else t1)
      in foldl add_mount t2 (host_bind_mounts (sc_binds c)))"

section \<open>The pseudo-terminal\<close>

definition pty_resize :: "(nat \<Rightarrow> nat \<Rightarrow> errno) \<Rightarrow> nat \<Rightarrow> nat \<Rightarrow> status" where
  "pty_resize winsz rows cols =
     (if rows = 0 \<or> cols = 0 then mk_status Code_invalid_argument ''PTY rows and columns must be non-zero''
      else let e = winsz rows cols in if e \<noteq> 0 then errno_status Code_io ''TIOCSWINSZ'' e else status_ok)"

definition EAGAIN :: errno where "EAGAIN = 11"

text \<open>
  \<open>write_input\<close>: the results of the successive \<open>write\<close> calls, an errno or the number of bytes taken.
  The outcome is the status and the number of bytes written; \<open>None\<close> when the results run out first.
\<close>

fun pty_write_loop :: "nat \<Rightarrow> nat \<Rightarrow> (errno + nat) list \<Rightarrow> (status \<times> nat) option" where
  "pty_write_loop len written rs =
     (if written \<ge> len then Some (status_ok, written)
      else case rs of
          [] \<Rightarrow> None
        | Inl e # rs' \<Rightarrow>
            if e = EINTR then pty_write_loop len written rs'
            else if e = EAGAIN \<and> written > 0 then Some (status_ok, written)
            else Some (errno_status Code_io ''write to PTY master'' e, written)
        | Inr n # rs' \<Rightarrow> pty_write_loop len (written + n) rs')"

definition pty_write_input :: "nat \<Rightarrow> (errno + nat) list \<Rightarrow> (status \<times> nat) option" where
  "pty_write_input len rs = pty_write_loop len 0 rs"

text \<open>
  One round of the output pump: what \<open>poll\<close> said of the master and of the wake descriptor, and what
  \<open>read\<close> gave where the master was ready.
\<close>

datatype pump_round =
    Poll_failed errno
  | Master_ready "errno + string"
  | Wake_only bool

text \<open>The chunks handed to the callback; \<open>stopping\<close> is what the flag holds at each wake-up.\<close>

fun pump_main :: "pump_round list \<Rightarrow> string list" where
  "pump_main [] = []"
| "pump_main (Poll_failed e # rs) = (if e = EINTR then pump_main rs else [])"
| "pump_main (Master_ready (Inl e) # rs) = (if e = EINTR \<or> e = EAGAIN then pump_main rs else [])"
| "pump_main (Master_ready (Inr out) # rs) = (if out = [] then [] else out # pump_main rs)"
| "pump_main (Wake_only stopping # rs) = (if stopping then [] else pump_main rs)"

section \<open>The table of a validated configuration\<close>

lemma foldl_add_mount [simp]: "foldl add_mount t ms = t @ ms"
  by (induction ms arbitrary: t) (simp_all add: add_mount_def)

lemma build_mount_table_append:
  "build_mount_table is_chr is_dir v =
     mount_table_new (sc_rootfs (vc_cfg v)) (sc_read_only_rootfs (vc_cfg v)) @
     (if sc_dev (vc_cfg v) = Dev_minimal then dev_minimal_mounts is_chr is_dir else []) @
     (if sc_proc (vc_cfg v) = Proc_host then [proc_host_mount] else []) @
     host_bind_mounts (sc_binds (vc_cfg v))"
  by (simp add: build_mount_table_def Let_def add_mount_def)

lemma canonical_nodes: "list_all canonical (''/proc'' # ''/dev/pts'' # kNodes)"
  by code_simp

lemma dev_minimal_mounts_set:
  "m \<in> set (dev_minimal_mounts is_chr is_dir) \<Longrightarrow> m_guest m = m_host m \<and> m_host m \<in> set (''/dev/pts'' # kNodes)"
  by (auto simp: dev_minimal_mounts_def device_mount_def split: if_splits)

text \<open>The realpath contract: what it returns is an absolute path without dots or doubled slashes.\<close>

definition realpath_canonical :: "config_host \<Rightarrow> bool" where
  "realpath_canonical h \<longleftrightarrow> (\<forall>p d. ch_realpath h p = Inr d \<longrightarrow> canonical d)"

lemma build_mount_table_ok:
  assumes "config_ok h v" and "realpath_canonical h"
  shows "table_ok (build_mount_table is_chr is_dir v)"
proof -
  have dev: "canonical (m_guest m) \<and> canonical (m_host m)" if "m \<in> set (dev_minimal_mounts is_chr is_dir)" for m
    using dev_minimal_mounts_set [OF that] canonical_nodes by (auto simp: list_all_iff)
  have bind: "canonical (bs_guest b) \<and> canonical (bs_host b)" if "b \<in> set (sc_binds (vc_cfg v))" for b
    using assms that by (auto simp: config_ok_def Let_def list_all_iff bind_ok_def realpath_canonical_def)
  have root: "canonical (sc_rootfs (vc_cfg v))"
    using assms by (auto simp: config_ok_def Let_def realpath_canonical_def)
  have "canonical ''/''" by code_simp
  then show ?thesis
    using dev bind root canonical_nodes
    by (auto simp: table_ok_def build_mount_table_append mount_table_new_def proc_host_mount_def
        host_bind_mounts_def list_all_iff)
qed

lemma build_mount_table_hosts:
  assumes "m \<in> set (build_mount_table is_chr is_dir v)"
  shows "m_host m = sc_rootfs (vc_cfg v) \<or> m_host m \<in> bs_host ` set (sc_binds (vc_cfg v)) \<or>
    sc_proc (vc_cfg v) = Proc_host \<and> m_host m = ''/proc'' \<or>
    sc_dev (vc_cfg v) = Dev_minimal \<and> m_host m \<in> set (''/dev/pts'' # kNodes)"
  using assms dev_minimal_mounts_set
  by (auto simp: build_mount_table_append mount_table_new_def proc_host_mount_def host_bind_mounts_def split: if_splits)

section \<open>Properties\<close>

text \<open>
  C4: From configuration to kernel: once a configuration has been validated, every path a guest of
  its session names resolves to a host path below the root file system, below the source of one of
  its binds, below the host's /proc when that is projected, or below one of the projected device
  nodes; nothing else of the host is reachable.\<close>

theorem validated_session_confined:
  assumes "validate_config h c = Inr v" and "realpath_canonical h"
    and "cache_opt_sound fs (build_mount_table is_chr is_dir v) cache"
    and "fst (resolve fs (build_mount_table is_chr is_dir v) p opts cache) = Inr r"
  shows "\<exists>top. is_below (r_host r) top \<and>
    (top = sc_rootfs (vc_cfg v) \<or> top \<in> bs_host ` set (sc_binds (vc_cfg v)) \<or>
     sc_proc (vc_cfg v) = Proc_host \<and> top = ''/proc'' \<or>
     sc_dev (vc_cfg v) = Dev_minimal \<and> top \<in> set (''/dev/pts'' # kNodes))"
proof -
  have "table_ok (build_mount_table is_chr is_dir v)"
    using build_mount_table_ok [OF validated_config_ok [OF assms(1)] assms(2)] .
  then obtain m where "m \<in> set (build_mount_table is_chr is_dir v)" "is_below (r_host r) (m_host m)"
    using resolve_result_contained [OF _ assms(3,4)] by blast
  then show ?thesis using build_mount_table_hosts by blast
qed

lemma realpath_sample: "realpath_canonical Config.sample_host"
proof -
  have "canonical ''/data/r''" "canonical ''/w''" by code_simp+
  then show ?thesis by (simp add: realpath_canonical_def Config.sample_host_def)
qed

definition all_dirs_fs :: host_fs where
  "all_dirs_fs = \<lparr>lstat = (\<lambda>_. Inr \<lparr>st_dev = 1, st_ino = 1, st_type = FT_dir\<rparr>), readlink = (\<lambda>_. Inl EINVAL)\<rparr>"

theorem validated_session_confined_witness:
  "\<exists>r. fst (resolve all_dirs_fs (build_mount_table (\<lambda>_. True) (\<lambda>_. True) sample_validated) ''/etc/../mnt/w/a'' default_options None) = Inr r \<and>
    (\<exists>top. is_below (r_host r) top \<and>
      (top = sc_rootfs (vc_cfg sample_validated) \<or> top \<in> bs_host ` set (sc_binds (vc_cfg sample_validated)) \<or>
       sc_proc (vc_cfg sample_validated) = Proc_host \<and> top = ''/proc'' \<or>
       sc_dev (vc_cfg sample_validated) = Dev_minimal \<and> top \<in> set (''/dev/pts'' # kNodes)))"
proof -
  let ?t = "build_mount_table (\<lambda>_. True) (\<lambda>_. True) sample_validated"
  let ?r = "fst (resolve all_dirs_fs ?t ''/etc/../mnt/w/a'' default_options None)"
  have "case ?r of Inr r \<Rightarrow> r_host r = ''/w/a'' | Inl e \<Rightarrow> False" by code_simp
  then obtain r where r: "?r = Inr r" by (cases ?r) simp_all
  have "cache_opt_sound all_dirs_fs ?t None" by simp
  from validated_session_confined [OF sample_validates realpath_sample this r] r show ?thesis by blast
qed

end
