(* ===== verification/Spawn.thy ===== *)
theory Spawn
  imports Supervisor_Events Drivers
begin

text \<open>
  \<open>Supervisor::prepare_and_spawn\<close> (\<open>src/src/engines/rootless/supervisor.cpp\<close>): the checks before the
  first process is created, the seccomp policy of the session, the bootstrap record and the attach.
\<close>

section \<open>The program to run\<close>

definition kDefaultPath :: string where
  "kDefaultPath = ''/usr/local/sbin:/usr/local/bin:/usr/sbin:/usr/bin:/sbin:/bin''"

definition path_of_env :: "string list \<Rightarrow> string" where
  "path_of_env env = foldl (\<lambda>p kv. if starts_with kv ''PATH='' then drop 5 kv else p) kDefaultPath env"

fun first_shell :: "host_fs \<Rightarrow> mount_table \<Rightarrow> string list \<Rightarrow> string option" where
  "first_shell fs t [] = None"
| "first_shell fs t (sh # shs) =
     (case fst (resolve fs t sh default_options None) of
        Inl e \<Rightarrow> first_shell fs t shs
      | Inr r \<Rightarrow> if r_exists r \<and> \<not> r_is_dir r then Some sh else first_shell fs t shs)"

definition fail_start ::
  "('m, 'f) sup_host \<Rightarrow> code \<Rightarrow> string \<Rightarrow> errno \<Rightarrow> string \<Rightarrow> ('m, 'f) supervisor \<Rightarrow> ('m, 'f) supervisor" where
  "fail_start h c msg exec_errno name s =
     (let st = mk_status c msg
      in finish (no_result\<lparr>er_reason := Exit_start_failed, er_status := st, er_exec_errno := exec_errno\<rparr>)
           (finish_start st exec_errno (emit h EK_lifecycle Sev_error name msg 0 (int exec_errno) ''{}'' s)))"

text \<open>A step of the preparation fails with a code, a message, an errno and the name of its event.\<close>

type_synonym start_failure = "code \<times> string \<times> errno \<times> string"

definition prepare_cwd :: "('m, 'f) sup_host \<Rightarrow> ('m, 'f) supervisor \<Rightarrow> start_failure + resolved" where
  "prepare_cwd h s =
     (let c = sv_cfg s;
          bad = (\<lambda>err. Inl (Code_invalid_argument,
                  ''guest working directory '' @ sc_cwd c @ '' is not usable: '' @ errno_text err, err, ''session.cwd_invalid''))
      in case fst (resolve (hs_files h (sv_fs s)) (sv_mounts s) (sc_cwd c) default_options None) of
           Inl e \<Rightarrow> bad e
         | Inr r \<Rightarrow> if \<not> r_exists r then bad ENOENT else if \<not> r_is_dir r then bad ENOTDIR else Inr r)"

definition choose_program ::
  "('m, 'f) sup_host \<Rightarrow> ('m, 'f) supervisor \<Rightarrow> (start_failure + string \<times> string list) \<times> ('m, 'f) supervisor" where
  "choose_program h s =
     (let c = sv_cfg s; path_list = path_of_env (sv_final_env s)
      in case sc_argv c of
           [] \<Rightarrow>
             (case first_shell (hs_files h (sv_fs s)) (sv_mounts s) [''/bin/sh'', ''/bin/bash'', ''/bin/ash''] of
                None \<Rightarrow> (Inl (Code_exec_failed, ''no command given and no shell (/bin/sh, /bin/bash, /bin/ash) in the rootfs'',
                           ENOENT, ''session.no_shell''), s)
              | Some p \<Rightarrow> (Inr (p, [p]), emit h EK_log Sev_info ''session.default_shell'' (''no command given; running '' @ p) 0 0 ''{}'' s))
         | a0 # as \<Rightarrow>
             if slash \<notin> set a0
             then (case search_path (hs_exec h (sv_fs s)) (sv_mounts s) default_options (sc_cwd c) a0 path_list of
                     Inl e \<Rightarrow> (Inl (Code_exec_failed,
                        ''command '' @ [CHR 0x27] @ a0 @ [CHR 0x27] @ '' not found in guest PATH ('' @ path_list @ '')'', e,
                        ''session.command_not_found''), s)
                   | Inr p \<Rightarrow> (Inr (p, sc_argv c), s))
             else (Inr (a0, sc_argv c), s))"

text \<open>The plan of the first program and, in loader mode, its load request.\<close>

definition prepare_plan ::
  "('m, 'f) sup_host \<Rightarrow> string \<Rightarrow> string list \<Rightarrow> ('m, 'f) supervisor \<Rightarrow>
     (start_failure + exec_plan \<times> string) \<times> ('m, 'f) supervisor" where
  "prepare_plan h program argv s =
     (let c = sv_cfg s
      in case plan (hs_exec h (sv_fs s)) (sv_mounts s) program argv (sc_cwd c) default_options (sv_argv0_cache s) of
           (Inl (e, diag), cache) \<Rightarrow>
             (let msg = ''cannot execute '' @ program @ '': '' @ errno_text e; s1 = s\<lparr>sv_argv0_cache := cache\<rparr>
              in case diag of
                   None \<Rightarrow> (Inl (Code_exec_failed, msg, e, ''session.exec_failed''), s1)
                 | Some (nm, m) \<Rightarrow>
                     if m = [] then (Inl (Code_exec_failed, msg, e, ''session.exec_failed''), s1)
                     else (Inl (Code_exec_failed, msg @ ''; '' @ m, e, ''session.exec_failed''),
                           emit h EK_diagnostic Sev_error nm m 0 (int e) ''{}'' s1))
         | (Inr p, cache) \<Rightarrow>
             (let s1 = s\<lparr>sv_argv0_cache := cache\<rparr>
              in if loader_mode s1
                 then (let request = make_load_request p (if is_absolute program then program else join (sc_cwd c) program)
                       in if request = []
                          then (Inl (Code_exec_failed, ''cannot execute '' @ program @ '': paths too long for the loader request'',
                                 ENAMETOOLONG, ''session.exec_failed''), s1)
                          else (Inr (p\<lparr>ep_host_exec := so_loader_path (sv_opts s1), ep_argv := ep_program_argv p\<rparr>, request), s1))
                 else (Inr (p, []), s1)))"

section \<open>Policy\<close>

definition probe_links :: "('m, 'f) sup_host \<Rightarrow> ('m, 'f) supervisor \<Rightarrow> ('m, 'f) supervisor" where
  "probe_links h s =
     (let tmp = (case hs_env h ''TMPDIR'' of
                   None \<Rightarrow> ''/tmp'' | Some d \<Rightarrow> if d \<noteq> [] \<and> hd d = slash then d else ''/tmp'');
          s1 = (if m_read_only (hd (sv_mounts s)) then s
                else case kernel_refuses_link (hs_link h) tmp (sv_fs s) of (b, fs) \<Rightarrow> s\<lparr>sv_links_enabled := b, sv_fs := fs\<rparr>);
          s2 = s1\<lparr>sv_links := scan (hs_link h) (sv_fs s1) (sv_mounts s1) (sv_links s1)\<rparr>
      in if sv_links_enabled s2
         then emit h EK_log Sev_info ''fs.hardlink_emulation''
                ''the host refuses link(2) in the rootfs; hard links are emulated'' 0 0 ''{}'' s2
         else s2)"

definition probe_host :: "('m, 'f) sup_host \<Rightarrow> ('m, 'f) supervisor \<Rightarrow> ('m, 'f) supervisor" where
  "probe_host h s =
     (let e = hs_audit_socket h (sv_fs s)
      in s\<lparr>sv_host_policy := (hs_seccomp_status h (sv_fs s) \<noteq> ''0''),
           sv_audit_refused := (if e = 0 then sv_audit_refused s else e = EACCES \<or> e = EPERM)\<rparr>)"

definition filter_allows :: "('m, 'f) supervisor \<Rightarrow> syscall_info \<Rightarrow> bool" where
  "filter_allows s i =
     (let identity = has_identity s;
          a1 = (si_cls i = Cls_pass_through);
          a2 = (if identity \<and> (is_call i ''fstat'' \<or> is_call i ''getgroups'') then False else a1);
          a3 = (if (sv_links_enabled s \<or> has_objects (sv_links s)) \<and> is_call i ''fstat'' then False else a2);
          a4 = (if sv_links_enabled s \<and> is_call i ''getdents64'' then False else a3);
          a5 = (if is_call i ''seccomp'' then False else a4);
          a6 = (if is_call i ''prctl'' then False else a5);
          a7 = (if \<not> identity \<and>
                   si_handler i \<in> {H_getuid, H_geteuid, H_getgid, H_getegid, H_getresuid, H_getresgid, H_setid}
                then True else a6)
      in if si_handler i = H_socket \<and> sc_network (sv_cfg s) = Net_host \<and> \<not> sv_audit_refused s then True else a7)"

definition session_policy :: "('m, 'f) sup_host \<Rightarrow> ('m, 'f) supervisor \<Rightarrow> filter_policy" where
  "session_policy h s =
     (if sc_trace (sv_cfg s)
      then \<lparr>fp_audit_arch = native_audit_arch, fp_check_x32 = True, fp_allow = [], fp_network_none = False,
            fp_nr_socket = - 1, fp_nr_clone = - 1, fp_nr_sendto = - 1\<rparr>
      else \<lparr>fp_audit_arch = native_audit_arch, fp_check_x32 = True,
            fp_allow = map si_nr (filter (filter_allows s) (hs_table h)),
            fp_network_none = (sc_network (sv_cfg s) = Net_none),
            fp_nr_socket = lookup_nr (hs_table h) ''socket'', fp_nr_clone = lookup_nr (hs_table h) ''clone'',
            fp_nr_sendto = lookup_nr (hs_table h) ''sendto''\<rparr>)"

section \<open>The first process\<close>

definition kMaxFd :: nat where "kMaxFd = 2 ^ 20"

definition stdio_setup :: "session_config \<Rightarrow> int option \<Rightarrow> int list \<times> int \<times> bool" where
  "stdio_setup c slave =
     (case (sc_stdio c, slave) of
        (Stdio_pty, Some fd) \<Rightarrow> ([fd, fd, fd], fd, True)
      | (Stdio_fds, _) \<Rightarrow> (map (\<lambda>i. sc_stdio_fds c ! i) [0..<3], - 1, False)
      | _ \<Rightarrow> ([- 1, - 1, - 1], - 1, False))"

definition make_bootstrap ::
  "('m, 'f) sup_host \<Rightarrow> ('m, 'f) supervisor \<Rightarrow> int option \<Rightarrow> resolved \<Rightarrow> exec_plan \<Rightarrow> sock_filter list option \<Rightarrow>
     int \<Rightarrow> int \<Rightarrow> int \<Rightarrow> bootstrap" where
  "make_bootstrap h s slave cwd p prog ready_fd sync_fd error_fd =
     (case stdio_setup (sv_cfg s) slave of (fds, ctty, new) \<Rightarrow>
        \<lparr>bs_ready_fd = ready_fd, bs_sync_fd = sync_fd, bs_error_fd = error_fd, bs_stdio_fds = fds, bs_ctty_fd = ctty,
         bs_new_session = new, bs_reset_signals = True,
         bs_max_fd = (case hs_rlimit_nofile h (sv_fs s) of None \<Rightarrow> 65536 | Some n \<Rightarrow> min n kMaxFd),
         bs_host_cwd = r_host cwd, bs_exec_path = ep_host_exec p, bs_argv = ep_argv p, bs_envp = sv_final_env s,
         bs_seccomp = prog\<rparr>)"

definition spawned_detail :: "('m, 'f) supervisor \<Rightarrow> exec_plan \<Rightarrow> string" where
  "spawned_detail s p =
     (let w1 = value_bool (ep_via_loader p) (write_key ''via_loader'' (value_string (ep_host_exec p) (write_key ''host_exec''
            (value_string (ep_guest_program p) (write_key ''program'' (begin_object new_writer))))));
          w2 = (if ep_via_loader p
                then value_bool (ep_loader_argv0 p) (write_key ''loader_argv0'' (value_string (ep_guest_loader p) (write_key ''loader'' w1)))
                else w1)
      in jw_out (end_object (value_string (sc_cwd (sv_cfg s)) (write_key ''cwd''
           (value_bool (so_use_seccomp (sv_opts s)) (write_key ''seccomp''
             (value_string (so_loader_path (sv_opts s)) (write_key ''userland_loader'' w2))))))))"

definition kTraceOptions :: "64 word" where "kTraceOptions = 0x10001F"
definition kOptTraceSeccomp :: "64 word" where "kOptTraceSeccomp = 0x80"

text \<open>
  \<open>pid\<close> was created: it is known from here on; a failed attach kills and reaps it, a successful one
  makes it the task whose next exec starts the session.
\<close>

definition attach ::
  "('m, 'f) sup_host \<Rightarrow> int \<Rightarrow> exec_plan \<Rightarrow> string \<Rightarrow> int \<Rightarrow> ('m, 'f) supervisor \<Rightarrow> bool \<times> ('m, 'f) supervisor" where
  "attach h pid p request sync_fd s =
     (let s1 = s\<lparr>sv_main_pid := pid, sv_known := (if pid \<in> set (sv_known s) then sv_known s else pid # sv_known s),
                 sv_err_pipe := True\<rparr>
      in case hs_seize h pid (if so_use_seccomp (sv_opts s1) then kTraceOptions OR kOptTraceSeccomp else kTraceOptions) (sv_fs s1) of
           (e, fs) \<Rightarrow>
             if e \<noteq> 0
             then (False, fail_start h Code_engine_unavailable (''PTRACE_SEIZE of the guest failed: '' @ errno_text e) 0
                     ''session.ptrace_denied''
                     (s1\<lparr>sv_fs := hs_reap h pid (snd (hs_kill h pid SIGKILL fs)), sv_main_reaped := True,
                         sv_known := filter (\<lambda>x. x \<noteq> pid) (sv_known s1)\<rparr>))
             else (let s2 = snd (get_or_add h pid (s1\<lparr>sv_fs := fs\<rparr>));
                       t = (the_tracee s2 pid)\<lparr>tr_fresh := False, tr_bootstrap := True, tr_tgid := pid, tr_load_request := request,
                              tr_load_exe := ep_guest_program p\<rparr>;
                       s3 = emit h EK_lifecycle Sev_debug ''session.spawned'' ''guest process created'' pid 0 (spawned_detail s2 p)
                              (put_tracee pid t s2)
                   in (True, s3\<lparr>sv_fs := hs_go h sync_fd (sv_fs s3)\<rparr>)))"

text \<open>The pipes, the child and the attach.\<close>

definition spawn_process ::
  "('m, 'f) sup_host \<Rightarrow> int option \<Rightarrow> resolved \<Rightarrow> exec_plan \<Rightarrow> string \<Rightarrow> sock_filter list option \<Rightarrow> ('m, 'f) supervisor \<Rightarrow>
     bool \<times> ('m, 'f) supervisor" where
  "spawn_process h slave cwd p request prog s =
     (let bad = (\<lambda>what e s. (False, fail_start h Code_io (what @ errno_text e) 0 ''session.spawn_failed'' s))
      in case hs_pipe h (sv_fs s) of
           (Inl e, fs) \<Rightarrow> bad ''pipe2: '' e (s\<lparr>sv_fs := fs\<rparr>)
         | (Inr (sync_rd, sync_wr), fs1) \<Rightarrow>
         case hs_pipe h fs1 of
           (Inl e, fs) \<Rightarrow> bad ''pipe2: '' e (s\<lparr>sv_fs := fs\<rparr>)
         | (Inr (err_rd, err_wr), fs2) \<Rightarrow>
         case hs_pipe h fs2 of
           (Inl e, fs) \<Rightarrow> bad ''pipe2: '' e (s\<lparr>sv_fs := fs\<rparr>)
         | (Inr (ready_rd, ready_wr), fs3) \<Rightarrow>
         case hs_spawn h (make_bootstrap h (s\<lparr>sv_fs := fs3\<rparr>) slave cwd p prog ready_wr sync_rd err_wr) fs3 of
           (Inl e, fs) \<Rightarrow> bad ''clone: '' e (s\<lparr>sv_fs := fs\<rparr>)
         | (Inr pid, fs4) \<Rightarrow> attach h pid p request sync_wr (s\<lparr>sv_fs := hs_await_ready h ready_rd fs4\<rparr>))"

definition prepare_and_spawn ::
  "('m, 'f) sup_host \<Rightarrow> int option \<Rightarrow> ('m, 'f) supervisor \<Rightarrow> bool \<times> ('m, 'f) supervisor" where
  "prepare_and_spawn h slave s =
     (let bad = (\<lambda>f s. case f of (c, msg, e, name) \<Rightarrow> (False, fail_start h c msg e name s))
      in case prepare_cwd h s of
           Inl f \<Rightarrow> bad f s
         | Inr cwd \<Rightarrow>
         case choose_program h s of
           (Inl f, s1) \<Rightarrow> bad f s1
         | (Inr (program, argv), s1) \<Rightarrow>
         case prepare_plan h program argv s1 of
           (Inl f, s2) \<Rightarrow> bad f s2
         | (Inr (p, request), s2) \<Rightarrow>
             (let s3 = probe_host h (probe_links h s2)
              in if \<not> so_use_seccomp (sv_opts s3) then spawn_process h slave cwd p request None s3
                 else let prog = build_seccomp_filter (session_policy h s3)
                      in if length prog > 0xffff
                         then bad (Code_internal, ''seccomp filter too large'', 0, ''session.seccomp_failed'') s3
                         else spawn_process h slave cwd p request (Some prog) s3))"

definition new_supervisor ::
  "('m, 'f) sup_host \<Rightarrow> validated_config \<Rightarrow> nat \<Rightarrow> sup_options \<Rightarrow> (string \<Rightarrow> bool) \<Rightarrow> (string \<Rightarrow> bool) \<Rightarrow> 32 word \<Rightarrow> 32 word \<Rightarrow>
     'm \<Rightarrow> 'f \<Rightarrow> ('m, 'f) supervisor" where
  "new_supervisor h v session_id opts is_chr is_dir uid gid m fs =
     \<lparr>sv_cfg = vc_cfg v, sv_final_env = vc_final_env v, sv_session_id = session_id, sv_opts = opts,
      sv_mounts = build_mount_table is_chr is_dir v, sv_host_uid = uid, sv_host_gid = gid, sv_tracees = Map.empty,
      sv_tids = [], sv_exe_of = Map.empty, sv_creds = Map.empty, sv_denials = [], sv_reported = [],
      sv_links = new_link_store, sv_links_enabled = False, sv_dir_cache = [], sv_proc_scratch = [], sv_proc_seq = 0,
      sv_argv0_cache = [], sv_last_pid = 0, sv_audit_refused = False, sv_host_policy = False, sv_guest_filtered = [],
      sv_exited = [], sv_known = [], sv_main_pid = - 1, sv_main_reaped = False, sv_main_exited = False,
      sv_cancel_reason = 0, sv_main_exit = no_result, sv_start_state = Start_pending, sv_start_status = status_ok,
      sv_done = False, sv_err_pipe = False, sv_result = no_result, sv_events = [], sv_mem = m, sv_fs = fs\<rparr>"

text \<open>\<open>Supervisor::run\<close>: the whole life of a session over the reports of \<open>waitpid\<close>.\<close>

definition run_session ::
  "('m, 'f) sup_host \<Rightarrow> int option \<Rightarrow> wait_report list \<Rightarrow> (int \<times> errno) option \<Rightarrow> ('m, 'f) supervisor \<Rightarrow> ('m, 'f) supervisor" where
  "run_session h slave reports msg s =
     (case prepare_and_spawn h slave s of
        (ok, s1) \<Rightarrow> if ok then run_end h msg (event_loop h reports s1) else s1)"

end
