(* ===== verification/Supervisor_Frame.thy ===== *)
theory Supervisor_Frame
  imports Supervisor_Events
begin

text \<open>
  What the handlers leave alone.  \<open>base\<close> is the part of the supervisor no handler of a system call
  changes: configuration, mounts, the set of tasks and the cancellation state.  \<open>saved\<close> is the record
  of rewritten arguments of one task, with the request for an exit stop; only \<open>rewrite_arg\<close> adds to it.
\<close>

section \<open>Views of the state\<close>

definition tasks :: "int \<Rightarrow> ('m, 'f) supervisor \<Rightarrow> int set" where
  "tasks tid s = insert tid (set (sv_tids s)) \<union> dom (sv_tracees s)"

definition base :: "int \<Rightarrow> ('m, 'f) supervisor \<Rightarrow>
    session_config \<times> sup_options \<times> mount_table \<times> int list \<times> int list \<times> (int \<times> bool \<times> nat) \<times> bool \<times> int set" where
  "base tid s = (sv_cfg s, sv_opts s, sv_mounts s, sv_tids s, sv_known s,
     (sv_main_pid s, sv_main_exited s, sv_cancel_reason s), sv_links_enabled s, tasks tid s)"

definition saved :: "int \<Rightarrow> ('m, 'f) supervisor \<Rightarrow> 64 word list \<times> bool list \<times> bool" where
  "saved tid s = (ps_orig_args (pending_of s tid), ps_restore (pending_of s tid), ps_active (pending_of s tid))"

lemma base_eqD:
  assumes "base tid s' = base tid s"
  shows "sv_cfg s' = sv_cfg s" "sv_opts s' = sv_opts s" "sv_mounts s' = sv_mounts s" "sv_tids s' = sv_tids s"
    "sv_known s' = sv_known s" "sv_links_enabled s' = sv_links_enabled s" "tasks tid s' = tasks tid s"
    "sv_main_pid s' = sv_main_pid s" "sv_main_exited s' = sv_main_exited s" "sv_cancel_reason s' = sv_cancel_reason s"
  using assms by (simp_all add: base_def)

lemma base_update [simp]:
  "base tid (s\<lparr>sv_events := a\<rparr>) = base tid s" "base tid (s\<lparr>sv_denials := b\<rparr>) = base tid s"
  "base tid (s\<lparr>sv_reported := c\<rparr>) = base tid s" "base tid (s\<lparr>sv_mem := m\<rparr>) = base tid s"
  "base tid (s\<lparr>sv_fs := fs\<rparr>) = base tid s" "base tid (s\<lparr>sv_links := ls\<rparr>) = base tid s"
  "base tid (s\<lparr>sv_creds := cr\<rparr>) = base tid s" "base tid (s\<lparr>sv_dir_cache := dc\<rparr>) = base tid s"
  "base tid (s\<lparr>sv_argv0_cache := ac\<rparr>) = base tid s" "base tid (s\<lparr>sv_proc_scratch := ps\<rparr>) = base tid s"
  "base tid (s\<lparr>sv_proc_seq := sq\<rparr>) = base tid s" "base tid (s\<lparr>sv_guest_filtered := gf\<rparr>) = base tid s"
  "base tid (s\<lparr>sv_exe_of := ex\<rparr>) = base tid s"
  by (simp_all add: base_def tasks_def)

lemma the_tracee_update [simp]:
  "the_tracee (s\<lparr>sv_events := a\<rparr>) tid = the_tracee s tid" "the_tracee (s\<lparr>sv_denials := b\<rparr>) tid = the_tracee s tid"
  "the_tracee (s\<lparr>sv_reported := c\<rparr>) tid = the_tracee s tid" "the_tracee (s\<lparr>sv_mem := m\<rparr>) tid = the_tracee s tid"
  "the_tracee (s\<lparr>sv_fs := fs\<rparr>) tid = the_tracee s tid" "the_tracee (s\<lparr>sv_links := ls\<rparr>) tid = the_tracee s tid"
  "the_tracee (s\<lparr>sv_creds := cr\<rparr>) tid = the_tracee s tid" "the_tracee (s\<lparr>sv_dir_cache := dc\<rparr>) tid = the_tracee s tid"
  "the_tracee (s\<lparr>sv_argv0_cache := ac\<rparr>) tid = the_tracee s tid" "the_tracee (s\<lparr>sv_proc_scratch := ps\<rparr>) tid = the_tracee s tid"
  "the_tracee (s\<lparr>sv_proc_seq := sq\<rparr>) tid = the_tracee s tid" "the_tracee (s\<lparr>sv_guest_filtered := gf\<rparr>) tid = the_tracee s tid"
  "the_tracee (s\<lparr>sv_exe_of := ex\<rparr>) tid = the_tracee s tid"
  by (simp_all add: the_tracee_def)

lemma saved_update [simp]:
  "saved tid (s\<lparr>sv_events := a\<rparr>) = saved tid s" "saved tid (s\<lparr>sv_denials := b\<rparr>) = saved tid s"
  "saved tid (s\<lparr>sv_reported := c\<rparr>) = saved tid s" "saved tid (s\<lparr>sv_mem := m\<rparr>) = saved tid s"
  "saved tid (s\<lparr>sv_fs := fs\<rparr>) = saved tid s" "saved tid (s\<lparr>sv_links := ls\<rparr>) = saved tid s"
  "saved tid (s\<lparr>sv_creds := cr\<rparr>) = saved tid s" "saved tid (s\<lparr>sv_dir_cache := dc\<rparr>) = saved tid s"
  "saved tid (s\<lparr>sv_argv0_cache := ac\<rparr>) = saved tid s" "saved tid (s\<lparr>sv_proc_scratch := ps\<rparr>) = saved tid s"
  "saved tid (s\<lparr>sv_proc_seq := sq\<rparr>) = saved tid s" "saved tid (s\<lparr>sv_guest_filtered := gf\<rparr>) = saved tid s"
  "saved tid (s\<lparr>sv_exe_of := ex\<rparr>) = saved tid s"
  by (simp_all add: saved_def)

lemma the_put_tracee [simp]: "the_tracee (put_tracee tid t s) tid' = (if tid' = tid then t else the_tracee s tid')"
  by (simp add: the_tracee_def put_tracee_def)

lemma base_put_tracee: "tid' \<in> tasks tid s \<Longrightarrow> base tid (put_tracee tid' t s) = base tid s"
  by (auto simp: base_def tasks_def put_tracee_def)

lemma base_put_own [simp]: "base tid (put_tracee tid t s) = base tid s"
  by (rule base_put_tracee) (simp add: tasks_def)

lemma saved_put_tracee [simp]:
  "saved tid (put_tracee tid' t s) =
     (if tid' = tid then (ps_orig_args (tr_pending t), ps_restore (tr_pending t), ps_active (tr_pending t)) else saved tid s)"
  by (simp add: saved_def)

lemma set_pending_frame [simp]:
  "base tid (set_pending tid p s) = base tid s"
  "saved tid (set_pending tid p s) = (ps_orig_args p, ps_restore p, ps_active p)"
  "pending_of (set_pending tid p s) tid = p"
  by (simp_all add: set_pending_def)

lemma saved_fields: "(ps_orig_args (pending_of s tid), ps_restore (pending_of s tid), ps_active (pending_of s tid)) = saved tid s"
  by (simp add: saved_def)

section \<open>Functions that keep both views\<close>

lemma emit_frame [simp]:
  "base tid' (emit h k sv n msg pid c d s) = base tid' s" "saved tid' (emit h k sv n msg pid c d s) = saved tid' s"
  by (simp_all add: emit_def)

lemma the_tracee_emit [simp]: "the_tracee (emit h k sv n msg pid c d s) tid = the_tracee s tid"
  by (simp add: emit_def)

lemma deny_frame [simp]:
  "base tid' (snd (deny h tid info nr err nm why sev s)) = base tid' s"
  "saved tid' (snd (deny h tid info nr err nm why sev s)) = saved tid' s"
  by (simp_all add: deny_def Let_def)

lemma first_report_frame [simp]:
  "base tid (snd (first_report nm sub s)) = base tid s" "saved tid (snd (first_report nm sub s)) = saved tid s"
  by (simp_all add: first_report_def Let_def)

lemma report_outside_frame [simp]:
  "base tid' (report_outside h nm sub msg tid s) = base tid' s" "saved tid' (report_outside h nm sub msg tid s) = saved tid' s"
  by (simp_all add: report_outside_def case_prod_beta)

lemma tgid_of_saved [simp]: "saved tid' (snd (tgid_of h tid s)) = saved tid' s"
  by (simp add: tgid_of_def Let_def saved_fields split: option.split)

lemma tgid_of_base: "tid \<in> tasks tid' s \<Longrightarrow> base tid' (snd (tgid_of h tid s)) = base tid' s"
  by (simp add: tgid_of_def Let_def base_put_tracee split: option.split)

lemma tgid_of_own [simp]: "base tid (snd (tgid_of h tid s)) = base tid s"
  by (rule tgid_of_base) (simp add: tasks_def)

lemma creds_of_saved [simp]: "saved tid' (snd (snd (creds_of h tid s))) = saved tid' s"
  by (simp add: creds_of_def case_prod_beta split: option.split)

lemma creds_of_base: "tid \<in> tasks tid' s \<Longrightarrow> base tid' (snd (snd (creds_of h tid s))) = base tid' s"
  by (simp add: creds_of_def case_prod_beta tgid_of_base split: option.split)

lemma creds_of_own [simp]: "base tid (snd (snd (creds_of h tid s))) = base tid s"
  by (rule creds_of_base) (simp add: tasks_def)

lemma guest_is_root_frame [simp]:
  "base tid (snd (guest_is_root h tid s)) = base tid s" "saved tid' (snd (guest_is_root h tid s)) = saved tid' s"
  by (simp_all add: guest_is_root_def case_prod_beta)

lemma links_visible_frame [simp]:
  "base tid (snd (links_visible h s)) = base tid s" "saved tid (snd (links_visible h s)) = saved tid s"
  by (simp_all add: links_visible_def case_prod_beta)

lemma resolve_options_for_frame [simp]:
  "base tid (snd (resolve_options_for h tid fl s)) = base tid s"
  "saved tid' (snd (resolve_options_for h tid fl s)) = saved tid' s"
  by (simp_all add: resolve_options_for_def case_prod_beta Let_def)

lemma sup_resolve_frame [simp]:
  "base tid (snd (sup_resolve h full ro s)) = base tid s" "saved tid (snd (sup_resolve h full ro s)) = saved tid s"
  by (simp_all add: sup_resolve_def case_prod_beta)

lemma guest_cwd_frame [simp]:
  "base tid' (snd (guest_cwd h tid s)) = base tid' s" "saved tid' (snd (guest_cwd h tid s)) = saved tid' s"
  by (simp_all add: guest_cwd_def split: sum.split option.split)

lemma guest_fd_path_frame [simp]:
  "base tid' (snd (guest_fd_path h tid fd s)) = base tid' s" "saved tid' (snd (guest_fd_path h tid fd s)) = saved tid' s"
  by (simp_all add: guest_fd_path_def split: sum.split option.split)

lemma path_base_frame [simp]:
  "base tid' (snd (path_base h tid rg sp s)) = base tid' s" "saved tid' (snd (path_base h tid rg sp s)) = saved tid' s"
  by (simp_all add: path_base_def Let_def case_prod_beta split: sum.split option.split)

lemma host_stat_call_frame [simp]:
  "base tid' (snd (host_stat_call h tid host b sx fl mk s)) = base tid' s"
  "saved tid' (snd (host_stat_call h tid host b sx fl mk s)) = saved tid' s"
  by (simp_all add: host_stat_call_def Let_def case_prod_beta split: sum.split)

lemma host_readlink_frame [simp]:
  "base tid' (snd (host_readlink h tid host b sz s)) = base tid' s"
  "saved tid' (snd (host_readlink h tid host b sz s)) = saved tid' s"
  by (simp_all add: host_readlink_def Let_def case_prod_beta split: sum.split)

lemma host_xattr_frame [simp]:
  "base tid' (snd (host_xattr h tid info host rg s)) = base tid' s"
  "saved tid' (snd (host_xattr h tid info host rg s)) = saved tid' s"
  by (simp_all add: host_xattr_def Let_def case_prod_beta split: sum.split)

lemma handle_fd_meta_frame [simp]:
  "base tid (snd (handle_fd_meta h tid fd chown s)) = base tid s"
  "saved tid' (snd (handle_fd_meta h tid fd chown s)) = saved tid' s"
  by (simp_all add: handle_fd_meta_def Let_def case_prod_beta split: sum.split option.split)

lemma put_creds_frame [simp]: "base tid (put_creds tg c s) = base tid s" "saved tid (put_creds tg c s) = saved tid s"
  by (simp_all add: put_creds_def)

lemma settle_frame [simp]:
  "base tid (snd (settle tg user cr res s)) = base tid s" "saved tid (snd (settle tg user cr res s)) = saved tid s"
  by (simp_all add: settle_def split: option.split)

lemma handle_identity_frame [simp]:
  "base tid (snd (handle_identity h tid rg info s)) = base tid s"
  "saved tid' (snd (handle_identity h tid rg info s)) = saved tid' s"
  by (simp_all add: handle_identity_def case_prod_beta Let_def write_three_def get_groups_def set_groups_def split: sum.split)

lemma kill_others_saved [simp]: "saved tid (snd (kill_others h self sig ts sent s)) = saved tid s"
  by (induction ts arbitrary: sig sent s) (simp_all add: case_prod_beta)

lemma kill_others_base:
  "set ts \<subseteq> tasks tid s \<Longrightarrow> base tid (snd (kill_others h self sig ts sent s)) = base tid s"
proof (induction ts arbitrary: sig sent s)
  case (Cons t ts)
  have b: "base tid (snd (tgid_of h t s)) = base tid s" using Cons.prems by (intro tgid_of_base) simp
  then have "set ts \<subseteq> tasks tid (snd (tgid_of h t s))" using Cons.prems base_eqD(7) [OF b] by simp
  then have "set ts \<subseteq> tasks tid ((snd (tgid_of h t s))\<lparr>sv_fs := fs\<rparr>)" "set ts \<subseteq> tasks tid (snd (tgid_of h t s))" for fs
    by (simp_all add: tasks_def)
  then show ?case using b by (simp add: case_prod_beta Cons.IH)
qed simp

lemma handle_signal_target_frame [simp]:
  "base tid (snd (handle_signal_target h tid info rg s)) = base tid s"
  "saved tid' (snd (handle_signal_target h tid info rg s)) = saved tid' s"
proof -
  have "set (sv_tids s1) \<subseteq> tasks tid s1" for s1 :: "('a, 'b) supervisor" by (auto simp: tasks_def)
  then show "base tid (snd (handle_signal_target h tid info rg s)) = base tid s"
    by (simp add: handle_signal_target_def Let_def case_prod_beta outside_session_def kill_others_base)
  show "saved tid' (snd (handle_signal_target h tid info rg s)) = saved tid' s"
    by (simp add: handle_signal_target_def Let_def case_prod_beta outside_session_def)
qed

lemma socket_path_frame [simp]:
  "base tid (snd (socket_path h tid path bnd s)) = base tid s" "saved tid' (snd (socket_path h tid path bnd s)) = saved tid' s"
  by (simp_all add: socket_path_def Let_def case_prod_beta split: sum.split)

lemma exec_guest_path_frame [simp]:
  "base tid' (snd (exec_guest_path h tid rg at path cwd info s)) = base tid' s"
  "saved tid' (snd (exec_guest_path h tid rg at path cwd info s)) = saved tid' s"
  by (simp_all add: exec_guest_path_def Let_def case_prod_beta split: sum.split option.split)

lemma exec_nofollow_frame [simp]:
  "base tid (snd (exec_nofollow h tid rg at g s)) = base tid s" "saved tid' (snd (exec_nofollow h tid rg at g s)) = saved tid' s"
  by (simp_all add: exec_nofollow_def Let_def case_prod_beta split: sum.split)

lemma exec_plan_for_frame [simp]:
  "base tid (snd (exec_plan_for h tid g argv cwd s)) = base tid s"
  "saved tid' (snd (exec_plan_for h tid g argv cwd s)) = saved tid' s"
  by (simp_all add: exec_plan_for_def Let_def case_prod_beta split: sum.split option.split)

lemma creds_of_other: "sv_tracees s t = Some x \<Longrightarrow> base tid (snd (snd (creds_of h t s))) = base tid s"
  by (rule creds_of_base) (auto simp: tasks_def)

lemma stand_in_content_frame [simp]:
  "base tid (snd (stand_in_content h tp rel s)) = base tid s" "saved tid (snd (stand_in_content h tp rel s)) = saved tid s"
  by (auto simp: stand_in_content_def Let_def case_prod_beta creds_of_other split: sum.split)

lemma ensure_scratch_frame [simp]:
  "base tid (snd (ensure_scratch h s)) = base tid s" "saved tid (snd (ensure_scratch h s)) = saved tid s"
  by (simp_all add: ensure_scratch_def case_prod_beta split: option.split)

lemma proc_stand_in_frame [simp]:
  "base tid (snd (proc_stand_in h tp s)) = base tid s" "saved tid (snd (proc_stand_in h tp s)) = saved tid s"
  by (simp_all add: proc_stand_in_def Let_def case_prod_beta split: option.split bool.split)

lemma stat_fixup_base [simp]: "base tid (stat_fixup tid buf k s) = base tid s"
  by (simp add: stat_fixup_def)

lemma note_link_frame [simp]:
  "base tid (note_link h tp s) = base tid s" "saved tid (note_link h tp s) = saved tid s"
  by (simp_all add: note_link_def split: option.split)

lemma drop_scratch_frame [simp]:
  "base tid (drop_scratch h tid s) = base tid s" "saved tid (drop_scratch h tid s) = saved tid s"
  by (simp_all add: drop_scratch_def saved_fields)

section \<open>Rewritten arguments\<close>

text \<open>
  Relative to the registers \<open>rg0\<close> the task stopped with: an argument was either left alone or its
  first value is recorded for restoration, and then an exit stop is requested.
\<close>

definition args_ok :: "regs \<Rightarrow> int \<Rightarrow> regs \<Rightarrow> ('m, 'f) supervisor \<Rightarrow> bool" where
  "args_ok rg0 tid rg s \<longleftrightarrow>
     (case saved tid s of (orig, rst, act) \<Rightarrow>
        length (rg_args rg) = 6 \<and> length orig = 6 \<and> length rst = 6 \<and> (act \<or> \<not> list_ex id rst) \<and>
        (\<forall>i < 6. if rst ! i then orig ! i = arg rg0 i else arg rg i = arg rg0 i)) \<and>
     rg\<lparr>rg_args := [], rg_dirty := False\<rparr> = rg0\<lparr>rg_args := [], rg_dirty := False\<rparr>"

lemma args_ok_cong: "saved tid s' = saved tid s \<Longrightarrow> args_ok rg0 tid rg s' = args_ok rg0 tid rg s"
  by (simp add: args_ok_def)

lemma args_ok_set_pending:
  assumes "args_ok rg0 tid rg s" "ps_orig_args p = ps_orig_args (pending_of s tid)"
    "ps_restore p = ps_restore (pending_of s tid)" "ps_active p"
  shows "args_ok rg0 tid rg (set_pending tid p s)"
  using assms by (simp add: args_ok_def) (simp add: saved_def)

lemma args_ok_start:
  assumes "length (rg_args rg) = 6" "pending_of s tid = no_pending\<lparr>ps_nr := n\<rparr>"
  shows "args_ok rg tid rg s"
proof -
  have "\<not> list_ex id (replicate 6 False)" by (simp add: list_ex_iff)
  then show ?thesis using assms by (simp add: args_ok_def saved_def no_pending_def)
qed

lemma set_arg_image: "(set_arg i v rg)\<lparr>rg_args := [], rg_dirty := False\<rparr> = rg\<lparr>rg_args := [], rg_dirty := False\<rparr>"
  by (simp add: set_arg_def)

lemma rewrite_arg_base [simp]: "base tid (snd (rewrite_arg tid i v rs)) = base tid (snd rs)"
  by (cases rs) (simp add: rewrite_arg_def Let_def)

lemma rewrite_arg_args_ok:
  assumes "args_ok rg0 tid rg s" "i < 6"
  shows "args_ok rg0 tid (fst (rewrite_arg tid i v (rg, s))) (snd (rewrite_arg tid i v (rg, s)))"
proof -
  let ?p = "pending_of s tid"
  have a: "length (rg_args rg) = 6" "length (ps_orig_args ?p) = 6" "length (ps_restore ?p) = 6"
    "\<forall>i < 6. if ps_restore ?p ! i then ps_orig_args ?p ! i = arg rg0 i else arg rg i = arg rg0 i"
    "rg\<lparr>rg_args := [], rg_dirty := False\<rparr> = rg0\<lparr>rg_args := [], rg_dirty := False\<rparr>"
    using assms(1) by (simp_all add: args_ok_def saved_def)
  show ?thesis
    using a assms(2)
    by (auto simp: rewrite_arg_def Let_def args_ok_def set_arg_image nth_list_update)
qed

lemmas rewrite_arg_args_ok' = rewrite_arg_args_ok [where rg = "fst rs" and s = "snd rs" for rs, unfolded prod.collapse]

section \<open>Handlers keep the base and the argument record\<close>

definition call_ok :: "regs \<Rightarrow> int \<Rightarrow> ('m, 'f) supervisor \<Rightarrow> ('m, 'f) call_state \<Rightarrow> bool" where
  "call_ok rg0 tid s0 cs \<longleftrightarrow> args_ok rg0 tid (fst cs) (snd (snd cs)) \<and> base tid (snd (snd cs)) = base tid s0"

lemma call_ok_sup:
  assumes "call_ok rg0 tid s0 (rg, sw, s)" "saved tid s' = saved tid s" "base tid s' = base tid s"
  shows "call_ok rg0 tid s0 (rg, sw', s')"
  using assms args_ok_cong [OF assms(2)] by (simp add: call_ok_def)

lemma call_ok_rewrite:
  assumes "call_ok rg0 tid s0 (rg, sw, s)" "i < 6"
  shows "call_ok rg0 tid s0 (fst (rewrite_arg tid i v (rg, s)), sw', snd (rewrite_arg tid i v (rg, s)))"
  using assms by (auto simp: call_ok_def intro: rewrite_arg_args_ok)

lemma call_ok_pending:
  assumes "call_ok rg0 tid s0 (rg, sw, s)" "ps_orig_args p = ps_orig_args (pending_of s tid)"
    "ps_restore p = ps_restore (pending_of s tid)" "ps_active p"
  shows "call_ok rg0 tid s0 (rg, sw', set_pending tid p s)"
  using assms by (auto simp: call_ok_def intro: args_ok_set_pending)

lemma apply_translation_ok:
  assumes "call_ok rg0 tid s0 cs" "sp_path_arg sp < 6"
  shows "call_ok rg0 tid s0 (snd (apply_translation h tid sp tp cs))"
proof -
  obtain rg sw s where cs: "cs = (rg, sw, s)" by (cases cs)
  have m: "call_ok rg0 tid s0 (rg, sw', s\<lparr>sv_mem := m\<rparr>)" for sw' m
    using assms(1) unfolding cs by (rule call_ok_sup) simp_all
  then have e: "call_ok rg0 tid s0 (rg, sw', emit h k sv n msg pid c d (s\<lparr>sv_mem := m\<rparr>))" for sw' m k sv n msg pid c d
    by (rule call_ok_sup) simp_all
  show ?thesis
    using assms m e call_ok_rewrite [OF m assms(2)]
    by (auto simp: apply_translation_def cs case_prod_beta split: sum.split)
qed

lemma translate_full_ok:
  assumes "call_ok rg0 tid s0 cs" "sp_path_arg sp < 6"
  shows "call_ok rg0 tid s0 (snd (translate_full h tid sp path full cs))"
proof -
  obtain rg sw s where cs: "cs = (rg, sw, s)" by (cases cs)
  let ?s1 = "snd (resolve_options_for h tid (sp_follow sp) s)"
  have r: "call_ok rg0 tid s0 (rg, sw, snd (sup_resolve h full ro ?s1))" for ro
    using assms(1) unfolding cs by (rule call_ok_sup) simp_all
  then have o1: "call_ok rg0 tid s0 (rg, sw, report_outside h nm sub msg tid (snd (sup_resolve h full ro ?s1)))" for ro nm sub msg
    by (rule call_ok_sup) simp_all
  show ?thesis
    using r o1 apply_translation_ok [OF r assms(2)]
    by (auto simp: translate_full_def cs case_prod_beta Let_def split: sum.split)
qed

lemma translate_path_ok:
  assumes "call_ok rg0 tid s0 cs" "sp_path_arg sp < 6"
  shows "call_ok rg0 tid s0 (snd (translate_path h tid sp cs))"
proof -
  obtain rg sw s where cs: "cs = (rg, sw, s)" by (cases cs)
  have b: "call_ok rg0 tid s0 (rg, sw, snd (path_base h tid rg sp s))"
    using assms(1) unfolding cs by (rule call_ok_sup) simp_all
  show ?thesis
    using assms b translate_full_ok [OF assms] translate_full_ok [OF b assms(2)]
    by (auto simp: translate_path_def cs case_prod_beta Let_def split: sum.split)
qed

lemma run_spec_ok:
  assumes "call_ok rg0 tid s0 cs" "sp_path_arg sp < 6"
  shows "call_ok rg0 tid s0 (snd (snd (run_spec h tid sp cs)))"
  using translate_path_ok [OF assms] by (simp add: run_spec_def case_prod_beta)

lemma resolve_query_ok:
  assumes "call_ok rg0 tid s0 cs" "sp_path_arg sp < 6"
  shows "call_ok rg0 tid s0 (snd (snd (snd (resolve_query h tid sp cs))))"
proof -
  have t: "call_ok rg0 tid s0 (snd (translate_path h tid (sp\<lparr>sp_resolve_only := True\<rparr>) cs))"
    using assms by (intro translate_path_ok) simp_all
  show ?thesis
    using t apply_translation_ok [OF t, of "sp\<lparr>sp_resolve_only := False\<rparr>"] assms(2)
    by (simp add: resolve_query_def case_prod_beta)
qed

lemma on_sup_ok:
  assumes "call_ok rg0 tid s0 cs" "\<And>s. saved tid (f s) = saved tid s" "\<And>s. base tid (f s) = base tid s"
  shows "call_ok rg0 tid s0 (on_sup f cs)"
  using assms by (cases cs) (auto simp: on_sup_def intro: call_ok_sup)

lemma answered_ok:
  assumes "call_ok rg0 tid s0 cs" "saved tid (snd r) = saved tid (snd (snd cs))" "base tid (snd r) = base tid (snd (snd cs))"
  shows "call_ok rg0 tid s0 (snd (answered r cs))"
  using assms by (cases cs) (auto simp: answered_def intro: call_ok_sup)

lemma stat_fixup_ok:
  assumes "call_ok rg0 tid s0 cs"
  shows "call_ok rg0 tid s0 (on_sup (stat_fixup tid buf k) cs)"
  using assms by (cases cs) (auto simp: on_sup_def stat_fixup_def intro: call_ok_pending)

lemma stat_path_ok:
  assumes "call_ok rg0 tid s0 cs" "sp_path_arg sp < 6"
  shows "call_ok rg0 tid s0 (snd (stat_path h tid sp buf k fl mk cs))"
proof -
  have q: "call_ok rg0 tid s0 (snd (snd (snd (resolve_query h tid sp cs))))" using resolve_query_ok [OF assms] .
  have n: "call_ok rg0 tid s0 (on_sup (note_link h tp) (snd (snd (snd (resolve_query h tid sp cs)))))" for tp
    using q by (rule on_sup_ok) simp_all
  show ?thesis
    using assms(1) q n stat_fixup_ok [OF n] answered_ok [OF n]
    by (simp add: stat_path_def Let_def case_prod_beta)
qed

lemma access_path_ok:
  assumes "call_ok rg0 tid s0 cs" "sp_path_arg sp < 6"
  shows "call_ok rg0 tid s0 (snd (access_path h tid sp md cs))"
  using assms(1) resolve_query_ok [OF assms] by (simp add: access_path_def case_prod_beta)

lemma store_call_ok:
  assumes "call_ok rg0 tid s0 cs"
  shows "call_ok rg0 tid s0 (snd (store_call f cs))"
  using assms by (cases cs) (auto simp: store_call_def case_prod_beta intro: call_ok_sup)

lemma unlink_like_ok:
  assumes "call_ok rg0 tid s0 cs" "sp_path_arg sp < 6"
  shows "call_ok rg0 tid s0 (snd (unlink_like h tid sp rd cs))"
proof -
  have r: "call_ok rg0 tid s0 (snd (snd (run_spec h tid (sp\<lparr>sp_link_name := b\<rparr>) cs)))" for b
    using assms by (intro run_spec_ok) simp_all
  show ?thesis
    using r store_call_ok [OF r] by (simp add: unlink_like_def case_prod_beta Let_def split: option.split)
qed

lemma two_paths_ok:
  assumes "call_ok rg0 tid s0 cs" "sp_path_arg s1 < 6" "sp_path_arg s2 < 6"
  shows "call_ok rg0 tid s0 (snd (translate_path h tid s2 (snd (translate_path h tid s1 cs))))"
  using assms by (intro translate_path_ok)

lemma rename_like_ok:
  assumes "call_ok rg0 tid s0 cs" "sp_path_arg s1 < 6" "sp_path_arg s2 < 6"
  shows "call_ok rg0 tid s0 (snd (rename_like h tid s1 s2 fl cs))"
proof -
  let ?t1 = "translate_path h tid (s1\<lparr>sp_link_name := True\<rparr>) cs"
  let ?t2 = "translate_path h tid (s2\<lparr>sp_link_name := True\<rparr>) (snd ?t1)"
  have t: "call_ok rg0 tid s0 (snd ?t1)" "call_ok rg0 tid s0 (snd ?t2)"
    using assms by (auto intro!: translate_path_ok)
  have p: "call_ok rg0 tid s0 (on_sup (\<lambda>s. set_pending tid ((pending_of s tid)
       \<lparr>ps_active := True, ps_fixup := fx, ps_link_mount := lm, ps_link_src := a, ps_link_dst := b, ps_link_from := c,
        ps_link_to := d, ps_link_exchange := x\<rparr>) s) (snd ?t2))" for fx lm a b c d x
    using t(2) by (cases "snd ?t2") (auto simp: on_sup_def intro!: call_ok_pending)
  show ?thesis
    using t p by (simp add: rename_like_def case_prod_beta Let_def)
qed

lemma link_like_ok:
  assumes "call_ok rg0 tid s0 cs" "sp_path_arg s1 < 6" "sp_path_arg s2 < 6"
  shows "call_ok rg0 tid s0 (snd (link_like h tid s1 s2 cs))"
proof -
  let ?t1 = "translate_path h tid (s1\<lparr>sp_link_name := \<not> sp_follow s1\<rparr>) cs"
  let ?t2 = "translate_path h tid (s2\<lparr>sp_link_name := True\<rparr>) (snd ?t1)"
  have t: "call_ok rg0 tid s0 (snd ?t1)" "call_ok rg0 tid s0 (snd ?t2)"
    using assms by (auto intro!: translate_path_ok)
  show ?thesis
    using t store_call_ok [OF t(2)]
    by (simp add: link_like_def case_prod_beta Let_def split: option.split sum.split)
qed

lemma open_path_ok:
  assumes "call_ok rg0 tid s0 cs" "sp_path_arg sp < 6"
  shows "call_ok rg0 tid s0 (snd (open_path h tid sp fl cs))"
proof -
  let ?t = "translate_path h tid (sp\<lparr>sp_resolve_only := True\<rparr>) cs"
  obtain rg sw s where t: "snd ?t = (rg, sw, s)" by (cases "snd ?t")
  have ok: "call_ok rg0 tid s0 (rg, sw, s)"
    using assms t [symmetric] by (auto intro!: translate_path_ok)
  have ok1: "call_ok rg0 tid s0 (rg, sw, snd (proc_stand_in h tp s))" for tp
    using ok by (rule call_ok_sup) simp_all
  then have ok2: "call_ok rg0 tid s0 (rg, sw, set_pending tid ((pending_of (snd (proc_stand_in h tp s)) tid)
      \<lparr>ps_active := True, ps_scratch := f\<rparr>) (snd (proc_stand_in h tp s)))" for tp f
    by (rule call_ok_pending) simp_all
  let ?sp = "sp\<lparr>sp_resolve_only := False\<rparr>"
  have a: "call_ok rg0 tid s0 (snd (apply_translation h tid ?sp tp1 (rg, sw, s')))"
    if "call_ok rg0 tid s0 (rg, sw, s')" for tp1 s'
    using that assms(2) by (intro apply_translation_ok) simp_all
  have d: "call_ok rg0 tid s0 (on_sup (drop_scratch h tid) (snd (apply_translation h tid ?sp tp1 (rg, sw, s'))))"
    if "call_ok rg0 tid s0 (rg, sw, s')" for tp1 s'
    using a [OF that] by (rule on_sup_ok) simp_all
  show ?thesis
    using run_spec_ok [OF assms] ok a [OF ok] d [OF ok] a [OF ok1] d [OF ok1] a [OF ok2] d [OF ok2]
    by (simp add: open_path_def case_prod_beta Let_def t split: option.split)
qed

lemma chown_like_ok:
  assumes "call_ok rg0 tid s0 cs" "sp_path_arg sp < 6"
  shows "call_ok rg0 tid s0 (snd (chown_like h tid sp cs))"
proof -
  let ?r = "run_spec h tid sp cs"
  obtain rg sw s where r: "snd (snd ?r) = (rg, sw, s)" by (cases "snd (snd ?r)")
  have ok: "call_ok rg0 tid s0 (rg, sw, s)" using run_spec_ok [OF assms, of h] r by simp
  then have "call_ok rg0 tid s0 (rg, sw, snd (guest_is_root h tid s))" by (rule call_ok_sup) simp_all
  then show ?thesis using ok by (simp add: chown_like_def case_prod_beta r)
qed

lemma readlink_path_ok:
  assumes "call_ok rg0 tid s0 cs"
  shows "call_ok rg0 tid s0 (snd (readlink_path h tid at cs))"
proof -
  let ?sp = "if at then (spec 1 0 False False False)\<lparr>sp_empty_ok := True\<rparr> else spec 0 (- 1) False False False"
  let ?q = "resolve_query h tid ?sp cs"
  have q: "call_ok rg0 tid s0 (snd (snd (snd ?q)))"
    using assms by (intro resolve_query_ok) (simp_all add: spec_def)
  obtain rg sw s where c: "snd (snd (snd ?q)) = (rg, sw, s)" by (cases "snd (snd (snd ?q))")
  have ok: "call_ok rg0 tid s0 (rg, sw, s)" using q c by simp
  have p: "call_ok rg0 tid s0 (rg, sw, set_pending tid ((pending_of s tid)\<lparr>ps_active := True, ps_fixup := fx, ps_buf := b,
       ps_size := z, ps_link_host := hst\<rparr>) s)" for fx b z hst
    using ok by (rule call_ok_pending) simp_all
  have g: "call_ok rg0 tid s0 (rg, sw, snd (tgid_of h tid s'))" if "call_ok rg0 tid s0 (rg, sw, s')" for s'
    using that by (rule call_ok_sup) simp_all
  have e: "call_ok rg0 tid s0 (rg, sw, set_pending tid ((pending_of s' tid)\<lparr>ps_exe_tgid := x\<rparr>) s')"
    if "call_ok rg0 tid s0 (rg, sw, s')" for s' x
    using that by (rule call_ok_sup) (simp_all add: saved_fields)
  have a: "call_ok rg0 tid s0 (snd (answered (host_readlink h tid hst b z s) (rg, sw, s)))" for hst b z
    using ok by (rule answered_ok) simp_all
  show ?thesis
    using assms ok p a e [OF g [OF p]]
    by (simp add: readlink_path_def case_prod_beta Let_def c on_sup_def if_distrib [of snd] del: if_split)
qed

lemma xattr_query_ok:
  assumes "call_ok rg0 tid s0 cs"
  shows "call_ok rg0 tid s0 (snd (xattr_query h tid info cs))"
proof -
  let ?q = "resolve_query h tid (spec 0 (- 1) (si_handler info = H_xattr_get) False False) cs"
  have q: "call_ok rg0 tid s0 (snd (snd (snd ?q)))"
    using assms by (intro resolve_query_ok) (simp_all add: spec_def)
  then have "call_ok rg0 tid s0 (snd (answered (host_xattr h tid info hst (fst (snd (snd (snd ?q)))) (snd (snd (snd (snd (snd ?q))))))
      (snd (snd (snd ?q)))))" for hst
    by (rule answered_ok) simp_all
  then show ?thesis
    using assms q by (cases cs) (simp add: xattr_query_def case_prod_beta Let_def)
qed

lemma with_sup_ok:
  assumes "call_ok rg0 tid s0 cs" "\<And>rg s. saved tid (snd (f rg s)) = saved tid s" "\<And>rg s. base tid (snd (f rg s)) = base tid s"
  shows "call_ok rg0 tid s0 (snd (with_sup f cs))"
  using assms by (cases cs) (auto simp: with_sup_def case_prod_beta intro: call_ok_sup)

lemma pass_through_ok:
  assumes "call_ok rg0 tid s0 cs"
  shows "call_ok rg0 tid s0 (snd (pass_through h tid info cs))"
proof -
  obtain rg sw s where cs: "cs = (rg, sw, s)" by (cases cs)
  define s1 where "s1 = (if is_call info ''fstat'' then stat_fixup tid (arg rg 1) Fx_stat s else s)"
  define s2 where "s2 = (if (is_call info ''prctl'' \<and> arg rg 0 = PR_SET_SECCOMP \<and> arg rg 1 = kSeccompModeFilter) \<or>
          (is_call info ''seccomp'' \<and> arg rg 0 = kSeccompSetModeFilter)
       then (case tgid_of h tid s1 of
               (tg, s1') \<Rightarrow> if tg \<in> set (sv_guest_filtered s1') then s1'
                            else s1'\<lparr>sv_guest_filtered := tg # sv_guest_filtered s1'\<rparr>)
       else s1)"
  define s3 where "s3 = (if sv_links_enabled s2 \<and> is_call info ''getdents64''
       then (case links_visible h s2 of
               (vis, s2') \<Rightarrow>
                 if vis
                 then set_pending tid ((pending_of s2' tid)\<lparr>ps_active := True, ps_fixup := Fx_dirents,
                        ps_fd := int_arg rg 0, ps_buf := arg rg 1, ps_size := arg rg 2 AND 0xffffffff\<rparr>) s2'
                 else s2')
       else s2)"
  have eq: "pass_through h tid info cs =
      (if has_identity s3 \<and> is_call info ''getgroups''
       then (case handle_identity h tid rg info s3 of (act, s4) \<Rightarrow> (act, rg, sw, s4)) else (pass, rg, sw, s3))"
    unfolding pass_through_def cs s3_def s2_def s1_def Let_def prod.case ..
  have ok1: "call_ok rg0 tid s0 (rg, sw, s1)"
    using assms stat_fixup_ok [OF assms] by (simp add: s1_def cs on_sup_def)
  then have "call_ok rg0 tid s0 (rg, sw, snd (tgid_of h tid s1))" by (rule call_ok_sup) simp_all
  then have ok2: "call_ok rg0 tid s0 (rg, sw, s2)"
    using ok1 by (auto simp: s2_def case_prod_beta intro: call_ok_sup)
  then have l: "call_ok rg0 tid s0 (rg, sw, snd (links_visible h s2))" by (rule call_ok_sup) simp_all
  have ok3: "call_ok rg0 tid s0 (rg, sw, s3)"
    using ok2 l by (auto simp: s3_def case_prod_beta intro: call_ok_pending)
  then have "call_ok rg0 tid s0 (rg, sw, snd (handle_identity h tid rg info s3))" by (rule call_ok_sup) simp_all
  then show ?thesis using ok3 by (simp add: eq case_prod_beta)
qed

lemma denial_ok:
  assumes "call_ok rg0 tid s0 cs"
  shows "call_ok rg0 tid s0 (snd (denial h tid info err cs))"
  using assms by (cases cs) (auto simp: denial_def case_prod_beta intro: call_ok_sup)

lemma socket_call_ok:
  assumes "call_ok rg0 tid s0 cs"
  shows "call_ok rg0 tid s0 (snd (socket_call h tid info cs))"
  using assms by (cases cs) (auto simp: socket_call_def case_prod_beta intro: call_ok_sup)

lemma remember_getcwd_ok:
  assumes "call_ok rg0 tid s0 cs"
  shows "call_ok rg0 tid s0 (snd (remember_getcwd tid cs))"
  using assms by (cases cs) (auto simp: remember_getcwd_def intro: call_ok_pending)

lemma identity_call_ok:
  assumes "call_ok rg0 tid s0 cs"
  shows "call_ok rg0 tid s0 (snd (identity_call h tid info cs))"
  unfolding identity_call_def using assms by (rule with_sup_ok) simp_all

lemma with_regs_ok:
  assumes "call_ok rg0 tid s0 cs"
    and "\<And>rg sw s. call_ok rg0 tid s0 (rg, sw, s) \<Longrightarrow> call_ok rg0 tid s0 (fst (snd (f (rg, s))), sw, snd (snd (f (rg, s))))"
  shows "call_ok rg0 tid s0 (snd (with_regs f cs))"
  using assms by (cases cs) (auto simp: with_regs_def case_prod_beta)

lemma handle_sockaddr_ok:
  assumes "call_ok rg0 tid s0 (rg, sw, s)" "a < 6" "l < 6"
  shows "call_ok rg0 tid s0 (fst (snd (handle_sockaddr h tid a l bnd (rg, s))), sw, snd (snd (handle_sockaddr h tid a l bnd (rg, s))))"
proof -
  have p: "call_ok rg0 tid s0 (rg, sw', snd (socket_path h tid pth bnd s))" for pth sw'
    using assms(1) by (rule call_ok_sup) simp_all
  then have m: "call_ok rg0 tid s0 (rg, sw', (snd (socket_path h tid pth bnd s))\<lparr>sv_mem := m\<rparr>)" for pth sw' m
    by (rule call_ok_sup) simp_all
  have r: "call_ok rg0 tid s0 (fst (rewrite_arg tid l v (rewrite_arg tid a w (rg, s'))), sw,
      snd (rewrite_arg tid l v (rewrite_arg tid a w (rg, s'))))" if "call_ok rg0 tid s0 (rg, sw, s')" for v w s'
    using call_ok_rewrite [OF call_ok_rewrite [OF that assms(2)] assms(3)] by simp
  show ?thesis
    using assms(1) p m r [OF m]
    by (auto simp: handle_sockaddr_def Let_def case_prod_beta split: sum.split option.split)
qed

lemma handle_sendmsg_ok:
  assumes "call_ok rg0 tid s0 (rg, sw, s)"
  shows "call_ok rg0 tid s0 (fst (snd (handle_sendmsg h tid several (rg, s))), sw, snd (snd (handle_sendmsg h tid several (rg, s))))"
proof -
  have d: "call_ok rg0 tid s0 (rg, sw, snd (deny h tid i n e nm why sev s))" for i n e nm why sev
    using assms by (rule call_ok_sup) simp_all
  have p: "call_ok rg0 tid s0 (rg, sw', snd (socket_path h tid pth False s))" for pth sw'
    using assms by (rule call_ok_sup) simp_all
  then have m: "call_ok rg0 tid s0 (rg, sw', (snd (socket_path h tid pth False s))\<lparr>sv_mem := m\<rparr>)" for pth sw' m
    by (rule call_ok_sup) simp_all
  have "(1 :: nat) < 6" by simp
  from call_ok_rewrite [OF m this] show ?thesis
    using assms d p m
    by (auto simp: handle_sendmsg_def Let_def case_prod_beta split: sum.split option.split)
qed

lemma exec_commit_ok:
  assumes "call_ok rg0 tid s0 (rg, sw, s)"
  shows "call_ok rg0 tid s0 (fst (snd (exec_commit h tid at info p req (rg, s))), sw, snd (snd (exec_commit h tid at info p req (rg, s))))"
proof -
  have m: "call_ok rg0 tid s0 (rg, sw, s\<lparr>sv_mem := m\<rparr>)" for m using assms by (rule call_ok_sup) simp_all
  then have d: "call_ok rg0 tid s0 (rg, sw, snd (deny h tid i n e nm why sev (s\<lparr>sv_mem := m\<rparr>)))" for i n e nm why sev m
    by (rule call_ok_sup) simp_all
  have r: "call_ok rg0 tid s0 (fst (rewrite_arg tid i v rs), sw, snd (rewrite_arg tid i v rs))"
    if "call_ok rg0 tid s0 (fst rs, sw, snd rs)" "i < 6" for i v rs
    using call_ok_rewrite [OF that] by simp
  have t: "call_ok rg0 tid s0 (fst rs, sw, put_tracee tid ((the_tracee (emit h k sv n msg pid c dt (snd rs)) tid)
        \<lparr>tr_load_request := q, tr_load_exe := x\<rparr>) (emit h k sv n msg pid c dt (snd rs)))"
      "call_ok rg0 tid s0 (fst rs, sw, emit h k sv n msg pid c dt (snd rs))"
    if "call_ok rg0 tid s0 (fst rs, sw, snd rs)" for rs k sv n msg pid c dt q x
    using that by (auto intro!: call_ok_sup [OF that] simp: saved_fields)
  have six: "0 < (6::nat)" "1 < (6::nat)" "2 < (6::nat)" "4 < (6::nat)" by simp_all
  have a: "call_ok rg0 tid s0 (fst (rewrite_arg tid 1 v1 (rewrite_arg tid 0 v0 (rg, s\<lparr>sv_mem := m\<rparr>))), sw,
      snd (rewrite_arg tid 1 v1 (rewrite_arg tid 0 v0 (rg, s\<lparr>sv_mem := m\<rparr>))))" for v0 v1 m
    using m by (intro r six) simp
  have b: "call_ok rg0 tid s0
      (fst (rewrite_arg tid 4 v4 (rewrite_arg tid 2 v2 (rewrite_arg tid 1 v1 (rewrite_arg tid 0 v0 (rg, s\<lparr>sv_mem := m\<rparr>))))), sw,
       snd (rewrite_arg tid 4 v4 (rewrite_arg tid 2 v2 (rewrite_arg tid 1 v1 (rewrite_arg tid 0 v0 (rg, s\<lparr>sv_mem := m\<rparr>))))))"
    for v0 v1 v2 v4 m
    using m by (intro r six) simp
  show ?thesis
    using d t [OF a] t [OF b]
    by (auto simp: exec_commit_def Let_def case_prod_beta split: sum.split)
qed

lemma handle_exec_ok:
  assumes "call_ok rg0 tid s0 (rg, sw, s)"
  shows "call_ok rg0 tid s0 (fst (snd (handle_exec h tid at (rg, s))), sw, snd (snd (handle_exec h tid at (rg, s))))"
proof -
  have k: "call_ok rg0 tid s0 (rg, sw, s')" if "saved tid s' = saved tid s" "base tid s' = base tid s" for s'
    using assms that by (rule call_ok_sup)
  let ?info = "lookup_syscall (hs_table h) (ps_nr (pending_of s tid))"
  show ?thesis
  proof (cases "read_cstring (hs_mem h) tid (sv_mem s) (arg rg (if at then 1 else 0)) kPathMax")
    case (Inl e)
    then show ?thesis using assms by (simp add: handle_exec_def)
  next
    case path: (Inr path)
    let ?g = "exec_guest_path h tid rg at path (fst (guest_cwd h tid s)) ?info (snd (guest_cwd h tid s))"
    show ?thesis
    proof (cases "fst ?g")
      case (Inl act)
      then show ?thesis using path by (simp add: handle_exec_def Let_def case_prod_beta k)
    next
      case g: (Inr gp)
      let ?n = "exec_nofollow h tid rg at gp (snd ?g)"
      show ?thesis
      proof (cases "fst ?n")
        case (Some act)
        then show ?thesis using path g by (simp add: handle_exec_def Let_def case_prod_beta k)
      next
        case n: None
        show ?thesis
        proof (cases "exec_argv h tid (arg rg (if at then 2 else 1)) (snd ?n)")
          case (Argv argv)
          let ?p = "exec_plan_for h tid gp argv (case fst (guest_cwd h tid s) of Inl e \<Rightarrow> ''/'' | Inr d \<Rightarrow> d) (snd ?n)"
          have "call_ok rg0 tid s0 (rg, sw, snd ?p)" by (rule k) simp_all
          then show ?thesis
            using path g n Argv exec_commit_ok [of rg0 tid s0 rg sw "snd ?p"]
            by (cases "fst ?p") (simp_all add: handle_exec_def Let_def case_prod_beta)
        qed (use path g n in \<open>simp_all add: handle_exec_def Let_def case_prod_beta k\<close>)
      qed
    qed
  qed
qed

section \<open>The dispatcher\<close>

lemma spec_arg [simp]: "sp_path_arg (spec p d f e m) = p" "sp_path_arg (open_spec p d fl) = p"
  by (simp_all add: spec_def open_spec_def Let_def)

lemmas dispatch_ok =
  run_spec_ok open_path_ok stat_path_ok access_path_ok readlink_path_ok remember_getcwd_ok unlink_like_ok rename_like_ok
  link_like_ok chown_like_ok xattr_query_ok pass_through_ok denial_ok socket_call_ok identity_call_ok with_sup_ok

lemma dispatch_call_ok:
  assumes "call_ok rg0 tid s0 cs" "si_handler info \<noteq> H_clone"
  shows "call_ok rg0 tid s0 (snd (dispatch_call h tid info cs))"
proof (cases "si_handler info")
  case H_clone
  then show ?thesis using assms(2) by simp
next
  case H_sendmsg
  then show ?thesis using assms(1) by (auto simp: dispatch_call_def intro!: with_regs_ok handle_sendmsg_ok)
next
  case H_sendmmsg
  then show ?thesis using assms(1) by (auto simp: dispatch_call_def intro!: with_regs_ok handle_sendmsg_ok)
next
  case H_execve
  then show ?thesis using assms(1) by (auto simp: dispatch_call_def intro!: with_regs_ok handle_exec_ok)
next
  case H_execveat
  then show ?thesis using assms(1) by (auto simp: dispatch_call_def intro!: with_regs_ok handle_exec_ok)
next
  case H_connect
  then show ?thesis using assms(1) by (auto simp: dispatch_call_def intro!: with_regs_ok handle_sockaddr_ok)
next
  case H_bind
  then show ?thesis using assms(1) by (auto simp: dispatch_call_def intro!: with_regs_ok handle_sockaddr_ok)
next
  case H_sendto
  then show ?thesis using assms(1) by (auto simp: dispatch_call_def Let_def intro!: with_regs_ok handle_sockaddr_ok)
qed (use assms(1) in \<open>simp_all add: dispatch_call_def Let_def dispatch_ok\<close>)

end
