(* ===== verification/Call_Roundtrip.thy ===== *)
theory Call_Roundtrip
  imports Supervisor_Frame
begin

text \<open>
  What a task finds in its registers after a system call the supervisor has handled
  (\<open>on_syscall_enter\<close>, \<open>on_syscall_exit\<close> in \<open>src/src/engines/rootless/supervisor.cpp\<close>): a refused or
  answered call only shows its result, and the arguments a translated call was given are replaced by
  the guest's own when it returns.
\<close>

section \<open>Exit fix-ups keep arguments and the record of them\<close>

lemma set_return_args [simp]: "rg_args (set_return v rg) = rg_args rg" "arg (set_return v rg) = arg rg"
  by (simp_all add: set_return_def arg_def fun_eq_iff)

lemma dirents_loop_frame [simp]:
  "saved tid' (dirents_loop h tid fd b buf pos store s) = saved tid' s"
  "base tid' (dirents_loop h tid fd b buf pos store s) = base tid' s"
  by (induction h tid fd b buf pos store s rule: dirents_loop.induct;
      subst dirents_loop.simps; simp add: Let_def)+

lemma present_dirents_frame [simp]:
  "saved tid' (present_dirents h tid ret s) = saved tid' s" "base tid' (present_dirents h tid ret s) = base tid' s"
  by (simp_all add: present_dirents_def Let_def split: sum.split)

lemma on_links_frame [simp]:
  "saved tid (on_links f s) = saved tid s" "base tid (on_links f s) = base tid s"
  by (simp_all add: on_links_def case_prod_beta)

lemma fixup_rename_frame [simp]:
  "saved tid' (fixup_rename h tid ret s) = saved tid' s" "base tid' (fixup_rename h tid ret s) = base tid' s"
  by (simp_all add: fixup_rename_def Let_def split: option.split)

lemma fixup_stat_frame [simp]:
  "saved tid' (fixup_stat h tid sx ret s) = saved tid' s" "base tid' (fixup_stat h tid sx ret s) = base tid' s"
  by (simp_all add: fixup_stat_def Let_def split: sum.split)

lemma fixup_getcwd_frame [simp]:
  "saved tid' (snd (fixup_getcwd h tid rs)) = saved tid' (snd rs)" "base tid' (snd (fixup_getcwd h tid rs)) = base tid' (snd rs)"
  "rg_args (fst (fixup_getcwd h tid rs)) = rg_args (fst rs)"
  by (cases rs; simp add: fixup_getcwd_def Let_def case_prod_beta split: sum.split option.split)+

lemma fixup_readlink_frame [simp]:
  "saved tid' (snd (fixup_readlink h tid rs)) = saved tid' (snd rs)" "base tid' (snd (fixup_readlink h tid rs)) = base tid' (snd rs)"
  "rg_args (fst (fixup_readlink h tid rs)) = rg_args (fst rs)"
  by (cases rs; simp add: fixup_readlink_def Let_def case_prod_beta split: option.split)+

lemma fixup_exit_frame [simp]:
  "saved tid' (snd (fixup_exit h tid rs)) = saved tid' (snd rs)" "base tid' (snd (fixup_exit h tid rs)) = base tid' (snd rs)"
  "rg_args (fst (fixup_exit h tid rs)) = rg_args (fst rs)"
  by (cases rs; simp add: fixup_exit_def split: fixup.split)+

section \<open>Restoring\<close>

lemma list6: "length xs = 6 \<Longrightarrow> xs = [xs ! 0, xs ! 1, xs ! 2, xs ! 3, xs ! 4, xs ! 5]"
  by (simp add: list_eq_iff_nth_eq less_Suc_eq numeral_eq_Suc)

lemma restore_args_step:
  assumes "length (rg_args rg) = 6" "n \<le> 6"
  shows "rg_args (foldl (\<lambda>rg i. if ps_restore p ! i then set_arg (int i) (ps_orig_args p ! i) rg else rg) rg [0..<n]) =
    map (\<lambda>i. if i < n \<and> ps_restore p ! i then ps_orig_args p ! i else rg_args rg ! i) [0..<6]"
  using assms(2)
proof (induction n)
  case 0
  then show ?case using assms(1) map_nth [of "rg_args rg"] by simp
next
  case (Suc n)
  let ?f = "\<lambda>rg i. if ps_restore p ! i then set_arg (int i) (ps_orig_args p ! i) rg else rg"
  let ?m = "\<lambda>n. map (\<lambda>i. if i < n \<and> ps_restore p ! i then ps_orig_args p ! i else rg_args rg ! i) [0..<6]"
  have IH: "rg_args (foldl ?f rg [0..<n]) = ?m n" and n: "n < 6" using Suc by simp_all
  have "rg_args (?f (foldl ?f rg [0..<n]) n) = (if ps_restore p ! n then (?m n)[n := ps_orig_args p ! n] else ?m n)"
    using n by (simp add: set_arg_def IH del: upt_Suc)
  also have "\<dots> = ?m (Suc n)"
    using n by (cases "ps_restore p ! n"; intro nth_equalityI) (auto simp: nth_list_update less_Suc_eq)
  finally show ?case by simp
qed

lemma rg_args_restore:
  assumes "length (rg_args rg) = 6"
  shows "rg_args (restore_args p rg) = map (\<lambda>i. if ps_restore p ! i then ps_orig_args p ! i else arg rg i) [0..<6]"
  using restore_args_step [OF assms, of 6 p] unfolding restore_args_def by (simp add: arg_def cong: map_cong)

lemma restore_args_image:
  "(restore_args p rg)\<lparr>rg_args := [], rg_dirty := False\<rparr> = rg\<lparr>rg_args := [], rg_dirty := False\<rparr>"
proof -
  have "(foldl (\<lambda>rg i. if ps_restore p ! i then set_arg (int i) (ps_orig_args p ! i) rg else rg) rg is)\<lparr>rg_args := [], rg_dirty := False\<rparr> =
      rg\<lparr>rg_args := [], rg_dirty := False\<rparr>" for "is" :: "nat list"
    by (induction "is" arbitrary: rg) (simp_all add: set_arg_image)
  then show ?thesis by (simp add: restore_args_def)
qed

lemma args_ok_restored:
  assumes "args_ok rg0 tid rg s" "length (rg_args rg0) = 6" "saved tid s' = saved tid s" "rg_args rg' = rg_args rg"
  shows "rg_args (restore_args (pending_of s' tid) rg') = rg_args rg0"
proof -
  let ?p = "pending_of s' tid"
  have "args_ok rg0 tid rg s'" using assms(1) args_ok_cong [OF assms(3)] by simp
  then have "length (rg_args rg) = 6" "\<forall>i < 6. if ps_restore ?p ! i then ps_orig_args ?p ! i = arg rg0 i else arg rg i = arg rg0 i"
    by (simp_all add: args_ok_def saved_def)
  then show ?thesis
    using assms(2,4) by (intro nth_equalityI) (auto simp: rg_args_restore arg_def)
qed

lemma entry_action_ok:
  assumes "pending_of s tid = no_pending\<lparr>ps_nr := n\<rparr>" "length (rg_args rg) = 6"
    and "\<And>info. rg_native rg \<Longrightarrow> lookup_syscall (hs_table h) (rg_nr rg) = Some info \<Longrightarrow> si_handler info \<noteq> H_clone"
    and "entry_action h tid (rg, s) = (act, rg1, s1)"
  shows "args_ok rg tid rg1 s1" "base tid s1 = base tid s"
proof -
  let ?sw = "stack_writer_new X86_64 tid (rg_sp rg)"
  have c: "call_ok rg tid s (rg, ?sw, s)" using args_ok_start [OF assms(2,1)] by (simp add: call_ok_def)
  have d: "call_ok rg tid s (rg, ?sw, snd (deny h tid i nr e nm why sev s))" for i nr e nm why sev
    using c by (rule call_ok_sup) simp_all
  have e: "call_ok rg tid s (rg, ?sw, emit h k sv nm msg pid c d s)" for k sv nm msg pid c d
    using c by (rule call_ok_sup) simp_all
  have "args_ok rg tid rg1 s1 \<and> base tid s1 = base tid s"
  proof (cases "\<not> rg_native rg \<or> lookup_syscall (hs_table h) (rg_nr rg) = None")
    case True
    then show ?thesis
      using assms(4) d by (auto simp: entry_action_def call_ok_def case_prod_beta split: if_splits)
  next
    case False
    then obtain info where i: "lookup_syscall (hs_table h) (rg_nr rg) = Some info" "rg_native rg" by auto
    let ?s = "if sc_trace (sv_cfg s) then emit h EK_trace Sev_debug ''syscall.enter'' (si_name info) tid 0 (enter_detail info rg) s else s"
    have "call_ok rg tid s (rg, ?sw, ?s)" using c e by simp
    from dispatch_call_ok [OF this assms(3) [OF i(2,1)], of h] show ?thesis
      using assms(4) i by (auto simp: entry_action_def dispatch_def call_ok_def case_prod_beta)
  qed
  then show "args_ok rg tid rg1 s1" "base tid s1 = base tid s" by simp_all
qed

lemma clone_passes: "si_handler info = H_clone \<Longrightarrow> fst (dispatch h tid info rs) = pass"
  by (simp add: dispatch_def dispatch_call_def untrace_clone_def Let_def case_prod_beta)

lemma commit_image_eq:
  assumes "rg_args rg = rg_args (fetch_regs u)" "rg_raw rg = u" "rg_ip rg = u_rip u"
  shows "commit_image rg = u\<lparr>u_orig_rax := word_of_int (rg_nr rg), u_rax := word_of_int (rg_ret rg)\<rparr>"
  using assms by (simp add: commit_image_def fetch_regs_def)

lemma image_fields:
  assumes "rg\<lparr>rg_args := [], rg_dirty := False\<rparr> = rg0\<lparr>rg_args := [], rg_dirty := False\<rparr>"
  shows "rg_raw rg = rg_raw rg0" "rg_ip rg = rg_ip rg0"
  using arg_cong [OF assms, of rg_raw] arg_cong [OF assms, of rg_ip] by simp_all

lemma deny_fields [simp]:
  "fst (deny h tid info nr err nm why sev s) = fail_with err"
  "sv_mem (snd (deny h tid info nr err nm why sev s)) = sv_mem s" "sv_fs (snd (deny h tid info nr err nm why sev s)) = sv_fs s"
  by (simp_all add: deny_def Let_def emit_def)

lemma dispatch_denies:
  assumes "denies (si_handler info)"
  shows "\<exists>err \<in> {EPERM, ENOSYS, EOPNOTSUPP, EACCES}. \<exists>s'. dispatch h tid info (rg, s) = (fail_with err, rg, s') \<and>
    sv_mem s' = sv_mem s \<and> sv_fs s' = sv_fs s"
  using assms by (auto simp: denies_def dispatch_def dispatch_call_def denial_def Let_def case_prod_beta)

section \<open>Properties\<close>

text \<open>
  C5: A call the supervisor refuses or answers itself is never executed, and the guest sees nothing
  but its result: the registers written back are those the task stopped with, the call number
  replaced by -1 (which the kernel skips) and the result in place of the return value, however many
  arguments the handler had rewritten before it gave up.\<close>

theorem skipped_call_registers:
  assumes "entry_action h tid (fetch_regs u, s) = (act, rg1, s1)" and "sa_skip act"
    and "pending_of s tid = no_pending\<lparr>ps_nr := n\<rparr>"
  shows "commit_image (fst (skip_call tid (sa_ret act) (rg1, s1))) =
    u\<lparr>u_orig_rax := - 1, u_rax := word_of_int (sa_ret act)\<rparr>"
proof -
  have six: "length (rg_args (fetch_regs u)) = 6" by (simp add: fetch_regs_def)
  have "si_handler info \<noteq> H_clone"
    if i: "rg_native (fetch_regs u)" "lookup_syscall (hs_table h) (rg_nr (fetch_regs u)) = Some info" for info
  proof
    assume "si_handler info = H_clone"
    then have "fst (entry_action h tid (fetch_regs u, s)) = pass"
      using i by (simp add: entry_action_def clone_passes)
    then show False using assms(1,2) by (simp add: pass_def)
  qed
  from entry_action_ok [OF assms(3) six this assms(1)]
  have ok: "args_ok (fetch_regs u) tid rg1 s1" by simp
  let ?r = "restore_args (pending_of s1 tid) rg1"
  have r: "rg_args ?r = rg_args (fetch_regs u)" using args_ok_restored [OF ok six refl refl] .
  have "rg1\<lparr>rg_args := [], rg_dirty := False\<rparr> = (fetch_regs u)\<lparr>rg_args := [], rg_dirty := False\<rparr>"
    using ok by (simp add: args_ok_def case_prod_beta)
  then have i: "rg_raw ?r = u" "rg_ip ?r = u_rip u"
    using restore_args_image [of "pending_of s1 tid" rg1] image_fields [of ?r "fetch_regs u"] by (simp_all add: fetch_regs_def)
  show ?thesis
    using commit_image_eq [of "set_return (sa_ret act) (set_nr (- 1) ?r)" u] r i
    by (simp add: skip_call_def Let_def set_nr_def set_return_def)
qed

text \<open>
  C7: A translated call returns with the guest's own arguments: whatever handler rewrote them, an
  exit stop is requested as soon as one was, and at that stop the registers the kernel preserved are
  set back to the values the task entered with (every call except clone).\<close>

theorem passed_call_restores_arguments:
  assumes "entry_action h tid (fetch_regs u, s) = (act, rg1, s1)" and "pending_of s tid = no_pending\<lparr>ps_nr := n\<rparr>"
    and "\<forall>info. lookup_syscall (hs_table h) (sint (u_orig_rax u)) = Some info \<longrightarrow> si_handler info \<noteq> H_clone"
    and "rg_args (fetch_regs u') = rg_args rg1" and "saved tid s2 = saved tid s1"
  shows "(list_ex id (ps_restore (pending_of s1 tid)) \<longrightarrow> ps_active (pending_of s1 tid)) \<and>
    (case fixup_exit h tid (fetch_regs u', s2) of
       (rg2, s3) \<Rightarrow> rg_args (restore_args (pending_of s3 tid) rg2) = rg_args (fetch_regs u))"
proof -
  have six: "length (rg_args (fetch_regs u)) = 6" by (simp add: fetch_regs_def)
  have ok: "args_ok (fetch_regs u) tid rg1 s1"
    using entry_action_ok(1) [OF assms(2) six _ assms(1)] assms(3) by (simp add: fetch_regs_def)
  obtain rg2 s3 where f: "fixup_exit h tid (fetch_regs u', s2) = (rg2, s3)" by fastforce
  have "saved tid s3 = saved tid s1" "rg_args rg2 = rg_args rg1"
    using fixup_exit_frame(1) [of tid h tid "(fetch_regs u', s2)"] fixup_exit_frame(3) [of h tid "(fetch_regs u', s2)"] assms(4,5)
    by (simp_all add: f)
  then have "rg_args (restore_args (pending_of s3 tid) rg2) = rg_args (fetch_regs u)"
    by (rule args_ok_restored [OF ok six])
  then show ?thesis using ok by (simp add: f) (auto simp: args_ok_def saved_def)
qed

text \<open>
  A clone that asks not to be traced is passed on without that flag, so no child escapes the
  supervisor; the changed flag word is not recorded for restoration, so the task keeps it in its
  register after the call.\<close>

theorem clone_untraced_stripped:
  assumes "si_handler info = H_clone" and "arg rg 0 AND kCloneUntraced64 \<noteq> 0" and "length (rg_args rg) = 6"
    and "pending_of s tid = no_pending\<lparr>ps_nr := n\<rparr>"
  shows "\<exists>rg'. dispatch h tid info (rg, s) = (pass, rg', s) \<and> arg rg' 0 AND kCloneUntraced64 = 0 \<and>
    arg (restore_args (pending_of s tid) rg') 0 \<noteq> arg rg 0"
proof -
  let ?v = "arg rg 0 AND NOT kCloneUntraced64"
  let ?rg = "set_arg 0 ?v rg"
  have d: "dispatch h tid info (rg, s) = (pass, ?rg, s)"
    using assms(1,2) by (simp add: dispatch_def dispatch_call_def untrace_clone_def Let_def)
  have a: "arg ?rg 0 = ?v" using arg_set_arg [OF assms(3), of 0 0 ?v] by simp
  have z: "?v AND kCloneUntraced64 = 0" by (simp add: bit_eq_iff bit_simps)
  have "\<not> ps_restore (pending_of s tid) ! 0" by (simp add: assms(4) no_pending_def)
  then have "arg (restore_args (pending_of s tid) ?rg) 0 = ?v"
    using rg_args_restore [of ?rg "pending_of s tid"] assms(3) a by (simp add: arg_def)
  moreover have "?v \<noteq> arg rg 0" using z assms(2) by metis
  ultimately show ?thesis using d a z by metis
qed

text \<open>
  C34: What is not in the table or is classified as denied or unsupported never reaches the kernel: a
  call of a foreign ABI, an unknown number and every denied call are answered with one of four
  errnos, without touching the task's memory, its registers or the host.\<close>

theorem denied_call_refused:
  assumes "hs_table h = kTable nr_of"
    and "\<not> rg_native rg \<or> lookup_syscall (hs_table h) (rg_nr rg) = None \<or>
      (\<exists>info. lookup_syscall (hs_table h) (rg_nr rg) = Some info \<and> si_cls info \<in> {Cls_denied, Cls_unsupported})"
    and "entry_action h tid (rg, s) = (act, rg1, s1)"
  shows "(\<exists>err \<in> {EPERM, ENOSYS, EOPNOTSUPP, EACCES}. act = fail_with err) \<and> rg1 = rg \<and> sv_mem s1 = sv_mem s \<and> sv_fs s1 = sv_fs s"
proof (cases "\<not> rg_native rg \<or> lookup_syscall (hs_table h) (rg_nr rg) = None")
  case True
  then show ?thesis
    using assms(3) by (auto simp: entry_action_def case_prod_beta split: if_splits)
next
  case False
  then obtain info where i: "rg_native rg" "lookup_syscall (hs_table h) (rg_nr rg) = Some info"
      "si_cls info \<in> {Cls_denied, Cls_unsupported}"
    using assms(2) by auto
  have "info \<in> set (kTable nr_of)" using i(2) lookup_syscall_Some [of "kTable nr_of"] assms(1) by auto
  then have d: "denies (si_handler info)"
    using kTable_consistent i(3) by (fastforce simp: entry_consistent_def)
  let ?s = "if sc_trace (sv_cfg s) then emit h EK_trace Sev_debug ''syscall.enter'' (si_name info) tid 0 (enter_detail info rg) s else s"
  have "sv_mem ?s = sv_mem s" "sv_fs ?s = sv_fs s" by (simp_all add: emit_def)
  then show ?thesis
    using dispatch_denies [OF d, of h tid rg ?s] assms(3) i(1,2) by (auto simp: entry_action_def)
qed

section \<open>Witnesses\<close>

definition one_call :: "string \<Rightarrow> syscall_class \<Rightarrow> handler \<Rightarrow> syscall_info" where
  "one_call name c hd1 = \<lparr>si_nr = 0, si_name = name, si_cls = c, si_handler = hd1\<rparr>"

lemma lookup_one: "lookup_syscall [one_call name c hd1] 0 = Some (one_call name c hd1)"
  by (simp add: lookup_syscall_def build_index_def index_entry_def one_call_def kMaxNr_def Let_def)

definition entered_sup :: "(64 word \<Rightarrow> char, string \<Rightarrow> node option) supervisor" where
  "entered_sup = set_pending 7 (no_pending\<lparr>ps_nr := 0\<rparr>) sample_sup"

lemma pending_entered [simp]: "pending_of entered_sup 7 = no_pending\<lparr>ps_nr := 0\<rparr>"
  by (simp add: entered_sup_def)

lemma fetch_sample: "fetch_regs sample_uregs = \<lparr>rg_nr = 0, rg_args = [0, 0, 0, 0, 0, 0], rg_ret = 0, rg_sp = 0x20000,
    rg_ip = 0x1000, rg_native = True, rg_dirty = False, rg_raw = sample_uregs\<rparr>"
  by (simp add: fetch_regs_def sample_uregs_def kUser64Cs_def)

lemma sample_refused:
  "\<exists>s1. entry_action sample_shost 7 (fetch_regs sample_uregs, entered_sup) = (fail_with ENOSYS, fetch_regs sample_uregs, s1) \<and>
     sv_mem s1 = sv_mem entered_sup"
proof -
  have "hs_table sample_shost = []" by (simp add: sample_shost_def)
  then have "lookup_syscall (hs_table sample_shost) 0 = None" by (simp add: lookup_syscall_def build_index_def kMaxNr_def)
  then show ?thesis by (simp add: entry_action_def fetch_sample case_prod_beta)
qed

theorem skipped_call_registers_witness:
  "\<exists>act rg1 s1. entry_action sample_shost 7 (fetch_regs sample_uregs, entered_sup) = (act, rg1, s1) \<and> sa_skip act \<and>
    commit_image (fst (skip_call 7 (sa_ret act) (rg1, s1))) = sample_uregs\<lparr>u_orig_rax := - 1, u_rax := word_of_int (sa_ret act)\<rparr>"
proof -
  obtain s1 where e: "entry_action sample_shost 7 (fetch_regs sample_uregs, entered_sup) =
      (fail_with ENOSYS, fetch_regs sample_uregs, s1)"
    using sample_refused by blast
  have k: "sa_skip (fail_with ENOSYS)" by (simp add: fail_with_def answer_def)
  show ?thesis using skipped_call_registers [OF e k pending_entered] e k by blast
qed

definition getcwd_shost :: "(64 word \<Rightarrow> char, string \<Rightarrow> node option) sup_host" where
  "getcwd_shost = sample_shost\<lparr>hs_table := [one_call ''getcwd'' Cls_translated H_getcwd]\<rparr>"

theorem passed_call_restores_arguments_witness:
  "\<exists>rg1 s1. entry_action getcwd_shost 7 (fetch_regs sample_uregs, entered_sup) = (pass, rg1, s1) \<and>
    (case fixup_exit getcwd_shost 7 (fetch_regs sample_uregs, s1) of
       (rg2, s3) \<Rightarrow> rg_args (restore_args (pending_of s3 7) rg2) = rg_args (fetch_regs sample_uregs))"
proof -
  have l: "lookup_syscall (hs_table getcwd_shost) 0 = Some (one_call ''getcwd'' Cls_translated H_getcwd)"
    by (simp add: getcwd_shost_def lookup_one)
  have "\<exists>s1. entry_action getcwd_shost 7 (fetch_regs sample_uregs, entered_sup) = (pass, fetch_regs sample_uregs, s1)"
    using l by (simp add: entry_action_def fetch_sample)
      (simp add: one_call_def dispatch_def dispatch_call_def remember_getcwd_def Let_def)
  then obtain s1 where e: "entry_action getcwd_shost 7 (fetch_regs sample_uregs, entered_sup) = (pass, fetch_regs sample_uregs, s1)" ..
  have c: "\<forall>info. lookup_syscall (hs_table getcwd_shost) (sint (u_orig_rax sample_uregs)) = Some info \<longrightarrow> si_handler info \<noteq> H_clone"
    using l by (simp add: sample_uregs_def one_call_def)
  from passed_call_restores_arguments [OF e pending_entered c refl refl]
  show ?thesis by (intro exI conjI) (rule e, elim conjE)
qed

theorem clone_untraced_stripped_witness:
  "\<exists>rg'. dispatch sample_shost 7 (one_call ''clone'' Cls_translated H_clone) (set_arg 0 0x00800011 (fetch_regs sample_uregs), entered_sup) =
     (pass, rg', entered_sup) \<and> arg rg' 0 AND kCloneUntraced64 = 0 \<and>
     arg (restore_args (pending_of entered_sup 7) rg') 0 \<noteq> arg (set_arg 0 0x00800011 (fetch_regs sample_uregs)) 0"
  by (rule clone_untraced_stripped [OF _ _ _ pending_entered])
    (simp_all add: one_call_def fetch_sample set_arg_def arg_def kCloneUntraced64_def)

theorem denied_call_refused_witness:
  "\<exists>act rg1 s1. entry_action (sample_shost\<lparr>hs_table := kTable (\<lambda>_. None)\<rparr>) 7 (fetch_regs sample_uregs, entered_sup) = (act, rg1, s1) \<and>
    (\<exists>err \<in> {EPERM, ENOSYS, EOPNOTSUPP, EACCES}. act = fail_with err) \<and> rg1 = fetch_regs sample_uregs"
proof -
  let ?h = "sample_shost\<lparr>hs_table := kTable (\<lambda>_. None)\<rparr>"
  have t: "kTable (\<lambda>_. None) = []" by (simp add: kTable_def case_prod_beta)
  have n: "lookup_syscall (hs_table ?h) (rg_nr (fetch_regs sample_uregs)) = None"
    by (simp add: t lookup_syscall_def build_index_def kMaxNr_def fetch_sample)
  obtain act rg1 s1 where e: "entry_action ?h 7 (fetch_regs sample_uregs, entered_sup) = (act, rg1, s1)"
    using prod_cases3 by blast
  have "hs_table ?h = kTable (\<lambda>_. None)" by simp
  from denied_call_refused [OF this _ e] n e show ?thesis by blast
qed

end
