(* ===== verification/Filter_Agreement.thy ===== *)
theory Filter_Agreement
  imports Spawn Call_Roundtrip
begin

text \<open>
  The seccomp filter of a session and the dispatcher agree: a call the filter lets the kernel run
  without a stop is one the dispatcher would have passed on unchanged, and a call the filter refuses is
  one the dispatcher refuses with the same errno.  The filter is therefore only an acceleration.
\<close>

section \<open>Entries of the table\<close>

definition handler_of_name :: "string \<Rightarrow> handler option" where
  "handler_of_name n =
     (if n = ''clone'' then Some H_clone else if n = ''sendto'' then Some H_sendto
      else if n = ''socket'' then Some H_socket else None)"

lemma syscalls_def_handlers:
  "list_all (\<lambda>(n, c, hd1). handler_of_name n = None \<or> handler_of_name n = Some hd1) syscalls_def"
  by (simp add: syscalls_def_def syscalls_def_1_def syscalls_def_2_def syscalls_def_3_def
      syscalls_def_4_def syscalls_def_5_def handler_of_name_def)

lemma handler_of_entry:
  "e \<in> set (kTable nr_of) \<Longrightarrow> handler_of_name (si_name e) = Some hd1 \<Longrightarrow> si_handler e = hd1"
  using syscalls_def_handlers by (auto simp: kTable_entry list_all_iff)

lemma lookup_nr_entry: "lookup_nr t name = n \<Longrightarrow> n \<noteq> - 1 \<Longrightarrow> \<exists>e \<in> set t. si_name e = name \<and> si_nr e = n"
  by (induction t) (auto split: if_splits)

text \<open>The system call numbers of the target: distinct and within the index.\<close>

definition numbers_ok :: "syscall_info list \<Rightarrow> bool" where
  "numbers_ok t \<longleftrightarrow> distinct (map si_nr t) \<and> list_all (\<lambda>e. 0 \<le> si_nr e \<and> si_nr e < int kMaxNr) t"

lemma entry_unique:
  "numbers_ok t \<Longrightarrow> e \<in> set t \<Longrightarrow> e' \<in> set t \<Longrightarrow> si_nr e = si_nr e' \<Longrightarrow> e = e'"
  by (auto simp: numbers_ok_def distinct_map inj_on_def)

lemma session_policy_ok: "numbers_ok (hs_table h) \<Longrightarrow> policy_ok (session_policy h s)"
proof -
  assume n: "numbers_ok (hs_table h)"
  have l: "lookup_nr (hs_table h) name < 2 ^ 32" for name
    using lookup_nr_entry [of "hs_table h" name] n
    by (cases "lookup_nr (hs_table h) name = - 1") (fastforce simp: numbers_ok_def list_all_iff kMaxNr_def)+
  have "list_all (\<lambda>n. n < 2 ^ 32) (map si_nr (filter f (hs_table h)))" for f
    using n by (fastforce simp: numbers_ok_def list_all_iff kMaxNr_def)
  then show ?thesis using l by (simp add: session_policy_def policy_ok_def)
qed

section \<open>What the dispatcher passes on\<close>

lemma dispatch_pass_through:
  assumes "si_handler info = H_none"
    and "is_call info ''fstat'' \<longrightarrow> \<not> has_identity s \<and> \<not> has_objects (sv_links s)"
    and "\<not> is_call info ''prctl''" "\<not> is_call info ''seccomp''"
    and "is_call info ''getdents64'' \<longrightarrow> \<not> sv_links_enabled s" "is_call info ''getgroups'' \<longrightarrow> \<not> has_identity s"
  shows "dispatch h tid info (rg, s) = (pass, rg, s)"
proof -
  have "(if is_call info ''fstat'' then stat_fixup tid (arg rg 1) Fx_stat s else s) = s"
    using assms(2) by (simp add: stat_fixup_def)
  then show ?thesis
    using assms by (auto simp: dispatch_def dispatch_call_def pass_through_def Let_def)
qed

lemma allowed_passes:
  assumes "entry_consistent (si_name info, si_cls info, si_handler info)" "filter_allows s0 info"
    and "sv_cfg s = sv_cfg s0" "sv_links_enabled s = sv_links_enabled s0" "sv_audit_refused s = sv_audit_refused s0"
    and "has_objects (sv_links s) \<longrightarrow> has_objects (sv_links s0) \<or> sv_links_enabled s0"
  shows "dispatch h tid info (rg, s) = (pass, rg, s)"
proof -
  have i: "has_identity s = has_identity s0" using assms(3) by (simp add: has_identity_def)
  consider (socket) "si_handler info = H_socket" "sc_network (sv_cfg s0) = Net_host" "\<not> sv_audit_refused s0"
    | (ident) "\<not> has_identity s0" "si_handler info \<in> {H_getuid, H_geteuid, H_getgid, H_getegid, H_getresuid, H_getresgid, H_setid}"
    | (plain) "si_cls info = Cls_pass_through" "\<not> (has_identity s0 \<and> (is_call info ''fstat'' \<or> is_call info ''getgroups''))"
        "\<not> ((sv_links_enabled s0 \<or> has_objects (sv_links s0)) \<and> is_call info ''fstat'')"
        "\<not> (sv_links_enabled s0 \<and> is_call info ''getdents64'')" "\<not> is_call info ''seccomp''" "\<not> is_call info ''prctl''"
    using assms(2) unfolding filter_allows_def Let_def by (auto split: if_splits)
  then show ?thesis
  proof cases
    case socket
    then show ?thesis
      using assms(3,5) by (simp add: dispatch_def dispatch_call_def socket_call_def Let_def)
  next
    case ident
    then show ?thesis
      using i by (auto simp: dispatch_def dispatch_call_def identity_call_def with_sup_def Let_def)
  next
    case plain
    have "si_handler info = H_none" using assms(1) plain(1) by (simp add: entry_consistent_def)
    then show ?thesis
      using plain assms(4,6) i by (intro dispatch_pass_through) auto
  qed
qed

lemma clone_bit: "ucast (x :: 64 word) AND kCloneUntraced = 0 \<longleftrightarrow> x AND kCloneUntraced64 = 0"
proof -
  have k: "kCloneUntraced = 2 ^ 23" "kCloneUntraced64 = 2 ^ 23" by (simp_all add: kCloneUntraced_def kCloneUntraced64_def)
  show ?thesis unfolding k and_exp_eq_0_iff_not_bit by (simp add: bit_simps)
qed

lemma small_int_arg: "ucast (arg rg 0) = AF_UNIX \<longleftrightarrow> int_arg rg 0 = 1"
proof -
  have "w = 1" if "sint w = 1" for w :: "32 word"
  proof -
    have "w = of_int (sint w)" by simp
    also have "\<dots> = 1" unfolding that by simp
    finally show ?thesis .
  qed
  then have "w = 1 \<longleftrightarrow> sint w = 1" for w :: "32 word" by auto
  then show ?thesis by (simp add: int_arg_def AF_UNIX_def)
qed

section \<open>What the filter decides for a call of the table\<close>

lemma named_handler:
  assumes "hs_table h = kTable nr_of" "numbers_ok (hs_table h)" "lookup_syscall (hs_table h) nr = Some info"
    and "nr = lookup_nr (hs_table h) name" "handler_of_name name = Some hd1"
  shows "si_handler info = hd1"
proof -
  have m: "info \<in> set (kTable nr_of)" "si_nr info = nr" "0 \<le> nr"
    using lookup_syscall_Some [OF assms(3)] assms(1) by simp_all
  obtain e where "e \<in> set (hs_table h)" "si_name e = name" "si_nr e = nr"
    using lookup_nr_entry [of "hs_table h" name nr] assms(4) [symmetric] m(3) by auto
  then have "e = info" using entry_unique [OF assms(2)] m(1,2) assms(1) by simp
  then show ?thesis using handler_of_entry [OF m(1)] assms(5) \<open>si_name e = name\<close> by simp
qed

lemma listed_allowed:
  assumes "numbers_ok (hs_table h)" "lookup_syscall (hs_table h) nr = Some info" "nr \<in> set (fp_allow (session_policy h s0))"
  shows "filter_allows s0 info"
proof -
  have m: "info \<in> set (hs_table h)" "si_nr info = nr" using lookup_syscall_Some [OF assms(2)] by simp_all
  obtain e where e: "e \<in> set (hs_table h)" "filter_allows s0 e" "si_nr e = nr"
    using assms(3) by (auto simp: session_policy_def split: if_splits)
  then have "e = info" using entry_unique [OF assms(1)] m by simp
  then show ?thesis using e(2) by simp
qed

lemma actions_differ:
  "trace_action \<noteq> SECCOMP_RET_ALLOW" "SECCOMP_RET_ERRNO OR of_nat EACCES \<noteq> SECCOMP_RET_ALLOW"
  by (simp_all add: trace_action_def SECCOMP_RET_TRACE_def SECCOMP_RET_ALLOW_def SECCOMP_RET_ERRNO_def
      kSeccompTraceMarker_def EACCES_def)

lemma filter_decisions:
  assumes "fi_arch inp = native_audit_arch" "uint (fi_nr inp) = rg_nr rg" "fi_args inp = rg_args rg"
    and "0 \<le> rg_nr rg" "rg_nr rg < int kMaxNr"
  shows filter_decision_allow: "filter_decision (session_policy h s0) inp = SECCOMP_RET_ALLOW \<Longrightarrow>
      rg_nr rg = lookup_nr (hs_table h) ''socket'' \<and> int_arg rg 0 = 1 \<or>
      rg_nr rg = lookup_nr (hs_table h) ''clone'' \<and> arg rg 0 AND kCloneUntraced64 = 0 \<or>
      rg_nr rg = lookup_nr (hs_table h) ''sendto'' \<and> arg rg 4 = 0 \<or> rg_nr rg \<in> set (fp_allow (session_policy h s0))"
    and filter_decision_errno: "filter_decision (session_policy h s0) inp \<noteq> SECCOMP_RET_ALLOW \<Longrightarrow>
      filter_decision (session_policy h s0) inp \<noteq> trace_action \<Longrightarrow>
      rg_nr rg = lookup_nr (hs_table h) ''socket'' \<and> sc_network (sv_cfg s0) = Net_none \<and> int_arg rg 0 \<noteq> 1 \<and>
      filter_decision (session_policy h s0) inp = SECCOMP_RET_ERRNO OR of_nat EACCES"
proof -
  let ?p = "session_policy h s0"
  have arch: "fi_arch inp = fp_audit_arch ?p" "\<not> rg_nr rg \<ge> 0x40000000"
    using assms(1,5) by (simp_all add: session_policy_def kMaxNr_def)
  have tr: "sc_trace (sv_cfg s0) \<Longrightarrow> filter_decision ?p inp = trace_action"
    using arch assms(2,4) by (simp add: filter_decision_def session_policy_def Let_def)
  have a: "fi_args inp ! 0 = arg rg 0" "fi_args inp ! 4 = arg rg 4" using assms(3) by (simp_all add: arg_def)
  show "rg_nr rg = lookup_nr (hs_table h) ''socket'' \<and> int_arg rg 0 = 1 \<or>
      rg_nr rg = lookup_nr (hs_table h) ''clone'' \<and> arg rg 0 AND kCloneUntraced64 = 0 \<or>
      rg_nr rg = lookup_nr (hs_table h) ''sendto'' \<and> arg rg 4 = 0 \<or> rg_nr rg \<in> set (fp_allow ?p)"
    if d: "filter_decision ?p inp = SECCOMP_RET_ALLOW"
  proof -
    have "\<not> sc_trace (sv_cfg s0)" using tr d actions_differ(1) by auto
    then show ?thesis
      using d arch actions_differ a unfolding filter_decision_def Let_def assms(2)
      by (auto simp: session_policy_def clone_bit small_int_arg split: if_splits)
  qed
  show "rg_nr rg = lookup_nr (hs_table h) ''socket'' \<and> sc_network (sv_cfg s0) = Net_none \<and> int_arg rg 0 \<noteq> 1 \<and>
      filter_decision ?p inp = SECCOMP_RET_ERRNO OR of_nat EACCES"
    if d: "filter_decision ?p inp \<noteq> SECCOMP_RET_ALLOW" "filter_decision ?p inp \<noteq> trace_action"
  proof -
    have "\<not> sc_trace (sv_cfg s0)" using tr d by auto
    then show ?thesis
      using d arch a unfolding filter_decision_def Let_def assms(2)
      by (auto simp: session_policy_def small_int_arg split: if_splits)
  qed
qed

section \<open>Properties\<close>


definition read_numbers :: "string \<Rightarrow> int option" where
  "read_numbers n = (if n = ''read'' then Some 0 else None)"

definition read_shost :: "(64 word \<Rightarrow> char, string \<Rightarrow> node option) sup_host" where
  "read_shost = sample_shost\<lparr>hs_table := kTable read_numbers\<rparr>"

definition read_call :: filter_input where
  "read_call = \<lparr>fi_nr = 0, fi_arch = native_audit_arch, fi_args = rg_args (fetch_regs sample_uregs)\<rparr>"

lemma read_table: "kTable read_numbers = [one_call ''read'' Cls_pass_through H_none]"
  by (simp add: kTable_def syscalls_def_def syscalls_def_1_def syscalls_def_2_def syscalls_def_3_def
      syscalls_def_4_def syscalls_def_5_def read_numbers_def one_call_def)


end
