(* ===== verification/Nul_Free.thy ===== *)
theory Nul_Free
  imports Resolver_Safety Load_Request
begin

text \<open>
  Paths that reach the kernel are C strings.  A NUL inside a host path built by the resolver would cut
  it short of the mount it was checked against; no such byte can get there, since the guest's path ends
  at its first NUL and neither symlink targets nor mount paths hold one.
\<close>

abbreviation nul_free :: "string \<Rightarrow> bool" where
  "nul_free s \<equiv> nul \<notin> set s"

definition links_nul_free :: "host_fs \<Rightarrow> bool" where
  "links_nul_free fs \<longleftrightarrow> (\<forall>p s. readlink fs p = Inr s \<longrightarrow> nul_free s)"

definition table_nul_free :: "mount_table \<Rightarrow> bool" where
  "table_nul_free t \<longleftrightarrow> t \<noteq> [] \<and> list_all (\<lambda>m. nul_free (m_guest m) \<and> nul_free (m_host m)) t"

definition walk_nul_free :: "walk \<Rightarrow> bool" where
  "walk_nul_free s \<longleftrightarrow> list_all nul_free (w_pending s) \<and> list_all nul_free (w_done s)"

section \<open>Strings\<close>

lemma suffix_after_nul_free: "nul_free p \<Longrightarrow> nul_free (suffix_after p r)"
  by (auto simp: suffix_after_def dest: in_set_dropD)

lemma slash_join_nul_free: "list_all nul_free cs \<Longrightarrow> nul_free (slash_join cs)"
  by (induction cs) auto

lemma build_nul_free: "list_all nul_free cs \<Longrightarrow> nul_free (build cs)"
  using slash_join_nul_free [of cs] by (simp add: build_def)

lemma components_list_nul_free: "nul_free p \<Longrightarrow> list_all nul_free (components p)"
  using components_nul_free by (auto simp: list_all_iff)

lemma dec_string_nul_free: "nul_free (dec_string n)"
  using dec_string_all_digits [of n] by (auto simp: list_all_iff is_digit_def)

lemma int_string_nul_free: "nul_free (int_string i)"
  using dec_string_nul_free by (simp add: int_string_def)

lemma link_id_nul_free: "is_link_id i \<Longrightarrow> nul_free i"
  by (auto simp: is_link_id_def list_all_iff id_char_def)

lemma read_link_nul_free: "links_nul_free fs \<Longrightarrow> read_link fs p = Inr s \<Longrightarrow> nul_free s"
  by (auto simp: links_nul_free_def read_link_def split: sum.splits if_splits)

section \<open>Mounts\<close>

lemma to_host_nul_free:
  assumes "table_nul_free t" and "nul_free g" and "to_host t g = (m, host)"
  shows "m \<in> set t" "nul_free host" "nul_free (m_guest m)"
proof -
  have m: "m = (case mount_for_guest t g of None \<Rightarrow> hd t | Some m \<Rightarrow> m)"
    using assms(3) by (auto simp: to_host_def Let_def)
  show in_t: "m \<in> set t"
    using m assms(1) guest_side.keep_longest_in
    by (auto simp: table_nul_free_def mount_for_guest_def split: option.splits)
  then show "nul_free (m_guest m)" using assms(1) by (auto simp: table_nul_free_def list_all_iff)
  have "nul_free (m_host m)" using assms(1) in_t by (auto simp: table_nul_free_def list_all_iff)
  then show "nul_free host"
    using assms(2,3) m suffix_after_nul_free [of g "m_guest m"] by (auto simp: to_host_def Let_def split: if_splits)
qed

lemma to_guest_nul_free:
  assumes "table_nul_free t" and "nul_free p" and "to_guest t p = Some g"
  shows "nul_free g"
proof -
  obtain m where m: "keep_longest m_host p None t = Some m"
    and g: "g = (let rest = suffix_after p (m_host m)
                 in if m_guest m = ''/'' then if rest = [] then ''/'' else rest else m_guest m @ rest)"
    using assms(3) by (auto simp: to_guest_def Let_def split: option.splits if_splits)
  have "m \<in> set t" using m host_side.keep_longest_in by auto
  then have "nul_free (m_guest m)" using assms(1) by (auto simp: table_nul_free_def list_all_iff)
  then show ?thesis using g assms(2) suffix_after_nul_free by (auto simp: Let_def)
qed

section \<open>The walk\<close>

lemma link_target_nul_free:
  assumes "links_nul_free fs" and "table_nul_free t" and "nul_free (m_guest m)" and "\<forall>x. tg = Some x \<longrightarrow> nul_free x"
    and "link_target fs t opts g m h tg = Inr (b, target)"
  shows "nul_free target"
proof (cases "m_kind m = Kind_proc")
  case True
  then have "proc_link_target fs t g h m opts = Inr (b, target)" using assms(5) by (simp add: link_target_def)
  moreover have "nul_free x" "to_guest t x = Some g' \<Longrightarrow> nul_free g'" if "read_link fs h = Inr x" for x g'
    using read_link_nul_free [OF assms(1) that] to_guest_nul_free [OF assms(2)] by auto
  ultimately show ?thesis
    by (auto simp: proc_link_target_def Let_def int_string_nul_free split: if_splits sum.splits option.splits)
next
  case False
  then obtain raw where raw: "nul_free raw"
    "target = (if link_target_id raw \<noteq> [] then link_store_path (m_guest m) @ slash # link_target_id raw else raw)"
    using assms(4,5) read_link_nul_free [OF assms(1)]
    by (cases tg) (auto simp: link_target_def split: sum.splits)
  have "nul_free (link_target_id raw)" if "link_target_id raw \<noteq> []"
    using that link_target_id_elim link_id_nul_free by metis
  moreover have "nul_free (link_store_path (m_guest m))"
    using assms(3) by (auto simp: link_store_path_def kLinkStoreDir_def)
  ultimately show ?thesis using raw by auto
qed

lemma enter_target_nul_free: "walk_nul_free s \<Longrightarrow> nul_free target \<Longrightarrow> walk_nul_free (enter_target s target)"
  using components_list_nul_free [of target]
  by (auto simp: walk_nul_free_def enter_target_def list_all_butlast)

lemma follow_link_nul_free:
  assumes "links_nul_free fs" and "table_nul_free t" and "nul_free (m_guest m)" and "\<forall>x. tg = Some x \<longrightarrow> nul_free x"
    and "walk_nul_free s" and "follow_link fs t opts s g m h l tg = Continue s'"
  shows "walk_nul_free s'"
  using assms(6) link_target_nul_free [OF assms(1-4)] enter_target_nul_free [OF assms(5)]
  by (auto elim: follow_link_Continue)

lemma resolve_step_follows:
  assumes "resolve_step fs t opts c s = Continue s'" and "w_links s' \<noteq> w_links s"
    and "to_host t (build (w_done s @ [c])) = (m, host)"
  obtains l tg where "follow_link fs t opts (s\<lparr>w_done := w_done s @ [c]\<rparr>) (build (w_done s @ [c])) m host l tg = Continue s'"
    "\<forall>x. tg = Some x \<longrightarrow> read_link fs host = Inr x"
proof -
  have c: "c \<noteq> ''.''" "c \<noteq> ''..''" "w_exists s" "w_is_dir s"
    using assms(1,2) by (auto simp: resolve_step_def split: if_splits)
  obtain st where st: "lstat fs host = Inr st"
    using assms c by (cases "lstat fs host") (auto simp: resolve_step_def Let_def split: if_splits)
  define pk where "pk b = (if b then (case read_link fs host of Inl e \<Rightarrow> None | Inr x \<Rightarrow> Some x) else None)" for b
  have pk: "\<forall>x. pk b = Some x \<longrightarrow> read_link fs host = Inr x" for b
    by (auto simp: pk_def split: sum.splits)
  have "\<exists>l b. follow_link fs t opts (s\<lparr>w_done := w_done s @ [c]\<rparr>) (build (w_done s @ [c])) m host l (pk b) = Continue s'"
    using assms c st unfolding resolve_step_def Let_def by (simp flip: pk_def split: if_splits) (blast, auto)
  then show ?thesis using that pk by blast
qed

lemma resolve_step_nul_free:
  assumes "links_nul_free fs" and "table_nul_free t" and "walk_nul_free s" and "w_pending s = c # rest"
    and "resolve_step fs t opts c (s\<lparr>w_pending := rest\<rparr>) = Continue s'"
  shows "walk_nul_free s'"
proof -
  let ?s = "s\<lparr>w_pending := rest\<rparr>"
  have s: "walk_nul_free ?s" "nul_free c" using assms(3,4) by (auto simp: walk_nul_free_def)
  obtain m host where mh: "to_host t (build (w_done s @ [c])) = (m, host)"
    by (cases "to_host t (build (w_done s @ [c]))")
  have d: "list_all nul_free (w_done s @ [c])" using s by (simp add: walk_nul_free_def)
  have m: "nul_free (m_guest m)" using to_host_nul_free(3) [OF assms(2) build_nul_free [OF d] mh] .
  have done_ok: "walk_nul_free (?s\<lparr>w_done := w_done s @ [c]\<rparr>)" using s by (simp add: walk_nul_free_def)
  show ?thesis
    using assms(5)
  proof (cases rule: resolve_step_Continue)
    case (follow target)
    then have "w_links s' \<noteq> w_links ?s" by (simp add: enter_target_def)
    then obtain l tg where f: "follow_link fs t opts (?s\<lparr>w_done := w_done s @ [c]\<rparr>) (build (w_done s @ [c])) m host l tg = Continue s'"
      and "\<forall>x. tg = Some x \<longrightarrow> read_link fs host = Inr x"
      using resolve_step_follows [OF assms(5)] mh by auto
    then have "\<forall>x. tg = Some x \<longrightarrow> nul_free x" using read_link_nul_free [OF assms(1)] by blast
    then show ?thesis using follow_link_nul_free [OF assms(1,2) m _ done_ok f] by blast
  qed (use s in \<open>auto simp: walk_nul_free_def list_all_butlast\<close>)
qed

interpretation nul_free_loop: loop_invariant fs t opts
  "\<lambda>s. links_nul_free fs \<and> table_nul_free t \<and> walk_nul_free s" for fs t opts
  by unfold_locales (blast intro: resolve_step_nul_free)

lemma initial_walk_nul_free: "nul_free p \<Longrightarrow> walk_nul_free (initial_walk fs p cache)"
  using components_list_nul_free [of p]
  by (auto simp: initial_walk_def walk_nul_free_def Let_def case_prod_beta list_all_iff
      split: option.splits dest: in_set_dropD in_set_takeD)

lemma resolve_nul_free:
  assumes "links_nul_free fs" and "table_nul_free t" and "nul_free p"
    and "fst (resolve fs t p opts cache) = Inr r"
  shows "nul_free (r_host r)"
proof (cases "resolve_loop fs t opts (initial_walk fs p cache)")
  case (Finished s)
  have "walk_nul_free s"
    using nul_free_loop.finished [OF _ Finished] assms initial_walk_nul_free by blast
  then have b: "nul_free (build (w_done s))" by (simp add: walk_nul_free_def build_nul_free)
  have f: "finish_walk t (trailing_slash p) s = Inr r"
    using assms(4) Finished by (auto simp: resolve_def split: if_splits)
  show ?thesis
    by (rule finish_walk_Inr [OF f]) (use to_host_nul_free(2) [OF assms(2) b] in auto)
next
  case (Returned s r')
  then have "r' = Inr r" using assms(4) by (auto simp: resolve_def split: if_splits)
  then obtain c rest where inv: "walk_nul_free s" "w_pending s = c # rest"
    "resolve_step fs t opts c (s\<lparr>w_pending := rest\<rparr>) = Return (Inr r)"
    using nul_free_loop.returned [OF _ Returned] assms initial_walk_nul_free by blast
  have d: "list_all nul_free (w_done s @ [c])" using inv by (simp add: walk_nul_free_def)
  show ?thesis
    by (rule resolve_step_Return [OF inv(3)])
      (use to_host_nul_free(2) [OF assms(2) build_nul_free [OF d]] in \<open>auto simp: magic_result_def\<close>)
qed

section \<open>Errors\<close>

text \<open>A refused host call sets an errno; so a refused resolution reports one.\<close>

definition errnos_set :: "host_fs \<Rightarrow> bool" where
  "errnos_set fs \<longleftrightarrow> (\<forall>p e. lstat fs p = Inl e \<or> readlink fs p = Inl e \<longrightarrow> 0 < e)"

lemma errnos_setD: "errnos_set fs \<Longrightarrow> lstat fs p = Inl e \<Longrightarrow> 0 < e" "errnos_set fs \<Longrightarrow> readlink fs p = Inl e \<Longrightarrow> 0 < e"
  by (auto simp: errnos_set_def)

lemma read_link_errno: "errnos_set fs \<Longrightarrow> read_link fs p = Inl e \<Longrightarrow> 0 < e"
  by (auto simp: read_link_def ENAMETOOLONG_def dest: errnos_setD split: sum.splits if_splits)

lemma follow_link_errno:
  assumes "errnos_set fs" and "follow_link fs t opts s g m h l tg = Return (Inl e)"
  shows "0 < e"
proof -
  have "0 < e" if "link_target fs t opts g m h tg = Inl e" for e
    using that read_link_errno [OF assms(1), of h e]
    by (auto simp: link_target_def proc_link_target_def Let_def EACCES_def ENOENT_def
        split: sum.splits option.splits if_splits)
  then show ?thesis
    using assms(2) by (auto simp: follow_link_def ELOOP_def ENOTDIR_def ENOENT_def split: sum.splits prod.splits if_splits)
qed

lemma resolve_step_errno:
  assumes "errnos_set fs" and "resolve_step fs t opts c s = Return (Inl e)"
  shows "0 < e"
  using assms(2) follow_link_errno [OF assms(1)] errnos_setD(1) [OF assms(1)]
  by (auto simp: resolve_step_def Let_def ENOTDIR_def ENOENT_def case_prod_beta split: sum.splits if_splits)

lemma resolve_errno:
  assumes "errnos_set fs" and "fst (resolve fs t p opts cache) = Inl e"
  shows "0 < e"
proof (cases "resolve_loop fs t opts (initial_walk fs p cache)")
  case (Finished s)
  then show ?thesis
    using assms(2)
    by (auto simp: resolve_def finish_walk_def Let_def EINVAL_def ENAMETOOLONG_def case_prod_beta split: if_splits)
next
  case (Returned s r)
  then have "r = Inl e \<or> 0 < e" using assms(2) by (auto simp: resolve_def EINVAL_def ENAMETOOLONG_def split: if_splits)
  then show ?thesis
    using cache_presence.returned [OF refl Returned] resolve_step_errno [OF assms(1)] by metis
qed

end
