(* ===== verification/Path_Arguments.thy ===== *)
theory Path_Arguments
  imports Call_Roundtrip Nul_Free
begin

text \<open>
  The paths a call hands to the kernel.  For every handler that names one file, the string at the path
  argument when the call is passed on is a host path below a mount of the session, whatever the guest
  wrote there; the argument is untouched only where the guest gave no path.
\<close>

section \<open>What a translation reads and writes\<close>

definition world :: "('m, 'f) supervisor \<Rightarrow> 'm \<times> 'f \<times> mount_table \<times> dir_cache" where
  "world s = (sv_mem s, sv_fs s, sv_mounts s, sv_dir_cache s)"

definition confined :: "mount_table \<Rightarrow> string \<Rightarrow> bool" where
  "confined t p \<longleftrightarrow> nul_free p \<and> list_ex (\<lambda>m. is_below p (m_host m)) t"

text \<open>
  What translation relies on: a well-formed mount table, no NUL in mount paths or in what \<open>readlink\<close>
  returns, an errno with every refused host call, and a directory cache that agrees with the host.
\<close>

definition paths_ok :: "('m, 'f) sup_host \<Rightarrow> ('m, 'f) supervisor \<Rightarrow> bool" where
  "paths_ok h s \<longleftrightarrow>
     table_ok (sv_mounts s) \<and> table_nul_free (sv_mounts s) \<and> links_nul_free (hs_files h (sv_fs s)) \<and>
     errnos_set (hs_files h (sv_fs s)) \<and> cache_sound (hs_files h (sv_fs s)) (sv_mounts s) (sv_dir_cache s)"

lemma world_eqD:
  assumes "world s' = world s"
  shows "sv_mem s' = sv_mem s" "sv_fs s' = sv_fs s" "sv_mounts s' = sv_mounts s" "sv_dir_cache s' = sv_dir_cache s"
  using assms by (simp_all add: world_def)

lemma paths_ok_world: "world s' = world s \<Longrightarrow> paths_ok h s' = paths_ok h s"
  by (simp add: paths_ok_def world_def)

lemma world_put_tracee [simp]: "world (put_tracee tid t s) = world s" "world (set_pending tid p s) = world s"
  by (simp_all add: world_def put_tracee_def set_pending_def)

lemma world_emit [simp]: "world (emit h k sv n msg pid c d s) = world s"
  by (simp add: emit_def world_def)

lemma world_report_outside [simp]: "world (report_outside h nm sub msg tid s) = world s"
proof -
  have "world (snd (first_report nm sub s)) = world s" by (simp add: first_report_def Let_def world_def)
  then show ?thesis by (simp add: report_outside_def case_prod_beta)
qed

lemma world_tgid_of [simp]: "world (snd (tgid_of h tid s)) = world s"
  by (simp add: tgid_of_def Let_def split: option.split)

lemma world_links_visible [simp]: "world (snd (links_visible h s)) = world s"
  by (simp add: links_visible_def case_prod_beta world_def)

lemma world_resolve_options_for [simp]: "world (snd (resolve_options_for h tid f s)) = world s"
  by (simp add: resolve_options_for_def case_prod_beta Let_def)

lemma world_path_base [simp]: "world (snd (path_base h tid rg sp s)) = world s"
proof -
  have "world (snd (guest_cwd h tid s)) = world s"
    by (simp add: guest_cwd_def split: sum.split option.split)
  moreover have "world (snd (guest_fd_path h tid fd s)) = world s" for fd
    by (simp add: guest_fd_path_def split: sum.split option.split)
  ultimately show ?thesis
    by (simp add: path_base_def Let_def case_prod_beta split: sum.split option.split)
qed

lemma path_base_nul_free:
  assumes "paths_ok h s" "path_base h tid rg sp s = (Inr b, s')"
  shows "nul_free b"
proof -
  have "nul_free g" if "read_link (hs_files h (sv_fs s)) p = Inr q" "to_guest (sv_mounts s) q = Some g" for p q g
    using that assms(1) unfolding paths_ok_def by (meson read_link_nul_free to_guest_nul_free)
  then show ?thesis
    using assms(2)
    by (auto simp: path_base_def guest_cwd_def guest_fd_path_def Let_def split: if_splits sum.splits option.splits prod.splits)
qed

lemma join_nul_free: "nul_free b \<Longrightarrow> nul_free p \<Longrightarrow> nul_free (join b p)"
  by (auto simp: join_def)

lemma sup_resolve_Inr:
  assumes "paths_ok h s" "nul_free full" "sup_resolve h full ro s = (Inr r, s')"
  shows "confined (sv_mounts s) (r_host r)" "sv_mem s' = sv_mem s" "sv_mounts s' = sv_mounts s" "sv_fs s' = sv_fs s"
    "pending_of s' tid = pending_of s tid"
proof -
  let ?fs = "hs_files h (sv_fs s)"
  have r: "fst (resolve ?fs (sv_mounts s) full ro (Some (sv_dir_cache s))) = Inr r"
    and s': "\<exists>c. s' = s\<lparr>sv_dir_cache := c\<rparr>"
    using assms(3) by (auto simp: sup_resolve_def split: prod.splits)
  have "\<exists>m \<in> set (sv_mounts s). is_below (r_host r) (m_host m)"
    using resolve_result_contained [OF _ _ r] assms(1) by (auto simp: paths_ok_def)
  moreover have "nul_free (r_host r)"
    using resolve_nul_free [OF _ _ assms(2) r] assms(1) by (auto simp: paths_ok_def)
  ultimately show "confined (sv_mounts s) (r_host r)" by (auto simp: confined_def list_ex_iff)
  show "sv_mem s' = sv_mem s" "sv_mounts s' = sv_mounts s" "sv_fs s' = sv_fs s" "pending_of s' tid = pending_of s tid"
    using s' by auto
qed

section \<open>Translation of one argument\<close>

definition arg_confined :: "(int \<Rightarrow> 'm \<Rightarrow> bytes_view) \<Rightarrow> int \<Rightarrow> nat \<Rightarrow> regs \<Rightarrow> ('m, 'f) supervisor \<Rightarrow> bool" where
  "arg_confined v tid i rg s \<longleftrightarrow>
     (\<exists>p. confined (sv_mounts s) p \<and> stored (v tid (sv_mem s)) (arg rg i) (p @ [nul]))"

definition arg_absent :: "(int \<Rightarrow> 'm \<Rightarrow> bytes_view) \<Rightarrow> int \<Rightarrow> nat \<Rightarrow> regs \<Rightarrow> ('m, 'f) supervisor \<Rightarrow> bool" where
  "arg_absent v tid i rg s \<longleftrightarrow> arg rg i = 0 \<or> stored (v tid (sv_mem s)) (arg rg i) [nul]"

text \<open>The string at argument \<open>i\<close> is a host path of the session, or the guest gave no path.\<close>

definition arg_ok :: "(int \<Rightarrow> 'm \<Rightarrow> bytes_view) \<Rightarrow> int \<Rightarrow> nat \<Rightarrow> regs \<Rightarrow> regs \<Rightarrow> ('m, 'f) supervisor \<Rightarrow> bool" where
  "arg_ok v tid i rg0 rg s \<longleftrightarrow>
     arg_confined v tid i rg s \<or> (arg rg i = arg rg0 i \<and> arg_absent v tid i rg s)"

lemma arg_ok_cong:
  "sv_mem s' = sv_mem s \<Longrightarrow> sv_mounts s' = sv_mounts s \<Longrightarrow> arg_ok v tid i rg0 rg s' = arg_ok v tid i rg0 rg s"
  by (simp add: arg_ok_def arg_confined_def arg_absent_def)

lemma read_cstring_stored:
  assumes "mem_reads mh v" "read_cstring mh tid m addr limit = Inr s"
  shows "nul_free s" "stored (v tid m) addr (s @ [nul])"
  using assms read_cstring_loop_sound [OF assms(1), of tid m addr "[]" addr limit s]
  by (auto simp: read_cstring_def split: if_splits)

text \<open>A stack writer of task \<open>tid\<close> that stays below its red zone.\<close>

definition scratch_ok :: "int \<Rightarrow> 64 word \<Rightarrow> stack_writer \<Rightarrow> bool" where
  "scratch_ok tid sp sw \<longleftrightarrow> sw_ok X86_64 sp sw \<and> sw_tid sw = tid"

lemma apply_translation_stored:
  assumes "apply_translation h tid sp tp (rg, sw, s) = (0, rg', sw', s')" and "mem_writes (hs_mem h) v"
    and "scratch_ok tid sp0 sw" and "tp_present tp" and "stored (v tid (sv_mem s)) (arg rg (sp_path_arg sp)) (tp_original tp @ [nul])"
    and "length (rg_args rg) = 6" and "sp_path_arg sp < 6"
  shows "stored (v tid (sv_mem s')) (arg rg' (sp_path_arg sp)) (r_host (tp_r tp) @ [nul])"
    "scratch_ok tid sp0 sw'" "length (rg_args rg') = 6" "unat (sw_top sw') \<le> unat (sw_top sw)"
    "sv_mounts s' = sv_mounts s" "sv_fs s' = sv_fs s" "sv_dir_cache s' = sv_dir_cache s"
    "sv_proc_scratch s' = sv_proc_scratch s"
    "\<And>j. j \<noteq> sp_path_arg sp \<Longrightarrow> arg rg' j = arg rg j"
    "\<And>b. unat (sw_top sw) \<le> unat b \<Longrightarrow> v tid (sv_mem s') b = v tid (sv_mem s) b"
proof -
  let ?i = "sp_path_arg sp"
  let ?goal = "stored (v tid (sv_mem s')) (arg rg' ?i) (r_host (tp_r tp) @ [nul]) \<and> scratch_ok tid sp0 sw' \<and>
    length (rg_args rg') = 6 \<and> unat (sw_top sw') \<le> unat (sw_top sw) \<and> sv_mounts s' = sv_mounts s \<and>
    sv_fs s' = sv_fs s \<and> sv_dir_cache s' = sv_dir_cache s \<and>
    sv_proc_scratch s' = sv_proc_scratch s \<and> (\<forall>j. j \<noteq> ?i \<longrightarrow> arg rg' j = arg rg j) \<and>
    (\<forall>b. unat (sw_top sw) \<le> unat b \<longrightarrow> v tid (sv_mem s') b = v tid (sv_mem s) b)"
  have ?goal
  proof (cases "r_host (tp_r tp) = tp_original tp")
    case True
    then show ?thesis using assms by (simp add: apply_translation_def)
  next
    case False
    let ?d = "r_host (tp_r tp) @ [nul]"
    obtain addr m where p: "sw_push X86_64 (hs_mem h) (sv_mem s) sw ?d = (Inr addr, sw', m)"
      and r: "rewrite_arg tid ?i addr (rg, s\<lparr>sv_mem := m\<rparr>) = (rg', s')"
      using assms(1,4) False
      by (auto simp: apply_translation_def sw_push_string_def sw_push_def ENOMEM_def ESRCH_def Let_def
          split: sum.splits prod.splits if_splits)
    note push = sw_push_Inr [OF assms(2) _ p, of sp0]
    have sw: "sw_ok X86_64 sp0 sw" "sw_tid sw = tid" using assms(3) by (simp_all add: scratch_ok_def)
    have rg': "rg' = set_arg (int ?i) addr rg" and s': "sv_mem s' = m" "sv_mounts s' = sv_mounts s" "sv_fs s' = sv_fs s"
      "sv_dir_cache s' = sv_dir_cache s" "sv_proc_scratch s' = sv_proc_scratch s"
      using r by (auto simp: rewrite_arg_def Let_def set_pending_def put_tracee_def the_tracee_def)
    have "stored (v tid m) addr ?d"
      using push(8) [OF sw(1)] push(4) [OF sw(1)] sw(2) by (simp add: stored_put_bytes kMaxStackScratch_def)
    moreover have "v tid m b = v tid (sv_mem s) b" if "unat (sw_top sw) \<le> unat b" for b
      using put_bytes_above [of addr ?d b] push(5,8) [OF sw(1)] sw(2) that by simp
    moreover have "unat (sw_top sw') \<le> unat (sw_top sw)" using push(3,5) [OF sw(1)] by simp
    moreover have "arg rg' j = (if j = ?i then addr else arg rg j)" for j
      using assms(6,7) unfolding rg' by (simp add: arg_def set_arg_def)
    ultimately show ?thesis
      using push(1,2) [OF sw(1)] sw assms(6) s' by (auto simp: scratch_ok_def rg' set_arg_def)
  qed
  then show "stored (v tid (sv_mem s')) (arg rg' ?i) (r_host (tp_r tp) @ [nul])"
    "scratch_ok tid sp0 sw'" "length (rg_args rg') = 6" "unat (sw_top sw') \<le> unat (sw_top sw)"
    "sv_mounts s' = sv_mounts s" "sv_fs s' = sv_fs s" "sv_dir_cache s' = sv_dir_cache s"
    "sv_proc_scratch s' = sv_proc_scratch s"
    "\<And>j. j \<noteq> ?i \<Longrightarrow> arg rg' j = arg rg j"
    "\<And>b. unat (sw_top sw) \<le> unat b \<Longrightarrow> v tid (sv_mem s') b = v tid (sv_mem s) b"
    by blast+
qed

text \<open>A resolution that succeeds: what it found, and the state left for writing the result.\<close>

lemma translate_full_found:
  assumes "translate_full h tid sp path full (rg, sw, s) = ((0, tp), rg', sw', s')"
    and "paths_ok h s" and "nul_free full"
  obtains s1 where "tp_present tp" "tp_original tp = path" "confined (sv_mounts s) (r_host (tp_r tp))"
    "sv_mem s1 = sv_mem s" "sv_mounts s1 = sv_mounts s" "sv_fs s1 = sv_fs s"
    "if sp_resolve_only sp then (rg', sw', s') = (rg, sw, s1)
     else apply_translation h tid sp tp (rg, sw, s1) = (0, rg', sw', s')"
proof -
  obtain ro s0 where o: "resolve_options_for h tid (sp_follow sp) s = (ro, s0)" by fastforce
  have w: "world s0 = world s" using world_resolve_options_for [of h tid "sp_follow sp" s] o by simp
  have ok: "paths_ok h s0" using assms(2) paths_ok_world [OF w] by simp
  let ?ro = "ro\<lparr>see_through_links := see_through_links ro \<and> \<not> sp_link_name sp\<rparr>"
  obtain res s1 where res: "sup_resolve h full ?ro s0 = (res, s1)" by fastforce
  show ?thesis
  proof (cases res)
    case (Inl e)
    have "0 < e" using res Inl ok resolve_errno [of "hs_files h (sv_fs s0)" "sv_mounts s0" full ?ro "Some (sv_dir_cache s0)" e]
      by (auto simp: sup_resolve_def paths_ok_def split: prod.splits)
    then show ?thesis using assms(1) o res Inl by (simp add: translate_full_def)
  next
    case (Inr r)
    note f = sup_resolve_Inr [OF _ assms(3) res [unfolded Inr]]
    show ?thesis
      by (rule that [of s1])
        (use assms(1) o res Inr f [OF ok] world_eqD [OF w] in
          \<open>auto simp: translate_full_def Let_def EROFS_def split: if_splits prod.splits\<close>)
  qed
qed

text \<open>A read the kernel refuses has an errno.\<close>

definition mem_errnos :: "'m mem_host \<Rightarrow> bool" where
  "mem_errnos mh \<longleftrightarrow> (\<forall>path m e. mh_open mh path m False = Some e \<longrightarrow> 0 < e) \<and>
     (\<forall>tid m a n e. mh_pread mh tid m a n = Inl e \<longrightarrow> 0 < e)"

lemma proc_read_loop_errno:
  "mem_errnos mh \<Longrightarrow> proc_read_loop mh tid m addr len out = Inl e \<Longrightarrow> 0 < e"
proof (induction mh tid m addr len out rule: proc_read_loop.induct)
  case (1 mh tid m addr len out)
  from "1.prems"(1) have p: "mh_pread mh tid m a n = Inl e' \<Longrightarrow> 0 < e'" for a n e' by (simp add: mem_errnos_def)
  show ?case
    using "1.prems"(2) [unfolded proc_read_loop.simps [of mh tid m addr len out]] "1.IH" [OF _ _ _ "1.prems"(1)] p
    by (auto simp: EFAULT_def split: if_splits sum.splits)
qed

lemma read_mem_errno: "mem_errnos mh \<Longrightarrow> read_mem mh tid m addr len = Inl e \<Longrightarrow> 0 < e"
  using proc_read_loop_errno [of mh tid m addr len "[]" e]
  by (auto simp: read_mem_def proc_mem_read_def open_error_def mem_errnos_def EFAULT_def ESRCH_def EINVAL_def
      split: if_splits sum.splits option.splits)

lemma read_cstring_errno:
  assumes "mem_errnos mh" "read_cstring mh tid m addr limit = Inl e"
  shows "0 < e"
proof -
  have "read_cstring_loop mh tid m addr limit out = Inl e \<Longrightarrow> 0 < e" for out
    using assms(1)
  proof (induction mh tid m addr limit out rule: read_cstring_loop.induct)
    case (1 mh tid m addr limit out)
    show ?case
      using "1.prems"(1) [unfolded read_cstring_loop.simps [of mh tid m addr limit out]] "1.IH" [OF _ refl _ _ _ "1.prems"(2)]
        read_mem_errno [OF "1.prems"(2)]
      by (auto simp: Let_def ENAMETOOLONG_def split: if_splits sum.splits option.splits)
  qed
  then show ?thesis using assms(2) by (auto simp: read_cstring_def EFAULT_def split: if_splits)
qed

lemma path_base_errno: "path_base h tid rg sp s = (Inl e, s') \<Longrightarrow> 0 < e"
  by (auto simp: path_base_def guest_cwd_def guest_fd_path_def Let_def ESRCH_def ENOENT_def EACCES_def EBADF_def ENOTDIR_def
      split: if_splits sum.splits option.splits prod.splits)

lemma translate_path_found:
  assumes "translate_path h tid sp (rg, sw, s) = ((0, tp), rg', sw', s')" and "paths_ok h s"
    and "mem_reads (hs_mem h) v" and "mem_errnos (hs_mem h)"
  obtains
    (absent) "\<not> tp_present tp" "(rg', sw', s') = (rg, sw, s)" "arg_absent v tid (sp_path_arg sp) rg s"
  | (found) s1 where "tp_present tp" "stored (v tid (sv_mem s)) (arg rg (sp_path_arg sp)) (tp_original tp @ [nul])"
      "confined (sv_mounts s) (r_host (tp_r tp))"
      "sv_mem s1 = sv_mem s" "sv_mounts s1 = sv_mounts s" "sv_fs s1 = sv_fs s"
      "if sp_resolve_only sp then (rg', sw', s') = (rg, sw, s1)
       else apply_translation h tid sp tp (rg, sw, s1) = (0, rg', sw', s')"
proof -
  let ?a = "arg rg (sp_path_arg sp)"
  let ?read = "read_cstring (hs_mem h) tid (sv_mem s) ?a kPathMax"
  consider (zero) "?a = 0" | (bad) e where "?a \<noteq> 0" "?read = Inl e" | (empty) "?a \<noteq> 0" "?read = Inr []"
    | (path) c path where "?a \<noteq> 0" "?read = Inr (c # path)"
    by (cases ?read) (auto, metis neq_Nil_conv)
  then show ?thesis
  proof cases
    case zero
    then show ?thesis using assms(1) absent by (auto simp: translate_path_def arg_absent_def no_path_def EFAULT_def split: if_splits)
  next
    case (bad e)
    then show ?thesis
      using assms(1) read_cstring_errno [OF assms(4) bad(2)] by (simp add: translate_path_def Let_def)
  next
    case empty
    then have "stored (v tid (sv_mem s)) ?a [nul]" using read_cstring_stored(2) [OF assms(3) empty(2)] by simp
    then show ?thesis
      using assms(1) empty absent
      by (auto simp: translate_path_def Let_def arg_absent_def no_path_def ENOENT_def split: if_splits)
  next
    case (path c p)
    note st = read_cstring_stored [OF assms(3) path(2)]
    obtain full s0 where f: "nul_free full" "world s0 = world s"
      "translate_full h tid sp (c # p) full (rg, sw, s0) = ((0, tp), rg', sw', s')"
    proof (cases "is_absolute (c # p)")
      case True
      then show ?thesis using that [of "c # p" s] assms(1) path st by (simp add: translate_path_def)
    next
      case False
      obtain b s1 where b: "path_base h tid rg sp s = (b, s1)" by fastforce
      have w: "world s1 = world s" using world_path_base [of h tid rg sp s] b by simp
      show ?thesis
      proof (cases b)
        case (Inl e)
        then show ?thesis using assms(1) path False b path_base_errno by (fastforce simp: translate_path_def)
      next
        case (Inr g)
        then show ?thesis
          using that [of "join g (c # p)" s1] assms(1) path False b w st(1) path_base_nul_free [OF assms(2)] join_nul_free
          by (simp add: translate_path_def)
      qed
    qed
    have ok: "paths_ok h s0" using assms(2) paths_ok_world [OF f(2)] by simp
    show ?thesis
      by (rule translate_full_found [OF f(3) ok f(1)])
        (use found st(2) world_eqD [OF f(2)] in auto)
  qed
qed

section \<open>Handlers of one path\<close>

text \<open>The task's memory answers as the kernel documents, and the call starts from its stack.\<close>

definition task_access :: "'m mem_host \<Rightarrow> (int \<Rightarrow> 'm \<Rightarrow> bytes_view) \<Rightarrow> bool" where
  "task_access mh v \<longleftrightarrow> mem_reads mh v \<and> mem_writes mh v \<and> mem_errnos mh"

definition call_ready :: "('m, 'f) sup_host \<Rightarrow> int \<Rightarrow> 64 word \<Rightarrow> ('m, 'f) call_state \<Rightarrow> bool" where
  "call_ready h tid sp0 cs \<longleftrightarrow>
     (case cs of (rg, sw, s) \<Rightarrow> paths_ok h s \<and> scratch_ok tid sp0 sw \<and> length (rg_args rg) = 6)"

abbreviation cs_ok :: "(int \<Rightarrow> 'm \<Rightarrow> bytes_view) \<Rightarrow> int \<Rightarrow> nat \<Rightarrow> ('m, 'f) call_state \<Rightarrow> ('m, 'f) call_state \<Rightarrow> bool" where
  "cs_ok v tid i cs cs' \<equiv> arg_ok v tid i (fst cs) (fst cs') (snd (snd cs'))"

lemma translate_path_arg_ok:
  assumes "translate_path h tid sp cs = ((0, tp), cs')" and "\<not> sp_resolve_only sp"
    and "call_ready h tid sp0 cs" and "task_access (hs_mem h) v" and "sp_path_arg sp < 6"
  shows "cs_ok v tid (sp_path_arg sp) cs cs'"
proof -
  obtain rg sw s rg' sw' s' where c: "cs = (rg, sw, s)" "cs' = (rg', sw', s')" by (cases cs, cases cs')
  have r: "paths_ok h s" "scratch_ok tid sp0 sw" "length (rg_args rg) = 6"
    using assms(3) by (simp_all add: c call_ready_def)
  have m: "mem_reads (hs_mem h) v" "mem_writes (hs_mem h) v" "mem_errnos (hs_mem h)"
    using assms(4) by (simp_all add: task_access_def)
  have t: "translate_path h tid sp (rg, sw, s) = ((0, tp), rg', sw', s')" using assms(1) c by simp
  show ?thesis
  proof (rule translate_path_found [OF t r(1) m(1,3)])
    assume "(rg', sw', s') = (rg, sw, s)" "arg_absent v tid (sp_path_arg sp) rg s"
    then show ?thesis by (simp add: c arg_ok_def)
  next
    fix s1
    assume f: "tp_present tp" "stored (v tid (sv_mem s)) (arg rg (sp_path_arg sp)) (tp_original tp @ [nul])"
      "confined (sv_mounts s) (r_host (tp_r tp))" "sv_mem s1 = sv_mem s" "sv_mounts s1 = sv_mounts s"
      "if sp_resolve_only sp then (rg', sw', s') = (rg, sw, s1)
       else apply_translation h tid sp tp (rg, sw, s1) = (0, rg', sw', s')"
    have a: "apply_translation h tid sp tp (rg, sw, s1) = (0, rg', sw', s')" using f(6) assms(2) by simp
    note st = apply_translation_stored [OF a m(2) r(2) f(1) _ r(3) assms(5)]
    show ?thesis
      using st(1,5) f by (auto simp: c arg_ok_def arg_confined_def)
  qed
qed

lemma run_spec_arg_ok:
  assumes "run_spec h tid sp cs = (tp, act, cs')" and "\<not> sa_skip act" and "\<not> sp_resolve_only sp"
    and "call_ready h tid sp0 cs" and "task_access (hs_mem h) v" and "sp_path_arg sp < 6"
  shows "cs_ok v tid (sp_path_arg sp) cs cs'"
  using assms(1,2) translate_path_arg_ok [OF _ assms(3-6)]
  by (auto simp: run_spec_def fail_with_def answer_def split: prod.splits if_splits)

text \<open>The two ways on from a resolution without a rewrite: nothing to rewrite, or the rewrite itself.\<close>

lemma resolved_then_applied:
  assumes "translate_path h tid (sp\<lparr>sp_resolve_only := True\<rparr>) cs = ((0, tp), rg1, sw1, s1)"
    and "apply_translation h tid (sp\<lparr>sp_resolve_only := False\<rparr>) (tp\<lparr>tp_r := (tp_r tp)\<lparr>r_host := p\<rparr>\<rparr>) (rg1, sw1, s2) = (0, cs')"
    and "sv_mem s2 = sv_mem s1" and "sv_mounts s2 = sv_mounts s1"
    and "call_ready h tid sp0 cs" and "task_access (hs_mem h) v" and "sp_path_arg sp < 6"
  shows "if tp_present tp
    then stored (v tid (sv_mem (snd (snd cs')))) (arg (fst cs') (sp_path_arg sp)) (p @ [nul]) \<and>
      confined (sv_mounts (snd (snd cs'))) (r_host (tp_r tp)) \<and>
      sv_proc_scratch (snd (snd cs')) = sv_proc_scratch s2
    else cs_ok v tid (sp_path_arg sp) cs cs'"
proof -
  obtain rg sw s rg' sw' s' where c: "cs = (rg, sw, s)" "cs' = (rg', sw', s')" by (cases cs, cases cs')
  have r: "paths_ok h s" "scratch_ok tid sp0 sw" "length (rg_args rg) = 6"
    using assms(5) by (simp_all add: c call_ready_def)
  have m: "mem_reads (hs_mem h) v" "mem_writes (hs_mem h) v" "mem_errnos (hs_mem h)"
    using assms(6) by (simp_all add: task_access_def)
  let ?tp = "tp\<lparr>tp_r := (tp_r tp)\<lparr>r_host := p\<rparr>\<rparr>"
  let ?sp = "sp\<lparr>sp_resolve_only := False\<rparr>"
  have a: "apply_translation h tid ?sp ?tp (rg1, sw1, s2) = (0, rg', sw', s')" using assms(2) c by simp
  show ?thesis
  proof (rule translate_path_found [OF assms(1) [unfolded c] r(1) m(1,3)])
    assume "\<not> tp_present tp" "(rg1, sw1, s1) = (rg, sw, s)" "arg_absent v tid (sp_path_arg (sp\<lparr>sp_resolve_only := True\<rparr>)) rg s"
    then show ?thesis using a assms(3) by (simp add: c arg_ok_def arg_absent_def apply_translation_def)
  next
    fix s3
    assume f: "tp_present tp" "stored (v tid (sv_mem s)) (arg rg (sp_path_arg (sp\<lparr>sp_resolve_only := True\<rparr>))) (tp_original tp @ [nul])"
      "confined (sv_mounts s) (r_host (tp_r tp))" "sv_mem s3 = sv_mem s" "sv_mounts s3 = sv_mounts s"
      "if sp_resolve_only (sp\<lparr>sp_resolve_only := True\<rparr>) then (rg1, sw1, s1) = (rg, sw, s3)
       else apply_translation h tid (sp\<lparr>sp_resolve_only := True\<rparr>) tp (rg, sw, s3) = (0, rg1, sw1, s1)"
    then have e: "rg1 = rg" "sw1 = sw" "s1 = s3" by simp_all
    have "stored (v tid (sv_mem s2)) (arg rg1 (sp_path_arg ?sp)) (tp_original ?tp @ [nul])"
      using f assms(3) e by simp
    note st = apply_translation_stored [OF a m(2) _ _ this]
    show ?thesis
      using st(1,5,8) r e f assms(4,7) by (auto simp: c)
  qed
qed

lemma resolve_query_arg_ok:
  assumes "resolve_query h tid sp cs = (False, tp, act, cs')"
    and "call_ready h tid sp0 cs" and "task_access (hs_mem h) v" and "sp_path_arg sp < 6"
  shows "cs_ok v tid (sp_path_arg sp) cs cs'"
proof -
  obtain cs1 where t: "translate_path h tid (sp\<lparr>sp_resolve_only := True\<rparr>) cs = ((0, tp), cs1)"
    "apply_translation h tid (sp\<lparr>sp_resolve_only := False\<rparr>) tp cs1 = (0, cs')"
    using assms(1) by (auto simp: resolve_query_def split: prod.splits if_splits)
  obtain rg1 sw1 s1 where c: "cs1 = (rg1, sw1, s1)" by (cases cs1)
  have u: "apply_translation h tid (sp\<lparr>sp_resolve_only := False\<rparr>)
      (tp\<lparr>tp_r := (tp_r tp)\<lparr>r_host := r_host (tp_r tp)\<rparr>\<rparr>) (rg1, sw1, s1) = (0, cs')"
    using t(2) c by simp
  show ?thesis
    using resolved_then_applied [OF t(1) [unfolded c] u refl refl assms(2-4)]
    by (auto simp: arg_ok_def arg_confined_def split: if_splits)
qed

lemma action_skip [simp]: "sa_skip (fail_with e)" "sa_skip (answer r)" "\<not> sa_skip pass"
  by (simp_all add: fail_with_def answer_def pass_def)

lemma cs_ok_world:
  assumes "cs_ok v tid i cs (rg, sw, s)" and "world s' = world s"
  shows "cs_ok v tid i cs (rg, sw', s')"
  using assms(1) arg_ok_cong [OF world_eqD(1,3) [OF assms(2)]] by simp

lemma world_note_link [simp]: "world (note_link h tp s) = world s"
  by (simp add: note_link_def world_def split: option.split)

lemma world_stat_fixup [simp]: "world (stat_fixup tid buf k s) = world s"
  by (simp add: stat_fixup_def)

lemma world_creds_of [simp]: "world (snd (snd (creds_of h tid s))) = world s"
proof -
  have "world (s\<lparr>sv_creds := c\<rparr>) = world s" for c and s :: "('a, 'b) supervisor" by (simp add: world_def)
  then show ?thesis by (simp add: creds_of_def Let_def case_prod_beta split: option.split)
qed

lemma world_guest_is_root [simp]: "world (snd (guest_is_root h tid s)) = world s"
  by (simp add: guest_is_root_def case_prod_beta)

text \<open>For a fixed call: the handler either skips it or leaves a confined path at the argument.\<close>

lemma stat_path_arg_ok:
  assumes "stat_path h tid sp buf k fl mk cs = (act, cs')" and "\<not> sa_skip act"
    and "call_ready h tid sp0 cs" and "task_access (hs_mem h) v" and "sp_path_arg sp < 6"
  shows "cs_ok v tid (sp_path_arg sp) cs cs'"
proof -
  obtain tp act1 rg1 sw1 s1 where q: "resolve_query h tid sp cs = (False, tp, act1, rg1, sw1, s1)"
    and c: "cs' = (rg1, sw1, stat_fixup tid buf k (note_link h tp s1))"
    using assms(1,2)
    by (auto simp: stat_path_def Let_def answered_def on_sup_def split: if_splits prod.splits)
  have "cs_ok v tid (sp_path_arg sp) cs (rg1, sw1, s1)" by (rule resolve_query_arg_ok [OF q assms(3-5)])
  then show ?thesis unfolding c by (rule cs_ok_world) simp
qed

lemma access_path_arg_ok:
  assumes "access_path h tid sp md cs = (act, cs')" and "\<not> sa_skip act"
    and "call_ready h tid sp0 cs" and "task_access (hs_mem h) v" and "sp_path_arg sp < 6"
  shows "cs_ok v tid (sp_path_arg sp) cs cs'"
proof -
  obtain tp act1 where q: "resolve_query h tid sp cs = (False, tp, act1, cs')"
    using assms(1,2) by (auto simp: access_path_def split: if_splits prod.splits)
  then show ?thesis by (rule resolve_query_arg_ok [OF _ assms(3-5)])
qed

lemma store_call_skips: "store_call f cs = (act, cs') \<Longrightarrow> sa_skip act"
  by (auto simp: store_call_def split: prod.splits)

lemma unlink_like_arg_ok:
  assumes "unlink_like h tid sp rd cs = (act, cs')" and "\<not> sa_skip act" and "\<not> sp_resolve_only sp"
    and "call_ready h tid sp0 cs" and "task_access (hs_mem h) v" and "sp_path_arg sp < 6"
  shows "cs_ok v tid (sp_path_arg sp) cs cs'"
proof -
  obtain tp act1 cs1 where r: "run_spec h tid (sp\<lparr>sp_link_name := \<not> rd\<rparr>) cs = (tp, act1, cs1)"
    by (cases "run_spec h tid (sp\<lparr>sp_link_name := \<not> rd\<rparr>) cs") auto
  then have "act = act1 \<and> cs' = cs1"
    using assms(1,2) by (auto simp: unlink_like_def Let_def split: if_splits option.splits dest: store_call_skips)
  then show ?thesis using run_spec_arg_ok [OF r] assms by simp
qed

lemma chown_like_arg_ok:
  assumes "chown_like h tid sp cs = (act, cs')" and "\<not> sa_skip act" and "\<not> sp_resolve_only sp"
    and "call_ready h tid sp0 cs" and "task_access (hs_mem h) v" and "sp_path_arg sp < 6"
  shows "cs_ok v tid (sp_path_arg sp) cs cs'"
proof -
  obtain tp act1 rg1 sw1 s1 where r: "run_spec h tid sp cs = (tp, act1, rg1, sw1, s1)"
    by (cases "run_spec h tid sp cs") auto
  then have "\<not> sa_skip act1 \<and> (cs' = (rg1, sw1, s1) \<or> cs' = (rg1, sw1, snd (guest_is_root h tid s1)))"
    using assms(1,2) by (auto simp: chown_like_def case_prod_beta split: if_splits)
  then show ?thesis
    using run_spec_arg_ok [OF r _ assms(3-6)] cs_ok_world [OF _ world_guest_is_root] by blast
qed

lemma readlink_path_arg_ok:
  assumes "readlink_path h tid at cs = (act, cs')" and "\<not> sa_skip act"
    and "call_ready h tid sp0 cs" and "task_access (hs_mem h) v"
  shows "cs_ok v tid (if at then 1 else 0) cs cs'"
proof -
  let ?sp = "if at then (spec 1 0 False False False)\<lparr>sp_empty_ok := True\<rparr> else spec 0 (- 1) False False False"
  obtain answ tp act1 rg1 sw1 s1 where q: "resolve_query h tid ?sp cs = (answ, tp, act1, rg1, sw1, s1)"
    by (cases "resolve_query h tid ?sp cs") auto
  have "\<not> answ \<and> (\<exists>s2. cs' = (rg1, sw1, s2) \<and> world s2 = world s1)"
    using assms(1,2)
    by (simp add: readlink_path_def Let_def q answered_def on_sup_def case_prod_beta split: if_splits) auto
  then obtain s2 where "\<not> answ" and c: "cs' = (rg1, sw1, s2)" "world s2 = world s1" by blast
  then have q: "resolve_query h tid ?sp cs = (False, tp, act1, rg1, sw1, s1)" using q by simp
  have "cs_ok v tid (sp_path_arg ?sp) cs (rg1, sw1, s1)"
    by (rule resolve_query_arg_ok [OF q assms(3,4)]) (simp add: spec_def)
  then show ?thesis using cs_ok_world [OF _ c(2)] unfolding c(1) by (cases at) (auto simp: spec_def)
qed

lemma xattr_query_arg_ok:
  assumes "xattr_query h tid info cs = (act, cs')" and "\<not> sa_skip act"
    and "call_ready h tid sp0 cs" and "task_access (hs_mem h) v"
  shows "cs_ok v tid 0 cs cs'"
proof -
  let ?sp = "spec 0 (- 1) (si_handler info = H_xattr_get) False False"
  obtain tp act1 where q: "resolve_query h tid ?sp cs = (False, tp, act1, cs')"
    using assms(1,2) by (auto simp: xattr_query_def Let_def answered_def split: if_splits prod.splits)
  then have "cs_ok v tid (sp_path_arg ?sp) cs cs'"
    by (rule resolve_query_arg_ok [OF _ assms(3,4)]) (simp add: spec_def)
  then show ?thesis by (simp add: spec_def)
qed

text \<open>Opening a /proc file may be answered with a stand-in the supervisor wrote to its own directory.\<close>

definition arg_stand_in :: "(int \<Rightarrow> 'm \<Rightarrow> bytes_view) \<Rightarrow> int \<Rightarrow> nat \<Rightarrow> regs \<Rightarrow> ('m, 'f) supervisor \<Rightarrow> bool" where
  "arg_stand_in v tid i rg s \<longleftrightarrow>
     (\<exists>n. stored (v tid (sv_mem s)) (arg rg i) ((sv_proc_scratch s @ slash # dec_string n) @ [nul]))"

lemma proc_stand_in_facts:
  assumes "proc_stand_in h tp s = (r, s')"
  shows "sv_mem s' = sv_mem s" "sv_mounts s' = sv_mounts s"
    "r = Some f \<Longrightarrow> \<exists>n. f = sv_proc_scratch s' @ slash # dec_string n"
proof -
  have c: "world (snd (stand_in_content h tp rel s)) = world s" for rel
    by (simp add: stand_in_content_def Let_def case_prod_beta split: sum.split)
  have e: "sv_mem (snd (ensure_scratch h s1)) = sv_mem s1" "sv_mounts (snd (ensure_scratch h s1)) = sv_mounts s1" for s1
    by (simp_all add: ensure_scratch_def case_prod_beta split: option.split)
  have s': "s' = snd (proc_stand_in h tp s)" using assms by simp
  show "sv_mem s' = sv_mem s" "sv_mounts s' = sv_mounts s"
    unfolding s' using world_eqD [OF c] e
    by (simp_all add: proc_stand_in_def Let_def case_prod_beta split: option.split bool.split)
  show "r = Some f \<Longrightarrow> \<exists>n. f = sv_proc_scratch s' @ slash # dec_string n"
    using assms by (auto simp: proc_stand_in_def Let_def split: if_splits option.splits bool.splits prod.splits)
qed

lemma open_path_arg_ok:
  assumes "open_path h tid sp fl cs = (act, cs')" and "\<not> sa_skip act" and "\<not> sp_resolve_only sp"
    and "call_ready h tid sp0 cs" and "task_access (hs_mem h) v" and "sp_path_arg sp < 6"
  shows "cs_ok v tid (sp_path_arg sp) cs cs' \<or> arg_stand_in v tid (sp_path_arg sp) (fst cs') (snd (snd cs'))"
proof (cases "\<not> opens_read_only fl \<or> sc_proc (sv_cfg (snd (snd cs))) \<noteq> Proc_host")
  case True
  then obtain tp where "run_spec h tid sp cs = (tp, act, cs')"
    using assms(1) by (cases "run_spec h tid sp cs") (auto simp: open_path_def)
  then show ?thesis using run_spec_arg_ok [OF _ assms(2-6)] by blast
next
  case False
  obtain e tp rg1 sw1 s1 where t: "translate_path h tid (sp\<lparr>sp_resolve_only := True\<rparr>) cs = ((e, tp), rg1, sw1, s1)"
    by (cases "translate_path h tid (sp\<lparr>sp_resolve_only := True\<rparr>) cs") auto
  obtain si s2 where si: "(if wants_stand_in tp then proc_stand_in h tp s1 else (None, s1)) = (si, s2)" by fastforce
  let ?s3 = "case si of None \<Rightarrow> s2 | Some f \<Rightarrow> set_pending tid ((pending_of s2 tid)\<lparr>ps_active := True, ps_scratch := f\<rparr>) s2"
  let ?p = "case si of None \<Rightarrow> r_host (tp_r tp) | Some f \<Rightarrow> f"
  have e: "e = 0" using assms(1,2) False t by (cases "e = 0") (auto simp: open_path_def)
  have a: "apply_translation h tid (sp\<lparr>sp_resolve_only := False\<rparr>) (tp\<lparr>tp_r := (tp_r tp)\<lparr>r_host := ?p\<rparr>\<rparr>) (rg1, sw1, ?s3) = (0, cs')"
    using assms(1,2) False t e si
    by (cases si) (auto simp: open_path_def Let_def split: if_splits prod.splits)
  have s2: "sv_mem s2 = sv_mem s1" "sv_mounts s2 = sv_mounts s1" "si = Some f \<Longrightarrow> \<exists>n. f = sv_proc_scratch s2 @ slash # dec_string n" for f
    using si proc_stand_in_facts [of h tp s1 si s2] by (auto split: if_splits)
  have "world ?s3 = world s2" "sv_proc_scratch ?s3 = sv_proc_scratch s2"
    by (simp_all add: world_def set_pending_def put_tracee_def split: option.split)
  then have s3: "sv_mem ?s3 = sv_mem s1" "sv_mounts ?s3 = sv_mounts s1" "sv_proc_scratch ?s3 = sv_proc_scratch s2"
    using world_eqD(1,3) [of ?s3 s2] s2 by simp_all
  note f = resolved_then_applied [OF t [unfolded e] a s3(1,2) assms(4-6)]
  show ?thesis
  proof (cases si)
    case None
    then show ?thesis using f by (auto simp: arg_ok_def arg_confined_def split: if_splits)
  next
    case (Some p)
    then obtain n where "p = sv_proc_scratch s2 @ slash # dec_string n" using s2(3) by blast
    then show ?thesis using f s3(3) Some by (auto simp: arg_stand_in_def split: if_splits)
  qed
qed

section \<open>The dispatcher\<close>

text \<open>The path argument of the handlers that name one file.\<close>

definition path_arg :: "handler \<Rightarrow> nat option" where
  "path_arg k =
     (if k \<in> {H_open, H_creat, H_stat, H_lstat, H_access, H_readlink, H_chdir, H_mkdir, H_mknod, H_rmdir, H_unlink,
               H_chmod, H_chown, H_lchown, H_utime, H_utimes, H_truncate, H_statfs, H_xattr_get, H_xattr_lget,
               H_xattr_set, H_xattr_lset} then Some 0
      else if k \<in> {H_openat, H_newfstatat, H_statx, H_faccessat, H_faccessat2, H_readlinkat, H_mkdirat, H_mknodat,
               H_unlinkat, H_symlink, H_fchmodat, H_fchmodat2, H_fchownat, H_futimesat, H_utimensat,
               H_inotify_add_watch} then Some 1
      else if k = H_symlinkat then Some 2 else if k = H_fanotify_mark then Some 4 else None)"

lemma spec_fields [simp]:
  "sp_path_arg (spec i d f x m) = i" "\<not> sp_resolve_only (spec i d f x m)"
  "sp_path_arg (open_spec i d fl) = i" "\<not> sp_resolve_only (open_spec i d fl)"
  by (simp_all add: spec_def open_spec_def Let_def)

lemma dispatch_call_arg_ok:
  assumes "path_arg (si_handler info) = Some i" and "dispatch_call h tid info cs = (act, cs')" and "\<not> sa_skip act"
    and "call_ready h tid sp0 cs" and "task_access (hs_mem h) v"
  shows "cs_ok v tid i cs cs' \<or> arg_stand_in v tid i (fst cs') (snd (snd cs'))"
proof -
  note ready = assms(4,5)
  have run: "cs_ok v tid (sp_path_arg sp) cs cs'"
    if "snd (run_spec h tid sp cs) = (act, cs')" "\<not> sp_resolve_only sp" "sp_path_arg sp < 6" for sp
    using run_spec_arg_ok [OF _ assms(3) that(2) ready that(3)] that(1) by (metis prod.collapse)
  have fd: "cs_ok v tid (Suc 0) cs cs'"
    if "with_sup (\<lambda>rg s. handle_fd_meta h tid (int_arg rg 0) False s) cs = (act, cs')" "arg (fst cs) (Suc 0) = 0"
    using that by (auto simp: with_sup_def arg_ok_def arg_absent_def split: prod.splits)
  note stat = stat_path_arg_ok [OF _ assms(3) ready] and access = access_path_arg_ok [OF _ assms(3) ready]
    and unl = unlink_like_arg_ok [OF _ assms(3) _ ready] and chown = chown_like_arg_ok [OF _ assms(3) _ ready]
    and op = open_path_arg_ok [OF _ assms(3) _ ready] and rl = readlink_path_arg_ok [OF _ assms(3) ready]
    and xq = xattr_query_arg_ok [OF _ assms(3) ready]
  show ?thesis
    using assms(1-3)
    by (cases "si_handler info")
      (auto simp: dispatch_call_def path_arg_def Let_def split: if_splits dest: run stat access unl chown op rl xq fd)
qed

section \<open>Properties\<close>

text \<open>
  C2: A guest path never reaches the kernel untranslated.  For each of the forty calls that name one
  file: when the dispatcher lets the call go on, the NUL-terminated string its path argument points to is
  a host path below the host directory of a mount of the session, whatever bytes and symlinks the guest
  supplied; the only exceptions are an argument that carries no path at all (null or empty, left as the
  guest passed it) and the file the supervisor itself wrote as the stand-in of a /proc entry.\<close>

theorem passed_path_confined:
  assumes "path_arg (si_handler info) = Some i"
    and "dispatch h tid info (rg, s) = (act, rg', s')" and "\<not> sa_skip act"
    and "paths_ok h s" and "task_access (hs_mem h) v"
    and "length (rg_args rg) = 6" and "192 \<le> unat (rg_sp rg)"
  shows "(\<exists>p. nul_free p \<and> list_ex (\<lambda>m. is_below p (m_host m)) (sv_mounts s') \<and>
            stored (v tid (sv_mem s')) (arg rg' i) (p @ [nul])) \<or>
    arg rg' i = arg rg i \<and> (arg rg i = 0 \<or> stored (v tid (sv_mem s')) (arg rg i) [nul]) \<or>
    (\<exists>n. stored (v tid (sv_mem s')) (arg rg' i) ((sv_proc_scratch s' @ slash # dec_string n) @ [nul]))"
proof -
  let ?sw = "stack_writer_new X86_64 tid (rg_sp rg)"
  obtain sw' where d: "dispatch_call h tid info (rg, ?sw, s) = (act, rg', sw', s')"
    using assms(2) by (auto simp: dispatch_def split: prod.splits)
  have "scratch_ok tid (rg_sp rg) ?sw"
    using stack_writer_new_ok [of X86_64 "rg_sp rg" tid] assms(7)
    by (simp add: scratch_ok_def stack_red_zone_def stack_writer_new_def)
  then have "call_ready h tid (rg_sp rg) (rg, ?sw, s)" using assms(4,6) by (simp add: call_ready_def)
  from dispatch_call_arg_ok [OF assms(1) d assms(3) this assms(5)] show ?thesis
    by (auto simp: arg_ok_def arg_confined_def arg_absent_def arg_stand_in_def confined_def)
qed

section \<open>Witnesses\<close>

lemma sample_paths_ok: "sv_mounts s = sample_table \<Longrightarrow> sv_dir_cache s = [] \<Longrightarrow> paths_ok sample_shost s"
proof -
  have f: "hs_files sample_shost fs = sample_files" for fs by (simp add: sample_shost_def)
  have "table_nul_free sample_table" by code_simp
  moreover have "links_nul_free sample_files"
    by (auto simp: links_nul_free_def sample_files_def sample_fs_def split: if_splits)
  moreover have "errnos_set sample_files"
    by (auto simp: errnos_set_def sample_files_def sample_fs_def EINVAL_def ENOENT_def split: if_splits option.splits)
  ultimately show "sv_mounts s = sample_table \<Longrightarrow> sv_dir_cache s = [] \<Longrightarrow> paths_ok sample_shost s"
    by (simp add: paths_ok_def f sample_table_ok cache_sound_def)
qed

lemma flat_access: "task_access flat_host flat_view"
  unfolding task_access_def
  by (intro conjI flat_reads flat_writes) (auto simp: mem_errnos_def flat_host_def flat_read_def EFAULT_def split: if_splits)

text \<open>The guest names \<open>/esc\<close>, a symlink to \<open>../../../etc/passwd\<close>.\<close>

definition esc_sup :: "(64 word \<Rightarrow> char, string \<Rightarrow> node option) supervisor" where
  "esc_sup = sample_sup\<lparr>sv_mem := (\<lambda>b. if unat (b - 0x10000) < 4 then ''/esc'' ! unat (b - 0x10000) else nul)\<rparr>"

definition esc_regs :: regs where
  "esc_regs = set_arg 0 0x10000 (fetch_regs sample_uregs)"

definition esc_found :: resolved where
  "esc_found = \<lparr>r_guest = ''/etc/passwd'', r_host = ''/data/rootfs/etc/passwd'', r_mount = Some (hd sample_table),
     r_exists = True, r_is_dir = False, r_final_is_symlink = False, r_proc_magic = False, r_link_id = []\<rparr>"

lemma esc_resolved:
  "\<exists>c. resolve sample_files sample_table ''/esc'' default_options (Some []) = (Inr esc_found, c)"
proof -
  have "fst (resolve sample_files sample_table ''/esc'' default_options (Some [])) = Inr esc_found" by code_simp
  then show ?thesis by (metis prod.collapse)
qed

lemma esc_read: "read_cstring flat_host 7 (sv_mem esc_sup) 0x10000 kPathMax = Inr ''/esc''"
  unfolding read_cstring_iff [OF flat_reads flat_mapped]
  by (simp add: stored_def flat_view_def esc_sup_def kPathMax_def)

lemma esc_pushed:
  "\<exists>a sw m. sw_push_string X86_64 flat_host m0 (stack_writer_new X86_64 7 0x20000) ''/data/rootfs/etc/passwd'' = (Inr a, sw, m)"
proof -
  let ?d = "''/data/rootfs/etc/passwd'' @ [nul]"
  let ?a = "0x1FF20 :: 64 word"
  have w: "fst (write_mem flat_host 7 m0 ?a ?d) = 0"
    by (rule flat_write_mem) (simp_all add: overflows_def flat_ok_def)
  have a: "align_down X86_64 (sw_top (stack_writer_new X86_64 7 0x20000) - of_nat (length ?d)) = ?a"
    by (simp add: align_down_def stack_writer_new_def stack_red_zone_def stack_alignment_def)
  show ?thesis
    using w a
    by (auto simp: sw_push_string_def sw_push_def Let_def kMaxStackScratch_def stack_writer_new_def stack_red_zone_def
      align_down_def stack_alignment_def split: prod.split)
qed

lemma esc_dispatched:
  "\<exists>rg' s'. dispatch sample_shost 7 (one_call ''chdir'' Cls_translated H_chdir) (esc_regs, esc_sup) = (pass, rg', s')"
proof -
  let ?sw = "stack_writer_new X86_64 7 0x20000"
  let ?sp = "spec 0 (- 1) True False False"
  have o: "resolve_options_for sample_shost 7 True esc_sup = (default_options, esc_sup)"
    by (simp add: resolve_options_for_def links_visible_def esc_sup_def sample_sup_def new_link_store_def has_objects_def
        default_options_def default_config_def)
  obtain c where r: "resolve sample_files sample_table ''/esc'' default_options (Some []) = (Inr esc_found, c)"
    using esc_resolved by blast
  have n: "default_options\<lparr>see_through_links := False\<rparr> = default_options" by (simp add: default_options_def)
  obtain s1 where u: "sup_resolve sample_shost ''/esc'' default_options esc_sup = (Inr esc_found, s1)" "sv_mem s1 = sv_mem esc_sup"
    using r by (simp add: sup_resolve_def sample_shost_def esc_sup_def sample_sup_def)
  obtain a sw m where p: "sw_push_string X86_64 flat_host (sv_mem esc_sup) ?sw ''/data/rootfs/etc/passwd'' = (Inr a, sw, m)"
    using esc_pushed by blast
  have t: "translate_full sample_shost 7 ?sp ''/esc'' ''/esc'' (esc_regs, ?sw, esc_sup) =
      ((0, \<lparr>tp_present = True, tp_r = esc_found, tp_original = ''/esc''\<rparr>), fst (rewrite_arg 7 0 a (esc_regs, s1\<lparr>sv_mem := m\<rparr>)), sw,
       snd (rewrite_arg 7 0 a (esc_regs, s1\<lparr>sv_mem := m\<rparr>)))"
    using u p o
    by (simp add: translate_full_def spec_def n default_options_def read_only_refused_def esc_found_def apply_translation_def
        table_eval case_prod_beta)
  have g: "arg esc_regs 0 = 0x10000" "rg_sp esc_regs = 0x20000" by (simp_all add: esc_regs_def fetch_sample set_arg_def arg_def)
  show ?thesis
    using t esc_read
    by (simp add: dispatch_def dispatch_call_def one_call_def run_spec_def translate_path_def g Let_def spec_def is_absolute_def)
qed

theorem passed_path_confined_witness:
  "\<exists>rg' s'. dispatch sample_shost 7 (one_call ''chdir'' Cls_translated H_chdir) (esc_regs, esc_sup) = (pass, rg', s') \<and>
    ((\<exists>p. nul_free p \<and> list_ex (\<lambda>m. is_below p (m_host m)) (sv_mounts s') \<and>
            stored (flat_view 7 (sv_mem s')) (arg rg' 0) (p @ [nul])) \<or>
     arg rg' 0 = arg esc_regs 0 \<and> (arg esc_regs 0 = 0 \<or> stored (flat_view 7 (sv_mem s')) (arg esc_regs 0) [nul]) \<or>
     (\<exists>n. stored (flat_view 7 (sv_mem s')) (arg rg' 0) ((sv_proc_scratch s' @ slash # dec_string n) @ [nul])))"
proof -
  obtain rg' s' where d: "dispatch sample_shost 7 (one_call ''chdir'' Cls_translated H_chdir) (esc_regs, esc_sup) = (pass, rg', s')"
    using esc_dispatched by blast
  have "path_arg (si_handler (one_call ''chdir'' Cls_translated H_chdir)) = Some 0" by (simp add: one_call_def path_arg_def)
  moreover have "paths_ok sample_shost esc_sup" by (rule sample_paths_ok) (simp_all add: esc_sup_def sample_sup_def)
  moreover have "task_access (hs_mem sample_shost) flat_view" by (simp add: flat_access)
  moreover have "length (rg_args esc_regs) = 6" "192 \<le> unat (rg_sp esc_regs)" by (simp_all add: esc_regs_def fetch_sample)
  ultimately show ?thesis using passed_path_confined [OF _ d] d by fastforce
qed
end
