(* ===== verification/Two_Paths.thy ===== *)
theory Two_Paths
  imports Path_Arguments
begin

text \<open>
  Calls that name two files (rename and link).  Both paths are written below the stack pointer, the
  second below the first.  The first one stays intact when it was written there itself or lies at or
  above the stack pointer; a first path that needed no rewriting and lies below it can be overwritten.
\<close>

section \<open>Strings clear of the scratch space\<close>

definition clear_of_scratch :: "64 word \<Rightarrow> 64 word \<Rightarrow> bool" where
  "clear_of_scratch sp0 a \<longleftrightarrow> unat sp0 \<le> unat a \<and> unat a + kPathMax \<le> 2 ^ 64"

text \<open>The string \<open>p\<close> at argument \<open>i\<close> is above everything still to be written.\<close>

definition settled :: "(int \<Rightarrow> 'm \<Rightarrow> bytes_view) \<Rightarrow> int \<Rightarrow> nat \<Rightarrow> string \<Rightarrow> ('m, 'f) call_state \<Rightarrow> bool" where
  "settled v tid i p cs \<longleftrightarrow>
     (case cs of (rg, sw, s) \<Rightarrow>
        stored (v tid (sv_mem s)) (arg rg i) (p @ [nul]) \<and> unat (sw_top sw) \<le> unat (arg rg i) \<and>
        unat (arg rg i) + length p < 2 ^ 64)"

lemma settled_kept:
  assumes "settled v tid i p (rg, sw, s)" and "arg rg' i = arg rg i"
    and "\<And>b. unat (sw_top sw) \<le> unat b \<Longrightarrow> v tid (sv_mem s') b = v tid (sv_mem s) b"
  shows "stored (v tid (sv_mem s')) (arg rg' i) (p @ [nul])"
proof -
  let ?a = "arg rg i"
  have s: "stored (v tid (sv_mem s)) ?a (p @ [nul])" "unat (sw_top sw) \<le> unat ?a" "unat ?a + length p < 2 ^ 64"
    using assms(1) by (simp_all add: settled_def)
  have "v tid (sv_mem s') (?a + of_nat k) = v tid (sv_mem s) (?a + of_nat k)" if "k < length (p @ [nul])" for k
  proof (rule assms(3))
    have "unat (?a + of_nat k) = unat ?a + k"
      using that s(3) by (simp add: unat_word_ariths unat_of_nat)
    then show "unat (sw_top sw) \<le> unat (?a + of_nat k)" using s(2) by simp
  qed
  then show ?thesis using s(1) assms(2) by (simp add: stored_iff)
qed

text \<open>A pushed string starts at the writer's new top; otherwise the argument is the guest's.\<close>

lemma apply_translation_place:
  assumes "apply_translation h tid sp tp (rg, sw, s) = (0, rg', sw', s')" and "mem_writes (hs_mem h) v"
    and "scratch_ok tid sp0 sw" and "length (rg_args rg) = 6" and "sp_path_arg sp < 6"
  shows "(rg', sw', s') = (rg, sw, s) \<and> (tp_present tp \<longrightarrow> r_host (tp_r tp) = tp_original tp) \<or>
    arg rg' (sp_path_arg sp) = sw_top sw' \<and> unat (sw_top sw') + length (r_host (tp_r tp)) < unat (sw_top sw)"
proof (cases "\<not> tp_present tp \<or> r_host (tp_r tp) = tp_original tp")
  case True
  then show ?thesis using assms(1) by (auto simp: apply_translation_def)
next
  case False
  let ?d = "r_host (tp_r tp) @ [nul]"
  obtain addr m where p: "sw_push X86_64 (hs_mem h) (sv_mem s) sw ?d = (Inr addr, sw', m)"
    and r: "rewrite_arg tid (sp_path_arg sp) addr (rg, s\<lparr>sv_mem := m\<rparr>) = (rg', s')"
    using assms(1) False
    by (auto simp: apply_translation_def sw_push_string_def sw_push_def ENOMEM_def ESRCH_def Let_def
        split: sum.splits prod.splits if_splits)
  have sw: "sw_ok X86_64 sp0 sw" using assms(3) by (simp add: scratch_ok_def)
  have "arg rg' (sp_path_arg sp) = addr"
    using r assms(4,5) by (auto simp: rewrite_arg_def Let_def)
  then show ?thesis using sw_push_Inr(3,5) [OF assms(2) sw p] by simp
qed

lemma cache_sound_resolve:
  assumes "paths_ok h s" and "sup_resolve h full ro s = (r, s')"
  shows "paths_ok h s'"
proof -
  let ?fs = "hs_files h (sv_fs s)"
  obtain c where c: "snd (resolve ?fs (sv_mounts s) full ro (Some (sv_dir_cache s))) = Some c"
    "cache_sound ?fs (sv_mounts s) c"
    using resolve_cache_sound assms(1) by (fastforce simp: paths_ok_def)
  then have "s' = s\<lparr>sv_dir_cache := c\<rparr>" using assms(2) by (auto simp: sup_resolve_def split: prod.splits)
  then show ?thesis using assms(1) c(2) by (simp add: paths_ok_def)
qed

lemma apply_translation_world:
  assumes "apply_translation h tid sp tp (rg, sw, s) = (e, rg', sw', s')" and "paths_ok h s"
  shows "paths_ok h s'"
proof -
  have "sv_fs s' = sv_fs s \<and> sv_mounts s' = sv_mounts s \<and> sv_dir_cache s' = sv_dir_cache s"
    using assms(1)
    by (auto simp: apply_translation_def rewrite_arg_def Let_def set_pending_def put_tracee_def emit_def
        split: sum.splits prod.splits if_splits)
  then show ?thesis using assms(2) by (simp add: paths_ok_def)
qed

lemma translate_path_paths_ok:
  assumes "translate_path h tid sp (rg, sw, s) = ((e, tp), rg', sw', s')" and "paths_ok h s"
  shows "paths_ok h s'"
proof -
  have full: "paths_ok h (snd (snd (snd (translate_full h tid sp path full (rg, sw, s0)))))" if "paths_ok h s0" for path full s0
  proof -
    obtain ro s1 where o: "resolve_options_for h tid (sp_follow sp) s0 = (ro, s1)" by fastforce
    have s1: "paths_ok h s1"
      using that o paths_ok_world [of s1 s0 h] world_resolve_options_for [of h tid "sp_follow sp" s0] by simp
    let ?ro = "ro\<lparr>see_through_links := see_through_links ro \<and> \<not> sp_link_name sp\<rparr>"
    obtain r s2 where r: "sup_resolve h full ?ro s1 = (r, s2)" by fastforce
    have s2: "paths_ok h s2" by (rule cache_sound_resolve [OF s1 r])
    then have "paths_ok h (report_outside h a b c tid s2)" for a b c using paths_ok_world [OF world_report_outside] by blast
    moreover have "paths_ok h (snd (snd (snd (apply_translation h tid sp tp' (rg, sw, s2)))))" for tp'
      by (cases "apply_translation h tid sp tp' (rg, sw, s2)") (auto intro: apply_translation_world s2)
    ultimately show ?thesis
      using o r s2 by (auto simp: translate_full_def Let_def case_prod_beta split: sum.split)
  qed
  have "paths_ok h (snd (path_base h tid rg sp s))" using assms(2) paths_ok_world [OF world_path_base] by blast
  then have "paths_ok h (snd (snd (snd (translate_path h tid sp (rg, sw, s)))))"
    using full assms(2) by (auto simp: translate_path_def Let_def case_prod_beta split: sum.split)
  then show ?thesis using assms(1) by simp
qed

section \<open>Two translations in a row\<close>

lemma translate_path_original:
  assumes "translate_path h tid sp (rg, sw, s) = ((e, tp), cs')" and "tp_present tp" and "mem_reads (hs_mem h) v"
  shows "length (tp_original tp) < kPathMax"
proof -
  let ?read = "read_cstring (hs_mem h) tid (sv_mem s) (arg rg (sp_path_arg sp)) kPathMax"
  have full: "tp_original (snd (fst (translate_full h tid sp path full cs))) = path"
    if "tp_present (snd (fst (translate_full h tid sp path full cs)))" for path full cs
    using that by (cases cs) (auto simp: translate_full_def no_path_def Let_def case_prod_beta split: sum.splits if_splits)
  have "\<exists>path. ?read = Inr path \<and> tp_original tp = path"
    using assms(1,2) full [of "case ?read of Inr path \<Rightarrow> path | Inl e \<Rightarrow> []"]
    by (auto simp: translate_path_def no_path_def Let_def split: sum.splits if_splits prod.splits; metis fst_conv snd_conv)
  then show ?thesis
    using read_cstring_loop_sound [OF assms(3), of tid "sv_mem s" _ "[]" _ kPathMax "tp_original tp"]
    by (auto simp: read_cstring_def split: if_splits)
qed

lemma translate_path_effect:
  assumes "translate_path h tid sp (rg, sw, s) = ((0, tp), rg', sw', s')" and "\<not> sp_resolve_only sp"
    and "call_ready h tid sp0 (rg, sw, s)" and "task_access (hs_mem h) v" and "sp_path_arg sp < 6"
  shows "call_ready h tid sp0 (rg', sw', s')" "sv_mounts s' = sv_mounts s"
    "\<And>j. j \<noteq> sp_path_arg sp \<Longrightarrow> arg rg' j = arg rg j"
    "\<And>b. unat (sw_top sw) \<le> unat b \<Longrightarrow> v tid (sv_mem s') b = v tid (sv_mem s) b"
    "clear_of_scratch sp0 (arg rg (sp_path_arg sp)) \<Longrightarrow>
      (\<exists>p. confined (sv_mounts s) p \<and> settled v tid (sp_path_arg sp) p (rg', sw', s')) \<or>
      arg rg' (sp_path_arg sp) = arg rg (sp_path_arg sp) \<and>
        (arg rg (sp_path_arg sp) = 0 \<or> settled v tid (sp_path_arg sp) [] (rg', sw', s'))"
proof -
  let ?i = "sp_path_arg sp"
  have r: "paths_ok h s" "scratch_ok tid sp0 sw" "length (rg_args rg) = 6"
    using assms(3) by (simp_all add: call_ready_def)
  have m: "mem_reads (hs_mem h) v" "mem_writes (hs_mem h) v" "mem_errnos (hs_mem h)"
    using assms(4) by (simp_all add: task_access_def)
  have top: "unat (sw_top sw) \<le> unat sp0" using r(2) by (simp add: scratch_ok_def sw_ok_def)
  have ok: "paths_ok h s'" by (rule translate_path_paths_ok [OF assms(1) r(1)])
  have "call_ready h tid sp0 (rg', sw', s') \<and> sv_mounts s' = sv_mounts s \<and> (\<forall>j. j \<noteq> ?i \<longrightarrow> arg rg' j = arg rg j) \<and>
    (\<forall>b. unat (sw_top sw) \<le> unat b \<longrightarrow> v tid (sv_mem s') b = v tid (sv_mem s) b) \<and>
    (clear_of_scratch sp0 (arg rg ?i) \<longrightarrow>
      (\<exists>p. confined (sv_mounts s) p \<and> settled v tid ?i p (rg', sw', s')) \<or>
      arg rg' ?i = arg rg ?i \<and> (arg rg ?i = 0 \<or> settled v tid ?i [] (rg', sw', s')))"
  proof (rule translate_path_found [OF assms(1) r(1) m(1,3)])
    assume "(rg', sw', s') = (rg, sw, s)" "arg_absent v tid ?i rg s"
    then show ?thesis
      using assms(3) top by (auto simp: arg_absent_def settled_def clear_of_scratch_def kPathMax_def)
  next
    fix s1
    assume f: "tp_present tp" "stored (v tid (sv_mem s)) (arg rg ?i) (tp_original tp @ [nul])"
      "confined (sv_mounts s) (r_host (tp_r tp))" "sv_mem s1 = sv_mem s" "sv_mounts s1 = sv_mounts s" "sv_fs s1 = sv_fs s"
      "if sp_resolve_only sp then (rg', sw', s') = (rg, sw, s1)
       else apply_translation h tid sp tp (rg, sw, s1) = (0, rg', sw', s')"
    have a: "apply_translation h tid sp tp (rg, sw, s1) = (0, rg', sw', s')" using f(7) assms(2) by simp
    have "stored (v tid (sv_mem s1)) (arg rg ?i) (tp_original tp @ [nul])" using f by simp
    note st = apply_translation_stored [OF a m(2) r(2) f(1) this r(3) assms(5)]
    have "settled v tid ?i (r_host (tp_r tp)) (rg', sw', s')" if c: "clear_of_scratch sp0 (arg rg ?i)"
      using apply_translation_place [OF a m(2) r(2,3) assms(5)] unat64_less [of "sw_top sw"] st(1) top c f(1)
        translate_path_original [OF assms(1) f(1) m(1)]
      by (auto simp: settled_def clear_of_scratch_def)
    then show ?thesis
      using st ok f by (auto simp: call_ready_def)
  qed
  then show "call_ready h tid sp0 (rg', sw', s')" "sv_mounts s' = sv_mounts s"
    "\<And>j. j \<noteq> sp_path_arg sp \<Longrightarrow> arg rg' j = arg rg j"
    "\<And>b. unat (sw_top sw) \<le> unat b \<Longrightarrow> v tid (sv_mem s') b = v tid (sv_mem s) b"
    "clear_of_scratch sp0 (arg rg (sp_path_arg sp)) \<Longrightarrow>
      (\<exists>p. confined (sv_mounts s) p \<and> settled v tid (sp_path_arg sp) p (rg', sw', s')) \<or>
      arg rg' (sp_path_arg sp) = arg rg (sp_path_arg sp) \<and>
        (arg rg (sp_path_arg sp) = 0 \<or> settled v tid (sp_path_arg sp) [] (rg', sw', s'))"
    by blast+
qed

lemma two_paths_arg_ok:
  assumes "translate_path h tid s1 (rg, sw, s) = ((0, p1), cs1)" and "translate_path h tid s2 cs1 = ((0, p2), rg2, sw2, s')"
    and "\<not> sp_resolve_only s1" and "\<not> sp_resolve_only s2" and "sp_path_arg s1 < 6" and "sp_path_arg s2 < 6"
    and "sp_path_arg s1 \<noteq> sp_path_arg s2" and "call_ready h tid sp0 (rg, sw, s)" and "task_access (hs_mem h) v"
    and "clear_of_scratch sp0 (arg rg (sp_path_arg s1))"
  shows "arg_ok v tid (sp_path_arg s1) rg rg2 s' \<and> arg_ok v tid (sp_path_arg s2) rg rg2 s'"
proof -
  let ?i = "sp_path_arg s1" and ?j = "sp_path_arg s2"
  obtain rg1 sw1 s0 where c: "cs1 = (rg1, sw1, s0)" by (cases cs1)
  note t1 = translate_path_effect [OF assms(1) [unfolded c] assms(3,8,9,5)]
  note t2 = translate_path_effect [OF assms(2) [unfolded c] assms(4) t1(1) assms(9,6)]
  have keep: "stored (v tid (sv_mem s')) (arg rg2 ?i) (p @ [nul])" if "settled v tid ?i p (rg1, sw1, s0)" for p
    by (rule settled_kept [OF that]) (use t2(3) assms(7) t2(4) in auto)
  have mt: "sv_mounts s' = sv_mounts s" and a: "arg rg2 ?i = arg rg1 ?i" using t1(2) t2(2,3) assms(7) by simp_all
  have "arg_ok v tid ?i rg rg2 s'"
    using t1(5) [OF assms(10)]
  proof (elim disjE exE conjE)
    fix p assume "confined (sv_mounts s) p" "settled v tid ?i p (rg1, sw1, s0)"
    then show ?thesis using keep mt by (auto simp: arg_ok_def arg_confined_def)
  next
    assume "settled v tid ?i [] (rg1, sw1, s0)" "arg rg1 ?i = arg rg ?i"
    then show ?thesis using keep [of "[]"] a by (simp add: arg_ok_def arg_absent_def)
  qed (use a in \<open>simp add: arg_ok_def arg_absent_def\<close>)
  moreover have "arg_ok v tid ?j rg1 rg2 s'"
    using translate_path_arg_ok [OF assms(2) [unfolded c] assms(4) t1(1) assms(9,6)] by simp
  then have "arg_ok v tid ?j rg rg2 s'" using t1(3) assms(7) by (simp add: arg_ok_def)
  ultimately show ?thesis ..
qed

definition path_args2 :: "handler \<Rightarrow> (nat \<times> nat) option" where
  "path_args2 k =
     (if k \<in> {H_rename, H_link} then Some (0, 1) else if k \<in> {H_renameat, H_renameat2, H_linkat} then Some (1, 3) else None)"

lemma rename_like_arg_ok:
  assumes "rename_like h tid s1 s2 fl (rg, sw, s) = (act, rg', sw', s')" and "\<not> sa_skip act"
    and "\<not> sp_resolve_only s1" and "\<not> sp_resolve_only s2" and "sp_path_arg s1 < 6" and "sp_path_arg s2 < 6"
    and "sp_path_arg s1 \<noteq> sp_path_arg s2" and "call_ready h tid sp0 (rg, sw, s)" and "task_access (hs_mem h) v"
    and "clear_of_scratch sp0 (arg rg (sp_path_arg s1))"
  shows "arg_ok v tid (sp_path_arg s1) rg rg' s' \<and> arg_ok v tid (sp_path_arg s2) rg rg' s'"
proof -
  let ?l = "\<lambda>sp. sp\<lparr>sp_link_name := True\<rparr>"
  obtain e1 p1 cs1 where t1: "translate_path h tid (?l s1) (rg, sw, s) = ((e1, p1), cs1)"
    by (cases "translate_path h tid (?l s1) (rg, sw, s)") auto
  obtain e2 p2 rg2 sw2 s3 where t2: "translate_path h tid (?l s2) cs1 = ((e2, p2), rg2, sw2, s3)"
    by (cases "translate_path h tid (?l s2) cs1") auto
  have e: "e1 = 0" "e2 = 0" and w: "rg' = rg2 \<and> world s' = world s3"
    using assms(1,2) t1 t2
    by (auto simp: rename_like_def Let_def on_sup_def split: if_splits)
  have "arg_ok v tid (sp_path_arg (?l s1)) rg rg2 s3 \<and> arg_ok v tid (sp_path_arg (?l s2)) rg rg2 s3"
    by (rule two_paths_arg_ok [OF t1 [unfolded e] t2 [unfolded e]]) (use assms(3-10) in simp_all)
  then show ?thesis using w arg_ok_cong [OF world_eqD(1,3), of s' s3] by simp
qed

lemma link_like_arg_ok:
  assumes "link_like h tid s1 s2 (rg, sw, s) = (act, rg', sw', s')" and "\<not> sa_skip act"
    and "\<not> sp_resolve_only s1" and "\<not> sp_resolve_only s2" and "sp_path_arg s1 < 6" and "sp_path_arg s2 < 6"
    and "sp_path_arg s1 \<noteq> sp_path_arg s2" and "call_ready h tid sp0 (rg, sw, s)" and "task_access (hs_mem h) v"
    and "clear_of_scratch sp0 (arg rg (sp_path_arg s1))"
  shows "arg_ok v tid (sp_path_arg s1) rg rg' s' \<and> arg_ok v tid (sp_path_arg s2) rg rg' s'"
proof -
  let ?s1 = "s1\<lparr>sp_link_name := \<not> sp_follow s1\<rparr>" and ?s2 = "s2\<lparr>sp_link_name := True\<rparr>"
  obtain e1 p1 cs1 where t1: "translate_path h tid ?s1 (rg, sw, s) = ((e1, p1), cs1)"
    by (cases "translate_path h tid ?s1 (rg, sw, s)") auto
  obtain e2 p2 rg2 sw2 s3 where t2: "translate_path h tid ?s2 cs1 = ((e2, p2), rg2, sw2, s3)"
    by (cases "translate_path h tid ?s2 cs1") auto
  have "e1 = 0 \<and> e2 = 0 \<and> (rg', sw', s') = (rg2, sw2, s3)"
    using assms(1,2) t1 t2
    by (auto simp: link_like_def Let_def split: if_splits option.splits sum.splits dest: store_call_skips)
  then have e: "e1 = 0" "e2 = 0" and w: "rg' = rg2" "s' = s3" by simp_all
  have "arg_ok v tid (sp_path_arg ?s1) rg rg2 s3 \<and> arg_ok v tid (sp_path_arg ?s2) rg rg2 s3"
    by (rule two_paths_arg_ok [OF t1 [unfolded e] t2 [unfolded e]]) (use assms(3-10) in simp_all)
  then show ?thesis using w by simp
qed

section \<open>Properties\<close>

text \<open>
  C28: Both paths of a rename or link that is passed on are host paths below mounts of the session (or
  absent), provided the guest's first path string lies at or above its stack pointer.\<close>

theorem passed_two_paths_confined:
  assumes "path_args2 (si_handler info) = Some (i, j)"
    and "dispatch h tid info (rg, s) = (act, rg', s')" and "\<not> sa_skip act"
    and "paths_ok h s" and "task_access (hs_mem h) v"
    and "length (rg_args rg) = 6" and "192 \<le> unat (rg_sp rg)" and "clear_of_scratch (rg_sp rg) (arg rg i)"
  shows "\<forall>k \<in> {i, j}. (\<exists>p. nul_free p \<and> list_ex (\<lambda>m. is_below p (m_host m)) (sv_mounts s') \<and>
            stored (v tid (sv_mem s')) (arg rg' k) (p @ [nul])) \<or>
    arg rg' k = arg rg k \<and> (arg rg k = 0 \<or> stored (v tid (sv_mem s')) (arg rg k) [nul])"
proof -
  let ?sw = "stack_writer_new X86_64 tid (rg_sp rg)"
  obtain sw' where d: "dispatch_call h tid info (rg, ?sw, s) = (act, rg', sw', s')"
    using assms(2) by (auto simp: dispatch_def split: prod.splits)
  have ready: "call_ready h tid (rg_sp rg) (rg, ?sw, s)"
    using assms(4,6,7) stack_writer_new_ok [of X86_64 "rg_sp rg" tid]
    by (simp add: call_ready_def scratch_ok_def stack_red_zone_def stack_writer_new_def)
  note rn = rename_like_arg_ok [OF _ assms(3) _ _ _ _ _ ready assms(5)]
    and ln = link_like_arg_ok [OF _ assms(3) _ _ _ _ _ ready assms(5)]
  have "arg_ok v tid i rg rg' s' \<and> arg_ok v tid j rg rg' s'"
    using assms(1,8) d
    by (cases "si_handler info") (auto simp: dispatch_call_def path_args2_def Let_def split: if_splits dest: rn ln)
  then show ?thesis by (auto simp: arg_ok_def arg_confined_def arg_absent_def confined_def)
qed

section \<open>A first path below the stack pointer\<close>

definition card_mount :: mount where
  "card_mount = \<lparr>m_guest = ''/sdcard'', m_host = ''/sdcard'', m_read_only = False, m_kind = Kind_bind, m_source = ''bind''\<rparr>"

definition card_table :: mount_table where
  "card_table = add_mount (mount_table_new ''/data/rootfs'' False) card_mount"

definition card_fs :: host_fs where
  "card_fs = \<lparr>lstat = (\<lambda>p. if p \<in> {''/sdcard'', ''/sdcard/x'', ''/sdcard/x/etc''} then Inr \<lparr>st_dev = 1, st_ino = 1, st_type = FT_dir\<rparr>
       else if p = ''/sdcard/a'' then Inr \<lparr>st_dev = 1, st_ino = 2, st_type = FT_reg\<rparr> else Inl ENOENT),
     readlink = (\<lambda>_. Inl EINVAL)\<rparr>"

definition card_shost :: "(64 word \<Rightarrow> char, string \<Rightarrow> node option) sup_host" where
  "card_shost = sample_shost\<lparr>hs_files := (\<lambda>_. card_fs)\<rparr>"

text \<open>The task keeps its first path at \<open>a\<close> and its second at \<open>0x10000\<close>; its stack pointer is \<open>0x20000\<close>.\<close>

definition card_sup :: "64 word \<Rightarrow> (64 word \<Rightarrow> char, string \<Rightarrow> node option) supervisor" where
  "card_sup a = sample_sup\<lparr>sv_mounts := card_table,
     sv_mem := (\<lambda>b. if unat (b - a) < 9 then ''/sdcard/a'' ! unat (b - a)
                    else if unat (b - 0x10000) < 21 then ''/sdcard//x/etc/shadow'' ! unat (b - 0x10000) else nul)\<rparr>"

definition card_regs :: "64 word \<Rightarrow> regs" where
  "card_regs a = set_arg 0 a (set_arg 1 0x10000 (fetch_regs sample_uregs))"

definition nofollow_options :: resolve_options where
  "nofollow_options = default_options\<lparr>follow_final := False\<rparr>"

lemma card_regs_fields: "arg (card_regs a) 0 = a" "arg (card_regs a) (Suc 0) = 0x10000" "rg_sp (card_regs a) = 0x20000"
  by (simp_all add: card_regs_def fetch_sample set_arg_def arg_def)

definition card_readable :: "64 word \<Rightarrow> bool" where
  "card_readable a \<longleftrightarrow> a \<noteq> 0 \<and>
     stored (flat_view 7 (sv_mem (card_sup a))) a (''/sdcard/a'' @ [nul]) \<and>
     stored (flat_view 7 (sv_mem (card_sup a))) 0x10000 (''/sdcard//x/etc/shadow'' @ [nul])"

lemma card_readable: "card_readable 0x1FF29" "card_readable 0x30000"
  by (simp_all add: card_readable_def stored_def flat_view_def card_sup_def)

lemma card_reads:
  assumes "card_readable a"
  shows "read_cstring flat_host 7 (sv_mem (card_sup a)) a kPathMax = Inr ''/sdcard/a''"
    "read_cstring flat_host 7 (sv_mem (card_sup a)) 0x10000 kPathMax = Inr ''/sdcard//x/etc/shadow''"
  unfolding read_cstring_iff [OF flat_reads flat_mapped]
  using assms by (simp_all add: card_readable_def kPathMax_def)

definition card_first :: resolved where
  "card_first = \<lparr>r_guest = ''/sdcard/a'', r_host = ''/sdcard/a'', r_mount = Some card_mount,
     r_exists = True, r_is_dir = False, r_final_is_symlink = False, r_proc_magic = False, r_link_id = []\<rparr>"
definition card_second :: resolved where
  "card_second = \<lparr>r_guest = ''/sdcard/x/etc/shadow'', r_host = ''/sdcard/x/etc/shadow'', r_mount = Some card_mount,
     r_exists = False, r_is_dir = False, r_final_is_symlink = False, r_proc_magic = False, r_link_id = []\<rparr>"

definition card_cache :: dir_cache where
  "card_cache = [(''/sdcard'', \<lparr>ce_host = ''/sdcard'', ce_dev = 1, ce_ino = 1\<rparr>)]"

lemma card_resolves:
  "resolve card_fs card_table ''/sdcard/a'' nofollow_options (Some []) = (Inr card_first, Some card_cache)"
  "fst (resolve card_fs card_table ''/sdcard//x/etc/shadow'' nofollow_options (Some card_cache)) = Inr card_second"
  by code_simp+

lemma card_pushed:
  "\<exists>sw. sw_push_string X86_64 flat_host m0 (stack_writer_new X86_64 7 0x20000) ''/sdcard/x/etc/shadow'' =
     (Inr 0x1FF20, sw, snd (write_mem flat_host 7 m0 0x1FF20 (''/sdcard/x/etc/shadow'' @ [nul])))"
proof -
  let ?d = "''/sdcard/x/etc/shadow'' @ [nul]"
  let ?a = "0x1FF20 :: 64 word"
  have w: "fst (write_mem flat_host 7 m0 ?a ?d) = 0"
    by (rule flat_write_mem) (simp_all add: overflows_def flat_ok_def)
  show ?thesis
    using w
    by (auto simp: sw_push_string_def sw_push_def Let_def kMaxStackScratch_def stack_writer_new_def stack_red_zone_def
      align_down_def stack_alignment_def split: prod.split)
qed

lemma translate_path_eval:
  assumes "arg rg (sp_path_arg sp) \<noteq> 0"
    and "read_cstring (hs_mem h) tid (sv_mem s) (arg rg (sp_path_arg sp)) kPathMax = Inr path" and "is_absolute path"
    and "resolve_options_for h tid (sp_follow sp) s = (ro, s)" and "\<not> see_through_links ro"
    and "sup_resolve h path ro s = (Inr r, s1)" and "\<not> read_only_refused sp r" and "\<not> sp_resolve_only sp"
  shows "translate_path h tid sp (rg, sw, s) =
    (case apply_translation h tid sp \<lparr>tp_present = True, tp_r = r, tp_original = path\<rparr> (rg, sw, s1) of
       (e, cs') \<Rightarrow> ((e, \<lparr>tp_present = True, tp_r = r, tp_original = path\<rparr>), cs'))"
proof -
  have n: "ro\<lparr>see_through_links := False\<rparr> = ro" using assms(5) by (cases ro) simp
  have "path \<noteq> []" using assms(3) by (auto simp: is_absolute_def)
  then show ?thesis using assms by (simp add: translate_path_def translate_full_def n Let_def)
qed


lemma card_options:
  "s = (card_sup a)\<lparr>sv_dir_cache := c\<rparr> \<Longrightarrow> resolve_options_for card_shost 7 False s = (nofollow_options, s)"
  by (simp add: resolve_options_for_def links_visible_def card_sup_def sample_sup_def new_link_store_def has_objects_def
      nofollow_options_def default_options_def default_config_def)

abbreviation card_rename :: syscall_info where
  "card_rename \<equiv> one_call ''rename'' Cls_translated H_rename"

lemma card_dispatched:
  assumes "card_readable a"
  obtains s' where "dispatch card_shost 7 card_rename (card_regs a, card_sup a) = (pass, set_arg 1 0x1FF20 (card_regs a), s')"
    "sv_mem s' = snd (write_mem flat_host 7 (sv_mem (card_sup a)) 0x1FF20 (''/sdcard/x/etc/shadow'' @ [nul]))" "sv_mounts s' = card_table"
proof -
  let ?sw = "stack_writer_new X86_64 7 0x20000" and ?s = "card_sup a" and ?rg = "card_regs a"
  let ?s1 = "?s\<lparr>sv_dir_cache := card_cache\<rparr>"
  let ?sp1 = "(spec 0 (- 1) False True False)\<lparr>sp_link_name := True\<rparr>"
  let ?sp2 = "(spec 1 (- 1) False True True)\<lparr>sp_link_name := True\<rparr>"
  let ?p1 = "\<lparr>tp_present = True, tp_r = card_first, tp_original = ''/sdcard/a''\<rparr>"
  let ?p2 = "\<lparr>tp_present = True, tp_r = card_second, tp_original = ''/sdcard//x/etc/shadow''\<rparr>"
  let ?m = "snd (write_mem flat_host 7 (sv_mem ?s) 0x1FF20 (''/sdcard/x/etc/shadow'' @ [nul]))"
  have mem: "hs_mem card_shost = flat_host" by (simp add: card_shost_def)
  have files: "hs_files card_shost f = card_fs" "sv_mounts ?s = card_table" "sv_dir_cache ?s = []" for f
    by (simp_all add: card_shost_def card_sup_def sample_sup_def)
  have r1: "sup_resolve card_shost ''/sdcard/a'' nofollow_options ?s = (Inr card_first, ?s1)"
    using card_resolves(1) by (simp add: sup_resolve_def files)
  obtain c where r2: "sup_resolve card_shost ''/sdcard//x/etc/shadow'' nofollow_options ?s1 = (Inr card_second, ?s\<lparr>sv_dir_cache := c\<rparr>)"
    using card_resolves(2)
    by (cases "resolve card_fs card_table ''/sdcard//x/etc/shadow'' nofollow_options (Some card_cache)") (simp add: sup_resolve_def files)
  obtain sw where p: "sw_push_string X86_64 flat_host (sv_mem ?s) ?sw ''/sdcard/x/etc/shadow'' = (Inr 0x1FF20, sw, ?m)"
    using card_pushed by blast
  have o1: "resolve_options_for card_shost 7 False ?s = (nofollow_options, ?s)"
    using card_options [where a = a and c = "[]" and s = ?s] by (simp add: card_sup_def sample_sup_def)
  have sees: "\<not> see_through_links nofollow_options" by (simp add: nofollow_options_def default_options_def)
  have nz: "a \<noteq> 0" using assms by (simp add: card_readable_def)
  have t1: "translate_path card_shost 7 ?sp1 (?rg, ?sw, ?s) = ((0, ?p1), ?rg, ?sw, ?s1)"
    by (subst translate_path_eval [OF _ _ _ _ sees r1])
      (use o1 card_reads(1) [OF assms] nz in \<open>simp_all add: card_regs_fields mem is_absolute_def spec_def read_only_refused_def
        card_first_def card_mount_def apply_translation_def\<close>)
  let ?s' = "snd (rewrite_arg 7 1 0x1FF20 (?rg, ?s\<lparr>sv_dir_cache := c, sv_mem := ?m\<rparr>))"
  have t2: "translate_path card_shost 7 ?sp2 (?rg, ?sw, ?s1) = ((0, ?p2), set_arg 1 0x1FF20 ?rg, sw, ?s')"
    by (subst translate_path_eval [OF _ _ _ _ sees r2])
      (use card_options [OF refl] card_reads(2) [OF assms] p in \<open>simp_all add: card_regs_fields mem is_absolute_def spec_def
        read_only_refused_def card_second_def card_mount_def apply_translation_def rewrite_arg_def Let_def\<close>)
  have "dispatch card_shost 7 card_rename (?rg, ?s) = (pass, set_arg 1 0x1FF20 ?rg, ?s')"
    using t1 t2
    by (simp add: dispatch_def dispatch_call_def one_call_def rename_like_def card_regs_fields entry_of_def card_first_def card_second_def)
  then show ?thesis
    by (rule that) (simp_all add: rewrite_arg_def Let_def set_pending_def put_tracee_def files)
qed

lemma card_paths_ok: "paths_ok card_shost (card_sup a)"
proof -
  have "table_ok card_table \<and> table_nul_free card_table" by code_simp
  moreover have "links_nul_free card_fs \<and> errnos_set card_fs"
    by (auto simp: links_nul_free_def errnos_set_def card_fs_def EINVAL_def ENOENT_def split: if_splits)
  ultimately show ?thesis
    by (simp add: paths_ok_def card_shost_def card_sup_def sample_sup_def cache_sound_def)
qed

theorem passed_two_paths_confined_witness:
  "\<exists>rg' s'. dispatch card_shost 7 card_rename (card_regs 0x30000, card_sup 0x30000) = (pass, rg', s') \<and>
    ((\<exists>p. nul_free p \<and> list_ex (\<lambda>m. is_below p (m_host m)) (sv_mounts s') \<and>
            stored (flat_view 7 (sv_mem s')) (arg rg' 0) (p @ [nul])) \<or>
     arg rg' 0 = 0x30000 \<and> ((0x30000 :: 64 word) = 0 \<or> stored (flat_view 7 (sv_mem s')) 0x30000 [nul]))"
proof -
  obtain s' where d: "dispatch card_shost 7 card_rename (card_regs 0x30000, card_sup 0x30000) =
      (pass, set_arg 1 0x1FF20 (card_regs 0x30000), s')"
    using card_dispatched [OF card_readable(2)] by metis
  have "path_args2 (si_handler card_rename) = Some (0, 1)" by (simp add: one_call_def path_args2_def)
  moreover have "task_access (hs_mem card_shost) flat_view" by (simp add: card_shost_def flat_access)
  moreover have "length (rg_args (card_regs a)) = 6" "192 \<le> unat (rg_sp (card_regs a))" for a
    by (simp_all add: card_regs_def fetch_sample)
  moreover have "clear_of_scratch (rg_sp (card_regs 0x30000)) (arg (card_regs 0x30000) 0)"
    by (simp add: clear_of_scratch_def card_regs_fields kPathMax_def)
  ultimately show ?thesis
    using passed_two_paths_confined [OF _ d _ card_paths_ok, of 0 1 flat_view] d by (simp add: card_regs_fields)
qed

text \<open>
  C29: The provision is needed.  With \<open>/sdcard\<close> bound to itself a guest keeps the string \<open>/sdcard/a\<close> below
  its stack pointer and renames it to \<open>/sdcard//x/etc/shadow\<close>: the first path needs no rewriting, the
  translation of the second is written over it, and the call passed to the kernel renames the host's
  \<open>/etc/shadow\<close>, which is below no mount.\<close>

theorem second_path_overwrites_first:
  "\<exists>rg' s'. dispatch card_shost 7 card_rename (card_regs 0x1FF29, card_sup 0x1FF29) = (pass, rg', s') \<and>
     stored (flat_view 7 (sv_mem s')) (arg rg' 0) (''/etc/shadow'' @ [nul]) \<and>
     \<not> list_ex (\<lambda>m. is_below ''/etc/shadow'' (m_host m)) (sv_mounts s')"
proof -
  let ?m = "snd (write_mem flat_host 7 (sv_mem (card_sup 0x1FF29)) 0x1FF20 (''/sdcard/x/etc/shadow'' @ [nul]))"
  obtain s' where d: "dispatch card_shost 7 card_rename (card_regs 0x1FF29, card_sup 0x1FF29) =
      (pass, set_arg 1 0x1FF20 (card_regs 0x1FF29), s')" "sv_mem s' = ?m" "sv_mounts s' = card_table"
    using card_dispatched [OF card_readable(1)] by metis
  have "stored (flat_view 7 ?m) 0x1FF29 (''/etc/shadow'' @ [nul])"
    by (simp add: write_mem_def flat_host_def flat_write_def flat_ok_def overflows_def stored_def flat_view_def)
  moreover have "arg (set_arg 1 0x1FF20 (card_regs 0x1FF29)) 0 = 0x1FF29"
    by (simp add: card_regs_def fetch_sample set_arg_def arg_def)
  moreover have "\<not> list_ex (\<lambda>m. is_below ''/etc/shadow'' (m_host m)) card_table" by code_simp
  ultimately show ?thesis using d(1) by (intro exI [of _ "set_arg 1 0x1FF20 (card_regs 0x1FF29)"] exI [of _ s'] conjI) (simp_all only: d(2,3) not_False_eq_True)
qed

end
