(* ===== verification/Read_Only.thy ===== *)
theory Read_Only
  imports Two_Paths
begin

text \<open>
  Read-only mounts and calls on descriptors.  A change of an inode named by a descriptor is refused when
  the descriptor is on a read-only mount; the same change asked for with an empty path is not.
\<close>

lemma empty_path_passes:
  assumes "si_handler info = H_fchmodat2" and "flagged rg 3 kAtEmptyPath"
    and "arg rg 1 \<noteq> 0" and "read_cstring (hs_mem h) tid (sv_mem s) (arg rg 1) kPathMax = Inr []"
  shows "dispatch h tid info (rg, s) = (pass, rg, s)"
  using assms
  by (simp add: dispatch_def dispatch_call_def run_spec_def translate_path_def spec_def Let_def)

text \<open>
  C37: A read-only mount is not protected against \<open>fchmodat2\<close> with \<open>AT_EMPTY_PATH\<close>: for a descriptor on
  such a mount the supervisor refuses \<open>fchmod\<close> (the handler of calls on descriptors) with \<open>EROFS\<close>, yet
  it passes \<open>fchmodat2\<close> with an empty path, which changes the same inode, to the kernel unchanged.\<close>

theorem empty_path_skips_read_only:
  assumes "si_handler info = H_fchmodat2" and "flagged rg 3 kAtEmptyPath"
    and "arg rg 1 \<noteq> 0" and "read_cstring (hs_mem h) tid (sv_mem s) (arg rg 1) kPathMax = Inr []"
    and "guest_fd_path h tid (int_arg rg 0) s = (Inr (Some g), s)"
    and "mount_for_guest (sv_mounts s) g = Some m" and "m_read_only m"
  shows "handle_fd_meta h tid (int_arg rg 0) False s = (fail_with EROFS, s) \<and>
    dispatch h tid info (rg, s) = (pass, rg, s)"
  using empty_path_passes [OF assms(1-4)] assms(5-7) by (simp add: handle_fd_meta_def)

definition ro_shost :: "(64 word \<Rightarrow> char, string \<Rightarrow> node option) sup_host" where
  "ro_shost = sample_shost\<lparr>hs_files := (\<lambda>_. sample_files\<lparr>readlink := (readlink sample_files)(''/proc/7/fd/3'' := Inr ''/home/u/f'')\<rparr>)\<rparr>"

definition ro_regs :: regs where
  "ro_regs = set_arg 0 3 (set_arg 1 0x10000 (set_arg 3 0x1000 (fetch_regs sample_uregs)))"

theorem empty_path_skips_read_only_witness:
  "handle_fd_meta ro_shost 7 3 False sample_sup = (fail_with EROFS, sample_sup) \<and>
   dispatch ro_shost 7 (one_call ''fchmodat2'' Cls_translated H_fchmodat2) (ro_regs, sample_sup) = (pass, ro_regs, sample_sup)"
proof -
  let ?i = "one_call ''fchmodat2'' Cls_translated H_fchmodat2"
  have a: "arg ro_regs 1 = 0x10000" "int_arg ro_regs 0 = 3" "flagged ro_regs 3 kAtEmptyPath"
    by (simp_all add: ro_regs_def fetch_sample set_arg_def arg_def int_arg_def flagged_def kAtEmptyPath_def)
  have r: "read_cstring (hs_mem ro_shost) 7 (sv_mem sample_sup) (arg ro_regs 1) kPathMax = Inr []"
    unfolding a by (simp add: ro_shost_def read_cstring_iff [OF flat_reads flat_mapped] stored_def flat_view_def kPathMax_def)
  have f: "proc_fd 7 3 = ''/proc/7/fd/3'' \<and> to_guest sample_table ''/home/u/f'' = Some ''/mnt/f'' \<and> \<not> ends_with_deleted ''/home/u/f''"
    by code_simp
  have "read_link (hs_files ro_shost fs) ''/proc/7/fd/3'' = Inr ''/home/u/f''" for fs
    by (simp add: ro_shost_def read_link_def kPathMax_def)
  moreover have "sv_mounts sample_sup = sample_table" by (simp add: sample_sup_def)
  ultimately have g: "guest_fd_path ro_shost 7 (int_arg ro_regs 0) sample_sup = (Inr (Some ''/mnt/f''), sample_sup)"
    unfolding a using f by (simp add: guest_fd_path_def)
  obtain m where m: "mount_for_guest (sv_mounts sample_sup) ''/mnt/f'' = Some m" "m_read_only m"
  proof -
    have "mount_for_guest sample_table ''/mnt/f'' = Some (sample_table ! 1) \<and> m_read_only (sample_table ! 1)" by code_simp
    then show ?thesis using that by (simp add: sample_sup_def)
  qed
  have i: "si_handler ?i = H_fchmodat2" by (simp add: one_call_def)
  have "arg ro_regs 1 \<noteq> 0" by (simp only: a) simp
  from empty_path_skips_read_only [OF i a(3) this r g m] show ?thesis unfolding a(2) .
qed

end
