(* ===== verification/Trace_Monad.thy ===== *)
theory Trace_Monad
  imports Prelude
begin

text \<open>
  Programs that issue operations and may end early.  A run keeps the list of the operations
  performed so far; its value is a result, or the failure that ended it.  The guest loader, the
  bootstrap of the first process and the probes of the host are written with it.
\<close>

type_synonym ('o, 'e, 'a) traced = "'o list \<Rightarrow> ('e + 'a) \<times> 'o list"

definition tr_return :: "'a \<Rightarrow> ('o, 'e, 'a) traced" where "tr_return x ops = (Inr x, ops)"

definition tr_fail :: "'e \<Rightarrow> ('o, 'e, 'a) traced" where "tr_fail e ops = (Inl e, ops)"

definition tr_log :: "'o \<Rightarrow> ('o, 'e, unit) traced" where "tr_log x ops = (Inr (), ops @ [x])"

definition tr_bind :: "('o, 'e, 'a) traced \<Rightarrow> ('a \<Rightarrow> ('o, 'e, 'b) traced) \<Rightarrow> ('o, 'e, 'b) traced" where
  "tr_bind m f ops = (case m ops of (Inl e, ops') \<Rightarrow> (Inl e, ops') | (Inr x, ops') \<Rightarrow> f x ops')"

text \<open>\<open>vhdp_raw_is_error\<close>: the kernel answers an error with its negated errno.\<close>

definition raw_is_error :: "int \<Rightarrow> bool" where
  "raw_is_error r \<longleftrightarrow> r < 0 \<and> r \<ge> - 4095"

named_theorems traced_simps \<open>inversion of successful runs\<close>

lemma tr_bind_Inr [traced_simps]:
  "tr_bind m f ops = (Inr y, ops') \<longleftrightarrow> (\<exists>x o1. m ops = (Inr x, o1) \<and> f x o1 = (Inr y, ops'))"
  by (auto simp: tr_bind_def split: prod.splits sum.splits)

lemma tr_return_Inr [traced_simps]: "tr_return x ops = (Inr y, ops') \<longleftrightarrow> y = x \<and> ops' = ops"
  by (auto simp: tr_return_def)

lemma tr_fail_Inr [traced_simps]: "tr_fail e ops = (Inr y, ops') \<longleftrightarrow> False"
  by (simp add: tr_fail_def)

lemma tr_log_Inr [traced_simps]: "tr_log x ops = (Inr y, ops') \<longleftrightarrow> ops' = ops @ [x]"
  by (auto simp: tr_log_def)

text \<open>Operations are only added, and those added satisfy \<open>P\<close>.\<close>

definition adds :: "('o \<Rightarrow> bool) \<Rightarrow> ('o, 'e, 'a) traced \<Rightarrow> bool" where
  "adds P m \<longleftrightarrow> (\<forall>ops. \<exists>new. snd (m ops) = ops @ new \<and> list_all P new)"

lemma adds_return [intro]: "adds P (tr_return x)"
  by (simp add: adds_def tr_return_def)

lemma adds_fail [intro]: "adds P (tr_fail e)"
  by (simp add: adds_def tr_fail_def)

lemma adds_log [intro]: "P x \<Longrightarrow> adds P (tr_log x)"
  by (simp add: adds_def tr_log_def)

lemma addsD: "adds P m \<Longrightarrow> m ops = (r, ops') \<Longrightarrow> \<exists>new. ops' = ops @ new \<and> list_all P new"
  unfolding adds_def by (metis snd_conv)

lemma adds_bind [intro]:
  assumes "adds P m" and "\<And>x. adds P (f x)"
  shows "adds P (tr_bind m f)"
  unfolding adds_def
proof
  fix ops
  obtain r o1 where m: "m ops = (r, o1)" by force
  obtain n1 where n1: "o1 = ops @ n1" "list_all P n1" using addsD [OF assms(1) m] by blast
  show "\<exists>new. snd (tr_bind m f ops) = ops @ new \<and> list_all P new"
  proof (cases r)
    case (Inl e)
    then show ?thesis using m n1 by (simp add: tr_bind_def)
  next
    case (Inr x)
    obtain r2 o2 where "f x o1 = (r2, o2)" by force
    moreover then obtain n2 where "o2 = o1 @ n2" "list_all P n2" using addsD [OF assms(2)] by blast
    ultimately show ?thesis using m n1 Inr by (simp add: tr_bind_def)
  qed
qed

end
