(* ===== verification/Loader.thy ===== *)
theory Loader
  imports Load_Request Trace_Monad
begin

text \<open>
  The guest loader (\<open>src/src/engines/rootless/loader/loader.c\<close>): it maps a guest program and its dynamic
  linker into its own process and starts them.  A run is the list of the operations it performed on its
  address space; the kernel's answers are the parameter record \<open>kernel\<close>, and every \<open>die\<close> of the source
  ends the run with the line it writes to the standard error output.
\<close>

section \<open>Operations and results\<close>

definition L_PROT_NONE :: "32 word" where "L_PROT_NONE = 0"
definition L_PROT_READ :: "32 word" where "L_PROT_READ = 1"
definition L_PROT_WRITE :: "32 word" where "L_PROT_WRITE = 2"
definition L_PROT_EXEC :: "32 word" where "L_PROT_EXEC = 4"
definition L_MAP_PRIVATE :: "32 word" where "L_MAP_PRIVATE = 0x02"
definition L_MAP_FIXED :: "32 word" where "L_MAP_FIXED = 0x10"
definition L_MAP_ANONYMOUS :: "32 word" where "L_MAP_ANONYMOUS = 0x20"
definition L_MAP_FIXED_NOREPLACE :: "32 word" where "L_MAP_FIXED_NOREPLACE = 0x100000"
definition L_AT_NULL :: "64 word" where "L_AT_NULL = 0"
definition L_AT_PHDR :: "64 word" where "L_AT_PHDR = 3"
definition L_AT_PHENT :: "64 word" where "L_AT_PHENT = 4"
definition L_AT_PHNUM :: "64 word" where "L_AT_PHNUM = 5"
definition L_AT_PAGESZ :: "64 word" where "L_AT_PAGESZ = 6"
definition L_AT_BASE :: "64 word" where "L_AT_BASE = 7"
definition L_AT_ENTRY :: "64 word" where "L_AT_ENTRY = 9"
definition L_AT_EXECFN :: "64 word" where "L_AT_EXECFN = 31"
definition L_EEXIST :: int where "L_EEXIST = 17"
definition L_PF_X :: "32 word" where "L_PF_X = 1"
definition L_PF_W :: "32 word" where "L_PF_W = 2"
definition L_PF_R :: "32 word" where "L_PF_R = 4"
definition L_PT_LOAD :: "32 word" where "L_PT_LOAD = 1"
definition L_PT_INTERP :: "32 word" where "L_PT_INTERP = 3"
definition L_PT_PHDR :: "32 word" where "L_PT_PHDR = 6"
definition L_ET_EXEC :: "16 word" where "L_ET_EXEC = 2"
definition L_ET_DYN :: "16 word" where "L_ET_DYN = 3"
definition L_MAX_PHNUM :: nat where "L_MAX_PHNUM = 512"
definition LOADER_HOST_MACHINE :: "16 word" where "LOADER_HOST_MACHINE = 62"

text \<open>
  A mapping is logged with the address the kernel chose; \<open>Op_write\<close> stores bytes, \<open>Op_zero\<close> clears
  them.
\<close>

datatype load_op =
    Op_mmap (mo_addr: "64 word") (mo_len: "64 word") (mo_prot: "32 word") (mo_flags: "32 word") (mo_fd: int) (mo_off: "64 word")
  | Op_mprotect "64 word" "64 word" "32 word"
  | Op_zero "64 word" "64 word"
  | Op_write "64 word" string
  | Op_munmap "64 word" "64 word"
  | Op_close int
  | Op_set_name string

text \<open>
  The kernel's answers.  An interrupted \<open>pread64\<close> is repeated with the same arguments, so \<open>k_pread\<close> is the
  first answer other than \<open>EINTR\<close>; a mapping depends on the operations before it.
\<close>

record kernel =
  k_open :: "string \<Rightarrow> int"
  k_pread :: "int \<Rightarrow> 64 word \<Rightarrow> 64 word \<Rightarrow> errno + string"
  k_mmap :: "load_op list \<Rightarrow> 64 word \<Rightarrow> 64 word \<Rightarrow> 32 word \<Rightarrow> 32 word \<Rightarrow> int \<Rightarrow> 64 word \<Rightarrow> 64 word"
  k_mprotect :: "load_op list \<Rightarrow> 64 word \<Rightarrow> 64 word \<Rightarrow> 32 word \<Rightarrow> int"

text \<open>
  \<open>put_num\<close> fills a buffer of 24 bytes from its end; \<open>i\<close> is the index of the first byte used.
\<close>

fun num_digits :: "nat \<Rightarrow> nat \<Rightarrow> string \<Rightarrow> string" where
  "num_digits 0 v buf = buf"
| "num_digits (Suc i) v buf =
     (let buf' = char_of (48 + v mod 10) # buf
      in if v div 10 \<noteq> 0 \<and> i > 0 then num_digits i (v div 10) buf' else buf')"

definition put_num :: "64 word \<Rightarrow> string" where "put_num v = num_digits 23 (unat v) []"

text \<open>The buffer is long enough for every 64-bit number: the result is its decimal form.\<close>

lemma num_digits_dec: "0 < i \<Longrightarrow> v < 10 ^ i \<Longrightarrow> num_digits i v buf = dec_string v @ buf"
proof (induction i arbitrary: v buf)
  case (Suc i)
  have "v div 10 < 10 ^ i" using Suc.prems(2) by (simp add: less_mult_imp_div_less mult.commute)
  moreover have "v < 10" if "i = 0" using Suc.prems(2) that by simp
  ultimately show ?case
    using Suc.IH [of "v div 10"] dec_string.simps [of v] by (auto simp: Let_def digit_char_def)
qed simp

lemma put_num_dec: "put_num v = dec_string (unat v)"
proof -
  have "unat v < 10 ^ 23" using unsigned_less [of v, where 'a = nat] by simp
  then show ?thesis using num_digits_dec [of 23 "unat v" "[]"] by (simp add: put_num_def)
qed

text \<open>A run ends with the line of \<open>die\<close> and exit status 127, or goes on with a value.\<close>

type_synonym 'a loading = "(load_op, string, 'a) traced"

definition die_text :: "string \<Rightarrow> string option \<Rightarrow> int \<Rightarrow> string" where
  "die_text what path err =
     ''vhdp-loader: '' @ what @ (case path of None \<Rightarrow> [] | Some p \<Rightarrow> '' '' @ p) @
     (if err < 0 then '' (errno '' @ put_num (word_of_int (- err)) @ '')'' else []) @ [CHR 0x0A]"

definition die :: "string \<Rightarrow> string option \<Rightarrow> int \<Rightarrow> 'a loading" where
  "die what path err = tr_fail (die_text what path err)"

definition map_pages :: "kernel \<Rightarrow> 64 word \<Rightarrow> 64 word \<Rightarrow> 32 word \<Rightarrow> 32 word \<Rightarrow> int \<Rightarrow> 64 word \<Rightarrow> int loading" where
  "map_pages k addr len prot flags fd pos ops =
     (let r = k_mmap k ops addr len prot flags fd pos
      in (Inr (sint r), if raw_is_error (sint r) then ops else ops @ [Op_mmap r len prot flags fd pos]))"

definition mprotect :: "kernel \<Rightarrow> 64 word \<Rightarrow> 64 word \<Rightarrow> 32 word \<Rightarrow> int loading" where
  "mprotect k addr len prot ops =
     (let r = k_mprotect k ops addr len prot
      in (Inr r, if raw_is_error r then ops else ops @ [Op_mprotect addr len prot]))"

section \<open>Pages and reads\<close>

definition trunc_page :: "64 word \<Rightarrow> 64 word \<Rightarrow> 64 word" where
  "trunc_page v ps = v AND NOT (ps - 1)"

definition round_page :: "64 word \<Rightarrow> 64 word \<Rightarrow> 64 word" where
  "round_page v ps = (v + ps - 1) AND NOT (ps - 1)"

function read_full :: "kernel \<Rightarrow> int \<Rightarrow> nat \<Rightarrow> 64 word \<Rightarrow> string \<Rightarrow> string option" where
  "read_full k fd len pos got =
     (if length got \<ge> len then Some got
      else case k_pread k fd (of_nat (len - length got)) (pos + of_nat (length got)) of
          Inl e \<Rightarrow> None
        | Inr s \<Rightarrow> if s = [] then None else read_full k fd len pos (got @ s))"
  by pat_completeness auto
termination
  by (relation "measure (\<lambda>(k, fd, len, pos, got). len - length got)") (auto simp: neq_Nil_conv)

declare read_full.simps [simp del]

definition elf_prot :: "32 word \<Rightarrow> 32 word" where
  "elf_prot flags =
     (if flags AND L_PF_R \<noteq> 0 then L_PROT_READ else 0) OR
     (if flags AND L_PF_W \<noteq> 0 then L_PROT_WRITE else 0) OR
     (if flags AND L_PF_X \<noteq> 0 then L_PROT_EXEC else 0)"

section \<open>One segment\<close>

text \<open>The fields of \<open>struct elf64_phdr\<close> the loader reads.\<close>

record elf64_phdr =
  p_type :: "32 word"
  p_flags :: "32 word"
  p_offset :: "64 word"
  p_vaddr :: "64 word"
  p_filesz :: "64 word"
  p_memsz :: "64 word"

text \<open>The part backed by the file, mapped or, when its offset is not congruent to its address, copied.\<close>

definition map_aligned ::
  "kernel \<Rightarrow> int \<Rightarrow> elf64_phdr \<Rightarrow> 64 word \<Rightarrow> string \<Rightarrow> 64 word \<Rightarrow> 64 word \<Rightarrow> 64 word \<Rightarrow> 64 word \<Rightarrow> unit loading" where
  "map_aligned k fd ph ps path start file_end map_end pos =
     (let prot = elf_prot (p_flags ph);
          zero_tail = (p_memsz ph > p_filesz ph \<and> file_end AND (ps - 1) \<noteq> 0);
          map_prot = prot OR (if zero_tail then L_PROT_WRITE else 0)
      in tr_bind (map_pages k start (map_end - start) map_prot (L_MAP_PRIVATE OR L_MAP_FIXED) fd pos) (\<lambda>r.
         if raw_is_error r
         then die (if prot AND L_PROT_EXEC \<noteq> 0 then ''executable mapping refused for'' else ''cannot map segment of'') (Some path) r
         else if \<not> zero_tail then tr_return ()
         else tr_bind (tr_log (Op_zero file_end (map_end - file_end))) (\<lambda>_.
              if map_prot = prot then tr_return ()
              else tr_bind (mprotect k start (map_end - start) prot) (\<lambda>_. tr_return ()))))"

definition copy_segment ::
  "kernel \<Rightarrow> int \<Rightarrow> elf64_phdr \<Rightarrow> string \<Rightarrow> 64 word \<Rightarrow> 64 word \<Rightarrow> 64 word \<Rightarrow> unit loading" where
  "copy_segment k fd ph path va start map_end =
     tr_bind (map_pages k start (map_end - start) (L_PROT_READ OR L_PROT_WRITE)
                (L_MAP_PRIVATE OR L_MAP_FIXED OR L_MAP_ANONYMOUS) (- 1) 0) (\<lambda>r.
     if raw_is_error r then die ''cannot allocate segment of'' (Some path) r
     else case read_full k fd (unat (p_filesz ph)) (p_offset ph) [] of
         None \<Rightarrow> die ''short read of segment in'' (Some path) 0
       | Some bytes \<Rightarrow>
           tr_bind (tr_log (Op_write va bytes)) (\<lambda>_.
           tr_bind (mprotect k start (map_end - start) (elf_prot (p_flags ph))) (\<lambda>r.
           if raw_is_error r then die ''cannot protect copied segment of'' (Some path) r else tr_return ())))"

definition map_file_part :: "kernel \<Rightarrow> int \<Rightarrow> elf64_phdr \<Rightarrow> 64 word \<Rightarrow> 64 word \<Rightarrow> string \<Rightarrow> unit loading" where
  "map_file_part k fd ph va ps path =
     (let start = trunc_page va ps;
          file_end = va + p_filesz ph;
          delta = va - start;
          pos = p_offset ph - delta;
          map_end = round_page file_end ps
      in if p_offset ph < delta then die ''PT_LOAD offset below its page in'' (Some path) 0
         else if pos AND (ps - 1) = 0 then map_aligned k fd ph ps path start file_end map_end pos
         else copy_segment k fd ph path va start map_end)"

definition map_bss :: "kernel \<Rightarrow> elf64_phdr \<Rightarrow> 64 word \<Rightarrow> 64 word \<Rightarrow> string \<Rightarrow> unit loading" where
  "map_bss k ph va ps path =
     (let anon_start = (if p_filesz ph > 0 then round_page (va + p_filesz ph) ps else trunc_page va ps);
          anon_end = round_page (va + p_memsz ph) ps
      in if anon_end > anon_start
         then tr_bind (map_pages k anon_start (anon_end - anon_start) (elf_prot (p_flags ph))
                (L_MAP_PRIVATE OR L_MAP_FIXED OR L_MAP_ANONYMOUS) (- 1) 0) (\<lambda>r.
              if raw_is_error r then die ''cannot map .bss of'' (Some path) r else tr_return ())
         else tr_return ())"

definition map_segment :: "kernel \<Rightarrow> int \<Rightarrow> elf64_phdr \<Rightarrow> 64 word \<Rightarrow> 64 word \<Rightarrow> string \<Rightarrow> unit loading" where
  "map_segment k fd ph bias ps path =
     (let va = bias + p_vaddr ph
      in if p_filesz ph > p_memsz ph then die ''PT_LOAD with p_filesz > p_memsz in'' (Some path) 0
         else tr_bind (if p_filesz ph > 0 then map_file_part k fd ph va ps path else tr_return ()) (\<lambda>_.
              map_bss k ph va ps path))"

section \<open>One image\<close>

record elf64_ehdr =
  e_ident :: string
  e_type :: "16 word"
  e_machine :: "16 word"
  e_entry :: "64 word"
  e_phoff :: "64 word"
  e_phentsize :: "16 word"
  e_phnum :: "16 word"

definition ehdr_of :: "string \<Rightarrow> elf64_ehdr" where
  "ehdr_of b = \<lparr>e_ident = take 16 b, e_type = of_nat (le_value (take 2 (drop 16 b))),
     e_machine = of_nat (le_value (take 2 (drop 18 b))), e_entry = le_word (take 8 (drop 24 b)),
     e_phoff = le_word (take 8 (drop 32 b)), e_phentsize = of_nat (le_value (take 2 (drop 54 b))),
     e_phnum = of_nat (le_value (take 2 (drop 56 b)))\<rparr>"

definition phdr_of :: "string \<Rightarrow> elf64_phdr" where
  "phdr_of b = \<lparr>p_type = to32 (take 4 b), p_flags = to32 (take 4 (drop 4 b)), p_offset = le_word (take 8 (drop 8 b)),
     p_vaddr = le_word (take 8 (drop 16 b)), p_filesz = le_word (take 8 (drop 32 b)), p_memsz = le_word (take 8 (drop 40 b))\<rparr>"

definition phdr_table :: "elf64_ehdr \<Rightarrow> string \<Rightarrow> elf64_phdr list" where
  "phdr_table eh bytes = map (\<lambda>i. phdr_of (drop (i * unat (e_phentsize eh)) bytes)) [0..<unat (e_phnum eh)]"

definition check_ehdr :: "elf64_ehdr \<Rightarrow> bool \<Rightarrow> string option" where
  "check_ehdr eh is_interp =
     (if take 6 (e_ident eh) \<noteq> [CHR 0x7F, CHR ''E'', CHR ''L'', CHR ''F'', CHR 0x02, CHR 0x01]
      then Some ''not a 64-bit little-endian ELF:''
      else if e_machine eh \<noteq> LOADER_HOST_MACHINE then Some ''ELF machine does not match this host:''
      else if e_type eh \<noteq> L_ET_DYN \<and> (is_interp \<or> e_type eh \<noteq> L_ET_EXEC) then Some ''unsupported ELF type:''
      else if unat (e_phentsize eh) < 56 \<or> e_phnum eh = 0 \<or> unat (e_phnum eh) > L_MAX_PHNUM
      then Some ''unsupported program header table in''
      else None)"

record header_scan =
  hs_lo :: "64 word"
  hs_hi :: "64 word"
  hs_loads :: nat
  hs_phdr_seg :: "elf64_phdr option"
  hs_has_interp :: bool

definition scan_start :: header_scan where
  "scan_start = \<lparr>hs_lo = - 1, hs_hi = 0, hs_loads = 0, hs_phdr_seg = None, hs_has_interp = False\<rparr>"

fun scan_headers :: "64 word \<Rightarrow> elf64_phdr list \<Rightarrow> header_scan \<Rightarrow> header_scan option" where
  "scan_headers ps [] h = Some h"
| "scan_headers ps (ph # phs) h =
     (if p_type ph = L_PT_LOAD
      then (if p_memsz ph = 0 then scan_headers ps phs h
            else let s = trunc_page (p_vaddr ph) ps;
                     e = round_page (p_vaddr ph + p_memsz ph) ps
                 in if e < s then None
                    else scan_headers ps phs (h\<lparr>hs_lo := (if s < hs_lo h then s else hs_lo h),
                           hs_hi := (if e > hs_hi h then e else hs_hi h), hs_loads := hs_loads h + 1\<rparr>))
      else if p_type ph = L_PT_INTERP then scan_headers ps phs (h\<lparr>hs_has_interp := True\<rparr>)
      else if p_type ph = L_PT_PHDR then scan_headers ps phs (h\<lparr>hs_phdr_seg := Some ph\<rparr>)
      else scan_headers ps phs h)"

text \<open>The span of the image is reserved first; the result is the bias and the base.\<close>

definition reserve :: "kernel \<Rightarrow> 16 word \<Rightarrow> 64 word \<Rightarrow> 64 word \<Rightarrow> string \<Rightarrow> (64 word \<times> 64 word) loading" where
  "reserve k etype lo hi path =
     (if etype = L_ET_DYN
      then tr_bind (map_pages k 0 (hi - lo) L_PROT_NONE (L_MAP_PRIVATE OR L_MAP_ANONYMOUS) (- 1) 0) (\<lambda>r.
           if raw_is_error r then die ''cannot reserve address space for'' (Some path) r
           else tr_return (word_of_int r - lo, word_of_int r))
      else tr_bind (map_pages k lo (hi - lo) L_PROT_NONE (L_MAP_PRIVATE OR L_MAP_ANONYMOUS OR L_MAP_FIXED_NOREPLACE) (- 1) 0) (\<lambda>r.
           if r = - L_EEXIST \<or> \<not> raw_is_error r \<and> word_of_int r \<noteq> lo
           then die ''fixed load address already in use for'' (Some path) 0
           else if raw_is_error r then die ''cannot reserve the fixed load address of'' (Some path) r
           else tr_return (0, word_of_int r)))"

text \<open>The loop over the segments; its value is where the program headers ended up.\<close>

fun map_segments ::
  "kernel \<Rightarrow> int \<Rightarrow> string \<Rightarrow> 64 word \<Rightarrow> 64 word \<Rightarrow> 64 word \<Rightarrow> 64 word \<Rightarrow> bool \<Rightarrow> elf64_phdr list \<Rightarrow> 64 word \<Rightarrow> 64 word loading" where
  "map_segments k fd path bias ps phoff ph_bytes has_seg [] addr = tr_return addr"
| "map_segments k fd path bias ps phoff ph_bytes has_seg (ph # phs) addr =
     (if p_type ph \<noteq> L_PT_LOAD \<or> p_memsz ph = 0
      then map_segments k fd path bias ps phoff ph_bytes has_seg phs addr
      else tr_bind (map_segment k fd ph bias ps path) (\<lambda>_.
           map_segments k fd path bias ps phoff ph_bytes has_seg phs
             (if \<not> has_seg \<and> phoff \<ge> p_offset ph \<and> phoff + ph_bytes \<le> p_offset ph + p_filesz ph
              then bias + p_vaddr ph + (phoff - p_offset ph) else addr)))"

record loaded_image =
  im_entry :: "64 word"
  im_base :: "64 word"
  im_phdr :: "64 word"
  im_phnum :: "16 word"
  im_phent :: "16 word"
  im_has_interp :: bool

definition load_mapped ::
  "kernel \<Rightarrow> int \<Rightarrow> string \<Rightarrow> bool \<Rightarrow> 64 word \<Rightarrow> elf64_ehdr \<Rightarrow> elf64_phdr list \<Rightarrow> header_scan \<Rightarrow> loaded_image loading" where
  "load_mapped k fd path is_interp ps eh phs h =
     (if hs_loads h = 0 then die ''no loadable segments in'' (Some path) 0
      else if is_interp \<and> hs_has_interp h then die ''dynamic linker itself requests an interpreter:'' (Some path) 0
      else tr_bind (reserve k (e_type eh) (hs_lo h) (hs_hi h) path) (\<lambda>(bias, base).
           tr_bind (map_segments k fd path bias ps (e_phoff eh) (of_nat (unat (e_phnum eh) * unat (e_phentsize eh)))
                      (hs_phdr_seg h \<noteq> None) phs 0) (\<lambda>addr.
           tr_return \<lparr>im_entry = bias + e_entry eh, im_base = base,
             im_phdr = (case hs_phdr_seg h of None \<Rightarrow> addr | Some ph \<Rightarrow> bias + p_vaddr ph),
             im_phnum = e_phnum eh, im_phent = e_phentsize eh, im_has_interp = hs_has_interp h\<rparr>)))"

definition load_headers ::
  "kernel \<Rightarrow> int \<Rightarrow> string \<Rightarrow> 64 word \<Rightarrow> elf64_ehdr \<Rightarrow> (64 word \<times> 64 word \<times> elf64_phdr list) loading" where
  "load_headers k fd path ps eh =
     (let ph_bytes = unat (e_phnum eh) * unat (e_phentsize eh);
          ph_alloc = round_page (of_nat ph_bytes) ps
      in tr_bind (map_pages k 0 ph_alloc (L_PROT_READ OR L_PROT_WRITE) (L_MAP_PRIVATE OR L_MAP_ANONYMOUS) (- 1) 0) (\<lambda>r.
         if raw_is_error r then die ''cannot allocate program headers for'' (Some path) r
         else case read_full k fd ph_bytes (e_phoff eh) [] of
             None \<Rightarrow> die ''cannot read program headers of'' (Some path) 0
           | Some bytes \<Rightarrow> tr_bind (tr_log (Op_write (word_of_int r) bytes)) (\<lambda>_.
               tr_return (word_of_int r, ph_alloc, phdr_table eh bytes))))"

definition load_image :: "kernel \<Rightarrow> string \<Rightarrow> bool \<Rightarrow> 64 word \<Rightarrow> loaded_image loading" where
  "load_image k path is_interp ps =
     (let fd = k_open k path
      in if raw_is_error fd then die ''cannot open'' (Some path) fd
         else case read_full k fd 64 0 [] of
             None \<Rightarrow> die ''cannot read the ELF header of'' (Some path) 0
           | Some hdr \<Rightarrow>
               (let eh = ehdr_of hdr
                in case check_ehdr eh is_interp of
                    Some what \<Rightarrow> die what (Some path) 0
                  | None \<Rightarrow> tr_bind (load_headers k fd path ps eh) (\<lambda>(buf, ph_alloc, phs).
                      case scan_headers ps phs scan_start of
                        None \<Rightarrow> die ''PT_LOAD wraps the address space in'' (Some path) 0
                      | Some h \<Rightarrow> tr_bind (load_mapped k fd path is_interp ps eh phs h) (\<lambda>im.
                          tr_bind (tr_log (Op_munmap buf ph_alloc)) (\<lambda>_.
                          tr_bind (tr_log (Op_close fd)) (\<lambda>_. tr_return im))))))"

section \<open>The start of the guest\<close>

text \<open>
  The stack the kernel built, as the words from the stack pointer up: argc, argv, a null word, the
  environment, a null word and the auxiliary vector, pairs of a type and a value.
\<close>

definition auxv_of :: "64 word list \<Rightarrow> 64 word list" where
  "auxv_of sp = tl (dropWhile (\<lambda>w. w \<noteq> 0) (drop (unat (hd sp) + 2) sp))"

fun auxv_page_size :: "64 word \<Rightarrow> 64 word list \<Rightarrow> 64 word" where
  "auxv_page_size ps (t # v # a) =
     (if t = L_AT_NULL then ps
      else auxv_page_size (if t = L_AT_PAGESZ \<and> v \<noteq> 0 \<and> v AND (v - 1) = 0 then v else ps) a)"
| "auxv_page_size ps a = ps"

definition aux_value :: "loaded_image \<Rightarrow> 64 word \<Rightarrow> 64 word \<Rightarrow> 64 word \<Rightarrow> 64 word \<Rightarrow> 64 word" where
  "aux_value prog at_base fn t v =
     (if t = L_AT_PHDR then im_phdr prog
      else if t = L_AT_PHENT then ucast (im_phent prog)
      else if t = L_AT_PHNUM then ucast (im_phnum prog)
      else if t = L_AT_ENTRY then im_entry prog
      else if t = L_AT_BASE then at_base
      else if t = L_AT_EXECFN then fn
      else v)"

fun patch_auxv :: "loaded_image \<Rightarrow> 64 word \<Rightarrow> 64 word \<Rightarrow> 64 word list \<Rightarrow> 64 word list" where
  "patch_auxv prog at_base fn (t # v # a) =
     (if t = L_AT_NULL then t # v # a else t # aux_value prog at_base fn t v # patch_auxv prog at_base fn a)"
| "patch_auxv prog at_base fn a = a"

definition patch_stack :: "loaded_image \<Rightarrow> 64 word \<Rightarrow> 64 word \<Rightarrow> 64 word list \<Rightarrow> 64 word list" where
  "patch_stack prog at_base fn sp =
     take (length sp - length (auxv_of sp)) sp @ patch_auxv prog at_base fn (auxv_of sp)"

definition load_failure_text :: "load_failure \<Rightarrow> string" where
  "load_failure_text f = (case f of
      No_request \<Rightarrow> ''started without a load request; this program is started by the VHDP supervisor, not directly''
    | Malformed_request \<Rightarrow> ''malformed load request'')"

definition place_execfn :: "kernel \<Rightarrow> string \<Rightarrow> 64 word \<Rightarrow> 64 word loading" where
  "place_execfn k execfn ps =
     (let fn_alloc = round_page (of_nat (length execfn + 1)) ps
      in tr_bind (map_pages k 0 fn_alloc (L_PROT_READ OR L_PROT_WRITE) (L_MAP_PRIVATE OR L_MAP_ANONYMOUS) (- 1) 0) (\<lambda>r.
         if raw_is_error r then die ''cannot allocate AT_EXECFN'' None r
         else tr_bind (tr_log (Op_write (word_of_int r) (execfn @ [nul]))) (\<lambda>_.
              tr_bind (mprotect k (word_of_int r) fn_alloc L_PROT_READ) (\<lambda>_. tr_return (word_of_int r)))))"

text \<open>The value is the argument of \<open>vhdp_loader_jump\<close>: where to go and the stack.\<close>

definition vhdp_loader_main :: "kernel \<Rightarrow> 64 word list \<Rightarrow> string \<Rightarrow> (64 word \<times> 64 word list) loading" where
  "vhdp_loader_main k sp req =
     (case loader_request req of
        Inl f \<Rightarrow> die (load_failure_text f) None 0
      | Inr job \<Rightarrow>
          (let ps = auxv_page_size 4096 (auxv_of sp)
           in tr_bind (load_image k (lj_program job) False ps) (\<lambda>prog.
              if im_has_interp prog \<and> lj_interp job = None
              then die ''program needs a dynamic linker but none was resolved:'' (Some (lj_program job)) 0
              else tr_bind (case lj_interp job of
                       None \<Rightarrow> tr_return (im_entry prog, 0)
                     | Some i \<Rightarrow> tr_bind (load_image k i True ps) (\<lambda>dl. tr_return (im_entry dl, im_base dl))) (\<lambda>(jump_to, at_base).
              if im_phdr prog = 0
              then die ''program headers are not mapped by any segment of'' (Some (lj_program job)) 0
              else tr_bind (place_execfn k (lj_execfn job) ps) (\<lambda>fn.
                   tr_bind (tr_log (Op_set_name (lj_comm job))) (\<lambda>_.
                   tr_return (jump_to, patch_stack prog at_base fn sp)))))))"

end
