(* ===== verification/Loader_Memory.thy ===== *)
theory Loader_Memory
  imports Loader
begin

unbundle bit_operations_syntax

text \<open>
  What the operations of the guest loader do to memory: pages, the interpretation of a run as an
  address space, and the image of one segment.
\<close>

section \<open>Pages\<close>

lemma and_not_mask_minus: "(v::64 word) AND NOT (mask n) = v - take_bit n v"
proof -
  have "v = (v AND mask n) + (v AND NOT (mask n))"
    by (subst disjunctive_add_eq_or) (auto simp: bit_eq_iff bit_simps)
  then show ?thesis by (simp add: take_bit_eq_mask algebra_simps)
qed

lemma unat_take_bit: "unat (take_bit n (v::64 word)) = unat v mod 2 ^ n"
  unfolding unsigned_take_bit_eq by (simp add: take_bit_eq_mod)

lemma trunc_page_sub: "trunc_page v (2 ^ n) = v - take_bit n v"
  by (simp add: trunc_page_def and_not_mask_minus flip: mask_eq_exp_minus_1)

lemma unat_trunc_page: "unat (trunc_page v (2 ^ n)) = unat v - unat v mod 2 ^ n"
proof -
  have "take_bit n v \<le> v" by (simp add: word_le_nat_alt unat_take_bit)
  then show ?thesis by (simp add: trunc_page_sub unat_sub unat_take_bit)
qed
lemma round_page_trunc: "round_page v ps = trunc_page (v + ps - 1) ps"
  by (simp add: round_page_def trunc_page_def)

lemma unat_page: "n < 64 \<Longrightarrow> unat (2 ^ n :: 64 word) = 2 ^ n"
  using unat_of_nat [of "2 ^ n", where 'a = 64] power_strict_increasing [of n 64 "2::nat"] by simp

lemma unat_page_minus_1: "n < 64 \<Longrightarrow> unat (2 ^ n - 1 :: 64 word) = 2 ^ n - 1"
  using one_le_power [of "2::nat" n] by (simp add: unat_sub_if' unat_page)

lemma unat_round_page:
  assumes "n < 64" "unat v + 2 ^ n \<le> 2 ^ 64"
  shows "unat (round_page v (2 ^ n)) = (unat v + 2 ^ n - 1) - (unat v + 2 ^ n - 1) mod 2 ^ n"
proof -
  have "0 < (2::nat) ^ n" by simp
  then have "unat (v + (2 ^ n - 1)) = unat v + (2 ^ n - 1)"
    using assms by (auto simp: unat_plus_if' unat_page_minus_1)
  then have "unat (v + 2 ^ n - 1) = unat v + 2 ^ n - 1" by (simp add: add_diff_eq)
  then show ?thesis unfolding round_page_trunc unat_trunc_page by simp
qed
lemma off_aligned: "v AND (2 ^ n - 1) = 0 \<longleftrightarrow> unat (v::64 word) mod 2 ^ n = 0"
  by (metis mask_eq_exp_minus_1 take_bit_eq_mask unat_take_bit unat_eq_zero)

lemma in_range: "unat (a::64 word) + unat len \<le> 2 ^ 64 \<Longrightarrow> x - a < len \<longleftrightarrow> unat a \<le> unat x \<and> unat x < unat a + unat len"
  using unsigned_less [of x, where 'a = nat] unsigned_less [of a, where 'a = nat] unsigned_less [of len, where 'a = nat] by (auto simp: word_less_nat_alt unat_sub_if')

section \<open>Memory\<close>

text \<open>
  An address space gives each mapped address its byte.  A file mapping shows the bytes of the file and
  zeros after its end; anonymous memory is zero.
\<close>

type_synonym memory = "64 word \<Rightarrow> char option"

definition file_byte :: "string \<Rightarrow> nat \<Rightarrow> char" where
  "file_byte s i = (if i < length s then s ! i else nul)"

fun run_op :: "(int \<Rightarrow> string) \<Rightarrow> load_op \<Rightarrow> memory \<Rightarrow> memory" where
  "run_op fs (Op_mmap a len prot flags fd pos) m =
     (\<lambda>x. if x - a < len then Some (if flags AND L_MAP_ANONYMOUS \<noteq> 0 then nul
                                    else file_byte (fs fd) (unat pos + unat (x - a))) else m x)"
| "run_op fs (Op_zero a len) m = (\<lambda>x. if x - a < len then Some nul else m x)"
| "run_op fs (Op_write a s) m = (\<lambda>x. if unat (x - a) < length s then Some (s ! unat (x - a)) else m x)"
| "run_op fs (Op_munmap a len) m = (\<lambda>x. if x - a < len then None else m x)"
| "run_op fs _ m = m"

definition run_ops :: "(int \<Rightarrow> string) \<Rightarrow> load_op list \<Rightarrow> memory \<Rightarrow> memory" where
  "run_ops fs ops = fold (run_op fs) ops"

text \<open>The operations that change bytes.\<close>

fun changes_bytes :: "load_op \<Rightarrow> bool" where
  "changes_bytes (Op_mprotect a len prot) \<longleftrightarrow> False"
| "changes_bytes (Op_close fd) \<longleftrightarrow> False"
| "changes_bytes (Op_set_name s) \<longleftrightarrow> False"
| "changes_bytes _ \<longleftrightarrow> True"

abbreviation byte_ops :: "load_op list \<Rightarrow> load_op list" where
  "byte_ops ops \<equiv> filter changes_bytes ops"

lemma run_op_neutral: "\<not> changes_bytes x \<Longrightarrow> run_op fs x m = m"
  by (cases x) auto

lemma run_ops_byte_ops: "run_ops fs (byte_ops ops) m = run_ops fs ops m"
  unfolding run_ops_def by (induction ops arbitrary: m) (auto simp: run_op_neutral)

lemma run_ops_append [simp]: "run_ops fs (xs @ ys) m = run_ops fs ys (run_ops fs xs m)"
  by (simp add: run_ops_def)

lemma run_ops_simps [simp]: "run_ops fs [] m = m" "run_ops fs (x # xs) m = run_ops fs xs (run_op fs x m)"
  by (simp_all add: run_ops_def)

section \<open>The kernel\<close>

text \<open>
  What the loader relies on: a fixed mapping is made at the address asked for or refused, and a read
  returns at most as many bytes as asked for, those of the file at that place.
\<close>

definition mmap_fixed_law :: "kernel \<Rightarrow> bool" where
  "mmap_fixed_law k \<longleftrightarrow> (\<forall>ops a len prot flags fd pos.
     flags AND L_MAP_FIXED \<noteq> 0 \<longrightarrow> raw_is_error (sint (k_mmap k ops a len prot flags fd pos)) \<or>
                                  k_mmap k ops a len prot flags fd pos = a)"

definition pread_law :: "kernel \<Rightarrow> (int \<Rightarrow> string) \<Rightarrow> bool" where
  "pread_law k fs \<longleftrightarrow> (\<forall>fd len pos s.
     k_pread k fd len pos = Inr s \<longrightarrow> length s \<le> unat len \<and> s = take (length s) (drop (unat pos) (fs fd)))"

lemma read_full_file:
  assumes "pread_law k fs" and "unat pos + len < 2 ^ 64"
    and "read_full k fd len pos got = Some bytes"
    and "length got \<le> len" and "got = take (length got) (drop (unat pos) (fs fd))"
  shows "length bytes = len \<and> bytes = take len (drop (unat pos) (fs fd))"
  using assms
proof (induction k fd len pos got rule: read_full.induct)
  case (1 k fd len pos got)
  let ?f = "drop (unat pos) (fs fd)"
  show ?case
  proof (cases "length got \<ge> len")
    case True
    then show ?thesis using "1.prems" by (simp add: read_full.simps)
  next
    case False
    then obtain s where s: "k_pread k fd (of_nat (len - length got)) (pos + of_nat (length got)) = Inr s" "s \<noteq> []"
      and r: "read_full k fd len pos (got @ s) = Some bytes"
      using "1.prems"(3) [unfolded read_full.simps [of k fd len pos got]] by (auto split: sum.splits if_splits)
    have u: "unat (pos + of_nat (length got)) = unat pos + length got"
      using "1.prems"(2,4) by (simp add: unat_plus_if' unat_of_nat)
    have "unat (of_nat (len - length got) :: 64 word) = len - length got"
      using "1.prems"(2) by (simp add: unat_of_nat)
    then have l: "length s \<le> len - length got" and e: "s = take (length s) (drop (length got) ?f)"
      using "1.prems"(1) [unfolded pread_law_def, rule_format, OF s(1)] u by (simp_all add: add.commute)
    have g: "got @ s = take (length (got @ s)) ?f"
      using "1.prems"(5) e by (metis length_append take_add)
    have "length (got @ s) \<le> len" using l False by simp
    then show ?thesis
      using g by (rule "1.IH" [OF False s(1) s(2) "1.prems"(1,2) r])
  qed
qed

lemma die_Inr [traced_simps]: "die what path err ops = (Inr y, ops') \<longleftrightarrow> False"
  by (simp add: die_def tr_fail_def)

lemma mprotect_Inr [traced_simps]:
  "mprotect k a len prot ops = (Inr r, ops') \<longleftrightarrow>
     r = k_mprotect k ops a len prot \<and> ops' = ops @ (if raw_is_error r then [] else [Op_mprotect a len prot])"
  by (auto simp: mprotect_def Let_def)

text \<open>A fixed mapping that was not refused.\<close>

lemma map_pages_fixed:
  assumes "mmap_fixed_law k" and "flags AND L_MAP_FIXED \<noteq> 0"
    and "map_pages k a len prot flags fd pos ops = (Inr r, ops')" and "\<not> raw_is_error r"
  shows "ops' = ops @ [Op_mmap a len prot flags fd pos]"
  using assms(3,4) assms(1) [unfolded mmap_fixed_law_def, rule_format, OF assms(2)]
  by (force simp: map_pages_def Let_def)

section \<open>The operations of one segment\<close>

definition file_ops :: "int \<Rightarrow> elf64_phdr \<Rightarrow> 64 word \<Rightarrow> 64 word \<Rightarrow> string \<Rightarrow> load_op list" where
  "file_ops fd ph va ps bytes =
     (let start = trunc_page va ps; file_end = va + p_filesz ph; map_end = round_page file_end ps;
          pos = p_offset ph - (va - start); prot = elf_prot (p_flags ph);
          zero_tail = (p_memsz ph > p_filesz ph \<and> file_end AND (ps - 1) \<noteq> 0)
      in if p_filesz ph = 0 then []
         else if pos AND (ps - 1) = 0
         then Op_mmap start (map_end - start) (prot OR (if zero_tail then L_PROT_WRITE else 0)) (L_MAP_PRIVATE OR L_MAP_FIXED) fd pos
              # (if zero_tail then [Op_zero file_end (map_end - file_end)] else [])
         else [Op_mmap start (map_end - start) (L_PROT_READ OR L_PROT_WRITE)
                 (L_MAP_PRIVATE OR L_MAP_FIXED OR L_MAP_ANONYMOUS) (- 1) 0, Op_write va bytes])"

definition bss_ops :: "elf64_phdr \<Rightarrow> 64 word \<Rightarrow> 64 word \<Rightarrow> load_op list" where
  "bss_ops ph va ps =
     (let anon_start = (if p_filesz ph > 0 then round_page (va + p_filesz ph) ps else trunc_page va ps);
          anon_end = round_page (va + p_memsz ph) ps
      in if anon_end > anon_start
         then [Op_mmap anon_start (anon_end - anon_start) (elf_prot (p_flags ph))
                 (L_MAP_PRIVATE OR L_MAP_FIXED OR L_MAP_ANONYMOUS) (- 1) 0] else [])"

lemma fixed_flags [simp]:
  "(L_MAP_PRIVATE OR L_MAP_FIXED) AND L_MAP_FIXED \<noteq> 0"
  "(L_MAP_PRIVATE OR L_MAP_FIXED OR L_MAP_ANONYMOUS) AND L_MAP_FIXED \<noteq> 0"
  "(L_MAP_PRIVATE OR L_MAP_FIXED) AND L_MAP_ANONYMOUS = 0"
  "(L_MAP_PRIVATE OR L_MAP_FIXED OR L_MAP_ANONYMOUS) AND L_MAP_ANONYMOUS \<noteq> 0"
  by (simp_all add: L_MAP_PRIVATE_def L_MAP_FIXED_def L_MAP_ANONYMOUS_def)

lemma map_file_part_ops:
  assumes "mmap_fixed_law k" and "map_file_part k fd ph va ps path ops = (Inr (), ops')" and "p_filesz ph > 0"
  shows "\<exists>bytes. byte_ops ops' = byte_ops ops @ file_ops fd ph va ps bytes \<and>
           (read_full k fd (unat (p_filesz ph)) (p_offset ph) [] = Some bytes \<or>
            (p_offset ph - (va - trunc_page va ps)) AND (ps - 1) = 0) \<and> p_offset ph \<ge> va - trunc_page va ps"
  using assms(2,3)
  by (auto simp: map_file_part_def map_aligned_def copy_segment_def file_ops_def Let_def traced_simps
      split: if_splits option.splits dest!: map_pages_fixed [OF assms(1) fixed_flags(1)] map_pages_fixed [OF assms(1) fixed_flags(2)])

lemma map_bss_ops:
  assumes "mmap_fixed_law k" and "map_bss k ph va ps path ops = (Inr (), ops')"
  shows "byte_ops ops' = byte_ops ops @ bss_ops ph va ps"
  using assms(2) 
  by (auto simp: map_bss_def bss_ops_def Let_def traced_simps split: if_splits dest!: map_pages_fixed [OF assms(1) fixed_flags(2)])


lemma map_segment_ops:
  assumes "mmap_fixed_law k" and "map_segment k fd ph bias ps path ops = (Inr (), ops')"
  shows "\<exists>bytes. byte_ops ops' = byte_ops ops @ file_ops fd ph (bias + p_vaddr ph) ps bytes @ bss_ops ph (bias + p_vaddr ph) ps \<and>
           (p_filesz ph > 0 \<longrightarrow>
             (read_full k fd (unat (p_filesz ph)) (p_offset ph) [] = Some bytes \<or>
              (p_offset ph - (bias + p_vaddr ph - trunc_page (bias + p_vaddr ph) ps)) AND (ps - 1) = 0) \<and>
             p_offset ph \<ge> bias + p_vaddr ph - trunc_page (bias + p_vaddr ph) ps) \<and> p_filesz ph \<le> p_memsz ph"
proof (cases "p_filesz ph > 0")
  case True
  then obtain o1 where 1: "map_file_part k fd ph (bias + p_vaddr ph) ps path ops = (Inr (), o1)" "p_filesz ph \<le> p_memsz ph"
    and 2: "map_bss k ph (bias + p_vaddr ph) ps path o1 = (Inr (), ops')"
    using assms(2) by (auto simp: map_segment_def Let_def traced_simps split: if_splits)
  show ?thesis
    using map_file_part_ops [OF assms(1) 1(1) True] map_bss_ops [OF assms(1) 2] 1(2) by auto
next
  case False
  then have z: "p_filesz ph = 0" by (simp add: word_gt_0)
  then have "map_bss k ph (bias + p_vaddr ph) ps path ops = (Inr (), ops')"
    using assms(2) by (auto simp: map_segment_def Let_def traced_simps split: if_splits)
  with z show ?thesis
    using map_bss_ops [OF assms(1), of ph _ ps path ops ops'] by (auto simp: file_ops_def Let_def)
qed


section \<open>The image of one segment\<close>

lemma range_word: "(a::64 word) \<le> b \<Longrightarrow> x - a < b - a \<longleftrightarrow> a \<le> x \<and> x < b"
  using unsigned_less [of x, where 'a = nat] unsigned_less [of a, where 'a = nat] unsigned_less [of b, where 'a = nat]
  by (auto simp: word_less_nat_alt word_le_nat_alt unat_sub_if')

lemma trunc_page_le: "trunc_page v (2 ^ n) \<le> v"
  by (simp add: word_le_nat_alt unat_trunc_page)

lemma round_page_ge:
  assumes "n < 64" and "unat v + 2 ^ n \<le> 2 ^ 64"
  shows "v \<le> round_page v (2 ^ n)"
proof -
  have "(unat v + 2 ^ n - 1) mod 2 ^ n < 2 ^ n" by simp
  then have "unat v \<le> (unat v + 2 ^ n - 1) - (unat v + 2 ^ n - 1) mod 2 ^ n" by linarith
  then show ?thesis by (simp add: word_le_nat_alt unat_round_page [OF assms])
qed

lemma round_page_mono:
  assumes "n < 64" and "unat w + 2 ^ n \<le> 2 ^ 64" and "v \<le> w"
  shows "round_page v (2 ^ n) \<le> round_page w (2 ^ n)"
proof -
  have v: "unat v + 2 ^ n \<le> 2 ^ 64" and le: "unat v \<le> unat w" using assms by (simp_all add: word_le_nat_alt)
  show ?thesis
    unfolding word_le_nat_alt unat_round_page [OF assms(1,2)] unat_round_page [OF assms(1) v] minus_mod_eq_mult_div
    by (intro mult_le_mono2 div_le_mono) (use le in simp)
qed

lemma round_page_id:
  assumes "n < 64" and "unat v + 2 ^ n \<le> 2 ^ 64" and "v AND (2 ^ n - 1) = 0"
  shows "round_page v (2 ^ n) = v"
proof -
  obtain q where q: "unat v = 2 ^ n * q" using assms(3) by (auto simp: off_aligned)
  have "(2 ^ n * q + 2 ^ n - 1) mod 2 ^ n = (2::nat) ^ n - 1"
    using mod_mult_self2 [of "2 ^ n - 1" "2 ^ n" q] by (simp add: add.commute)
  then have "unat (round_page v (2 ^ n)) = unat v"
    unfolding unat_round_page [OF assms(1,2)] q by simp
  then show ?thesis by (simp only: word_unat_eq_iff)
qed

definition seg_fits :: "nat \<Rightarrow> elf64_phdr \<Rightarrow> 64 word \<Rightarrow> bool" where
  "seg_fits n ph va \<longleftrightarrow> n < 64 \<and> p_filesz ph \<le> p_memsz ph \<and> unat va + unat (p_memsz ph) + 2 ^ n \<le> 2 ^ 64"

lemma seg_order:
  assumes "seg_fits n ph va"
  defines "fe \<equiv> va + p_filesz ph" and "me \<equiv> va + p_memsz ph"
  shows "trunc_page va (2 ^ n) \<le> va" "va \<le> fe" "fe \<le> me" "fe \<le> round_page fe (2 ^ n)" "me \<le> round_page me (2 ^ n)"
    "round_page fe (2 ^ n) \<le> round_page me (2 ^ n)" "fe AND (2 ^ n - 1) = 0 \<Longrightarrow> round_page fe (2 ^ n) = fe"
    "x - va < p_filesz ph \<longleftrightarrow> va \<le> x \<and> x < fe" "x - va < p_memsz ph \<longleftrightarrow> va \<le> x \<and> x < me"
proof -
  have n: "n < 64" and le: "unat (p_filesz ph) \<le> unat (p_memsz ph)" and fit: "unat va + unat (p_memsz ph) + 2 ^ n \<le> 2 ^ 64"
    using assms(1) by (simp_all add: seg_fits_def word_le_nat_alt)
  have p: "0 < (2::nat) ^ n" by simp
  have ufe: "unat fe = unat va + unat (p_filesz ph)" and ume: "unat me = unat va + unat (p_memsz ph)"
    using le add_less_le_mono [OF p fit] unfolding fe_def me_def by (simp_all add: unat_plus_if')
  show 1: "va \<le> fe" "fe \<le> me" using ufe ume le by (simp_all add: word_le_nat_alt)
  have a: "unat fe + 2 ^ n \<le> 2 ^ 64" and b: "unat me + 2 ^ n \<le> 2 ^ 64" using ufe ume le fit by linarith+
  show "trunc_page va (2 ^ n) \<le> va" by (rule trunc_page_le)
  show "fe \<le> round_page fe (2 ^ n)" "me \<le> round_page me (2 ^ n)" by (rule round_page_ge [OF n a], rule round_page_ge [OF n b])
  show "round_page fe (2 ^ n) \<le> round_page me (2 ^ n)" by (rule round_page_mono [OF n b 1(2)])
  show "fe AND (2 ^ n - 1) = 0 \<Longrightarrow> round_page fe (2 ^ n) = fe" by (rule round_page_id [OF n a])
  show "x - va < p_filesz ph \<longleftrightarrow> va \<le> x \<and> x < fe" using range_word [OF 1(1)] by (simp add: fe_def)
  show "x - va < p_memsz ph \<longleftrightarrow> va \<le> x \<and> x < me" using range_word [of va me] 1 by (simp add: me_def)
qed

text \<open>The file part: the bytes of the file, then zeros up to the end of the page when there is more memory.\<close>

lemma file_ops_image:
  assumes "seg_fits n ph va" and "p_filesz ph > 0"
    and fits: "unat (p_offset ph) + unat (p_filesz ph) \<le> length (fs fd)"
    and low: "p_offset ph \<ge> va - trunc_page va (2 ^ n)"
    and bytes: "(p_offset ph - (va - trunc_page va (2 ^ n))) AND (2 ^ n - 1) = 0 \<or>
                bytes = take (unat (p_filesz ph)) (drop (unat (p_offset ph)) (fs fd))"
  defines "fe \<equiv> va + p_filesz ph"
  shows "run_ops fs (file_ops fd ph va (2 ^ n) bytes) m x =
     (if va \<le> x \<and> x < fe then Some (fs fd ! (unat (p_offset ph) + unat (x - va)))
      else if p_memsz ph > p_filesz ph \<and> fe \<le> x \<and> x < round_page fe (2 ^ n) then Some nul
      else if trunc_page va (2 ^ n) \<le> x \<and> x < round_page fe (2 ^ n) then run_ops fs (file_ops fd ph va (2 ^ n) bytes) m x
      else m x)"
proof -
  let ?st = "trunc_page va (2 ^ n)" and ?e = "round_page fe (2 ^ n)" and ?pos = "p_offset ph - (va - trunc_page va (2 ^ n))"
  note ord = seg_order [OF assms(1), folded fe_def]
  have le: "?st \<le> ?e" using ord by (meson order_trans)
  have nz: "p_filesz ph \<noteq> 0" using assms(2) by auto
  have ix: "unat (x - va) < unat (p_filesz ph)" if "va \<le> x" "x < fe"
    using ord(8) [of x] that by (simp add: word_less_nat_alt)
  show ?thesis
  proof (cases "?pos AND (2 ^ n - 1) = 0")
    case True
    have sum: "unat ?pos + unat (x - ?st) = unat (p_offset ph) + unat (x - va)" if "va \<le> x"
      using that ord(1) low by (simp add: unat_sub word_le_nat_alt)
    have fb: "file_byte (fs fd) (unat ?pos + unat (x - ?st)) = fs fd ! (unat (p_offset ph) + unat (x - va))"
      if "va \<le> x" "x < fe" using sum ix that fits by (simp add: file_byte_def)
    show ?thesis
      using ord(1-4,7) nz fb
      by (auto simp: file_ops_def Let_def True range_word [OF le] range_word [OF ord(4)] fe_def [symmetric])
  next
    case False
    then have b: "bytes = take (unat (p_filesz ph)) (drop (unat (p_offset ph)) (fs fd))" using bytes by simp
    have len: "length bytes = unat (p_filesz ph)" using b fits by simp
    have w: "unat (x - va) < length bytes \<longleftrightarrow> va \<le> x \<and> x < fe"
      using ord(8) [of x] len by (simp add: word_less_nat_alt)
    have nth: "bytes ! unat (x - va) = fs fd ! (unat (p_offset ph) + unat (x - va))" if "va \<le> x" "x < fe"
      using b ix [OF that] fits by simp
    show ?thesis
      using ord(1-4,7) nz nth False
      by (auto simp: file_ops_def Let_def range_word [OF le] w fe_def [symmetric])
  qed
qed


lemma bss_ops_image:
  assumes "seg_fits n ph va"
  defines "a \<equiv> (if p_filesz ph > 0 then round_page (va + p_filesz ph) (2 ^ n) else trunc_page va (2 ^ n))"
  shows "run_ops fs (bss_ops ph va (2 ^ n)) m x =
     (if a \<le> x \<and> x < round_page (va + p_memsz ph) (2 ^ n) then Some nul else m x)"
  by (auto simp: bss_ops_def Let_def a_def [symmetric] range_word)

lemma segment_bytes:
  assumes fit: "seg_fits n ph va" and "unat (p_offset ph) + unat (p_filesz ph) \<le> length (fs fd)"
    and low: "p_filesz ph > 0 \<Longrightarrow> p_offset ph \<ge> va - trunc_page va (2 ^ n)"
    and bytes: "p_filesz ph > 0 \<Longrightarrow> (p_offset ph - (va - trunc_page va (2 ^ n))) AND (2 ^ n - 1) = 0 \<or>
                bytes = take (unat (p_filesz ph)) (drop (unat (p_offset ph)) (fs fd))"
  defines "R \<equiv> \<lambda>m::memory. run_ops fs (bss_ops ph va (2 ^ n)) (run_ops fs (file_ops fd ph va (2 ^ n) bytes) m)"
  shows "(x - va < p_filesz ph \<longrightarrow> R m x = Some (fs fd ! (unat (p_offset ph) + unat (x - va)))) \<and>
    (p_filesz ph \<le> x - va \<and> x - va < p_memsz ph \<longrightarrow> R m x = Some nul) \<and>
    (x < trunc_page va (2 ^ n) \<or> round_page (va + p_memsz ph) (2 ^ n) \<le> x \<longrightarrow> R m x = m x)"
proof -
  let ?st = "trunc_page va (2 ^ n)" and ?fe = "va + p_filesz ph" and ?me = "va + p_memsz ph"
  let ?e = "round_page ?fe (2 ^ n)" and ?a = "round_page ?me (2 ^ n)"
  let ?F = "run_ops fs (file_ops fd ph va (2 ^ n) bytes) m x"
  note ord = seg_order [OF fit]
  have out: "(p_filesz ph \<le> x - va \<and> x - va < p_memsz ph) = (\<not> (va \<le> x \<and> x < ?fe) \<and> va \<le> x \<and> x < ?me)"
    by (simp only: ord(8,9) [symmetric] not_less)
  show ?thesis
  proof (cases "p_filesz ph > 0")
    case True
    note img = file_ops_image [where fs = fs and fd = fd and bytes = bytes and m = m and x = x, OF fit True assms(2) low [OF True] bytes [OF True]]
    have 1: "?F = Some (fs fd ! (unat (p_offset ph) + unat (x - va)))" if "va \<le> x" "x < ?fe"
      using img that by simp
    have 2: "?F = Some nul" if "\<not> x < ?fe" "x < ?me" "x < ?e"
    proof -
      have "p_filesz ph \<noteq> p_memsz ph" using that by auto
      then have "p_filesz ph < p_memsz ph" using fit by (simp add: seg_fits_def order_le_less)
      then show ?thesis using img that by (simp add: not_less)
    qed
    have 3: "?F = m x" if "x < ?st \<or> ?e \<le> x"
    proof -
      have "\<not> (?st \<le> x \<and> x < ?e)" using that by auto
      moreover have "\<not> (va \<le> x \<and> x < ?fe)" using that ord(1,4) by auto
      ultimately show ?thesis using img ord(1,2) that by (auto split: if_splits)
    qed
    have R: "R m x = (if ?e \<le> x \<and> x < ?a then Some nul else ?F)"
      using bss_ops_image [OF fit] True by (simp add: R_def)
    have c1: "?st \<le> ?e" "?st \<le> ?a" "?e \<le> ?a" using ord(1-6) by (meson order_trans)+
    have "R m x = Some (fs fd ! (unat (p_offset ph) + unat (x - va)))" if "va \<le> x" "x < ?fe"
      using that R ord(4) 1 by auto
    moreover have "R m x = Some nul" if "\<not> x < ?fe" "x < ?me"
      using that R 2 ord(5) by (cases "x < ?e") auto
    moreover have "R m x = m x" if "x < ?st \<or> ?a \<le> x"
    proof -
      have "x < ?st \<or> ?e \<le> x" "\<not> (?e \<le> x \<and> x < ?a)" using that c1 by auto
      then show ?thesis using R 3 by auto
    qed
    ultimately show ?thesis unfolding out ord(8) by blast
  next
    case False
    then have z: "p_filesz ph = 0" by (simp add: word_gt_0)
    have R: "R m x = (if ?st \<le> x \<and> x < ?a then Some nul else m x)"
      using bss_ops_image [OF fit] False z by (simp add: R_def file_ops_def Let_def)
    have "R m x = Some nul" if "va \<le> x" "x < ?me" using that R ord(1,5) by auto
    moreover have "R m x = m x" if "x < ?st \<or> ?a \<le> x" using that R by auto
    moreover have "\<not> (va \<le> x \<and> x < ?fe)" using z by auto
    ultimately show ?thesis unfolding out ord(8) by blast
  qed
qed



text \<open>A kernel with one small file that places mappings where it is asked to, page by page in the lower half.\<close>

definition loader_files :: "int \<Rightarrow> string" where
  "loader_files fd = (if fd = 3 then ''0123456789abcdef'' else [])"

definition loader_kernel :: kernel where
  "loader_kernel = \<lparr>k_open = (\<lambda>_. 3),
     k_pread = (\<lambda>fd len pos. Inr (take (unat len) (drop (unat pos) (loader_files fd)))),
     k_mmap = (\<lambda>ops a len prot flags fd pos. 
       if len > 0x4000000000000000 then - 12
       else if a = 0 \<and> flags AND L_MAP_FIXED = 0 then 0x10000
       else if a AND 0xFFF = 0 \<and> a \<le> 0x4000000000000000 then a else - 22), k_mprotect = (\<lambda>_ _ _ _. 0)\<rparr>"

lemma loader_kernel_laws: "mmap_fixed_law loader_kernel" "pread_law loader_kernel loader_files"
  by (auto simp: mmap_fixed_law_def pread_law_def loader_kernel_def raw_is_error_def min_def)

definition loader_segment :: "64 word \<Rightarrow> elf64_phdr" where
  "loader_segment pos = \<lparr>p_type = 1, p_flags = 6, p_offset = pos, p_vaddr = 0x400002, p_filesz = 5, p_memsz = 0x2000\<rparr>"


end
