(* ===== verification/Loader_Confined.thy ===== *)
theory Loader_Confined
  imports Loader_Memory
begin

text \<open>
  Where the guest loader writes: every mapping of an image lies in the span reserved for it, provided
  no program header wraps around the address space; the check the loader makes for that is not complete.
\<close>

unbundle bit_operations_syntax

section \<open>Pages of a shifted segment\<close>

lemma unat_trunc_page_mod [simp]: "unat (trunc_page v (2 ^ n)) mod 2 ^ n = 0"
  by (simp add: unat_trunc_page minus_mod_eq_mult_div)

lemma trunc_page_shift:
  assumes "unat w = unat v + d" and "d mod 2 ^ n = 0"
  shows "unat (trunc_page w (2 ^ n)) = unat (trunc_page v (2 ^ n)) + d"
proof -
  obtain q where d: "d = 2 ^ n * q" using assms(2) by auto
  have "unat w mod 2 ^ n = unat v mod 2 ^ n" unfolding assms(1) d by simp
  then show ?thesis unfolding unat_trunc_page assms(1) by simp
qed

lemma round_page_shift:
  assumes "unat w = unat v + d" and "d mod 2 ^ n = 0" and "n < 64" and "unat w + 2 ^ n \<le> 2 ^ 64"
  shows "unat (round_page w (2 ^ n)) = unat (round_page v (2 ^ n)) + d"
proof -
  obtain q where d: "d = 2 ^ n * q" using assms(2) by auto
  have v: "unat v + 2 ^ n \<le> 2 ^ 64" using assms by simp
  have e: "unat w + 2 ^ n - 1 = (unat v + 2 ^ n - 1) + 2 ^ n * q"
    using one_le_power [of "2::nat" n] unfolding assms(1) d by linarith
  show ?thesis
    unfolding unat_round_page [OF assms(3,4)] unat_round_page [OF assms(3) v] e minus_mod_eq_mult_div
    by (simp add: d add_mult_distrib2)
qed

section \<open>The scan of the program headers\<close>

abbreviation loadable :: "elf64_phdr \<Rightarrow> bool" where
  "loadable ph \<equiv> p_type ph = L_PT_LOAD \<and> p_memsz ph \<noteq> 0"

lemma scan_headers_span:
  assumes "scan_headers ps phs h = Some h'"
  shows "hs_lo h' \<le> hs_lo h \<and> hs_hi h \<le> hs_hi h' \<and>
    (\<forall>ph\<in>set phs. loadable ph \<longrightarrow> hs_lo h' \<le> trunc_page (p_vaddr ph) ps \<and>
       trunc_page (p_vaddr ph) ps \<le> round_page (p_vaddr ph + p_memsz ph) ps \<and>
       round_page (p_vaddr ph + p_memsz ph) ps \<le> hs_hi h')"
  using assms
proof (induction phs arbitrary: h)
  case (Cons ph phs)
  show ?case
  proof (cases "loadable ph")
    case True
    let ?s = "trunc_page (p_vaddr ph) ps" and ?e = "round_page (p_vaddr ph + p_memsz ph) ps"
    let ?h = "h\<lparr>hs_lo := (if ?s < hs_lo h then ?s else hs_lo h), hs_hi := (if ?e > hs_hi h then ?e else hs_hi h),
                hs_loads := hs_loads h + 1\<rparr>"
    have "?s \<le> ?e" "scan_headers ps phs ?h = Some h'" using Cons.prems True by (auto simp: Let_def split: if_splits)
    then show ?thesis using Cons.IH [of ?h] by (auto split: if_splits)
  next
    case False
    then obtain h1 where "scan_headers ps phs h1 = Some h'" "hs_lo h1 = hs_lo h" "hs_hi h1 = hs_hi h"
      using Cons.prems by (fastforce split: if_splits)
    then show ?thesis using Cons.IH [of h1] False by auto
  qed
qed simp

lemma scan_headers_lo:
  assumes "scan_headers (2 ^ n) phs h = Some h'" and "unat (hs_lo h) mod 2 ^ n = 0 \<or> hs_lo h = - 1"
  shows "unat (hs_lo h') mod 2 ^ n = 0 \<or> hs_lo h' = - 1"
  using assms
proof (induction phs arbitrary: h)
  case (Cons ph phs)
  then show ?case by (fastforce simp: Let_def split: if_splits)
qed simp

lemma scan_headers_loads:
  assumes "scan_headers ps phs h = Some h'" and "hs_loads h' \<noteq> hs_loads h"
  shows "\<exists>ph\<in>set phs. loadable ph"
  using assms
proof (induction phs arbitrary: h)
  case (Cons ph phs)
  show ?case
  proof (cases "loadable ph")
    case False
    then obtain h1 where "scan_headers ps phs h1 = Some h'" "hs_loads h1 = hs_loads h"
      using Cons.prems by (fastforce split: if_splits)
    then show ?thesis using Cons.IH [of h1] Cons.prems by auto
  qed simp
qed simp

lemma scan_span_aligned:
  assumes "scan_headers (2 ^ n) phs scan_start = Some h" and "hs_loads h \<noteq> 0"
  shows "unat (hs_lo h) mod 2 ^ n = 0" and "hs_lo h \<le> hs_hi h"
proof -
  obtain ph where ph: "ph \<in> set phs" "loadable ph"
    using scan_headers_loads [OF assms(1)] assms(2) by (auto simp: scan_start_def)
  then have b: "hs_lo h \<le> trunc_page (p_vaddr ph) (2 ^ n)"
    "trunc_page (p_vaddr ph) (2 ^ n) \<le> round_page (p_vaddr ph + p_memsz ph) (2 ^ n)"
    "round_page (p_vaddr ph + p_memsz ph) (2 ^ n) \<le> hs_hi h"
    using scan_headers_span [OF assms(1)] by auto
  then show "hs_lo h \<le> hs_hi h" by (meson order_trans)
  show "unat (hs_lo h) mod 2 ^ n = 0"
  proof (cases "hs_lo h = - 1")
    case True
    then have "trunc_page (p_vaddr ph) (2 ^ n) = hs_lo h" using b(1) by (simp add: word_order.extremum_unique)
    then show ?thesis using unat_trunc_page_mod [of "p_vaddr ph" n] by metis
  next
    case False
    then show ?thesis using scan_headers_lo [OF assms(1)] by (simp add: scan_start_def)
  qed
qed


section \<open>What a segment leaves alone\<close>

lemma read_full_length:
  assumes "pread_law k fs" and "read_full k fd len pos got = Some bytes" and "length got \<le> len" and "len < 2 ^ 64"
  shows "length bytes = len"
  using assms
proof (induction k fd len pos got rule: read_full.induct)
  case (1 k fd len pos got)
  show ?case
  proof (cases "length got \<ge> len")
    case True
    then show ?thesis using "1.prems" by (simp add: read_full.simps)
  next
    case False
    then obtain s where s: "k_pread k fd (of_nat (len - length got)) (pos + of_nat (length got)) = Inr s" "s \<noteq> []"
      and r: "read_full k fd len pos (got @ s) = Some bytes"
      using "1.prems"(2) [unfolded read_full.simps [of k fd len pos got]] by (auto split: sum.splits if_splits)
    have "length s \<le> len - length got"
      using "1.prems"(1) [unfolded pread_law_def, rule_format, OF s(1)] "1.prems"(4) by (simp add: unat_of_nat)
    then have "length (got @ s) \<le> len" using False by simp
    then show ?thesis using "1.prems"(4) by (rule "1.IH" [OF False s "1.prems"(1) r])
  qed
qed

lemma file_ops_frame:
  assumes "seg_fits n ph va" and "p_filesz ph > 0"
    and bytes: "(p_offset ph - (va - trunc_page va (2 ^ n))) AND (2 ^ n - 1) = 0 \<or> length bytes = unat (p_filesz ph)"
    and x: "x < trunc_page va (2 ^ n) \<or> round_page (va + p_filesz ph) (2 ^ n) \<le> x"
  shows "run_ops fs (file_ops fd ph va (2 ^ n) bytes) m x = m x"
proof -
  let ?st = "trunc_page va (2 ^ n)" and ?fe = "va + p_filesz ph"
  note ord = seg_order [OF assms(1)]
  have le: "?st \<le> round_page ?fe (2 ^ n)" using ord by (meson order_trans)
  have out: "\<not> (?st \<le> x \<and> x < round_page ?fe (2 ^ n))" "\<not> (?fe \<le> x \<and> x < round_page ?fe (2 ^ n))" "\<not> (va \<le> x \<and> x < ?fe)"
    using x ord(1,2,4) by auto
  have w: "unat (x - va) < unat (p_filesz ph) \<longleftrightarrow> va \<le> x \<and> x < ?fe"
    using ord(8) [of x] by (simp add: word_less_nat_alt)
  show ?thesis
    using out bytes assms(2) by (auto simp: file_ops_def Let_def range_word [OF le] range_word [OF ord(4)] w)
qed

lemma map_segment_frame:
  assumes "mmap_fixed_law k" and "pread_law k fs" and "n < 64"
    and va: "va = bias + p_vaddr ph" and fit: "unat va + unat (p_memsz ph) + 2 ^ n \<le> 2 ^ 64"
    and "map_segment k fd ph bias (2 ^ n) path ops = (Inr (), ops')"
    and x: "x < trunc_page va (2 ^ n) \<or> round_page (va + p_memsz ph) (2 ^ n) \<le> x"
  shows "run_ops fs ops' m x = run_ops fs ops m x"
proof -
  obtain bytes where ops: "byte_ops ops' = byte_ops ops @ file_ops fd ph va (2 ^ n) bytes @ bss_ops ph va (2 ^ n)"
    and rd: "p_filesz ph > 0 \<longrightarrow> read_full k fd (unat (p_filesz ph)) (p_offset ph) [] = Some bytes \<or>
              (p_offset ph - (va - trunc_page va (2 ^ n))) AND (2 ^ n - 1) = 0" and le: "p_filesz ph \<le> p_memsz ph"
    using map_segment_ops [OF assms(1,6)] va by blast
  have sf: "seg_fits n ph va" using assms(3) fit le by (simp add: seg_fits_def)
  note ord = seg_order [OF sf]
  have run: "run_ops fs ops' m = run_ops fs (bss_ops ph va (2 ^ n)) (run_ops fs (file_ops fd ph va (2 ^ n) bytes) (run_ops fs ops m))"
    using ops run_ops_byte_ops [of fs ops' m] run_ops_byte_ops [of fs ops m] by simp
  have len: "length bytes = unat (p_filesz ph)" if "read_full k fd (unat (p_filesz ph)) (p_offset ph) [] = Some bytes"
    using read_full_length [OF assms(2) that] unsigned_less [of "p_filesz ph", where 'a = nat] by simp
  let ?a = "if p_filesz ph > 0 then round_page (va + p_filesz ph) (2 ^ n) else trunc_page va (2 ^ n)"
  have "trunc_page va (2 ^ n) \<le> ?a" using ord(1,2,4) by (auto intro: order_trans)
  then have bss: "run_ops fs ops' m x = run_ops fs (file_ops fd ph va (2 ^ n) bytes) (run_ops fs ops m) x"
    unfolding run bss_ops_image [OF sf] using x by auto
  show ?thesis
  proof (cases "p_filesz ph > 0")
    case True
    have "x < trunc_page va (2 ^ n) \<or> round_page (va + p_filesz ph) (2 ^ n) \<le> x" using x ord(6) by auto
    then show ?thesis unfolding bss by (intro file_ops_frame [OF sf True]) (use rd True len in auto)
  next
    case False
    then have "p_filesz ph = 0" by (simp add: word_gt_0)
    then show ?thesis unfolding bss by (simp add: file_ops_def Let_def)
  qed
qed

section \<open>The span of an image\<close>

text \<open>A mapping the kernel makes is aligned and lies in the lower half of the address space.\<close>

definition mmap_place_law :: "nat \<Rightarrow> kernel \<Rightarrow> bool" where
  "mmap_place_law n k \<longleftrightarrow> (\<forall>ops a len prot flags fd pos. let r = k_mmap k ops a len prot flags fd pos in
     \<not> raw_is_error (sint r) \<longrightarrow> unat r mod 2 ^ n = 0 \<and> unat r + unat len \<le> 2 ^ 63)"

text \<open>A segment of the image, at its place in the span.\<close>

lemma segment_in_span:
  assumes n: "n < 63" and lo: "unat lo mod 2 ^ n = 0" and base: "unat base mod 2 ^ n = 0" "unat base + unat (hi - lo) \<le> 2 ^ 63"
    and s: "lo \<le> trunc_page v (2 ^ n)" and e: "round_page (v + mz) (2 ^ n) \<le> hi" and nw: "unat v + unat mz + 2 ^ n \<le> 2 ^ 64"
    and x: "\<not> x - base < hi - lo" and le: "lo \<le> hi"
  defines "va \<equiv> base - lo + v"
  shows "unat va + unat mz + 2 ^ n \<le> 2 ^ 64" and "x < trunc_page va (2 ^ n) \<or> round_page (va + mz) (2 ^ n) \<le> x"
proof -
  let ?w = "v - lo"
  have p: "1 \<le> (2::nat) ^ n" "(2::nat) ^ n \<le> 2 ^ 63" "n < 64" using n power_increasing [of n 63 "2::nat"] by simp_all
  have lv: "lo \<le> v" using s trunc_page_le by (rule order_trans)
  have w: "unat v = unat ?w + unat lo" using lv by (simp add: unat_sub word_le_nat_alt)
  have nw': "unat v + unat mz < 2 ^ 64" using nw p(1) by linarith
  then have vm: "unat (v + mz) = unat v + unat mz" and wm: "unat (?w + mz) = unat ?w + unat mz"
    using w by (simp_all add: unat_plus_if')
  have vmp: "unat (v + mz) + 2 ^ n \<le> 2 ^ 64" and wmp: "unat (?w + mz) + 2 ^ n \<le> 2 ^ 64" using nw vm wm w by simp_all
  have r1: "unat (round_page (v + mz) (2 ^ n)) = unat (round_page (?w + mz) (2 ^ n)) + unat lo"
    by (rule round_page_shift [OF _ lo p(3) vmp]) (simp add: vm wm w)
  have hl: "unat (hi - lo) = unat hi - unat lo" using le by (simp add: unat_sub word_le_nat_alt)
  have r2: "unat (round_page (?w + mz) (2 ^ n)) \<le> unat hi - unat lo" using e r1 by (simp add: word_le_nat_alt)
  have "?w + mz \<le> round_page (?w + mz) (2 ^ n)" by (rule round_page_ge [OF p(3) wmp])
  then have wh: "unat ?w + unat mz \<le> unat hi - unat lo" using r2 wm by (simp add: word_le_nat_alt)
  have va: "unat va = unat ?w + unat base"
  proof -
    have "va = ?w + base" by (simp add: va_def)
    then show ?thesis using wh base(2) hl by (simp add: unat_plus_if')
  qed
  show fit: "unat va + unat mz + 2 ^ n \<le> 2 ^ 64" using va wh base(2) hl p(2) by simp
  have vam: "unat (va + mz) = unat (?w + mz) + unat base"
  proof -
    have "unat va + unat mz < 2 ^ 64" using fit p(1) by linarith
    then show ?thesis using va wm by (simp add: unat_plus_if')
  qed
  have "unat (va + mz) + 2 ^ n \<le> 2 ^ 64" using vam va wm fit by simp
  then have r3: "unat (round_page (va + mz) (2 ^ n)) = unat (round_page (?w + mz) (2 ^ n)) + unat base"
    by (rule round_page_shift [OF vam base(1) p(3)])
  have t: "unat (trunc_page va (2 ^ n)) = unat (trunc_page ?w (2 ^ n)) + unat base" by (rule trunc_page_shift [OF va base(1)])
  have "unat base + unat (hi - lo) \<le> 2 ^ 64" using base(2) by simp
  then have "unat x < unat base \<or> unat base + (unat hi - unat lo) \<le> unat x"
    using x hl by (simp add: in_range not_less) linarith
  then show "x < trunc_page va (2 ^ n) \<or> round_page (va + mz) (2 ^ n) \<le> x"
    unfolding word_less_nat_alt word_le_nat_alt r3 t using r2 by linarith
qed


lemma map_segments_frame:
  assumes law: "mmap_fixed_law k" "pread_law k fs" and n: "n < 63"
    and lo: "unat lo mod 2 ^ n = 0" and base: "unat base mod 2 ^ n = 0" "unat base + unat (hi - lo) \<le> 2 ^ 63" and le: "lo \<le> hi"
    and segs: "\<forall>ph\<in>set phs. loadable ph \<longrightarrow> lo \<le> trunc_page (p_vaddr ph) (2 ^ n) \<and> round_page (p_vaddr ph + p_memsz ph) (2 ^ n) \<le> hi \<and>
                  unat (p_vaddr ph) + unat (p_memsz ph) + 2 ^ n \<le> 2 ^ 64"
    and run: "map_segments k fd path (base - lo) (2 ^ n) phoff ph_bytes has_seg phs addr ops = (Inr addr', ops')"
    and x: "\<not> x - base < hi - lo"
  shows "run_ops fs ops' m x = run_ops fs ops m x"
  using segs run
proof (induction phs arbitrary: addr ops)
  case (Cons ph phs)
  show ?case
  proof (cases "loadable ph")
    case True
    then obtain o1 addr1 where 1: "map_segment k fd ph (base - lo) (2 ^ n) path ops = (Inr (), o1)"
      and 2: "map_segments k fd path (base - lo) (2 ^ n) phoff ph_bytes has_seg phs addr1 o1 = (Inr addr', ops')"
      using Cons.prems(2) by (auto simp: traced_simps)
    have s: "lo \<le> trunc_page (p_vaddr ph) (2 ^ n)" "round_page (p_vaddr ph + p_memsz ph) (2 ^ n) \<le> hi"
      "unat (p_vaddr ph) + unat (p_memsz ph) + 2 ^ n \<le> 2 ^ 64" using Cons.prems(1) True by auto
    note span = segment_in_span [OF n lo base s x le]
    have "n < 64" using n by simp
    then have "run_ops fs o1 m x = run_ops fs ops m x"
      by (rule map_segment_frame [OF law _ refl span(1) 1 span(2)])
    then show ?thesis using Cons.IH [OF _ 2] Cons.prems(1) by simp
  next
    case False
    then show ?thesis using Cons.IH Cons.prems by auto
  qed
qed (simp add: traced_simps)

lemma map_pages_place:
  assumes "map_pages k a len prot flags fd pos ops = (Inr r, ops')" and "\<not> raw_is_error r" and "mmap_place_law n k"
  shows "unat (word_of_int r :: 64 word) mod 2 ^ n = 0 \<and> unat (word_of_int r :: 64 word) + unat len \<le> 2 ^ 63 \<and>
    ops' = ops @ [Op_mmap (word_of_int r) len prot flags fd pos]"
proof -
  let ?r = "k_mmap k ops a len prot flags fd pos"
  have r: "r = sint ?r" and o: "ops' = ops @ [Op_mmap ?r len prot flags fd pos]"
    using assms(1,2) by (auto simp: map_pages_def Let_def)
  have "word_of_int r = ?r" using r by simp
  moreover have "unat ?r mod 2 ^ n = 0 \<and> unat ?r + unat len \<le> 2 ^ 63"
    using assms(2,3) r unfolding mmap_place_law_def Let_def by blast
  ultimately show ?thesis using o by simp
qed

lemma reserve_ops:
  assumes "reserve k etype lo hi path ops = (Inr (bias, base), ops')" and "mmap_place_law n k"
  shows "bias = base - lo" and "unat base mod 2 ^ n = 0" and "unat base + unat (hi - lo) \<le> 2 ^ 63"
    and "\<exists>prot flags. ops' = ops @ [Op_mmap base (hi - lo) prot flags (- 1) 0]"
  using assms(1)
  by (auto simp: reserve_def traced_simps split: if_splits dest!: map_pages_place [OF _ _ assms(2)])

text \<open>
  C13: loading an image changes no byte outside the span reserved for it, when none of its segments wraps
  around the address space.
\<close>

theorem load_confined_to_span:
  assumes "mmap_fixed_law k" and "pread_law k fs" and "mmap_place_law n k" and "n < 63"
    and "scan_headers (2 ^ n) phs scan_start = Some h"
    and "list_all (\<lambda>ph. loadable ph \<longrightarrow> unat (p_vaddr ph) + unat (p_memsz ph) + 2 ^ n \<le> 2 ^ 64) phs"
    and "load_mapped k fd path is_interp (2 ^ n) eh phs h ops = (Inr im, ops')"
    and "\<not> x - im_base im < hs_hi h - hs_lo h"
  shows "run_ops fs ops' m x = run_ops fs ops m x"
proof -
  obtain bias base o1 addr where r: "reserve k (e_type eh) (hs_lo h) (hs_hi h) path ops = (Inr (bias, base), o1)"
    and s: "map_segments k fd path bias (2 ^ n) (e_phoff eh) (of_nat (unat (e_phnum eh) * unat (e_phentsize eh)))
              (hs_phdr_seg h \<noteq> None) phs 0 o1 = (Inr addr, ops')"
    and im: "im_base im = base" and loads: "hs_loads h \<noteq> 0"
    using assms(7) by (auto simp: load_mapped_def traced_simps split: if_splits prod.splits)
  note res = reserve_ops [OF r assms(3)]
  have x: "\<not> x - base < hs_hi h - hs_lo h" using assms(8) im by simp
  have "run_ops fs ops' m x = run_ops fs o1 m x"
    by (rule map_segments_frame [OF assms(1,2,4) scan_span_aligned(1) [OF assms(5) loads] res(2,3) scan_span_aligned(2) [OF assms(5) loads] _ s [unfolded res(1)] x])
      (use scan_headers_span [OF assms(5)] assms(6) in \<open>auto simp: list_all_iff\<close>)
  also have "\<dots> = run_ops fs ops m x" using res(4) x by auto
  finally show ?thesis .
qed


text \<open>
  A position-independent image with two segments, placed at the address the sample kernel gives
  out, and an image whose second segment claims nearly the whole address space.
\<close>

definition two_segments :: "64 word \<Rightarrow> 64 word \<Rightarrow> elf64_phdr list" where
  "two_segments fz mz =
     [\<lparr>p_type = 1, p_flags = 5, p_offset = 0, p_vaddr = 0, p_filesz = 16, p_memsz = 0x3000\<rparr>,
      \<lparr>p_type = 1, p_flags = 5, p_offset = 0, p_vaddr = 0x1000, p_filesz = fz, p_memsz = mz\<rparr>]"

definition dyn_header :: elf64_ehdr where
  "dyn_header = \<lparr>e_ident = [], e_type = L_ET_DYN, e_machine = 62, e_entry = 0, e_phoff = 64, e_phentsize = 56, e_phnum = 2\<rparr>"

definition two_scanned :: header_scan where
  "two_scanned = \<lparr>hs_lo = 0, hs_hi = 0x3000, hs_loads = 2, hs_phdr_seg = None, hs_has_interp = False\<rparr>"

definition two_loaded :: "64 word \<Rightarrow> 64 word \<Rightarrow> (string + loaded_image) \<times> load_op list" where
  "two_loaded fz mz = load_mapped loader_kernel 3 ''/bin/sh'' False (2 ^ 12) dyn_header (two_segments fz mz) two_scanned []"

lemma loader_kernel_place: "mmap_place_law 12 loader_kernel"
  using off_aligned [of _ 12] by (auto simp: mmap_place_law_def loader_kernel_def raw_is_error_def Let_def word_le_nat_alt word_less_nat_alt)

theorem load_confined_to_span_witness:
  "\<exists>im ops'. scan_headers (2 ^ 12) (two_segments 0x1000 0x1800) scan_start = Some two_scanned \<and>
     two_loaded 0x1000 0x1800 = (Inr im, ops') \<and> im_base im = 0x10000 \<and>
     run_ops loader_files ops' (\<lambda>_. None) 0x13000 = None"
proof -
  have s: "scan_headers (2 ^ 12) (two_segments 0x1000 0x1800) scan_start = Some two_scanned" by code_simp
  have "(case fst (two_loaded 0x1000 0x1800) of Inl e \<Rightarrow> 0 | Inr im \<Rightarrow> im_base im) = 0x10000" by code_simp
  then obtain im ops' where r: "two_loaded 0x1000 0x1800 = (Inr im, ops')" and b: "im_base im = 0x10000"
    by (cases "two_loaded 0x1000 0x1800") (auto split: sum.splits)
  have "\<not> 0x13000 - im_base im < hs_hi two_scanned - hs_lo two_scanned" using b by (simp add: two_scanned_def)
  then have "run_ops loader_files ops' (\<lambda>_. None) 0x13000 = run_ops loader_files [] (\<lambda>_. None) 0x13000"
    by (intro load_confined_to_span [OF loader_kernel_laws loader_kernel_place _ s _ r [unfolded two_loaded_def]])
      (simp_all add: two_segments_def)
  then show ?thesis using s r b by auto
qed

text \<open>
  C38: the test \<open>e < s\<close> of the scan does not see a memory size close to the whole address space.  The image
  below passes it, is loaded, and a page outside the reserved span has been replaced.
\<close>

theorem wrapped_segment_leaves_span:
  "\<exists>im ops'. scan_headers (2 ^ 12) (two_segments 0x10000 (- 1)) scan_start = Some two_scanned \<and>
     two_loaded 0x10000 (- 1) = (Inr im, ops') \<and> \<not> 0x18000 - im_base im < hs_hi two_scanned - hs_lo two_scanned \<and>
     run_ops loader_files ops' (\<lambda>_. None) 0x18000 \<noteq> None"
proof -
  let ?ops = "[Op_mmap 0x10000 0x3000 0 34 (- 1) 0, Op_mmap 0x10000 0x1000 7 18 3 0, Op_zero 0x10010 0xFF0, Op_mprotect 0x10000 0x1000 5,
    Op_mmap 0x11000 0x2000 5 50 (- 1) 0, Op_mmap 0x11000 0x10000 5 18 3 0]"
  have s: "scan_headers (2 ^ 12) (two_segments 0x10000 (- 1)) scan_start = Some two_scanned" by code_simp
  have "(case two_loaded 0x10000 (- 1) of (Inl e, ops) \<Rightarrow> None | (Inr im, ops) \<Rightarrow> Some (im_base im, ops)) = Some (0x10000, ?ops)"
    by code_simp
  then obtain im where r: "two_loaded 0x10000 (- 1) = (Inr im, ?ops)" and b: "im_base im = 0x10000"
    by (auto split: prod.splits sum.splits)
  have "run_ops loader_files ?ops (\<lambda>_. None) 0x18000 \<noteq> None" by simp
  moreover have "\<not> 0x18000 - im_base im < hs_hi two_scanned - hs_lo two_scanned" using b by (simp add: two_scanned_def)
  ultimately show ?thesis using s r by blast
qed

end
