(* ===== verification/Loader_Start.thy ===== *)
theory Loader_Start
  imports Loader_Confined
begin

text \<open>
  What the guest finds when the loader jumps to it: the page size the loader worked with, the
  entry point, and the stack with its auxiliary vector.
\<close>

unbundle bit_operations_syntax

section \<open>The page size\<close>

lemma odd_part: "(0::nat) < u \<Longrightarrow> \<exists>n q. u = 2 ^ n * (2 * q + 1)"
proof (induction u rule: less_induct)
  case (less u)
  show ?case
  proof (cases "even u")
    case True
    then obtain v where v: "u = 2 * v" by blast
    then obtain n q where "v = 2 ^ n * (2 * q + 1)" using less by (metis One_nat_def Suc_1 lessI mult_pos_pos n_less_m_mult_n nat_0_less_mult_iff)
    then have "u = 2 ^ Suc n * (2 * q + 1)" using v by simp
    then show ?thesis by blast
  next
    case False
    then obtain q where "u = 2 * q + 1" by (blast elim: oddE)
    then have "u = 2 ^ 0 * (2 * q + 1)" by simp
    then show ?thesis by blast
  qed
qed

lemma power_of_two_test:
  assumes "(v::64 word) \<noteq> 0" and "v AND (v - 1) = 0"
  shows "\<exists>n<64. v = 2 ^ n"
proof -
  have pos: "0 < unat v" using assms(1) by (simp add: unat_gt_0)
  then obtain n q where u: "unat v = 2 ^ n * (2 * q + 1)" using odd_part by blast
  have p: "0 < (2::nat) ^ n" by simp
  have u1: "unat (v - 1) = unat v - 1" using assms(1) by (simp add: unat_minus_one)
  have d0: "drop_bit (Suc n) (unat v) = q"
  proof -
    have "unat v = 2 ^ n + q * 2 ^ Suc n" unfolding u by (simp add: algebra_simps)
    then show ?thesis unfolding drop_bit_eq_div by (simp add: div_mult_self1)
  qed
  have d1: "drop_bit (Suc n) (unat v - 1) = q"
  proof -
    have "unat v - 1 = (2 ^ n - 1) + q * 2 ^ Suc n" unfolding u using p by (simp add: algebra_simps)
    moreover have "(2 ^ n - 1) div (2::nat) ^ Suc n = 0" using p by (simp add: less_imp_diff_less)
    moreover have "((2 ^ n - 1) + q * 2 ^ Suc n) div (2::nat) ^ Suc n = q + (2 ^ n - 1) div 2 ^ Suc n"
      by (rule div_mult_self1) simp
    ultimately show ?thesis unfolding drop_bit_eq_div by (simp only: add_0_right)
  qed
  have "unat v AND unat (v - 1) = 0" using assms(2) by (metis unsigned_and_eq unsigned_0)
  then have "drop_bit (Suc n) (unat v AND (unat v - 1)) = 0" unfolding u1 by simp
  then have "q = 0" unfolding drop_bit_and d0 d1 by simp
  then have v: "unat v = 2 ^ n" using u by simp
  then have "(2::nat) ^ n < 2 ^ 64" using unsigned_less [of v, where 'a = nat] by simp
  then have n: "n < 64" by (rule power_less_imp_less_exp [rotated]) simp
  then have "unat v = unat (2 ^ n :: 64 word)" using v unat_page by simp
  then show ?thesis using n by (metis word_unat_eq_iff)
qed

lemma page_size_power:
  "\<exists>n<64. ps = 2 ^ n \<Longrightarrow> \<exists>n<64. auxv_page_size ps a = 2 ^ n"
proof (induction ps a rule: auxv_page_size.induct)
  case (1 ps t v a)
  then show ?case using power_of_two_test [of v] by auto
qed simp_all

section \<open>The stack\<close>

text \<open>The value of a type in an auxiliary vector.\<close>

fun aux_lookup :: "64 word \<Rightarrow> 64 word list \<Rightarrow> 64 word option" where
  "aux_lookup t (u # v # a) = (if u = L_AT_NULL then None else if u = t then Some v else aux_lookup t a)"
| "aux_lookup t a = None"

lemma aux_lookup_patch:
  "aux_lookup t (patch_auxv prog at_base fn a) = map_option (aux_value prog at_base fn t) (aux_lookup t a)"
  by (induction prog at_base fn a rule: patch_auxv.induct) auto

lemma length_patch_auxv [simp]: "length (patch_auxv prog at_base fn a) = length a"
  by (induction prog at_base fn a rule: patch_auxv.induct) auto

lemma auxv_split:
  assumes "auxv_of sp \<noteq> []"
  obtains pre where "sp = pre @ auxv_of sp" and "\<And>b. auxv_of (pre @ b) = b"
proof -
  let ?k = "unat (hd sp) + 2"
  let ?d = "drop ?k sp"
  have ne: "dropWhile (\<lambda>w. w \<noteq> 0) ?d \<noteq> []" using assms unfolding auxv_of_def by (metis list.sel(2))
  then have zero: "dropWhile (\<lambda>w. w \<noteq> 0) ?d = 0 # auxv_of sp"
    using hd_dropWhile [of "\<lambda>w. w \<noteq> 0" ?d] unfolding auxv_of_def by (metis list.collapse)
  let ?pre = "take ?k sp @ takeWhile (\<lambda>w. w \<noteq> 0) ?d @ [0]"
  have long: "?k < length sp" using ne by (metis dropWhile.simps(1) drop_all not_le)
  then obtain w sp' where sp: "sp = w # sp'" by (cases sp) auto
  have 1: "sp = ?pre @ auxv_of sp"
    using zero takeWhile_dropWhile_id [of "\<lambda>w. w \<noteq> 0" ?d] append_take_drop_id [of ?k sp] by simp
  have "auxv_of (?pre @ b) = b" for b
  proof -
    have h: "hd (?pre @ b) = hd sp" using sp by simp
    have "drop ?k (?pre @ b) = takeWhile (\<lambda>w. w \<noteq> 0) ?d @ 0 # b" using long by simp
    moreover have "dropWhile (\<lambda>w. w \<noteq> 0) (takeWhile (\<lambda>w. w \<noteq> 0) ?d @ 0 # b) = 0 # b"
      by (subst dropWhile_append2) (auto dest: set_takeWhileD)
    ultimately show ?thesis unfolding auxv_of_def h by simp
  qed
  with 1 show thesis by (rule that)
qed

lemma patch_stack_shape:
  "auxv_of (patch_stack prog at_base fn sp) = patch_auxv prog at_base fn (auxv_of sp)"
  "length (patch_stack prog at_base fn sp) = length sp"
  "take (length sp - length (auxv_of sp)) (patch_stack prog at_base fn sp) = take (length sp - length (auxv_of sp)) sp"
proof -
  consider (none) "auxv_of sp = []" | (some) pre where "sp = pre @ auxv_of sp" "\<And>b. auxv_of (pre @ b) = b"
    using auxv_split by metis
  then have "auxv_of (patch_stack prog at_base fn sp) = patch_auxv prog at_base fn (auxv_of sp) \<and>
    length (patch_stack prog at_base fn sp) = length sp \<and>
    take (length sp - length (auxv_of sp)) (patch_stack prog at_base fn sp) = take (length sp - length (auxv_of sp)) sp"
  proof cases
    case none
    then show ?thesis by (simp add: patch_stack_def)
  next
    case some
    have len: "length sp - length (auxv_of sp) = length pre" using some(1) by (metis add_diff_cancel_right' length_append)
    have "take (length pre) sp = pre" using some(1) by (metis append_eq_conv_conj)
    then show ?thesis using some len by (simp add: patch_stack_def) (metis length_append)
  qed
  then show "auxv_of (patch_stack prog at_base fn sp) = patch_auxv prog at_base fn (auxv_of sp)"
    "length (patch_stack prog at_base fn sp) = length sp"
    "take (length sp - length (auxv_of sp)) (patch_stack prog at_base fn sp) = take (length sp - length (auxv_of sp)) sp"
    by simp_all
qed

section \<open>The jump\<close>



text \<open>A small static program: one segment that holds the file itself.\<close>

definition tiny_elf :: string where
  "tiny_elf = [CHR 0x7F, CHR ''E'', CHR ''L'', CHR ''F'', CHR 0x02, CHR 0x01] @ replicate 10 nul @
     [CHR 0x03, nul, CHR 0x3E, nul] @ replicate 4 nul @ CHR 0x10 # replicate 7 nul @ CHR 0x40 # replicate 7 nul @
     replicate 14 nul @ [CHR 0x38, nul, CHR 0x01, nul] @ replicate 6 nul @
     CHR 0x01 # replicate 3 nul @ CHR 0x05 # replicate 3 nul @ replicate 8 nul @ replicate 8 nul @ replicate 8 nul @
     CHR 0x78 # replicate 7 nul @ CHR 0x78 # replicate 7 nul @ replicate 8 nul"

definition start_kernel :: kernel where
  "start_kernel = loader_kernel\<lparr>k_pread := (\<lambda>fd len pos. Inr (take (unat len) (drop (unat pos) tiny_elf)))\<rparr>"

definition start_request :: string where
  "start_request = header_bytes \<lparr>lh_magic = VHDP_LOAD_MAGIC, lh_version = VHDP_LOAD_VERSION, lh_total_size = 38, lh_program_off = 32,
     lh_interp_off = 0, lh_execfn_off = 34, lh_name_off = 36, lh_flags = 0\<rparr> @ [CHR ''p'', nul, CHR ''e'', nul, CHR ''n'', nul]"

definition start_stack :: "64 word list" where
  "start_stack = [1, 0x7000, 0, 0, 3, 0x40, 6, 4096, 9, 0x123, 25, 0x7100, 0, 0]"


lemma start_request_read:
  "loader_request start_request = Inr \<lparr>lj_program = ''p'', lj_interp = None, lj_execfn = ''e'', lj_comm = ''n''\<rparr>"
  by (simp add: start_request_def header_word_bytes header_word_bytes(2) [unfolded One_nat_def] loader_request_def
      load_header_size_def VHDP_LOAD_MAX_SIZE_def req_str_def comm_of_def)

lemma start_page_size: "auxv_page_size 4096 (auxv_of start_stack) = 2 ^ 12"
  by (simp add: start_stack_def auxv_of_def L_AT_NULL_def L_AT_PAGESZ_def)

lemma start_execfn: "\<exists>ops'. place_execfn start_kernel ''e'' (2 ^ 12) ops = (Inr 0x10000, ops')"
  by (simp add: place_execfn_def Let_def tr_bind_def map_pages_def start_kernel_def loader_kernel_def round_page_def
      raw_is_error_def tr_log_def mprotect_def tr_return_def L_MAP_PRIVATE_def L_MAP_ANONYMOUS_def L_MAP_FIXED_def)


end
