(* ===== verification/Bootstrap.thy ===== *)
theory Bootstrap
  imports Loader Spawn
begin

text \<open>
  The code a new guest process runs between clone and execve (\<open>src/src/engines/rootless/bootstrap.c\<close>).  A
  run is the list of the system calls it made with the kernel's answers, which are a parameter; it ends with
  the new program, or with the stage and errno it writes to the error pipe before it exits.
\<close>

section \<open>Calls\<close>

definition VHDP_BOOT_STAGE_SIGNALS :: int where "VHDP_BOOT_STAGE_SIGNALS = 1"
definition VHDP_BOOT_STAGE_SESSION :: int where "VHDP_BOOT_STAGE_SESSION = 2"
definition VHDP_BOOT_STAGE_STDIO :: int where "VHDP_BOOT_STAGE_STDIO = 3"
definition VHDP_BOOT_STAGE_SYNC :: int where "VHDP_BOOT_STAGE_SYNC = 4"
definition VHDP_BOOT_STAGE_CHDIR :: int where "VHDP_BOOT_STAGE_CHDIR = 5"
definition VHDP_BOOT_STAGE_NO_NEW_PRIVS :: int where "VHDP_BOOT_STAGE_NO_NEW_PRIVS = 7"
definition VHDP_BOOT_STAGE_SECCOMP :: int where "VHDP_BOOT_STAGE_SECCOMP = 8"
definition VHDP_BOOT_STAGE_EXEC :: int where "VHDP_BOOT_STAGE_EXEC = 9"
definition VHDP_KERNEL_NSIG :: nat where "VHDP_KERNEL_NSIG = 64"
definition VHDP_HIGH_FD_BASE :: int where "VHDP_HIGH_FD_BASE = 64"
definition boot_EPIPE :: int where "boot_EPIPE = 32"

datatype boot_call =
    Bc_set_dumpable | Bc_write_ready int | Bc_sigaction nat | Bc_sigprocmask | Bc_setsid | Bc_set_ctty int
  | Bc_dupfd int | Bc_dup3 int int | Bc_read_sync int | Bc_chdir string | Bc_close_range | Bc_set_cloexec int
  | Bc_no_new_privs | Bc_set_seccomp "sock_filter list" | Bc_execve string "string list" "string list"

text \<open>
  The answer to a call after the calls before it.  An interrupted read of the synchronisation pipe
  is repeated, so the answer to it is the first other than \<open>EINTR\<close>.
\<close>

type_synonym boot_log = "(boot_call \<times> int) list"
type_synonym boot_kernel = "boot_log \<Rightarrow> boot_call \<Rightarrow> int"
type_synonym 'a boot = "(boot_call \<times> int, int \<times> int, 'a) traced"

definition bcall :: "boot_kernel \<Rightarrow> boot_call \<Rightarrow> int boot" where
  "bcall k x ops = (Inr (k ops x), ops @ [(x, k ops x)])"

definition report_and_exit :: "int \<Rightarrow> int \<Rightarrow> 'a boot" where
  "report_and_exit stage err = tr_fail (stage, - err)"

definition or_report :: "boot_kernel \<Rightarrow> boot_call \<Rightarrow> int \<Rightarrow> int boot" where
  "or_report k x stage = tr_bind (bcall k x) (\<lambda>r. if raw_is_error r then report_and_exit stage r else tr_return r)"

section \<open>The steps of the child\<close>

definition announce :: "boot_kernel \<Rightarrow> bootstrap \<Rightarrow> unit boot" where
  "announce k b = tr_bind (bcall k Bc_set_dumpable) (\<lambda>_.
     if bs_ready_fd b \<ge> 0 then tr_bind (bcall k (Bc_write_ready (bs_ready_fd b))) (\<lambda>_. tr_return ()) else tr_return ())"

fun default_handlers :: "boot_kernel \<Rightarrow> nat list \<Rightarrow> unit boot" where
  "default_handlers k [] = tr_return ()"
| "default_handlers k (sig # sigs) =
     (if sig = 9 \<or> sig = 19 then default_handlers k sigs
      else tr_bind (bcall k (Bc_sigaction sig)) (\<lambda>_. default_handlers k sigs))"

definition reset_signals :: "boot_kernel \<Rightarrow> bootstrap \<Rightarrow> unit boot" where
  "reset_signals k b =
     (if bs_reset_signals b
      then tr_bind (default_handlers k [1..<Suc VHDP_KERNEL_NSIG]) (\<lambda>_.
           tr_bind (or_report k Bc_sigprocmask VHDP_BOOT_STAGE_SIGNALS) (\<lambda>_. tr_return ()))
      else tr_return ())"

definition new_session :: "boot_kernel \<Rightarrow> bootstrap \<Rightarrow> unit boot" where
  "new_session k b =
     (if bs_new_session b
      then tr_bind (or_report k Bc_setsid VHDP_BOOT_STAGE_SESSION) (\<lambda>_.
           if bs_ctty_fd b \<ge> 0
           then tr_bind (or_report k (Bc_set_ctty (bs_ctty_fd b)) VHDP_BOOT_STAGE_SESSION) (\<lambda>_. tr_return ())
           else tr_return ())
      else tr_return ())"

text \<open>The sources of the standard streams are moved out of the way first, then put into place.\<close>

fun dup_high :: "boot_kernel \<Rightarrow> int list \<Rightarrow> int list boot" where
  "dup_high k [] = tr_return []"
| "dup_high k (fd # fds) =
     (if fd \<ge> 0
      then tr_bind (or_report k (Bc_dupfd fd) VHDP_BOOT_STAGE_STDIO) (\<lambda>r.
           tr_bind (dup_high k fds) (\<lambda>rs. tr_return (r # rs)))
      else tr_bind (dup_high k fds) (\<lambda>rs. tr_return (- 1 # rs)))"

fun place_stdio :: "boot_kernel \<Rightarrow> int \<Rightarrow> int list \<Rightarrow> unit boot" where
  "place_stdio k i [] = tr_return ()"
| "place_stdio k i (h # hs) =
     (if h \<ge> 0
      then tr_bind (or_report k (Bc_dup3 h i) VHDP_BOOT_STAGE_STDIO) (\<lambda>_. place_stdio k (i + 1) hs)
      else place_stdio k (i + 1) hs)"

definition wait_for_tracer :: "boot_kernel \<Rightarrow> bootstrap \<Rightarrow> unit boot" where
  "wait_for_tracer k b = tr_bind (bcall k (Bc_read_sync (bs_sync_fd b))) (\<lambda>r.
     if r \<noteq> 1 then report_and_exit VHDP_BOOT_STAGE_SYNC (if r = 0 then - boot_EPIPE else r) else tr_return ())"

fun set_cloexec :: "boot_kernel \<Rightarrow> nat list \<Rightarrow> unit boot" where
  "set_cloexec k [] = tr_return ()"
| "set_cloexec k (fd # fds) = tr_bind (bcall k (Bc_set_cloexec (int fd))) (\<lambda>_. set_cloexec k fds)"

definition close_above_2 :: "boot_kernel \<Rightarrow> bootstrap \<Rightarrow> unit boot" where
  "close_above_2 k b = tr_bind (bcall k Bc_close_range) (\<lambda>r.
     if raw_is_error r then set_cloexec k [3..<bs_max_fd b] else tr_return ())"

definition lock_down :: "boot_kernel \<Rightarrow> bootstrap \<Rightarrow> unit boot" where
  "lock_down k b = tr_bind (or_report k Bc_no_new_privs VHDP_BOOT_STAGE_NO_NEW_PRIVS) (\<lambda>_.
     case bs_seccomp b of
       None \<Rightarrow> tr_return ()
     | Some prog \<Rightarrow> tr_bind (or_report k (Bc_set_seccomp prog) VHDP_BOOT_STAGE_SECCOMP) (\<lambda>_. tr_return ()))"

text \<open>The result is a value exactly when \<open>execve\<close> does not return, that is, when it answers no error.\<close>

definition run_program :: "boot_kernel \<Rightarrow> bootstrap \<Rightarrow> unit boot" where
  "run_program k b = tr_bind (bcall k (Bc_execve (bs_exec_path b) (bs_argv b) (bs_envp b))) (\<lambda>r.
     if raw_is_error r then report_and_exit VHDP_BOOT_STAGE_EXEC r else tr_return ())"

definition prepare_child :: "boot_kernel \<Rightarrow> bootstrap \<Rightarrow> unit boot" where
  "prepare_child k b =
     tr_bind (announce k b) (\<lambda>_. tr_bind (reset_signals k b) (\<lambda>_. tr_bind (new_session k b) (\<lambda>_.
     tr_bind (dup_high k (bs_stdio_fds b)) (\<lambda>high. tr_bind (place_stdio k 0 high) (\<lambda>_.
     tr_bind (wait_for_tracer k b) (\<lambda>_.
     tr_bind (or_report k (Bc_chdir (bs_host_cwd b)) VHDP_BOOT_STAGE_CHDIR) (\<lambda>_.
     tr_bind (close_above_2 k b) (\<lambda>_. lock_down k b))))))))"

definition child_main :: "boot_kernel \<Rightarrow> bootstrap \<Rightarrow> unit boot" where
  "child_main k b = tr_bind (prepare_child k b) (\<lambda>_. run_program k b)"

text \<open>
  \<open>vhdp_bootstrap_spawn\<close> in the parent: \<open>clone\<close> is asked for a pidfd first, and again without when
  the kernel does not know that flag; the answers are the pid and the pidfd.
\<close>

definition vhdp_bootstrap_spawn :: "int \<times> int \<Rightarrow> int \<Rightarrow> int \<times> int" where
  "vhdp_bootstrap_spawn with_pidfd without =
     (let (pid, fd) = (if fst with_pidfd = - 22 then (without, - 1) else with_pidfd)
      in (pid, if pid > 0 then fd else - 1))"

section \<open>Descriptors\<close>

record fd_slot =
  fs_file :: nat
  fs_cloexec :: bool

type_synonym fd_table = "int \<rightharpoonup> fd_slot"

abbreviation cloexec :: "fd_slot option \<Rightarrow> fd_slot option" where
  "cloexec s \<equiv> map_option (\<lambda>s. s\<lparr>fs_cloexec := True\<rparr>) s"

fun fd_effect :: "boot_call \<times> int \<Rightarrow> fd_table \<Rightarrow> fd_table" where
  "fd_effect (Bc_dupfd fd, r) t = (if raw_is_error r then t else t(r := cloexec (t fd)))"
| "fd_effect (Bc_dup3 h i, r) t = (if raw_is_error r then t else t(i := map_option (\<lambda>s. s\<lparr>fs_cloexec := False\<rparr>) (t h)))"
| "fd_effect (Bc_close_range, r) t = (if raw_is_error r then t else (\<lambda>fd. if fd \<ge> 3 then cloexec (t fd) else t fd))"
| "fd_effect (Bc_set_cloexec fd, r) t = (if raw_is_error r then t else t(fd := cloexec (t fd)))"
| "fd_effect _ t = t"

definition fds_after :: "boot_log \<Rightarrow> fd_table \<Rightarrow> fd_table" where
  "fds_after ops t = fold fd_effect ops t"

lemma fds_after_simps [simp]:
  "fds_after [] t = t" "fds_after (x # xs) t = fds_after xs (fd_effect x t)" "fds_after (xs @ ys) t = fds_after ys (fds_after xs t)"
  by (simp_all add: fds_after_def)

text \<open>The kernel hands out free descriptors from the base on, and marks an open one when asked.\<close>

definition dup_law :: "boot_kernel \<Rightarrow> fd_table \<Rightarrow> bool" where
  "dup_law k t \<longleftrightarrow> (\<forall>ops fd. \<not> raw_is_error (k ops (Bc_dupfd fd)) \<longrightarrow>
     k ops (Bc_dupfd fd) \<ge> VHDP_HIGH_FD_BASE \<and> fds_after ops t (k ops (Bc_dupfd fd)) = None \<and> fds_after ops t fd \<noteq> None)"

definition cloexec_law :: "boot_kernel \<Rightarrow> fd_table \<Rightarrow> bool" where
  "cloexec_law k t \<longleftrightarrow> (\<forall>ops fd. fds_after ops t fd \<noteq> None \<longrightarrow> \<not> raw_is_error (k ops (Bc_set_cloexec fd)))"

end
