(* ===== verification/Bootstrap_Safety.thy ===== *)
theory Bootstrap_Safety
  imports Bootstrap
begin

text \<open>
  What the bootstrap hands to the guest: which descriptors the new program has, and that it is never
  started before the tracer has it and its privileges and filter are locked down.
\<close>

section \<open>Successful steps\<close>

lemma bcall_Inr [traced_simps]: "bcall k x ops = (Inr r, ops') \<longleftrightarrow> r = k ops x \<and> ops' = ops @ [(x, r)]"
  by (auto simp: bcall_def)

lemma report_Inr [traced_simps]: "report_and_exit stage e ops = (Inr y, ops') \<longleftrightarrow> False"
  by (simp add: report_and_exit_def tr_fail_def)

lemma or_report_Inr [traced_simps]:
  "or_report k x stage ops = (Inr r, ops') \<longleftrightarrow> r = k ops x \<and> \<not> raw_is_error r \<and> ops' = ops @ [(x, r)]"
  by (auto simp: or_report_def traced_simps split: if_splits)

lemma default_handlers_fds: "default_handlers k sigs ops = (Inr (), ops') \<Longrightarrow> fds_after ops' t = fds_after ops t"
  by (induction sigs arbitrary: ops) (auto simp: traced_simps split: if_splits)

lemma early_steps_fds:
  "announce k b ops = (Inr (), ops') \<Longrightarrow> fds_after ops' t = fds_after ops t"
  "reset_signals k b ops = (Inr (), ops') \<Longrightarrow> fds_after ops' t = fds_after ops t"
  "new_session k b ops = (Inr (), ops') \<Longrightarrow> fds_after ops' t = fds_after ops t"
  "wait_for_tracer k b ops = (Inr (), ops') \<Longrightarrow> fds_after ops' t = fds_after ops t"
  "lock_down k b ops = (Inr (), ops') \<Longrightarrow> fds_after ops' t = fds_after ops t"
  "run_program k b ops = (Inr (), ops') \<Longrightarrow> fds_after ops' t = fds_after ops t"
  by (auto simp: announce_def reset_signals_def new_session_def wait_for_tracer_def lock_down_def run_program_def
      traced_simps default_handlers_fds split: if_splits option.splits)

section \<open>The standard streams\<close>

text \<open>Descriptors that are open stay as they are, and the copies stand at high numbers.\<close>

definition keeps_open :: "fd_table \<Rightarrow> fd_table \<Rightarrow> bool" where
  "keeps_open t t' \<longleftrightarrow> (\<forall>fd. t fd \<noteq> None \<or> fd < VHDP_HIGH_FD_BASE \<longrightarrow> t' fd = t fd)"

definition copied :: "fd_table \<Rightarrow> fd_table \<Rightarrow> int \<Rightarrow> int \<Rightarrow> bool" where
  "copied t t' fd h \<longleftrightarrow> (if fd \<ge> 0 then h \<ge> VHDP_HIGH_FD_BASE \<and> t' h = cloexec (t fd) else h = - 1)"

lemma copied_later:
  assumes "copied t1 t' fd h" and "keeps_open t t1" and "fd \<ge> 0 \<Longrightarrow> t fd \<noteq> None"
  shows "copied t t' fd h"
  using assms by (auto simp: copied_def keeps_open_def)

lemma dup_high_fds:
  assumes "dup_law k t" and "dup_high k fds ops = (Inr hs, ops')"
    and "\<forall>fd\<in>set fds. fd \<ge> 0 \<longrightarrow> fds_after ops t fd \<noteq> None"
  shows "keeps_open (fds_after ops t) (fds_after ops' t) \<and> list_all2 (copied (fds_after ops t) (fds_after ops' t)) fds hs"
  using assms(2,3)
proof (induction fds arbitrary: ops hs)
  case Nil
  then show ?case by (simp add: traced_simps keeps_open_def)
next
  case (Cons fd fds)
  show ?case
  proof (cases "fd \<ge> 0")
    case True
    define r where "r = k ops (Bc_dupfd fd)"
    define ops1 where "ops1 = ops @ [(Bc_dupfd fd, r)]"
    obtain rs where hs: "hs = r # rs" and ok: "\<not> raw_is_error r" and rest: "dup_high k fds ops1 = (Inr rs, ops')"
      using Cons.prems(1) True by (auto simp: traced_simps r_def ops1_def)
    have law: "r \<ge> VHDP_HIGH_FD_BASE" "fds_after ops t r = None"
      using assms(1) ok unfolding dup_law_def r_def by blast+
    have t1: "fds_after ops1 t = (fds_after ops t)(r := cloexec (fds_after ops t fd))"
      using ok by (simp add: ops1_def)
    then have k1: "keeps_open (fds_after ops t) (fds_after ops1 t)" using law by (auto simp: keeps_open_def)
    then have "\<forall>fd\<in>set fds. fd \<ge> 0 \<longrightarrow> fds_after ops1 t fd \<noteq> None" using Cons.prems(2) by (auto simp: keeps_open_def)
    then have k2: "keeps_open (fds_after ops1 t) (fds_after ops' t)"
      and c: "list_all2 (copied (fds_after ops1 t) (fds_after ops' t)) fds rs" using Cons.IH [OF rest] by auto
    have "fds_after ops1 t r \<noteq> None" using t1 Cons.prems(2) True by simp
    then have "fds_after ops' t r = cloexec (fds_after ops t fd)" using k2 t1 by (simp add: keeps_open_def)
    then have "copied (fds_after ops t) (fds_after ops' t) fd r" using True law(1) by (simp add: copied_def)
    moreover have "list_all2 (copied (fds_after ops t) (fds_after ops' t)) fds rs"
      using c copied_later [OF _ k1] Cons.prems(2) by (auto simp: list_all2_conv_all_nth)
    moreover have "keeps_open (fds_after ops t) (fds_after ops' t)" using k1 k2 by (simp add: keeps_open_def)
    ultimately show ?thesis using hs by simp
  next
    case False
    then obtain rs where "hs = - 1 # rs" "dup_high k fds ops = (Inr rs, ops')"
      using Cons.prems by (auto simp: traced_simps)
    then show ?thesis using Cons.IH [of ops rs] Cons.prems(2) False by (simp add: copied_def)
  qed
qed

lemma place_stdio_fds:
  assumes "place_stdio k i hs ops = (Inr (), ops')" and "i \<ge> 0" and "i + int (length hs) \<le> VHDP_HIGH_FD_BASE"
    and "\<forall>h\<in>set hs. h \<ge> VHDP_HIGH_FD_BASE \<or> h = - 1"
  shows "fds_after ops' t fd =
    (if i \<le> fd \<and> fd < i + int (length hs) \<and> hs ! nat (fd - i) \<ge> 0
     then map_option (\<lambda>s. s\<lparr>fs_cloexec := False\<rparr>) (fds_after ops t (hs ! nat (fd - i))) else fds_after ops t fd)"
  using assms
proof (induction hs arbitrary: i ops)
  case Nil
  then show ?case by (auto simp: traced_simps)
next
  case (Cons h hs)
  have nth: "(h # hs) ! nat (fd - i) = (if fd = i then h else hs ! nat (fd - (i + 1)))" if "i \<le> fd"
  proof (cases "fd = i")
    case False
    then have "nat (fd - i) = Suc (nat (fd - (i + 1)))" using that by simp
    then show ?thesis using False by simp
  qed simp
  have high: "hs ! nat (fd - (i + 1)) \<noteq> i" if "i + 1 \<le> fd" "fd < i + 1 + int (length hs)" "hs ! nat (fd - (i + 1)) \<ge> 0"
  proof -
    have "hs ! nat (fd - (i + 1)) \<in> set hs" using that by (intro nth_mem) auto
    then show ?thesis using Cons.prems(3,4) that(3) by auto
  qed
  show ?case
  proof (cases "h \<ge> 0")
    case True
    then obtain r where r: "\<not> raw_is_error r" "place_stdio k (i + 1) hs (ops @ [(Bc_dup3 h i, r)]) = (Inr (), ops')"
      using Cons.prems(1) by (auto simp: traced_simps)
    have "i + 1 \<ge> 0" "i + 1 + int (length hs) \<le> VHDP_HIGH_FD_BASE" "\<forall>h\<in>set hs. h \<ge> VHDP_HIGH_FD_BASE \<or> h = - 1"
      using Cons.prems(2-4) by auto
    note IH = Cons.IH [OF r(2) this]
    show ?thesis unfolding IH using r(1) nth high True by auto
  next
    case False
    then have "place_stdio k (i + 1) hs ops = (Inr (), ops')" using Cons.prems(1) by simp
    moreover have "i + 1 \<ge> 0" "i + 1 + int (length hs) \<le> VHDP_HIGH_FD_BASE" "\<forall>h\<in>set hs. h \<ge> VHDP_HIGH_FD_BASE \<or> h = - 1"
      using Cons.prems(2-4) by auto
    ultimately have IH: "fds_after ops' t fd = (if i + 1 \<le> fd \<and> fd < i + 1 + int (length hs) \<and> hs ! nat (fd - (i + 1)) \<ge> 0
       then map_option (\<lambda>s. s\<lparr>fs_cloexec := False\<rparr>) (fds_after ops t (hs ! nat (fd - (i + 1)))) else fds_after ops t fd)"
      by (rule Cons.IH)
    show ?thesis unfolding IH using nth False by auto
  qed
qed

section \<open>The other descriptors\<close>

lemma set_cloexec_fds:
  assumes "cloexec_law k t" and "set_cloexec k fds ops = (Inr (), ops')"
  shows "fds_after ops' t fd = (if fd \<in> int ` set fds then cloexec (fds_after ops t fd) else fds_after ops t fd)"
  using assms(2)
proof (induction fds arbitrary: ops)
  case Nil
  then show ?case by (simp add: traced_simps)
next
  case (Cons x fds)
  define r where "r = k ops (Bc_set_cloexec (int x))"
  have rest: "set_cloexec k fds (ops @ [(Bc_set_cloexec (int x), r)]) = (Inr (), ops')"
    using Cons.prems by (auto simp: traced_simps r_def)
  have one: "fds_after (ops @ [(Bc_set_cloexec (int x), r)]) t = (fds_after ops t)(int x := cloexec (fds_after ops t (int x)))"
  proof (cases "raw_is_error r")
    case True
    then have "fds_after ops t (int x) = None" using assms(1) unfolding cloexec_law_def r_def by blast
    then show ?thesis using True by auto
  qed simp
  show ?case unfolding Cons.IH [OF rest] one by (auto simp: option.map_comp o_def)
qed

lemma close_above_2_fds:
  assumes "cloexec_law k t" and "close_above_2 k b ops = (Inr (), ops')"
  shows "fd < 3 \<Longrightarrow> fds_after ops' t fd = fds_after ops t fd"
    and "3 \<le> fd \<Longrightarrow> fd < int (bs_max_fd b) \<Longrightarrow> fds_after ops' t fd = cloexec (fds_after ops t fd)"
proof -
  define r where "r = k ops Bc_close_range"
  have r: "if raw_is_error r then set_cloexec k [3..<bs_max_fd b] (ops @ [(Bc_close_range, r)]) = (Inr (), ops')
    else ops' = ops @ [(Bc_close_range, r)]"
    using assms(2) by (auto simp: close_above_2_def traced_simps r_def split: if_splits)
  have mem: "fd \<in> int ` set [3..<bs_max_fd b] \<longleftrightarrow> 3 \<le> fd \<and> fd < int (bs_max_fd b)"
    by (auto intro!: image_eqI [of _ _ "nat fd"])
  show "fd < 3 \<Longrightarrow> fds_after ops' t fd = fds_after ops t fd"
    using r set_cloexec_fds [OF assms(1), of "[3..<bs_max_fd b]" "ops @ [(Bc_close_range, r)]" ops' fd] mem
    by (auto split: if_splits)
  show "3 \<le> fd \<Longrightarrow> fd < int (bs_max_fd b) \<Longrightarrow> fds_after ops' t fd = cloexec (fds_after ops t fd)"
    using r set_cloexec_fds [OF assms(1), of "[3..<bs_max_fd b]" "ops @ [(Bc_close_range, r)]" ops' fd] mem
    by (auto split: if_splits)
qed

section \<open>The guest's descriptors\<close>



section \<open>Nothing runs before the lock-down\<close>

abbreviation no_exec :: "boot_call \<times> int \<Rightarrow> bool" where
  "no_exec x \<equiv> (case fst x of Bc_execve p a e \<Rightarrow> False | _ \<Rightarrow> True)"

lemma adds_bcall [intro]: "(\<And>r. P (x, r)) \<Longrightarrow> adds P (bcall k x)"
  by (simp add: adds_def bcall_def)

lemma adds_or_report [intro]: "(\<And>r. P (x, r)) \<Longrightarrow> adds P (or_report k x stage)"
  unfolding or_report_def report_and_exit_def by (intro adds_bind adds_bcall) (auto intro: adds_return adds_fail)

lemma no_exec_loops:
  "adds no_exec (default_handlers k sigs)" "adds no_exec (dup_high k fds)" "adds no_exec (place_stdio k i fds)"
  "adds no_exec (set_cloexec k ns)"
proof -
  show "adds no_exec (default_handlers k sigs)" by (induction sigs) (auto intro!: adds_bind adds_bcall)
  show "adds no_exec (dup_high k fds)" by (induction fds) (auto intro!: adds_bind adds_or_report)
  show "adds no_exec (place_stdio k i fds)" by (induction fds arbitrary: i) (auto intro!: adds_bind adds_or_report)
  show "adds no_exec (set_cloexec k ns)" by (induction ns) (auto intro!: adds_bind adds_bcall)
qed

lemma no_exec_steps:
  "adds no_exec (announce k b)" "adds no_exec (reset_signals k b)" "adds no_exec (new_session k b)"
  "adds no_exec (wait_for_tracer k b)" "adds no_exec (close_above_2 k b)" "adds no_exec (lock_down k b)"
  unfolding announce_def reset_signals_def new_session_def wait_for_tracer_def close_above_2_def lock_down_def report_and_exit_def
  by (auto intro!: adds_bind adds_bcall adds_or_report no_exec_loops split: option.splits)

lemma no_exec_prepare: "adds no_exec (prepare_child k b)"
  unfolding prepare_child_def by (intro adds_bind no_exec_steps no_exec_loops adds_or_report) simp

text \<open>
  C15: the bootstrap asks for the new program only as its last call, after the tracer's byte arrived, with no
  new privileges allowed, and with the session's filter, if there is one, installed directly before.
\<close>

theorem exec_after_lock_down:
  assumes "child_main k b [] = (res, ops)" and "(Bc_execve p a e, r) \<in> set ops"
  shows "\<exists>pre. ops = pre @ [(Bc_execve (bs_exec_path b) (bs_argv b) (bs_envp b), r)] \<and>
    (Bc_read_sync (bs_sync_fd b), 1) \<in> set pre \<and>
    (\<exists>pre' r1. \<not> raw_is_error r1 \<and>
      (case bs_seccomp b of
         None \<Rightarrow> pre = pre' @ [(Bc_no_new_privs, r1)]
       | Some f \<Rightarrow> \<exists>r2. \<not> raw_is_error r2 \<and> pre = pre' @ [(Bc_no_new_privs, r1), (Bc_set_seccomp f, r2)]))"
proof -
  obtain r0 pre where pr: "prepare_child k b [] = (r0, pre)" by force
  have quiet: "list_all no_exec pre" using addsD [OF no_exec_prepare pr] by simp
  then have noex: "(Bc_execve p a e, r) \<notin> set pre" by (force simp: list_all_iff)
  obtain y where r0: "r0 = Inr y"
  proof (cases r0)
    case (Inl x)
    then show thesis using assms pr noex by (simp add: child_main_def tr_bind_def)
  qed
  let ?x = "Bc_execve (bs_exec_path b) (bs_argv b) (bs_envp b)"
  have ops: "ops = pre @ [(?x, k pre ?x)]"
    using assms(1) pr r0 by (auto simp: child_main_def tr_bind_def run_program_def bcall_def report_and_exit_def tr_fail_def
        tr_return_def split: if_splits)
  then have "r = k pre ?x" using assms(2) noex by auto
  obtain o5 o6 o7 o8 o9 where s6: "wait_for_tracer k b o5 = (Inr (), o6)"
    and s7: "or_report k (Bc_chdir (bs_host_cwd b)) VHDP_BOOT_STAGE_CHDIR o6 = (Inr o8, o7)"
    and s8: "close_above_2 k b o7 = (Inr (), o9)" and s9: "lock_down k b o9 = (Inr y, pre)"
    using pr r0 unfolding prepare_child_def by (auto simp: tr_bind_Inr)
  have "(Bc_read_sync (bs_sync_fd b), 1) \<in> set o6"
    using s6 by (auto simp: wait_for_tracer_def traced_simps split: if_splits)
  then have "(Bc_read_sync (bs_sync_fd b), 1) \<in> set o9"
    using s7 addsD [OF no_exec_steps(5) s8] by (auto simp: traced_simps)
  then show ?thesis
    using ops \<open>r = _\<close> s9 by (auto simp: lock_down_def traced_simps split: option.splits)
qed

section \<open>Reports\<close>

text \<open>The stage a call is reported under.\<close>

fun stage_of :: "boot_call \<Rightarrow> int option" where
  "stage_of Bc_sigprocmask = Some VHDP_BOOT_STAGE_SIGNALS"
| "stage_of Bc_setsid = Some VHDP_BOOT_STAGE_SESSION"
| "stage_of (Bc_set_ctty fd) = Some VHDP_BOOT_STAGE_SESSION"
| "stage_of (Bc_dupfd fd) = Some VHDP_BOOT_STAGE_STDIO"
| "stage_of (Bc_dup3 h i) = Some VHDP_BOOT_STAGE_STDIO"
| "stage_of (Bc_read_sync fd) = Some VHDP_BOOT_STAGE_SYNC"
| "stage_of (Bc_chdir p) = Some VHDP_BOOT_STAGE_CHDIR"
| "stage_of Bc_no_new_privs = Some VHDP_BOOT_STAGE_NO_NEW_PRIVS"
| "stage_of (Bc_set_seccomp f) = Some VHDP_BOOT_STAGE_SECCOMP"
| "stage_of (Bc_execve p a e) = Some VHDP_BOOT_STAGE_EXEC"
| "stage_of _ = None"

definition reports :: "'a boot \<Rightarrow> bool" where
  "reports m \<longleftrightarrow> (\<forall>ops stage err ops'. m ops = (Inl (stage, err), ops') \<longrightarrow>
     (\<exists>pre x r. ops' = pre @ [(x, r)] \<and> stage_of x = Some stage \<and> err = (if r = 0 then boot_EPIPE else - r)))"

lemma reports_basic [simp]: "reports (tr_return x)" "reports (bcall k c)"
  by (simp_all add: reports_def tr_return_def bcall_def)

lemma reports_bind: "reports m \<Longrightarrow> (\<And>x. reports (f x)) \<Longrightarrow> reports (tr_bind m f)"
  unfolding reports_def
proof (intro allI impI)
  fix ops stage err ops'
  assume m: "\<forall>ops stage err ops'. m ops = (Inl (stage, err), ops') \<longrightarrow>
      (\<exists>pre x r. ops' = pre @ [(x, r)] \<and> stage_of x = Some stage \<and> err = (if r = 0 then boot_EPIPE else - r))"
    and f: "\<And>x. \<forall>ops stage err ops'. f x ops = (Inl (stage, err), ops') \<longrightarrow>
      (\<exists>pre x r. ops' = pre @ [(x, r)] \<and> stage_of x = Some stage \<and> err = (if r = 0 then boot_EPIPE else - r))"
    and run: "tr_bind m f ops = (Inl (stage, err), ops')"
  obtain r o1 where r: "m ops = (r, o1)" by force
  show "\<exists>pre x r. ops' = pre @ [(x, r)] \<and> stage_of x = Some stage \<and> err = (if r = 0 then boot_EPIPE else - r)"
    using m [rule_format, of ops] f [rule_format] run r by (cases r) (simp_all add: tr_bind_def)
qed

lemma reports_or_report: "stage_of x = Some stage \<Longrightarrow> reports (or_report k x stage)"
  by (auto simp: reports_def or_report_def tr_bind_def bcall_def report_and_exit_def tr_fail_def tr_return_def raw_is_error_def
      split: if_splits)

lemma reports_loops:
  "reports (default_handlers k sigs)" "reports (dup_high k fds)" "reports (place_stdio k i fds)" "reports (set_cloexec k ns)"
proof -
  show "reports (default_handlers k sigs)" by (induction sigs) (auto intro!: reports_bind)
  show "reports (dup_high k fds)" by (induction fds) (auto intro!: reports_bind reports_or_report)
  show "reports (place_stdio k i fds)" by (induction fds arbitrary: i) (auto intro!: reports_bind reports_or_report)
  show "reports (set_cloexec k ns)" by (induction ns) (auto intro!: reports_bind)
qed

lemma reports_last:
  "reports (wait_for_tracer k b)" "reports (run_program k b)"
  by (auto simp: reports_def wait_for_tracer_def run_program_def tr_bind_def bcall_def report_and_exit_def tr_fail_def
      tr_return_def raw_is_error_def split: if_splits)

lemma reports_steps:
  "reports (announce k b)" "reports (reset_signals k b)" "reports (new_session k b)" "reports (close_above_2 k b)" "reports (lock_down k b)"
  unfolding announce_def reset_signals_def new_session_def close_above_2_def lock_down_def
  by (auto intro!: reports_bind reports_or_report reports_loops split: option.splits)

text \<open>
  A bootstrap that fails reports the call that failed: its last call belongs to the stage it names,
  and the errno is that of the call, \<open>EPIPE\<close> when the supervisor was gone.
\<close>

theorem bootstrap_failure_reported:
  assumes "child_main k b [] = (Inl (stage, err), ops)"
  shows "\<exists>pre x r. ops = pre @ [(x, r)] \<and> stage_of x = Some stage \<and> err = (if r = 0 then boot_EPIPE else - r)"
proof -
  have "reports (child_main k b)"
    unfolding child_main_def prepare_child_def
    by (intro reports_bind reports_steps reports_loops reports_last reports_or_report) simp
  then show ?thesis using assms unfolding reports_def by blast
qed


section \<open>A kernel\<close>

text \<open>Four open descriptors; the streams are to be 1, 0 and 5, so the first two change places.\<close>

definition boot_fds :: fd_table where
  "boot_fds fd = (if fd \<in> {0, 1, 2, 5} then Some \<lparr>fs_file = nat fd, fs_cloexec = False\<rparr> else None)"

fun opened :: "boot_call \<times> int \<Rightarrow> int" where
  "opened (Bc_dupfd fd, r) = max 0 r"
| "opened (Bc_dup3 h i, r) = max 0 i"
| "opened _ = 0"

definition next_fd :: "boot_log \<Rightarrow> int" where "next_fd ops = 65 + sum_list (map opened ops)"

fun boot_answer :: "int \<Rightarrow> boot_kernel" where
  "boot_answer exec ops (Bc_dupfd fd) = (if fds_after ops boot_fds fd = None then - 9 else next_fd ops)"
| "boot_answer exec ops (Bc_read_sync fd) = 1"
| "boot_answer exec ops (Bc_execve p a e) = exec"
| "boot_answer exec ops _ = 0"

definition boot_sample :: bootstrap where
  "boot_sample = \<lparr>bs_ready_fd = - 1, bs_sync_fd = 20, bs_error_fd = 21, bs_stdio_fds = [1, 0, 5], bs_ctty_fd = - 1, bs_new_session = True,
     bs_reset_signals = False, bs_max_fd = 1024, bs_host_cwd = ''/r'', bs_exec_path = ''/r/sh'', bs_argv = [''sh''], bs_envp = [],
     bs_seccomp = Some []\<rparr>"

lemma opened_nonneg: "0 \<le> opened x"
  by (cases x rule: opened.cases) auto

lemma next_fd_opened: "x \<in> set ops \<Longrightarrow> opened x < next_fd ops" "64 \<le> next_fd ops"
proof -
  have "0 \<le> sum_list (map opened ops)" by (intro sum_list_nonneg) (auto simp: opened_nonneg)
  then show "64 \<le> next_fd ops" unfolding next_fd_def by simp
  show "x \<in> set ops \<Longrightarrow> opened x < next_fd ops" unfolding next_fd_def
  proof (induction ops)
    case (Cons y ops)
    have "0 \<le> sum_list (map opened ops)" by (intro sum_list_nonneg) (auto simp: opened_nonneg)
    then show ?case using Cons opened_nonneg [of y] by auto
  qed simp
qed

lemma fds_after_opened:
  "fds_after ops t fd \<noteq> None \<Longrightarrow> 0 \<le> fd \<Longrightarrow> t fd \<noteq> None \<or> (\<exists>x\<in>set ops. opened x = fd)"
proof (induction ops arbitrary: t)
  case (Cons x ops)
  have "fd_effect x t fd \<noteq> None \<Longrightarrow> t fd \<noteq> None \<or> opened x = fd"
    using Cons.prems(2) by (cases "(x, t)" rule: fd_effect.cases) (auto split: if_splits)
  then show ?case using Cons.IH [of "fd_effect x t"] Cons.prems by auto
qed simp

lemma boot_laws: "dup_law (boot_answer e) boot_fds" "cloexec_law (boot_answer e) boot_fds"
proof -
  have "fds_after ops boot_fds (next_fd ops) = None" for ops
  proof (rule ccontr)
    assume "fds_after ops boot_fds (next_fd ops) \<noteq> None"
    then have "boot_fds (next_fd ops) \<noteq> None \<or> (\<exists>x\<in>set ops. opened x = next_fd ops)"
      by (rule fds_after_opened) (use next_fd_opened(2) [of ops] in simp)
    then show False using next_fd_opened(2) [of ops] next_fd_opened(1) [where ops = ops] by (force simp: boot_fds_def split: if_splits)
  qed
  then show "dup_law (boot_answer e) boot_fds"
    using next_fd_opened(2) by (auto simp: dup_law_def raw_is_error_def VHDP_HIGH_FD_BASE_def split: if_splits)
  show "cloexec_law (boot_answer e) boot_fds" by (simp add: cloexec_law_def raw_is_error_def)
qed


theorem exec_after_lock_down_witness:
  "\<exists>ops pre r. child_main (boot_answer 0) boot_sample [] = (Inr (), ops) \<and>
     ops = pre @ [(Bc_execve ''/r/sh'' [''sh''] [], r)] \<and> (Bc_read_sync 20, 1) \<in> set pre"
proof -
  have "fst (child_main (boot_answer 0) boot_sample []) = Inr () \<and>
    (Bc_execve ''/r/sh'' [''sh''] [], 0) \<in> set (snd (child_main (boot_answer 0) boot_sample []))" by code_simp
  then obtain ops where r: "child_main (boot_answer 0) boot_sample [] = (Inr (), ops)" and x: "(Bc_execve ''/r/sh'' [''sh''] [], 0) \<in> set ops"
    by (metis prod.collapse)
  show ?thesis using exec_after_lock_down [OF r x] r by (auto simp: boot_sample_def)
qed

theorem bootstrap_failure_reported_witness:
  "\<exists>ops pre x r. child_main (boot_answer (- 13)) boot_sample [] = (Inl (9, 13), ops) \<and> ops = pre @ [(x, r)] \<and> stage_of x = Some 9"
proof -
  have "fst (child_main (boot_answer (- 13)) boot_sample []) = Inl (9, 13)" by code_simp
  then obtain ops where r: "child_main (boot_answer (- 13)) boot_sample [] = (Inl (9, 13), ops)" by (metis prod.collapse)
  show ?thesis using bootstrap_failure_reported [OF r] r by blast
qed

end
