(* ===== verification/Configure.thy ===== *)
theory Configure
  imports Json_Validity
begin

text \<open>
  First-boot configuration of a root file system and the reports about it:
  \<open>src/src/core/configure.cpp\<close>, \<open>dpkg_recovery.cpp\<close> and \<open>projection.cpp\<close>.  The disk gives each path its
  node; the last component of a path may be a symbolic link, the directories on the way are real.  A
  path in \<open>dk_denied\<close> is one the kernel refuses to create, remove or open for writing.  A report is written by
  the calls of the JSON writer that its tree lists.
\<close>

section \<open>The disk\<close>

datatype disk_node = Nd_dir | Nd_file string | Nd_link string

record disk =
  dk_nodes :: "string \<rightharpoonup> disk_node"
  dk_modes :: "string \<rightharpoonup> nat"
  dk_denied :: "string \<Rightarrow> bool"

definition parent_of :: "string \<Rightarrow> string" where
  "parent_of p = (let d = rev (tl (dropWhile (\<lambda>c. c \<noteq> slash) (rev p))) in if d = [] then ''/'' else d)"

text \<open>Where a path leads when its last component is a link; \<open>None\<close> for too many links.\<close>

fun locate :: "nat \<Rightarrow> disk \<Rightarrow> string \<Rightarrow> string option" where
  "locate 0 d p = None"
| "locate (Suc n) d p =
     (case dk_nodes d p of
        Some (Nd_link t) \<Rightarrow> locate n d (if t \<noteq> [] \<and> hd t = slash then t else parent_of p @ ''/'' @ t)
      | _ \<Rightarrow> Some p)"

definition kMaxLinks :: nat where "kMaxLinks = 40"

definition can_create :: "disk \<Rightarrow> string \<Rightarrow> bool" where
  "can_create d p \<longleftrightarrow> dk_nodes d p = None \<and> dk_nodes d (parent_of p) = Some Nd_dir \<and> \<not> dk_denied d p"

definition put_node :: "string \<Rightarrow> disk_node \<Rightarrow> disk \<Rightarrow> disk" where
  "put_node p n d = d\<lparr>dk_nodes := (dk_nodes d)(p \<mapsto> n)\<rparr>"

definition sys_mkdir :: "string \<Rightarrow> disk \<Rightarrow> disk" where
  "sys_mkdir p d = (if can_create d p then put_node p Nd_dir d else d)"

definition sys_symlink :: "string \<Rightarrow> string \<Rightarrow> disk \<Rightarrow> bool \<times> disk" where
  "sys_symlink target p d = (if can_create d p then (True, put_node p (Nd_link target) d) else (False, d))"

definition sys_create_excl :: "string \<Rightarrow> disk \<Rightarrow> bool \<times> disk" where
  "sys_create_excl p d = (if can_create d p then (True, put_node p (Nd_file []) d) else (False, d))"

definition sys_unlink :: "string \<Rightarrow> disk \<Rightarrow> disk" where
  "sys_unlink p d =
     (if dk_nodes d p \<noteq> Some Nd_dir \<and> \<not> dk_denied d p then d\<lparr>dk_nodes := (dk_nodes d)(p := None)\<rparr> else d)"

definition sys_chmod :: "string \<Rightarrow> nat \<Rightarrow> disk \<Rightarrow> disk" where
  "sys_chmod p mode d =
     (case locate kMaxLinks d p of
        None \<Rightarrow> d
      | Some q \<Rightarrow> if dk_nodes d q = None \<or> dk_denied d q then d else d\<lparr>dk_modes := (dk_modes d)(q \<mapsto> mode)\<rparr>)"

section \<open>Helpers of the source\<close>

definition path_exists :: "disk \<Rightarrow> string \<Rightarrow> bool" where
  "path_exists d p \<longleftrightarrow> dk_nodes d p \<noteq> None"

definition is_dir :: "disk \<Rightarrow> string \<Rightarrow> bool" where
  "is_dir d p \<longleftrightarrow> (case locate kMaxLinks d p of None \<Rightarrow> False | Some q \<Rightarrow> dk_nodes d q = Some Nd_dir)"

fun mkdirs_loop :: "string \<Rightarrow> string \<Rightarrow> disk \<Rightarrow> disk" where
  "mkdirs_loop [] cur d = (if cur \<noteq> [] \<and> cur \<noteq> ''/'' then sys_mkdir cur d else d)"
| "mkdirs_loop (c # cs) cur d =
     (if c = slash then mkdirs_loop cs (cur @ ''/'') (if cur \<noteq> [] \<and> cur \<noteq> ''/'' then sys_mkdir cur d else d)
      else mkdirs_loop cs (cur @ [c]) d)"

definition mkdirs :: "string \<Rightarrow> disk \<Rightarrow> bool \<times> disk" where
  "mkdirs path d =
     (let d' = (if path \<noteq> [] \<and> hd path = slash then mkdirs_loop (tl path) ''/'' d else mkdirs_loop path [] d)
      in (is_dir d' path, d'))"

definition read_all :: "disk \<Rightarrow> string \<Rightarrow> string" where
  "read_all d p =
     (case locate kMaxLinks d p of
        None \<Rightarrow> []
      | Some q \<Rightarrow> (case dk_nodes d q of Some (Nd_file c) \<Rightarrow> c | _ \<Rightarrow> []))"

text \<open>Opening for writing creates the file a path leads to; \<open>f\<close> is the new content from the old.\<close>

definition open_write :: "string \<Rightarrow> (string \<Rightarrow> string) \<Rightarrow> disk \<Rightarrow> bool \<times> disk" where
  "open_write p f d =
     (case locate kMaxLinks d p of
        None \<Rightarrow> (False, d)
      | Some q \<Rightarrow> (case dk_nodes d q of
          Some (Nd_file c) \<Rightarrow> if dk_denied d q then (False, d) else (True, put_node q (Nd_file (f c)) d)
        | None \<Rightarrow> if can_create d q then (True, put_node q (Nd_file (f [])) d) else (False, d)
        | _ \<Rightarrow> (False, d)))"

definition write_all :: "string \<Rightarrow> string \<Rightarrow> disk \<Rightarrow> bool \<times> disk" where
  "write_all p content = open_write p (\<lambda>_. content)"

definition write_if_absent :: "string \<Rightarrow> string \<Rightarrow> disk \<Rightarrow> bool \<times> disk" where
  "write_if_absent p content d = (if path_exists d p then (False, d) else write_all p content d)"

definition force_write :: "string \<Rightarrow> string \<Rightarrow> disk \<Rightarrow> bool \<times> disk" where
  "force_write p content d = write_all p content (sys_unlink p d)"

abbreviation lf :: char where "lf \<equiv> CHR 0x0A"

definition append_line_once :: "string \<Rightarrow> string \<Rightarrow> disk \<Rightarrow> bool \<times> disk" where
  "append_line_once p line d =
     (if \<not> path_exists d p then (False, d)
      else let cur = read_all d p
           in if contains_sub line cur then (False, d)
              else open_write p (\<lambda>c. c @ (if cur = [] \<or> last cur = lf then line @ [lf]
                                          else [lf] @ line @ [lf])) d)"

definition has_user_dracos :: "string \<Rightarrow> bool" where
  "has_user_dracos text \<longleftrightarrow> starts_with text ''dracos:'' \<or> contains_sub (lf # ''dracos:'') text"

section \<open>The configuration steps\<close>

type_synonym action = "string \<times> string"

text \<open>A step of the configuration: the disk and the actions reported so far.\<close>

type_synonym conf_state = "disk \<times> action list"

definition did :: "string \<Rightarrow> string \<Rightarrow> conf_state \<Rightarrow> conf_state" where
  "did i detail s = (fst s, snd s @ [(i, detail)])"

definition run_disk :: "(disk \<Rightarrow> disk) \<Rightarrow> conf_state \<Rightarrow> conf_state" where
  "run_disk f s = (f (fst s), snd s)"

definition report_if :: "(disk \<Rightarrow> bool \<times> disk) \<Rightarrow> string \<Rightarrow> string \<Rightarrow> conf_state \<Rightarrow> conf_state" where
  "report_if f i detail s = (case f (fst s) of (ok, d) \<Rightarrow> if ok then did i detail (d, snd s) else (d, snd s))"

definition mountpoints :: "string \<Rightarrow> conf_state \<Rightarrow> conf_state" where
  "mountpoints root s =
     did ''mountpoints'' ''dev proc sys tmp root etc''
       (run_disk (\<lambda>d. sys_chmod (root @ ''/tmp'') 511
          (fold (\<lambda>n d. snd (mkdirs (root @ ''/'' @ n) d)) [''dev'', ''proc'', ''sys'', ''tmp'', ''root'', ''etc''] d)) s)"

text \<open>The entries of \<open>/dev\<close>, counting those made.\<close>

definition make_if_absent :: "string \<Rightarrow> (disk \<Rightarrow> bool \<times> disk) \<Rightarrow> nat \<times> disk \<Rightarrow> nat \<times> disk" where
  "make_if_absent p f x =
     (if path_exists (snd x) p then x
      else case f (snd x) of (ok, d) \<Rightarrow> (if ok then fst x + 1 else fst x, d))"

definition dev_links :: "(string \<times> string) list" where
  "dev_links = [(''fd'', ''/proc/self/fd''), (''stdin'', ''/proc/self/fd/0''), (''stdout'', ''/proc/self/fd/1''), (''stderr'', ''/proc/self/fd/2'')]"

definition dev_entries :: "string \<Rightarrow> conf_state \<Rightarrow> conf_state" where
  "dev_entries root s =
     (let dev = root @ ''/dev'';
          x1 = fold (\<lambda>(n, t). make_if_absent (dev @ ''/'' @ n) (sys_symlink t (dev @ ''/'' @ n))) dev_links (0, fst s);
          x2 = fold (\<lambda>n. make_if_absent (dev @ ''/'' @ n) (mkdirs (dev @ ''/'' @ n))) [''shm'', ''pts''] x1;
          x3 = (fst x2, sys_chmod (dev @ ''/shm'') 1023 (snd x2));
          x4 = fold (\<lambda>n. make_if_absent (dev @ ''/'' @ n) (sys_create_excl (dev @ ''/'' @ n)))
                 [''null'', ''zero'', ''full'', ''random'', ''urandom'', ''tty'', ''ptmx''] x3
      in did ''dev'' (if fst x4 > 0 then ''created '' @ dec_string (fst x4) @ '' /dev entries'' else ''present'') (snd x4, snd s))"

definition resolv_text :: string where
  "resolv_text = ''nameserver 8.8.8.8'' @ [lf] @ ''nameserver 1.1.1.1'' @ [lf] @
     ''nameserver 2001:4860:4860::8888'' @ [lf] @ ''nameserver 2606:4700:4700::1111'' @ [lf]"

definition nsswitch_text :: string where
  "nsswitch_text = ''passwd: files'' @ [lf] @ ''group: files'' @ [lf] @ ''shadow: files'' @ [lf] @
     ''hosts: files dns'' @ [lf] @ ''networks: files'' @ [lf] @ ''protocols: files'' @ [lf] @ ''services: files'' @ [lf]"

definition hosts_text :: string where
  "hosts_text = ''127.0.0.1 localhost'' @ [lf] @ ''::1 localhost'' @ [lf]"

definition profile_text :: string where
  "profile_text = ''export TERM=xterm-256color'' @ [lf] @
     ''if [ -n '' @ [dquote] @ ''$BASH_VERSION'' @ [dquote] @ '' ] && [ -f '' @ [dquote] @ ''$HOME/.bashrc'' @ [dquote] @ '' ]; then'' @ [lf] @
     ''    . '' @ [dquote] @ ''$HOME/.bashrc'' @ [dquote] @ [lf] @
     ''else'' @ [lf] @
     ''    export PS1='' @ [CHR 0x27, backslash] @ ''['' @ [backslash] @ ''e[35m'' @ [backslash] @ '']'' @ [backslash] @ ''u@vhdp'' @
     [backslash] @ ''['' @ [backslash] @ ''e[0m'' @ [backslash] @ '']:'' @
     [backslash] @ ''['' @ [backslash] @ ''e[36m'' @ [backslash] @ '']'' @ [backslash] @ ''w'' @ [backslash] @ ''['' @ [backslash] @ ''e[0m'' @
     [backslash] @ '']$ '' @ [CHR 0x27, lf] @
     ''fi'' @ [lf]"

definition user_entries :: "string \<Rightarrow> conf_state \<Rightarrow> conf_state" where
  "user_entries etc s =
     (if \<not> has_user_dracos (read_all (fst s) (etc @ ''/passwd''))
      then did ''user'' ''created dracos'' (run_disk (\<lambda>d.
             let d1 = snd (append_line_once (etc @ ''/passwd'') ''dracos:x:1000:1000:dracos:/home/dracos:/bin/bash'' d);
                 d2 = snd (append_line_once (etc @ ''/group'') ''dracos:x:1000:'' d1)
             in if path_exists d2 (etc @ ''/shadow'')
                then snd (append_line_once (etc @ ''/shadow'') ''dracos:!:19999:0:99999:7:::'' d2) else d2) s)
      else did ''user'' ''present'' s)"

definition sudoers_entry :: "string \<Rightarrow> conf_state \<Rightarrow> conf_state" where
  "sudoers_entry etc s =
     (let drop_in = etc @ ''/sudoers.d/dracos''
      in if \<not> is_dir (fst s) (etc @ ''/sudoers.d'') \<or> path_exists (fst s) drop_in then s
         else case write_all drop_in (''dracos ALL=(ALL) NOPASSWD:ALL'' @ [lf]) (fst s) of
             (ok, d) \<Rightarrow> if ok then did ''sudoers'' ''dracos NOPASSWD'' (sys_chmod drop_in 288 d, snd s) else (d, snd s))"

definition login_user :: "string \<Rightarrow> conf_state \<Rightarrow> conf_state" where
  "login_user root s =
     (let etc = root @ ''/etc''
      in if path_exists (fst s) (etc @ ''/passwd'')
         then run_disk (\<lambda>d. snd (mkdirs (root @ ''/home/dracos'') d)) (sudoers_entry etc (user_entries etc s))
         else did ''user'' ''skipped: no /etc/passwd'' s)"

definition configure_disk :: "string \<Rightarrow> disk \<Rightarrow> conf_state" where
  "configure_disk root d =
     (let etc = root @ ''/etc'';
          s = dev_entries root (mountpoints root (d, []));
          s = report_if (force_write (etc @ ''/resolv.conf'') resolv_text) ''resolv.conf'' ''forced'' s;
          s = report_if (write_if_absent (etc @ ''/nsswitch.conf'') nsswitch_text) ''nsswitch.conf'' ''written'' s;
          s = report_if (write_if_absent (etc @ ''/hosts'') hosts_text) ''hosts'' ''written'' s;
          s = report_if (write_if_absent (root @ ''/root/.profile'') profile_text) ''root_profile'' ''written'' s;
          s = report_if (write_if_absent (root @ ''/root/.hushlogin'') []) ''hushlogin'' ''written'' s
      in login_user root s)"

definition action_tree :: "action \<Rightarrow> jtree" where
  "action_tree a = JObj [(''id'', JStr (fst a)), (''detail'', JStr (snd a))]"

text \<open>\<open>realpath\<close> is a parameter: the canonical name of the root directory, if it has one.\<close>

definition canonical_root :: "(string \<Rightarrow> string option) \<Rightarrow> string \<Rightarrow> disk \<Rightarrow> string option" where
  "canonical_root realpath rootfs_in d =
     (if rootfs_in = [] then None
      else case realpath rootfs_in of None \<Rightarrow> None | Some canon \<Rightarrow> if is_dir d canon then Some canon else None)"

definition build_configure_json :: "(string \<Rightarrow> string option) \<Rightarrow> string \<Rightarrow> disk \<Rightarrow> string \<times> disk" where
  "build_configure_json realpath rootfs_in d =
     (case canonical_root realpath rootfs_in d of
        None \<Rightarrow> (jw_out (emit (JObj [(''input'', JStr rootfs_in), (''rootfs'', JNull), (''status'', JStr ''error''),
                   (''message'', JStr ''rootfs path does not exist or is not a directory''), (''actions'', JArr [])]) new_writer), d)
      | Some root \<Rightarrow> (case configure_disk root d of (d', actions) \<Rightarrow>
          (jw_out (emit (JObj [(''input'', JStr rootfs_in), (''rootfs'', JStr root), (''status'', JStr ''ok''),
             (''actions'', JArr (map action_tree actions))]) new_writer), d')))"

section \<open>Reports\<close>

definition file_nonempty :: "disk \<Rightarrow> string \<Rightarrow> bool" where
  "file_nonempty d p \<longleftrightarrow> read_all d p \<noteq> []"

definition dpkg_locks :: "string list" where
  "dpkg_locks = [''/var/lib/dpkg/lock'', ''/var/lib/dpkg/lock-frontend'', ''/var/lib/apt/lists/lock'', ''/var/cache/apt/archives/lock'']"

text \<open>The shell script handed to the caller, line by line.\<close>

definition script_lines :: "string list" where
  "script_lines = [
     ''set -u'',
     ''log() { echo '' @ [dquote] @ ''[vhdp-recovery] $*'' @ [dquote] @ ''; }'',
     ''log '' @ [dquote] @ ''start'' @ [dquote],
     [],
     ''# 1) Ownership: the system tree must be root-owned so apt/dpkg (root via sudo) can write it.'',
     ''#    User homes are intentionally skipped so the non-root session keeps owning its files.'',
     ''for d in /etc /usr /var /bin /sbin /lib /lib32 /lib64 /libx32 /opt /run /srv /boot; do'',
     ''    [ -e '' @ [dquote] @ ''$d'' @ [dquote] @ '' ] && chown -R 0:0 '' @ [dquote] @ ''$d'' @ [dquote] @ '' 2>/dev/null || true'',
     ''done'',
     [],
     ''# 2) Clear stale package-manager locks left by an interrupted run.'',
     ''rm -f /var/lib/dpkg/lock /var/lib/dpkg/lock-frontend '' @ [backslash],
     ''      /var/lib/apt/lists/lock /var/cache/apt/archives/lock 2>/dev/null || true'',
     [],
     ''# 3) dpkg status DB integrity: restore from a good copy when empty/corrupt.'',
     ''DB=/var/lib/dpkg'',
     ''S='' @ [dquote] @ ''$DB/status'' @ [dquote],
     ''if [ ! -s '' @ [dquote] @ ''$S'' @ [dquote] @ '' ]; then'',
     ''    log '' @ [dquote] @ ''status missing/empty; attempting restore'' @ [dquote],
     ''    for b in '' @ [dquote] @ ''$DB/status-old'' @ [dquote] @ '' /var/backups/dpkg.status.0 '' @ [dquote] @ ''$DB/status-new'' @ [dquote] @ ''; do'',
     ''        if [ -s '' @ [dquote] @ ''$b'' @ [dquote] @ '' ]; then cp -a '' @ [dquote] @ ''$b'' @ [dquote] @ '' '' @ [dquote] @ ''$S'' @ [dquote] @ '' && log '' @ [dquote] @ ''restored from $b'' @ [dquote] @ '' && break; fi'',
     ''    done'',
     ''fi'',
     ''[ -s '' @ [dquote] @ ''$S'' @ [dquote] @ '' ] && cp -a '' @ [dquote] @ ''$S'' @ [dquote] @ '' '' @ [dquote] @ ''$DB/status.vhdp-bak'' @ [dquote] @ '' 2>/dev/null || true   # rollback point'',
     [],
     ''# 4) Finish the interrupted transaction; roll the status DB back if it fails.'',
     ''rc=0'',
     ''if command -v dpkg >/dev/null 2>&1; then'',
     ''    if dpkg --configure -a; then'',
     ''        log '' @ [dquote] @ ''dpkg --configure -a OK'' @ [dquote],
     ''    else'',
     ''        log '' @ [dquote] @ ''dpkg --configure -a FAILED -> rolling back status'' @ [dquote],
     ''        [ -s '' @ [dquote] @ ''$DB/status.vhdp-bak'' @ [dquote] @ '' ] && cp -a '' @ [dquote] @ ''$DB/status.vhdp-bak'' @ [dquote] @ '' '' @ [dquote] @ ''$S'' @ [dquote],
     ''        rc=1'',
     ''    fi'',
     ''fi'',
     ''log '' @ [dquote] @ ''done (rc=$rc)'' @ [dquote],
     ''exit '' @ [dquote] @ ''$rc'' @ [dquote]]"

definition kRecoveryScript :: string where
  "kRecoveryScript = concat (map (\<lambda>l. l @ [lf]) script_lines)"

definition build_dpkg_plan_json :: "(string \<Rightarrow> string option) \<Rightarrow> string \<Rightarrow> disk \<Rightarrow> string" where
  "build_dpkg_plan_json realpath rootfs_in d = jw_out (emit (JObj (
     (''input'', JStr rootfs_in) #
     (case canonical_root realpath rootfs_in d of
        None \<Rightarrow> [(''rootfs'', JNull), (''status'', JStr ''error''), (''needs_recovery'', JBool False),
                 (''message'', JStr ''rootfs path does not exist or is not a directory'')]
      | Some root \<Rightarrow>
          (let is_dpkg = is_dir d (root @ ''/var/lib/dpkg'')
           in [(''rootfs'', JStr root), (''is_dpkg_rootfs'', JBool is_dpkg),
               (''status_db'', JObj [(''present'', JBool (file_nonempty d (root @ ''/var/lib/dpkg/status'')))]),
               (''locks'', JArr (map JStr (filter (\<lambda>lk. path_exists d (root @ lk)) dpkg_locks))),
               (''needs_recovery'', JBool is_dpkg), (''script'', JStr (if is_dpkg then kRecoveryScript else [])),
               (''status'', JStr ''ok'')])))) new_writer)"

text \<open>\<open>projectable\<close>: the answers of \<open>stat\<close> and \<open>access\<close>; an errno is given with its text.\<close>

definition projectable :: "(string + bool) \<Rightarrow> string option \<Rightarrow> string option" where
  "projectable stat_dir access_error =
     (case stat_dir of
        Inl e \<Rightarrow> Some (''stat: '' @ e)
      | Inr False \<Rightarrow> Some ''not a directory''
      | Inr True \<Rightarrow> map_option (\<lambda>e. ''not searchable: '' @ e) access_error)"

definition projected_tree :: "(string \<Rightarrow> (string + bool) \<times> string option) \<Rightarrow> string \<Rightarrow> jtree" where
  "projected_tree host d =
     (let why = projectable (fst (host d)) (snd (host d))
      in JObj ([(''host'', JStr d), (''guest'', JStr d), (''available'', JBool (why = None)), (''ro'', JBool False)] @
               (case why of None \<Rightarrow> [] | Some w \<Rightarrow> [(''unavailable_because'', JStr w)])))"

definition build_projection_json :: "string \<Rightarrow> string \<Rightarrow> int \<Rightarrow> (string \<Rightarrow> (string + bool) \<times> string option) \<Rightarrow> string" where
  "build_projection_json machine release page host = jw_out (emit (JObj [
     (''host'', JObj [(''arch'', JStr machine), (''kernel'', JStr release), (''page_size'', JInt page)]),
     (''system_binds'', JArr (map (projected_tree host) [''/dev'', ''/proc'', ''/sys''])),
     (''status'', JStr ''ok'')]) new_writer)"

end
