(* ===== verification/Configure_Safety.thy ===== *)
theory Configure_Safety
  imports Configure
begin

text \<open>
  What the first-boot configuration does to an existing root file system: nothing is lost but
  \<open>/etc/resolv.conf\<close>, and its reports are valid JSON.
\<close>

section \<open>Nothing is lost\<close>

text \<open>Every node but those in \<open>X\<close> is as it was, or a file with text added at its end.\<close>

definition same_or_longer :: "disk_node \<Rightarrow> disk_node \<Rightarrow> bool" where
  "same_or_longer n n' \<longleftrightarrow> n' = n \<or> (\<exists>c e. n = Nd_file c \<and> n' = Nd_file (c @ e))"

definition keeps_nodes :: "string set \<Rightarrow> disk \<Rightarrow> disk \<Rightarrow> bool" where
  "keeps_nodes X d d' \<longleftrightarrow> dk_denied d' = dk_denied d \<and>
     (\<forall>p n. p \<notin> X \<and> dk_nodes d p = Some n \<longrightarrow> (\<exists>n'. dk_nodes d' p = Some n' \<and> same_or_longer n n'))"

lemma same_or_longer_refl [simp]: "same_or_longer n n"
  by (simp add: same_or_longer_def)

lemma same_or_longer_trans: "same_or_longer a b \<Longrightarrow> same_or_longer b c \<Longrightarrow> same_or_longer a c"
  by (auto simp: same_or_longer_def)

lemma keeps_refl [simp]: "keeps_nodes X d d"
  by (simp add: keeps_nodes_def)

lemma keeps_trans: "keeps_nodes X d1 d2 \<Longrightarrow> keeps_nodes X d2 d3 \<Longrightarrow> keeps_nodes X d1 d3"
  unfolding keeps_nodes_def by (metis same_or_longer_trans)

lemma keeps_new: "dk_nodes d p = None \<Longrightarrow> keeps_nodes X d (put_node p n d)"
  by (auto simp: keeps_nodes_def put_node_def)

lemma keeps_basic [simp]:
  "keeps_nodes X d (sys_mkdir p d)" "keeps_nodes X d (snd (sys_symlink t p d))" "keeps_nodes X d (snd (sys_create_excl p d))"
  "keeps_nodes X d (sys_chmod p m d)"
  by (auto simp: sys_mkdir_def sys_symlink_def sys_create_excl_def can_create_def keeps_new)
    (auto simp: sys_chmod_def keeps_nodes_def split: option.splits)

lemma keeps_mkdirs_loop: "keeps_nodes X d (mkdirs_loop p cur d)"
  by (induction p cur d rule: mkdirs_loop.induct) (auto intro: keeps_trans keeps_basic(1))

lemma keeps_mkdirs [simp]: "keeps_nodes X d (snd (mkdirs p d))"
  by (simp add: mkdirs_def Let_def keeps_mkdirs_loop)

lemma keeps_append: "(\<And>c. \<exists>e. f c = c @ e) \<Longrightarrow> keeps_nodes X d (snd (open_write p f d))"
  by (force simp: open_write_def keeps_nodes_def put_node_def can_create_def same_or_longer_def split: option.splits disk_node.splits)

lemma keeps_write_absent: "dk_nodes d p = None \<Longrightarrow> keeps_nodes X d (snd (write_all p c d))"
  by (auto simp: write_all_def open_write_def kMaxLinks_def numeral_eq_Suc can_create_def keeps_new split: option.splits disk_node.splits)

lemma keeps_helpers [simp]:
  "keeps_nodes X d (snd (write_if_absent p c d))" "keeps_nodes X d (snd (append_line_once p l d))"
  by (auto simp: write_if_absent_def path_exists_def keeps_write_absent append_line_once_def Let_def intro!: keeps_append)

lemma keeps_force_write:
  assumes "\<not> dk_denied d p"
  shows "keeps_nodes {p} d (snd (force_write p c d))"
proof (cases "dk_nodes d p = Some Nd_dir")
  case True
  then show ?thesis by (simp add: force_write_def sys_unlink_def write_all_def open_write_def kMaxLinks_def numeral_eq_Suc)
next
  case False
  let ?d = "sys_unlink p d"
  have "dk_nodes ?d p = None" using False assms by (simp add: sys_unlink_def)
  then have "keeps_nodes {p} ?d (snd (write_all p c ?d))" by (rule keeps_write_absent)
  moreover have "keeps_nodes {p} d ?d" by (auto simp: keeps_nodes_def sys_unlink_def)
  ultimately show ?thesis unfolding force_write_def by (metis keeps_trans)
qed


lemma keeps_fold:
  assumes "\<And>x s. keeps_nodes X (g s) (g (f x s))"
  shows "keeps_nodes X (g s) (g (fold f xs s))"
proof (induction xs arbitrary: s)
  case (Cons x xs)
  then show ?case using keeps_trans [OF assms [of s x]] by simp
qed simp

lemma keeps_make:
  assumes "\<And>d. keeps_nodes X d (snd (f d))"
  shows "keeps_nodes X (snd x) (snd (make_if_absent p f x))"
  using assms [of "snd x"] by (auto simp: make_if_absent_def split: prod.splits)

lemma fst_did [simp]: "fst (did i detail s) = fst s"
  by (simp add: did_def)

lemma keeps_report_if: "keeps_nodes X (fst s) (snd (f (fst s))) \<Longrightarrow> keeps_nodes X (fst s) (fst (report_if f i detail s))"
  by (auto simp: report_if_def split: prod.splits)

lemma keeps_mountpoints: "keeps_nodes X (fst s) (fst (mountpoints root s))"
  unfolding mountpoints_def fst_did run_disk_def fst_conv
  by (rule keeps_trans [OF keeps_fold [where g = "\<lambda>d. d"] keeps_basic(4)]) simp

lemma keeps_dev_entries: "keeps_nodes X (fst s) (fst (dev_entries root s))"
proof -
  let ?dev = "root @ ''/dev''"
  define x1 where "x1 = fold (\<lambda>(n, t). make_if_absent (?dev @ ''/'' @ n) (sys_symlink t (?dev @ ''/'' @ n))) dev_links (0, fst s)"
  define x2 where "x2 = fold (\<lambda>n. make_if_absent (?dev @ ''/'' @ n) (mkdirs (?dev @ ''/'' @ n))) [''shm'', ''pts''] x1"
  define x3 where "x3 = (fst x2, sys_chmod (?dev @ ''/shm'') 1023 (snd x2))"
  define x4 where "x4 = fold (\<lambda>n. make_if_absent (?dev @ ''/'' @ n) (sys_create_excl (?dev @ ''/'' @ n)))
    [''null'', ''zero'', ''full'', ''random'', ''urandom'', ''tty'', ''ptmx''] x3"
  have "keeps_nodes X (snd (0::nat, fst s)) (snd x1)" unfolding x1_def
    by (rule keeps_fold) (auto intro: keeps_make split: prod.splits)
  moreover have "keeps_nodes X (snd x1) (snd x2)" unfolding x2_def by (rule keeps_fold) (auto intro: keeps_make)
  moreover have "keeps_nodes X (snd x2) (snd x3)" by (simp add: x3_def)
  moreover have "keeps_nodes X (snd x3) (snd x4)" unfolding x4_def by (rule keeps_fold) (auto intro: keeps_make)
  ultimately have "keeps_nodes X (fst s) (snd x4)" by (metis keeps_trans snd_conv)
  then show ?thesis unfolding dev_entries_def Let_def fst_did x1_def [symmetric] x2_def [symmetric] x3_def [symmetric] x4_def [symmetric] by simp
qed

lemma keeps_user_entries: "keeps_nodes X (fst s) (fst (user_entries etc s))"
proof -
  have two: "keeps_nodes X d (snd (append_line_once p2 l2 (snd (append_line_once p1 l1 d))))" for d p1 l1 p2 l2
    by (rule keeps_trans [OF keeps_helpers(2) keeps_helpers(2)])
  have three: "keeps_nodes X d (snd (append_line_once p3 l3 (snd (append_line_once p2 l2 (snd (append_line_once p1 l1 d))))))" for d p1 l1 p2 l2 p3 l3
    by (rule keeps_trans [OF two keeps_helpers(2)])
  show ?thesis by (simp add: user_entries_def run_disk_def Let_def two three)
qed

lemma keeps_sudoers: "keeps_nodes X (fst s) (fst (sudoers_entry etc s))"
proof (cases "path_exists (fst s) (etc @ ''/sudoers.d/dracos'')")
  case False
  then have "keeps_nodes X (fst s) (snd (write_all (etc @ ''/sudoers.d/dracos'') (''dracos ALL=(ALL) NOPASSWD:ALL'' @ [lf]) (fst s)))"
    by (intro keeps_write_absent) (simp add: path_exists_def)
  then show ?thesis by (auto simp: sudoers_entry_def Let_def split: prod.splits intro: keeps_trans keeps_basic(4))
qed (simp add: sudoers_entry_def Let_def)

lemma keeps_login_user: "keeps_nodes X (fst s) (fst (login_user root s))"
proof -
  have "keeps_nodes X (fst s) (snd (mkdirs p (fst (sudoers_entry etc (user_entries etc s)))))" for p etc
    by (rule keeps_trans [OF keeps_trans [OF keeps_user_entries keeps_sudoers] keeps_mkdirs])
  then show ?thesis by (auto simp: login_user_def Let_def run_disk_def)
qed

lemma keeps_configure:
  assumes "\<not> dk_denied d (root @ ''/etc/resolv.conf'')"
  shows "keeps_nodes {root @ ''/etc/resolv.conf''} d (fst (configure_disk root d))"
proof -
  let ?X = "{root @ ''/etc/resolv.conf''}" and ?s0 = "dev_entries root (mountpoints root (d, []))"
  have s0: "keeps_nodes ?X d (fst ?s0)"
    using keeps_trans [OF keeps_mountpoints keeps_dev_entries, of ?X "(d, [])" root root] by simp
  then have "\<not> dk_denied (fst ?s0) (root @ ''/etc/resolv.conf'')" using assms by (simp add: keeps_nodes_def)
  then have f: "keeps_nodes ?X (fst ?s0) (snd (force_write (root @ ''/etc/resolv.conf'') c (fst ?s0)))" for c
    by (rule keeps_force_write)
  let ?s1 = "report_if (force_write (root @ ''/etc/resolv.conf'') resolv_text) ''resolv.conf'' ''forced'' ?s0"
  have "keeps_nodes ?X (fst ?s0) (fst ?s1)" by (rule keeps_report_if) (rule f)
  then have s1: "keeps_nodes ?X d (fst ?s1)" by (rule keeps_trans [OF s0])
  have w: "keeps_nodes ?X (fst s) (fst (report_if (write_if_absent p c) i t s))" for p c i t s
    by (rule keeps_report_if) simp
  show ?thesis
    unfolding configure_disk_def Let_def append_assoc append_Cons append_Nil
    by (rule keeps_trans [OF _ keeps_login_user], rule keeps_trans [OF _ w], rule keeps_trans [OF _ w], rule keeps_trans [OF _ w],
        rule keeps_trans [OF _ w], rule s1)
qed


section \<open>Reports\<close>

text \<open>
  The three reports are valid JSON whatever names, errors and file contents go into them.
\<close>

theorem rootfs_reports_valid:
  "json_validate (fst (build_configure_json realpath rootfs d)) \<and> json_validate (build_dpkg_plan_json realpath rootfs d) \<and>
   json_validate (build_projection_json machine release page host)"
proof -
  have valid: "fits 0 t \<Longrightarrow> json_validate (jw_out (emit t new_writer))" for t
    unfolding jw_out_emit_new by (rule json_validate_reads) (simp add: reads_jtext)
  have "fits 2 (action_tree a)" for a by (simp add: action_tree_def)
  then have "json_validate (fst (build_configure_json realpath rootfs d))"
    unfolding build_configure_json_def
    by (auto simp: numeral_2_eq_2 simp del: emit.simps split: option.splits prod.splits intro!: valid)
  moreover have "json_validate (build_dpkg_plan_json realpath rootfs d)"
    unfolding build_dpkg_plan_json_def by (rule valid) (auto simp: Let_def split: option.splits)
  moreover have "json_validate (build_projection_json machine release page host)"
    unfolding build_projection_json_def by (rule valid) (auto simp: projected_tree_def Let_def split: option.splits)
  ultimately show ?thesis by blast
qed


section \<open>A small root file system\<close>

definition small_disk :: disk where
  "small_disk = \<lparr>dk_nodes = [''/r'' \<mapsto> Nd_dir, ''/r/etc'' \<mapsto> Nd_dir, ''/r/etc/hosts'' \<mapsto> Nd_file ''x'',
     ''/r/etc/passwd'' \<mapsto> Nd_file [], ''/r/etc/group'' \<mapsto> Nd_file ''olddracos:x:1000:''],
     dk_modes = Map.empty, dk_denied = (\<lambda>_. False)\<rparr>"

lemma small_root: "canonical_root (\<lambda>_. Some ''/r'') ''/r'' small_disk = Some ''/r''"
  by code_simp


text \<open>
  The line of the group is looked for anywhere in the file: the entry of another group that ends in the
  same text keeps it from being added, although the user that names the group is.
\<close>

lemma group_line_found_inside_another:
  "let d = fst (user_entries ''/r/etc'' (small_disk, [])) in
     read_all d ''/r/etc/group'' = ''olddracos:x:1000:'' \<and> has_user_dracos (read_all d ''/r/etc/passwd'')"
  by code_simp

end
