(* ===== verification/Host_Probe.thy ===== *)
theory Host_Probe
  imports Supervisor_Events Trace_Monad
begin

text \<open>
  Questions about the host (\<open>src/src/platform/linux/host_probe.cpp\<close>, \<open>probe_child.c\<close>).  The active
  probes are programs over the system calls they issue, in the monad of \<open>Trace_Monad\<close>; the read-only
  ones are functions of the files and variables of the host.
\<close>

section \<open>Active probes\<close>

datatype probe_child = Child_waiter | Child_seccomp | Child_openat2 | Child_userns nat nat string

datatype probe_call =
    Pc_pipe | Pc_spawn probe_child | Pc_read_ready | Pc_seize int | Pc_interrupt int | Pc_wait_stop int
  | Pc_syscall_info int | Pc_kill int | Pc_reap int | Pc_mkdir string | Pc_rmdir string | Pc_openat2
  | Pc_mkstemp string | Pc_write int nat | Pc_unlink string | Pc_mmap int nat | Pc_munmap int nat | Pc_close int

type_synonym probe_log = "(probe_call \<times> int) list"

text \<open>
  The kernel: an answer to every call after the calls before it (an errno is negative), and the
  reports \<open>waitpid\<close> gives in order for a child.  When they run out the probe is still waiting.
\<close>

record probe_kernel =
  pk_call :: "probe_log \<Rightarrow> probe_call \<Rightarrow> int"
  pk_waits :: "probe_log \<Rightarrow> int \<Rightarrow> wait_report list"

type_synonym 'a probing = "(probe_call \<times> int, unit, 'a) traced"

definition pcall :: "probe_kernel \<Rightarrow> probe_call \<Rightarrow> int probing" where
  "pcall k x ops = (Inr (pk_call k ops x), ops @ [(x, pk_call k ops x)])"

fun reap_status :: "int \<Rightarrow> wait_report list \<Rightarrow> int option" where
  "reap_status pid [] = None"
| "reap_status pid (Reported r st # rs) =
     (if r = pid then (if wif_exited st \<or> wif_signaled st then Some (int st) else reap_status pid rs) else Some (- 1))"
| "reap_status pid (Wait_failed e # rs) = (if e = EINTR then reap_status pid rs else Some (- 1))"

definition reap :: "probe_kernel \<Rightarrow> int \<Rightarrow> int probing" where
  "reap k pid ops =
     (case reap_status pid (pk_waits k ops pid) of
        None \<Rightarrow> (Inl (), ops)
      | Some st \<Rightarrow> (Inr st, ops @ [(Pc_reap pid, st)]))"

text \<open>The first report other than an interruption, as \<open>waitpid\<close> is repeated for it.\<close>

fun first_report :: "wait_report list \<Rightarrow> wait_report option" where
  "first_report [] = None"
| "first_report (Wait_failed e # rs) = (if e = EINTR then first_report rs else Some (Wait_failed e))"
| "first_report (Reported r st # rs) = Some (Reported r st)"

definition wait_stop :: "probe_kernel \<Rightarrow> int \<Rightarrow> bool probing" where
  "wait_stop k pid ops =
     (case first_report (pk_waits k ops pid) of
        None \<Rightarrow> (Inl (), ops)
      | Some (Wait_failed e) \<Rightarrow> (Inr False, ops @ [(Pc_wait_stop pid, - int e)])
      | Some (Reported r st) \<Rightarrow> (Inr (r = pid \<and> wif_stopped st), ops @ [(Pc_wait_stop pid, int st)]))"

definition err_text :: "int \<Rightarrow> string" where "err_text r = errno_text (nat (- r))"

record ptrace_probe =
  pp_ok :: bool
  pp_err :: int
  pp_get_syscall_info :: bool
  pp_detail :: string

definition no_ptrace :: "int \<Rightarrow> string \<Rightarrow> ptrace_probe" where
  "no_ptrace r what = \<lparr>pp_ok = False, pp_err = - r, pp_get_syscall_info = False, pp_detail = what @ err_text r\<rparr>"

definition kill_and_reap :: "probe_kernel \<Rightarrow> int \<Rightarrow> 'a \<Rightarrow> 'a probing" where
  "kill_and_reap k pid x = tr_bind (pcall k (Pc_kill pid)) (\<lambda>_. tr_bind (reap k pid) (\<lambda>_. tr_return x))"

definition ask_syscall_info :: "probe_kernel \<Rightarrow> int \<Rightarrow> bool probing" where
  "ask_syscall_info k pid = tr_bind (pcall k (Pc_interrupt pid)) (\<lambda>r.
     if r \<noteq> 0 then tr_return False
     else tr_bind (wait_stop k pid) (\<lambda>stopped.
       if \<not> stopped then tr_return False
       else tr_bind (pcall k (Pc_syscall_info pid)) (\<lambda>n. tr_return (n > 0))))"

definition probe_ptrace_child :: "probe_kernel \<Rightarrow> ptrace_probe probing" where
  "probe_ptrace_child k = tr_bind (pcall k Pc_pipe) (\<lambda>r.
     if r \<noteq> 0 then tr_return (no_ptrace r ''pipe2 failed: '')
     else tr_bind (pcall k Pc_pipe) (\<lambda>r.
     if r \<noteq> 0 then tr_return (no_ptrace r ''pipe2 failed: '')
     else tr_bind (pcall k (Pc_spawn Child_waiter)) (\<lambda>pid.
     if pid < 0 then tr_return (no_ptrace pid ''clone failed: '')
     else tr_bind (pcall k Pc_read_ready) (\<lambda>_. tr_bind (pcall k (Pc_seize pid)) (\<lambda>r.
     if r \<noteq> 0 then kill_and_reap k pid (no_ptrace r ''PTRACE_SEIZE of a child failed: '')
     else tr_bind (ask_syscall_info k pid) (\<lambda>i.
       kill_and_reap k pid \<lparr>pp_ok = True, pp_err = 0, pp_get_syscall_info = i,
         pp_detail = ''PTRACE_SEIZE of a child succeeded''\<rparr>))))))"

record seccomp_probe =
  sp_ok :: bool
  sp_err :: int
  sp_ret_trace :: bool
  sp_detail :: string

definition exited_with :: "int \<Rightarrow> nat option" where
  "exited_with st = (if st \<ge> 0 \<and> wif_exited (nat st) then Some (wexitstatus (nat st)) else None)"

definition seccomp_answer :: "int \<Rightarrow> seccomp_probe" where
  "seccomp_answer st =
     (case exited_with st of
        None \<Rightarrow> \<lparr>sp_ok = False, sp_err = 0, sp_ret_trace = False, sp_detail = ''seccomp probe child did not exit normally''\<rparr>
      | Some c \<Rightarrow>
          if c = 0 then \<lparr>sp_ok = True, sp_err = 0, sp_ret_trace = True,
                         sp_detail = ''seccomp filter installation under no_new_privs succeeded''\<rparr>
          else \<lparr>sp_ok = False, sp_err = int c - 1, sp_ret_trace = False,
                sp_detail = ''seccomp filter installation failed: '' @ errno_text (c - 1)\<rparr>)"

definition probe_seccomp_filter :: "probe_kernel \<Rightarrow> seccomp_probe probing" where
  "probe_seccomp_filter k = tr_bind (pcall k (Pc_spawn Child_seccomp)) (\<lambda>pid.
     if pid < 0 then tr_return \<lparr>sp_ok = False, sp_err = - pid, sp_ret_trace = False, sp_detail = ''clone failed: '' @ err_text pid\<rparr>
     else tr_bind (reap k pid) (\<lambda>st. tr_return (seccomp_answer st)))"

record namespace_probe =
  np_ran :: bool
  np_bits :: nat
  np_detail :: string

definition ns_not_run :: "string \<Rightarrow> namespace_probe" where
  "ns_not_run d = \<lparr>np_ran = False, np_bits = 0, np_detail = d\<rparr>"

text \<open>The first candidate that can be created, or the first error.\<close>

fun make_mountpoint :: "probe_kernel \<Rightarrow> string \<Rightarrow> string list \<Rightarrow> string \<Rightarrow> (string + string) probing" where
  "make_mountpoint k leaf [] why = tr_return (Inl why)"
| "make_mountpoint k leaf (base # bases) why =
     (if base = [] then make_mountpoint k leaf bases why
      else tr_bind (pcall k (Pc_mkdir (base @ leaf))) (\<lambda>r.
        if r = 0 then tr_return (Inr (base @ leaf))
        else make_mountpoint k leaf bases (if why = [] then ''mkdir '' @ base @ leaf @ '': '' @ err_text r else why)))"

definition ns_answer :: "int \<Rightarrow> namespace_probe" where
  "ns_answer st =
     (case exited_with st of
        None \<Rightarrow> ns_not_run ''namespace probe child did not exit normally''
      | Some c \<Rightarrow> \<lparr>np_ran = True, np_bits = c, np_detail = ''disposable user+mount namespace probe completed''\<rparr>)"

definition probe_user_namespaces :: "probe_kernel \<Rightarrow> int \<Rightarrow> string option \<Rightarrow> int \<Rightarrow> nat \<Rightarrow> nat \<Rightarrow> namespace_probe probing" where
  "probe_user_namespaces k tracer tmpdir_env pid uid gid =
     (if tracer > 0
      then tr_return (ns_not_run (''skipped: this process is traced by PID '' @ int_string tracer @
        '' (a ptrace supervisor), which may emulate unshare(2) and mount(2); the result would describe the supervisor, not the kernel''))
      else tr_bind (make_mountpoint k (''/.vhdp-nsprobe-'' @ int_string pid)
                     [case tmpdir_env of None \<Rightarrow> [] | Some t \<Rightarrow> t, ''/tmp'', ''/data/local/tmp''] []) (\<lambda>m.
        case m of
          Inl why \<Rightarrow> tr_return (ns_not_run (''no probe mountpoint (set TMPDIR to a writable directory): '' @ why))
        | Inr mp \<Rightarrow> tr_bind (pcall k (Pc_spawn (Child_userns uid gid mp))) (\<lambda>pid.
            if pid < 0 then tr_bind (pcall k (Pc_rmdir mp)) (\<lambda>_. tr_return (ns_not_run (''clone failed: '' @ err_text pid)))
            else tr_bind (reap k pid) (\<lambda>st. tr_bind (pcall k (Pc_rmdir mp)) (\<lambda>_. tr_return (ns_answer st))))))"

record openat2_probe =
  op_probed :: bool
  op_available :: bool
  op_detail :: string

definition sigsys :: nat where "sigsys = 31"

definition openat2_answer :: "int \<Rightarrow> openat2_probe" where
  "openat2_answer st =
     (case exited_with st of
        Some c \<Rightarrow> \<lparr>op_probed = True, op_available = (c = 0),
          op_detail = (if c = 0 then ''openat2 available (probed in a disposable child)''
                       else ''openat2 unavailable (ENOSYS, probed in a disposable child)'')\<rparr>
      | None \<Rightarrow>
          if st \<ge> 0 \<and> wif_signaled (nat st) \<and> wtermsig (nat st) = sigsys
          then \<lparr>op_probed = True, op_available = False,
                op_detail = ''openat2 blocked by this process'' @ [CHR 0x27] @ ''s seccomp filter (probe child killed by SIGSYS)''\<rparr>
          else \<lparr>op_probed = False, op_available = False, op_detail = ''not probed: openat2 probe child did not exit normally''\<rparr>)"

text \<open>\<open>mode\<close> is \<open>seccomp_status()\<close>.\<close>

definition probe_openat2 :: "probe_kernel \<Rightarrow> string \<Rightarrow> bool \<Rightarrow> openat2_probe probing" where
  "probe_openat2 k mode allow_child =
     (if mode = ''0''
      then tr_bind (pcall k Pc_openat2) (\<lambda>r. let avail = (r \<noteq> - int ENOSYS)
             in tr_return \<lparr>op_probed = True, op_available = avail,
                           op_detail = (if avail then ''openat2 available'' else ''openat2 unavailable (ENOSYS)'')\<rparr>)
      else if \<not> allow_child
      then tr_return \<lparr>op_probed = False, op_available = False,
        op_detail = ''not probed: this process runs under a seccomp filter (Seccomp: '' @ mode @
          ''), which can kill it with SIGSYS for syscalls outside its allowlist; active probes test openat2 in a disposable child''\<rparr>
      else tr_bind (pcall k (Pc_spawn Child_openat2)) (\<lambda>pid.
        if pid < 0 then tr_return \<lparr>op_probed = False, op_available = False, op_detail = ''not probed: clone failed: '' @ err_text pid\<rparr>
        else tr_bind (reap k pid) (\<lambda>st. tr_return (openat2_answer st))))"

record exec_mapping_probe =
  xm_probed :: bool
  xm_allowed :: bool
  xm_err :: int
  xm_detail :: string

definition xm_not_probed :: "string \<Rightarrow> exec_mapping_probe" where
  "xm_not_probed d = \<lparr>xm_probed = False, xm_allowed = False, xm_err = 0, xm_detail = ''not probed: '' @ d\<rparr>"

text \<open>\<open>writable\<close> is \<open>access(dir, W_OK | X_OK) == 0\<close>, \<open>ps\<close> the page size.\<close>

definition probe_exec_mapping :: "probe_kernel \<Rightarrow> (string \<Rightarrow> bool) \<Rightarrow> int \<Rightarrow> string \<Rightarrow> exec_mapping_probe probing" where
  "probe_exec_mapping k writable ps dir =
     (if dir = [] \<or> \<not> writable dir
      then tr_return (xm_not_probed (''no writable directory'' @ (if dir = [] then [] else '' ('' @ dir @ '')'')))
      else let name = dir @ ''/.vhdp-xmap-XXXXXX''; len = (if ps > 0 then nat ps else 4096)
           in tr_bind (pcall k (Pc_mkstemp name)) (\<lambda>fd.
        if fd < 0 then tr_return (xm_not_probed (''cannot create a file in '' @ dir @ '': '' @ err_text fd))
        else tr_bind (pcall k (Pc_write fd len)) (\<lambda>n. tr_bind (pcall k (Pc_unlink name)) (\<lambda>_.
        if n \<noteq> int len
        then tr_bind (pcall k (Pc_close fd)) (\<lambda>_. tr_return (xm_not_probed (''cannot write a probe file in '' @ dir)))
        else tr_bind (pcall k (Pc_mmap fd len)) (\<lambda>m.
        if raw_is_error m
        then tr_bind (pcall k (Pc_close fd)) (\<lambda>_. tr_return \<lparr>xm_probed = True, xm_allowed = False, xm_err = - m,
               xm_detail = ''mapping a file from '' @ dir @ '' PROT_EXEC is refused: '' @ err_text m\<rparr>)
        else tr_bind (pcall k (Pc_munmap m len)) (\<lambda>_. tr_bind (pcall k (Pc_close fd)) (\<lambda>_.
               tr_return \<lparr>xm_probed = True, xm_allowed = True, xm_err = 0,
                 xm_detail = ''files from '' @ dir @ '' can be mapped PROT_EXEC''\<rparr>)))))))"

section \<open>The children of the probes\<close>

text \<open>
  Exit codes from the answers of the calls a child issues; \<open>child_wait_status\<close> is the wait status of
  a child that exits with a code.
\<close>

definition child_wait_status :: "int \<Rightarrow> nat" where "child_wait_status c = nat (c mod 256) * 256"

definition seccomp_error_code :: "int \<Rightarrow> int" where
  "seccomp_error_code r = 1 + (if - r > 253 then 253 else - r)"

definition seccomp_child :: "int \<Rightarrow> int \<Rightarrow> int" where
  "seccomp_child no_new_privs set_seccomp =
     (if raw_is_error no_new_privs then seccomp_error_code no_new_privs
      else if raw_is_error set_seccomp then seccomp_error_code set_seccomp else 0)"

definition VHDP_OPENAT2_PROBE_AVAILABLE :: int where "VHDP_OPENAT2_PROBE_AVAILABLE = 0"
definition VHDP_OPENAT2_PROBE_ENOSYS :: int where "VHDP_OPENAT2_PROBE_ENOSYS = 1"

definition openat2_child :: "int \<Rightarrow> int" where
  "openat2_child r = (if r = - int ENOSYS then VHDP_OPENAT2_PROBE_ENOSYS else VHDP_OPENAT2_PROBE_AVAILABLE)"

text \<open>The digits are collected from the last one on, at most 16 of them.\<close>

fun map_digits :: "nat \<Rightarrow> 32 word \<Rightarrow> string" where
  "map_digits 0 v = []"
| "map_digits (Suc room) v = (let c = digit_char (unat (v mod 10)) in
     if v div 10 = 0 then [c] else map_digits room (v div 10) @ [c])"

definition format_map :: "32 word \<Rightarrow> string" where
  "format_map v = ''0 '' @ map_digits 16 v @ '' 1''"

definition join_path :: "nat \<Rightarrow> string \<Rightarrow> string \<Rightarrow> string" where
  "join_path cap a b = take (cap - 1) (a @ [slash] @ b)"

datatype ns_call =
    Nc_unshare_user_mount | Nc_open string | Nc_write int string | Nc_close int | Nc_make_private
  | Nc_mount_tmpfs string | Nc_mkdir string | Nc_mount_devpts string | Nc_unshare_pid | Nc_fork string | Nc_wait int

type_synonym ns_log = "(ns_call \<times> int) list"
type_synonym ns_kernel = "ns_log \<Rightarrow> ns_call \<Rightarrow> int"
type_synonym 'a in_ns = "(ns_call \<times> int, unit, 'a) traced"

definition ncall :: "ns_kernel \<Rightarrow> ns_call \<Rightarrow> int in_ns" where
  "ncall k x ops = (Inr (k ops x), ops @ [(x, k ops x)])"

definition write_file :: "ns_kernel \<Rightarrow> string \<Rightarrow> string \<Rightarrow> bool in_ns" where
  "write_file k path dat = tr_bind (ncall k (Nc_open path)) (\<lambda>fd.
     if raw_is_error fd then tr_return False
     else tr_bind (ncall k (Nc_write fd dat)) (\<lambda>r. tr_bind (ncall k (Nc_close fd)) (\<lambda>_.
          tr_return (r = int (length dat)))))"

definition VHDP_NS_PROBE_USERNS :: nat where "VHDP_NS_PROBE_USERNS = 1"
definition VHDP_NS_PROBE_MOUNTNS :: nat where "VHDP_NS_PROBE_MOUNTNS = 2"
definition VHDP_NS_PROBE_TMPFS :: nat where "VHDP_NS_PROBE_TMPFS = 4"
definition VHDP_NS_PROBE_DEVPTS :: nat where "VHDP_NS_PROBE_DEVPTS = 8"
definition VHDP_NS_PROBE_PROC :: nat where "VHDP_NS_PROBE_PROC = 16"

definition kSubMax :: nat where "kSubMax = 256"

text \<open>
  The mounts.  \<open>Nc_fork sub\<close> starts the grandchild that mounts procfs on \<open>sub\<close> and exits with 0 when it could;
  \<open>Nc_wait\<close> answers its wait status, or an error, repeated while it is interrupted.
\<close>

definition write_id_maps :: "ns_kernel \<Rightarrow> 32 word \<Rightarrow> 32 word \<Rightarrow> bool in_ns" where
  "write_id_maps k uid gid =
     tr_bind (write_file k ''/proc/self/setgroups'' ''deny'') (\<lambda>_.
     tr_bind (write_file k ''/proc/self/uid_map'' (format_map uid)) (\<lambda>ok.
     if \<not> ok then tr_return False else write_file k ''/proc/self/gid_map'' (format_map gid)))"

definition try_devpts :: "ns_kernel \<Rightarrow> string \<Rightarrow> nat in_ns" where
  "try_devpts k mountpoint =
     (let sub = join_path kSubMax mountpoint ''pts''
      in tr_bind (ncall k (Nc_mkdir sub)) (\<lambda>_. tr_bind (ncall k (Nc_mount_devpts sub)) (\<lambda>r.
           tr_return (if raw_is_error r then 0 else VHDP_NS_PROBE_DEVPTS))))"

definition try_proc :: "ns_kernel \<Rightarrow> string \<Rightarrow> nat in_ns" where
  "try_proc k mountpoint =
     (let sub = join_path kSubMax mountpoint ''proc''
      in tr_bind (ncall k (Nc_mkdir sub)) (\<lambda>_. tr_bind (ncall k Nc_unshare_pid) (\<lambda>r.
         if raw_is_error r then tr_return 0
         else tr_bind (ncall k (Nc_fork sub)) (\<lambda>pid.
           if pid \<le> 0 then tr_return 0
           else tr_bind (ncall k (Nc_wait pid)) (\<lambda>st.
             tr_return (if st \<ge> 0 \<and> wif_exited (nat st) \<and> wexitstatus (nat st) = 0 then VHDP_NS_PROBE_PROC else 0))))))"

definition userns_child :: "ns_kernel \<Rightarrow> 32 word \<Rightarrow> 32 word \<Rightarrow> string \<Rightarrow> nat in_ns" where
  "userns_child k uid gid mountpoint = tr_bind (ncall k Nc_unshare_user_mount) (\<lambda>r.
     if raw_is_error r then tr_return 0
     else tr_bind (write_id_maps k uid gid) (\<lambda>ok.
     if \<not> ok then tr_return VHDP_NS_PROBE_USERNS
     else tr_bind (ncall k Nc_make_private) (\<lambda>r.
     if raw_is_error r then tr_return VHDP_NS_PROBE_USERNS
     else tr_bind (ncall k (Nc_mount_tmpfs mountpoint)) (\<lambda>r.
     if raw_is_error r then tr_return (VHDP_NS_PROBE_USERNS + VHDP_NS_PROBE_MOUNTNS)
     else tr_bind (try_devpts k mountpoint) (\<lambda>d. tr_bind (try_proc k mountpoint) (\<lambda>p.
       tr_return (VHDP_NS_PROBE_USERNS + VHDP_NS_PROBE_MOUNTNS + VHDP_NS_PROBE_TMPFS + d + p)))))))"

section \<open>Read-only questions\<close>

record probe_host =
  ph_read :: "string \<Rightarrow> errno + string"
  ph_readlink :: "string \<Rightarrow> errno + string"
  ph_env :: "string \<Rightarrow> string option"
  ph_executable :: "string \<Rightarrow> bool"          \<comment> \<open>\<open>access(path, X_OK) == 0\<close>\<close>
  ph_exists :: "string \<Rightarrow> bool"              \<comment> \<open>\<open>access(path, F_OK) == 0\<close>\<close>
  ph_statfs :: "string \<Rightarrow> nat option"        \<comment> \<open>the type of the file system\<close>
  ph_statvfs :: "string \<Rightarrow> nat option"       \<comment> \<open>the mount flags\<close>
  ph_uid :: nat
  ph_android_build :: bool                  \<comment> \<open>\<open>defined(__ANDROID__)\<close>\<close>
  ph_sdk_property :: string                 \<comment> \<open>\<open>ro.build.version.sdk\<close>, empty when unset\<close>
  ph_anchor :: nat                          \<comment> \<open>an address inside the module that holds the library\<close>

definition yama_ptrace_scope :: "probe_host \<Rightarrow> int option" where
  "yama_ptrace_scope h =
     (case read_small_file (ph_read h) ''/proc/sys/kernel/yama/ptrace_scope'' 64 of
        Inr (c # cs) \<Rightarrow> Some (int (byte c) - 48) | _ \<Rightarrow> None)"

definition selinux_mode :: "probe_host \<Rightarrow> string" where
  "selinux_mode h =
     (case read_small_file (ph_read h) ''/sys/fs/selinux/enforce'' 16 of
        Inr (c # cs) \<Rightarrow> if c = CHR ''1'' then ''enforcing'' else ''permissive'' | _ \<Rightarrow> ''disabled/absent'')"

definition selinux_context :: "probe_host \<Rightarrow> string" where
  "selinux_context h =
     (case read_small_file (ph_read h) ''/proc/self/attr/current'' 512 of
        Inl e \<Rightarrow> [] | Inr s \<Rightarrow> rev (dropWhile (\<lambda>c. c = nul \<or> c = CHR 0x0A) (rev s)))"

definition seccomp_status :: "probe_host \<Rightarrow> string" where
  "seccomp_status h = (case proc_status_field (ph_read h) 0 ''Seccomp'' of None \<Rightarrow> ''unknown'' | Some v \<Rightarrow> v)"

definition kCgroup2Magic :: nat where "kCgroup2Magic = 0x63677270"

definition cgroup2_available :: "probe_host \<Rightarrow> bool" where
  "cgroup2_available h \<longleftrightarrow> ph_statfs h ''/sys/fs/cgroup'' = Some kCgroup2Magic"

fun after_sub :: "string \<Rightarrow> string \<Rightarrow> string option" where
  "after_sub needle [] = (if needle = [] then Some [] else None)"
| "after_sub needle (c # cs) =
     (if starts_with (c # cs) needle then Some (drop (length needle) (c # cs)) else after_sub needle cs)"

definition cgroup_self_path :: "probe_host \<Rightarrow> string" where
  "cgroup_self_path h =
     (case read_small_file (ph_read h) ''/proc/self/cgroup'' 4096 of
        Inl e \<Rightarrow> []
      | Inr s \<Rightarrow> (case after_sub ''0::'' s of None \<Rightarrow> [] | Some r \<Rightarrow> takeWhile (\<lambda>c. c \<noteq> CHR 0x0A) r))"

definition is_android_host :: "probe_host \<Rightarrow> bool" where
  "is_android_host h \<longleftrightarrow> ph_android_build h \<or> ph_exists h ''/system/build.prop''"

definition android_sdk_level :: "probe_host \<Rightarrow> nat option" where
  "android_sdk_level h =
     (if ph_android_build h \<and> ph_sdk_property h \<noteq> [] then Some (dec_value (takeWhile digit_byte (ph_sdk_property h))) else None)"

definition android_app_context :: "probe_host \<Rightarrow> bool" where
  "android_app_context h \<longleftrightarrow> contains_sub '':untrusted_app'' (selinux_context h) \<or>
     (is_android_host h \<and> (let app_id = ph_uid h mod 100000 in 10000 \<le> app_id \<and> app_id \<le> 19999))"

text \<open>
  \<open>mapped_file_containing\<close>: \<open>fgets\<close> cuts the table of mappings into lines of at most \<open>n\<close> = 4095 bytes; the fields of a
  line are read as \<open>sscanf\<close> does for the plain hexadecimal numbers the kernel writes.
\<close>

definition kLineMax :: nat where "kLineMax = 4095"

function fgets_lines :: "nat \<Rightarrow> string \<Rightarrow> string list" where
  "fgets_lines n s =
     (if s = [] \<or> n = 0 then []
      else let piece = take n s; l = takeWhile (\<lambda>c. c \<noteq> CHR 0x0A) piece;
               line = (if length l < length piece then l @ [CHR 0x0A] else l)
           in line # fgets_lines n (drop (length line) s))"
  by pat_completeness auto
termination
proof (relation "measure (\<lambda>(n, s). length s)", goal_cases)
  case (2 n s piece l line)
  have "piece \<noteq> []" using 2(1,2) by simp
  then have "line \<noteq> []" using 2(3,4) by (cases piece) auto
  then show ?case using 2(1) by simp
qed simp

declare fgets_lines.simps [simp del]

definition hex_byte :: "char \<Rightarrow> nat option" where
  "hex_byte c = (if digit_byte c then Some (byte c - 48)
     else if 97 \<le> byte c \<and> byte c \<le> 102 then Some (byte c - 87)
     else if 65 \<le> byte c \<and> byte c \<le> 70 then Some (byte c - 55) else None)"

definition scan_hex :: "string \<Rightarrow> (nat \<times> string) option" where
  "scan_hex s =
     (let s1 = dropWhile c_white s; ds = takeWhile (\<lambda>c. hex_byte c \<noteq> None) s1
      in if ds = [] then None
         else Some (min (foldl (\<lambda>v c. 16 * v + the (hex_byte c)) 0 ds) (2 ^ 64 - 1), drop (length ds) s1))"

definition scan_word :: "string \<Rightarrow> string option" where
  "scan_word s = (let s1 = dropWhile c_white s in if s1 = [] then None else Some (dropWhile (\<lambda>c. \<not> c_white c) s1))"

definition scan_maps_line :: "string \<Rightarrow> (nat \<times> nat \<times> string) option" where
  "scan_maps_line line =
     (case scan_hex line of
        Some (lo, c # r) \<Rightarrow>
          if c \<noteq> CHR ''-'' then None
          else (case scan_hex r of
              None \<Rightarrow> None
            | Some (hi, r) \<Rightarrow>
                map_option (\<lambda>r. (lo, hi, dropWhile c_white r))
                  (Option.bind (scan_word r) (\<lambda>r. Option.bind (scan_word r) (\<lambda>r. Option.bind (scan_word r) scan_word))))
      | _ \<Rightarrow> None)"

fun mapped_file_in :: "nat \<Rightarrow> string list \<Rightarrow> string" where
  "mapped_file_in addr [] = []"
| "mapped_file_in addr (l # ls) =
     (case scan_maps_line (c_string l) of
        None \<Rightarrow> mapped_file_in addr ls
      | Some (lo, hi, rest) \<Rightarrow>
          if addr < lo \<or> addr \<ge> hi then mapped_file_in addr ls
          else let path = rev (dropWhile (\<lambda>c. c = CHR 0x0A \<or> c = CHR '' '') (rev rest))
               in if path \<noteq> [] \<and> hd path = slash then path else [])"

definition mapped_file_containing :: "probe_host \<Rightarrow> nat \<Rightarrow> string" where
  "mapped_file_containing h addr =
     (case ph_read h ''/proc/self/maps'' of Inl e \<Rightarrow> [] | Inr s \<Rightarrow> mapped_file_in addr (fgets_lines kLineMax s))"

definition kUserlandLoaderName :: string where "kUserlandLoaderName = ''libvhdp-loader.so''"

text \<open>Whether the answer came from \<open>VHDP_LOADER\<close>, and the path of the loader, empty when there is none.\<close>

definition find_userland_loader :: "probe_host \<Rightarrow> bool \<times> string" where
  "find_userland_loader h =
     (case ph_env h ''VHDP_LOADER'' of
        Some (c # cs) \<Rightarrow> (True, if ph_executable h (c # cs) then c # cs else [])
      | _ \<Rightarrow>
          (False,
           let m = mapped_file_containing h (ph_anchor h);
               modname = (if m = [] then (case ph_readlink h ''/proc/self/exe'' of Inl e \<Rightarrow> [] | Inr t \<Rightarrow> t) else m)
           in case rfind_char slash modname of
                None \<Rightarrow> []
              | Some k \<Rightarrow> let candidate = take (Suc k) modname @ kUserlandLoaderName
                          in if ph_executable h candidate then candidate else []))"

definition tracer_pid :: "probe_host \<Rightarrow> int" where
  "tracer_pid h =
     (case proc_status_field (ph_read h) 0 ''TracerPid'' of
        None \<Rightarrow> 0 | Some v \<Rightarrow> let pid = fst (strtol v) in if pid > 0 then pid else 0)"

definition mount_noexec :: "probe_host \<Rightarrow> string \<Rightarrow> bool option" where
  "mount_noexec h dir = map_option (\<lambda>flags. flags div 8 mod 2 = 1) (ph_statvfs h dir)"

definition fs_names :: "(nat \<times> string) list" where
  "fs_names = [(0xEF53, ''ext2/3/4''), (0x01021994, ''tmpfs''), (0x9123683E, ''btrfs''), (0xF2F52010, ''f2fs''),
     (0x65735546, ''fuse''), (0x5346414F, ''sdcardfs''), (0x794c7630, ''overlayfs''), (0x58465342, ''xfs''),
     (0x2011BAB0, ''exfat''), (0x4d44, ''vfat'')]"

definition filesystem_type :: "probe_host \<Rightarrow> string \<Rightarrow> string" where
  "filesystem_type h dir =
     (case ph_statfs h dir of
        None \<Rightarrow> ''unknown''
      | Some t \<Rightarrow> (case map_of fs_names t of Some n \<Rightarrow> n | None \<Rightarrow> ''other''))"

record kvm_probe =
  kp_present :: bool
  kp_accessible :: bool
  kp_api_version :: int
  kp_err :: int

text \<open>The answers of \<open>stat\<close> (a character device or not), \<open>open\<close> and \<open>ioctl\<close>; errors are negative.\<close>

definition probe_kvm :: "int + bool \<Rightarrow> int \<Rightarrow> int \<times> int \<Rightarrow> kvm_probe" where
  "probe_kvm st fd v =
     (case st of
        Inl e \<Rightarrow> \<lparr>kp_present = False, kp_accessible = False, kp_api_version = - 1, kp_err = e\<rparr>
      | Inr chr \<Rightarrow>
          if fd < 0 then \<lparr>kp_present = chr, kp_accessible = False, kp_api_version = - 1, kp_err = - fd\<rparr>
          else \<lparr>kp_present = chr, kp_accessible = True, kp_api_version = fst v, kp_err = (if fst v < 0 then snd v else 0)\<rparr>)"

end
