(* ===== verification/Host_Probe_Safety.thy ===== *)
theory Host_Probe_Safety
  imports Host_Probe
begin

text \<open>
  What the active probes leave behind, and what the namespace probe may touch.
\<close>

section \<open>Resources\<close>

datatype held = Held_child int | Held_dir string | Held_file string | Held_fd int | Held_map int nat

fun hold :: "probe_call \<times> int \<Rightarrow> held list \<Rightarrow> held list" where
  "hold (Pc_spawn c, r) hs = (if r \<ge> 0 then Held_child r # hs else hs)"
| "hold (Pc_reap pid, r) hs = (if r \<ge> 0 then remove1 (Held_child pid) hs else hs)"
| "hold (Pc_mkdir p, r) hs = (if r = 0 then Held_dir p # hs else hs)"
| "hold (Pc_rmdir p, r) hs = (if r = 0 then remove1 (Held_dir p) hs else hs)"
| "hold (Pc_mkstemp p, r) hs = (if r \<ge> 0 then Held_file p # Held_fd r # hs else hs)"
| "hold (Pc_unlink p, r) hs = (if r = 0 then remove1 (Held_file p) hs else hs)"
| "hold (Pc_close fd, r) hs = (if r = 0 then remove1 (Held_fd fd) hs else hs)"
| "hold (Pc_mmap fd len, r) hs = (if raw_is_error r then hs else Held_map r len # hs)"
| "hold (Pc_munmap m len, r) hs = (if r = 0 then remove1 (Held_map m len) hs else hs)"
| "hold _ hs = hs"

definition held :: "probe_log \<Rightarrow> held list" where "held ops = fold hold ops []"

lemma held_simps [simp]:
  "held [] = []" "held (x # xs) = fold hold xs (hold x [])" "held (xs @ ys) = fold hold ys (held xs)"
  by (simp_all add: held_def)

text \<open>
  The kernel releases what it holds: waiting for a child that exists does not fail, nor does removing an empty
  directory no child uses, unlinking a file, unmapping and closing.
\<close>

definition releases :: "probe_kernel \<Rightarrow> bool" where
  "releases k \<longleftrightarrow> (\<forall>ops.
     (\<forall>pid st. Held_child pid \<in> set (held ops) \<and> reap_status pid (pk_waits k ops pid) = Some st \<longrightarrow> st \<ge> 0) \<and>
     (\<forall>p. Held_dir p \<in> set (held ops) \<and> (\<forall>pid. Held_child pid \<notin> set (held ops)) \<longrightarrow> pk_call k ops (Pc_rmdir p) = 0) \<and>
     (\<forall>p. Held_file p \<in> set (held ops) \<longrightarrow> pk_call k ops (Pc_unlink p) = 0) \<and>
     (\<forall>fd. Held_fd fd \<in> set (held ops) \<longrightarrow> pk_call k ops (Pc_close fd) = 0) \<and>
     (\<forall>m len. Held_map m len \<in> set (held ops) \<longrightarrow> pk_call k ops (Pc_munmap m len) = 0))"

lemma releasesD:
  assumes "releases k"
  shows "Held_child pid \<in> set (held ops) \<Longrightarrow> reap_status pid (pk_waits k ops pid) = Some st \<Longrightarrow> st \<ge> 0"
    and "held ops = [Held_dir p] \<Longrightarrow> pk_call k ops (Pc_rmdir p) = 0"
    and "Held_file p \<in> set (held ops) \<Longrightarrow> pk_call k ops (Pc_unlink p) = 0"
    and "Held_fd fd \<in> set (held ops) \<Longrightarrow> pk_call k ops (Pc_close fd) = 0"
    and "Held_map m len \<in> set (held ops) \<Longrightarrow> pk_call k ops (Pc_munmap m len) = 0"
  using assms unfolding releases_def by auto

lemma pcall_Inr [traced_simps]: "pcall k x ops = (Inr r, ops') \<longleftrightarrow> r = pk_call k ops x \<and> ops' = ops @ [(x, r)]"
  by (auto simp: pcall_def)

lemma reap_held:
  assumes "releases k" and "reap k pid ops = (Inr st, ops')" and "held ops = Held_child pid # hs"
  shows "held ops' = hs"
  using assms releasesD(1) [OF assms(1), of pid ops] by (auto simp: reap_def split: option.splits)

lemma wait_stop_held: "wait_stop k pid ops = (Inr b, ops') \<Longrightarrow> held ops' = held ops"
  by (auto simp: wait_stop_def split: option.splits wait_report.splits)

lemma kill_and_reap_held:
  assumes "releases k" and "kill_and_reap k pid x ops = (Inr y, ops')" and "held ops = Held_child pid # hs"
  shows "held ops' = hs"
  using assms reap_held [OF assms(1)] by (fastforce simp: kill_and_reap_def traced_simps)

lemma ask_syscall_info_held: "ask_syscall_info k pid ops = (Inr b, ops') \<Longrightarrow> held ops' = held ops"
  by (auto simp: ask_syscall_info_def traced_simps split: if_splits dest: wait_stop_held)

lemma make_mountpoint_held:
  "make_mountpoint k leaf bs why ops = (Inr m, ops') \<Longrightarrow>
     held ops' = (case m of Inl e \<Rightarrow> held ops | Inr mp \<Rightarrow> Held_dir mp # held ops)"
proof (induction bs arbitrary: why ops)
  case (Cons b bs)
  then show ?case by (cases "b = []") (auto simp: traced_simps split: if_splits sum.splits)
qed (auto simp: traced_simps)

lemma ptrace_held:
  assumes "releases k" and "probe_ptrace_child k [] = (Inr p, ops)"
  shows "held ops = []"
  using assms(2) unfolding probe_ptrace_child_def
  by (auto simp: traced_simps split: if_splits dest!: ask_syscall_info_held kill_and_reap_held [OF assms(1)])

lemma seccomp_held:
  assumes "releases k" and "probe_seccomp_filter k [] = (Inr p, ops)"
  shows "held ops = []"
  using assms(2) unfolding probe_seccomp_filter_def
  by (auto simp: traced_simps split: if_splits dest!: reap_held [OF assms(1)])

lemma openat2_held:
  assumes "releases k" and "probe_openat2 k mode allow [] = (Inr p, ops)"
  shows "held ops = []"
  using assms(2) unfolding probe_openat2_def
  by (auto simp: traced_simps Let_def split: if_splits dest!: reap_held [OF assms(1)])

lemma userns_held:
  assumes "releases k" and "probe_user_namespaces k tracer tmp pid uid gid [] = (Inr p, ops)"
  shows "held ops = []"
  using assms(2) releasesD(2) [OF assms(1)] unfolding probe_user_namespaces_def
  by (auto simp: traced_simps split: if_splits sum.splits dest!: make_mountpoint_held reap_held [OF assms(1)])

lemma exec_mapping_held:
  assumes "releases k" and "probe_exec_mapping k writable ps dir [] = (Inr p, ops)"
  shows "held ops = []"
  using assms(2) releasesD(3,4,5) [OF assms(1)] unfolding probe_exec_mapping_def
  by (auto simp: traced_simps Let_def split: if_splits)

text \<open>
  C18: the active probes clean up after themselves: when one returns, on whichever of its paths, every child it
  spawned is reaped, the directory and the file it made are removed, and its mapping and descriptor are gone.
\<close>

theorem probes_clean_up:
  assumes "releases k"
    and "(\<exists>p. probe_ptrace_child k [] = (Inr p, ops)) \<or> (\<exists>p. probe_seccomp_filter k [] = (Inr p, ops)) \<or>
      (\<exists>p mode allow. probe_openat2 k mode allow [] = (Inr p, ops)) \<or>
      (\<exists>p tracer tmp pid uid gid. probe_user_namespaces k tracer tmp pid uid gid [] = (Inr p, ops)) \<or>
      (\<exists>p writable ps dir. probe_exec_mapping k writable ps dir [] = (Inr p, ops))"
  shows "held ops = []"
  using assms(2) ptrace_held [OF assms(1)] seccomp_held [OF assms(1)] openat2_held [OF assms(1)]
    userns_held [OF assms(1)] exec_mapping_held [OF assms(1)] by blast

text \<open>A kernel that grants everything; the child of a probe exits after one interrupted wait.\<close>

fun tidy_call :: "probe_call \<Rightarrow> int" where
  "tidy_call (Pc_spawn c) = 7"
| "tidy_call (Pc_mkstemp p) = 5"
| "tidy_call (Pc_write fd n) = int n"
| "tidy_call (Pc_mmap fd len) = 4096"
| "tidy_call _ = 0"

definition tidy_kernel :: probe_kernel where
  "tidy_kernel = \<lparr>pk_call = \<lambda>ops. tidy_call, pk_waits = \<lambda>ops pid. [Wait_failed EINTR, Reported pid 0]\<rparr>"

lemma tidy_releases: "releases tidy_kernel"
  by (simp add: releases_def tidy_kernel_def wif_exited_def)

theorem probes_clean_up_witness:
  "\<exists>p ops. probe_user_namespaces tidy_kernel 0 None 42 1000 1000 [] = (Inr p, ops) \<and> length ops = 4 \<and> held ops = []"
proof -
  obtain p ops where r: "probe_user_namespaces tidy_kernel 0 None 42 1000 1000 [] = (Inr p, ops)" "length ops = 4"
    by (simp add: probe_user_namespaces_def tidy_kernel_def tr_bind_def tr_return_def pcall_def reap_def wif_exited_def)
  then have "held ops = []" using probes_clean_up [OF tidy_releases] by blast
  then show ?thesis using r by blast
qed

section \<open>The namespace probe\<close>

fun touched :: "ns_call \<Rightarrow> string option" where
  "touched (Nc_mount_tmpfs p) = Some p"
| "touched (Nc_mkdir p) = Some p"
| "touched (Nc_mount_devpts p) = Some p"
| "touched (Nc_fork p) = Some p"
| "touched _ = None"

definition touches :: "string set \<Rightarrow> ns_call \<times> int \<Rightarrow> bool" where
  "touches ps x \<longleftrightarrow> (\<forall>p. touched (fst x) = Some p \<longrightarrow> p \<in> ps)"

lemma ncall_Inr [traced_simps]: "ncall k x ops = (Inr r, ops') \<longleftrightarrow> r = k ops x \<and> ops' = ops @ [(x, r)]"
  by (auto simp: ncall_def)

lemma touches_ncall: "(\<And>p. touched x = Some p \<Longrightarrow> p \<in> ps) \<Longrightarrow> adds (touches ps) (ncall k x)"
  by (simp add: adds_def ncall_def touches_def)

lemma touches_steps:
  "adds (touches {}) (write_id_maps k uid gid)"
  "adds (touches {join_path kSubMax mp ''pts''}) (try_devpts k mp)"
  "adds (touches {join_path kSubMax mp ''proc''}) (try_proc k mp)"
  unfolding write_id_maps_def write_file_def try_devpts_def try_proc_def Let_def
  by (auto intro!: adds_bind adds_return touches_ncall)

lemma join_path_fits: "length mp + length b < cap \<Longrightarrow> 0 < cap \<Longrightarrow> join_path (Suc cap) mp b = mp @ slash # b"
  by (simp add: join_path_def)


definition ns_grant :: ns_kernel where
  "ns_grant ops x = (case x of Nc_open p \<Rightarrow> 3 | Nc_write fd d \<Rightarrow> int (length d) | Nc_fork p \<Rightarrow> 9 | _ \<Rightarrow> 0)"

lemma ns_grant_maps: "\<exists>new. write_id_maps ns_grant uid gid ops = (Inr True, ops @ new)"
  by (simp add: write_id_maps_def write_file_def ns_grant_def tr_bind_def tr_return_def ncall_def raw_is_error_def)

lemma ns_grant_run:
  "\<exists>ops. userns_child ns_grant 7 7 ''/t'' [] = (Inr 31, ops) \<and> (Nc_mount_devpts ''/t/pts'', 0) \<in> set ops"
proof -
  have j: "join_path kSubMax ''/t'' ''pts'' = ''/t/pts''" "join_path kSubMax ''/t'' ''proc'' = ''/t/proc''"
    using join_path_fits [of "''/t''" _ 255] by (simp_all add: kSubMax_def)
  obtain new where m: "write_id_maps ns_grant 7 7 [(Nc_unshare_user_mount, 0)] = (Inr True, [(Nc_unshare_user_mount, 0)] @ new)"
    using ns_grant_maps by blast
  then have m': "write_id_maps ns_grant 7 7 [(Nc_unshare_user_mount, 0)] = (Inr True, (Nc_unshare_user_mount, 0) # new)" by simp
  show ?thesis
    unfolding userns_child_def try_devpts_def try_proc_def j Let_def
    by (simp add: ncall_def tr_bind_def tr_return_def raw_is_error_def ns_grant_def [of _ "Nc_fork _"] ns_grant_def [of _ "Nc_wait _"]
      ns_grant_def [of _ "Nc_mkdir _"] ns_grant_def [of _ "Nc_mount_devpts _"] ns_grant_def [of _ "Nc_mount_tmpfs _"]
      ns_grant_def [of _ Nc_unshare_user_mount] ns_grant_def [of _ Nc_make_private] ns_grant_def [of _ Nc_unshare_pid] m'
      VHDP_NS_PROBE_USERNS_def VHDP_NS_PROBE_MOUNTNS_def VHDP_NS_PROBE_TMPFS_def VHDP_NS_PROBE_DEVPTS_def VHDP_NS_PROBE_PROC_def
      wif_exited_def wexitstatus_def)
qed


text \<open>A longer name is cut, and then the probe mounts on a directory that is not its own.\<close>

lemma long_mountpoint_cut: "255 \<le> length mp \<Longrightarrow> join_path kSubMax mp b = take 255 mp"
  by (simp add: join_path_def kSubMax_def)

section \<open>Exit codes\<close>

lemma exited_with_code: "0 \<le> c \<Longrightarrow> c < 256 \<Longrightarrow> exited_with (int (child_wait_status c)) = Some (nat c)"
proof -
  assume "0 \<le> c" "c < 256"
  moreover then obtain n where "c = int n" "n < 256" by (metis nat_less_iff nat_0_le numeral_less_iff of_nat_numeral zero_less_imp_eq_int zless_nat_eq_int_zless)
  moreover have "(n * 256) mod 128 = 0" by presburger
  ultimately show ?thesis
    by (auto simp: exited_with_def child_wait_status_def wif_exited_def wexitstatus_def nat_mult_distrib)
qed

text \<open>
  The seccomp probe reads back from the exit code of its child what the kernel answered: success exactly when
  neither call failed, otherwise the errno of the call that failed.
\<close>

theorem seccomp_probe_exact:
  assumes "- 253 \<le> r1" and "- 253 \<le> r2"
  shows "seccomp_answer (int (child_wait_status (seccomp_child r1 r2))) =
    (if 0 \<le> r1 \<and> 0 \<le> r2
     then \<lparr>sp_ok = True, sp_err = 0, sp_ret_trace = True, sp_detail = ''seccomp filter installation under no_new_privs succeeded''\<rparr>
     else let e = (if r1 < 0 then - r1 else - r2)
          in \<lparr>sp_ok = False, sp_err = e, sp_ret_trace = False, sp_detail = ''seccomp filter installation failed: '' @ errno_text (nat e)\<rparr>)"
proof (cases "0 \<le> r1 \<and> 0 \<le> r2")
  case True
  then show ?thesis
    using exited_with_code [of 0] by (simp add: seccomp_child_def raw_is_error_def seccomp_answer_def)
next
  case False
  define e where "e = (if r1 < 0 then - r1 else - r2)"
  have e: "0 < e" "e \<le> 253" "seccomp_child r1 r2 = 1 + e"
    using False assms by (auto simp: e_def seccomp_child_def raw_is_error_def seccomp_error_code_def)
  then have "exited_with (int (child_wait_status (seccomp_child r1 r2))) = Some (nat (1 + e))"
    using exited_with_code [of "1 + e"] by simp
  moreover have "nat (1 + e) - 1 = nat e" "int (nat (1 + e)) = 1 + e" using e(1) by auto
  ultimately show ?thesis using e False by (simp add: seccomp_answer_def e_def [symmetric])
qed

theorem seccomp_probe_exact_witness:
  "sp_err (seccomp_answer (int (child_wait_status (seccomp_child 0 (- 1))))) = 1"
  using seccomp_probe_exact [of 0 "- 1"] by (simp add: Let_def)

end
