(* ===== verification/Lifecycle.thy ===== *)
theory Lifecycle
  imports Status
begin

text \<open>
  The session state machine (\<open>src/src/core/lifecycle.hpp\<close>, \<open>lifecycle.cpp\<close>).  The mutex makes each
  \<open>transition\<close> atomic, so a history of the machine is the sequence of its accepted transitions.
\<close>

datatype state = St_created | St_starting | St_running | St_exited | St_failed | St_cancelled

fun state_name :: "state \<Rightarrow> string" where
  "state_name St_created = ''created''"
| "state_name St_starting = ''starting''"
| "state_name St_running = ''running''"
| "state_name St_exited = ''exited''"
| "state_name St_failed = ''failed''"
| "state_name St_cancelled = ''cancelled''"

definition is_terminal :: "state \<Rightarrow> bool" where
  "is_terminal s \<longleftrightarrow> s = St_exited \<or> s = St_failed \<or> s = St_cancelled"

fun can_transition :: "state \<Rightarrow> state \<Rightarrow> bool" where
  "can_transition St_created to \<longleftrightarrow> to = St_starting \<or> to = St_cancelled"
| "can_transition St_starting to \<longleftrightarrow> to = St_running \<or> to = St_failed \<or> to = St_cancelled"
| "can_transition St_running to \<longleftrightarrow> to = St_exited \<or> to = St_cancelled \<or> to = St_failed"
| "can_transition St_exited to \<longleftrightarrow> False"
| "can_transition St_failed to \<longleftrightarrow> False"
| "can_transition St_cancelled to \<longleftrightarrow> False"

definition transition :: "state \<Rightarrow> state \<Rightarrow> state \<times> status" where
  "transition s to =
     (if \<not> can_transition s to
      then (s, mk_status Code_invalid_state
                 (''invalid session state transition '' @ state_name s @ '' -> '' @ state_name to))
      else (to, status_ok))"

text \<open>Applying a sequence of requests, accepted or refused.\<close>

definition transitions :: "state \<Rightarrow> state list \<Rightarrow> state" where
  "transitions s tos = foldl (\<lambda>s to. fst (transition s to)) s tos"

section \<open>Progress measure and histories\<close>

text \<open>The rank of a state strictly grows along every accepted transition.\<close>

fun rank :: "state \<Rightarrow> nat" where
  "rank St_created = 0"
| "rank St_starting = 1"
| "rank St_running = 2"
| "rank St_exited = 3"
| "rank St_failed = 3"
| "rank St_cancelled = 3"

lemma can_transition_rank: "can_transition s to \<Longrightarrow> rank s < rank to"
  by (cases s) auto

lemma terminal_rank: "is_terminal s \<longleftrightarrow> rank s = 3"
  by (cases s) (auto simp: is_terminal_def)

lemma terminal_stuck: "is_terminal s \<longleftrightarrow> (\<forall>to. \<not> can_transition s to)"
  by (cases s) (auto simp: is_terminal_def)

lemma transition_ok: "is_ok (snd (transition s to)) \<longleftrightarrow> can_transition s to"
  by (simp add: transition_def)

lemma transitions_terminal: "is_terminal s \<Longrightarrow> transitions s tos = s"
  by (induction tos) (simp_all add: transitions_def transition_def terminal_stuck)

lemma transitions_append: "transitions s (xs @ ys) = transitions (transitions s xs) ys"
  by (simp add: transitions_def)

inductive history :: "state list \<Rightarrow> bool" where
  "history [St_created]"
| "history (h @ [s]) \<Longrightarrow> can_transition s to \<Longrightarrow> history (h @ [s, to])"

definition all_histories :: "state list list" where
  "all_histories =
     [[St_created], [St_created, St_cancelled], [St_created, St_starting],
      [St_created, St_starting, St_failed], [St_created, St_starting, St_cancelled],
      [St_created, St_starting, St_running], [St_created, St_starting, St_running, St_exited],
      [St_created, St_starting, St_running, St_cancelled], [St_created, St_starting, St_running, St_failed]]"

lemma all_histories_step: 
  "h @ [s] \<in> set all_histories \<Longrightarrow> can_transition s to \<Longrightarrow> h @ [s, to] \<in> set all_histories"
  by (cases s) (auto simp: all_histories_def append_eq_Cons_conv)

lemma all_histories_history: "h \<in> set all_histories \<Longrightarrow> history h"
proof -
  have c: "history [St_created]" by (rule history.intros)
  have s: "history [St_created, St_starting]"
    using history.intros(2) [of "[]" St_created St_starting] c by simp
  have r: "history [St_created, St_starting, St_running]"
    using history.intros(2) [of "[St_created]" St_starting St_running] s by simp
  show "h \<in> set all_histories \<Longrightarrow> history h"
    using c s r history.intros(2) [of "[]" St_created] history.intros(2) [of "[St_created]" St_starting]
      history.intros(2) [of "[St_created, St_starting]" St_running]
    by (auto simp: all_histories_def)
qed

section \<open>Properties\<close>

text \<open>
  The sequence of states a session goes through is one of nine: in particular it ends in at most
  one terminal state, is never restarted, and \<open>exited\<close> is reached only through \<open>running\<close>.\<close>

theorem lifecycle_histories: "history h \<longleftrightarrow> h \<in> set all_histories"
proof
  show "history h \<Longrightarrow> h \<in> set all_histories"
    by (induction rule: history.induct) (simp_all add: all_histories_step, simp add: all_histories_def)
qed (rule all_histories_history)

end
