(* ===== verification/Session.thy ===== *)
theory Session
  imports Lifecycle Engine_Select Events
begin

text \<open>
  A session (\<open>src/src/core/session.hpp\<close>, \<open>session.cpp\<close>) under all interleavings of its threads: the
  caller of \<open>start\<close>, any number of callers of \<open>cancel\<close>, the waiter and the watchdog.  Every rule of
  \<open>sess_step\<close> is one critical section or one atomic access of the source; between two rules any other
  thread may run.  The engine instance is an interface of the program: its answers are arbitrary, and
  the model records the cancellations it receives.
\<close>

section \<open>State\<close>

datatype starter_pc =
    S_idle          \<comment> \<open>\<open>start\<close> not called, or refused\<close>
  | S_select        \<comment> \<open>state is starting\<close>
  | S_create
  | S_store         \<comment> \<open>instance created, not yet stored in \<open>inst_\<close>\<close>
  | S_check1        \<comment> \<open>before the first test of \<open>cancel_requested_\<close>\<close>
  | S_engine_start
  | S_failed_wait status   \<comment> \<open>\<open>raw->start()\<close> failed, before \<open>raw->wait()\<close>\<close>
  | S_fail status exit_result   \<comment> \<open>entry of \<open>fail_start\<close>\<close>
  | S_fail_transition status
  | S_running       \<comment> \<open>before \<open>transition(running)\<close>\<close>
  | S_check2
  | S_threads       \<comment> \<open>before the creation of the waiter\<close>
  | S_watchdog      \<comment> \<open>before the creation of the watchdog\<close>
  | S_no_watchdog   \<comment> \<open>that creation failed\<close>
  | S_inline_wait   \<comment> \<open>thread creation failed, no waiter\<close>
  | S_inline_transition
  | S_done status

datatype waiter_pc = W_none | W_wait | W_store exit_result | W_transition exit_result | W_stop | W_done

datatype watchdog_pc = D_none | D_sleep | D_emit | D_kill | D_done

datatype cancel_pc = C_read | C_transition | C_result | C_engine

record session =
  ss_state :: state
  ss_cancel_requested :: bool
  ss_kind :: engine_kind
  ss_inst :: "exit_reason list option"   \<comment> \<open>the cancellations the instance has received\<close>
  ss_result :: exit_result
  ss_wd_stop :: bool
  ss_starter :: starter_pc
  ss_waiter :: waiter_pc
  ss_watchdog :: watchdog_pc
  ss_cancels :: "cancel_pc list"
  ss_events :: "(severity \<times> string \<times> string \<times> string) list"

definition session_new :: session where
  "session_new = \<lparr>ss_state = St_created, ss_cancel_requested = False, ss_kind = Eng_auto_select,
     ss_inst = None, ss_result = no_result, ss_wd_stop = False, ss_starter = S_idle, ss_waiter = W_none,
     ss_watchdog = D_none, ss_cancels = [], ss_events = []\<rparr>"

section \<open>Actions\<close>

fun reason_name :: "exit_reason \<Rightarrow> string" where
  "reason_name Exit_none = ''none''"
| "reason_name Exit_normal = ''exited''"
| "reason_name Exit_signaled = ''signaled''"
| "reason_name Exit_timeout = ''timeout''"
| "reason_name Exit_cancelled = ''cancelled''"
| "reason_name Exit_start_failed = ''start_failed''"

definition session_emit :: "(severity \<Rightarrow> bool) \<Rightarrow> severity \<Rightarrow> string \<Rightarrow> string \<Rightarrow> string \<Rightarrow> session \<Rightarrow> session" where
  "session_emit wants sev name message detail s =
     (if \<not> wants sev then s else s\<lparr>ss_events := ss_events s @ [(sev, name, message, detail)]\<rparr>)"

definition session_transition :: "state \<Rightarrow> session \<Rightarrow> session" where
  "session_transition to s = s\<lparr>ss_state := fst (transition (ss_state s) to)\<rparr>"

definition inst_cancel :: "exit_reason \<Rightarrow> session \<Rightarrow> session" where
  "inst_cancel reason s = s\<lparr>ss_inst := map_option (\<lambda>rs. rs @ [reason]) (ss_inst s)\<rparr>"

definition fail_detail :: "status \<Rightarrow> nat \<Rightarrow> string" where
  "fail_detail st err =
     jw_out (end_object (value_int64 (int err) (write_key ''exec_errno''
       (value_string (code_name (st_code st)) (write_key ''status'' (begin_object new_writer))))))"

text \<open>\<open>fail_start\<close>: store the result, report; the transition follows as its own step.\<close>

definition fail_store :: "(severity \<Rightarrow> bool) \<Rightarrow> status \<Rightarrow> exit_result \<Rightarrow> session \<Rightarrow> session" where
  "fail_store wants st r s =
     (let s = s\<lparr>ss_result := r\<lparr>er_reason := Exit_start_failed, er_status := st\<rparr>\<rparr>
      in session_emit wants Sev_error ''session.failed'' (st_message st)
           (fail_detail st (er_exec_errno (ss_result s))) s)"

definition fail_state :: "session \<Rightarrow> state" where
  "fail_state s = (if ss_cancel_requested s then St_cancelled else St_failed)"

definition engine_detail :: "engine_kind \<Rightarrow> engine_kind \<Rightarrow> string" where
  "engine_detail chosen requested =
     jw_out (end_object (value_string (engine_name requested) (write_key ''requested''
       (value_string (engine_name chosen) (write_key ''engine'' (begin_object new_writer))))))"

definition terminal_for :: "exit_result \<Rightarrow> state" where
  "terminal_for r =
     (if er_reason r = Exit_timeout \<or> er_reason r = Exit_cancelled then St_cancelled
      else if er_reason r = Exit_start_failed \<or> er_reason r = Exit_none then St_failed
      else St_exited)"

definition exited_detail :: "exit_result \<Rightarrow> string" where
  "exited_detail r =
     (let w = begin_object new_writer;
          w = value_string (reason_name (er_reason r)) (write_key ''reason'' w);
          w = value_int64 (er_exit_code r) (write_key ''exit_code'' w);
          w = value_int64 (er_term_signal r) (write_key ''signal'' w);
          w = value_int64 (shell_status r) (write_key ''shell_status'' w)
      in jw_out (end_object w))"

definition waiter_store :: "(severity \<Rightarrow> bool) \<Rightarrow> exit_result \<Rightarrow> session \<Rightarrow> session" where
  "waiter_store wants r s =
     session_emit wants Sev_info ''session.exited'' (''session ended: '' @ reason_name (er_reason r))
       (exited_detail r) (s\<lparr>ss_result := r\<rparr>)"

definition no_threads :: status where
  "no_threads = mk_status Code_no_memory ''cannot create session threads''"

section \<open>Steps\<close>

inductive sess_step ::
  "(severity \<Rightarrow> bool) \<Rightarrow> engine option list \<Rightarrow> validated_config \<Rightarrow> session \<Rightarrow> session \<Rightarrow> bool"
  for wants :: "severity \<Rightarrow> bool" and engines :: "engine option list" and cfg :: validated_config
where
  start_refused:
  "ss_starter s = S_idle \<or> (\<exists>st. ss_starter s = S_done st) \<Longrightarrow> \<not> can_transition (ss_state s) St_starting \<Longrightarrow>
     sess_step wants engines cfg s s"
| start_begin:
  "ss_starter s = S_idle \<Longrightarrow> can_transition (ss_state s) St_starting \<Longrightarrow>
     sess_step wants engines cfg s
       (session_emit wants Sev_debug ''session.starting'' ''session starting'' ''{}''
         ((session_transition St_starting s)\<lparr>ss_starter := S_select\<rparr>))"
| select_failed:
  "ss_starter s = S_select \<Longrightarrow> select_engine (sc_engine (vc_cfg cfg)) engines = Inl st \<Longrightarrow>
     sess_step wants engines cfg s (s\<lparr>ss_starter := S_fail st no_result\<rparr>)"
| select_ok:
  "ss_starter s = S_select \<Longrightarrow> select_engine (sc_engine (vc_cfg cfg)) engines = Inr ch \<Longrightarrow>
     sess_step wants engines cfg s
       (session_emit wants Sev_info ''engine.selected'' (ec_reason ch)
         (engine_detail (eng_kind (ec_engine ch)) (sc_engine (vc_cfg cfg)))
         (s\<lparr>ss_kind := eng_kind (ec_engine ch), ss_starter := S_create\<rparr>))"
| create_failed:
  "ss_starter s = S_create \<Longrightarrow> \<not> is_ok st \<Longrightarrow> sess_step wants engines cfg s (s\<lparr>ss_starter := S_fail st no_result\<rparr>)"
| create_ok:
  "ss_starter s = S_create \<Longrightarrow> sess_step wants engines cfg s (s\<lparr>ss_starter := S_store\<rparr>)"
| store_instance:
  "ss_starter s = S_store \<Longrightarrow> sess_step wants engines cfg s (s\<lparr>ss_inst := Some [], ss_starter := S_check1\<rparr>)"
| check1:
  "ss_starter s = S_check1 \<Longrightarrow>
     sess_step wants engines cfg s
       ((if ss_cancel_requested s then inst_cancel Exit_cancelled s else s)\<lparr>ss_starter := S_engine_start\<rparr>)"
| engine_start_failed:
  "ss_starter s = S_engine_start \<Longrightarrow> \<not> is_ok st \<Longrightarrow>
     sess_step wants engines cfg s (s\<lparr>ss_starter := S_failed_wait st\<rparr>)"
| engine_start_ok:
  "ss_starter s = S_engine_start \<Longrightarrow> sess_step wants engines cfg s (s\<lparr>ss_starter := S_running\<rparr>)"
| failed_wait:
  "ss_starter s = S_failed_wait st \<Longrightarrow> sess_step wants engines cfg s (s\<lparr>ss_starter := S_fail st r\<rparr>)"
| fail_start_store:
  "ss_starter s = S_fail st r \<Longrightarrow>
     sess_step wants engines cfg s ((fail_store wants st r s)\<lparr>ss_starter := S_fail_transition st\<rparr>)"
| fail_start_transition:
  "ss_starter s = S_fail_transition st \<Longrightarrow>
     sess_step wants engines cfg s ((session_transition (fail_state s) s)\<lparr>ss_starter := S_done st\<rparr>)"
| running:
  "ss_starter s = S_running \<Longrightarrow>
     sess_step wants engines cfg s
       ((if can_transition (ss_state s) St_running then session_transition St_running s
         else inst_cancel Exit_cancelled s)\<lparr>ss_starter := S_check2\<rparr>)"
| check2:
  "ss_starter s = S_check2 \<Longrightarrow>
     sess_step wants engines cfg s
       ((if ss_cancel_requested s then inst_cancel Exit_cancelled s else s)\<lparr>ss_starter := S_threads\<rparr>)"
| threads_waiter:
  "ss_starter s = S_threads \<Longrightarrow>
     sess_step wants engines cfg s (s\<lparr>ss_waiter := W_wait, ss_starter := S_watchdog\<rparr>)"
| threads_watchdog:
  "ss_starter s = S_watchdog \<Longrightarrow>
     sess_step wants engines cfg s
       (s\<lparr>ss_watchdog := (if sc_timeout_ms (vc_cfg cfg) > 0 then D_sleep else D_none),
          ss_starter := S_done status_ok\<rparr>)"
| threads_watchdog_failed:
  "ss_starter s = S_watchdog \<Longrightarrow> sc_timeout_ms (vc_cfg cfg) > 0 \<Longrightarrow>
     sess_step wants engines cfg s (s\<lparr>ss_starter := S_no_watchdog\<rparr>)"
| threads_watchdog_cancel:
  "ss_starter s = S_no_watchdog \<Longrightarrow>
     sess_step wants engines cfg s ((inst_cancel Exit_cancelled s)\<lparr>ss_starter := S_done no_threads\<rparr>)"
| threads_waiter_failed:
  "ss_starter s = S_threads \<Longrightarrow>
     sess_step wants engines cfg s ((inst_cancel Exit_cancelled s)\<lparr>ss_starter := S_inline_wait\<rparr>)"
| inline_wait:
  "ss_starter s = S_inline_wait \<Longrightarrow>
     sess_step wants engines cfg s (s\<lparr>ss_result := r, ss_starter := S_inline_transition\<rparr>)"
| inline_transition:
  "ss_starter s = S_inline_transition \<Longrightarrow>
     sess_step wants engines cfg s ((session_transition St_failed s)\<lparr>ss_starter := S_done no_threads\<rparr>)"
| waiter_wait:
  "ss_waiter s = W_wait \<Longrightarrow> sess_step wants engines cfg s (s\<lparr>ss_waiter := W_store r\<rparr>)"
| waiter_result:
  "ss_waiter s = W_store r \<Longrightarrow>
     sess_step wants engines cfg s ((waiter_store wants r s)\<lparr>ss_waiter := W_transition r\<rparr>)"
| waiter_transition:
  "ss_waiter s = W_transition r \<Longrightarrow>
     sess_step wants engines cfg s ((session_transition (terminal_for r) s)\<lparr>ss_waiter := W_stop\<rparr>)"
| waiter_stop:
  "ss_waiter s = W_stop \<Longrightarrow> sess_step wants engines cfg s (s\<lparr>ss_wd_stop := True, ss_waiter := W_done\<rparr>)"
| watchdog_stopped:
  "ss_watchdog s = D_sleep \<Longrightarrow> ss_wd_stop s \<Longrightarrow> sess_step wants engines cfg s (s\<lparr>ss_watchdog := D_done\<rparr>)"
| watchdog_expired:
  "ss_watchdog s = D_sleep \<Longrightarrow> \<not> ss_wd_stop s \<Longrightarrow> sess_step wants engines cfg s (s\<lparr>ss_watchdog := D_emit\<rparr>)"
| watchdog_emit:
  "ss_watchdog s = D_emit \<Longrightarrow>
     sess_step wants engines cfg s
       (session_emit wants Sev_warning ''session.timeout''
         (''timeout of '' @ dec_string (sc_timeout_ms (vc_cfg cfg)) @ '' ms expired; killing the guest process tree'')
         ''{}'' (s\<lparr>ss_watchdog := D_kill\<rparr>))"
| watchdog_kill:
  "ss_watchdog s = D_kill \<Longrightarrow> sess_step wants engines cfg s ((inst_cancel Exit_timeout s)\<lparr>ss_watchdog := D_done\<rparr>)"
| cancel_request:
  "sess_step wants engines cfg s (s\<lparr>ss_cancel_requested := True, ss_cancels := C_read # ss_cancels s\<rparr>)"
| cancel_read:
  "ss_cancels s = xs @ C_read # ys \<Longrightarrow>
     sess_step wants engines cfg s
       (s\<lparr>ss_cancels := xs @ (if ss_state s = St_created then C_transition else C_engine) # ys\<rparr>)"
| cancel_transition:
  "ss_cancels s = xs @ C_transition # ys \<Longrightarrow>
     sess_step wants engines cfg s
       ((session_transition St_cancelled s)\<lparr>ss_cancels :=
          xs @ (if can_transition (ss_state s) St_cancelled then C_result else C_engine) # ys\<rparr>)"
| cancel_result:
  "ss_cancels s = xs @ C_result # ys \<Longrightarrow>
     sess_step wants engines cfg s
       (s\<lparr>ss_result := (ss_result s)\<lparr>er_reason := Exit_cancelled\<rparr>, ss_cancels := xs @ ys\<rparr>)"
| cancel_engine:
  "ss_cancels s = xs @ C_engine # ys \<Longrightarrow>
     sess_step wants engines cfg s ((inst_cancel Exit_cancelled s)\<lparr>ss_cancels := xs @ ys\<rparr>)"

inductive reachable :: "(severity \<Rightarrow> bool) \<Rightarrow> engine option list \<Rightarrow> validated_config \<Rightarrow> session \<Rightarrow> bool"
  for wants :: "severity \<Rightarrow> bool" and engines :: "engine option list" and cfg :: validated_config
where
  "reachable wants engines cfg session_new"
| "reachable wants engines cfg s \<Longrightarrow> sess_step wants engines cfg s t \<Longrightarrow> reachable wants engines cfg t"

section \<open>Queries\<close>

definition session_wait :: "session \<Rightarrow> (exit_result \<times> state) option" where
  "session_wait s =
     (if \<not> is_terminal (ss_state s) then None
      else Some (if ss_state s = St_cancelled \<and> er_reason (ss_result s) = Exit_none
                 then (ss_result s)\<lparr>er_reason := Exit_cancelled\<rparr> else ss_result s, ss_state s))"

definition session_signal :: "(int \<Rightarrow> status) \<Rightarrow> int \<Rightarrow> session \<Rightarrow> status" where
  "session_signal inst_signal signo s =
     (if ss_inst s = None \<or> ss_state s \<noteq> St_running
      then mk_status Code_invalid_state ''session is not running'' else inst_signal signo)"

definition session_resize :: "(nat \<Rightarrow> nat \<Rightarrow> status) \<Rightarrow> nat \<Rightarrow> nat \<Rightarrow> session \<Rightarrow> status" where
  "session_resize inst_resize rows cols s =
     (if ss_inst s = None then mk_status Code_invalid_state ''session has not been started''
      else inst_resize rows cols)"

definition session_write_input :: "(string \<Rightarrow> status \<times> nat) \<Rightarrow> string \<Rightarrow> session \<Rightarrow> status \<times> nat" where
  "session_write_input inst_write data s =
     (if ss_inst s = None then (mk_status Code_invalid_state ''session has not been started'', 0)
      else inst_write data)"

definition session_pty_master :: "int \<Rightarrow> session \<Rightarrow> int" where
  "session_pty_master inst_pty s = (if ss_inst s = None then - 1 else inst_pty)"


section \<open>Invariants\<close>

text \<open>The starter has left the last test of \<open>cancel_requested_\<close> behind.\<close>

definition past_checks :: "session \<Rightarrow> bool" where
  "past_checks s \<longleftrightarrow>
     ss_starter s \<in> {S_threads, S_watchdog, S_no_watchdog, S_inline_wait, S_inline_transition} \<or> ss_waiter s \<noteq> W_none"

definition waiter_alone :: "session \<Rightarrow> bool" where
  "waiter_alone s \<longleftrightarrow>
     (ss_waiter s \<noteq> W_none \<longrightarrow>
        ss_starter s \<in> {S_watchdog, S_no_watchdog} \<or> (\<exists>st. ss_starter s = S_done st)) \<and>
     (ss_starter s \<in> {S_watchdog, S_no_watchdog} \<longrightarrow> ss_waiter s \<noteq> W_none)"

definition started_state :: "session \<Rightarrow> bool" where
  "started_state s \<longleftrightarrow> (ss_starter s \<noteq> S_idle \<longrightarrow> ss_state s \<noteq> St_created)"

definition inst_present :: "session \<Rightarrow> bool" where
  "inst_present s \<longleftrightarrow>
     (past_checks s \<or> ss_starter s \<in> {S_check1, S_engine_start, S_running, S_check2} \<longrightarrow> ss_inst s \<noteq> None)"

definition cancel_delivered :: "session \<Rightarrow> bool" where
  "cancel_delivered s \<longleftrightarrow> (\<exists>rs. ss_inst s = Some rs \<and> Exit_cancelled \<in> set rs)"

definition cancel_not_lost :: "session \<Rightarrow> bool" where
  "cancel_not_lost s \<longleftrightarrow>
     (past_checks s \<and> ss_cancel_requested s \<longrightarrow>
        cancel_delivered s \<or> C_read \<in> set (ss_cancels s) \<or> C_engine \<in> set (ss_cancels s))"

lemma session_emit_sel [simp]:
  "ss_state (session_emit w v n m d s) = ss_state s"
  "ss_cancel_requested (session_emit w v n m d s) = ss_cancel_requested s"
  "ss_inst (session_emit w v n m d s) = ss_inst s"
  "ss_result (session_emit w v n m d s) = ss_result s"
  "ss_wd_stop (session_emit w v n m d s) = ss_wd_stop s"
  "ss_starter (session_emit w v n m d s) = ss_starter s"
  "ss_waiter (session_emit w v n m d s) = ss_waiter s"
  "ss_watchdog (session_emit w v n m d s) = ss_watchdog s"
  "ss_cancels (session_emit w v n m d s) = ss_cancels s"
  by (simp_all add: session_emit_def)

lemma session_transition_sel [simp]:
  "ss_state (session_transition to s) = (if can_transition (ss_state s) to then to else ss_state s)"
  "ss_cancel_requested (session_transition to s) = ss_cancel_requested s"
  "ss_inst (session_transition to s) = ss_inst s"
  "ss_result (session_transition to s) = ss_result s"
  "ss_wd_stop (session_transition to s) = ss_wd_stop s"
  "ss_starter (session_transition to s) = ss_starter s"
  "ss_waiter (session_transition to s) = ss_waiter s"
  "ss_watchdog (session_transition to s) = ss_watchdog s"
  "ss_cancels (session_transition to s) = ss_cancels s"
  by (simp_all add: session_transition_def transition_def)

lemma inst_cancel_sel [simp]:
  "ss_state (inst_cancel r s) = ss_state s"
  "ss_cancel_requested (inst_cancel r s) = ss_cancel_requested s"
  "ss_inst (inst_cancel r s) = map_option (\<lambda>rs. rs @ [r]) (ss_inst s)"
  "ss_result (inst_cancel r s) = ss_result s"
  "ss_wd_stop (inst_cancel r s) = ss_wd_stop s"
  "ss_starter (inst_cancel r s) = ss_starter s"
  "ss_waiter (inst_cancel r s) = ss_waiter s"
  "ss_watchdog (inst_cancel r s) = ss_watchdog s"
  "ss_cancels (inst_cancel r s) = ss_cancels s"
  by (simp_all add: inst_cancel_def)

lemma fail_store_sel [simp]:
  "ss_state (fail_store w st r s) = ss_state s"
  "ss_cancel_requested (fail_store w st r s) = ss_cancel_requested s"
  "ss_inst (fail_store w st r s) = ss_inst s"
  "ss_result (fail_store w st r s) = r\<lparr>er_reason := Exit_start_failed, er_status := st\<rparr>"
  "ss_wd_stop (fail_store w st r s) = ss_wd_stop s"
  "ss_starter (fail_store w st r s) = ss_starter s"
  "ss_waiter (fail_store w st r s) = ss_waiter s"
  "ss_watchdog (fail_store w st r s) = ss_watchdog s"
  "ss_cancels (fail_store w st r s) = ss_cancels s"
  by (simp_all add: fail_store_def Let_def)

lemma waiter_store_sel [simp]:
  "ss_state (waiter_store w r s) = ss_state s"
  "ss_cancel_requested (waiter_store w r s) = ss_cancel_requested s"
  "ss_inst (waiter_store w r s) = ss_inst s"
  "ss_result (waiter_store w r s) = r"
  "ss_wd_stop (waiter_store w r s) = ss_wd_stop s"
  "ss_starter (waiter_store w r s) = ss_starter s"
  "ss_waiter (waiter_store w r s) = ss_waiter s"
  "ss_watchdog (waiter_store w r s) = ss_watchdog s"
  "ss_cancels (waiter_store w r s) = ss_cancels s"
  by (simp_all add: waiter_store_def)

lemma can_transition_not_created: "can_transition s to \<Longrightarrow> to \<noteq> St_created"
  by (cases s) auto

lemma step_waiter_alone: "sess_step w es c s t \<Longrightarrow> waiter_alone s \<Longrightarrow> waiter_alone t"
  by (erule sess_step.cases) (simp_all add: waiter_alone_def)

lemma step_started_state: "sess_step w es c s t \<Longrightarrow> started_state s \<Longrightarrow> started_state t"
  by (erule sess_step.cases)
    (auto simp: started_state_def fail_state_def terminal_for_def dest: can_transition_not_created)

lemma step_inst_present: "sess_step w es c s t \<Longrightarrow> waiter_alone s \<Longrightarrow> inst_present s \<Longrightarrow> inst_present t"
  by (erule sess_step.cases) (simp_all add: inst_present_def past_checks_def waiter_alone_def)


lemma cancel_delivered_inst: "ss_inst s \<noteq> None \<Longrightarrow> cancel_delivered (inst_cancel Exit_cancelled s)"
  by (auto simp: cancel_delivered_def)

lemma cancel_delivered_mono: "cancel_delivered s \<Longrightarrow> ss_inst t = ss_inst s \<Longrightarrow> cancel_delivered t"
  by (simp add: cancel_delivered_def)

lemma step_cancel_not_lost:
  assumes "sess_step w es c s t" and "cancel_not_lost s" and "inst_present s" and "started_state s" and "waiter_alone s"
  shows "cancel_not_lost t"
  using assms
proof (cases rule: sess_step.cases)
  case (cancel_read xs ys)
  have "ss_state s \<noteq> St_created" if "past_checks s"
    using that assms(4,5) by (auto simp: past_checks_def started_state_def waiter_alone_def)
  then show ?thesis
    using cancel_read assms(2) by (auto simp: cancel_not_lost_def past_checks_def cancel_delivered_def)
next
  case (cancel_engine xs ys)
  then show ?thesis
    using assms(3) by (auto simp: cancel_not_lost_def past_checks_def inst_present_def cancel_delivered_def)
next
  case check2
  then show ?thesis
    using assms(2,3) by (auto simp: cancel_not_lost_def past_checks_def inst_present_def cancel_delivered_def)
next
  case cancel_request
  then show ?thesis by (simp add: cancel_not_lost_def)
next
  case store_instance
  then show ?thesis using assms(5) by (auto simp: cancel_not_lost_def past_checks_def waiter_alone_def)
qed (auto simp: cancel_not_lost_def past_checks_def cancel_delivered_def)

definition exit_results :: "session \<Rightarrow> bool" where
  "exit_results s \<longleftrightarrow>
     (C_result \<in> set (ss_cancels s) \<longrightarrow> ss_state s = St_cancelled) \<and>
     (ss_state s = St_exited \<longrightarrow>
        er_reason (ss_result s) \<in> {Exit_normal, Exit_signaled} \<and> ss_waiter s \<in> {W_stop, W_done}) \<and>
     (\<forall>r. ss_waiter s = W_transition r \<and> ss_state s \<noteq> St_cancelled \<longrightarrow> ss_result s = r)"

lemma can_transition_exited: "can_transition s St_exited \<longleftrightarrow> s = St_running"
  by (cases s) auto

lemma can_transition_from_cancelled [simp]: "can_transition s to \<Longrightarrow> s \<noteq> St_cancelled"
  by (cases s) auto

lemma terminal_for_exited: "terminal_for r = St_exited \<longleftrightarrow> er_reason r \<in> {Exit_normal, Exit_signaled}"
  by (cases "er_reason r") (auto simp: terminal_for_def)

lemma step_exit_results:
  assumes "sess_step w es c s t" and "exit_results s" and "waiter_alone s"
  shows "exit_results t"
  using assms
proof (cases rule: sess_step.cases)
  case (waiter_transition r)
  then show ?thesis
    using assms(2) terminal_for_exited [of r] can_transition_exited [of "ss_state s"]
    by (auto simp: exit_results_def)
next
  case (cancel_transition xs ys)
  then show ?thesis using assms(2) by (auto simp: exit_results_def)
next
  case (fail_start_transition st)
  then show ?thesis using assms(2,3) by (auto simp: exit_results_def fail_state_def waiter_alone_def)
qed (auto simp: exit_results_def waiter_alone_def)

text \<open>Where the state machine can be while the starter and the waiter are at a given point.\<close>

definition starting_pcs :: "session \<Rightarrow> bool" where
  "starting_pcs s \<longleftrightarrow>
     ss_starter s \<in> {S_select, S_create, S_store, S_check1, S_engine_start, S_running} \<or>
     (\<exists>st. ss_starter s = S_failed_wait st) \<or> (\<exists>st r. ss_starter s = S_fail st r) \<or>
     (\<exists>st. ss_starter s = S_fail_transition st)"

definition phases :: "session \<Rightarrow> bool" where
  "phases s \<longleftrightarrow>
     (starting_pcs s \<longrightarrow> ss_state s = St_starting \<or> ss_state s = St_cancelled) \<and>
     (past_checks s \<or> ss_starter s = S_check2 \<longrightarrow> ss_state s = St_running \<or> is_terminal (ss_state s)) \<and>
     (ss_waiter s \<in> {W_stop, W_done} \<longrightarrow> is_terminal (ss_state s)) \<and>
     ((\<exists>st. ss_starter s = S_done st) \<and> ss_waiter s = W_none \<longrightarrow> is_terminal (ss_state s))"

lemma terminal_for_terminal: "is_terminal (terminal_for r)"
  by (simp add: terminal_for_def is_terminal_def)

lemma running_to_terminal: "is_terminal to \<Longrightarrow> can_transition St_running to"
  by (cases to) (auto simp: is_terminal_def)

lemma terminal_no_transition: "is_terminal s \<Longrightarrow> \<not> can_transition s to"
  using terminal_stuck by blast

lemma step_phases:
  assumes "sess_step w es c s t" and "phases s" and "waiter_alone s"
  shows "phases t"
  using assms
proof (cases rule: sess_step.cases)
  case start_begin
  then show ?thesis using assms by (auto simp: phases_def starting_pcs_def past_checks_def waiter_alone_def)
next
  case (fail_start_transition st)
  then show ?thesis using assms
    by (auto simp: phases_def starting_pcs_def past_checks_def waiter_alone_def fail_state_def is_terminal_def)
next
  case running
  have "ss_state s = St_starting \<or> ss_state s = St_cancelled" "ss_waiter s = W_none"
    using running(2) assms(2,3) by (auto simp: phases_def starting_pcs_def waiter_alone_def)
  then show ?thesis using running
    by (elim disjE) (simp_all add: phases_def starting_pcs_def past_checks_def is_terminal_def)
next
  case inline_transition
  have "ss_state s = St_running \<or> is_terminal (ss_state s)" "ss_waiter s = W_none"
    using inline_transition(2) assms(2,3) by (auto simp: phases_def past_checks_def waiter_alone_def)
  then show ?thesis using inline_transition terminal_no_transition [of "ss_state s" St_failed]
    by (elim disjE) (simp_all add: phases_def starting_pcs_def past_checks_def is_terminal_def)
next
  case (waiter_transition r)
  have st: "ss_state s = St_running \<or> is_terminal (ss_state s)"
    using waiter_transition(2) assms(2) by (auto simp: phases_def past_checks_def)
  have "is_terminal (ss_state t)"
    using st terminal_for_terminal [of r] running_to_terminal [of "terminal_for r"]
      terminal_no_transition [of "ss_state s" "terminal_for r"]
    unfolding waiter_transition(1) by (elim disjE) simp_all
  then show ?thesis
    using assms(3) waiter_transition
    by (auto simp: phases_def starting_pcs_def past_checks_def waiter_alone_def)
next
  case (cancel_transition xs ys)
  have "is_terminal St_cancelled" by (simp add: is_terminal_def)
  then show ?thesis using assms cancel_transition
    by (auto simp: phases_def starting_pcs_def past_checks_def)
qed (auto simp: phases_def starting_pcs_def past_checks_def waiter_alone_def)

lemma reachable_invariants:
  "reachable w es c s \<Longrightarrow>
     waiter_alone s \<and> started_state s \<and> inst_present s \<and> cancel_not_lost s \<and> exit_results s \<and> phases s"
proof (induction rule: reachable.induct)
  case 1
  show ?case
    by (simp add: session_new_def waiter_alone_def started_state_def inst_present_def past_checks_def
        cancel_not_lost_def exit_results_def phases_def starting_pcs_def)
next
  case (2 s t)
  note st = 2(2)
  have "waiter_alone s" "started_state s" "inst_present s" "cancel_not_lost s" "exit_results s" "phases s"
    using 2(3) by simp_all
  then show ?case
    using step_waiter_alone [OF st] step_started_state [OF st] step_inst_present [OF st]
      step_cancel_not_lost [OF st] step_exit_results [OF st] step_phases [OF st] by simp
qed

section \<open>Properties\<close>

text \<open>
  C10: No cancellation is lost, whatever the interleaving of \<open>start\<close>, \<open>cancel\<close>, the waiter and the
  watchdog: once the guest's threads exist, if a cancellation has been requested and every call of
  \<open>cancel\<close> has returned, then the engine instance has received it.\<close>

theorem session_cancel_not_lost:
  assumes "reachable wants engines cfg s" and "ss_waiter s \<noteq> W_none" and "ss_cancel_requested s"
    and "ss_cancels s = []"
  shows "\<exists>reasons. ss_inst s = Some reasons \<and> Exit_cancelled \<in> set reasons"
  using reachable_invariants [OF assms(1)] assms(2-4)
  by (auto simp: cancel_not_lost_def past_checks_def cancel_delivered_def)

text \<open>
  C33: A session whose \<open>start\<close> has returned and whose waiter, if it has one, has finished is in a
  terminal state, so a caller of \<open>wait\<close> is released; a session that reports \<open>exited\<close> holds the
  result of a guest that exited or was killed by a signal.\<close>

theorem session_ends_terminal:
  assumes "reachable wants engines cfg s" and "ss_starter s = S_done st" and "ss_waiter s \<in> {W_none, W_done}"
  shows "is_terminal (ss_state s) \<and>
    (\<exists>r. session_wait s = Some (r, ss_state s) \<and>
      (ss_state s = St_exited \<longrightarrow> er_reason r = Exit_normal \<or> er_reason r = Exit_signaled) \<and>
      (ss_state s = St_cancelled \<longrightarrow> er_reason r \<noteq> Exit_none))"
  using reachable_invariants [OF assms(1)] assms(2,3)
  by (auto simp: phases_def exit_results_def session_wait_def)


section \<open>A run with a cancellation that arrives before the engine instance exists\<close>

abbreviation quiet :: "severity \<Rightarrow> bool" where "quiet \<equiv> \<lambda>_. False"

abbreviation sample_reach :: "session \<Rightarrow> bool" where
  "sample_reach \<equiv> reachable quiet [Some sample_engine] sample_validated"

lemma reach_step:
  "reachable w es c s \<Longrightarrow> sess_step w es c s t \<Longrightarrow> t = u \<Longrightarrow> reachable w es c u"
  using reachable.intros(2) by blast

lemma sample_select:
  "select_engine (sc_engine (vc_cfg sample_validated)) [Some sample_engine] =
     Inr \<lparr>ec_engine = sample_engine, ec_reason = ''auto selected rootless: ptrace works''\<rparr>"
  by (simp add: select_engine_def sample_validated_def sample_config_def default_config_def sample_engine_def)

lemmas run_simps = session_new_def session_emit_def session_transition_def transition_def inst_cancel_def
  sample_engine_def waiter_store_def

definition cancelled_start :: session where
  "cancelled_start = session_new\<lparr>ss_state := St_running, ss_cancel_requested := True, ss_kind := Eng_rootless,
     ss_inst := Some [Exit_cancelled, Exit_cancelled], ss_starter := S_watchdog, ss_waiter := W_wait\<rparr>"

lemma cancelled_start_reachable: "sample_reach cancelled_start"
proof -
  let ?s = "session_new\<lparr>ss_state := St_starting, ss_starter := S_select\<rparr>"
  have "sample_reach ?s"
    by (rule reach_step [OF reachable.intros(1) sess_step.start_begin]) (simp_all add: run_simps)
  then have "sample_reach (?s\<lparr>ss_kind := Eng_rootless, ss_starter := S_create\<rparr>)"
    by (rule reach_step [OF _ sess_step.select_ok [OF _ sample_select]]) (simp_all add: run_simps)
  then have "sample_reach (?s\<lparr>ss_kind := Eng_rootless, ss_starter := S_create, ss_cancel_requested := True,
      ss_cancels := [C_read]\<rparr>)"
    by (rule reach_step [OF _ sess_step.cancel_request]) (simp_all add: run_simps)
  then have "sample_reach (?s\<lparr>ss_kind := Eng_rootless, ss_starter := S_create, ss_cancel_requested := True,
      ss_cancels := [C_engine]\<rparr>)"
    by (rule reach_step [OF _ sess_step.cancel_read [where xs = "[]" and ys = "[]"]]) (simp_all add: run_simps)
  then have "sample_reach (?s\<lparr>ss_kind := Eng_rootless, ss_starter := S_create, ss_cancel_requested := True\<rparr>)"
    by (rule reach_step [OF _ sess_step.cancel_engine [where xs = "[]" and ys = "[]"]]) (simp_all add: run_simps)
  then have "sample_reach (?s\<lparr>ss_kind := Eng_rootless, ss_starter := S_store, ss_cancel_requested := True\<rparr>)"
    by (rule reach_step [OF _ sess_step.create_ok]) (simp_all add: run_simps)
  then have "sample_reach (?s\<lparr>ss_kind := Eng_rootless, ss_starter := S_check1, ss_cancel_requested := True,
      ss_inst := Some []\<rparr>)"
    by (rule reach_step [OF _ sess_step.store_instance]) (simp_all add: run_simps)
  then have "sample_reach (?s\<lparr>ss_kind := Eng_rootless, ss_starter := S_engine_start, ss_cancel_requested := True,
      ss_inst := Some [Exit_cancelled]\<rparr>)"
    by (rule reach_step [OF _ sess_step.check1]) (simp_all add: run_simps)
  then have "sample_reach (?s\<lparr>ss_kind := Eng_rootless, ss_starter := S_running, ss_cancel_requested := True,
      ss_inst := Some [Exit_cancelled]\<rparr>)"
    by (rule reach_step [OF _ sess_step.engine_start_ok]) (simp_all add: run_simps)
  then have "sample_reach (?s\<lparr>ss_kind := Eng_rootless, ss_starter := S_check2, ss_cancel_requested := True,
      ss_inst := Some [Exit_cancelled], ss_state := St_running\<rparr>)"
    by (rule reach_step [OF _ sess_step.running]) (simp_all add: run_simps)
  then have "sample_reach (?s\<lparr>ss_kind := Eng_rootless, ss_starter := S_threads, ss_cancel_requested := True,
      ss_inst := Some [Exit_cancelled, Exit_cancelled], ss_state := St_running\<rparr>)"
    by (rule reach_step [OF _ sess_step.check2]) (simp_all add: run_simps)
  then show ?thesis
    by (rule reach_step [OF _ sess_step.threads_waiter]) (simp_all add: run_simps cancelled_start_def)
qed

theorem session_cancel_not_lost_witness:
  "\<exists>reasons. ss_inst cancelled_start = Some reasons \<and> Exit_cancelled \<in> set reasons"
  by (rule session_cancel_not_lost [OF cancelled_start_reachable])
    (simp_all add: cancelled_start_def session_new_def)

definition killed_result :: exit_result where
  "killed_result = no_result\<lparr>er_reason := Exit_cancelled, er_term_signal := 9\<rparr>"

lemma killed_terminal: "terminal_for killed_result = St_cancelled"
  by (simp add: terminal_for_def killed_result_def)

definition finished_session :: session where
  "finished_session = cancelled_start\<lparr>ss_starter := S_done status_ok, ss_waiter := W_done, ss_wd_stop := True,
     ss_result := killed_result, ss_state := St_cancelled\<rparr>"

lemma finished_session_reachable: "sample_reach finished_session"
proof -
  note defs = run_simps cancelled_start_def killed_result_def sample_validated_def sample_config_def default_config_def
  let ?s = "cancelled_start\<lparr>ss_starter := S_done status_ok\<rparr>"
  have "sample_reach ?s"
    by (rule reach_step [OF cancelled_start_reachable sess_step.threads_watchdog]) (simp_all add: defs)
  then have "sample_reach (?s\<lparr>ss_waiter := W_store killed_result\<rparr>)"
    by (rule reach_step [OF _ sess_step.waiter_wait]) (simp_all add: defs)
  then have "sample_reach (?s\<lparr>ss_waiter := W_transition killed_result, ss_result := killed_result\<rparr>)"
    by (rule reach_step [OF _ sess_step.waiter_result]) (simp_all add: defs)
  then have "sample_reach (?s\<lparr>ss_waiter := W_stop, ss_result := killed_result, ss_state := St_cancelled\<rparr>)"
    by (rule reach_step [OF _ sess_step.waiter_transition [where r = killed_result]])
      (simp_all add: run_simps cancelled_start_def killed_terminal)
  then show ?thesis
    by (rule reach_step [OF _ sess_step.waiter_stop]) (simp_all add: finished_session_def defs)
qed

theorem session_ends_terminal_witness:
  "is_terminal (ss_state finished_session) \<and> (\<exists>r. session_wait finished_session = Some (r, St_cancelled))"
  using session_ends_terminal [OF finished_session_reachable, of status_ok]
  by (auto simp: finished_session_def)

end
