(* ===== verification/Capi.thy ===== *)
theory Capi
  imports Session
begin

unbundle bit_operations_syntax

text \<open>
  The C interface (\<open>src/src/capi/capi.cpp\<close>, \<open>src/include/vhdp/vhdp.h\<close>) and the context behind it
  (\<open>src/src/core/context.cpp\<close>).  The state is what the handles of one process point to, the message of the
  thread's last error and the callback the thread is in.  A handle argument is an address or \<open>None\<close> for
  \<open>NULL\<close>; a call with a handle that is not live is undefined in C and has the value \<open>None\<close> here.  A C
  string argument is the memory from its address on: the call sees it up to the first NUL.  Memory
  allocation always succeeds.
\<close>

section \<open>State\<close>

definition VHDP_ABI_VERSION :: "32 word" where "VHDP_ABI_VERSION = 1"
definition VHDP_ENGINE_VM :: "32 word" where "VHDP_ENGINE_VM = 4"
definition VHDP_NETWORK_NONE :: "32 word" where "VHDP_NETWORK_NONE = 1"
definition VHDP_STDIO_FDS :: "32 word" where "VHDP_STDIO_FDS = 2"
definition VHDP_SECCOMP_OFF :: "32 word" where "VHDP_SECCOMP_OFF = 2"
definition VHDP_DEV_NONE :: "32 word" where "VHDP_DEV_NONE = 1"
definition VHDP_PROC_HOST :: "32 word" where "VHDP_PROC_HOST = 1"
definition VHDP_BIND_READ_WRITE :: "32 word" where "VHDP_BIND_READ_WRITE = 1"
definition VHDP_SEVERITY_INFO :: "32 word" where "VHDP_SEVERITY_INFO = 1"
definition VHDP_SEVERITY_ERROR :: "32 word" where "VHDP_SEVERITY_ERROR = 3"
definition VHDP_DOCTOR_NO_ACTIVE_PROBES :: "32 word" where "VHDP_DOCTOR_NO_ACTIVE_PROBES = 1"
definition VHDP_DOCTOR_REFRESH :: "32 word" where "VHDP_DOCTOR_REFRESH = 2"

text \<open>The sizes of the structures on the supported 64-bit targets.\<close>

definition sizeof_context_options :: "32 word" where "sizeof_context_options = 64"
definition sizeof_exit_info :: "32 word" where "sizeof_exit_info = 64"

record api_context =
  ac_has_fn :: bool
  ac_min_severity :: "32 word"
  ac_next_id :: "64 word"
  ac_live_sessions :: int
  ac_doctor :: "(bool \<times> string) option"     \<comment> \<open>\<open>doctor_active_\<close> and \<open>doctor_cache_\<close> once valid\<close>
  ac_inspect :: "string \<times> string"           \<comment> \<open>\<open>inspect_path_\<close> and \<open>inspect_cache_\<close>\<close>

record api_config =
  cf_ctx :: nat
  cf_cfg :: session_config

record api_session =
  as_ctx :: nat
  as_id :: "64 word"
  as_cfg :: validated_config
  as_session :: session

record api =
  ap_contexts :: "nat \<rightharpoonup> api_context"
  ap_configs :: "nat \<rightharpoonup> api_config"
  ap_sessions :: "nat \<rightharpoonup> api_session"
  ap_next :: nat                            \<comment> \<open>an address no object has had\<close>
  ap_last_error :: string
  ap_callback :: "64 word"                   \<comment> \<open>\<open>t_callback_session\<close>\<close>
  ap_in_callback :: bool                     \<comment> \<open>\<open>t_callback_any\<close>\<close>

type_synonym handle = "nat option"

definition api_start :: api where
  "api_start = \<lparr>ap_contexts = Map.empty, ap_configs = Map.empty, ap_sessions = Map.empty, ap_next = 1,
     ap_last_error = [], ap_callback = 0, ap_in_callback = False\<rparr>"

definition api_fail :: "code \<Rightarrow> string \<Rightarrow> api \<Rightarrow> code \<times> api" where
  "api_fail c msg a = (c, a\<lparr>ap_last_error := msg\<rparr>)"

definition from_status :: "status \<Rightarrow> api \<Rightarrow> code \<times> api" where
  "from_status s a = (if is_ok s then (Code_ok, a) else api_fail (st_code s) (st_message s) a)"

definition c_str :: "string \<Rightarrow> string" where "c_str s = takeWhile (\<lambda>c. c \<noteq> nul) s"

definition reserved_zero :: "64 word list \<Rightarrow> bool" where
  "reserved_zero r \<longleftrightarrow> list_all (\<lambda>x. x = 0) r"

definition vhdp_status_name :: "32 word \<Rightarrow> string" where
  "vhdp_status_name s =
     (case find (\<lambda>c. code_value c = unat s)
        [Code_ok, Code_invalid_argument, Code_abi_mismatch, Code_no_memory, Code_invalid_state, Code_unsupported,
         Code_engine_unavailable, Code_rootfs_invalid, Code_bind_invalid, Code_exec_failed, Code_permission_denied,
         Code_timeout, Code_buffer_too_small, Code_io, Code_busy, Code_cancelled, Code_not_found,
         Code_host_environment, Code_internal] of
        Some c \<Rightarrow> code_name c | None \<Rightarrow> ''VHDP_E_UNKNOWN'')"

section \<open>Documents into buffers\<close>

text \<open>
  \<open>copy_json\<close>: the buffer is its \<open>cap\<close> bytes, or \<open>None\<close>; the value is the status, \<open>*needed\<close> and the
  buffer afterwards.
\<close>

definition fill_buffer :: "string \<Rightarrow> string option \<Rightarrow> bool \<times> nat \<times> string option" where
  "fill_buffer doc buf =
     (case buf of
        None \<Rightarrow> (False, length doc + 1, None)
      | Some b \<Rightarrow>
          if length b < length doc + 1
          then (False, length doc + 1,
                Some (if length b > 0 then take (length b - 1) doc @ [nul] else b))
          else (True, length doc + 1, Some (doc @ [nul] @ drop (length doc + 1) b)))"

definition copy_json :: "string \<Rightarrow> string option \<Rightarrow> api \<Rightarrow> (code \<times> api) \<times> nat \<times> string option" where
  "copy_json doc buf a =
     (case fill_buffer doc buf of (ok, needed, buf') \<Rightarrow>
        (if ok then (Code_ok, a) else api_fail Code_buffer_too_small ''buffer too small for the JSON document'' a, needed, buf'))"

definition vhdp_last_error_message :: "string option \<Rightarrow> api \<Rightarrow> code \<times> nat \<times> string option" where
  "vhdp_last_error_message buf a =
     (case fill_buffer (ap_last_error a) buf of (ok, needed, buf') \<Rightarrow>
        (if ok then Code_ok else Code_buffer_too_small, needed, buf'))"

section \<open>Contexts\<close>

record context_options =
  co_struct_size :: "32 word"
  co_abi_version :: "32 word"
  co_event_fn :: bool
  co_min_severity :: "32 word"
  co_flags :: "32 word"
  co_reserved :: "64 word list"

definition new_context :: "bool \<Rightarrow> 32 word \<Rightarrow> api_context" where
  "new_context fn sev = \<lparr>ac_has_fn = fn, ac_min_severity = sev, ac_next_id = 1, ac_live_sessions = 0,
     ac_doctor = None, ac_inspect = ([], [])\<rparr>"

definition add_context :: "api_context \<Rightarrow> api \<Rightarrow> handle \<times> code \<times> api" where
  "add_context c a = (Some (ap_next a), Code_ok,
     a\<lparr>ap_contexts := (ap_contexts a)(ap_next a \<mapsto> c), ap_next := ap_next a + 1\<rparr>)"

definition vhdp_context_create :: "context_options option \<Rightarrow> bool \<Rightarrow> api \<Rightarrow> handle \<times> code \<times> api" where
  "vhdp_context_create options out_null a =
     (if out_null then (None, api_fail Code_invalid_argument ''out_context is NULL'' a)
      else case options of
          None \<Rightarrow> add_context (new_context False VHDP_SEVERITY_INFO) a
        | Some co \<Rightarrow>
            if co_struct_size co < sizeof_context_options \<or> co_abi_version co \<noteq> VHDP_ABI_VERSION
            then (None, api_fail Code_abi_mismatch ''vhdp_context_options struct_size/abi_version mismatch'' a)
            else if co_flags co \<noteq> 0 \<or> \<not> reserved_zero (co_reserved co)
            then (None, api_fail Code_invalid_argument ''vhdp_context_options flags/reserved fields must be zero'' a)
            else if co_min_severity co > VHDP_SEVERITY_ERROR
            then (None, api_fail Code_invalid_argument ''invalid min_severity'' a)
            else add_context (new_context (co_event_fn co) (co_min_severity co)) a)"

definition vhdp_context_destroy :: "handle \<Rightarrow> api \<Rightarrow> (code \<times> api) option" where
  "vhdp_context_destroy context a =
     (case context of
        None \<Rightarrow> Some (Code_ok, a)
      | Some x \<Rightarrow> (case ap_contexts a x of
          None \<Rightarrow> None
        | Some c \<Rightarrow> Some (
            if ap_in_callback a then api_fail Code_busy ''vhdp_context_destroy called from inside a callback'' a
            else if ac_live_sessions c \<noteq> 0 then api_fail Code_busy ''context still has live sessions'' a
            else (Code_ok, a\<lparr>ap_contexts := (ap_contexts a)(x := None)\<rparr>))))"

text \<open>\<open>Context::doctor_json\<close> and \<open>inspect_json\<close> with their caches; \<open>build\<close> is the report built now.\<close>

definition doctor_json :: "bool \<Rightarrow> bool \<Rightarrow> string \<Rightarrow> api_context \<Rightarrow> string \<times> api_context" where
  "doctor_json active_probes refresh build c =
     (case ac_doctor c of
        Some (active, cache) \<Rightarrow>
          if refresh \<or> active \<noteq> active_probes then (build, c\<lparr>ac_doctor := Some (active_probes, build)\<rparr>) else (cache, c)
      | None \<Rightarrow> (build, c\<lparr>ac_doctor := Some (active_probes, build)\<rparr>))"

definition inspect_json :: "string \<Rightarrow> string \<Rightarrow> api_context \<Rightarrow> string \<times> api_context" where
  "inspect_json rootfs build c =
     (if fst (ac_inspect c) \<noteq> rootfs \<or> snd (ac_inspect c) = [] then (build, c\<lparr>ac_inspect := (rootfs, build)\<rparr>)
      else (snd (ac_inspect c), c))"

type_synonym json_answer = "((code \<times> api) \<times> nat option \<times> string option) option"

definition refused :: "string \<Rightarrow> string option \<Rightarrow> api \<Rightarrow> json_answer" where
  "refused msg buf a = Some (api_fail Code_invalid_argument msg a, None, buf)"

definition answer_json :: "string \<Rightarrow> string option \<Rightarrow> api \<Rightarrow> json_answer" where
  "answer_json doc buf a = (case copy_json doc buf a of (r, needed, buf') \<Rightarrow> Some (r, Some needed, buf'))"

definition vhdp_doctor_json :: "handle \<Rightarrow> 32 word \<Rightarrow> string \<Rightarrow> string option \<Rightarrow> api \<Rightarrow> json_answer" where
  "vhdp_doctor_json context flags build buf a =
     (case context of
        None \<Rightarrow> refused ''context is NULL'' buf a
      | Some x \<Rightarrow> (case ap_contexts a x of
          None \<Rightarrow> None
        | Some c \<Rightarrow>
            if flags AND NOT (VHDP_DOCTOR_NO_ACTIVE_PROBES OR VHDP_DOCTOR_REFRESH) \<noteq> 0 then refused ''unknown doctor flags'' buf a
            else (case doctor_json (flags AND VHDP_DOCTOR_NO_ACTIVE_PROBES = 0) (flags AND VHDP_DOCTOR_REFRESH \<noteq> 0) build c of
                    (doc, c') \<Rightarrow> answer_json doc buf (a\<lparr>ap_contexts := (ap_contexts a)(x \<mapsto> c')\<rparr>))))"

definition vhdp_capabilities_json :: "handle \<Rightarrow> string \<Rightarrow> string option \<Rightarrow> api \<Rightarrow> json_answer" where
  "vhdp_capabilities_json context build buf a =
     (case context of
        None \<Rightarrow> refused ''context is NULL'' buf a
      | Some x \<Rightarrow> (case ap_contexts a x of None \<Rightarrow> None | Some c \<Rightarrow> answer_json build buf a))"

definition vhdp_inspect_rootfs_json :: "handle \<Rightarrow> string option \<Rightarrow> string \<Rightarrow> string option \<Rightarrow> api \<Rightarrow> json_answer" where
  "vhdp_inspect_rootfs_json context path build buf a =
     (case (context, path) of
        (Some x, Some p) \<Rightarrow> (case ap_contexts a x of
            None \<Rightarrow> None
          | Some c \<Rightarrow> (case inspect_json (c_str p) build c of
              (doc, c') \<Rightarrow> answer_json doc buf (a\<lparr>ap_contexts := (ap_contexts a)(x \<mapsto> c')\<rparr>)))
      | _ \<Rightarrow> refused ''context or rootfs_path is NULL'' buf a)"

text \<open>\<open>vhdp_configure_rootfs\<close> and \<open>vhdp_dpkg_plan_json\<close> build their report on every call.\<close>

definition rootfs_report :: "handle \<Rightarrow> string option \<Rightarrow> (string \<Rightarrow> string) \<Rightarrow> string option \<Rightarrow> api \<Rightarrow> json_answer" where
  "rootfs_report context path build buf a =
     (case (context, path) of
        (Some x, Some p) \<Rightarrow> (case ap_contexts a x of
            None \<Rightarrow> None | Some c \<Rightarrow> answer_json (build (c_str p)) buf a)
      | _ \<Rightarrow> refused ''context or rootfs_path is NULL'' buf a)"


section \<open>Configurations\<close>

definition vhdp_config_create :: "handle \<Rightarrow> bool \<Rightarrow> api \<Rightarrow> (handle \<times> code \<times> api) option" where
  "vhdp_config_create context out_null a =
     (case context of
        None \<Rightarrow> Some (None, api_fail Code_invalid_argument ''context or out_config is NULL'' a)
      | Some x \<Rightarrow>
          if out_null then Some (None, api_fail Code_invalid_argument ''context or out_config is NULL'' a)
          else if ap_contexts a x = None then None
          else Some (Some (ap_next a), Code_ok,
                 a\<lparr>ap_configs := (ap_configs a)(ap_next a \<mapsto> \<lparr>cf_ctx = x, cf_cfg = default_config\<rparr>), ap_next := ap_next a + 1\<rparr>))"

definition vhdp_config_destroy :: "handle \<Rightarrow> api \<Rightarrow> api option" where
  "vhdp_config_destroy config a =
     (case config of
        None \<Rightarrow> Some a
      | Some x \<Rightarrow> if ap_configs a x = None then None else Some (a\<lparr>ap_configs := (ap_configs a)(x := None)\<rparr>))"

text \<open>A setter: the check of the handle, then the new configuration or a status with its message.\<close>

definition on_config :: "handle \<Rightarrow> (session_config \<Rightarrow> (code \<times> string) + session_config) \<Rightarrow> api \<Rightarrow> (code \<times> api) option" where
  "on_config config f a =
     (case config of
        None \<Rightarrow> Some (api_fail Code_invalid_argument ''config handle is NULL'' a)
      | Some x \<Rightarrow> (case ap_configs a x of
          None \<Rightarrow> None
        | Some cf \<Rightarrow> Some (case f (cf_cfg cf) of
            Inl (c, msg) \<Rightarrow> api_fail c msg a
          | Inr cfg \<Rightarrow> (Code_ok, a\<lparr>ap_configs := (ap_configs a)(x \<mapsto> cf\<lparr>cf_cfg := cfg\<rparr>)\<rparr>))))"

definition vhdp_config_set_rootfs :: "string option \<Rightarrow> session_config \<Rightarrow> (code \<times> string) + session_config" where
  "vhdp_config_set_rootfs host_path c =
     (case host_path of
        None \<Rightarrow> Inl (Code_invalid_argument, ''rootfs path is NULL or empty'')
      | Some p \<Rightarrow> if c_str p = [] then Inl (Code_invalid_argument, ''rootfs path is NULL or empty'')
                  else Inr (c\<lparr>sc_rootfs := c_str p\<rparr>))"

definition engine_of_value :: "32 word \<Rightarrow> engine_kind" where
  "engine_of_value v = (if v = 0 then Eng_auto_select else if v = 1 then Eng_rootless else if v = 2 then Eng_rooted
     else if v = 3 then Eng_emulator else Eng_vm)"

definition vhdp_config_set_engine :: "32 word \<Rightarrow> session_config \<Rightarrow> (code \<times> string) + session_config" where
  "vhdp_config_set_engine engine c =
     (if engine > VHDP_ENGINE_VM then Inl (Code_invalid_argument, ''unknown engine kind'')
      else Inr (c\<lparr>sc_engine := engine_of_value engine\<rparr>))"

definition vhdp_config_set_cwd :: "string option \<Rightarrow> session_config \<Rightarrow> (code \<times> string) + session_config" where
  "vhdp_config_set_cwd guest_path c =
     (case guest_path of
        None \<Rightarrow> Inl (Code_invalid_argument, ''cwd is NULL'')
      | Some p \<Rightarrow> (let s = check_guest_path (c_str p) ''cwd''
                  in if \<not> is_ok s then Inl (st_code s, st_message s) else Inr (c\<lparr>sc_cwd := c_str p\<rparr>)))"

text \<open>\<open>argv\<close> is the array, \<open>argc\<close> entries that are C strings or \<open>NULL\<close>; \<open>None\<close> is a \<open>NULL\<close> array.\<close>

definition vhdp_config_set_argv :: "nat \<Rightarrow> string option list option \<Rightarrow> session_config \<Rightarrow> (code \<times> string) + session_config" where
  "vhdp_config_set_argv argc argv c =
     (if argc > kMaxArgs \<or> argc > 0 \<and> argv = None then Inl (Code_invalid_argument, ''invalid argc/argv'')
      else let v = take argc (case argv of None \<Rightarrow> [] | Some l \<Rightarrow> l)
           in if None \<in> set v then Inl (Code_invalid_argument, ''argv contains a NULL entry'')
              else Inr (c\<lparr>sc_argv := map (\<lambda>x. c_str (the x)) v\<rparr>))"

definition vhdp_config_add_env :: "string option \<Rightarrow> session_config \<Rightarrow> (code \<times> string) + session_config" where
  "vhdp_config_add_env key_value c =
     (if (case key_value of None \<Rightarrow> True | Some kv \<Rightarrow> \<not> valid_env_entry (c_str kv))
      then Inl (Code_invalid_argument, ''environment entry must be KEY=VALUE'')
      else if length (sc_env c) \<ge> kMaxEnv then Inl (Code_invalid_argument, ''too many environment entries'')
      else Inr (c\<lparr>sc_env := sc_env c @ [c_str (the key_value)]\<rparr>))"

definition vhdp_config_set_clear_env :: "32 word \<Rightarrow> session_config \<Rightarrow> (code \<times> string) + session_config" where
  "vhdp_config_set_clear_env clear c =
     (if clear > 1 then Inl (Code_invalid_argument, ''clear must be 0 or 1'') else Inr (c\<lparr>sc_clear_env := (clear = 1)\<rparr>))"

definition vhdp_config_add_bind :: "string option \<Rightarrow> string option \<Rightarrow> 32 word \<Rightarrow> session_config \<Rightarrow> (code \<times> string) + session_config" where
  "vhdp_config_add_bind host_path guest_path flags c =
     (case (host_path, guest_path) of
        (Some h, Some g) \<Rightarrow>
          if c_str h = [] then Inl (Code_bind_invalid, ''bind host/guest path is NULL or empty'')
          else if flags > VHDP_BIND_READ_WRITE then Inl (Code_invalid_argument, ''unknown bind flags'')
          else let s = check_guest_path (c_str g) ''bind guest path''
               in if \<not> is_ok s then Inl (Code_bind_invalid, st_message s)
                  else if length (sc_binds c) \<ge> kMaxBinds then Inl (Code_bind_invalid, ''too many binds'')
                  else Inr (c\<lparr>sc_binds := sc_binds c @ [\<lparr>bs_host = c_str h, bs_guest = c_str g,
                              bs_read_write = (flags = VHDP_BIND_READ_WRITE)\<rparr>]\<rparr>)
      | _ \<Rightarrow> Inl (Code_bind_invalid, ''bind host/guest path is NULL or empty''))"

definition vhdp_config_set_read_only_rootfs :: "32 word \<Rightarrow> session_config \<Rightarrow> (code \<times> string) + session_config" where
  "vhdp_config_set_read_only_rootfs ro c =
     (if ro > 1 then Inl (Code_invalid_argument, ''read_only must be 0 or 1'') else Inr (c\<lparr>sc_read_only_rootfs := (ro = 1)\<rparr>))"

definition vhdp_config_set_network :: "32 word \<Rightarrow> session_config \<Rightarrow> (code \<times> string) + session_config" where
  "vhdp_config_set_network network c =
     (if network > VHDP_NETWORK_NONE then Inl (Code_invalid_argument, ''unknown network policy'')
      else Inr (c\<lparr>sc_network := (if network = 0 then Net_host else Net_none)\<rparr>))"

definition vhdp_config_set_uid :: "32 word \<Rightarrow> session_config \<Rightarrow> (code \<times> string) + session_config" where
  "vhdp_config_set_uid uid c =
     (if uid = - 1 then Inl (Code_invalid_argument, ''uid 4294967295 is reserved'') else Inr (c\<lparr>sc_uid := Some (unat uid)\<rparr>))"

definition vhdp_config_set_gid :: "32 word \<Rightarrow> session_config \<Rightarrow> (code \<times> string) + session_config" where
  "vhdp_config_set_gid gid c =
     (if gid = - 1 then Inl (Code_invalid_argument, ''gid 4294967295 is reserved'') else Inr (c\<lparr>sc_gid := Some (unat gid)\<rparr>))"

definition vhdp_config_set_timeout_ms :: "64 word \<Rightarrow> session_config \<Rightarrow> (code \<times> string) + session_config" where
  "vhdp_config_set_timeout_ms ms c =
     (if unat ms > kMaxTimeoutMs then Inl (Code_invalid_argument, ''timeout is longer than one year'')
      else Inr (c\<lparr>sc_timeout_ms := unat ms\<rparr>))"

definition vhdp_config_set_trace :: "32 word \<Rightarrow> session_config \<Rightarrow> (code \<times> string) + session_config" where
  "vhdp_config_set_trace trace c =
     (if trace > 1 then Inl (Code_invalid_argument, ''trace must be 0 or 1'') else Inr (c\<lparr>sc_trace := (trace = 1)\<rparr>))"

definition vhdp_config_set_stdio :: "32 word \<Rightarrow> 32 word \<Rightarrow> 32 word \<Rightarrow> 32 word \<Rightarrow> session_config \<Rightarrow> (code \<times> string) + session_config" where
  "vhdp_config_set_stdio mode in_fd out_fd err_fd c =
     (if mode > VHDP_STDIO_FDS then Inl (Code_invalid_argument, ''unknown stdio mode'')
      else if mode \<noteq> VHDP_STDIO_FDS \<and> (in_fd \<noteq> - 1 \<or> out_fd \<noteq> - 1 \<or> err_fd \<noteq> - 1)
      then Inl (Code_invalid_argument, ''file descriptors are only accepted with VHDP_STDIO_FDS (pass -1)'')
      else Inr (c\<lparr>sc_stdio := (if mode = 0 then Stdio_inherit else if mode = 1 then Stdio_pty else Stdio_fds),
                  sc_stdio_fds := [sint in_fd, sint out_fd, sint err_fd]\<rparr>))"

definition vhdp_config_set_pty_size :: "16 word \<Rightarrow> 16 word \<Rightarrow> session_config \<Rightarrow> (code \<times> string) + session_config" where
  "vhdp_config_set_pty_size rows cols c =
     (if rows = 0 \<or> cols = 0 then Inl (Code_invalid_argument, ''rows and cols must be non-zero'')
      else Inr (c\<lparr>sc_pty_rows := unat rows, sc_pty_cols := unat cols\<rparr>))"

definition vhdp_config_set_output_callback :: "bool \<Rightarrow> session_config \<Rightarrow> (code \<times> string) + session_config" where
  "vhdp_config_set_output_callback fn c = Inr (c\<lparr>sc_output_fn := fn\<rparr>)"

definition vhdp_config_set_seccomp :: "32 word \<Rightarrow> session_config \<Rightarrow> (code \<times> string) + session_config" where
  "vhdp_config_set_seccomp mode c =
     (if mode > VHDP_SECCOMP_OFF then Inl (Code_invalid_argument, ''unknown seccomp mode'')
      else Inr (c\<lparr>sc_seccomp := (if mode = 0 then Seccomp_auto_select else if mode = 1 then Seccomp_on else Seccomp_off)\<rparr>))"

definition vhdp_config_set_dev :: "32 word \<Rightarrow> session_config \<Rightarrow> (code \<times> string) + session_config" where
  "vhdp_config_set_dev mode c =
     (if mode > VHDP_DEV_NONE then Inl (Code_invalid_argument, ''unknown dev mode'')
      else Inr (c\<lparr>sc_dev := (if mode = 0 then Dev_minimal else Dev_none)\<rparr>))"

definition vhdp_config_set_proc :: "32 word \<Rightarrow> session_config \<Rightarrow> (code \<times> string) + session_config" where
  "vhdp_config_set_proc mode c =
     (if mode > VHDP_PROC_HOST then Inl (Code_invalid_argument, ''unknown proc mode'')
      else Inr (c\<lparr>sc_proc := (if mode = 0 then Proc_none else Proc_host)\<rparr>))"

section \<open>Sessions\<close>

definition vhdp_session_create :: "config_host \<Rightarrow> handle \<Rightarrow> handle \<Rightarrow> bool \<Rightarrow> api \<Rightarrow> (handle \<times> code \<times> api) option" where
  "vhdp_session_create host context config out_null a =
     (case (context, config) of
        (Some x, Some y) \<Rightarrow>
          if out_null then Some (None, api_fail Code_invalid_argument ''context, config or out_session is NULL'' a)
          else (case (ap_contexts a x, ap_configs a y) of
            (Some c, Some cf) \<Rightarrow> Some (
              if cf_ctx cf \<noteq> x then (None, api_fail Code_invalid_argument ''config was created by a different context'' a)
              else (case validate_config host (cf_cfg cf) of
                  Inl st \<Rightarrow> (None, from_status st a)
                | Inr v \<Rightarrow> (Some (ap_next a), Code_ok,
                    a\<lparr>ap_sessions := (ap_sessions a)(ap_next a \<mapsto>
                        \<lparr>as_ctx = x, as_id = ac_next_id c, as_cfg = v, as_session = session_new\<rparr>),
                      ap_contexts := (ap_contexts a)(x \<mapsto> c\<lparr>ac_next_id := ac_next_id c + 1, ac_live_sessions := ac_live_sessions c + 1\<rparr>),
                      ap_next := ap_next a + 1\<rparr>)))
          | _ \<Rightarrow> None)
      | _ \<Rightarrow> Some (None, api_fail Code_invalid_argument ''context, config or out_session is NULL'' a))"

text \<open>The calls that look a session up, and give a status of it.\<close>

definition on_session :: "handle \<Rightarrow> (api_session \<Rightarrow> (code \<times> string) + 'b) \<Rightarrow> string \<Rightarrow> api \<Rightarrow> ('b option \<times> code \<times> api) option" where
  "on_session session f null_msg a =
     (case session of
        None \<Rightarrow> Some (None, api_fail Code_invalid_argument null_msg a)
      | Some x \<Rightarrow> (case ap_sessions a x of
          None \<Rightarrow> None
        | Some s \<Rightarrow> Some (case f s of Inl (c, msg) \<Rightarrow> (None, api_fail c msg a) | Inr v \<Rightarrow> (Some v, Code_ok, a))))"

definition of_status :: "status \<Rightarrow> (code \<times> string) + unit" where
  "of_status s = (if is_ok s then Inr () else Inl (st_code s, st_message s))"

text \<open>\<open>started\<close> is what \<open>Session::start\<close> returned, and \<open>cancelled\<close> what \<open>Session::cancel\<close> did.\<close>

definition vhdp_session_start :: "handle \<Rightarrow> status \<Rightarrow> api \<Rightarrow> (unit option \<times> code \<times> api) option" where
  "vhdp_session_start session started = on_session session (\<lambda>_. of_status started) ''session is NULL''"

definition vhdp_session_cancel :: "handle \<Rightarrow> status \<Rightarrow> api \<Rightarrow> (unit option \<times> code \<times> api) option" where
  "vhdp_session_cancel session cancelled = on_session session (\<lambda>_. of_status cancelled) ''session is NULL''"

record exit_info =
  xi_state :: state
  xi_reason :: exit_reason
  xi_exit_code :: int
  xi_term_signal :: int
  xi_shell_status :: int
  xi_status :: code

definition exit_info_of :: "exit_result \<Rightarrow> state \<Rightarrow> exit_info" where
  "exit_info_of r st = \<lparr>xi_state = st, xi_reason = er_reason r, xi_exit_code = er_exit_code r,
     xi_term_signal = er_term_signal r, xi_shell_status = shell_status r, xi_status = st_code (er_status r)\<rparr>"

text \<open>
  \<open>vhdp_session_wait\<close>: \<open>out\<close> is the pair of size and version the caller put into the structure, or
  \<open>None\<close> for \<open>NULL\<close>; the session is taken as it is when its wait returns.
\<close>

definition wait_answer :: "(32 word \<times> 32 word) option \<Rightarrow> 64 word \<Rightarrow> api_session \<Rightarrow> (code \<times> string) + exit_info" where
  "wait_answer out callback s =
     (if (case out of None \<Rightarrow> False | Some (sz, v) \<Rightarrow> sz < sizeof_exit_info \<or> v \<noteq> VHDP_ABI_VERSION)
      then Inl (Code_abi_mismatch, ''vhdp_exit_info struct_size/abi_version mismatch'')
      else if callback = as_id s
      then Inl (Code_busy, ''vhdp_session_wait called from a callback of the same session'')
      else if ss_state (as_session s) = St_created then Inl (Code_invalid_state, ''session has not been started'')
      else case session_wait (as_session s) of
          None \<Rightarrow> Inl (Code_timeout, ''session is still running'')
        | Some (r, st) \<Rightarrow> Inr (exit_info_of r st))"

definition vhdp_session_wait :: "handle \<Rightarrow> (32 word \<times> 32 word) option \<Rightarrow> api \<Rightarrow> (exit_info option \<times> code \<times> api) option" where
  "vhdp_session_wait session out a = on_session session (wait_answer out (ap_callback a)) ''session is NULL'' a"

definition vhdp_session_state :: "handle \<Rightarrow> bool \<Rightarrow> api \<Rightarrow> (state option \<times> code \<times> api) option" where
  "vhdp_session_state session out_null =
     on_session (if out_null then None else session) (\<lambda>s. Inr (ss_state (as_session s))) ''session or out_state is NULL''"

definition vhdp_session_engine :: "handle \<Rightarrow> bool \<Rightarrow> api \<Rightarrow> (engine_kind option \<times> code \<times> api) option" where
  "vhdp_session_engine session out_null =
     on_session (if out_null then None else session) (\<lambda>s. Inr (ss_kind (as_session s))) ''session or out_engine is NULL''"

definition vhdp_session_signal :: "(int \<Rightarrow> status) \<Rightarrow> handle \<Rightarrow> int \<Rightarrow> api \<Rightarrow> (unit option \<times> code \<times> api) option" where
  "vhdp_session_signal inst session signo =
     on_session (if signo < 0 \<or> signo > 64 then None else session)
       (\<lambda>s. of_status (session_signal inst signo (as_session s))) ''session is NULL or signal out of range''"

definition vhdp_session_resize :: "(nat \<Rightarrow> nat \<Rightarrow> status) \<Rightarrow> handle \<Rightarrow> 16 word \<Rightarrow> 16 word \<Rightarrow> api \<Rightarrow> (unit option \<times> code \<times> api) option" where
  "vhdp_session_resize inst session rows cols =
     on_session session (\<lambda>s. of_status (session_resize inst (unat rows) (unat cols) (as_session s))) ''session is NULL''"

text \<open>The value is what \<open>*out_written\<close> receives, also when the write fails.\<close>

definition vhdp_session_write_input ::
  "(string \<Rightarrow> status \<times> nat) \<Rightarrow> handle \<Rightarrow> string option \<Rightarrow> nat \<Rightarrow> api \<Rightarrow> (nat option \<times> code \<times> api) option" where
  "vhdp_session_write_input inst session data len a =
     (case (session, data = None \<and> len > 0) of
        (Some x, False) \<Rightarrow> (case ap_sessions a x of
            None \<Rightarrow> None
          | Some s \<Rightarrow> (case session_write_input inst (take len (case data of None \<Rightarrow> [] | Some d \<Rightarrow> d)) (as_session s) of
              (st, written) \<Rightarrow> Some (Some written, from_status st a)))
      | _ \<Rightarrow> Some (None, api_fail Code_invalid_argument ''session or data is NULL'' a))"

definition vhdp_session_pty_master :: "int \<Rightarrow> handle \<Rightarrow> bool \<Rightarrow> api \<Rightarrow> (int option \<times> code \<times> api) option" where
  "vhdp_session_pty_master inst session out_null =
     on_session (if out_null then None else session)
       (\<lambda>s. let fd = session_pty_master inst (as_session s)
            in if fd < 0 then Inl (Code_invalid_state, ''no PTY: session not started or not in VHDP_STDIO_PTY mode'') else Inr fd)
       ''session or out_fd is NULL''"

text \<open>Destruction joins the threads of the session, removes it and takes it off the count of its context.\<close>

definition vhdp_session_destroy :: "handle \<Rightarrow> api \<Rightarrow> (code \<times> api) option" where
  "vhdp_session_destroy session a =
     (case session of
        None \<Rightarrow> Some (Code_ok, a)
      | Some x \<Rightarrow> (case ap_sessions a x of
          None \<Rightarrow> None
        | Some s \<Rightarrow>
            if ap_callback a = as_id s
            then Some (api_fail Code_busy ''vhdp_session_destroy called from a callback of the same session'' a)
            else (case ap_contexts a (as_ctx s) of
                None \<Rightarrow> None
              | Some c \<Rightarrow> Some (Code_ok, a\<lparr>ap_sessions := (ap_sessions a)(x := None),
                  ap_contexts := (ap_contexts a)(as_ctx s \<mapsto> c\<lparr>ac_live_sessions := ac_live_sessions c - 1\<rparr>)\<rparr>))))"

text \<open>The scope of a callback, as \<open>CapiSink::emit\<close> and the output pump open it.\<close>

definition enter_callback :: "64 word \<Rightarrow> api \<Rightarrow> api" where
  "enter_callback session_id a = a\<lparr>ap_callback := (if session_id = 0 then - 1 else session_id), ap_in_callback := True\<rparr>"

definition sink_wants :: "api_context \<Rightarrow> 32 word \<Rightarrow> bool" where
  "sink_wants c sev \<longleftrightarrow> ac_has_fn c \<and> sev \<ge> ac_min_severity c"

end
