(* ===== verification/Capi_Safety.thy ===== *)
theory Capi_Safety
  imports Capi
begin

unbundle bit_operations_syntax

text \<open>
  What the C interface promises: configurations stay well formed whatever a caller passes, the
  two-call protocol of the JSON documents works, and no session outlives its context.
\<close>

section \<open>Configurations\<close>

text \<open>The calls of the configuration builder, with arbitrary arguments.\<close>

datatype config_call =
    Set_rootfs "string option" | Set_engine "32 word" | Set_cwd "string option"
  | Set_argv nat "string option list option" | Add_env "string option" | Set_clear_env "32 word"
  | Add_bind "string option" "string option" "32 word" | Set_read_only "32 word" | Set_network "32 word"
  | Set_uid "32 word" | Set_gid "32 word" | Set_timeout "64 word" | Set_trace "32 word"
  | Set_stdio "32 word" "32 word" "32 word" "32 word" | Set_pty_size "16 word" "16 word" | Set_output bool
  | Set_seccomp "32 word" | Set_dev "32 word" | Set_proc "32 word"

fun config_op :: "config_call \<Rightarrow> session_config \<Rightarrow> (code \<times> string) + session_config" where
  "config_op (Set_rootfs p) = vhdp_config_set_rootfs p"
| "config_op (Set_engine v) = vhdp_config_set_engine v"
| "config_op (Set_cwd p) = vhdp_config_set_cwd p"
| "config_op (Set_argv n v) = vhdp_config_set_argv n v"
| "config_op (Add_env kv) = vhdp_config_add_env kv"
| "config_op (Set_clear_env v) = vhdp_config_set_clear_env v"
| "config_op (Add_bind h g v) = vhdp_config_add_bind h g v"
| "config_op (Set_read_only v) = vhdp_config_set_read_only_rootfs v"
| "config_op (Set_network v) = vhdp_config_set_network v"
| "config_op (Set_uid v) = vhdp_config_set_uid v"
| "config_op (Set_gid v) = vhdp_config_set_gid v"
| "config_op (Set_timeout v) = vhdp_config_set_timeout_ms v"
| "config_op (Set_trace v) = vhdp_config_set_trace v"
| "config_op (Set_stdio m i e r) = vhdp_config_set_stdio m i e r"
| "config_op (Set_pty_size r c) = vhdp_config_set_pty_size r c"
| "config_op (Set_output f) = vhdp_config_set_output_callback f"
| "config_op (Set_seccomp v) = vhdp_config_set_seccomp v"
| "config_op (Set_dev v) = vhdp_config_set_dev v"
| "config_op (Set_proc v) = vhdp_config_set_proc v"

definition config_typed :: "session_config \<Rightarrow> bool" where
  "config_typed c \<longleftrightarrow>
     nul \<notin> set (sc_rootfs c) \<and> is_ok (check_guest_path (sc_cwd c) ''cwd'') \<and>
     length (sc_argv c) \<le> kMaxArgs \<and> list_all (\<lambda>s. nul \<notin> set s) (sc_argv c) \<and>
     length (sc_env c) \<le> kMaxEnv \<and> list_all valid_env_entry (sc_env c) \<and>
     length (sc_binds c) \<le> kMaxBinds \<and>
     list_all (\<lambda>b. bs_host b \<noteq> [] \<and> nul \<notin> set (bs_host b) \<and> is_ok (check_guest_path (bs_guest b) ''bind guest path'')) (sc_binds c) \<and>
     (\<forall>u. sc_uid c = Some u \<longrightarrow> u < 2 ^ 32 - 1) \<and> (\<forall>g. sc_gid c = Some g \<longrightarrow> g < 2 ^ 32 - 1) \<and>
     sc_timeout_ms c \<le> kMaxTimeoutMs \<and> (\<forall>n. sc_stdio c \<noteq> Stdio_unknown n) \<and>
     length (sc_stdio_fds c) = 3 \<and> (sc_stdio c \<noteq> Stdio_fds \<longrightarrow> sc_stdio_fds c = [- 1, - 1, - 1]) \<and>
     0 < sc_pty_rows c \<and> sc_pty_rows c < 2 ^ 16 \<and> 0 < sc_pty_cols c \<and> sc_pty_cols c < 2 ^ 16"

lemma c_str_nul_free [simp]: "nul \<notin> set (c_str s)"
  by (auto simp: c_str_def dest: set_takeWhileD)

lemma unat_not_max:
  assumes "(u::32 word) \<noteq> - 1"
  shows "unat u < 2 ^ 32 - 1"
proof -
  have "unat u < 2 ^ 32" using unsigned_less [of u, where 'a = nat] by simp
  moreover have "unat u \<noteq> 2 ^ 32 - 1"
  proof
    assume "unat u = 2 ^ 32 - 1"
    then have "unat u = unat (4294967295 :: 32 word)" by simp
    then have "u = 4294967295" by (simp only: word_unat_eq_iff)
    then show False using assms by simp
  qed
  ultimately show ?thesis by simp
qed

lemma default_config_typed: "config_typed default_config"
proof -
  have "is_ok (check_guest_path ''/'' ''cwd'')" by code_simp
  then show ?thesis by (simp add: config_typed_def default_config_def kMaxTimeoutMs_def)
qed

text \<open>Updates of the fields no check is about, and of the others with a checked value.\<close>

lemma typed_unchecked [simp]:
  "config_typed (c\<lparr>sc_engine := e\<rparr>) = config_typed c" "config_typed (c\<lparr>sc_clear_env := b\<rparr>) = config_typed c"
  "config_typed (c\<lparr>sc_read_only_rootfs := b\<rparr>) = config_typed c" "config_typed (c\<lparr>sc_network := w\<rparr>) = config_typed c"
  "config_typed (c\<lparr>sc_trace := b\<rparr>) = config_typed c" "config_typed (c\<lparr>sc_output_fn := b\<rparr>) = config_typed c"
  "config_typed (c\<lparr>sc_seccomp := m\<rparr>) = config_typed c" "config_typed (c\<lparr>sc_dev := d\<rparr>) = config_typed c"
  "config_typed (c\<lparr>sc_proc := p\<rparr>) = config_typed c"
  by (simp_all add: config_typed_def)

lemma typed_checked:
  assumes "config_typed c"
  shows "nul \<notin> set s \<Longrightarrow> config_typed (c\<lparr>sc_rootfs := s\<rparr>)"
    "is_ok (check_guest_path s ''cwd'') \<Longrightarrow> config_typed (c\<lparr>sc_cwd := s\<rparr>)"
    "length v \<le> kMaxArgs \<Longrightarrow> list_all (\<lambda>s. nul \<notin> set s) v \<Longrightarrow> config_typed (c\<lparr>sc_argv := v\<rparr>)"
    "valid_env_entry s \<Longrightarrow> length (sc_env c) < kMaxEnv \<Longrightarrow> config_typed (c\<lparr>sc_env := sc_env c @ [s]\<rparr>)"
    "length (sc_binds c) < kMaxBinds \<Longrightarrow> bs_host b \<noteq> [] \<Longrightarrow> nul \<notin> set (bs_host b) \<Longrightarrow>
       is_ok (check_guest_path (bs_guest b) ''bind guest path'') \<Longrightarrow> config_typed (c\<lparr>sc_binds := sc_binds c @ [b]\<rparr>)"
    "u < 2 ^ 32 - 1 \<Longrightarrow> config_typed (c\<lparr>sc_uid := Some u\<rparr>)" "u < 2 ^ 32 - 1 \<Longrightarrow> config_typed (c\<lparr>sc_gid := Some u\<rparr>)"
    "t \<le> kMaxTimeoutMs \<Longrightarrow> config_typed (c\<lparr>sc_timeout_ms := t\<rparr>)"
    "(\<forall>n. m \<noteq> Stdio_unknown n) \<Longrightarrow> length fds = 3 \<Longrightarrow> (m \<noteq> Stdio_fds \<longrightarrow> fds = [- 1, - 1, - 1]) \<Longrightarrow>
       config_typed (c\<lparr>sc_stdio := m, sc_stdio_fds := fds\<rparr>)"
    "0 < r \<Longrightarrow> r < 2 ^ 16 \<Longrightarrow> 0 < k \<Longrightarrow> k < 2 ^ 16 \<Longrightarrow> config_typed (c\<lparr>sc_pty_rows := r, sc_pty_cols := k\<rparr>)"
  using assms by (simp_all add: config_typed_def)

lemma config_op_typed:
  assumes "config_typed c" and "config_op x c = Inr c'"
  shows "config_typed c'"
proof (cases x)
  case (Set_uid u)
  then show ?thesis using assms unat_not_max [of u] by (auto simp: vhdp_config_set_uid_def typed_checked split: if_splits)
next
  case (Set_gid u)
  then show ?thesis using assms unat_not_max [of u] by (auto simp: vhdp_config_set_gid_def typed_checked split: if_splits)
next
  case (Set_argv n v)
  then show ?thesis using assms
    by (auto simp: vhdp_config_set_argv_def Let_def list_all_iff split: if_splits option.splits intro!: typed_checked(3))
next
  case (Set_pty_size r co)
  then show ?thesis using assms unsigned_less [of r, where 'a = nat] unsigned_less [of co, where 'a = nat]
    by (auto simp: vhdp_config_set_pty_size_def unat_gt_0 split: if_splits intro!: typed_checked(10))
next
  case (Set_stdio m i e r)
  then show ?thesis using assms by (auto simp: vhdp_config_set_stdio_def VHDP_STDIO_FDS_def split: if_splits intro!: typed_checked(9))
next
  case (Add_bind h g v)
  then show ?thesis using assms
    by (auto simp: vhdp_config_add_bind_def Let_def split: if_splits option.splits intro!: typed_checked(5))
qed (use assms in \<open>auto simp: typed_checked Let_def vhdp_config_set_rootfs_def vhdp_config_set_engine_def vhdp_config_set_cwd_def vhdp_config_add_env_def
       vhdp_config_set_clear_env_def vhdp_config_set_read_only_rootfs_def vhdp_config_set_network_def vhdp_config_set_timeout_ms_def vhdp_config_set_trace_def
       vhdp_config_set_output_callback_def vhdp_config_set_seccomp_def vhdp_config_set_dev_def vhdp_config_set_proc_def split: if_splits option.splits\<close>)


text \<open>A run of calls on one configuration, through the interface; a refused call does not end it.\<close>

fun config_run :: "handle \<Rightarrow> config_call list \<Rightarrow> api \<Rightarrow> api option" where
  "config_run h [] a = Some a"
| "config_run h (x # xs) a = (case on_config h (config_op x) a of None \<Rightarrow> None | Some (c, a') \<Rightarrow> config_run h xs a')"

lemma on_config_typed:
  assumes "ap_configs a x = Some cf" and "config_typed (cf_cfg cf)" and "on_config (Some x) (config_op f) a = Some (c, a')"
  shows "\<exists>cf'. ap_configs a' x = Some cf' \<and> config_typed (cf_cfg cf') \<and> cf_ctx cf' = cf_ctx cf \<and>
     (c \<noteq> Code_ok \<longrightarrow> cf' = cf \<and> ap_configs a' = ap_configs a)"
  using assms config_op_typed [OF assms(2), of f]
  by (auto simp: on_config_def api_fail_def split: sum.splits prod.splits)

lemma config_run_typed:
  assumes "ap_configs a x = Some cf" and "config_typed (cf_cfg cf)"
  shows "\<exists>a' cf'. config_run (Some x) calls a = Some a' \<and> ap_configs a' x = Some cf' \<and> config_typed (cf_cfg cf')"
  using assms
proof (induction calls arbitrary: a cf)
  case (Cons f calls)
  have "on_config (Some x) (config_op f) a \<noteq> None" using Cons.prems(1) by (simp add: on_config_def)
  then obtain c a' where r: "on_config (Some x) (config_op f) a = Some (c, a')" by auto
  obtain cf' where "ap_configs a' x = Some cf'" "config_typed (cf_cfg cf')"
    using on_config_typed [OF Cons.prems r] by blast
  then show ?case using Cons.IH r by simp
qed auto



definition one_context :: api where
  "one_context = snd (snd (vhdp_context_create None False api_start))"

lemma one_context_config:
  "vhdp_config_create (Some 1) False one_context =
     Some (Some 2, Code_ok, one_context\<lparr>ap_configs := [2 \<mapsto> \<lparr>cf_ctx = 1, cf_cfg = default_config\<rparr>], ap_next := 3\<rparr>)"
  by (simp add: one_context_def vhdp_context_create_def add_context_def vhdp_config_create_def api_start_def numeral_2_eq_2 numeral_3_eq_3)


section \<open>Documents\<close>

lemma c_str_append: "nul \<notin> set s \<Longrightarrow> c_str (s @ nul # r) = s"
proof -
  assume "nul \<notin> set s"
  then have "\<And>x. x \<in> set s \<Longrightarrow> x \<noteq> nul" by auto
  then show ?thesis by (simp add: c_str_def takeWhile_tail)
qed

lemma fill_buffer_fits:
  assumes "nul \<notin> set doc" and "length doc + 1 \<le> length b"
  shows "\<exists>b'. fill_buffer doc (Some b) = (True, length doc + 1, Some b') \<and> length b' = length b \<and> c_str b' = doc"
  using assms c_str_append [of doc "drop (length doc + 1) b"] by (simp add: fill_buffer_def)

lemma fill_buffer_short:
  assumes "nul \<notin> set doc" and "length b < length doc + 1"
  shows "\<exists>b'. fill_buffer doc (Some b) = (False, length doc + 1, Some b') \<and> length b' = length b \<and>
     (b \<noteq> [] \<longrightarrow> c_str b' = take (length b - 1) doc)"
proof -
  have "nul \<notin> set (take (length b - 1) doc)" using assms(1) by (meson in_set_takeD)
  then show ?thesis
    using assms c_str_append [of "take (length b - 1) doc" "[]"] by (auto simp: fill_buffer_def)
qed

text \<open>
  The two-call protocol of the doctor report.  A first call without a buffer names the size; unless the
  caller asks for a refresh, a second call with a buffer of at least that size succeeds, writes only
  into it, and delivers the report the first call was about, even when the host would answer differently by then.
\<close>

theorem doctor_two_calls:
  assumes "vhdp_doctor_json (Some x) flags build1 None a = Some ((c1, a1), Some n, buf1)"
    and "flags AND VHDP_DOCTOR_REFRESH = 0" and "n \<le> length b"
    and "nul \<notin> set build1 \<and> (\<forall>c d. ap_contexts a x = Some c \<and> ac_doctor c = Some d \<longrightarrow> nul \<notin> set (snd d))"
  shows "\<exists>doc a2 b'. n = length doc + 1 \<and> c1 = Code_buffer_too_small \<and>
    vhdp_doctor_json (Some x) flags build2 (Some b) a1 = Some ((Code_ok, a2), Some n, Some b') \<and>
    length b' = length b \<and> c_str b' = doc \<and>
    (\<forall>c. ap_contexts a x = Some c \<longrightarrow> doc = fst (doctor_json (flags AND VHDP_DOCTOR_NO_ACTIVE_PROBES = 0) False build1 c))"
proof -
  let ?act = "flags AND VHDP_DOCTOR_NO_ACTIVE_PROBES = 0"
  obtain c where c: "ap_contexts a x = Some c"
    using assms(1) by (auto simp: vhdp_doctor_json_def split: option.splits)
  have ok: "flags AND NOT (VHDP_DOCTOR_NO_ACTIVE_PROBES OR VHDP_DOCTOR_REFRESH) = 0"
    using assms(1) c by (auto simp: vhdp_doctor_json_def refused_def split: if_splits)
  obtain doc c' where d: "doctor_json ?act False build1 c = (doc, c')" by force
  have free: "nul \<notin> set doc" using d assms(4) c by (auto simp: doctor_json_def split: option.splits prod.splits if_splits)
  have first: "n = length doc + 1 \<and> c1 = Code_buffer_too_small \<and> ap_contexts a1 x = Some c'"
    using assms(1,2) c ok d by (auto simp: vhdp_doctor_json_def answer_json_def copy_json_def fill_buffer_def api_fail_def split: if_splits)
  have again: "doctor_json ?act False build2 c' = (doc, c')"
    using d by (auto simp: doctor_json_def split: option.splits prod.splits if_splits)
  obtain b' where b': "fill_buffer doc (Some b) = (True, length doc + 1, Some b')" "length b' = length b" "c_str b' = doc"
    using fill_buffer_fits [OF free, of b] first assms(3) by auto
  have "vhdp_doctor_json (Some x) flags build2 (Some b) a1 =
    Some ((Code_ok, a1\<lparr>ap_contexts := (ap_contexts a1)(x \<mapsto> c')\<rparr>), Some n, Some b')"
    using first ok assms(2) again b' by (simp add: vhdp_doctor_json_def answer_json_def copy_json_def)
  then show ?thesis using first b' c d by (intro exI [of _ doc]) auto
qed

theorem doctor_two_calls_witness:
  "\<exists>doc a2 b'. 3 = length doc + 1 \<and>
     vhdp_doctor_json (Some 1) 1 ''{x}'' (Some ''......'') (snd (fst (the (vhdp_doctor_json (Some 1) 1 ''{}'' None one_context)))) =
       Some ((Code_ok, a2), Some 3, Some b') \<and> c_str b' = doc"
proof -
  have r: "vhdp_doctor_json (Some 1) 1 ''{}'' None one_context =
    Some ((Code_buffer_too_small, snd (fst (the (vhdp_doctor_json (Some 1) 1 ''{}'' None one_context)))), Some 3, None)"
    by (simp add: vhdp_doctor_json_def one_context_def vhdp_context_create_def add_context_def api_start_def new_context_def
        doctor_json_def answer_json_def copy_json_def fill_buffer_def api_fail_def VHDP_DOCTOR_NO_ACTIVE_PROBES_def VHDP_DOCTOR_REFRESH_def)
  show ?thesis
    using doctor_two_calls [OF r, of "''......''" "''{x}''"]
    by (auto simp: VHDP_DOCTOR_REFRESH_def one_context_def vhdp_context_create_def add_context_def api_start_def new_context_def)
qed


section \<open>Lifetimes\<close>

text \<open>
  Every state the calls of the interface lead to.  The threads of a session change it at any time; a
  thread enters and leaves callbacks.
\<close>

inductive api_reachable :: "config_host \<Rightarrow> api \<Rightarrow> bool" for host where
  "api_reachable host api_start"
| "api_reachable host a \<Longrightarrow> vhdp_context_create options out_null a = (h, c, a') \<Longrightarrow> api_reachable host a'"
| "api_reachable host a \<Longrightarrow> vhdp_context_destroy h a = Some (c, a') \<Longrightarrow> api_reachable host a'"
| "api_reachable host a \<Longrightarrow> vhdp_config_create h out_null a = Some (h', c, a') \<Longrightarrow> api_reachable host a'"
| "api_reachable host a \<Longrightarrow> vhdp_config_destroy h a = Some a' \<Longrightarrow> api_reachable host a'"
| "api_reachable host a \<Longrightarrow> on_config h (config_op x) a = Some (c, a') \<Longrightarrow> api_reachable host a'"
| "api_reachable host a \<Longrightarrow> vhdp_doctor_json h flags build buf a = Some ((c, a'), n, b) \<Longrightarrow> api_reachable host a'"
| "api_reachable host a \<Longrightarrow> vhdp_inspect_rootfs_json h path build buf a = Some ((c, a'), n, b) \<Longrightarrow> api_reachable host a'"
| "api_reachable host a \<Longrightarrow> vhdp_session_create host h g out_null a = Some (h', c, a') \<Longrightarrow> api_reachable host a'"
| "api_reachable host a \<Longrightarrow> vhdp_session_wait h out a = Some (r, c, a') \<Longrightarrow> api_reachable host a'"
| "api_reachable host a \<Longrightarrow> vhdp_session_destroy h a = Some (c, a') \<Longrightarrow> api_reachable host a'"
| "api_reachable host a \<Longrightarrow> ap_sessions a x = Some s \<Longrightarrow>
     api_reachable host (a\<lparr>ap_sessions := (ap_sessions a)(x \<mapsto> s\<lparr>as_session := t\<rparr>)\<rparr>)"
| "api_reachable host a \<Longrightarrow> api_reachable host (enter_callback i a)"
| "api_reachable host a \<Longrightarrow> api_reachable host (a\<lparr>ap_callback := i, ap_in_callback := b\<rparr>)"

definition sessions_of :: "nat \<Rightarrow> api \<Rightarrow> nat set" where
  "sessions_of x a = {h. \<exists>s. ap_sessions a h = Some s \<and> as_ctx s = x}"

definition lifetimes_ok :: "api \<Rightarrow> bool" where
  "lifetimes_ok a \<longleftrightarrow> finite (dom (ap_sessions a)) \<and>
     (\<forall>h\<in>dom (ap_sessions a). h < ap_next a) \<and> (\<forall>h\<in>dom (ap_contexts a). h < ap_next a) \<and>
     (\<forall>h s. ap_sessions a h = Some s \<longrightarrow> as_ctx s \<in> dom (ap_contexts a)) \<and>
     (\<forall>x c. ap_contexts a x = Some c \<longrightarrow> ac_live_sessions c = int (card (sessions_of x a)))"

text \<open>What the invariant looks at.\<close>

lemma sessions_of_frame [simp]:
  "sessions_of x (a\<lparr>ap_contexts := m\<rparr>) = sessions_of x a" "sessions_of x (a\<lparr>ap_next := n\<rparr>) = sessions_of x a"
  "sessions_of x (a\<lparr>ap_configs := cs\<rparr>) = sessions_of x a" "sessions_of x (a\<lparr>ap_last_error := e\<rparr>) = sessions_of x a"
  "sessions_of x (a\<lparr>ap_callback := i\<rparr>) = sessions_of x a" "sessions_of x (a\<lparr>ap_in_callback := b\<rparr>) = sessions_of x a"
  by (simp_all add: sessions_of_def)

lemma lifetimes_finite: "lifetimes_ok a \<Longrightarrow> finite (sessions_of x a)"
  by (rule finite_subset [of _ "dom (ap_sessions a)"]) (auto simp: lifetimes_ok_def sessions_of_def)

lemma lifetimes_error [simp]: "lifetimes_ok (a\<lparr>ap_last_error := m\<rparr>) = lifetimes_ok a"
  and lifetimes_configs [simp]: "lifetimes_ok (a\<lparr>ap_configs := cs\<rparr>) = lifetimes_ok a"
  and lifetimes_callback [simp]: "lifetimes_ok (a\<lparr>ap_callback := i, ap_in_callback := b\<rparr>) = lifetimes_ok a"
  by (simp_all add: lifetimes_ok_def)

lemma lifetimes_inner:
  assumes "lifetimes_ok a" and "ap_sessions a x = Some s"
  shows "lifetimes_ok (a\<lparr>ap_sessions := (ap_sessions a)(x \<mapsto> s\<lparr>as_session := t\<rparr>)\<rparr>)"
proof -
  have "sessions_of y (a\<lparr>ap_sessions := (ap_sessions a)(x \<mapsto> s\<lparr>as_session := t\<rparr>)\<rparr>) = sessions_of y a" for y
    using assms(2) by (auto simp: sessions_of_def)
  then show ?thesis using assms by (auto simp: lifetimes_ok_def)
qed

lemma lifetimes_context:
  assumes "lifetimes_ok a" and "ap_contexts a x = Some c" and "ac_live_sessions c' = ac_live_sessions c"
  shows "lifetimes_ok (a\<lparr>ap_contexts := (ap_contexts a)(x \<mapsto> c')\<rparr>)"
  using assms by (auto simp: lifetimes_ok_def)

lemma lifetimes_next: "lifetimes_ok a \<Longrightarrow> lifetimes_ok (a\<lparr>ap_configs := cs, ap_next := Suc (ap_next a)\<rparr>)"
  by (auto simp: lifetimes_ok_def intro: less_SucI)

lemma lifetimes_new_context:
  assumes "lifetimes_ok a" and "ac_live_sessions c = 0"
  shows "lifetimes_ok (a\<lparr>ap_contexts := (ap_contexts a)(ap_next a \<mapsto> c), ap_next := Suc (ap_next a)\<rparr>)"
proof -
  have "sessions_of (ap_next a) a = {}" using assms(1) by (force simp: lifetimes_ok_def sessions_of_def)
  then show ?thesis using assms by (auto simp: lifetimes_ok_def intro: less_SucI)
qed

lemma lifetimes_drop_context:
  assumes "lifetimes_ok a" and "ap_contexts a x = Some c" and "ac_live_sessions c = 0"
  shows "lifetimes_ok (a\<lparr>ap_contexts := (ap_contexts a)(x := None)\<rparr>)"
proof -
  have "card (sessions_of x a) = 0" using assms by (simp add: lifetimes_ok_def)
  then have "sessions_of x a = {}" using lifetimes_finite [OF assms(1)] by simp
  then show ?thesis using assms by (auto simp: lifetimes_ok_def) (auto simp: sessions_of_def)
qed

lemma lifetimes_new_session:
  assumes ok: "lifetimes_ok a" and c: "ap_contexts a x = Some c" and s: "as_ctx s = x"
    and live: "ac_live_sessions c' = ac_live_sessions c + 1"
  shows "lifetimes_ok (a\<lparr>ap_sessions := (ap_sessions a)(ap_next a \<mapsto> s), ap_contexts := (ap_contexts a)(x \<mapsto> c'), ap_next := Suc (ap_next a)\<rparr>)"
proof -
  have fresh: "ap_sessions a (ap_next a) = None" using ok by (force simp: lifetimes_ok_def)
  then have so: "sessions_of y (a\<lparr>ap_sessions := (ap_sessions a)(ap_next a \<mapsto> s)\<rparr>) = (if y = x then insert (ap_next a) (sessions_of y a) else sessions_of y a)" for y
    using s by (auto simp: sessions_of_def)
  have "ap_next a \<notin> sessions_of x a" using fresh by (simp add: sessions_of_def)
  then have "card (insert (ap_next a) (sessions_of x a)) = Suc (card (sessions_of x a))"
    using lifetimes_finite [OF ok] by simp
  then show ?thesis
    using ok c s live by (auto simp: lifetimes_ok_def so intro: less_SucI)
qed

lemma lifetimes_drop_session:
  assumes ok: "lifetimes_ok a" and s: "ap_sessions a x = Some s" and c: "ap_contexts a (as_ctx s) = Some c"
    and live: "ac_live_sessions c' = ac_live_sessions c - 1"
  shows "lifetimes_ok (a\<lparr>ap_sessions := (ap_sessions a)(x := None), ap_contexts := (ap_contexts a)(as_ctx s \<mapsto> c')\<rparr>)"
proof -
  have so: "sessions_of y (a\<lparr>ap_sessions := (ap_sessions a)(x := None)\<rparr>) = (if y = as_ctx s then sessions_of y a - {x} else sessions_of y a)" for y
    using s by (auto simp: sessions_of_def)
  have "x \<in> sessions_of (as_ctx s) a" using s by (simp add: sessions_of_def)
  then have "int (card (sessions_of (as_ctx s) a - {x})) = int (card (sessions_of (as_ctx s) a)) - 1"
    using lifetimes_finite [OF ok, of "as_ctx s"] by (metis card_Suc_Diff1 of_nat_Suc add_diff_cancel_left')
  then show ?thesis
    using ok s c live by (auto simp: lifetimes_ok_def so)
qed

lemma api_fail_lifetimes: "api_fail c m a = (c', a') \<Longrightarrow> lifetimes_ok a' = lifetimes_ok a"
  by (auto simp: api_fail_def)

lemma from_status_lifetimes: "from_status st a = (c', a') \<Longrightarrow> lifetimes_ok a' = lifetimes_ok a"
  by (auto simp: from_status_def api_fail_def split: if_splits)

lemma answer_json_lifetimes: "answer_json doc buf a = Some ((c, a'), n, b) \<Longrightarrow> lifetimes_ok a' = lifetimes_ok a"
  by (auto simp: answer_json_def copy_json_def api_fail_def split: prod.splits if_splits)

lemma doctor_json_live: "doctor_json p r build c = (doc, c') \<Longrightarrow> ac_live_sessions c' = ac_live_sessions c"
  by (auto simp: doctor_json_def split: option.splits prod.splits if_splits)

lemma inspect_json_live: "inspect_json p build c = (doc, c') \<Longrightarrow> ac_live_sessions c' = ac_live_sessions c"
  by (auto simp: inspect_json_def split: if_splits)

lemma create_lifetimes:
  "lifetimes_ok a \<Longrightarrow> vhdp_context_create options out_null a = (h, c, a') \<Longrightarrow> lifetimes_ok a'"
  "lifetimes_ok a \<Longrightarrow> vhdp_config_create g out_null a = Some (h, c, a') \<Longrightarrow> lifetimes_ok a'"
  by (auto simp: vhdp_context_create_def vhdp_config_create_def add_context_def new_context_def api_fail_def
      intro!: lifetimes_new_context lifetimes_next split: if_splits option.splits)

lemma destroy_lifetimes:
  "lifetimes_ok a \<Longrightarrow> vhdp_context_destroy h a = Some (c, a') \<Longrightarrow> lifetimes_ok a'"
  "lifetimes_ok a \<Longrightarrow> vhdp_config_destroy h a = Some a' \<Longrightarrow> lifetimes_ok a'"
  "lifetimes_ok a \<Longrightarrow> vhdp_session_destroy h a = Some (c, a') \<Longrightarrow> lifetimes_ok a'"
  by (auto simp: vhdp_context_destroy_def vhdp_config_destroy_def vhdp_session_destroy_def api_fail_def
      intro!: lifetimes_drop_context lifetimes_drop_session split: if_splits option.splits)

lemma json_lifetimes:
  "lifetimes_ok a \<Longrightarrow> vhdp_doctor_json h flags build buf a = Some ((c, a'), n, b) \<Longrightarrow> lifetimes_ok a'"
  "lifetimes_ok a \<Longrightarrow> vhdp_inspect_rootfs_json h path build buf a = Some ((c, a'), n, b) \<Longrightarrow> lifetimes_ok a'"
  by (auto simp: vhdp_doctor_json_def vhdp_inspect_rootfs_json_def refused_def api_fail_def
      dest!: answer_json_lifetimes doctor_json_live inspect_json_live intro: lifetimes_context
      split: if_splits option.splits prod.splits)

lemma session_create_lifetimes:
  "lifetimes_ok a \<Longrightarrow> vhdp_session_create host h g out_null a = Some (h', c, a') \<Longrightarrow> lifetimes_ok a'"
  by (auto simp: vhdp_session_create_def api_fail_def dest: from_status_lifetimes
      intro!: lifetimes_new_session split: if_splits option.splits sum.splits)

lemma lifetimes_reachable: "api_reachable host a \<Longrightarrow> lifetimes_ok a"
proof (induction rule: api_reachable.induct)
  case 1
  show ?case by (simp add: lifetimes_ok_def api_start_def)
next
  case (6 a h x c a')
  then show ?case by (auto simp: on_config_def api_fail_def split: option.splits sum.splits)
next
  case (10 a h out r c a')
  then show ?case by (auto simp: vhdp_session_wait_def on_session_def api_fail_def split: option.splits sum.splits)
next
  case (13 a i)
  then show ?case by (simp add: enter_callback_def)
qed (auto intro: create_lifetimes destroy_lifetimes json_lifetimes session_create_lifetimes lifetimes_inner)

text \<open>
  C25: in every state the calls of the interface lead to, the context of a live session is live and counts
  it, so a context can be destroyed only after all its sessions; destroying it earlier is refused with
  \<open>VHDP_E_BUSY\<close> and destroys nothing.
\<close>

theorem session_outlived_by_context:
  assumes "api_reachable host a" and "ap_sessions a x = Some s"
  shows "\<exists>c. ap_contexts a (as_ctx s) = Some c \<and> ac_live_sessions c > 0 \<and>
    (\<exists>msg. vhdp_context_destroy (Some (as_ctx s)) a = Some (Code_busy, a\<lparr>ap_last_error := msg\<rparr>))"
proof -
  have ok: "lifetimes_ok a" using assms(1) by (rule lifetimes_reachable)
  then obtain c where c: "ap_contexts a (as_ctx s) = Some c" using assms(2) by (force simp: lifetimes_ok_def)
  have "x \<in> sessions_of (as_ctx s) a" using assms(2) by (simp add: sessions_of_def)
  then have "0 < card (sessions_of (as_ctx s) a)" using lifetimes_finite [OF ok] by (auto simp: card_gt_0_iff)
  then have "ac_live_sessions c > 0" using ok c by (simp add: lifetimes_ok_def)
  then show ?thesis using c by (auto simp: vhdp_context_destroy_def api_fail_def)
qed


text \<open>Two contexts with a session each, built call by call.\<close>

definition sample_calls :: "config_call list" where
  "sample_calls = [Set_rootfs (Some ''r''), Set_cwd (Some ''/home//u/.''), Set_argv 1 (Some [Some ''sh'']), Add_env (Some ''A=1''),
     Add_env (Some ''HOME=/h''), Add_env (Some ''A=2''), Add_bind (Some ''/w'') (Some ''/mnt/w/'') 1]"

lemma sample_ops:
  "vhdp_config_set_rootfs (Some ''r'') c = Inr (c\<lparr>sc_rootfs := ''r''\<rparr>)"
  "vhdp_config_set_cwd (Some ''/home//u/.'') c = Inr (c\<lparr>sc_cwd := ''/home//u/.''\<rparr>)"
  "vhdp_config_set_argv 1 (Some [Some ''sh'']) c = Inr (c\<lparr>sc_argv := [''sh'']\<rparr>)"
  "length (sc_env c) < 3 \<Longrightarrow> kv \<in> {''A=1'', ''HOME=/h'', ''A=2''} \<Longrightarrow> vhdp_config_add_env (Some kv) c = Inr (c\<lparr>sc_env := sc_env c @ [kv]\<rparr>)"
  "sc_binds c = [] \<Longrightarrow> vhdp_config_add_bind (Some ''/w'') (Some ''/mnt/w/'') 1 c =
     Inr (c\<lparr>sc_binds := [\<lparr>bs_host = ''/w'', bs_guest = ''/mnt/w/'', bs_read_write = True\<rparr>]\<rparr>)"
  using no_dotdot_sample
  by (auto simp: vhdp_config_set_rootfs_def vhdp_config_set_cwd_def vhdp_config_set_argv_def vhdp_config_add_env_def vhdp_config_add_bind_def c_str_def check_guest_path_ok is_absolute_def
      kPathMax_def kMaxArgs_def kMaxEnv_def kMaxBinds_def valid_env_entry_def contains_nul_def VHDP_BIND_READ_WRITE_def Let_def)

lemma sample_calls_run:
  assumes "ap_configs a x = Some \<lparr>cf_ctx = y, cf_cfg = default_config\<rparr>"
  shows "config_run (Some x) sample_calls a =
    Some (a\<lparr>ap_configs := (ap_configs a)(x \<mapsto> \<lparr>cf_ctx = y, cf_cfg = sample_config\<rparr>)\<rparr>)"
  using assms by (simp add: sample_calls_def on_config_def sample_ops sample_ops(3) [unfolded One_nat_def] default_config_def sample_config_def)

lemma config_run_reachable: "api_reachable host a \<Longrightarrow> config_run h xs a = Some a' \<Longrightarrow> api_reachable host a'"
  by (induction xs arbitrary: a) (auto split: option.splits prod.splits intro: api_reachable.intros(6))


lemma session_added:
  assumes "api_reachable sample_host a" and "ap_contexts a x = Some c"
  defines "n \<equiv> ap_next a"
  shows "\<exists>a'. api_reachable sample_host a' \<and>
    ap_sessions a' = (ap_sessions a)(Suc n \<mapsto> \<lparr>as_ctx = x, as_id = ac_next_id c, as_cfg = sample_validated, as_session = session_new\<rparr>) \<and>
    (\<forall>y. y \<noteq> x \<longrightarrow> ap_contexts a' y = ap_contexts a y) \<and> ap_next a' = Suc (Suc n)"
proof -
  let ?a1 = "a\<lparr>ap_configs := (ap_configs a)(n \<mapsto> \<lparr>cf_ctx = x, cf_cfg = default_config\<rparr>), ap_next := Suc n\<rparr>"
  let ?a2 = "?a1\<lparr>ap_configs := (ap_configs ?a1)(n \<mapsto> \<lparr>cf_ctx = x, cf_cfg = sample_config\<rparr>)\<rparr>"
  have "vhdp_config_create (Some x) False a = Some (Some n, Code_ok, ?a1)"
    using assms(2) by (simp add: vhdp_config_create_def n_def)
  then have r1: "api_reachable sample_host ?a1" by (rule api_reachable.intros(4) [OF assms(1)])
  have r2: "api_reachable sample_host ?a2"
    by (rule config_run_reachable [OF r1 sample_calls_run]) simp
  let ?a3 = "?a2\<lparr>ap_sessions := (ap_sessions ?a2)(Suc n \<mapsto> \<lparr>as_ctx = x, as_id = ac_next_id c, as_cfg = sample_validated, as_session = session_new\<rparr>),
    ap_contexts := (ap_contexts ?a2)(x \<mapsto> c\<lparr>ac_next_id := ac_next_id c + 1, ac_live_sessions := ac_live_sessions c + 1\<rparr>), ap_next := Suc (Suc n)\<rparr>"
  have "vhdp_session_create sample_host (Some x) (Some n) False ?a2 = Some (Some (Suc n), Code_ok, ?a3)"
    using assms(2) by (simp add: vhdp_session_create_def sample_validates)
  then have "api_reachable sample_host ?a3" by (rule api_reachable.intros(9) [OF r2])
  then show ?thesis by (intro exI [of _ ?a3]) simp
qed

lemma two_sessions:
  "\<exists>a s t. api_reachable sample_host a \<and> ap_sessions a 4 = Some s \<and> ap_sessions a 6 = Some t \<and>
     as_ctx s = 1 \<and> as_ctx t = 2 \<and> as_id s = 1 \<and> as_id t = 1"
proof -
  let ?c = "new_context False VHDP_SEVERITY_INFO"
  let ?a1 = "api_start\<lparr>ap_contexts := [1 \<mapsto> ?c], ap_next := 2\<rparr>"
  let ?a2 = "?a1\<lparr>ap_contexts := [1 \<mapsto> ?c, 2 \<mapsto> ?c], ap_next := 3\<rparr>"
  have "vhdp_context_create None False api_start = (Some 1, Code_ok, ?a1)"
    by (simp add: vhdp_context_create_def add_context_def api_start_def numeral_2_eq_2)
  then have r1: "api_reachable sample_host ?a1" by (rule api_reachable.intros(2) [OF api_reachable.intros(1)])
  have "vhdp_context_create None False ?a1 = (Some 2, Code_ok, ?a2)"
    by (simp add: vhdp_context_create_def add_context_def)
  then have r2: "api_reachable sample_host ?a2" by (rule api_reachable.intros(2) [OF r1])
  obtain a3 where r3: "api_reachable sample_host a3" and s3: "ap_sessions a3 4 = Some \<lparr>as_ctx = 1, as_id = 1, as_cfg = sample_validated, as_session = session_new\<rparr>"
    and c3: "ap_contexts a3 2 = Some ?c" and n3: "ap_next a3 = 5"
    using session_added [OF r2, of 1 ?c] by (auto simp: new_context_def)
  obtain a4 where "api_reachable sample_host a4" "ap_sessions a4 = (ap_sessions a3)(6 \<mapsto> \<lparr>as_ctx = 2, as_id = 1, as_cfg = sample_validated, as_session = session_new\<rparr>)"
    using session_added [OF r3 c3] n3 by (auto simp: new_context_def)
  then show ?thesis using s3 by (intro exI [of _ a4]) auto
qed

theorem session_outlived_by_context_witness:
  "\<exists>a s c. api_reachable sample_host a \<and> ap_sessions a 4 = Some s \<and> ap_contexts a (as_ctx s) = Some c \<and> ac_live_sessions c > 0"
  using two_sessions session_outlived_by_context by metis

text \<open>
  C39: session ids are counted per context, and the test for a callback of the same session compares ids
  only: from a callback of the first session of one context, waiting for or destroying the first session
  of another context is refused as if it were the same session.
\<close>

theorem callback_of_another_context:
  "\<exists>a s t m1 m2. api_reachable sample_host a \<and> ap_sessions a 4 = Some s \<and> ap_sessions a 6 = Some t \<and> as_ctx s \<noteq> as_ctx t \<and>
     vhdp_session_wait (Some 6) None (enter_callback (as_id s) a) = Some (None, Code_busy, (enter_callback (as_id s) a)\<lparr>ap_last_error := m1\<rparr>) \<and>
     vhdp_session_destroy (Some 6) (enter_callback (as_id s) a) = Some (Code_busy, (enter_callback (as_id s) a)\<lparr>ap_last_error := m2\<rparr>)"
proof -
  obtain a s t where r: "api_reachable sample_host a" and s: "ap_sessions a 4 = Some s" and t: "ap_sessions a 6 = Some t"
    and d: "as_ctx s = 1" "as_ctx t = 2" "as_id s = 1" "as_id t = 1"
    using two_sessions by blast
  have "\<exists>m. vhdp_session_wait (Some 6) None (enter_callback (as_id s) a) = Some (None, Code_busy, (enter_callback (as_id s) a)\<lparr>ap_last_error := m\<rparr>)"
    using t d by (auto simp: vhdp_session_wait_def on_session_def wait_answer_def enter_callback_def api_fail_def)
  moreover have "\<exists>m. vhdp_session_destroy (Some 6) (enter_callback (as_id s) a) = Some (Code_busy, (enter_callback (as_id s) a)\<lparr>ap_last_error := m\<rparr>)"
    using t d by (auto simp: vhdp_session_destroy_def enter_callback_def api_fail_def)
  ultimately show ?thesis using r s t d by (metis One_nat_def n_not_Suc_n numeral_2_eq_2)
qed

end
