(* ===== verification/Cpp_Wrapper.thy ===== *)
theory Cpp_Wrapper
  imports Capi_Safety
begin

text \<open>
  The loops of the C++ wrapper (\<open>include/vhdp/vhdp.hpp\<close>) around the buffers of the C interface: reading the last
  error and reading a document.  Its other members forward one call each.
\<close>

definition status_from_c :: "code \<Rightarrow> api \<Rightarrow> code \<times> string" where
  "status_from_c c a =
     (if c = Code_ok then (Code_ok, [])
      else let (r1, needed1, buf1) = vhdp_last_error_message (Some (replicate 256 nul)) a;
               (r2, needed2, buf2) =
                 (if r1 = Code_buffer_too_small \<and> needed1 > 256
                  then vhdp_last_error_message (Some (replicate needed1 nul)) a else (r1, needed1, buf1))
           in (c, if r2 = Code_ok \<and> needed2 > 0 then take (needed2 - 1) (the buf2) else []))"

text \<open>\<open>query_json\<close>: \<open>fn\<close> is the call, given the number of the attempt and the buffer.\<close>

fun query_json :: "(nat \<Rightarrow> string \<Rightarrow> code \<times> nat \<times> string) \<Rightarrow> nat \<Rightarrow> nat \<Rightarrow> string \<Rightarrow> (code \<times> string) + string" where
  "query_json fn attempt 0 buf = Inl (Code_internal, ''JSON document size kept growing'')"
| "query_json fn attempt (Suc left) buf =
     (case fn attempt buf of (r, needed, buf') \<Rightarrow>
        if r = Code_ok then Inr (take (needed - 1) buf')
        else if r \<noteq> Code_buffer_too_small then Inl (r, [])
        else query_json fn (Suc attempt) left (replicate needed nul))"

definition kQueryBuffer :: nat where "kQueryBuffer = 16 * 1024"

text \<open>Retries of a doctor query do not ask for a refresh again.\<close>

definition doctor_attempt_flags :: "32 word \<Rightarrow> nat \<Rightarrow> 32 word" where
  "doctor_attempt_flags flags attempt = (if attempt = 0 then flags else flags AND NOT VHDP_DOCTOR_REFRESH)"

section \<open>Nothing is cut\<close>

lemma last_error_fits:
  "length (ap_last_error a) < n \<Longrightarrow>
     vhdp_last_error_message (Some (replicate n nul)) a =
       (Code_ok, length (ap_last_error a) + 1, Some (ap_last_error a @ [nul] @ drop (length (ap_last_error a) + 1) (replicate n nul)))"
  by (simp add: vhdp_last_error_message_def fill_buffer_def)

lemma last_error_short:
  "n \<le> length (ap_last_error a) \<Longrightarrow>
     \<exists>b. vhdp_last_error_message (Some (replicate n nul)) a = (Code_buffer_too_small, length (ap_last_error a) + 1, b)"
  by (simp add: vhdp_last_error_message_def fill_buffer_def)

text \<open>The wrapper reports the whole message of the call that failed.\<close>

lemma status_from_c_message: "c \<noteq> Code_ok \<Longrightarrow> status_from_c c a = (c, ap_last_error a)"
proof (cases "length (ap_last_error a) < 256")
  case True
  then show "c \<noteq> Code_ok \<Longrightarrow> ?thesis" by (simp add: status_from_c_def last_error_fits)
next
  case False
  then obtain b where b: "vhdp_last_error_message (Some (replicate 256 nul)) a = (Code_buffer_too_small, length (ap_last_error a) + 1, b)"
    using last_error_short [of 256 a] by auto
  have "vhdp_last_error_message (Some (replicate (length (ap_last_error a) + 1) nul)) a =
      (Code_ok, length (ap_last_error a) + 1, Some (ap_last_error a @ [nul]))"
    using last_error_fits [of a "length (ap_last_error a) + 1"] by simp
  then show "c \<noteq> Code_ok \<Longrightarrow> ?thesis" using b False by (simp add: status_from_c_def)
qed

definition answers :: "string \<Rightarrow> nat \<Rightarrow> string \<Rightarrow> code \<times> nat \<times> string" where
  "answers doc i buf =
     (case fill_buffer doc (Some buf) of (ok, needed, b) \<Rightarrow> (if ok then Code_ok else Code_buffer_too_small, needed, the b))"

text \<open>A document that stays the same is read whole, with at most one retry.\<close>

lemma query_json_whole: "query_json (answers doc) 0 4 (replicate kQueryBuffer nul) = Inr doc"
proof (cases "length doc < kQueryBuffer")
  case True
  then show ?thesis by (simp add: answers_def fill_buffer_def numeral_eq_Suc)
next
  case False
  then show ?thesis by (simp add: answers_def fill_buffer_def numeral_eq_Suc)
qed

end
