(* ===== verification/Engines.thy ===== *)
theory Engines
  imports Spawn Host_Probe
begin

text \<open>
  The engines of a context (\<open>src/src/engines/rootless/rootless_engine.cpp\<close>,
  \<open>engines/unavailable/unavailable_engine.cpp\<close>, \<open>core/context.cpp\<close>) and the terminal of a session
  (\<open>src/vdr/drivers.cpp\<close>).  What the probes of the host answered is a parameter; the probes
  themselves are in \<open>Host_Probe\<close>.
\<close>

section \<open>The rootless engine\<close>

record rootless_engine =
  re_report :: probe_report
  re_seccomp :: bool
  re_syscall_info :: bool
  re_seccomp_detail :: string
  re_loader_path :: string

definition unavailable_report :: "string list \<Rightarrow> string \<Rightarrow> rootless_engine" where
  "unavailable_report details reason =
     \<lparr>re_report = \<lparr>pr_available = False, pr_reason = reason, pr_details = details\<rparr>,
      re_seccomp = False, re_syscall_info = False, re_seccomp_detail = [], re_loader_path = []\<rparr>"

text \<open>
  The loader the engine will use, and the first details of the report; or why there is no way to start guest
  programs.  The result of \<open>find_userland_loader\<close> is taken in its canonical form.
\<close>

definition canonical_loader :: "(string \<Rightarrow> string option) \<Rightarrow> string \<Rightarrow> string" where
  "canonical_loader realpath l = (if l = [] then [] else case realpath l of None \<Rightarrow> l | Some r \<Rightarrow> r)"

definition choose_loader :: "probe_host \<Rightarrow> (string \<Rightarrow> string option) \<Rightarrow> (string list \<times> string) + (string list \<times> string)" where
  "choose_loader h realpath =
     (let (explicit_loader, found) = find_userland_loader h; loader = canonical_loader realpath found
      in if android_app_context h
         then (let details = [''SELinux context: '' @ selinux_context h]
               in if loader = []
                  then Inl (details, ''android-app profile: execve() from writable app storage is blocked for targetSdk >= 29, and the userland loader '' @
                              kUserlandLoaderName @
                              (if explicit_loader then '' named by VHDP_LOADER is not an executable file'' else '' is not installed next to libvhdp''))
                  else Inr (details, loader))
         else if explicit_loader
         then (if loader = [] then Inl ([], ''VHDP_LOADER is set but does not name an executable file'') else Inr ([], loader))
         else if loader \<noteq> [] \<and> is_android_host h then Inr ([], loader) else Inr ([], []))"

text \<open>\<open>compute\<close>, once per engine; \<open>supported_arch\<close> is the compile-time test for x86-64 and AArch64.\<close>

definition compute :: "bool \<Rightarrow> probe_host \<Rightarrow> (string \<Rightarrow> string option) \<Rightarrow> ptrace_probe \<Rightarrow> seccomp_probe \<Rightarrow> rootless_engine" where
  "compute supported_arch h realpath pt sc =
     (if \<not> supported_arch then unavailable_report [] ''unsupported host architecture for the rootless engine''
      else case choose_loader h realpath of
          Inl (details, reason) \<Rightarrow> unavailable_report details reason
        | Inr (details, loader) \<Rightarrow>
            if \<not> pp_ok pt
            then (unavailable_report (details @ [pp_detail pt])
                   (pp_detail pt @ (case yama_ptrace_scope h of
                      Some n \<Rightarrow> if n \<ge> 2 then '' (Yama ptrace_scope='' @ int_string n @ '' forbids tracing)'' else []
                    | None \<Rightarrow> [])))\<lparr>re_loader_path := loader\<rparr>
            else \<lparr>re_report =
                     \<lparr>pr_available = True,
                      pr_reason = ''child ptrace permitted; seccomp acceleration '' @ (if sp_ok sc then ''available'' else ''unavailable'') @
                        ''; PTRACE_GET_SYSCALL_INFO '' @ (if pp_get_syscall_info pt then ''available'' else ''unavailable'') @
                        (if loader \<noteq> [] then ''; guest programs start through the userland loader '' @ loader else []),
                      pr_details = details @ [pp_detail pt, sp_detail sc] @ (if loader \<noteq> [] then [''userland loader: '' @ loader] else [])\<rparr>,
                  re_seccomp = sp_ok sc, re_syscall_info = pp_get_syscall_info pt, re_seccomp_detail = sp_detail sc,
                  re_loader_path = loader\<rparr>)"

text \<open>\<open>create_instance\<close>: the options of the supervisor; \<open>xm\<close> is the answer of \<open>probe_exec_mapping\<close> on a directory.\<close>

definition create_instance :: "probe_host \<Rightarrow> (string \<Rightarrow> exec_mapping_probe) \<Rightarrow> rootless_engine \<Rightarrow> session_config \<Rightarrow> sup_options result" where
  "create_instance h xm e cfg =
     (if \<not> pr_available (re_report e)
      then Inl (mk_status Code_engine_unavailable (''rootless engine unavailable: '' @ pr_reason (re_report e)))
      else if re_loader_path e \<noteq> [] \<and> is_android_host h \<and> xm_probed (xm (sc_rootfs cfg)) \<and> \<not> xm_allowed (xm (sc_rootfs cfg))
      then Inl (mk_status Code_engine_unavailable
             (''rootless engine unavailable: the userland loader maps guest programs PROT_EXEC, but '' @ xm_detail (xm (sc_rootfs cfg))))
      else (let opts = (\<lambda>use. \<lparr>so_use_seccomp = use, so_get_syscall_info = re_syscall_info e, so_loader_path = re_loader_path e\<rparr>)
            in case sc_seccomp cfg of
                 Seccomp_on \<Rightarrow>
                   if \<not> re_seccomp e
                   then Inl (mk_status Code_engine_unavailable (''--seccomp on requested but seccomp is unavailable: '' @ re_seccomp_detail e))
                   else Inr (opts True)
               | Seccomp_off \<Rightarrow> Inr (opts False)
               | Seccomp_auto_select \<Rightarrow> Inr (opts (re_seccomp e))))"

section \<open>Engines without a backend, and the engines of a context\<close>

definition unavailable_probe :: "engine_kind \<Rightarrow> probe_report" where
  "unavailable_probe k =
     (case k of
        Eng_rooted \<Rightarrow>
          \<lparr>pr_available = False,
           pr_reason = ''backend-required: the rooted namespace/chroot engine is not implemented in this build'',
           pr_details = [''requires probed mount-namespace, chroot/pivot_root and cgroup capabilities; UID 0 alone is not evidence'']\<rparr>
      | Eng_emulator \<Rightarrow>
          \<lparr>pr_available = False,
           pr_reason = ''backend-required: no user-mode emulator adapter is integrated; cross-architecture guests are unsupported'',
           pr_details = []\<rparr>
      | Eng_vm \<Rightarrow>
          \<lparr>pr_available = False, pr_reason = ''backend-required: no full-system VM backend (AVF/KVM) is integrated'',
           pr_details = [''AVF custom VMs require system/privileged apps; software CPU emulation is not acceleration'']\<rparr>
      | _ \<Rightarrow> \<lparr>pr_available = False, pr_reason = ''backend-required'', pr_details = []\<rparr>)"

definition unavailable_create_instance :: "engine_kind \<Rightarrow> sup_options result" where
  "unavailable_create_instance k = Inl (mk_status Code_engine_unavailable (pr_reason (unavailable_probe k)))"

definition context_engines :: "rootless_engine \<Rightarrow> engine option list" where
  "context_engines e =
     Some \<lparr>eng_kind = Eng_rootless, eng_probe = re_report e\<rparr> #
     map (\<lambda>k. Some \<lparr>eng_kind = k, eng_probe = unavailable_probe k\<rparr>) [Eng_rooted, Eng_emulator, Eng_vm]"

text \<open>What a session does with its context: select an engine, then ask it for an instance.\<close>

definition engine_instance :: "probe_host \<Rightarrow> (string \<Rightarrow> exec_mapping_probe) \<Rightarrow> rootless_engine \<Rightarrow> session_config \<Rightarrow> sup_options result" where
  "engine_instance h xm e cfg =
     (case select_engine (sc_engine cfg) (context_engines e) of
        Inl st \<Rightarrow> Inl st
      | Inr c \<Rightarrow> if eng_kind (ec_engine c) = Eng_rootless then create_instance h xm e cfg
                 else unavailable_create_instance (eng_kind (ec_engine c)))"

section \<open>The terminal\<close>

text \<open>
  \<open>PtyDriver::open\<close> over the answers of \<open>posix_openpt\<close>, \<open>grantpt\<close> and \<open>unlockpt\<close>, \<open>ptsname_r\<close>, \<open>open\<close> and the
  resize; the result is the master and the slave.
\<close>

record pty_host =
  pt_openpt :: "errno + int"
  pt_grant :: "errno option"
  pt_name :: "errno + string"
  pt_open :: "string \<Rightarrow> errno + int"
  pt_winsz :: "nat \<Rightarrow> nat \<Rightarrow> errno"
  pt_pump :: "status"                      \<comment> \<open>of \<open>start_pump\<close>\<close>

definition pty_open :: "pty_host \<Rightarrow> nat \<Rightarrow> nat \<Rightarrow> (int \<times> int) result" where
  "pty_open p rows cols =
     (case pt_openpt p of
        Inl e \<Rightarrow> Inl (errno_status Code_io ''posix_openpt'' e)
      | Inr master \<Rightarrow>
          (case pt_grant p of
             Some e \<Rightarrow> Inl (errno_status Code_io ''grantpt/unlockpt'' e)
           | None \<Rightarrow>
               (case pt_name p of
                  Inl e \<Rightarrow> Inl (errno_status Code_io ''ptsname_r'' e)
                | Inr name \<Rightarrow>
                    (case pt_open p name of
                       Inl e \<Rightarrow> Inl (errno_status Code_io (''open '' @ name) e)
                     | Inr slave \<Rightarrow>
                         (let s = pty_resize (pt_winsz p) rows cols
                          in if \<not> is_ok s then Inl s else Inr (master, slave))))))"

definition start_pump :: "bool \<Rightarrow> bool \<Rightarrow> errno + int \<Rightarrow> bool \<Rightarrow> status" where
  "start_pump has_fn running wake thread_started =
     (if \<not> has_fn \<or> running then status_ok
      else case wake of
          Inl e \<Rightarrow> errno_status Code_io ''eventfd'' e
        | Inr fd \<Rightarrow> if thread_started then status_ok else mk_status Code_no_memory ''cannot start PTY output thread'')"

section \<open>An instance\<close>

record instance_state =
  in_pty :: "(int \<times> int) option"
  in_cancelled :: bool

text \<open>
  \<open>start\<close>: \<open>sigchld_ignored\<close> is what \<open>sigaction\<close> says, \<open>sup_start\<close> the status of \<open>Supervisor::start\<close> given the slave
  of the terminal.
\<close>

definition instance_start :: "bool \<Rightarrow> pty_host \<Rightarrow> (int option \<Rightarrow> status) \<Rightarrow> session_config \<Rightarrow> instance_state \<Rightarrow> status \<times> instance_state" where
  "instance_start sigchld_ignored p sup_start c st =
     (if sigchld_ignored
      then (mk_status Code_host_environment
              ''SIGCHLD is ignored (SIG_IGN or SA_NOCLDWAIT) in this process; the supervisor cannot wait for guest processes'', st)
      else (case (if sc_stdio c = Stdio_pty then map_sum id Some (pty_open p (sc_pty_rows c) (sc_pty_cols c)) else Inr None) of
              Inl s \<Rightarrow> (s, st)
            | Inr pty \<Rightarrow>
                (let st1 = (case pty of None \<Rightarrow> st | Some _ \<Rightarrow> st\<lparr>in_pty := pty\<rparr>);
                     s = sup_start (map_option snd (in_pty st1))
                 in if is_ok s \<and> in_pty st1 \<noteq> None \<and> sc_output_fn c \<and> \<not> is_ok (pt_pump p)
                    then (pt_pump p, st1\<lparr>in_cancelled := True\<rparr>)
                    else (s, st1))))"

definition instance_resize :: "pty_host \<Rightarrow> nat \<Rightarrow> nat \<Rightarrow> instance_state \<Rightarrow> status" where
  "instance_resize p rows cols st =
     (case in_pty st of
        None \<Rightarrow> mk_status Code_invalid_state ''resize requires VHDP_STDIO_PTY; in inherit mode the terminal delivers SIGWINCH itself''
      | Some _ \<Rightarrow> pty_resize (pt_winsz p) rows cols)"

definition instance_pty_master :: "instance_state \<Rightarrow> int" where
  "instance_pty_master st = (case in_pty st of None \<Rightarrow> - 1 | Some (m, s) \<Rightarrow> m)"

definition instance_write_input :: "nat \<Rightarrow> (errno + nat) list \<Rightarrow> instance_state \<Rightarrow> (status \<times> nat) option" where
  "instance_write_input len rs st =
     (case in_pty st of
        None \<Rightarrow> Some (mk_status Code_invalid_state ''write_input requires VHDP_STDIO_PTY'', 0)
      | Some _ \<Rightarrow> pty_write_input len rs)"

section \<open>Lemmas\<close>

lemma canonical_loader_Nil [simp]: "canonical_loader rp [] = []"
  by (simp add: canonical_loader_def)

lemma choose_loader_app:
  "android_app_context h \<Longrightarrow> choose_loader h rp = Inr (ds, l) \<Longrightarrow> l \<noteq> []"
  by (auto simp: choose_loader_def Let_def split: prod.splits if_splits)

lemma choose_loader_explicit:
  "fst (find_userland_loader h) \<Longrightarrow> choose_loader h rp = Inr (ds, l) \<Longrightarrow>
     l \<noteq> [] \<and> l = canonical_loader rp (snd (find_userland_loader h))"
  by (auto simp: choose_loader_def Let_def split: prod.splits if_splits)

lemma found_executable: "snd (find_userland_loader h) \<noteq> [] \<Longrightarrow> ph_executable h (snd (find_userland_loader h))"
  by (auto simp: find_userland_loader_def Let_def split: option.splits list.splits if_splits sum.splits)

lemma choose_loader_found:
  "choose_loader h rp = Inr (ds, l) \<Longrightarrow> l \<noteq> [] \<Longrightarrow>
     l = canonical_loader rp (snd (find_userland_loader h)) \<and> snd (find_userland_loader h) \<noteq> []"
  by (cases "find_userland_loader h"; cases "snd (find_userland_loader h) = []")
    (auto simp: choose_loader_def Let_def split: if_splits)

lemma compute_available:
  assumes "pr_available (re_report (compute arch h rp pt sc))"
  obtains ds where "arch" "choose_loader h rp = Inr (ds, re_loader_path (compute arch h rp pt sc))" "pp_ok pt"
    "re_seccomp (compute arch h rp pt sc) = sp_ok sc" "re_syscall_info (compute arch h rp pt sc) = pp_get_syscall_info pt"
  using assms by (auto simp: compute_def unavailable_report_def split: if_splits sum.splits prod.splits)

lemma context_engines_find:
  "find_engine (context_engines e) Eng_rootless = Some \<lparr>eng_kind = Eng_rootless, eng_probe = re_report e\<rparr>"
  "k \<in> {Eng_rooted, Eng_emulator, Eng_vm} \<Longrightarrow>
     find_engine (context_engines e) k = Some \<lparr>eng_kind = k, eng_probe = unavailable_probe k\<rparr>"
  "find_engine (context_engines e) Eng_auto_select = None"
  by (auto simp: context_engines_def)

lemma engine_instance_rootless:
  assumes "engine_instance h xm e cfg = Inr opts"
  shows "sc_engine cfg \<in> {Eng_auto_select, Eng_rootless} \<and> create_instance h xm e cfg = Inr opts"
  using assms
  by (cases "sc_engine cfg") (auto simp: engine_instance_def select_engine_def context_engines_find unavailable_probe_def split: if_splits)

lemma create_instance_cases:
  assumes "create_instance h xm e cfg = Inr opts"
  shows "pr_available (re_report e) \<and> so_get_syscall_info opts = re_syscall_info e \<and> so_loader_path opts = re_loader_path e \<and>
    so_use_seccomp opts = (case sc_seccomp cfg of Seccomp_on \<Rightarrow> True | Seccomp_off \<Rightarrow> False | Seccomp_auto_select \<Rightarrow> re_seccomp e) \<and>
    (sc_seccomp cfg = Seccomp_on \<longrightarrow> re_seccomp e)"
  using assms by (auto simp: create_instance_def Let_def split: if_splits seccomp_mode.splits)

section \<open>Properties\<close>

text \<open>
  C17: an engine that runs a session has what the session asked for and what the probes found: the request named
  the rootless engine or none, a child could be traced, the filter is used exactly as the session demanded and only
  if a filter could be installed, and in an Android app, or when \<open>VHDP_LOADER\<close> names one, guest programs start
  through an executable loader.
\<close>

theorem engine_honours_request:
  assumes "engine_instance h xm (compute arch h rp pt sc) cfg = Inr opts"
  shows "arch \<and> pp_ok pt \<and> sc_engine cfg \<in> {Eng_auto_select, Eng_rootless} \<and>
    (so_use_seccomp opts \<longleftrightarrow> sc_seccomp cfg \<noteq> Seccomp_off \<and> sp_ok sc) \<and> (sc_seccomp cfg = Seccomp_on \<longrightarrow> so_use_seccomp opts) \<and>
    (so_get_syscall_info opts \<longleftrightarrow> pp_get_syscall_info pt) \<and>
    (android_app_context h \<or> fst (find_userland_loader h) \<longrightarrow> so_loader_path opts \<noteq> []) \<and>
    (so_loader_path opts \<noteq> [] \<longrightarrow>
      (\<exists>l. ph_executable h l \<and> so_loader_path opts = canonical_loader rp l \<and> l = snd (find_userland_loader h)))"
proof -
  let ?e = "compute arch h rp pt sc"
  have i: "sc_engine cfg \<in> {Eng_auto_select, Eng_rootless}" "create_instance h xm ?e cfg = Inr opts"
    using engine_instance_rootless [OF assms] by auto
  note c = create_instance_cases [OF i(2)]
  then have av: "pr_available (re_report ?e)" by blast
  show ?thesis
  proof (rule compute_available [OF av])
    fix ds
    assume a: "arch" "choose_loader h rp = Inr (ds, re_loader_path ?e)" "pp_ok pt" "re_seccomp ?e = sp_ok sc"
      "re_syscall_info ?e = pp_get_syscall_info pt"
    have "so_loader_path opts \<noteq> [] \<Longrightarrow> ph_executable h (snd (find_userland_loader h)) \<and>
        so_loader_path opts = canonical_loader rp (snd (find_userland_loader h))"
      using choose_loader_found [OF a(2)] found_executable c by auto
    moreover have "so_use_seccomp opts \<longleftrightarrow> sc_seccomp cfg \<noteq> Seccomp_off \<and> sp_ok sc" "sc_seccomp cfg = Seccomp_on \<longrightarrow> so_use_seccomp opts"
      using c a(4) by (cases "sc_seccomp cfg"; simp)+
    moreover have "android_app_context h \<or> fst (find_userland_loader h) \<longrightarrow> so_loader_path opts \<noteq> []"
      using c choose_loader_app [OF _ a(2)] choose_loader_explicit [OF _ a(2)] by metis
    ultimately show ?thesis using a c i(1) by metis
  qed
qed

text \<open>A Linux host without Android, and one where an app names its loader.\<close>

definition plain_host :: probe_host where
  "plain_host = \<lparr>ph_read = \<lambda>p. Inl ENOENT, ph_readlink = \<lambda>p. Inl ENOENT, ph_env = \<lambda>v. None, ph_executable = \<lambda>p. False,
     ph_exists = \<lambda>p. False, ph_statfs = \<lambda>p. None, ph_statvfs = \<lambda>p. None, ph_uid = 1000, ph_android_build = False,
     ph_sdk_property = [], ph_anchor = 0x500\<rparr>"

definition app_host :: probe_host where
  "app_host = plain_host\<lparr>ph_android_build := True, ph_uid := 10123,
     ph_env := (\<lambda>v. if v = ''VHDP_LOADER'' then Some ''/lib/loader'' else None), ph_executable := (\<lambda>p. p = ''/lib/loader'')\<rparr>"

definition traced_ok :: ptrace_probe where
  "traced_ok = \<lparr>pp_ok = True, pp_err = 0, pp_get_syscall_info = True, pp_detail = ''ok''\<rparr>"

definition filter_ok :: seccomp_probe where
  "filter_ok = \<lparr>sp_ok = True, sp_err = 0, sp_ret_trace = True, sp_detail = ''ok''\<rparr>"

lemma app_loader: "find_userland_loader app_host = (True, ''/lib/loader'')"
  by (simp add: find_userland_loader_def app_host_def)

lemma app_context: "android_app_context app_host"
  by (simp add: android_app_context_def is_android_host_def app_host_def plain_host_def)

lemma app_instance:
  "engine_instance app_host (\<lambda>d. xm_not_probed []) (compute True app_host (\<lambda>p. None) traced_ok filter_ok) default_config =
     Inr \<lparr>so_use_seccomp = True, so_get_syscall_info = True, so_loader_path = ''/lib/loader''\<rparr>"
  by (simp add: engine_instance_def select_engine_def context_engines_find compute_def choose_loader_def app_context app_loader
      canonical_loader_def create_instance_def xm_not_probed_def default_config_def traced_ok_def filter_ok_def)

theorem engine_honours_request_witness:
  "android_app_context app_host \<and>
   (\<exists>l. ph_executable app_host l \<and> ''/lib/loader'' = canonical_loader (\<lambda>p. None) l \<and> l = snd (find_userland_loader app_host))"
  using engine_honours_request [OF app_instance] app_context by simp

end
