(* ===== verification/Doctor.thy ===== *)
theory Doctor
  imports Engines Json_Validity
begin

text \<open>
  The host report (\<open>src/src/core/doctor.cpp\<close>).  What the probes answered is the record \<open>doctor_host\<close>;
  the probes are those of \<open>Host_Probe\<close>, and the engines of the report those of \<open>Engines\<close>.
\<close>

record doctor_host =
  dh_probe :: probe_host
  dh_machine :: string                      \<comment> \<open>of \<open>uname\<close>\<close>
  dh_release :: string
  dh_compiled :: string                     \<comment> \<open>\<open>arch_name()\<close>\<close>
  dh_guest_machine :: string
  dh_page_sysconf :: int
  dh_page_auxv :: nat
  dh_exec_mapping :: "string \<Rightarrow> exec_mapping_probe"
  dh_openat2 :: "bool \<Rightarrow> openat2_probe"
  dh_tun :: bool
  dh_kvm :: kvm_probe
  dh_ptrace :: ptrace_probe
  dh_seccomp :: seccomp_probe
  dh_namespaces :: namespace_probe
  dh_version :: string

record check =
  ck_id :: string
  ck_status :: string
  ck_summary :: string

abbreviation chk :: "string \<Rightarrow> string \<Rightarrow> string \<Rightarrow> check" where
  "chk i s m \<equiv> \<lparr>ck_id = i, ck_status = s, ck_summary = m\<rparr>"

definition abi_match :: "doctor_host \<Rightarrow> bool" where
  "abi_match d \<longleftrightarrow> dh_machine d = dh_compiled d \<or> (dh_machine d = ''arm64'' \<and> dh_compiled d = ''aarch64'')"

definition tmpdir_of :: "doctor_host \<Rightarrow> string" where
  "tmpdir_of d = (case ph_env (dh_probe d) ''TMPDIR'' of None \<Rightarrow> ''/tmp'' | Some t \<Rightarrow> t)"

definition storage_policy :: "doctor_host \<Rightarrow> string \<times> string" where
  "storage_policy d =
     (let h = dh_probe d;
          (status, text1) =
            (if \<not> android_app_context h
             then (''pass'', ''not running in an Android app domain: guest programs are exec'' @ [CHR 0x27] @ ''d directly'')
             else let loader = snd (find_userland_loader h);
                      intro = ''android app SELinux domain: execve() from writable app storage is blocked (targetSdk >= 29)''
                  in if loader = []
                     then (''fail'', intro @ ''; no userland loader ('' @ kUserlandLoaderName @
                             '') next to libvhdp, so guest programs cannot be started'')
                     else let xm = dh_exec_mapping d (tmpdir_of d)
                          in (if xm_probed xm \<and> \<not> xm_allowed xm then ''fail'' else ''pass'',
                              intro @ ''; guest programs start through the userland loader '' @ loader @
                                '', which maps them PROT_EXEC instead'' @ ''; '' @ xm_detail xm))
      in (status, text1 @ (case mount_noexec h (tmpdir_of d) of
            None \<Rightarrow> [] | Some b \<Rightarrow> ''; TMPDIR mount is '' @ (if b then ''noexec'' else ''exec-capable''))))"

definition passive_checks :: "doctor_host \<Rightarrow> bool \<Rightarrow> check list" where
  "passive_checks d active =
     (let h = dh_probe d; yama = yama_ptrace_scope h; sectx = selinux_context h; o2 = dh_openat2 d active; kvm = dh_kvm d
      in [chk ''abi.host'' (if abi_match d then ''pass'' else ''fail'')
            (''kernel machine '' @ dh_machine d @ '', libvhdp compiled for '' @ dh_compiled d @ '' (guest ELF machine '' @ dh_guest_machine d @ '')''),
          chk ''memory.page_size'' ''info''
            (''sysconf '' @ int_string (dh_page_sysconf d) @ '' bytes, AT_PAGESZ '' @ dec_string (dh_page_auxv d) @ '' bytes''),
          chk ''kernel.release'' ''info'' (dh_release d),
          chk ''ptrace.yama_scope'' (case yama of None \<Rightarrow> ''info'' | Some n \<Rightarrow> if n \<ge> 2 then ''fail'' else ''pass'')
            (case yama of None \<Rightarrow> ''Yama not present'' | Some n \<Rightarrow> ''kernel.yama.ptrace_scope='' @ int_string n),
          chk ''selinux.mode'' ''info'' (selinux_mode h @ (if sectx = [] then [] else '', context '' @ sectx)),
          chk ''seccomp.self'' ''info'' (''Seccomp field of /proc/self/status: '' @ seccomp_status h),
          chk ''exec.storage_policy'' (fst (storage_policy d)) (snd (storage_policy d)),
          chk ''openat2'' (if \<not> op_probed o2 then ''skip'' else if op_available o2 then ''pass'' else ''info'')
            (if op_probed o2 \<and> \<not> op_available o2 then op_detail o2 @ ''; component walk fallback'' else op_detail o2),
          chk ''cgroup.v2'' ''info''
            (if cgroup2_available h then ''cgroup2 mounted at /sys/fs/cgroup, self '' @ cgroup_self_path h
             else ''cgroup2 not mounted at /sys/fs/cgroup''),
          chk ''net.tun'' ''info'' (if dh_tun d then ''/dev/net/tun readable+writable'' else ''/dev/net/tun not accessible''),
          chk ''kvm.device'' ''info''
            (if \<not> kp_present kvm then ''/dev/kvm absent''
             else if kp_accessible kvm then ''/dev/kvm accessible, KVM_GET_API_VERSION='' @ int_string (kp_api_version kvm)
             else ''/dev/kvm present but not accessible: '' @ errno_text (nat (kp_err kvm))),
          chk ''android.host'' ''info''
            (if is_android_host h
             then ''Android host'' @ (case android_sdk_level h of None \<Rightarrow> [] | Some n \<Rightarrow> '', SDK '' @ dec_string n)
             else ''not an Android host'')])"

definition ns_bit :: "namespace_probe \<Rightarrow> nat \<Rightarrow> bool" where
  "ns_bit ns b \<longleftrightarrow> np_bits ns div b mod 2 = 1"

definition active_checks :: "doctor_host \<Rightarrow> check list" where
  "active_checks d =
     (let pt = dh_ptrace d; sc = dh_seccomp d; ns = dh_namespaces d
      in [chk ''ptrace.child'' (if pp_ok pt then ''pass'' else ''fail'') (pp_detail pt),
          chk ''ptrace.get_syscall_info'' (if pp_get_syscall_info pt then ''pass'' else ''warn'')
            (if pp_get_syscall_info pt then ''PTRACE_GET_SYSCALL_INFO available''
             else ''PTRACE_GET_SYSCALL_INFO unavailable (enter/exit tracked manually)''),
          chk ''seccomp.filter'' (if sp_ok sc then ''pass'' else ''warn'')
            (sp_detail sc @ (if sp_ok sc then [] else ''; rootless falls back to PTRACE_SYSCALL''))] @
         (if \<not> np_ran ns then [chk ''namespace.user'' ''info'' (np_detail ns)]
          else [chk ''namespace.user'' ''info''
                  (if ns_bit ns VHDP_NS_PROBE_USERNS then ''unprivileged user namespace creation works (disposable child)''
                   else ''unprivileged user namespaces unavailable''),
                chk ''namespace.mount'' ''info''
                  (if ns_bit ns VHDP_NS_PROBE_MOUNTNS then ''private mount namespace works'' else ''mount namespace unavailable''),
                chk ''mount.tmpfs'' ''info''
                  (if ns_bit ns VHDP_NS_PROBE_TMPFS then ''tmpfs mount inside the namespace works'' else ''tmpfs mount failed''),
                chk ''mount.devpts'' ''info''
                  (if ns_bit ns VHDP_NS_PROBE_DEVPTS then ''devpts newinstance mount works'' else ''devpts mount failed''),
                chk ''mount.proc'' ''info''
                  (if ns_bit ns VHDP_NS_PROBE_PROC then ''proc mount in a new PID namespace works'' else ''proc mount failed'')]))"

definition skipped_checks :: "check list" where
  "skipped_checks = map (\<lambda>i. chk i ''skip'' ''active probes disabled'') [''ptrace.child'', ''seccomp.filter'', ''namespace.user'']"

definition doctor_checks :: "doctor_host \<Rightarrow> bool \<Rightarrow> check list" where
  "doctor_checks d active = passive_checks d active @ (if active then active_checks d else skipped_checks)"

definition detected_profile :: "doctor_host \<Rightarrow> string" where
  "detected_profile d =
     (if android_app_context (dh_probe d) then ''android-app''
      else if is_android_host (dh_probe d) then ''terminal-unprivileged'' else ''linux-'' @ dh_compiled d)"

definition rootless_ready :: "doctor_host \<Rightarrow> bool \<Rightarrow> bool" where
  "rootless_ready d active \<longleftrightarrow> active \<and> pp_ok (dh_ptrace d) \<and> abi_match d \<and> fst (storage_policy d) \<noteq> ''fail''"

definition engine_tree :: "bool \<Rightarrow> engine \<Rightarrow> jtree" where
  "engine_tree active e =
     JObj ((''engine'', JStr (engine_name (eng_kind e))) #
       (if eng_kind e = Eng_rootless \<and> \<not> active
        then [(''available'', JNull), (''reason'', JStr ''not probed (active probes disabled)'')]
        else [(''available'', JBool (pr_available (eng_probe e))), (''reason'', JStr (pr_reason (eng_probe e)))]))"

definition check_tree :: "check \<Rightarrow> jtree" where
  "check_tree c = JObj [(''id'', JStr (ck_id c)), (''status'', JStr (ck_status c)), (''summary'', JStr (ck_summary c))]"

definition doctor_tree :: "doctor_host \<Rightarrow> engine list \<Rightarrow> bool \<Rightarrow> jtree" where
  "doctor_tree d engines active = JObj [
     (''vhdp_version'', JStr (dh_version d)), (''active_probes'', JBool active),
     (''checks'', JArr (map check_tree (doctor_checks d active))),
     (''engines'', JArr (map (engine_tree active) engines)),
     (''detected_profile'', JStr (detected_profile d)),
     (''rootless_ready'', JBool (rootless_ready d active))]"

definition build_doctor_json :: "doctor_host \<Rightarrow> engine list \<Rightarrow> bool \<Rightarrow> string" where
  "build_doctor_json d engines active = jw_out (Json_Validity.emit (doctor_tree d engines active) new_writer)"

section \<open>The report and the engine\<close>

lemma storage_status:
  "fst (storage_policy d) =
     (if \<not> android_app_context (dh_probe d) then ''pass''
      else if snd (find_userland_loader (dh_probe d)) = [] then ''fail''
      else if xm_probed (dh_exec_mapping d (tmpdir_of d)) \<and> \<not> xm_allowed (dh_exec_mapping d (tmpdir_of d)) then ''fail''
      else ''pass'')"
  by (simp add: storage_policy_def Let_def)

text \<open>
  C20: the report agrees with the engine where no loader is named: when it says the rootless engine is ready,
  the engine built from the same answers is available.
\<close>

theorem doctor_ready_available:
  assumes "rootless_ready d True" and "\<not> fst (find_userland_loader (dh_probe d)) \<or> snd (find_userland_loader (dh_probe d)) \<noteq> []"
    and "\<forall>l. rp l \<noteq> Some []"
  shows "pr_available (re_report (compute True (dh_probe d) rp (dh_ptrace d) (dh_seccomp d)))"
proof -
  let ?h = "dh_probe d"
  have c: "canonical_loader rp l = [] \<longleftrightarrow> l = []" for l
    using assms(3) by (auto simp: canonical_loader_def split: option.splits)
  have "\<exists>x. choose_loader ?h rp = Inr x"
  proof (cases "android_app_context ?h")
    case True
    then have "snd (find_userland_loader ?h) \<noteq> []"
      using assms(1) by (auto simp: rootless_ready_def storage_status)
    then show ?thesis using True c by (cases "find_userland_loader ?h") (auto simp: choose_loader_def Let_def)
  next
    case False
    then show ?thesis using assms(2) c by (cases "find_userland_loader ?h") (auto simp: choose_loader_def Let_def)
  qed
  then show ?thesis using assms(1) by (auto simp: compute_def rootless_ready_def)
qed

definition sample_doctor :: "probe_host \<Rightarrow> doctor_host" where
  "sample_doctor h = \<lparr>dh_probe = h, dh_machine = ''x86_64'', dh_release = ''6.1'', dh_compiled = ''x86_64'', dh_guest_machine = ''x86_64'',
     dh_page_sysconf = 4096, dh_page_auxv = 4096, dh_exec_mapping = \<lambda>p. xm_not_probed [],
     dh_openat2 = \<lambda>b. \<lparr>op_probed = True, op_available = True, op_detail = ''ok''\<rparr>, dh_tun = False,
     dh_kvm = probe_kvm (Inl 2) 0 (0, 0), dh_ptrace = traced_ok, dh_seccomp = filter_ok, dh_namespaces = ns_not_run [], dh_version = ''1''\<rparr>"

lemma sample_ready:
  "\<not> android_app_context h \<Longrightarrow> rootless_ready (sample_doctor h) True"
  by (simp add: rootless_ready_def storage_status sample_doctor_def abi_match_def traced_ok_def)

lemma plain_not_app: "\<not> android_app_context (plain_host\<lparr>ph_env := f\<rparr>)"
  by (simp add: android_app_context_def is_android_host_def plain_host_def selinux_context_def read_small_file_def)

lemma plain_loader: "find_userland_loader plain_host = (False, [])"
  by (simp add: find_userland_loader_def plain_host_def mapped_file_containing_def rfind_char_def)

theorem doctor_ready_available_witness:
  "pr_available (re_report (compute True plain_host (\<lambda>l. None) traced_ok filter_ok))"
  using doctor_ready_available [of "sample_doctor plain_host" "\<lambda>l. None"] sample_ready [of plain_host] plain_not_app [of "ph_env plain_host"]
    plain_loader
  by (simp add: sample_doctor_def)

text \<open>
  C40: with a \<open>VHDP_LOADER\<close> that does not name an executable file, outside an Android app, the report says the
  rootless engine is ready while the engine of the same report is unavailable.
\<close>

theorem doctor_ready_bad_loader:
  "\<exists>d. rootless_ready d True \<and> fst (storage_policy d) = ''pass'' \<and>
     re_report (compute True (dh_probe d) rp (dh_ptrace d) (dh_seccomp d)) =
       \<lparr>pr_available = False, pr_reason = ''VHDP_LOADER is set but does not name an executable file'', pr_details = []\<rparr>"
proof -
  let ?h = "plain_host\<lparr>ph_env := \<lambda>v. if v = ''VHDP_LOADER'' then Some ''/nope'' else None\<rparr>"
  have f: "find_userland_loader ?h = (True, [])" by (simp add: find_userland_loader_def plain_host_def)
  show ?thesis
    using sample_ready [OF plain_not_app] f plain_not_app
    by (intro exI [of _ "sample_doctor ?h"])
      (simp add: storage_status, simp add: sample_doctor_def compute_def choose_loader_def unavailable_report_def)
qed

end
