(* ===== verification/Inspect.thy ===== *)
theory Inspect
  imports Host_Probe Spawn Json_Validity
begin

text \<open>
  The report on a root file system (\<open>src/src/core/inspect.cpp\<close>).  Names inside the rootfs go through the
  resolver; opened files are those of \<open>Exec_Resolver\<close>.
\<close>

record finding =
  fd_severity :: string
  fd_id :: string
  fd_message :: string

abbreviation mk_finding :: "string \<Rightarrow> string \<Rightarrow> string \<Rightarrow> finding" where
  "mk_finding s i m \<equiv> \<lparr>fd_severity = s, fd_id = i, fd_message = m\<rparr>"

record inspect_host =
  ih_fs :: host_fs
  ih_open :: "string \<Rightarrow> exec_file option"
  ih_read :: "string \<Rightarrow> nat \<Rightarrow> string option"    \<comment> \<open>the first bytes of a regular file\<close>
  ih_probe :: probe_host
  ih_writable :: "string \<Rightarrow> bool"
  ih_canonical :: "string \<Rightarrow> string option"       \<comment> \<open>\<open>realpath\<close>, of directories only\<close>
  ih_machine :: nat

definition guest_file :: "inspect_host \<Rightarrow> mount_table \<Rightarrow> string \<Rightarrow> resolved option" where
  "guest_file h t p =
     (case fst (resolve (ih_fs h) t p default_options None) of
        Inl e \<Rightarrow> None | Inr r \<Rightarrow> if \<not> r_exists r \<or> r_is_dir r then None else Some r)"

definition read_guest_file :: "inspect_host \<Rightarrow> mount_table \<Rightarrow> string \<Rightarrow> nat \<Rightarrow> string" where
  "read_guest_file h t guest n =
     (case guest_file h t guest of
        None \<Rightarrow> []
      | Some r \<Rightarrow> (case ih_read h (r_host r) n of None \<Rightarrow> [] | Some s \<Rightarrow> take n s))"

definition unquote :: "string \<Rightarrow> string" where
  "unquote v = (if length v \<ge> 2 \<and> (hd v = dquote \<or> hd v = CHR 0x27) \<and> last v = hd v then butlast (tl v) else v)"

function os_release_value :: "string \<Rightarrow> string \<Rightarrow> string" where
  "os_release_value txt key =
     (if txt = [] then []
      else let line = takeWhile (\<lambda>c. c \<noteq> CHR 0x0A) txt
           in if starts_with line (key @ ''='') then unquote (drop (length key + 1) line)
              else os_release_value (drop (Suc (length line)) txt) key)"
  by pat_completeness auto
termination
  by (relation "measure (\<lambda>(txt, key). length txt)") auto

declare os_release_value.simps [simp del]

section \<open>Shells\<close>

text \<open>
  One shell: the entry of the report, the findings it gives and whether it can be used.  The \<open>interpreter\<close>
  members are present only for a well-formed ELF file: absent when its interpreter is malformed, \<open>null\<close> when
  it has none.
\<close>

definition pread_once :: "exec_file \<Rightarrow> nat \<Rightarrow> nat \<Rightarrow> string option" where
  "pread_once f pos n = (case ef_pread f pos n of Inl e \<Rightarrow> None | Inr d \<Rightarrow> Some (take n d))"

definition file_size :: "exec_file \<Rightarrow> nat" where
  "file_size f = (case ef_stat f of Inl e \<Rightarrow> 0 | Inr (reg, n) \<Rightarrow> n)"

text \<open>\<open>None\<close>: no interpreter to look for; \<open>Some None\<close>: a malformed one.\<close>

definition elf_interpreter :: "exec_file \<Rightarrow> elf_info \<Rightarrow> string option option" where
  "elf_interpreter f info =
     (case pread_once f (ei_phoff info) (ei_phnum info * ei_phentsize info) of
        Some ph \<Rightarrow>
          if length ph = ei_phnum info * ei_phentsize info
          then (case elf_scan_phdrs ph (file_size f) info of
                  Some (ELF_OK, info') \<Rightarrow>
                    if \<not> ei_has_interp info' then None
                    else Some (case pread_once f (ei_interp_offset info') (ei_interp_size info') of
                        Some ib \<Rightarrow> if length ib = ei_interp_size info' \<and> elf_validate_interp ib = ELF_OK then Some (butlast ib) else None
                      | None \<Rightarrow> None)
                | _ \<Rightarrow> None)
          else None
      | None \<Rightarrow> None)"

definition interp_members :: "inspect_host \<Rightarrow> mount_table \<Rightarrow> string \<Rightarrow> exec_file \<Rightarrow> elf_info \<Rightarrow> (string \<times> jtree) list \<times> finding list" where
  "interp_members h t shell f info =
     (case elf_interpreter f info of
        None \<Rightarrow> ([(''interpreter'', JNull)], [])
      | Some None \<Rightarrow> ([], [])
      | Some (Some loader) \<Rightarrow>
          (let present = (case fst (resolve (ih_fs h) t loader default_options None) of Inl e \<Rightarrow> False | Inr lr \<Rightarrow> r_exists lr)
           in ([(''interpreter'', JStr loader), (''interpreter_present'', JBool present)],
               if present then []
               else [mk_finding ''error'' ''rootfs.loader_missing'' (''dynamic loader '' @ loader @ '' needed by '' @ shell @ '' is missing'')])))"

definition shell_header :: "exec_file option \<Rightarrow> elf_err \<times> elf_info" where
  "shell_header f =
     (case f of
        None \<Rightarrow> (ELF_E_TRUNCATED, elf_zero)
      | Some f \<Rightarrow> (case pread_once f 0 64 of
            None \<Rightarrow> (ELF_E_TRUNCATED, elf_zero)
          | Some d \<Rightarrow> if d = [] then (ELF_E_TRUNCATED, elf_zero) else elf_header d (file_size f)))"

definition inspect_shell :: "inspect_host \<Rightarrow> mount_table \<Rightarrow> string \<Rightarrow> resolved \<Rightarrow> (string \<times> jtree) list \<times> finding list \<times> bool" where
  "inspect_shell h t shell r =
     (let f = ih_open h (r_host r); (e, info) = shell_header f;
          is_elf = (e = ELF_OK \<or> e = ELF_E_UNSUPPORTED_CLASS);
          start = [(''path'', JStr shell), (''resolved'', JStr (r_guest r)), (''elf'', JBool is_elf)]
      in if is_elf
         then (let match = (ei_machine info = ih_machine h \<and> ei_class info = 64);
                   (members, more) = (case f of Some f' \<Rightarrow> if e = ELF_OK then interp_members h t shell f' info else ([], []) | None \<Rightarrow> ([], []))
               in (start @ [(''machine'', JStr (elf_machine_name (ei_machine info))), (''class'', JNat (ei_class info)), (''abi_match'', JBool match)] @ members,
                   (if match then []
                    else [mk_finding ''error'' ''rootfs.abi_mismatch''
                            (shell @ '' is '' @ elf_machine_name (ei_machine info) @ '', host runs '' @ elf_machine_name (ih_machine h) @ '' guests only'')]) @ more,
                   match))
         else (start @ [(''script_or_other'', JBool True)], [], True))"

definition kShells :: "string list" where "kShells = [''/bin/sh'', ''/bin/bash'', ''/bin/ash'']"

fun inspect_shells :: "inspect_host \<Rightarrow> mount_table \<Rightarrow> string list \<Rightarrow> jtree list \<times> finding list \<times> bool" where
  "inspect_shells h t [] = ([], [], False)"
| "inspect_shells h t (sh # shs) =
     (let (js, fs, have) = inspect_shells h t shs
      in case guest_file h t sh of
           None \<Rightarrow> (js, fs, have)
         | Some r \<Rightarrow> (case inspect_shell h t sh r of (j, f, ok) \<Rightarrow> (JObj j # js, f @ fs, ok \<or> have)))"

section \<open>The report\<close>

definition storage_findings :: "inspect_host \<Rightarrow> string \<Rightarrow> finding list" where
  "storage_findings h root =
     (let fstype = filesystem_type (ih_probe h) root
      in (if root = ''/'' then [mk_finding ''error'' ''rootfs.host_root'' ''the host root cannot be used as a rootfs''] else []) @
         (if mount_noexec (ih_probe h) root = Some True
          then [mk_finding ''error'' ''rootfs.noexec'' ''rootfs is on a noexec mount; guest programs cannot be executed''] else []) @
         (if fstype \<in> {''fuse'', ''sdcardfs'', ''vfat'', ''exfat''}
          then [mk_finding ''warning'' ''rootfs.storage_semantics''
                 (''rootfs filesystem ('' @ fstype @ '') may not preserve POSIX ownership, modes, symlinks or case sensitivity'')] else []))"

definition os_release_text :: "inspect_host \<Rightarrow> mount_table \<Rightarrow> string" where
  "os_release_text h t =
     (let osr = read_guest_file h t ''/etc/os-release'' 16384
      in if osr = [] then read_guest_file h t ''/usr/lib/os-release'' 16384 else osr)"

definition layout_findings :: "inspect_host \<Rightarrow> mount_table \<Rightarrow> finding list" where
  "layout_findings h t =
     map (\<lambda>d. mk_finding ''info'' ''rootfs.layout'' (''missing directory '' @ d))
       (filter (\<lambda>d. case fst (resolve (ih_fs h) t d default_options None) of Inl e \<Rightarrow> True | Inr r \<Rightarrow> \<not> r_exists r)
          [''/etc'', ''/bin'', ''/usr'', ''/tmp'', ''/dev'', ''/proc''])"

definition os_release_findings :: "inspect_host \<Rightarrow> mount_table \<Rightarrow> finding list" where
  "os_release_findings h t =
     (if os_release_text h t = [] then [mk_finding ''info'' ''rootfs.os_release'' ''no /etc/os-release found''] else [])"

definition no_shell_findings :: "bool \<Rightarrow> finding list" where
  "no_shell_findings have_shell =
     (if have_shell then []
      else [mk_finding ''warning'' ''rootfs.no_shell'' ''no usable /bin/sh, /bin/bash or /bin/ash; a command must be given''])"

definition inspect_findings :: "inspect_host \<Rightarrow> string \<Rightarrow> finding list" where
  "inspect_findings h root =
     (let t = mount_table_new root True; (js, shell_findings, have_shell) = inspect_shells h t kShells
      in storage_findings h root @ os_release_findings h t @ shell_findings @ no_shell_findings have_shell @ layout_findings h t)"

definition status_of_findings :: "finding list \<Rightarrow> string" where
  "status_of_findings fs =
     foldl (\<lambda>st f. if fd_severity f = ''error'' then ''error''
                   else if fd_severity f = ''warning'' \<and> st = ''ok'' then ''warning'' else st) ''ok'' fs"

definition finding_tree :: "finding \<Rightarrow> jtree" where
  "finding_tree f = JObj [(''severity'', JStr (fd_severity f)), (''id'', JStr (fd_id f)), (''message'', JStr (fd_message f))]"

definition inspect_root :: "inspect_host \<Rightarrow> string \<Rightarrow> string option" where
  "inspect_root h rootfs_in = (if rootfs_in = [] then None else ih_canonical h rootfs_in)"

definition inspect_tree :: "inspect_host \<Rightarrow> string \<Rightarrow> jtree" where
  "inspect_tree h rootfs_in =
     JObj ((''input'', JStr rootfs_in) #
       (case inspect_root h rootfs_in of
          None \<Rightarrow> [(''rootfs'', JNull), (''status'', JStr ''error''),
                   (''findings'', JArr [finding_tree (mk_finding ''error'' ''rootfs.missing'' ''rootfs path does not exist or is not a directory'')])]
        | Some root \<Rightarrow>
            (let t = mount_table_new root True; osr = os_release_text h t; findings = inspect_findings h root
             in [(''rootfs'', JStr root),
                 (''filesystem'', JObj [(''type'', JStr (filesystem_type (ih_probe h) root)),
                    (''noexec'', JBool (mount_noexec (ih_probe h) root = Some True)), (''writable'', JBool (ih_writable h root))]),
                 (''os_release'', JObj [(''id'', JStr (os_release_value osr ''ID'')), (''version_id'', JStr (os_release_value osr ''VERSION_ID'')),
                    (''pretty_name'', JStr (os_release_value osr ''PRETTY_NAME''))]),
                 (''shells'', JArr (fst (inspect_shells h t kShells))),
                 (''status'', JStr (status_of_findings findings)),
                 (''findings'', JArr (map finding_tree findings))])))"

definition build_inspect_json :: "inspect_host \<Rightarrow> string \<Rightarrow> string" where
  "build_inspect_json h rootfs_in = jw_out (Json_Validity.emit (inspect_tree h rootfs_in) new_writer)"

section \<open>Lemmas\<close>

lemma status_fold:
  assumes "st \<in> {''ok'', ''warning'', ''error''}"
  shows "foldl (\<lambda>st f. if fd_severity f = ''error'' then ''error''
           else if fd_severity f = ''warning'' \<and> st = ''ok'' then ''warning'' else st) st fs =
    (if st = ''error'' \<or> (\<exists>f \<in> set fs. fd_severity f = ''error'') then ''error''
     else if st = ''warning'' \<or> (\<exists>f \<in> set fs. fd_severity f = ''warning'') then ''warning'' else ''ok'')"
  using assms
proof (induction fs arbitrary: st)
  case (Cons f fs)
  show ?case
    by (cases "fd_severity f = ''error''"; cases "fd_severity f = ''warning'' \<and> st = ''ok''") (use Cons in auto)
qed auto

lemma status_of_findings_eq:
  "status_of_findings fs =
    (if \<exists>f \<in> set fs. fd_severity f = ''error'' then ''error''
     else if \<exists>f \<in> set fs. fd_severity f = ''warning'' then ''warning'' else ''ok'')"
  unfolding status_of_findings_def by (subst status_fold) simp_all

lemma inspect_shells_findings:
  "sh \<in> set shs \<Longrightarrow> guest_file h t sh = Some r \<Longrightarrow>
     set (fst (snd (inspect_shell h t sh r))) \<subseteq> set (fst (snd (inspect_shells h t shs)))"
  by (induction shs) (auto split: option.splits prod.splits)

lemma inspect_shells_have:
  "snd (snd (inspect_shells h t shs)) \<Longrightarrow>
     \<exists>sh \<in> set shs. \<exists>r. guest_file h t sh = Some r \<and> snd (snd (inspect_shell h t sh r))"
  by (induction shs) (auto split: option.splits prod.splits if_splits)

lemma first_shell_guest_file:
  "first_shell (ih_fs h) t shs = find (\<lambda>sh. guest_file h t sh \<noteq> None) shs"
  by (induction shs) (auto simp: guest_file_def split: sum.splits)

lemma inspect_findings_shells:
  fixes h root
  defines "x \<equiv> inspect_shells h (mount_table_new root True) kShells"
  shows "set (fst (snd x)) \<subseteq> set (inspect_findings h root)"
    and "\<not> snd (snd x) \<Longrightarrow> \<exists>f \<in> set (inspect_findings h root). fd_severity f = ''warning''"
proof -
  obtain js fs b where x: "x = (js, fs, b)" by (cases x)
  have f: "set (inspect_findings h root) = set (storage_findings h root) \<union> set (os_release_findings h (mount_table_new root True)) \<union>
      set fs \<union> set (no_shell_findings b) \<union> set (layout_findings h (mount_table_new root True))"
    unfolding inspect_findings_def Let_def x_def [symmetric] x by (simp add: Un_assoc)
  show "set (fst (snd x)) \<subseteq> set (inspect_findings h root)" unfolding f x by auto
  show "\<not> snd (snd x) \<Longrightarrow> \<exists>f \<in> set (inspect_findings h root). fd_severity f = ''warning''"
    unfolding f x by (simp add: no_shell_findings_def)
qed

text \<open>What no error about a shell means.\<close>

definition shell_runs :: "inspect_host \<Rightarrow> mount_table \<Rightarrow> resolved \<Rightarrow> bool" where
  "shell_runs h t r \<longleftrightarrow>
     (case shell_header (ih_open h (r_host r)) of (e, info) \<Rightarrow>
        if e = ELF_OK \<or> e = ELF_E_UNSUPPORTED_CLASS
        then ei_machine info = ih_machine h \<and> ei_class info = 64 \<and>
          (\<forall>f loader. ih_open h (r_host r) = Some f \<and> e = ELF_OK \<and> elf_interpreter f info = Some (Some loader) \<longrightarrow>
             (\<exists>lr. fst (resolve (ih_fs h) t loader default_options None) = Inr lr \<and> r_exists lr))
        else True)"

lemma inspect_shell_no_error:
  assumes "\<forall>f \<in> set (fst (snd (inspect_shell h t sh r))). fd_severity f \<noteq> ''error''"
  shows "shell_runs h t r"
  using assms unfolding shell_runs_def inspect_shell_def interp_members_def
  by (auto simp: Let_def split: prod.splits if_splits option.splits sum.splits)

section \<open>Properties\<close>


text \<open>A rootfs with a script as its only shell.\<close>

definition shell_fs :: host_fs where
  "shell_fs = \<lparr>lstat = (\<lambda>p. if p \<in> {''/r'', ''/r/bin''} then Inr \<lparr>st_dev = 1, st_ino = 1, st_type = FT_dir\<rparr>
       else if p = ''/r/bin/ash'' then Inr \<lparr>st_dev = 1, st_ino = 2, st_type = FT_reg\<rparr> else Inl ENOENT),
     readlink = (\<lambda>_. Inl EINVAL)\<rparr>"

definition shell_host :: inspect_host where
  "shell_host = \<lparr>ih_fs = shell_fs, ih_open = (\<lambda>p. Some \<lparr>ef_stat = Inr (True, 3), ef_pread = \<lambda>pos n. Inr (take n (drop pos ''#!x''))\<rparr>),
     ih_read = (\<lambda>p n. None),
     ih_probe = \<lparr>ph_read = \<lambda>p. Inl ENOENT, ph_readlink = \<lambda>p. Inl ENOENT, ph_env = \<lambda>v. None, ph_executable = \<lambda>p. False,
       ph_exists = \<lambda>p. False, ph_statfs = \<lambda>p. None, ph_statvfs = \<lambda>p. None, ph_uid = 1000, ph_android_build = False,
       ph_sdk_property = [], ph_anchor = 0\<rparr>,
     ih_writable = (\<lambda>p. True), ih_canonical = Some, ih_machine = 62\<rparr>"

lemma shell_host_ok: "status_of_findings (inspect_findings shell_host ''/r'') = ''ok''"
  by code_simp


section \<open>The shape of the report\<close>

lemma fits_inspect_shell: "d \<le> 256 \<Longrightarrow> m \<in> set (fst (inspect_shell h t sh r)) \<Longrightarrow> fits d (snd m)"
  unfolding inspect_shell_def interp_members_def
  by (auto simp: Let_def split: prod.splits option.splits if_splits)

lemma fits_inspect_shells: "d < 256 \<Longrightarrow> j \<in> set (fst (inspect_shells h t shs)) \<Longrightarrow> fits d j"
proof (induction shs)
  case (Cons sh shs)
  obtain js fs b where x: "inspect_shells h t shs = (js, fs, b)" by (metis prod_cases3)
  show ?case
  proof (cases "guest_file h t sh")
    case None
    then show ?thesis using Cons x by simp
  next
    case (Some r)
    obtain ms f ok where y: "inspect_shell h t sh r = (ms, f, ok)" by (metis prod_cases3)
    have "fits (Suc d) (snd m)" if "m \<in> set ms" for m using fits_inspect_shell [of "Suc d" m h t sh r] that y Cons.prems(1) by simp
    then show ?thesis using Cons x y Some by auto
  qed
qed simp

lemma fits_inspect_tree: "fits 0 (inspect_tree h rootfs_in)"
proof -
  have "fits (Suc (Suc 0)) j" if "j \<in> set (fst (inspect_shells h t kShells))" for j t
    using that by (intro fits_inspect_shells) auto
  then show ?thesis
    by (auto simp: inspect_tree_def finding_tree_def Let_def split: option.splits)
qed

end
