(* ===== verification/Capabilities.thy ===== *)
theory Capabilities
  imports Engines Json_Validity
begin

text \<open>
  The capability matrix (\<open>src/src/core/capabilities.cpp\<close>, \<open>reports.hpp\<close>), the hardware registry
  (\<open>src/hdr/hardware_registry.cpp\<close>) and the driver catalogue (\<open>src/vdr/drivers.cpp\<close>), and the
  report made of them.
\<close>

section \<open>Tables\<close>

datatype support_status = Sup | Part | Unsup | Unt | Back

fun support_status_name :: "support_status \<Rightarrow> string" where
  "support_status_name Sup = ''supported''"
| "support_status_name Part = ''partial''"
| "support_status_name Unsup = ''unsupported''"
| "support_status_name Unt = ''untested''"
| "support_status_name Back = ''backend-required''"

record profile_entry =
  pe_id :: string
  pe_description :: string
  pe_status :: support_status
  pe_evidence :: string

abbreviation prof :: "string \<Rightarrow> string \<Rightarrow> support_status \<Rightarrow> string \<Rightarrow> profile_entry" where
  "prof i d s e \<equiv> \<lparr>pe_id = i, pe_description = d, pe_status = s, pe_evidence = e\<rparr>"

record feature_entry =
  fe_id :: string
  fe_description :: string
  fe_linux_host :: support_status
  fe_terminal_unprivileged :: support_status
  fe_android_app :: support_status
  fe_rooted :: support_status
  fe_vm :: support_status
  fe_tests :: "string list"
  fe_notes :: string

definition feat ::
  "string \<Rightarrow> string \<Rightarrow> support_status \<Rightarrow> support_status \<Rightarrow> support_status \<Rightarrow> support_status \<Rightarrow> support_status \<Rightarrow> string list \<Rightarrow> string \<Rightarrow> feature_entry" where
  "feat i d l t a r v ts n = \<lparr>fe_id = i, fe_description = d, fe_linux_host = l, fe_terminal_unprivileged = t, fe_android_app = a,
     fe_rooted = r, fe_vm = v, fe_tests = ts, fe_notes = n\<rparr>"

definition capability_profiles :: "profile_entry list" where
  "capability_profiles = [
     prof (''linux-x86_64'') (''Linux x86_64 host, same-architecture guest, rootless engine (development/CI profile; not an Android claim)'') Sup (''host test suite (ctest) on Linux x86_64''),
     prof (''linux-aarch64'') (''Linux aarch64 host, same-architecture guest, rootless engine'') Unt (''compiled for Android arm64 only; no aarch64 Linux test run''),
     prof (''terminal-unprivileged'') (''Android ARM64 CLI from a terminal app or adb shell, same-architecture guest, when the ptrace probe passes'') Unt (''android-arm64-release artifacts build with the official NDK; device tests NOT RUN''),
     prof (''android-emulator-x86_64'') (''Android x86_64 emulator CLI, same-architecture guest'') Unt (''android-x86_64-debug artifacts build; emulator tests NOT RUN''),
     prof (''android-app'') (''libvhdp inside a third-party Android app (targetSdk >= 29)'') Sup (''guest programs start through the userland loader (libvhdp-loader.so in nativeLibraryDir), which maps them PROT_EXEC from app storage; host policy refusals are answered (seccomp traps, link(2), NETLINK_AUDIT, denied /proc files). Device QA: arm64 Android 15 phone and x86_64 Android 13 running a Debian rootfs through phdp from an app, incl. apt/dpkg, job control and procps''),
     prof (''rooted'') (''rooted device with real namespaces/chroot/cgroups'') Back (''rooted engine not implemented''),
     prof (''vm'') (''full guest kernel through a hypervisor (AVF/KVM)'') Back (''VM engine not implemented''),
     prof (''cross-architecture'') (''guest ABI different from the host (e.g. x86_64 rootfs on arm64)'') Back (''no emulator adapter integrated; ABI mismatch is detected and reported'')]"

definition features_1 :: "feature_entry list" where
  "features_1 = [
     feat (''cli.run'') (''phdp run ROOTFS -- CMD and the positional alias; exit status propagation'') Sup Unt Sup Back Back [''T-CLI-RUN-EXIT37'', ''T-CLI-POSITIONAL-EXIT37'', ''T-CLI-ARGS-ENV-CWD''] ([]),
     feat (''cli.parser'') (''subcommand disambiguation, option validation, unsupported options rejected'') Sup Sup Sup Sup Sup [''T-UNIT-CLI-ARGS''] (''pure parser, platform independent''),
     feat (''cli.default_shell'') (''no command runs /bin/sh (fallback /bin/bash, /bin/ash)'') Sup Unt Unsup Back Back [''T-PTY-DEFAULT-SHELL''] ([]),
     feat (''cli.reports'') (''doctor, inspect, capabilities with --json'') Sup Unt Sup Unt Unt [''T-CLI-DOCTOR-JSON'', ''T-CLI-INSPECT-JSON'', ''T-CLI-CAPABILITIES-JSON''] ([]),
     feat (''cli.json_events'') (''lifecycle/diagnostic events as JSON Lines on stderr or --event-fd; guest stdout untouched'') Sup Unt Sup Back Back [''T-CLI-JSON-EVENTS''] ([]),
     feat (''lib.c_abi'') (''stable C ABI: versioned structs, opaque handles, export allowlist, no C++ symbol leaks'') Sup Unt Sup Back Back [''T-UNIT-CAPI'', ''T-ABI-SYMBOLS'', ''T-ABI-HEADERS-C''] ([]),
     feat (''lib.cpp_wrapper'') (''header-only RAII C++ wrapper over the C ABI'') Sup Unt Unsup Back Back [''T-UNIT-CPP-WRAPPER'', ''T-ABI-HEADERS-CPP''] ([]),
     feat (''lib.embedding_examples'') (''C and C++ examples run the same session as the CLI'') Sup Unt Unsup Back Back [''T-EX-C-EMBED'', ''T-EX-CPP-EMBED''] ([]),
     feat (''lib.jni_aar'') (''JNI/Kotlin wrapper and AAR'') Unsup Unsup Part Unsup Unsup [] (''no AAR is published; an app embeds the C ABI through its own JNI layer and runs sessions through phdp from nativeLibraryDir''),
     feat (''exec.static_elf'') (''static same-architecture ELF from the rootfs'') Sup Unt Sup Back Back [''T-CLI-RUN-EXIT37''] ([]),
     feat (''exec.dynamic_elf'') (''dynamic ELF through the rootfs dynamic loader (loader indirection)'') Sup Unt Sup Back Back [''T-EXEC-DYNAMIC-LOADER''] (''without the userland loader /proc/self/exe names ld.so (glibc --argv0 used when supported); with it (Android) exe names the program''),
     feat (''exec.shebang'') (''#! scripts with interpreter lookup inside the rootfs'') Sup Unt Sup Back Back [''T-EXEC-SHEBANG''] ([])]"

definition features_2 :: "feature_entry list" where
  "features_2 = [
     feat (''exec.abi_mismatch'') (''foreign-architecture ELF refused with ENOEXEC and a diagnostic'') Sup Unt Unsup Back Back [''T-EXEC-ABI-MISMATCH''] ([]),
     feat (''exec.loader_missing'') (''missing PT_INTERP loader refused with ENOENT and a diagnostic'') Sup Unt Unsup Back Back [''T-EXEC-LOADER-MISSING''] ([]),
     feat (''fs.paths'') (''absolute and relative paths, cwd, chdir/getcwd'') Sup Unt Sup Back Back [''T-FS-ABS-REL'', ''T-UNIT-RESOLVER''] ([]),
     feat (''fs.at_family'') (''dirfd-relative *at syscalls (openat, newfstatat, statx, mkdirat, unlinkat, renameat2, linkat, symlinkat, readlinkat, faccessat2, fchmodat, fchownat, utimensat)'') Part Unt Part Back Back [''T-FS-DIRFD''] (''openat2 refused with ENOSYS''),
     feat (''fs.dotdot'') ([CHR 0x27] @ ''..'' @ [CHR 0x27] @ '' never climbs above the guest root'') Sup Unt Sup Back Back [''T-FS-DOTDOT'', ''T-UNIT-RESOLVER''] ([]),
     feat (''fs.symlinks'') (''absolute/relative symlinks resolved in guest space; loops give ELOOP'') Sup Unt Sup Back Back [''T-FS-SYMLINK-ESCAPE'', ''T-UNIT-RESOLVER''] (''resolution/use race (TOCTOU) remains; see SECURITY.md''),
     feat (''fs.hardlink_rename'') (''link/rename inside a mount; EXDEV across mounts'') Part Unt Sup Back Back [''T-FS-RENAME-LINK''] (''where the host refuses link(2) (Android app storage) hard links are emulated: shared object, st_nlink/st_ino, d_type, collapse back to a file at one name''),
     feat (''fs.magic_links'') (''/proc magic links (--proc host): self remap, outside targets fail closed'') Part Unt Part Back Back [''T-FS-MAGIC-LINK''] (''host /proc content is visible when --proc host is used; files the host refuses (Android: stat, uptime, loadavg, version, vmstat, ...) are served by stand-ins, and /proc/<pid>/status of session processes shows the guest identity''),
     feat (''fs.binds'') (''explicit binds, read-only by default, :rw opt-in'') Sup Unt Sup Back Back [''T-FS-BIND-RO'', ''T-FS-BIND-RW''] (''bind targets missing in the rootfs are not listed by readdir''),
     feat (''fs.read_only_rootfs'') (''--read-only-rootfs returns EROFS for writes'') Sup Unt Unsup Back Back [''T-FS-READONLY-ROOTFS''] ([]),
     feat (''fs.inherited_fd'') (''only stdio is inherited; descriptors outside the mounts are refused as dirfd'') Sup Unt Unsup Back Back [''T-FS-INHERITED-FD''] ([]),
     feat (''fs.unix_sockets'') (''AF_UNIX pathname connect/bind/sendto/sendmsg translated'') Part Unt Unsup Back Back [''T-FS-UNIX-SOCKET''] (''host path must fit 107 bytes; sendmmsg with pathname addresses refused'')]"

definition features_3 :: "feature_entry list" where
  "features_3 = [
     feat (''identity.uid_gid'') (''guest-visible uid/gid and stat ownership (--uid/--gid)'') Part Unt Part Back Back [''T-ID-UID-GID''] (''credentials tracked per process (set*id rules, getgroups/setgroups); chown is a no-op for uid 0''),
     feat (''dev.minimal'') (''/dev/null, zero, full, random, urandom, tty, ptmx, pts'') Sup Unt Sup Back Back [''T-DEV-MINIMAL''] ([]),
     feat (''tty.pty'') (''PTY sessions, Ctrl-C/SIGINT exit 130, window resize'') Sup Unt Sup Back Back [''T-PTY-CTRL-C'', ''T-PTY-RESIZE'', ''T-LIB-PTY-RESIZE''] ([]),
     feat (''tty.job_control'') (''interactive shell job control'') Part Unt Sup Back Back [''T-PTY-JOB-CONTROL''] (''test drives the fixture shell on a PTY (command list and exit status); stopping and resuming jobs is not covered by an automated test''),
     feat (''proc.signals'') (''signal forwarding and 128+N exit status'') Sup Unt Sup Back Back [''T-CLI-SIGNAL-FORWARD''] (''signals to processes outside the session are refused (ESRCH)''),
     feat (''proc.tree_cleanup'') (''whole process tree killed on exit/cancel; no zombies or leaked fds'') Sup Unt Unsup Back Back [''T-LIFE-TREE-CANCEL'', ''T-LIFE-100-CYCLES''] ([]),
     feat (''proc.timeout'') (''--timeout kills the tree and exits 124'') Sup Unt Unsup Back Back [''T-CLI-TIMEOUT''] ([]),
     feat (''proc.multiprocess'') (''fork/vfork/clone/threads followed; CLONE_UNTRACED stripped; clone3 -> ENOSYS'') Sup Unt Sup Back Back [''T-PROC-FANOUT''] ([]),
     feat (''syscall.policy'') (''unknown and dangerous syscalls refused with errno + diagnostic'') Sup Unt Sup Back Back [''T-SYS-UNSUPPORTED'', ''T-UNIT-SYSCALL-TABLE''] ([]),
     feat (''syscall.seccomp_acceleration'') (''seccomp RET_TRACE accelerator with ptrace fallback'') Sup Unt Sup Back Back [''T-UNIT-SECCOMP-FILTER'', ''T-SYS-PTRACE-ONLY''] ([]),
     feat (''net.host'') (''host network pass-through'') Sup Unt Sup Back Back [''T-NET-HOST-SOCKET''] (''socket creation tested; no external traffic in tests''),
     feat (''net.none'') (''--network none refuses non-AF_UNIX sockets'') Part Unt Unsup Back Back [''T-NET-NONE''] (''abstract AF_UNIX sockets stay reachable'')]"

definition features_4 :: "feature_entry list" where
  "features_4 = [
     feat (''net.dns'') (''DNS resolution inside the guest'') Unt Unt Sup Back Back [] (''depends on rootfs resolv.conf; no test''),
     feat (''guest.kernel_modules'') (''kernel modules / guest kernel drivers'') Unsup Unsup Unsup Back Back [] ([]),
     feat (''guest.systemd_cgroups'') (''systemd, full cgroups'') Unsup Unsup Unsup Back Back [] ([]),
     feat (''guest.containers_kvm_ebpf'') (''nested containers, KVM, eBPF, netfilter, FUSE'') Unsup Unsup Unsup Back Back [] ([]),
     feat (''guest.setuid_privilege'') (''setuid/capabilities granting host privilege'') Unsup Unsup Unsup Back Back [] (''no_new_privs is always set''),
     feat (''guest.hardware'') (''USB, raw block devices, GPU passthrough, GUI acceleration'') Unsup Unsup Unsup Back Back [] ([]),
     feat (''security.sandbox'') (''isolation for hostile root filesystems'') Unsup Unsup Unsup Unt Back [] (''rootless path translation is compatibility isolation only; use an isolated VM'')]"

definition capability_features :: "feature_entry list" where
  "capability_features = features_1 @ features_2 @ features_3 @ features_4"

datatype provision = Host_passthrough | Projected | Emulated | Absent

fun provision_name :: "provision \<Rightarrow> string" where
  "provision_name Host_passthrough = ''host-passthrough''"
| "provision_name Projected = ''projected''"
| "provision_name Emulated = ''emulated''"
| "provision_name Absent = ''absent''"

record hardware_descriptor =
  hd_id :: string
  hd_summary :: string
  hd_provision :: provision
  hd_provided_by :: string
  hd_notes :: string

abbreviation hw :: "string \<Rightarrow> string \<Rightarrow> provision \<Rightarrow> string \<Rightarrow> string \<Rightarrow> hardware_descriptor" where
  "hw i s p b n \<equiv> \<lparr>hd_id = i, hd_summary = s, hd_provision = p, hd_provided_by = b, hd_notes = n\<rparr>"

definition hardware_registry :: "string \<Rightarrow> int \<Rightarrow> int \<Rightarrow> hardware_descriptor list" where
  "hardware_registry arch page cpus = [
     hw ''cpu'' (''guest code runs natively on the host CPU ('' @ arch @ '', '' @ int_string cpus @ '' online)'')
       Host_passthrough ''engine:rootless'' ''same-architecture only; no CPU feature masking'',
     hw ''memory'' (''host virtual memory and page size '' @ int_string page @ '' bytes'')
       Host_passthrough ''engine:rootless'' ''no memory limit is applied by this milestone'',
     hw ''clock'' ''CLOCK_* and time syscalls'' Host_passthrough ''syscall table'' ''guest cannot set the host clock (kernel returns EPERM)'',
     hw ''entropy'' ''getrandom and /dev/random, /dev/urandom'' Projected ''vdr:dev-minimal'' ''host kernel entropy'',
     hw ''null-zero-full'' ''/dev/null, /dev/zero, /dev/full'' Projected ''vdr:dev-minimal'' [],
     hw ''terminal'' ''PTY or inherited terminal'' Projected ''vdr:pty'' ''window size forwarded with TIOCSWINSZ'',
     hw ''identity'' ''guest-visible uid/gid (--uid/--gid)'' Emulated ''syscall handlers''
       ''get*id results and stat ownership of host-owned files are rewritten; host credentials never change'',
     hw ''uname'' ''kernel name/release/machine'' Host_passthrough ''syscall table'' ''hostname changes are denied (no UTS namespace)'',
     hw ''network'' ''host network stack'' Host_passthrough ''vdr:network-policy'' ''--network none refuses IP sockets'',
     hw ''gpu'' ''GPU/display'' Absent ''-'' ''no GPU passthrough or acceleration'',
     hw ''usb-block'' ''USB and raw block devices'' Absent ''-'' ''not projected'']"

record driver_descriptor =
  dd_id :: string
  dd_summary :: string
  dd_permissions :: string
  dd_policy :: string
  dd_cleanup :: string

abbreviation drv :: "string \<Rightarrow> string \<Rightarrow> string \<Rightarrow> string \<Rightarrow> string \<Rightarrow> driver_descriptor" where
  "drv i s p po c \<equiv> \<lparr>dd_id = i, dd_summary = s, dd_permissions = p, dd_policy = po, dd_cleanup = c\<rparr>"

definition driver_catalogue :: "driver_descriptor list" where
  "driver_catalogue = [
     drv (''host-bind'') (''explicit host directory binds'') (''host read (and write for :rw) access to the bind source'') (''no binds by default; read-only unless :rw; canonicalised source; guest target must not contain '' @ [CHR 0x27] @ ''..'' @ [CHR 0x27]) (''mapping discarded at session end''),
     drv (''dev-minimal'') (''projects /dev/null, zero, full, random, urandom, tty, ptmx and /dev/pts'') (''host device nodes must exist and be accessible to the calling user'') (''enabled by default (--dev minimal); no other device nodes are visible; --dev none disables'') (''mapping discarded at session end''),
     drv (''proc-host'') (''read-only projection of host /proc'') (''host procfs visibility of the calling user'') (''disabled by default (--proc none); /proc/self is remapped to the calling guest process; magic links to paths outside the session mounts fail closed with EACCES; exposes host process information'') (''mapping discarded at session end''),
     drv (''pty'') (''pseudo-terminal for the guest (library PTY mode and phdp --pty)'') (''/dev/ptmx'') (''guest becomes session leader with the PTY as controlling terminal; resize via TIOCSWINSZ'') (''master closed, output pump joined at session destroy''),
     drv (''network-policy'') (''host network pass-through or IP socket denial'') (''none'') (''--network host (default) passes sockets through; --network none refuses non-AF_UNIX socket() with EACCES (seccomp-enforced when available); abstract AF_UNIX sockets remain reachable'') (''none'')]"

section \<open>The report\<close>

record build_info =
  bi_version :: string
  bi_arch :: string
  bi_platform :: string
  bi_type :: string
  bi_asm :: bool
  bi_page :: int
  bi_cpus :: int

definition profile_tree :: "profile_entry \<Rightarrow> jtree" where
  "profile_tree p = JObj [(''id'', JStr (pe_id p)), (''status'', JStr (support_status_name (pe_status p))),
     (''description'', JStr (pe_description p)), (''evidence'', JStr (pe_evidence p))]"

definition feature_tree :: "feature_entry \<Rightarrow> jtree" where
  "feature_tree f = JObj [(''id'', JStr (fe_id f)), (''description'', JStr (fe_description f)),
     (''status'', JObj [(''linux-x86_64'', JStr (support_status_name (fe_linux_host f))),
        (''terminal-unprivileged'', JStr (support_status_name (fe_terminal_unprivileged f))),
        (''android-app'', JStr (support_status_name (fe_android_app f))), (''rooted'', JStr (support_status_name (fe_rooted f))),
        (''vm'', JStr (support_status_name (fe_vm f)))]),
     (''tests'', JArr (map JStr (fe_tests f))), (''notes'', JStr (fe_notes f))]"

definition hardware_tree :: "hardware_descriptor \<Rightarrow> jtree" where
  "hardware_tree d = JObj [(''id'', JStr (hd_id d)), (''provision'', JStr (provision_name (hd_provision d))),
     (''provided_by'', JStr (hd_provided_by d)), (''summary'', JStr (hd_summary d)), (''notes'', JStr (hd_notes d))]"

definition driver_tree :: "driver_descriptor \<Rightarrow> jtree" where
  "driver_tree d = JObj [(''id'', JStr (dd_id d)), (''summary'', JStr (dd_summary d)), (''permissions'', JStr (dd_permissions d)),
     (''policy'', JStr (dd_policy d)), (''cleanup'', JStr (dd_cleanup d))]"

definition class_count :: "syscall_info list \<Rightarrow> syscall_class \<Rightarrow> nat" where
  "class_count table c = length (filter (\<lambda>s. si_cls s = c) table)"

definition syscalls_tree :: "string \<Rightarrow> syscall_info list \<Rightarrow> jtree" where
  "syscalls_tree arch table = JObj [(''arch'', JStr arch), (''pass-through'', JNat (class_count table Cls_pass_through)),
     (''translated'', JNat (class_count table Cls_translated)), (''emulated'', JNat (class_count table Cls_emulated)),
     (''denied'', JNat (class_count table Cls_denied)), (''unsupported'', JNat (class_count table Cls_unsupported)),
     (''unknown_numbers'', JStr ''denied with ENOSYS'')]"

definition capability_engine_tree :: "engine \<Rightarrow> jtree" where
  "capability_engine_tree e = JObj [(''engine'', JStr (engine_name (eng_kind e))),
     (''available'', JBool (pr_available (eng_probe e))), (''reason'', JStr (pr_reason (eng_probe e)))]"

text \<open>\<open>nr_of\<close> gives the numbers of the system calls on the target.\<close>

definition capabilities_tree :: "build_info \<Rightarrow> engine list \<Rightarrow> (string \<Rightarrow> int option) \<Rightarrow> jtree" where
  "capabilities_tree b engines nr_of = JObj [
     (''vhdp_version'', JStr (bi_version b)), (''abi_version'', JNat 1),
     (''build'', JObj [(''arch'', JStr (bi_arch b)), (''platform'', JStr (bi_platform b)), (''build_type'', JStr (bi_type b)),
        (''assembly_raw_syscall'', JBool (bi_asm b)), (''rooted_engine'', JBool False), (''emulator_engine'', JBool False),
        (''vm_engine'', JBool False)]),
     (''status_values'', JArr (map (\<lambda>s. JStr (support_status_name s)) [Sup, Part, Unsup, Unt, Back])),
     (''engines'', JArr (map capability_engine_tree engines)),
     (''profiles'', JArr (map profile_tree capability_profiles)),
     (''features'', JArr (map feature_tree capability_features)),
     (''syscalls'', syscalls_tree (bi_arch b) (kTable nr_of)),
     (''hardware'', JArr (map hardware_tree (hardware_registry (bi_arch b) (bi_page b) (bi_cpus b)))),
     (''drivers'', JArr (map driver_tree driver_catalogue)),
     (''isolation'', JStr ''compatibility isolation only; not a security sandbox for hostile root filesystems'')]"

definition build_capabilities_json :: "build_info \<Rightarrow> engine list \<Rightarrow> (string \<Rightarrow> int option) \<Rightarrow> string" where
  "build_capabilities_json b engines nr_of = jw_out (Json_Validity.emit (capabilities_tree b engines nr_of) new_writer)"

section \<open>The tables are consistent\<close>

lemma fits_capabilities_tree: "fits 0 (capabilities_tree b engines nr_of)"
  by (auto simp: capabilities_tree_def capability_engine_tree_def profile_tree_def feature_tree_def syscalls_tree_def
      hardware_tree_def driver_tree_def)

text \<open>
  Every \<open>supported\<close> or \<open>partial\<close> claim for the Linux host profile names a test, feature ids are unique, and
  nothing is claimed for the engines without a backend but the parser, which needs none.
\<close>

lemma capability_claims_tested:
  "filter (\<lambda>f. fe_linux_host f \<in> {Sup, Part} \<and> fe_tests f = []) capability_features = []"
  by code_simp

lemma capability_ids_unique: "distinct (map fe_id capability_features)"
  by code_simp

lemma capability_no_backend_claims:
  "map fe_id (filter (\<lambda>f. fe_rooted f \<in> {Sup, Part} \<or> fe_vm f \<in> {Sup, Part}) capability_features) = [''cli.parser'']"
  by code_simp

end
