(* ===== verification/Cli_Run.thy ===== *)
theory Cli_Run
  imports Cpp_Wrapper Cli_Args Json_Roundtrip Doctor Inspect Capabilities
begin

text \<open>
  The commands of the tool (\<open>src/src/cli/cli_run.cpp\<close>, \<open>cli_report.cpp\<close>, \<open>main.cpp\<close>) over the parser of
  \<open>Cli_Args\<close>, the calls of \<open>Capi\<close> made through the C++ wrapper (\<open>include/vhdp/vhdp.hpp\<close>) and the
  reader of \<open>Json_Dom\<close>.  What goes to the terminal is text; what comes from the library is a parameter.
\<close>

definition kExitUsage :: int where "kExitUsage = 2"
definition kExitStartFailure :: int where "kExitStartFailure = 125"

section \<open>Event lines\<close>

record cli_event =
  ce_kind :: nat
  ce_severity :: nat
  ce_name :: string
  ce_message :: string
  ce_detail :: string
  ce_ts :: nat
  ce_session :: nat
  ce_pid :: int
  ce_code :: int

definition json_event_line :: "cli_event \<Rightarrow> string" where
  "json_event_line e =
     ''{'' @ [dquote] @ ''type'' @ [dquote] @ '':'' @
       quote (if ce_kind e < 5 then [[], ''lifecycle'', ''diagnostic'', ''log'', ''trace''] ! ce_kind e else ''unknown'') @
     '','' @ [dquote] @ ''severity'' @ [dquote] @ '':'' @
       quote (if ce_severity e < 4 then [''debug'', ''info'', ''warning'', ''error''] ! ce_severity e else ''unknown'') @
     '','' @ [dquote] @ ''name'' @ [dquote] @ '':'' @ quote (ce_name e) @
     '','' @ [dquote] @ ''ts_ns'' @ [dquote] @ '':'' @ dec_string (ce_ts e) @
     '','' @ [dquote] @ ''session'' @ [dquote] @ '':'' @ dec_string (ce_session e) @
     '','' @ [dquote] @ ''pid'' @ [dquote] @ '':'' @ int_string (ce_pid e) @
     '','' @ [dquote] @ ''code'' @ [dquote] @ '':'' @ int_string (ce_code e) @
     '','' @ [dquote] @ ''message'' @ [dquote] @ '':'' @ quote (ce_message e) @
     '','' @ [dquote] @ ''detail'' @ [dquote] @ '':'' @ (if ce_detail e = [] then ''{}'' else ce_detail e) @ ''}'' @ [newline]"

text \<open>\<open>EventPrinter::on_event\<close>: the line, if one is printed.\<close>

definition event_line :: "run_options \<Rightarrow> cli_event \<Rightarrow> string option" where
  "event_line opts e =
     (if ro_json opts then Some (json_event_line e)
      else if ce_kind e = 4
      then (if ro_trace opts then Some (''phdp: trace: '' @ ce_message e @ '' '' @ ce_detail e @ [newline]) else None)
      else if ce_kind e = 1 \<and> ce_severity e \<ge> 3 then None
      else if ce_severity e \<ge> 2
      then Some (''phdp: '' @ (if ce_severity e \<ge> 3 then ''error: '' else ''warning: '') @ ce_message e @ [newline])
      else if ro_verbose opts \<or> ro_trace opts then Some (''phdp: ['' @ ce_name e @ ''] '' @ ce_message e @ [newline])
      else None)"

definition min_severity :: "run_options \<Rightarrow> nat" where
  "min_severity opts = (if ro_trace opts \<or> ro_verbose opts then 0 else if ro_json opts then 1 else 2)"

section \<open>Signals and input\<close>

datatype relayed = Relay_nothing | Relay_resize nat nat | Relay_signal int

definition relay_set :: "int list" where "relay_set = [2, 3, 15, 1, 10, 12, 28]"

text \<open>\<open>from_kernel\<close>: the terminal generated the signal, and the guest has it already.\<close>

definition relay :: "bool \<Rightarrow> (nat \<times> nat) option \<Rightarrow> int \<Rightarrow> bool \<Rightarrow> relayed" where
  "relay pty size_now sig from_kernel =
     (if sig < 0 then Relay_nothing
      else if sig = 28 then (case size_now of Some (r, c) \<Rightarrow> if pty then Relay_resize r c else Relay_nothing | None \<Rightarrow> Relay_nothing)
      else if (sig = 2 \<or> sig = 3) \<and> \<not> pty \<and> from_kernel then Relay_nothing
      else Relay_signal sig)"

datatype input_round = In_poll_failed errno | In_wake | In_read "errno + string" | In_idle

text \<open>\<open>InputPump::loop\<close>: what is written to the guest; after the end of the input it is not polled again.\<close>

fun input_pump :: "bool \<Rightarrow> input_round list \<Rightarrow> string list" where
  "input_pump eof [] = []"
| "input_pump eof (In_poll_failed e # rs) = (if e = EINTR then input_pump eof rs else [])"
| "input_pump eof (In_wake # rs) = []"
| "input_pump eof (In_idle # rs) = input_pump eof rs"
| "input_pump eof (In_read r # rs) =
     (if eof then input_pump eof rs
      else case r of
          Inr d \<Rightarrow> if d \<noteq> [] then d # input_pump eof rs else [CHR 0x04] # input_pump True rs
        | Inl e \<Rightarrow> if e \<noteq> EINTR \<and> e \<noteq> EAGAIN then [CHR 0x04] # input_pump True rs else input_pump eof rs)"

fun cli_write_all :: "nat \<Rightarrow> (errno + nat) list \<Rightarrow> bool option" where
  "cli_write_all len rs =
     (if len = 0 then Some True
      else case rs of
          [] \<Rightarrow> None
        | Inl e # rs' \<Rightarrow> if e = EINTR then cli_write_all len rs' else Some False
        | Inr n # rs' \<Rightarrow> cli_write_all (len - n) rs')"

section \<open>From options to a configuration\<close>

definition engine_value :: "string \<Rightarrow> 32 word" where
  "engine_value s = (if s = ''rootless'' then 1 else if s = ''rooted'' then 2 else if s = ''emulator'' then 3 else if s = ''vm'' then 4 else 0)"

abbreviation flag :: "bool \<Rightarrow> 32 word" where "flag b \<equiv> (if b then 1 else 0)"

text \<open>The calls, in order, each with the name it is reported under when it fails.\<close>

definition run_calls :: "run_options \<Rightarrow> (16 word \<times> 16 word) option \<Rightarrow> (config_call \<times> string) list" where
  "run_calls opts term =
     [(Set_rootfs (Some (ro_rootfs opts)), ''rootfs''), (Set_engine (engine_value (ro_engine opts)), ''--engine''),
      (Set_argv (length (ro_command opts)) (Some (map Some (ro_command opts))), ''command''),
      (Set_clear_env (flag (ro_clear_env opts)), ''--clear-env''),
      (Set_read_only (flag (ro_read_only_rootfs opts)), ''--read-only-rootfs''),
      (Set_network (flag (ro_network opts = ''none'')), ''--network''),
      (Set_trace (flag (ro_trace opts)), ''--trace''),
      (Set_seccomp (if ro_seccomp opts = ''on'' then 1 else if ro_seccomp opts = ''off'' then 2 else 0), ''--seccomp''),
      (Set_dev (flag (ro_dev opts = ''none'')), ''--dev''), (Set_proc (flag (ro_proc opts = ''host'')), ''--proc'')] @
     (case ro_cwd opts of None \<Rightarrow> [] | Some p \<Rightarrow> [(Set_cwd (Some p), ''--cwd'')]) @
     map (\<lambda>kv. (Add_env (Some kv), ''--env'')) (ro_env opts) @
     map (\<lambda>b. (Add_bind (Some (ba_host b)) (Some (ba_guest b)) (flag (ba_read_write b)), ''--bind'')) (ro_binds opts) @
     (case ro_uid opts of None \<Rightarrow> [] | Some u \<Rightarrow> [(Set_uid (of_nat u), ''--uid'')]) @
     (case ro_gid opts of None \<Rightarrow> [] | Some g \<Rightarrow> [(Set_gid (of_nat g), ''--gid'')]) @
     (case ro_timeout_ms opts of None \<Rightarrow> [] | Some t \<Rightarrow> [(Set_timeout (of_nat t), ''--timeout'')]) @
     (if ro_pty opts
      then [(Set_stdio 1 (- 1) (- 1) (- 1), ''--pty''),
            (case term of None \<Rightarrow> Set_pty_size 24 80 | Some (r, c) \<Rightarrow> Set_pty_size r c, ''--pty''), (Set_output True, ''--pty'')]
      else [])"

text \<open>The first call that fails ends the chain with its name and message.\<close>

fun apply_calls :: "(config_call \<times> string) list \<Rightarrow> session_config \<Rightarrow> (string \<times> string) + session_config" where
  "apply_calls [] c = Inr c"
| "apply_calls ((x, what) # xs) c = (case config_op x c of Inl (k, msg) \<Rightarrow> Inl (what, msg) | Inr c' \<Rightarrow> apply_calls xs c')"

section \<open>Running\<close>

text \<open>\<open>tracer_pid\<close> of the tool: the first line \<open>sscanf\<close> reads a number from.\<close>

fun tracer_in :: "string list \<Rightarrow> int" where
  "tracer_in [] = 0"
| "tracer_in (l # ls) =
     (if starts_with (c_string l) ''TracerPid:''
      then (case strtol (drop 10 (c_string l)) of (v, digits, rest) \<Rightarrow> if digits then v else tracer_in ls)
      else tracer_in ls)"

definition cli_tracer_pid :: "(string \<Rightarrow> errno + string) \<Rightarrow> int" where
  "cli_tracer_pid rd = (case rd ''/proc/self/status'' of Inl e \<Rightarrow> 0 | Inr s \<Rightarrow> tracer_in (fgets_lines 255 s))"

record run_env =
  rv_fd_open :: "int \<Rightarrow> bool"
  rv_status :: "string \<Rightarrow> errno + string"   \<comment> \<open>the files of procfs\<close>
  rv_term :: "(16 word \<times> 16 word) option"
  rv_context :: status
  rv_config :: status
  rv_session :: "session_config \<Rightarrow> status"
  rv_start :: "session_config \<Rightarrow> status"
  rv_wait_now :: "status + exit_info"        \<comment> \<open>after a failed start\<close>
  rv_wait :: "status + exit_info"

definition error_line :: "string \<Rightarrow> string" where "error_line s = ''phdp: error: '' @ s @ [newline]"

definition cli_fail :: "string \<Rightarrow> status \<Rightarrow> int \<times> string" where
  "cli_fail what s =
     (kExitStartFailure, error_line (what @ '': '' @ (if st_message s = [] then code_name (st_code s) else st_message s)))"

definition traced_text :: "int \<Rightarrow> string" where
  "traced_text tracer = error_line (''cannot run the rootless engine here: this process is already traced by PID '' @ int_string tracer @
     '' (a ptrace supervisor: an enclosing vhdp session, a debugger or a syscall tracer).'' @ [newline] @
     ''Linux allows only one tracer per process, so vhdp cannot ptrace a guest from inside it. Run `phdp run` from a shell that is NOT supervised (e.g. adb shell), or just use the surrounding session, which is already a Linux environment. `phdp doctor`, `inspect` and `capabilities` work here normally.'')"

text \<open>The exit status, and what is written to standard error.\<close>

definition run_session_cli :: "run_env \<Rightarrow> session_config \<Rightarrow> int \<times> string" where
  "run_session_cli v c =
     (if \<not> is_ok (rv_session v c) then cli_fail ''invalid session configuration'' (rv_session v c)
      else if \<not> is_ok (rv_start v c)
      then (let code = (case rv_wait_now v of Inr i \<Rightarrow> xi_shell_status i | Inl s \<Rightarrow> kExitStartFailure)
            in (if code = 0 then kExitStartFailure else code, error_line (st_message (rv_start v c))))
      else (case rv_wait v of
              Inr i \<Rightarrow> (xi_shell_status i, [])
            | Inl s \<Rightarrow> (kExitStartFailure, error_line (''wait failed: '' @ st_message s))))"

definition run_command :: "run_env \<Rightarrow> run_options \<Rightarrow> int \<times> string" where
  "run_command v opts =
     (if (case ro_event_fd opts of None \<Rightarrow> False | Some fd \<Rightarrow> \<not> rv_fd_open v fd)
      then (kExitUsage, error_line (''--event-fd '' @ int_string (the (ro_event_fd opts)) @ '' is not an open descriptor''))
      else if (ro_engine opts = ''auto'' \<or> ro_engine opts = ''rootless'') \<and> cli_tracer_pid (rv_status v) > 0
      then (kExitStartFailure, traced_text (cli_tracer_pid (rv_status v)))
      else if \<not> is_ok (rv_context v) then cli_fail ''cannot create context'' (rv_context v)
      else if \<not> is_ok (rv_config v) then cli_fail ''cannot create config'' (rv_config v)
      else (case apply_calls (run_calls opts (rv_term v)) default_config of
              Inl (what, msg) \<Rightarrow> (kExitStartFailure, error_line (what @ '': '' @ msg))
            | Inr c \<Rightarrow> run_session_cli v c))"

section \<open>Reports\<close>

text \<open>The exit status of the printers; the text they print comes from the same document.\<close>

definition print_doctor :: "string \<Rightarrow> int" where
  "print_doctor doc =
     (case dom_parse doc of
        None \<Rightarrow> kExitStartFailure
      | Some v \<Rightarrow> if \<not> dom_flag v ''active_probes'' False \<or> dom_flag v ''rootless_ready'' False then 0 else 1)"

definition print_inspect :: "string \<Rightarrow> int" where
  "print_inspect doc =
     (case dom_parse doc of None \<Rightarrow> kExitStartFailure | Some v \<Rightarrow> if dom_str v ''status'' [] = ''error'' then 1 else 0)"

text \<open>\<open>flushed\<close>: standard output could be written.\<close>

definition print_capabilities :: "string \<Rightarrow> bool \<Rightarrow> bool \<Rightarrow> int" where
  "print_capabilities doc as_json flushed =
     (if as_json then (if flushed then 0 else 1)
      else case dom_parse doc of None \<Rightarrow> kExitStartFailure | Some v \<Rightarrow> 0)"

text \<open>\<open>report_query\<close> and the selection of a command; the usage and version texts are not modelled.\<close>

record main_env =
  me_run :: run_env
  me_context :: status
  me_doctor :: "bool \<Rightarrow> string result"         \<comment> \<open>with or without active probes\<close>
  me_inspect :: "string \<Rightarrow> string result"
  me_capabilities :: "string result"
  me_flushed :: bool

definition report_query :: "string result \<Rightarrow> (string \<Rightarrow> int) \<Rightarrow> int" where
  "report_query doc printer = (case doc of Inl s \<Rightarrow> kExitStartFailure | Inr t \<Rightarrow> printer t)"

definition real_main :: "main_env \<Rightarrow> string list \<Rightarrow> int" where
  "real_main m args =
     (case parse_arguments args of
        Inl err \<Rightarrow> kExitUsage
      | Inr p \<Rightarrow>
          (case pa_command p of
             Cmd_help \<Rightarrow> 0
           | Cmd_version \<Rightarrow> 0
           | Cmd_run \<Rightarrow> fst (run_command (me_run m) (pa_run p))
           | c \<Rightarrow>
               if \<not> is_ok (me_context m) then kExitStartFailure
               else if c = Cmd_doctor then report_query (me_doctor m (\<not> pa_no_active p)) print_doctor
               else if c = Cmd_capabilities then report_query (me_capabilities m) (\<lambda>t. print_capabilities t (pa_json p) (me_flushed m))
               else report_query (me_inspect m (pa_inspect_path p)) print_inspect))"

section \<open>The configuration of an accepted command line\<close>

lemma c_str_same [simp]: "nul \<notin> set s \<Longrightarrow> c_str s = s"
  by (auto simp: c_str_def takeWhile_eq_all_conv)

lemma apply_calls_append:
  "apply_calls (xs @ ys) c = (case apply_calls xs c of Inl e \<Rightarrow> Inl e | Inr c' \<Rightarrow> apply_calls ys c')"
  by (induction xs c rule: apply_calls.induct) (auto split: sum.splits)

lemma apply_envs:
  assumes "apply_calls (map (\<lambda>kv. (Add_env (Some kv), w)) env) c = Inr c'" and "list_all (\<lambda>s. nul \<notin> set s) env"
  shows "c' = c\<lparr>sc_env := sc_env c @ env\<rparr>"
  using assms
proof (induction env arbitrary: c)
  case (Cons kv env)
  then have "vhdp_config_add_env (Some kv) c = Inr (c\<lparr>sc_env := sc_env c @ [kv]\<rparr>)"
    by (auto simp: vhdp_config_add_env_def split: sum.splits if_splits)
  then show ?case using Cons.prems Cons.IH [of "c\<lparr>sc_env := sc_env c @ [kv]\<rparr>"] by simp
qed simp

lemma apply_binds:
  assumes "apply_calls (map (\<lambda>b. (Add_bind (Some (ba_host b)) (Some (ba_guest b)) (flag (ba_read_write b)), w)) bs) c = Inr c'"
    and "list_all (\<lambda>b. nul \<notin> set (ba_host b) \<and> nul \<notin> set (ba_guest b)) bs"
  shows "c' = c\<lparr>sc_binds := sc_binds c @ map (\<lambda>b. \<lparr>bs_host = ba_host b, bs_guest = ba_guest b, bs_read_write = ba_read_write b\<rparr>) bs\<rparr>"
  using assms
proof (induction bs arbitrary: c)
  case (Cons b bs)
  then have "vhdp_config_add_bind (Some (ba_host b)) (Some (ba_guest b)) (flag (ba_read_write b)) c =
      Inr (c\<lparr>sc_binds := sc_binds c @ [\<lparr>bs_host = ba_host b, bs_guest = ba_guest b, bs_read_write = ba_read_write b\<rparr>]\<rparr>)"
    by (auto simp: vhdp_config_add_bind_def VHDP_BIND_READ_WRITE_def Let_def split: sum.splits if_splits)
  then show ?case
    using Cons.prems
      Cons.IH [of "c\<lparr>sc_binds := sc_binds c @ [\<lparr>bs_host = ba_host b, bs_guest = ba_guest b, bs_read_write = ba_read_write b\<rparr>]\<rparr>"]
    by simp
qed simp

definition engine_named :: "string \<Rightarrow> engine_kind" where
  "engine_named s = (if s = ''rootless'' then Eng_rootless else if s = ''rooted'' then Eng_rooted
     else if s = ''emulator'' then Eng_emulator else if s = ''vm'' then Eng_vm else Eng_auto_select)"

text \<open>The configuration the options name, field by field.\<close>

definition named_config :: "run_options \<Rightarrow> (16 word \<times> 16 word) option \<Rightarrow> session_config" where
  "named_config opts term =
     \<lparr>sc_rootfs = ro_rootfs opts, sc_engine = engine_named (ro_engine opts),
      sc_cwd = (case ro_cwd opts of None \<Rightarrow> ''/'' | Some p \<Rightarrow> p), sc_argv = ro_command opts, sc_env = ro_env opts,
      sc_clear_env = ro_clear_env opts,
      sc_binds = map (\<lambda>b. \<lparr>bs_host = ba_host b, bs_guest = ba_guest b, bs_read_write = ba_read_write b\<rparr>) (ro_binds opts),
      sc_read_only_rootfs = ro_read_only_rootfs opts, sc_network = (if ro_network opts = ''none'' then Net_none else Net_host),
      sc_uid = ro_uid opts, sc_gid = ro_gid opts, sc_timeout_ms = (case ro_timeout_ms opts of None \<Rightarrow> 0 | Some t \<Rightarrow> t),
      sc_trace = ro_trace opts, sc_stdio = (if ro_pty opts then Stdio_pty else Stdio_inherit), sc_stdio_fds = [- 1, - 1, - 1],
      sc_pty_rows = (if ro_pty opts then case term of None \<Rightarrow> 24 | Some (r, c) \<Rightarrow> unat r else 24),
      sc_pty_cols = (if ro_pty opts then case term of None \<Rightarrow> 80 | Some (r, c) \<Rightarrow> unat c else 80),
      sc_output_fn = ro_pty opts,
      sc_seccomp = (if ro_seccomp opts = ''on'' then Seccomp_on else if ro_seccomp opts = ''off'' then Seccomp_off else Seccomp_auto_select),
      sc_dev = (if ro_dev opts = ''none'' then Dev_none else Dev_minimal), sc_proc = (if ro_proc opts = ''host'' then Proc_host else Proc_none)\<rparr>"

definition texts_of :: "run_options \<Rightarrow> string list" where
  "texts_of opts = ro_rootfs opts # ro_command opts @ ro_env opts @ map ba_host (ro_binds opts) @ map ba_guest (ro_binds opts) @
     (case ro_cwd opts of None \<Rightarrow> [] | Some p \<Rightarrow> [p])"

abbreviation fixed_calls :: "run_options \<Rightarrow> (config_call \<times> string) list" where
  "fixed_calls opts \<equiv>
     [(Set_rootfs (Some (ro_rootfs opts)), ''rootfs''), (Set_engine (engine_value (ro_engine opts)), ''--engine''),
      (Set_argv (length (ro_command opts)) (Some (map Some (ro_command opts))), ''command''),
      (Set_clear_env (flag (ro_clear_env opts)), ''--clear-env''),
      (Set_read_only (flag (ro_read_only_rootfs opts)), ''--read-only-rootfs''),
      (Set_network (flag (ro_network opts = ''none'')), ''--network''),
      (Set_trace (flag (ro_trace opts)), ''--trace''),
      (Set_seccomp (if ro_seccomp opts = ''on'' then 1 else if ro_seccomp opts = ''off'' then 2 else 0), ''--seccomp''),
      (Set_dev (flag (ro_dev opts = ''none'')), ''--dev''), (Set_proc (flag (ro_proc opts = ''host'')), ''--proc'')]"

lemma set_argv_same:
  "list_all (\<lambda>s. nul \<notin> set s) cmd \<Longrightarrow> vhdp_config_set_argv (length cmd) (Some (map Some cmd)) c = Inr c' \<Longrightarrow> c' = c\<lparr>sc_argv := cmd\<rparr>"
  using map_idI [of cmd c_str]
  by (auto simp: vhdp_config_set_argv_def list_all_iff o_def Let_def split: if_splits)

lemma set_engine_same: "vhdp_config_set_engine (engine_value s) c = Inr (c\<lparr>sc_engine := engine_named s\<rparr>)"
  by (simp add: vhdp_config_set_engine_def engine_value_def engine_named_def engine_of_value_def VHDP_ENGINE_VM_def)

lemma flag_setters:
  "vhdp_config_set_clear_env (flag b) c = Inr (c\<lparr>sc_clear_env := b\<rparr>)"
  "vhdp_config_set_read_only_rootfs (flag b) c = Inr (c\<lparr>sc_read_only_rootfs := b\<rparr>)"
  "vhdp_config_set_network (flag b) c = Inr (c\<lparr>sc_network := (if b then Net_none else Net_host)\<rparr>)"
  "vhdp_config_set_trace (flag b) c = Inr (c\<lparr>sc_trace := b\<rparr>)"
  "vhdp_config_set_dev (flag b) c = Inr (c\<lparr>sc_dev := (if b then Dev_none else Dev_minimal)\<rparr>)"
  "vhdp_config_set_proc (flag b) c = Inr (c\<lparr>sc_proc := (if b then Proc_host else Proc_none)\<rparr>)"
  by (simp_all add: vhdp_config_set_clear_env_def vhdp_config_set_read_only_rootfs_def vhdp_config_set_network_def vhdp_config_set_trace_def
      vhdp_config_set_dev_def vhdp_config_set_proc_def VHDP_NETWORK_NONE_def VHDP_DEV_NONE_def VHDP_PROC_HOST_def)

lemma set_seccomp_same:
  "vhdp_config_set_seccomp (if on then 1 else if off' then 2 else 0) c =
     Inr (c\<lparr>sc_seccomp := (if on then Seccomp_on else if off' then Seccomp_off else Seccomp_auto_select)\<rparr>)"
  by (simp add: vhdp_config_set_seccomp_def VHDP_SECCOMP_OFF_def)

lemma apply_fixed:
  assumes "apply_calls (fixed_calls opts) c = Inr c'" and "list_all (\<lambda>s. nul \<notin> set s) (ro_rootfs opts # ro_command opts)"
  shows "c' = c\<lparr>sc_rootfs := ro_rootfs opts, sc_engine := engine_named (ro_engine opts), sc_argv := ro_command opts,
    sc_clear_env := ro_clear_env opts, sc_read_only_rootfs := ro_read_only_rootfs opts,
    sc_network := (if ro_network opts = ''none'' then Net_none else Net_host), sc_trace := ro_trace opts,
    sc_seccomp := (if ro_seccomp opts = ''on'' then Seccomp_on else if ro_seccomp opts = ''off'' then Seccomp_off else Seccomp_auto_select),
    sc_dev := (if ro_dev opts = ''none'' then Dev_none else Dev_minimal), sc_proc := (if ro_proc opts = ''host'' then Proc_host else Proc_none)\<rparr>"
proof -
  let ?c1 = "c\<lparr>sc_rootfs := ro_rootfs opts\<rparr>"
  have r: "vhdp_config_set_rootfs (Some (ro_rootfs opts)) c = Inr ?c1"
    using assms by (auto simp: vhdp_config_set_rootfs_def split: sum.splits if_splits)
  let ?c2 = "?c1\<lparr>sc_engine := engine_named (ro_engine opts)\<rparr>"
  obtain c3 where a: "vhdp_config_set_argv (length (ro_command opts)) (Some (map Some (ro_command opts))) ?c2 = Inr c3"
    using assms(1) r by (auto simp: set_engine_same split: sum.splits)
  then have "c3 = ?c2\<lparr>sc_argv := ro_command opts\<rparr>" using assms(2) by (intro set_argv_same) simp_all
  then show ?thesis
    using assms(1) r a unfolding apply_calls.simps config_op.simps set_engine_same flag_setters set_seccomp_same by simp
qed

lemma case_option_id: "(case x of None \<Rightarrow> None | Some n \<Rightarrow> Some n) = x"
  by (cases x) simp_all

lemma apply_cwd:
  "apply_calls (case cwd of None \<Rightarrow> [] | Some p \<Rightarrow> [(Set_cwd (Some p), w)]) c = Inr c' \<Longrightarrow> \<forall>p. cwd = Some p \<longrightarrow> nul \<notin> set p \<Longrightarrow>
     c' = c\<lparr>sc_cwd := (case cwd of None \<Rightarrow> sc_cwd c | Some p \<Rightarrow> p)\<rparr>"
  by (auto simp: vhdp_config_set_cwd_def Let_def split: option.splits sum.splits if_splits)

lemma apply_ids:
  "apply_calls (case u of None \<Rightarrow> [] | Some u \<Rightarrow> [(Set_uid (of_nat u), w)]) c = Inr c' \<Longrightarrow> \<forall>n. u = Some n \<longrightarrow> n < 4294967295 \<Longrightarrow>
     c' = c\<lparr>sc_uid := (case u of None \<Rightarrow> sc_uid c | Some n \<Rightarrow> Some n)\<rparr>"
  "apply_calls (case g of None \<Rightarrow> [] | Some g \<Rightarrow> [(Set_gid (of_nat g), w)]) c = Inr c' \<Longrightarrow> \<forall>n. g = Some n \<longrightarrow> n < 4294967295 \<Longrightarrow>
     c' = c\<lparr>sc_gid := (case g of None \<Rightarrow> sc_gid c | Some n \<Rightarrow> Some n)\<rparr>"
  by (auto simp: vhdp_config_set_uid_def vhdp_config_set_gid_def unat_of_nat split: option.splits sum.splits if_splits)

lemma apply_timeout:
  "apply_calls (case t of None \<Rightarrow> [] | Some t \<Rightarrow> [(Set_timeout (of_nat t), w)]) c = Inr c' \<Longrightarrow> \<forall>n. t = Some n \<longrightarrow> n \<le> kMaxTimeoutMs \<Longrightarrow>
     c' = c\<lparr>sc_timeout_ms := (case t of None \<Rightarrow> sc_timeout_ms c | Some n \<Rightarrow> n)\<rparr>"
  by (auto simp: vhdp_config_set_timeout_ms_def unat_of_nat kMaxTimeoutMs_def split: option.splits sum.splits if_splits)

lemma apply_pty:
  assumes "apply_calls (if pty
      then [(Set_stdio 1 (- 1) (- 1) (- 1), w),
            (case term of None \<Rightarrow> Set_pty_size 24 80 | Some (r, c) \<Rightarrow> Set_pty_size r c, w), (Set_output True, w)]
      else []) c = Inr c'"
  shows "c' = (if pty then c\<lparr>sc_stdio := Stdio_pty, sc_stdio_fds := [- 1, - 1, - 1],
      sc_pty_rows := (case term of None \<Rightarrow> 24 | Some (r, c) \<Rightarrow> unat r), sc_pty_cols := (case term of None \<Rightarrow> 80 | Some (r, c) \<Rightarrow> unat c),
      sc_output_fn := True\<rparr> else c)"
  using assms
  by (auto simp: vhdp_config_set_stdio_def VHDP_STDIO_FDS_def vhdp_config_set_pty_size_def vhdp_config_set_output_callback_def
      split: if_splits option.splits sum.splits)

text \<open>
  C21: an accepted command line runs the session it names: when every call of the tool on the configuration
  succeeds, the configuration has exactly the options' values, and the library's defaults elsewhere.
\<close>

theorem cli_config_faithful:
  assumes "run_ok opts" and "list_all (\<lambda>s. nul \<notin> set s) (texts_of opts)"
    and "apply_calls (run_calls opts term) default_config = Inr c"
  shows "c = named_config opts term"
proof -
  obtain c1 c2 c3 c4 c5 c6 c7 where
    s1: "apply_calls (fixed_calls opts) default_config = Inr c1"
    and s2: "apply_calls (case ro_cwd opts of None \<Rightarrow> [] | Some p \<Rightarrow> [(Set_cwd (Some p), ''--cwd'')]) c1 = Inr c2"
    and s3: "apply_calls (map (\<lambda>kv. (Add_env (Some kv), ''--env'')) (ro_env opts)) c2 = Inr c3"
    and s4: "apply_calls (map (\<lambda>b. (Add_bind (Some (ba_host b)) (Some (ba_guest b)) (flag (ba_read_write b)), ''--bind'')) (ro_binds opts)) c3 = Inr c4"
    and s5: "apply_calls (case ro_uid opts of None \<Rightarrow> [] | Some u \<Rightarrow> [(Set_uid (of_nat u), ''--uid'')]) c4 = Inr c5"
    and s6: "apply_calls (case ro_gid opts of None \<Rightarrow> [] | Some g \<Rightarrow> [(Set_gid (of_nat g), ''--gid'')]) c5 = Inr c6"
    and s7: "apply_calls (case ro_timeout_ms opts of None \<Rightarrow> [] | Some t \<Rightarrow> [(Set_timeout (of_nat t), ''--timeout'')]) c6 = Inr c7"
    and s8: "apply_calls (if ro_pty opts
      then [(Set_stdio 1 (- 1) (- 1) (- 1), ''--pty''),
            (case term of None \<Rightarrow> Set_pty_size 24 80 | Some (r, c) \<Rightarrow> Set_pty_size r c, ''--pty''), (Set_output True, ''--pty'')]
      else []) c7 = Inr c"
    using assms(3) unfolding run_calls_def apply_calls_append by (auto simp del: apply_calls.simps split: sum.splits)
  have texts: "list_all (\<lambda>s. nul \<notin> set s) (ro_rootfs opts # ro_command opts)" "list_all (\<lambda>s. nul \<notin> set s) (ro_env opts)"
    "list_all (\<lambda>b. nul \<notin> set (ba_host b) \<and> nul \<notin> set (ba_guest b)) (ro_binds opts)" "\<forall>p. ro_cwd opts = Some p \<longrightarrow> nul \<notin> set p"
    using assms(2) by (auto simp: texts_of_def list_all_iff)
  have nums: "\<forall>n. ro_uid opts = Some n \<longrightarrow> n < 4294967295" "\<forall>n. ro_gid opts = Some n \<longrightarrow> n < 4294967295"
    "\<forall>n. ro_timeout_ms opts = Some n \<longrightarrow> n \<le> kMaxTimeoutMs"
    using assms(1) by (auto simp: run_ok_def)
  note f = apply_fixed [OF s1 texts(1)] apply_cwd [OF s2 texts(4)] apply_envs [OF s3 texts(2)] apply_binds [OF s4 texts(3)]
    apply_ids(1) [OF s5 nums(1)] apply_ids(2) [OF s6 nums(2)] apply_timeout [OF s7 nums(3)] apply_pty [OF s8]
  show ?thesis
    unfolding f(8) unfolding f(7) unfolding f(6) unfolding f(5) unfolding f(4) unfolding f(3) unfolding f(2) unfolding f(1)
      named_config_def default_config_def
    by (cases "ro_pty opts") (simp_all add: case_option_id cong: option.case_cong split del: if_split)
qed

definition sample_opts :: run_options where
  "sample_opts = default_run\<lparr>ro_rootfs := ''r'', ro_command := [''ls''], ro_uid := Some 7, ro_network := ''none''\<rparr>"

lemma sample_calls_ok: "\<exists>c. apply_calls (run_calls sample_opts None) default_config = Inr c"
proof -
  have k: "\<not> kMaxArgs < 1" by (simp add: kMaxArgs_def)
  then show ?thesis
    by (simp add: run_calls_def sample_opts_def default_run_def vhdp_config_set_rootfs_def vhdp_config_set_engine_def engine_value_def
        VHDP_ENGINE_VM_def vhdp_config_set_argv_def vhdp_config_set_clear_env_def vhdp_config_set_read_only_rootfs_def
        vhdp_config_set_network_def VHDP_NETWORK_NONE_def vhdp_config_set_trace_def vhdp_config_set_seccomp_def VHDP_SECCOMP_OFF_def
        vhdp_config_set_dev_def VHDP_DEV_NONE_def vhdp_config_set_proc_def VHDP_PROC_HOST_def vhdp_config_set_uid_def)
qed

theorem cli_config_faithful_witness:
  "\<exists>c. apply_calls (run_calls sample_opts None) default_config = Inr c \<and> sc_uid c = Some 7 \<and> sc_network c = Net_none \<and> sc_argv c = [''ls'']"
proof -
  obtain c where c: "apply_calls (run_calls sample_opts None) default_config = Inr c" using sample_calls_ok by blast
  have "c = named_config sample_opts None"
    by (rule cli_config_faithful [OF _ _ c])
      (simp_all add: run_ok_def sample_opts_def default_run_def texts_of_def)
  then show ?thesis using c by (simp add: named_config_def sample_opts_def)
qed

section \<open>Exit status\<close>

text \<open>
  C22: \<open>phdp run\<close> exits with 0 only when the guest ran to its end and its program exited with 0 (modulo 256): no
  failure on the way, of the options, the context, the configuration, the start or the wait, is reported as success.
\<close>

theorem run_zero_only_success:
  assumes "fst (run_command v opts) = 0"
    and "\<And>i. rv_wait v = Inr i \<Longrightarrow> \<exists>r st. i = exit_info_of r st \<and> 0 \<le> er_term_signal r"
  shows "\<exists>c r st. apply_calls (run_calls opts (rv_term v)) default_config = Inr c \<and> is_ok (rv_session v c) \<and> is_ok (rv_start v c) \<and>
    rv_wait v = Inr (exit_info_of r st) \<and> er_reason r = Exit_normal \<and> er_exit_code r mod 256 = 0"
proof -
  obtain c where c: "apply_calls (run_calls opts (rv_term v)) default_config = Inr c" "fst (run_session_cli v c) = 0"
    using assms(1)
    by (auto simp: run_command_def kExitUsage_def kExitStartFailure_def cli_fail_def simp del: apply_calls.simps split: if_splits sum.splits)
  then have s: "is_ok (rv_session v c)" "is_ok (rv_start v c)" "\<exists>i. rv_wait v = Inr i \<and> xi_shell_status i = 0"
    by (auto simp: run_session_cli_def kExitStartFailure_def cli_fail_def Let_def split: if_splits sum.splits)
  then obtain r st where r: "rv_wait v = Inr (exit_info_of r st)" "0 \<le> er_term_signal r" "shell_status r = 0"
    using assms(2) by (auto simp: exit_info_of_def)
  then have "er_reason r = Exit_normal \<and> er_exit_code r mod 256 = 0"
    by (auto simp: shell_status_def split: exit_reason.splits if_splits)
  then show ?thesis using c(1) s(1,2) r(1) by (intro exI [of _ c] exI [of _ r] exI [of _ st] conjI) simp_all
qed

definition good_run :: run_env where
  "good_run = \<lparr>rv_fd_open = \<lambda>fd. True, rv_status = \<lambda>p. Inl ENOENT, rv_term = None, rv_context = status_ok, rv_config = status_ok,
     rv_session = \<lambda>c. status_ok, rv_start = \<lambda>c. status_ok, rv_wait_now = Inl status_ok,
     rv_wait = Inr (exit_info_of (no_result\<lparr>er_reason := Exit_normal\<rparr>) St_exited)\<rparr>"

theorem run_zero_only_success_witness:
  "\<exists>c r st. apply_calls (run_calls sample_opts None) default_config = Inr c \<and>
     rv_wait good_run = Inr (exit_info_of r st) \<and> er_reason r = Exit_normal"
proof -
  obtain c where c: "apply_calls (run_calls sample_opts None) default_config = Inr c" using sample_calls_ok by blast
  have "fst (run_command good_run sample_opts) = 0"
    using c by (simp add: run_command_def cli_tracer_pid_def good_run_def sample_opts_def default_run_def run_session_cli_def exit_info_of_def shell_status_def no_result_def
        del: apply_calls.simps)
  from run_zero_only_success [OF this] show ?thesis by (force simp: good_run_def no_result_def)
qed

lemma dom_parse_emit: "dom_fits 0 t \<Longrightarrow> dom_parse (jw_out (Json_Validity.emit t new_writer)) = Some (dom_of t)"
  using parses_jtext [of 0 t "[]"] unfolding jw_out_emit_new by (simp add: dom_parse_def parses_def) (simp add: v_ws_def)

lemma dom_fits_doctor: "dom_fits 0 (doctor_tree d engines active)"
  by (auto simp: doctor_tree_def check_tree_def engine_tree_def)

lemma dom_fits_inspect_shell: "d \<le> 128 \<Longrightarrow> m \<in> set (fst (inspect_shell h t sh r)) \<Longrightarrow> dom_fits d (snd m)"
  unfolding inspect_shell_def interp_members_def
  by (auto simp: Let_def split: prod.splits option.splits if_splits)

lemma dom_fits_inspect_shells: "d < 128 \<Longrightarrow> j \<in> set (fst (inspect_shells h t shs)) \<Longrightarrow> dom_fits d j"
proof (induction shs)
  case (Cons sh shs)
  obtain js fs b where x: "inspect_shells h t shs = (js, fs, b)" by (metis prod_cases3)
  show ?case
  proof (cases "guest_file h t sh")
    case None
    then show ?thesis using Cons x by simp
  next
    case (Some r)
    obtain ms f ok where y: "inspect_shell h t sh r = (ms, f, ok)" by (metis prod_cases3)
    have "dom_fits (Suc d) (snd m)" if "m \<in> set ms" for m using dom_fits_inspect_shell [of "Suc d" m h t sh r] that y Cons.prems(1) by simp
    then show ?thesis using Cons x y Some by auto
  qed
qed simp

lemma dom_fits_inspect: "dom_fits 0 (inspect_tree h rootfs_in)"
proof -
  have "dom_fits (Suc (Suc 0)) j" if "j \<in> set (fst (inspect_shells h t kShells))" for j t
    using that by (intro dom_fits_inspect_shells) auto
  then show ?thesis by (auto simp: inspect_tree_def finding_tree_def Let_def split: option.splits)
qed

lemma status_not_error: "scrub (status_of_findings fs) = ''error'' \<longleftrightarrow> status_of_findings fs = ''error''"
  by (simp add: status_of_findings_eq scrub_ascii)

text \<open>
  C24: what the tool exits with is what the library found: through the writer, the reader and the accessors, \<open>phdp doctor\<close>
  fails exactly when the probes were run and the rootless engine is not ready, and \<open>phdp inspect\<close> exactly when the
  root file system is missing or has an error.
\<close>

theorem report_exit_status:
  "print_doctor (build_doctor_json d engines active) = (if active \<and> \<not> rootless_ready d active then 1 else 0) \<and>
   print_inspect (build_inspect_json h rootfs_in) =
     (case inspect_root h rootfs_in of
        None \<Rightarrow> 1 | Some dir \<Rightarrow> if status_of_findings (inspect_findings h dir) = ''error'' then 1 else 0)"
proof
  have "dom_flag (dom_of (doctor_tree d engines active)) ''active_probes'' False = active"
    "dom_flag (dom_of (doctor_tree d engines active)) ''rootless_ready'' False = rootless_ready d active"
    by (simp_all add: doctor_tree_def dom_flag_def scrub_ascii)
  then show "print_doctor (build_doctor_json d engines active) = (if active \<and> \<not> rootless_ready d active then 1 else 0)"
    by (simp add: print_doctor_def build_doctor_json_def dom_parse_emit [OF dom_fits_doctor])
  have "dom_str (dom_of (inspect_tree h rootfs_in)) ''status'' [] =
      (case inspect_root h rootfs_in of None \<Rightarrow> ''error'' | Some dir \<Rightarrow> scrub (status_of_findings (inspect_findings h dir)))"
    by (simp add: inspect_tree_def dom_str_def scrub_ascii Let_def split: option.splits)
  then show "print_inspect (build_inspect_json h rootfs_in) =
     (case inspect_root h rootfs_in of
        None \<Rightarrow> 1 | Some dir \<Rightarrow> if status_of_findings (inspect_findings h dir) = ''error'' then 1 else 0)"
    by (simp add: print_inspect_def build_inspect_json_def dom_parse_emit [OF dom_fits_inspect] status_not_error split: option.splits)
qed

text \<open>The three reports of the tool are valid JSON.\<close>

theorem tool_reports_valid:
  "json_validate (build_doctor_json d engines active) \<and> json_validate (build_inspect_json h rootfs_in) \<and>
   json_validate (build_capabilities_json b engines nr_of)"
proof -
  have valid: "fits 0 t \<Longrightarrow> json_validate (jw_out (Json_Validity.emit t new_writer))" for t
    unfolding jw_out_emit_new by (rule json_validate_reads) (simp add: reads_jtext)
  have "fits 0 (doctor_tree d engines active)" by (auto simp: doctor_tree_def check_tree_def engine_tree_def)
  then show ?thesis
    using valid fits_inspect_tree fits_capabilities_tree
    unfolding build_doctor_json_def build_inspect_json_def build_capabilities_json_def by blast
qed

end
