(* ===== verification/Spec2Isabelle.thy ===== *)
theory Spec2Isabelle
  imports Resolver_Behaviour Json_Roundtrip Cli_Args Filter_Agreement Read_Only Loader_Start
    Bootstrap_Safety Configure_Safety Host_Probe_Safety Cli_Run
begin

text \<open>
  Verification of the core of vhdp, a C++ program that runs the programs of a Linux root file system
  without privileges: a supervisor traces them with ptrace, translates the paths of their system
  calls, emulates identity and hard links, and refuses what cannot be confined.

  \<^bold>\<open>Parts of the program and the theories that model them.\<close>

  \<^item> Guest paths and mounts. \<open>Guest_Path\<close> (vfs/guest_path.cpp), \<open>Mount_Table\<close> (vfs/mount_table.cpp) and
    \<open>Link_Marker\<close> (vfs/link_marker.hpp): lexical normalisation, the longest-prefix lookup between guest and
    host names, the recognisers of emulated hard links.
  \<^item> The resolver. \<open>Resolver\<close> (vfs/resolver.cpp, resolver.hpp) holds the walk with its directory cache
    as a step function iterated by a loop that is bounded by the symlink limit; the host file system is the
    parameter record \<open>host\<close>. \<open>Resolver_Safety\<close> shows containment, that prefixes are directories, and
    that the cache is transparent and stays sound; \<open>Resolver_Behaviour\<close> the results for symlinks and loops.
  \<^item> Text. \<open>Json\<close>, \<open>Json_Validity\<close> (common/json.cpp), \<open>Json_Dom\<close>, \<open>Json_Roundtrip\<close> (cli/json_dom.cpp),
    \<open>Strings\<close> (common/strings.cpp), \<open>Status\<close> (common/status.cpp, linux_abi/errno_table.c), \<open>Events\<close>
    (core/events.cpp): the writer always produces text the validator accepts and the reader reads back.
  \<^item> Sessions. \<open>Config\<close>, \<open>Engine_Select\<close>, \<open>Lifecycle\<close>, \<open>Session\<close> (core/): validation of a
    configuration, choice of the engine, and the four threads of a session (start, waiter, watchdog,
    cancel) as an interleaving step relation with its invariants by rule induction.
  \<^item> Engines and host. \<open>Host_Probe\<close> (platform/linux/host_probe.cpp, probe_child.c): the probes as the calls they
    issue and the questions they read from files; \<open>Host_Probe_Safety\<close> shows that they clean up and that the
    namespace probe stays on its own directory. \<open>Engines\<close> (engines/rootless/rootless_engine.cpp,
    engines/unavailable/unavailable_engine.cpp, core/context.cpp): what the probes make available, the instance of a
    session and its terminal. \<open>Doctor\<close> (core/doctor.cpp): the report on the same answers.
    \<open>Capabilities\<close> (core/capabilities.cpp, hdr/hardware_registry.cpp, the catalogue of vdr/drivers.cpp): the tables.
  \<^item> The C interface. \<open>Capi\<close> (capi/capi.cpp, include/vhdp/vhdp.h, core/context.cpp) holds the contexts,
    configurations and sessions of a caller and every exported call; \<open>Capi_Safety\<close> shows that every configuration
    it builds is well formed, that no context goes before its sessions, and the two-call protocol of the reports.
  \<^item> Root file systems. \<open>Configure\<close> (core/configure.cpp, dpkg_recovery.cpp, projection.cpp): the preparation of a
    rootfs over a tree of files, the recovery plan and the projected facts; \<open>Configure_Safety\<close> shows that nothing
    is lost and that the reports are valid. \<open>Inspect\<close> (core/inspect.cpp): the findings about a rootfs; one reported
    \<open>ok\<close> has a shell a session can start.
  \<^item> The command line. \<open>Cli_Args\<close> (cli/cli_args.cpp), \<open>Cpp_Wrapper\<close> (the buffer loops of include/vhdp/vhdp.hpp) and
    \<open>Cli_Run\<close> (cli/cli_run.cpp, cli_report.cpp, main.cpp): the calls an accepted command line makes, event lines,
    signals, input, and the exit status of every command.
  \<^item> Programs. \<open>Elf\<close> (linux_abi/elf.c), \<open>Exec_Resolver\<close> (engines/rootless/exec_resolver.cpp),
    \<open>Load_Request\<close> (the request that Supervisor::make_load_request writes and loader/loader.c reads), \<open>Loader\<close>
    (the rest of loader.c as a list of operations on the address space), \<open>Loader_Memory\<close>,
    \<open>Loader_Confined\<close> and \<open>Loader_Start\<close> (the bytes those operations leave, where they may fall, and what
    the guest finds on its stack). \<open>Bootstrap\<close> (engines/rootless/bootstrap.c) is the child between clone and exec as
    the list of its calls; \<open>Bootstrap_Safety\<close> shows its descriptors, its order and its failure reports.
    \<open>Trace_Monad\<close> is the sequencing these two and the probes share.
  \<^item> The trap. \<open>Seccomp_Filter\<close> (engines/rootless/seccomp_filter.cpp) generates the BPF program and
    evaluates it; \<open>Syscall_Table\<close> (linux_abi/syscall_table.cpp, syscalls.def) classifies every call.
  \<^item> The supervisor. \<open>Tracee_Mem\<close> (tracee_mem.cpp and the StackWriter of supervisor.cpp),
    \<open>Regs\<close> (arch/), \<open>Host_Proc\<close> (platform/linux/proc.cpp), \<open>Proc_Synth\<close> (proc_synth.cpp),
    \<open>Link_Store\<close> (link_store.cpp), \<open>Supervisor_State\<close> (the data of supervisor.hpp), and the handlers of
    syscall_handlers.cpp in \<open>Identity\<close>, \<open>Translate\<close>, \<open>Handlers\<close>, \<open>Dispatch\<close> (the entry of a call) and
    \<open>Fixups\<close> (its exit). \<open>Supervisor\<close> holds the entry and exit stops of a call, \<open>Supervisor_Events\<close> the
    event loop with every stop it handles, the restart of calls a host filter trapped, cancellation and the
    end of a run, \<open>Spawn\<close> the start of a session (Supervisor::prepare_and_spawn) and \<open>Drivers\<close> its mount
    table and terminal (vdr/drivers.cpp).
  \<^item> Calls as a whole. \<open>Supervisor_Frame\<close> shows what each operation leaves alone, \<open>Call_Roundtrip\<close> what
    a guest sees of a call from its entry stop to its exit stop, \<open>Filter_Agreement\<close> that the filter and the
    dispatcher agree. \<open>Nul_Free\<close>, \<open>Path_Arguments\<close> and \<open>Two_Paths\<close> follow a path from the guest's memory
    through the resolver to the string the kernel reads, for calls that name one and two files;
    \<open>Read_Only\<close> looks at read-only mounts and descriptors.

  \<^bold>\<open>Modelling.\<close>  A C++ class is a record, an operation a function from the record to the updated
  record and its result; an errno return is \<open>Inl\<close> of the errno name. Machine integers are words where
  their width matters. What the code asks of the kernel (stat, readlink, process_vm_readv, the clock, ...) is
  a field of a parameter record; the theorems state what they rely on as hypotheses on those fields, and each
  witness instantiates them with a concrete table. Loops of the source are structural recursions over their
  data or carry fuel that a lemma proves sufficient: the resolver's fuel is bounded by the path length and the
  symlink limit, the BPF evaluator's by the length of the program, the string reader's by its size limit.

  \<^bold>\<open>What is shown.\<close>  The properties are numbered C1, C2, ... in the theories. Among them: no resolution
  leaves the mounts of the session; the directory cache never changes an answer; the generated filter decides
  exactly as its policy; every path argument of a call that is passed on is a host path below a mount; every
  program the kernel is asked to run lies below a mount; emulated hard links
  implement an abstract inode with a link count and a refused conversion leaves the file as it was; a guest
  that dropped its privileges cannot take them back; a cancel request is never lost; a call the kernel runs
  behind the supervisor's back is one the dispatcher would have passed unchanged; a refused call changes no
  register but its result, and a rewritten one gets its arguments back; a segment of a guest program holds its
  file bytes and zeros; a program starts only after it is traced and locked down, with the descriptors the session
  chose; an engine runs a session only as it was asked to, and its probes leave nothing behind; configuring a root
  file system loses nothing; an accepted command line runs the session it names, and the tool exits with 0 only
  when the guest program did. Five properties show defects: a first path kept below the
  stack pointer can be overwritten by the second (\<open>Two_Paths\<close>), the read-only check is skipped for an empty path
  (\<open>Read_Only\<close>), a segment with an enormous memory size leaves the reserved span (\<open>Loader_Confined\<close>), a
  callback of one context keeps a session of another from being waited for (\<open>Capi_Safety\<close>), and the host report calls
  an engine ready that is unavailable (\<open>Doctor\<close>).

  \<^bold>\<open>Not modelled.\<close>  The layout of the text reports and usage texts (cli_report.cpp, cli_args.cpp), raw terminal
  mode, and the start and joining of threads: output and timing with no decision. The members of the C++ wrapper
  (include/vhdp/vhdp.hpp) that forward one call of the C interface appear as those calls. Assembly system call stubs
  (arch/) and the RAII descriptor (common/unique_fd.hpp) have no model of their own.
\<close>

end
